(* ===== verification/Raind_Prelude.thy ===== *)
theory Raind_Prelude
  imports Main "HOL-Library.AList" "HOL-Library.Sublist" "HOL-Library.Char_ord"
    "HOL-Library.List_Lexorder" "HOL-Library.Multiset"
begin

text \<open>
  Shared vocabulary of the development: the Go notions every component of Raind uses.

  \<^item> Errors and panics are values (\<open>go_error\<close>), a fallible call returns \<open>'a res\<close>.
  \<^item> A Go \<open>map\<close> is an association list with distinct keys. Its list order stands for the order in
    which a \<open>range\<close> over the map visits the entries, which Go leaves open: statements
    quantify over every such list, hence over every iteration order.
  \<^item> Strings are byte strings (\<open>string\<close>); case conversion and trimming are modelled on ASCII.
  \<^item> Instants are integers, the zero instant is \<open>0\<close>.
\<close>

named_theorems store_simps \<open>unfolding rules of the file-backed stores\<close>
named_theorems inv_intros \<open>preservation lemmas of the store invariants\<close>
named_theorems go_string \<open>unfolding rules of the string functions\<close>

section \<open>Errors\<close>

datatype go_error =
    Msg string      \<comment> \<open>an error the code builds with \<open>fmt.Errorf\<close>\<close>
  | SysErr string   \<comment> \<open>an error a system or library call reported, with its text\<close>
  | Panic string    \<comment> \<open>a run-time panic\<close>

type_synonym 'a res = "go_error + 'a"

fun error_text :: "go_error \<Rightarrow> string" where
  "error_text (Msg s) = s"
| "error_text (SysErr s) = s"
| "error_text (Panic s) = s"

fun is_ok :: "'a res \<Rightarrow> bool" where
  "is_ok (Inl _) = False"
| "is_ok (Inr _) = True"

lemma is_ok_iff [simp]: "is_ok r \<longleftrightarrow> (\<exists>x. r = Inr x)"
  by (cases r) auto

text \<open>The recurring \<open>if err := f(); err != nil { return err }\<close> followed by \<open>g\<close>, over a state.\<close>

definition and_then :: "('w \<Rightarrow> 'a res \<times> 'w) \<Rightarrow> ('a \<Rightarrow> 'w \<Rightarrow> 'b res \<times> 'w) \<Rightarrow> 'w \<Rightarrow> 'b res \<times> 'w" where
  "and_then f g w = (case f w of (Inl e, w') \<Rightarrow> (Inl e, w') | (Inr a, w') \<Rightarrow> g a w')"

lemma and_then_Inr:
  "and_then f g w = (Inr b, w') \<longleftrightarrow> (\<exists>a w1. f w = (Inr a, w1) \<and> g a w1 = (Inr b, w'))"
  by (auto simp: and_then_def split: prod.splits sum.splits)

text \<open>Go's \<open>_ = f()\<close>, and errors wrapped with a prefix.\<close>

definition ignore :: "('w \<Rightarrow> 'a \<times> 'w) \<Rightarrow> 'w \<Rightarrow> 'w" where
  "ignore f w = snd (f w)"

definition or_default :: "'a \<Rightarrow> 'a res \<Rightarrow> 'a" where
  "or_default z r = (case r of Inl _ \<Rightarrow> z | Inr a \<Rightarrow> a)"

definition wrap :: "string \<Rightarrow> go_error \<Rightarrow> go_error" where
  "wrap pre e = (case e of Panic m \<Rightarrow> Panic m | SysErr m \<Rightarrow> SysErr (pre @ '': '' @ m) | Msg m \<Rightarrow> Msg (pre @ '': '' @ m))"

definition wrapped :: "string \<Rightarrow> ('w \<Rightarrow> 'a res \<times> 'w) \<Rightarrow> 'w \<Rightarrow> 'a res \<times> 'w" where
  "wrapped pre f w = (case f w of (Inl e, w') \<Rightarrow> (Inl (wrap pre e), w') | (Inr a, w') \<Rightarrow> (Inr a, w'))"

text \<open>An error that is let pass, and a result that is dropped.\<close>

definition tolerate :: "(go_error \<Rightarrow> bool) \<Rightarrow> ('w \<Rightarrow> unit res \<times> 'w) \<Rightarrow> 'w \<Rightarrow> unit res \<times> 'w" where
  "tolerate p f w = (case f w of (Inl e, w') \<Rightarrow> (if p e then Inr () else Inl e, w') | (Inr _, w') \<Rightarrow> (Inr (), w'))"

definition void :: "('w \<Rightarrow> 'a res \<times> 'w) \<Rightarrow> 'w \<Rightarrow> unit res \<times> 'w" where
  "void f w = (case f w of (r, w') \<Rightarrow> (map_sum id (\<lambda>_. ()) r, w'))"

type_synonym time = int

abbreviation zero_time :: time where
  "zero_time \<equiv> 0"

section \<open>Go maps\<close>

type_synonym ('k, 'v) gomap = "('k \<times> 'v) list"

abbreviation wf_map :: "('k, 'v) gomap \<Rightarrow> bool" where
  "wf_map m \<equiv> distinct (map fst m)"

text \<open>The insertion \<open>m[k] = v\<close> and the builtin \<open>delete(m, k)\<close>.\<close>

abbreviation map_set :: "'k \<Rightarrow> 'v \<Rightarrow> ('k, 'v) gomap \<Rightarrow> ('k, 'v) gomap" where
  "map_set \<equiv> AList.update"

abbreviation map_del :: "'k \<Rightarrow> ('k, 'v) gomap \<Rightarrow> ('k, 'v) gomap" where
  "map_del \<equiv> AList.delete"

text \<open>Every value of the map is filed under the key its identifier field names.\<close>

definition keyed_by :: "('v \<Rightarrow> 'k) \<Rightarrow> ('k, 'v) gomap \<Rightarrow> bool" where
  "keyed_by key m \<longleftrightarrow> wf_map m \<and> (\<forall>(k, v) \<in> set m. key v = k)"

lemma keyed_by_Nil [simp]: "keyed_by key []"
  by (simp add: keyed_by_def)

lemma keyed_by_wf: "keyed_by key m \<Longrightarrow> wf_map m"
  by (simp add: keyed_by_def)

lemma keyed_byD: "keyed_by key m \<Longrightarrow> (k, v) \<in> set m \<Longrightarrow> key v = k"
  by (auto simp: keyed_by_def)

lemma set_map_set_subset: "set (map_set k v m) \<subseteq> insert (k, v) (set m)"
  by (induction m) auto

lemma set_map_del: "set (map_del k m) = {(k', v) \<in> set m. k' \<noteq> k}"
  by (auto simp: AList.delete_eq)

lemma wf_map_set [simp]: "wf_map m \<Longrightarrow> wf_map (map_set k v m)"
  by (rule AList.distinct_update)

lemma wf_map_del [simp]: "wf_map m \<Longrightarrow> wf_map (map_del k m)"
  by (rule AList.distinct_delete)

lemma keyed_by_set [intro]:
  assumes "keyed_by key m" and "key v = k"
  shows "keyed_by key (map_set k v m)"
  unfolding keyed_by_def
proof (intro conjI ballI)
  show "wf_map (map_set k v m)" using assms(1) by (simp add: keyed_by_def)
  fix x assume "x \<in> set (map_set k v m)"
  then have "x = (k, v) \<or> x \<in> set m" using set_map_set_subset by fastforce
  then show "case x of (k, v) \<Rightarrow> key v = k" using assms by (auto simp: keyed_by_def)
qed

lemma keyed_by_del [intro]: "keyed_by key m \<Longrightarrow> keyed_by key (map_del k m)"
  by (auto simp: keyed_by_def set_map_del)

lemma keyed_by_lookup: "keyed_by key m \<Longrightarrow> map_of m k = Some v \<Longrightarrow> key v = k"
  by (auto simp: keyed_by_def dest: map_of_SomeD)

lemma map_of_set [simp]: "map_of (map_set k v m) = (map_of m)(k \<mapsto> v)"
  by (rule AList.update_conv')

lemma map_of_del [simp]: "map_of (map_del k m) = (map_of m)(k := None)"
  by (rule AList.delete_conv')

lemma map_set_fresh: "k \<notin> fst ` set m \<Longrightarrow> map_set k v m = m @ [(k, v)]"
  by (induction m) auto

lemma keyed_by_map_fst: "keyed_by key m \<Longrightarrow> map (key \<circ> snd) m = map fst m"
  by (auto simp: keyed_by_def)

lemma keyed_by_values:
  "keyed_by key m \<Longrightarrow> v \<in> snd ` set m \<longleftrightarrow> map_of m (key v) = Some v"
  by (force simp: keyed_by_def dest: map_of_SomeD)

lemma distinct_map_sort_key: "distinct (map f (sort_key f xs)) = distinct (map f xs)"
  by (rule mset_eq_imp_distinct_iff) simp

lemma map_of_neq_None: "map_of m k \<noteq> None \<longleftrightarrow> k \<in> fst ` set m"
  by (simp add: map_of_eq_None_iff)

lemma option_eqI: "(\<And>b. x = Some b \<longleftrightarrow> y = Some b) \<Longrightarrow> x = y"
  by (cases x; cases y) auto

text \<open>
  A loop \<open>for k, v := range m\<close> that stops at the first entry satisfying a test. Where the
  test can hold for one entry only, the result does not depend on the iteration order.
\<close>

definition range_find :: "('k \<Rightarrow> 'v \<Rightarrow> bool) \<Rightarrow> ('k, 'v) gomap \<Rightarrow> ('k \<times> 'v) option" where
  "range_find p m = find (\<lambda>(k, v). p k v) m"

lemma range_find_Some:
  "range_find p m = Some (k, v) \<Longrightarrow> (k, v) \<in> set m \<and> p k v"
  unfolding range_find_def find_Some_iff by (metis case_prodD nth_mem)

lemma range_find_None: "range_find p m = None \<longleftrightarrow> (\<forall>(k, v) \<in> set m. \<not> p k v)"
  by (auto simp: range_find_def find_None_iff)

lemma find_unique:
  assumes "x \<in> set xs" and "P x" and "\<And>y. y \<in> set xs \<Longrightarrow> P y \<Longrightarrow> y = x"
  shows "find P xs = Some x"
proof (cases "find P xs")
  case None
  with assms(1,2) show ?thesis by (auto simp: find_None_iff)
next
  case (Some y)
  then have "y \<in> set xs" "P y" by (auto simp: find_Some_iff)
  with assms(3) Some show ?thesis by simp
qed

lemma range_find_unique:
  assumes "(k, v) \<in> set m" and "p k v"
    and "\<And>k' v'. (k', v') \<in> set m \<Longrightarrow> p k' v' \<Longrightarrow> (k', v') = (k, v)"
  shows "range_find p m = Some (k, v)"
  unfolding range_find_def
proof (rule find_unique)
  show "(k, v) \<in> set m" and "case (k, v) of (k, v) \<Rightarrow> p k v" using assms(1,2) by simp_all
  show "y = (k, v)" if "y \<in> set m" and "case y of (k, v) \<Rightarrow> p k v" for y
    using that assms(3) [of "fst y" "snd y"] by (simp add: case_prod_beta)
qed

lemma wf_map_lookup_iff: "wf_map m \<Longrightarrow> map_of m k = Some v \<longleftrightarrow> (k, v) \<in> set m"
  by (rule map_of_eq_Some_iff)

text \<open>Searching a keyed map for an identifier is looking the identifier up.\<close>

lemma range_find_key:
  assumes "keyed_by key m"
  shows "range_find (\<lambda>_ v. key v = i) m = map_option (Pair i) (map_of m i)"
proof (cases "map_of m i")
  case None
  then have "i \<notin> fst ` set m" by (simp add: map_of_eq_None_iff)
  with assms have "range_find (\<lambda>_ v. key v = i) m = None"
    by (force simp: range_find_None keyed_by_def)
  with None show ?thesis by simp
next
  case (Some v)
  then have "(i, v) \<in> set m" by (rule map_of_SomeD)
  moreover have "wf_map m" using assms by (rule keyed_by_wf)
  ultimately have "range_find (\<lambda>_ v. key v = i) m = Some (i, v)"
    using assms by (intro range_find_unique) (auto simp: keyed_by_def dest: eq_key_imp_eq_value)
  with Some show ?thesis by simp
qed

section \<open>Strings\<close>

definition has_prefix :: "string \<Rightarrow> string \<Rightarrow> bool" where
  "has_prefix s p = prefix p s"

definition has_suffix :: "string \<Rightarrow> string \<Rightarrow> bool" where
  "has_suffix s p = suffix p s"

definition str_contains :: "string \<Rightarrow> string \<Rightarrow> bool" where
  "str_contains s p = sublist p s"

definition to_lower_char :: "char \<Rightarrow> char" where
  "to_lower_char c = (if CHR ''A'' \<le> c \<and> c \<le> CHR ''Z'' then char_of (of_char c + 32 :: nat) else c)"

definition to_lower :: "string \<Rightarrow> string" where
  "to_lower s = map to_lower_char s"

definition is_space :: "char \<Rightarrow> bool" where
  "is_space c \<longleftrightarrow> c \<in> {CHR '' '', CHR 0x09, CHR 0x0A, CHR 0x0B, CHR 0x0C, CHR 0x0D}"

definition trim_space :: "string \<Rightarrow> string" where
  "trim_space s = rev (dropWhile is_space (rev (dropWhile is_space s)))"

definition trim_suffix :: "string \<Rightarrow> string \<Rightarrow> string" where
  "trim_suffix s p = (if suffix p s then take (length s - length p) s else s)"

text \<open>\<open>strings.Split(s, sep)\<close> for a one-byte separator: always at least one part.\<close>

fun split_on :: "char \<Rightarrow> string \<Rightarrow> string list" where
  "split_on c [] = [[]]"
| "split_on c (x # xs) =
     (if x = c then [] # split_on c xs
      else (case split_on c xs of [] \<Rightarrow> [[x]] | p # ps \<Rightarrow> (x # p) # ps))"

fun str_join :: "string \<Rightarrow> string list \<Rightarrow> string" where
  "str_join sep [] = []"
| "str_join sep [x] = x"
| "str_join sep (x # y # ys) = x @ sep @ str_join sep (y # ys)"

definition digit_char :: "nat \<Rightarrow> char" where
  "digit_char n = char_of (48 + n)"

fun show_nat :: "nat \<Rightarrow> string" where
  "show_nat n = (if n < 10 then [digit_char n] else show_nat (n div 10) @ [digit_char (n mod 10)])"

declare show_nat.simps [simp del]

text \<open>\<open>strconv.Itoa\<close>.\<close>

definition itoa :: "int \<Rightarrow> string" where
  "itoa i = (if i < 0 then ''-'' @ show_nat (nat (- i)) else show_nat (nat i))"

lemmas [go_string] = has_prefix_def has_suffix_def str_contains_def

lemma split_on_nonempty [simp]: "split_on c s \<noteq> []"
  by (induction s) (auto split: list.splits)

lemma split_on_no_sep: "c \<notin> set s \<Longrightarrow> split_on c s = [s]"
  by (induction s) auto

lemma split_on_append:
  "c \<notin> set s \<Longrightarrow> split_on c (s @ c # t) = s # split_on c t"
  by (induction s) auto

lemma str_join_split_on: "str_join [c] (split_on c s) = s"
proof (induction s)
  case Nil
  then show ?case by simp
next
  case (Cons x s)
  then show ?case by (cases "split_on c s"; cases "tl (split_on c s)") auto
qed

lemma hd_split_on: "hd (split_on c s) = takeWhile (\<lambda>x. x \<noteq> c) s"
  by (induction s) (auto split: list.splits)

end
