(* ===== verification/Store_Core.thy ===== *)
theory Store_Core
  imports Raind_Prelude
begin

text \<open>
  The file-backed state stores of condenser (\<open>src/internal/condenser/store/*/store.go\<close>). Each
  store keeps one JSON document; every operation of its manager is a closure run by
  \<open>withLock\<close> (read, change, save) or \<open>withRLock\<close> (read only) while a process mutex and an
  exclusive \<open>flock\<close> are held, so operations are atomic with respect to each other and a
  history of the store is a sequence of them. The thirteen \<open>store.go\<close> files repeat
  the same code; the generic functions here are instantiated once per store.

  The disk is modelled by the document at \<open>path\<close> and at \<open>path.tmp\<close>. File content is kept at the
  level of the value it decodes to (\<open>Decoded r\<close>, where \<open>r\<close> is the document as
  \<open>json.Unmarshal\<close> yields it, absent maps included), or is \<open>Undecodable\<close>, with the
  decoder's error text: a truncated or half-written document. Which calls fail is a parameter (\<open>io_env\<close>): every field holds the error
  text of a failing call, or \<open>None\<close>.
\<close>

datatype 'r content = Decoded 'r | Undecodable string

record 'r disk =
  main_file :: "'r content option"
  tmp_file :: "'r content option"

record io_env =
  mkdir_err :: "string option"
  open_lock_err :: "string option"
  flock_err :: "string option"
  read_err :: "string option"
  marshal_err :: "string option"
  open_tmp_err :: "string option"
  write_err :: "string option"
  sync_err :: "string option"
  close_err :: "string option"
  rename_err :: "string option"

definition io_ok :: io_env where
  "io_ok = \<lparr>mkdir_err = None, open_lock_err = None, flock_err = None, read_err = None,
     marshal_err = None, open_tmp_err = None, write_err = None, sync_err = None,
     close_err = None, rename_err = None\<rparr>"

definition empty_disk :: "'r disk" where
  "empty_disk = \<lparr>main_file = None, tmp_file = None\<rparr>"

text \<open>What \<open>filesystemHandler.ReadFile(s.path)\<close> returns.\<close>

datatype 'r read_result = ReadFailed string | NotExist | Bytes "'r content"

definition read_file :: "io_env \<Rightarrow> 'r disk \<Rightarrow> 'r read_result" where
  "read_file io d = (case read_err io of
       Some e \<Rightarrow> ReadFailed e
     | None \<Rightarrow> (case main_file d of None \<Rightarrow> NotExist | Some c \<Rightarrow> Bytes c))"

text \<open>
  \<open>atomicSave\<close>: marshal, create/truncate \<open>path.tmp\<close>, write, sync, close, rename over \<open>path\<close>.
  The trace lists every state of the disk a crash can leave behind, in order; the last
  one is the disk after the call.
\<close>

definition atomicSave_trace :: "('s \<Rightarrow> 'r) \<Rightarrow> io_env \<Rightarrow> 's \<Rightarrow> 'r disk \<Rightarrow> unit res \<times> 'r disk list" where
  "atomicSave_trace marshal io st d =
     (case marshal_err io of Some e \<Rightarrow> (Inl (SysErr e), [d])
      | None \<Rightarrow> (case open_tmp_err io of Some e \<Rightarrow> (Inl (SysErr e), [d])
      | None \<Rightarrow> (let d1 = d\<lparr>tmp_file := Some (Undecodable ''unexpected end of JSON input'')\<rparr> in
          (case write_err io of Some e \<Rightarrow> (Inl (SysErr e), [d, d1])
           | None \<Rightarrow> (let d2 = d1\<lparr>tmp_file := Some (Decoded (marshal st))\<rparr> in
               (case sync_err io of Some e \<Rightarrow> (Inl (SysErr e), [d, d1, d2])
                | None \<Rightarrow> (case close_err io of Some e \<Rightarrow> (Inl (SysErr e), [d, d1, d2])
                | None \<Rightarrow> (case rename_err io of Some e \<Rightarrow> (Inl (SysErr e), [d, d1, d2])
                | None \<Rightarrow> (Inr (), [d, d1, d2, d2\<lparr>main_file := tmp_file d2, tmp_file := None\<rparr>])))))))))"

definition atomicSave :: "('s \<Rightarrow> 'r) \<Rightarrow> io_env \<Rightarrow> 's \<Rightarrow> 'r disk \<Rightarrow> unit res \<times> 'r disk" where
  "atomicSave marshal io st d =
     (let (r, ds) = atomicSave_trace marshal io st d in (r, last ds))"

text \<open>Taking the lock: the three calls before the document is read.\<close>

definition lock_err :: "io_env \<Rightarrow> go_error option" where
  "lock_err io = (case mkdir_err io of Some e \<Rightarrow> Some (SysErr e)
     | None \<Rightarrow> (case open_lock_err io of Some e \<Rightarrow> Some (SysErr e)
     | None \<Rightarrow> map_option SysErr (flock_err io)))"

text \<open>
  \<open>withLock load save fn\<close>: the closure \<open>fn\<close> returns the changed state and the values it assigned
  to the caller's variables, or an error, in which case nothing is saved.
\<close>

definition withLock ::
  "('r read_result \<Rightarrow> 's res) \<Rightarrow> (io_env \<Rightarrow> 's \<Rightarrow> 'r disk \<Rightarrow> unit res \<times> 'r disk) \<Rightarrow>
   io_env \<Rightarrow> ('s \<Rightarrow> ('s \<times> 'a) res) \<Rightarrow> 'r disk \<Rightarrow> 'a res \<times> 'r disk" where
  "withLock load save io fn d =
     (case lock_err io of Some e \<Rightarrow> (Inl e, d)
      | None \<Rightarrow> (case load (read_file io d) of Inl e \<Rightarrow> (Inl e, d)
      | Inr st \<Rightarrow> (case fn st of Inl e \<Rightarrow> (Inl e, d)
      | Inr (st', a) \<Rightarrow> (case save io st' d of
            (Inl e, d') \<Rightarrow> (Inl e, d')
          | (Inr _, d') \<Rightarrow> (Inr a, d')))))"

definition withRLock ::
  "('r read_result \<Rightarrow> 's res) \<Rightarrow> io_env \<Rightarrow> ('s \<Rightarrow> 'a res) \<Rightarrow> 'r disk \<Rightarrow> 'a res" where
  "withRLock load io fn d =
     (case lock_err io of Some e \<Rightarrow> Inl e
      | None \<Rightarrow> (case load (read_file io d) of Inl e \<Rightarrow> Inl e | Inr st \<Rightarrow> fn st))"

section \<open>The document after a save\<close>

lemma atomicSave_trace_main:
  assumes "d' \<in> set (snd (atomicSave_trace marshal io st d))"
  shows "main_file d' = main_file d \<or> main_file d' = Some (Decoded (marshal st))"
  using assms by (auto simp: atomicSave_trace_def Let_def split: option.splits)

lemma atomicSave_main:
  "main_file (snd (atomicSave marshal io st d)) =
     (if is_ok (fst (atomicSave marshal io st d)) then Some (Decoded (marshal st)) else main_file d)"
  by (auto simp: atomicSave_def atomicSave_trace_def Let_def split: option.splits)

lemma lock_err_io_ok [simp]: "lock_err io_ok = None"
  by (simp add: lock_err_def io_ok_def)

lemma read_file_io_ok:
  "read_file io_ok d = (case main_file d of None \<Rightarrow> NotExist | Some c \<Rightarrow> Bytes c)"
  by (simp add: read_file_def io_ok_def)

lemma atomicSave_io_ok [simp]:
  "atomicSave marshal io_ok st d = (Inr (), \<lparr>main_file = Some (Decoded (marshal st)), tmp_file = None\<rparr>)"
  by (simp add: atomicSave_def atomicSave_trace_def io_ok_def Let_def)

text \<open>A disk is \<open>good\<close> for a store when the document is absent or decodes to a good value.\<close>

definition disk_inv :: "('r \<Rightarrow> bool) \<Rightarrow> 'r disk \<Rightarrow> bool" where
  "disk_inv good d \<longleftrightarrow> (case main_file d of
       None \<Rightarrow> True | Some (Decoded r) \<Rightarrow> good r | Some (Undecodable _) \<Rightarrow> False)"

lemma disk_inv_empty [simp]: "disk_inv good empty_disk"
  by (simp add: disk_inv_def empty_disk_def)

lemma disk_inv_tmp [simp]: "disk_inv good (d\<lparr>tmp_file := t\<rparr>) = disk_inv good d"
  by (simp add: disk_inv_def)

text \<open>
  The contract between a store and its manager. \<open>inv\<close> is the manager's invariant on states and
  \<open>marshal\<close> the document a state is saved as; the store promises that loading yields a state
  within the invariant whenever the document holds one, and that a saved document is a good one.
\<close>

locale locked_store =
  fixes load :: "'r read_result \<Rightarrow> 's res"
    and marshal :: "'s \<Rightarrow> 'r"
    and good :: "'r \<Rightarrow> bool"
    and inv :: "'s \<Rightarrow> bool"
  assumes load_init: "load NotExist = Inr st \<Longrightarrow> inv st"
    and load_good: "load (Bytes (Decoded r)) = Inr st \<Longrightarrow> good r \<Longrightarrow> inv st"
    and load_bad: "load (Bytes (Undecodable m)) \<noteq> Inr st"
    and load_failed: "load (ReadFailed m) \<noteq> Inr st"
    and marshal_good: "inv st \<Longrightarrow> good (marshal st)"
    and load_marshal: "inv st \<Longrightarrow> load (Bytes (Decoded (marshal st))) = Inr st"
begin

lemma load_inv:
  assumes "load (read_file io d) = Inr st" and "disk_inv good d"
  shows "inv st"
  using assms load_init load_good load_bad load_failed
  by (auto simp: read_file_def disk_inv_def split: option.splits content.splits)

lemma withLock_inv:
  assumes d: "disk_inv good d"
    and f: "\<And>st st' a. inv st \<Longrightarrow> fn st = Inr (st', a) \<Longrightarrow> inv st'"
  shows "disk_inv good (snd (withLock load (atomicSave marshal) io fn d))"
proof -
  have step: "disk_inv good (snd (atomicSave marshal io st' d))" if "inv st'" for st'
    using d that by (auto simp: disk_inv_def atomicSave_main marshal_good)
  show ?thesis
    using d load_inv [OF _ d] f step
    by (auto simp: withLock_def split: option.splits sum.splits prod.splits)
      (metis snd_conv)+
qed

lemma withRLock_result:
  assumes "disk_inv good d" and "withRLock load io fn d = Inr a"
  shows "\<exists>st. inv st \<and> fn st = Inr a"
  using assms load_inv by (auto simp: withRLock_def split: option.splits sum.splits)

text \<open>A saved state is the state the next operation sees, whoever runs it.\<close>

lemma save_then_load:
  assumes "inv st"
  shows "load (read_file io_ok (snd (atomicSave marshal io_ok st d))) = Inr st"
  using assms by (simp add: load_marshal read_file_io_ok)

lemma withLock_ok:
  assumes "load (read_file io_ok d) = Inr st" and "fn st = Inr (st', a)" and "inv st'"
  shows "\<exists>d'. withLock load (atomicSave marshal) io_ok fn d = (Inr a, d') \<and> load (read_file io_ok d') = Inr st'"
  using assms by (simp add: withLock_def load_marshal read_file_io_ok)

end

section \<open>Guarantees of the store, whatever fails\<close>

lemma withLock_all_or_nothing:
  "case withLock load (atomicSave marshal) io fn d of
     (Inl _, d') \<Rightarrow> main_file d' = main_file d
   | (Inr a, d') \<Rightarrow> \<exists>st st'. load (read_file io d) = Inr st \<and> fn st = Inr (st', a) \<and>
        main_file d' = Some (Decoded (marshal st'))"
  using atomicSave_main [of marshal io _ d]
  by (auto simp: withLock_def split: option.splits sum.splits prod.splits)
     (metis Inl_Inr_False fst_conv is_ok_iff snd_conv)+

lemma withLock_Inr:
  assumes "withLock load (atomicSave marshal) io fn d = (Inr a, d')"
  shows "\<exists>st st'. load (read_file io d) = Inr st \<and> fn st = Inr (st', a) \<and>
     main_file d' = Some (Decoded (marshal st'))"
  using withLock_all_or_nothing [where load = load and marshal = marshal and io = io and fn = fn and d = d] assms
  by simp

lemma withRLock_reads:
  assumes "withRLock load io f d = Inr a" and "\<And>e. \<not> is_ok (load (ReadFailed e))"
  shows "\<exists>st. load (read_file io_ok d) = Inr st \<and> f st = Inr a"
  using assms by (auto simp: withRLock_def read_file_def io_ok_def split: option.splits sum.splits)

lemma withLock_io_ok:
  "withLock load (atomicSave marshal) io_ok fn d =
     (case load (read_file io_ok d) of Inl e \<Rightarrow> (Inl e, d)
      | Inr st \<Rightarrow> (case fn st of Inl e \<Rightarrow> (Inl e, d)
      | Inr (st', a) \<Rightarrow> (Inr a, \<lparr>main_file = Some (Decoded (marshal st')), tmp_file = None\<rparr>)))"
  by (simp add: withLock_def split: sum.splits)

lemma withRLock_io_ok:
  "withRLock load io_ok fn d = (case load (read_file io_ok d) of Inl e \<Rightarrow> Inl e | Inr st \<Rightarrow> fn st)"
  by (simp add: withRLock_def)

section \<open>The usual store\<close>

text \<open>
  Twelve of the thirteen \<open>loadOrInit\<close> functions have one shape: an absent file gives a fixed first
  state, a decoded document is completed (absent maps become empty ones), every other case is
  an error. \<open>pfx\<close> is the text before the decoder's error.
\<close>

definition load_or_init :: "string \<Rightarrow> 's \<Rightarrow> ('r \<Rightarrow> 's) \<Rightarrow> 'r read_result \<Rightarrow> 's res" where
  "load_or_init pfx init complete r =
     (case r of
        ReadFailed e \<Rightarrow> Inl (SysErr e)
      | NotExist \<Rightarrow> Inr init
      | Bytes (Undecodable m) \<Rightarrow> Inl (Msg (pfx @ '': '' @ m))
      | Bytes (Decoded x) \<Rightarrow> Inr (complete x))"

definition or_empty :: "('k, 'v) gomap option \<Rightarrow> ('k, 'v) gomap" where
  "or_empty m = (case m of None \<Rightarrow> [] | Some x \<Rightarrow> x)"

lemma or_empty_Some [simp]: "or_empty (Some m) = m"
  by (simp add: or_empty_def)

locale plain_store =
  fixes pfx :: string
    and init :: 's
    and complete :: "'r \<Rightarrow> 's"
    and marshal :: "'s \<Rightarrow> 'r"
    and inv :: "'s \<Rightarrow> bool"
  assumes inv_init: "inv init"
    and complete_marshal: "inv st \<Longrightarrow> complete (marshal st) = st"
begin

sublocale locked_store "load_or_init pfx init complete" marshal "\<lambda>r. inv (complete r)" inv
  by unfold_locales (auto simp: load_or_init_def inv_init complete_marshal)

text \<open>A good disk can be loaded, and holds a state within the invariant.\<close>

lemma load_total:
  assumes "disk_inv (\<lambda>r. inv (complete r)) d"
  shows "\<exists>st. load_or_init pfx init complete (read_file io_ok d) = Inr st \<and> inv st"
  using assms inv_init
  by (auto simp: disk_inv_def load_or_init_def read_file_io_ok split: option.splits content.splits)

text \<open>After a successful call every process reads the state the closure left.\<close>

lemma load_after_save:
  assumes "inv st" and "main_file d = Some (Decoded (marshal st))"
  shows "load_or_init pfx init complete (read_file io_ok d) = Inr st"
  using assms by (simp add: load_or_init_def complete_marshal read_file_io_ok)

end

section \<open>Entries of a map\<close>

text \<open>
  The recurring bodies of the managers: look an entry up or fail, replace it or fail when it is
  absent, delete it or fail when it is absent.
\<close>

definition lookup_entry :: "string \<Rightarrow> 'k \<Rightarrow> ('k, 'v) gomap \<Rightarrow> 'v res" where
  "lookup_entry err k m = (case map_of m k of None \<Rightarrow> Inl (Msg err) | Some v \<Rightarrow> Inr v)"

definition update_entry :: "string \<Rightarrow> 'k \<Rightarrow> ('v \<Rightarrow> 'v) \<Rightarrow> ('k, 'v) gomap \<Rightarrow> ('k, 'v) gomap res" where
  "update_entry err k f m =
     (case map_of m k of None \<Rightarrow> Inl (Msg err) | Some v \<Rightarrow> Inr (map_set k (f v) m))"

definition remove_entry :: "string \<Rightarrow> 'k \<Rightarrow> ('k, 'v) gomap \<Rightarrow> ('k, 'v) gomap res" where
  "remove_entry err k m =
     (case map_of m k of None \<Rightarrow> Inl (Msg err) | Some _ \<Rightarrow> Inr (map_del k m))"

text \<open>The closure's result when all it does is to replace one map of the state.\<close>

definition put_back :: "('m \<Rightarrow> 's) \<Rightarrow> 'm res \<Rightarrow> ('s \<times> unit) res" where
  "put_back f r = (case r of Inl e \<Rightarrow> Inl e | Inr m \<Rightarrow> Inr (f m, ()))"

lemma put_back_Inr [simp]: "put_back f r = Inr (st', u) \<longleftrightarrow> (\<exists>m. r = Inr m \<and> st' = f m)"
  by (cases r) (auto simp: put_back_def)

lemma update_entry_Inr:
  "update_entry err k f m = Inr m' \<longleftrightarrow> (\<exists>v. map_of m k = Some v \<and> m' = map_set k (f v) m)"
  by (auto simp: update_entry_def split: option.splits)

lemma remove_entry_Inr:
  "remove_entry err k m = Inr m' \<longleftrightarrow> map_of m k \<noteq> None \<and> m' = map_del k m"
  by (auto simp: remove_entry_def split: option.splits)

lemma keyed_by_lookup_entry: "keyed_by key m \<Longrightarrow> lookup_entry err i m = Inr v \<Longrightarrow> key v = i"
  using keyed_by_lookup [of key m i v] by (auto simp: lookup_entry_def split: option.splits)

lemma keyed_by_update_entry [inv_intros]:
  assumes "keyed_by key m" and "update_entry err k f m = Inr m'" and "\<And>v. key (f v) = key v"
  shows "keyed_by key m'"
  using assms by (auto simp: update_entry_Inr dest: keyed_by_lookup)

lemma keyed_by_remove_entry [inv_intros]:
  "keyed_by key m \<Longrightarrow> remove_entry err k m = Inr m' \<Longrightarrow> keyed_by key m'"
  by (auto simp: remove_entry_Inr)

section \<open>Properties\<close>

text \<open>
  Property C6. Saving is atomic: at every point at which the process can stop during \<open>atomicSave\<close>, whatever
  call fails, the document is the old one or the complete new one; the call reports success
  exactly when it is the new one that is left.
\<close>

theorem atomicSave_crash_safe:
  "(\<forall>d' \<in> set (snd (atomicSave_trace marshal io st d)).
      main_file d' = main_file d \<or> main_file d' = Some (Decoded (marshal st))) \<and>
   main_file (snd (atomicSave marshal io st d)) =
     (if is_ok (fst (atomicSave marshal io st d)) then Some (Decoded (marshal st)) else main_file d)"
  by (intro conjI ballI atomicSave_trace_main atomicSave_main)

theorem atomicSave_crash_safe_witness:
  "\<exists>d' \<in> set (snd (atomicSave_trace (\<lambda>n. n) (io_ok\<lparr>rename_err := Some ''EIO''\<rparr>) (7 :: nat)
        \<lparr>main_file = Some (Decoded 3), tmp_file = None\<rparr>)).
      tmp_file d' = Some (Decoded 7) \<and> main_file d' = Some (Decoded 3)"
proof -
  let ?io = "io_ok\<lparr>rename_err := Some ''EIO''\<rparr>" and ?d = "\<lparr>main_file = Some (Decoded (3 :: nat)), tmp_file = None\<rparr>"
  let ?d' = "\<lparr>main_file = Some (Decoded 3), tmp_file = Some (Decoded (7 :: nat))\<rparr>"
  have "?d' \<in> set (snd (atomicSave_trace (\<lambda>n. n) ?io 7 ?d))" by (simp add: atomicSave_trace_def io_ok_def)
  with atomicSave_crash_safe [of "\<lambda>n. n" ?io 7 ?d] show ?thesis by force
qed

text \<open>
  Property C7. A critical section run by \<open>withLock\<close>, as every store manager runs its operations, commits or aborts: if it fails at any point (the
  lock, the read, the closure, any call of the save) the document is untouched, and if it succeeds the document is the state its
  closure computed from the document it read.  This is about \<open>withLock\<close> with the save the managers share; the save of the secret manager
  changes the mode of the document after this point and can fail there, which is modelled and proved apart.
\<close>

theorem withLock_commits_or_aborts:
  "case withLock load (atomicSave marshal) io fn d of
     (Inl _, d') \<Rightarrow> main_file d' = main_file d
   | (Inr a, d') \<Rightarrow> \<exists>st st'. load (read_file io d) = Inr st \<and> fn st = Inr (st', a) \<and>
        main_file d' = Some (Decoded (marshal st'))"
  by (rule withLock_all_or_nothing)

end
