(* ===== verification/Ipv4_Net.thy ===== *)
theory Ipv4_Net
  imports Raind_Prelude "HOL-Library.Word"
begin

unbundle bit_operations_syntax

text \<open>
  IPv4 addresses and networks: what the stores use of Go's package \<open>net\<close>, and the address
  arithmetic of \<open>store/ipam/ipam.go\<close> and \<open>store/ssm/ssm.go\<close>. An address is a \<open>32 word\<close>; the
  functions the source writes over the four bytes of a \<open>net.IP\<close> are modelled over byte lists, most
  significant byte first. Texts with a colon (IPv6) do not parse in this model.
\<close>

type_synonym ip4 = "32 word"
type_synonym byte = "8 word"

section \<open>Bytes\<close>

definition ip_bytes :: "ip4 \<Rightarrow> byte list" where
  "ip_bytes a = [ucast (drop_bit 24 a), ucast (drop_bit 16 a), ucast (drop_bit 8 a), ucast a]"

fun bytes_ip :: "byte list \<Rightarrow> ip4" where
  "bytes_ip bs = foldl (\<lambda>a b. a * 256 + ucast b) 0 bs"

text \<open>
  \<open>incIP\<close> increments the last byte and propagates the carry upwards while the byte just written
  is zero; \<open>incIPv4\<close> increments byte by byte from the last and stops at the first non-zero result.
\<close>

fun incIP_carry :: "nat \<Rightarrow> byte list \<Rightarrow> byte list" where
  "incIP_carry 0 v = v"
| "incIP_carry (Suc i) v =
     (if v ! Suc i \<noteq> 0 then v else incIP_carry i (v[i := v ! i + 1]))"

definition incIP_bytes :: "byte list \<Rightarrow> byte list" where
  "incIP_bytes v = incIP_carry 3 (v[3 := v ! 3 + 1])"

fun incIPv4_carry :: "nat \<Rightarrow> byte list \<Rightarrow> byte list" where
  "incIPv4_carry 0 v = v"
| "incIPv4_carry (Suc i) v =
     (let v' = v[i := v ! i + 1] in if v' ! i \<noteq> 0 then v' else incIPv4_carry i v')"

definition incIPv4_bytes :: "byte list \<Rightarrow> byte list" where
  "incIPv4_bytes v = incIPv4_carry (length v) v"

definition incIP :: "ip4 \<Rightarrow> ip4" where
  "incIP a = bytes_ip (incIP_bytes (ip_bytes a))"

definition incIPv4 :: "ip4 \<Rightarrow> ip4" where
  "incIPv4 a = bytes_ip (incIPv4_bytes (ip_bytes a))"

text \<open>\<open>ipv4Add\<close>: big-endian decode, 32-bit addition with wrap-around, encode.\<close>

definition ipv4Add :: "ip4 \<Rightarrow> 32 word \<Rightarrow> ip4" where
  "ipv4Add a n = a + n"

section \<open>Networks\<close>

record ipnet =
  net_ip :: ip4
  net_ones :: nat

definition cidr_mask :: "nat \<Rightarrow> ip4" where
  "cidr_mask n = NOT (mask (32 - n))"

definition net_contains :: "ipnet \<Rightarrow> ip4 \<Rightarrow> bool" where
  "net_contains n a \<longleftrightarrow> net_ip n AND cidr_mask (net_ones n) = a AND cidr_mask (net_ones n)"

definition broadcast_bytes :: "byte list \<Rightarrow> byte list \<Rightarrow> byte list" where
  "broadcast_bytes ip msk = map2 (\<lambda>b m. b OR NOT m) ip msk"

definition broadcastIPv4 :: "ipnet \<Rightarrow> ip4" where
  "broadcastIPv4 n = bytes_ip (broadcast_bytes (ip_bytes (net_ip n)) (ip_bytes (cidr_mask (net_ones n))))"

section \<open>Texts\<close>

definition ip_string :: "ip4 \<Rightarrow> string" where
  "ip_string a = str_join ''.'' (map (\<lambda>b. show_nat (unat b)) (ip_bytes a))"

definition net_string :: "ipnet \<Rightarrow> string" where
  "net_string n = ip_string (net_ip n) @ ''/'' @ show_nat (net_ones n)"

definition digit_val :: "char \<Rightarrow> nat option" where
  "digit_val c = (if CHR ''0'' \<le> c \<and> c \<le> CHR ''9'' then Some (of_char c - 48) else None)"

fun digits_val :: "nat \<Rightarrow> string \<Rightarrow> nat option" where
  "digits_val acc [] = Some acc"
| "digits_val acc (c # cs) =
     (case digit_val c of None \<Rightarrow> None | Some d \<Rightarrow> digits_val (10 * acc + d) cs)"

text \<open>An octet of a dotted quad: one to three digits, no leading zero, at most 255.\<close>

definition parse_octet :: "string \<Rightarrow> byte option" where
  "parse_octet s =
     (if s = [] \<or> length s > 3 \<or> (length s > 1 \<and> hd s = CHR ''0'') then None
      else (case digits_val 0 s of
              None \<Rightarrow> None
            | Some n \<Rightarrow> if n > 255 then None else Some (of_nat n)))"

definition parse_ip :: "string \<Rightarrow> ip4 option" where
  "parse_ip s = (case map parse_octet (split_on CHR ''.'' s) of
       [Some a, Some b, Some c, Some d] \<Rightarrow> Some (bytes_ip [a, b, c, d])
     | _ \<Rightarrow> None)"

text \<open>\<open>net.ParseCIDR\<close>: the network of the address, with the host bits cleared.\<close>

definition parse_cidr :: "string \<Rightarrow> ipnet option" where
  "parse_cidr s =
     (if CHR ''/'' \<notin> set s then None
      else (let addr = takeWhile (\<lambda>c. c \<noteq> CHR ''/'') s;
                msk = tl (dropWhile (\<lambda>c. c \<noteq> CHR ''/'') s)
            in if msk = [] then None
               else (case (parse_ip addr, digits_val 0 msk) of
                       (Some a, Some n) \<Rightarrow>
                         if n > 32 then None
                         else Some \<lparr>net_ip = a AND cidr_mask n, net_ones = n\<rparr>
                     | _ \<Rightarrow> None)))"

lemma unat32_bound: "unat (a :: ip4) < 4294967296"
proof -
  have "unat a < 2 ^ LENGTH(32)" by (rule unsigned_less)
  then show ?thesis by simp
qed

lemma byte_bound: "unat (a :: byte) < 256"
proof -
  have "unat a < 2 ^ LENGTH(8)" by (rule unsigned_less)
  then show ?thesis by simp
qed

lemma ucast_byte_of_nat: "(ucast (b :: byte) :: ip4) = of_nat (unat b)"
  by simp

lemma bytes_ip_of_nat:
  "bytes_ip [a, b, c, d] = of_nat (unat a * 16777216 + unat b * 65536 + unat c * 256 + unat d)"
  by simp

lemma unat_bytes_ip:
  "unat (bytes_ip [a, b, c, d]) = unat a * 16777216 + unat b * 65536 + unat c * 256 + unat d"
proof -
  let ?n = "unat a * 16777216 + unat b * 65536 + unat c * 256 + unat d"
  have "?n < 2 ^ LENGTH(32)"
    using byte_bound [of a] byte_bound [of b] byte_bound [of c] byte_bound [of d] by simp
  then have "unat (of_nat ?n :: ip4) = ?n" by (simp only: unat_of_nat mod_less)
  then show ?thesis by (simp only: bytes_ip_of_nat)
qed

lemma unat_byte: "unat (ucast (drop_bit k (a :: ip4)) :: byte) = unat a div 2 ^ k mod 256"
  by (simp add: unsigned_ucast_eq unat_drop_bit_eq take_bit_eq_mod) (simp add: drop_bit_eq_div)

lemma ip_bytes_unat:
  "map unat (ip_bytes a) = [unat a div 16777216 mod 256, unat a div 65536 mod 256, unat a div 256 mod 256, unat a mod 256]"
  using unat_byte [of 24 a] unat_byte [of 16 a] unat_byte [of 8 a] unat_byte [of 0 a]
  by (simp add: ip_bytes_def)

lemma base256:
  fixes n :: nat
  shows "n div 16777216 * 16777216 + n div 65536 mod 256 * 65536 + n div 256 mod 256 * 256 + n mod 256 = n"
proof -
  have "n div 65536 = n div 256 div 256" and "n div 16777216 = n div 65536 div 256"
    by (simp_all add: div_mult2_eq [symmetric])
  then show ?thesis
    using div_mult_mod_eq [of n 256] div_mult_mod_eq [of "n div 256" 256]
      div_mult_mod_eq [of "n div 65536" 256] by linarith
qed

lemma bytes_ip_bytes [simp]: "bytes_ip (ip_bytes a) = a"
proof -
  have "unat a div 16777216 mod 256 = unat a div 16777216"
    using unat32_bound [of a] by simp
  then have "unat (bytes_ip (ip_bytes a)) = unat a"
    using ip_bytes_unat [of a] base256 [of "unat a"]
    unfolding ip_bytes_def unat_bytes_ip by simp
  then show ?thesis by (simp only: word_unat_eq_iff)
qed

lemma unat_byte_inc: "unat (b + 1 :: byte) = (if unat b = 255 then 0 else unat b + 1)"
  using byte_bound [of b] by (simp add: unat_word_ariths unat_of_nat)

lemma byte_inc_0: "(b + 1 = (0 :: byte)) \<longleftrightarrow> unat b = 255"
  by (metis unat_byte_inc unat_0_iff add_is_0 zero_neq_one)

lemma bytes_ip_inc:
  "bytes_ip (incIP_bytes [a, b, c, d]) = bytes_ip [a, b, c, d] + 1"
  "bytes_ip (incIPv4_bytes [a, b, c, d]) = bytes_ip [a, b, c, d] + 1"
proof -
  have *: "unat (bytes_ip [a, b, c, d] + 1) =
     (unat a * 16777216 + unat b * 65536 + unat c * 256 + unat d + 1) mod 4294967296"
    by (simp only: unat_word_ariths unat_bytes_ip) simp
  note bs = byte_bound [of a] byte_bound [of b] byte_bound [of c] byte_bound [of d]
  have 1: "incIP_bytes [a, b, c, d] = (if unat d \<noteq> 255 then [a, b, c, d + 1]
     else if unat c \<noteq> 255 then [a, b, c + 1, 0]
     else if unat b \<noteq> 255 then [a, b + 1, 0, 0] else [a + 1, 0, 0, 0])"
    by (simp add: incIP_bytes_def eval_nat_numeral byte_inc_0)
  have 2: "incIPv4_bytes [a, b, c, d] = incIP_bytes [a, b, c, d]"
    unfolding 1 by (simp add: incIPv4_bytes_def eval_nat_numeral byte_inc_0 Let_def)
  have "unat (bytes_ip (incIP_bytes [a, b, c, d])) = unat (bytes_ip [a, b, c, d] + 1)"
    unfolding 1 * using bs
    by (auto simp: unat_bytes_ip unat_byte_inc simp del: bytes_ip.simps)
  then show "bytes_ip (incIP_bytes [a, b, c, d]) = bytes_ip [a, b, c, d] + 1"
    by (simp only: word_unat_eq_iff)
  then show "bytes_ip (incIPv4_bytes [a, b, c, d]) = bytes_ip [a, b, c, d] + 1"
    by (simp only: 2)
qed

lemma incIP_eq: "incIP a = a + 1" and incIPv4_eq: "incIPv4 a = a + 1"
  using bytes_ip_inc [of "ucast (drop_bit 24 a)" "ucast (drop_bit 16 a)" "ucast (drop_bit 8 a)" "ucast a"]
    bytes_ip_bytes [of a]
  unfolding incIP_def incIPv4_def ip_bytes_def by simp_all

lemma broadcast_eq: "broadcastIPv4 n = net_ip n OR mask (32 - net_ones n)"
proof -
  have "broadcast_bytes (ip_bytes a) (ip_bytes m) = ip_bytes (a OR NOT m)" for a m :: ip4
    unfolding broadcast_bytes_def ip_bytes_def
    by (auto intro!: bit_word_eqI simp: bit_simps)
  then show ?thesis by (simp add: broadcastIPv4_def cidr_mask_def del: bytes_ip.simps)
qed

section \<open>Membership in a network\<close>

definition net_host_bits :: "ipnet \<Rightarrow> nat" where
  "net_host_bits n = 32 - net_ones n"

lemma and_not_mask_eq_iff:
  "(a AND NOT (mask m) = b AND NOT (mask m)) \<longleftrightarrow> drop_bit m a = (drop_bit m b :: ip4)"
proof
  assume eq: "a AND NOT (mask m) = b AND NOT (mask m)"
  show "drop_bit m a = drop_bit m b"
  proof (rule bit_word_eqI)
    fix k assume "k < LENGTH(32)"
    show "bit (drop_bit m a) k = bit (drop_bit m b) k"
      using arg_cong [OF eq, of "\<lambda>w. bit w (m + k)"]
      by (auto simp: bit_simps dest: bit_imp_le_length)
  qed
next
  assume eq: "drop_bit m a = drop_bit m b"
  show "a AND NOT (mask m) = b AND NOT (mask m)"
  proof (rule bit_word_eqI)
    fix k assume "k < LENGTH(32)"
    have "bit a k = bit b k" if "m \<le> k"
      using arg_cong [OF eq, of "\<lambda>w. bit w (k - m)"] that by (simp add: bit_simps)
    then show "bit (a AND NOT (mask m)) k = bit (b AND NOT (mask m)) k"
      by (auto simp: bit_simps)
  qed
qed

lemma unat_drop_bit_div: "unat (drop_bit m (a :: ip4)) = unat a div 2 ^ m"
  by (simp add: unat_drop_bit_eq) (simp add: drop_bit_eq_div)

lemma net_contains_div:
  "net_contains n a \<longleftrightarrow> unat a div 2 ^ net_host_bits n = unat (net_ip n) div 2 ^ net_host_bits n"
proof -
  have "net_contains n a \<longleftrightarrow> drop_bit (net_host_bits n) (net_ip n) = drop_bit (net_host_bits n) a"
    by (simp add: net_contains_def cidr_mask_def and_not_mask_eq_iff net_host_bits_def)
  then show ?thesis by (simp only: word_unat_eq_iff unat_drop_bit_div) auto
qed

text \<open>A network whose address has its host bits clear, as \<open>ParseCIDR\<close> returns it.\<close>

definition wf_net :: "ipnet \<Rightarrow> bool" where
  "wf_net n \<longleftrightarrow> net_ones n \<le> 32 \<and> unat (net_ip n) mod 2 ^ net_host_bits n = 0"

lemma wf_netD: "wf_net n \<Longrightarrow> 2 ^ net_host_bits n dvd unat (net_ip n)"
  by (simp add: wf_net_def mod_eq_0_iff_dvd)

lemma wf_net_mask: "n \<le> 32 \<Longrightarrow> wf_net \<lparr>net_ip = a AND cidr_mask n, net_ones = n\<rparr>"
  by (simp add: wf_net_def cidr_mask_def net_host_bits_def mod_eq_0_iff_dvd and_mask_dvd_nat
      ac_simps and.left_commute)

text \<open>The addresses of a well-formed network are its address plus an offset below its size.\<close>

lemma unat_add_offset:
  assumes "wf_net n" and "j < 2 ^ net_host_bits n"
  shows "unat (net_ip n + of_nat j) = unat (net_ip n) + j"
proof -
  let ?s = "2 ^ net_host_bits n :: nat"
  have m: "net_host_bits n \<le> 32" by (simp add: net_host_bits_def)
  obtain q where q: "unat (net_ip n) = ?s * q" using wf_netD [OF assms(1)] by (elim dvdE)
  have whole: "?s * 2 ^ (32 - net_host_bits n) = 4294967296"
    using m by (simp add: power_add [symmetric])
  have "?s * q < ?s * 2 ^ (32 - net_host_bits n)" using q unat32_bound [of "net_ip n"] whole by simp
  then have "q < 2 ^ (32 - net_host_bits n)" by simp
  then have "?s * (q + 1) \<le> ?s * 2 ^ (32 - net_host_bits n)" by (intro mult_le_mono) auto
  then have "unat (net_ip n) + j < 4294967296" using q assms(2) whole by (simp add: algebra_simps)
  moreover have "j < 4294967296" using calculation by simp
  ultimately show ?thesis by (simp add: unat_word_ariths unat_of_nat)
qed

lemma net_contains_offset:
  assumes "wf_net n" and "j < 2 ^ net_host_bits n"
  shows "net_contains n (net_ip n + of_nat j)"
  using assms wf_netD [OF assms(1)] by (auto simp: net_contains_div unat_add_offset elim!: dvdE)

lemma net_contains_iff_offset:
  assumes "wf_net n"
  shows "net_contains n a \<longleftrightarrow> (\<exists>j < 2 ^ net_host_bits n. a = net_ip n + of_nat j)"
proof
  assume c: "net_contains n a"
  let ?s = "2 ^ net_host_bits n :: nat"
  define j where "j = unat a mod ?s"
  have "unat a = unat a div ?s * ?s + j" unfolding j_def by (rule div_mult_mod_eq [symmetric])
  also have "unat a div ?s * ?s = unat (net_ip n)"
    using c wf_netD [OF assms] by (auto simp: net_contains_div elim!: dvdE)
  finally have "unat a = unat (net_ip n + of_nat j)"
    using assms by (simp add: unat_add_offset j_def)
  then have "a = net_ip n + of_nat j" by (simp only: word_unat_eq_iff)
  moreover have "j < ?s" by (simp add: j_def)
  ultimately show "\<exists>j < ?s. a = net_ip n + of_nat j" by blast
qed (use assms net_contains_offset in auto)

lemma broadcast_offset:
  assumes "wf_net n"
  shows "broadcastIPv4 n = net_ip n + of_nat (2 ^ net_host_bits n - 1)"
proof -
  have "net_ip n AND mask (net_host_bits n) = 0"
    using wf_netD [OF assms] by (simp add: and_mask_dvd_nat)
  then have "net_ip n OR mask (net_host_bits n) = net_ip n + mask (net_host_bits n)"
    by (simp add: disjunctive_add_eq_or [symmetric])
  moreover have "(mask (net_host_bits n) :: ip4) = of_nat (2 ^ net_host_bits n - 1)"
    by (simp add: mask_eq_exp_minus_1 of_nat_diff)
  ultimately show ?thesis by (simp add: broadcast_eq net_host_bits_def)
qed


section \<open>Texts read back\<close>

lemma show_nat_small: "n < 1000 \<Longrightarrow> show_nat n =
   (if n < 10 then [digit_char n] else if n < 100 then [digit_char (n div 10), digit_char (n mod 10)]
    else [digit_char (n div 100), digit_char (n div 10 mod 10), digit_char (n mod 10)])"
  using show_nat.simps [of n] show_nat.simps [of "n div 10"] show_nat.simps [of "n div 10 div 10"]
  by (auto simp: div_mult2_eq [symmetric])

lemma digit_char_val: "d < 10 \<Longrightarrow> digit_val (digit_char d) = Some d"
  by (auto simp: digit_val_def digit_char_def less_eq_char_def char_of_mod_256)

lemma digit_char_0: "digit_char 0 = CHR ''0''"
  by code_simp

lemma digit_char_eq_0: "d < 10 \<Longrightarrow> digit_char d = CHR ''0'' \<longleftrightarrow> d = 0"
  using digit_char_val [of d] digit_char_val [of 0] digit_char_0 by auto

lemma digit_char_neq:
  assumes "d < 10" and "digit_val c = None"
  shows "digit_char d \<noteq> c"
  using assms digit_char_val [of d] by auto

lemma set_show_nat: "set (show_nat n) \<subseteq> digit_char ` {..<10}"
proof (induction n rule: show_nat.induct)
  case (1 n)
  then show ?case by (subst show_nat.simps) auto
qed

lemma show_nat_notin: "digit_val c = None \<Longrightarrow> c \<notin> set (show_nat n)"
  using set_show_nat [of n] digit_char_neq by blast

lemma digit_val_seps [simp]: "digit_val CHR ''.'' = None" "digit_val CHR ''/'' = None"
  by (simp_all add: digit_val_def less_eq_char_def)

lemma digits_val_append:
  "digits_val acc (xs @ [c]) =
     (case digits_val acc xs of None \<Rightarrow> None
      | Some n \<Rightarrow> (case digit_val c of None \<Rightarrow> None | Some d \<Rightarrow> Some (10 * n + d)))"
  by (induction acc xs rule: digits_val.induct) (auto split: option.splits)

lemma digits_val_show_nat: "digits_val 0 (show_nat n) = Some n"
proof (induction n rule: show_nat.induct)
  case (1 n)
  then show ?case
    by (subst show_nat.simps) (auto simp: digits_val_append digit_char_val)
qed

lemma show_nat_nonempty [simp]: "show_nat n \<noteq> []"
  by (subst show_nat.simps) auto

lemma parse_octet_show_nat:
  assumes "n < 256"
  shows "parse_octet (show_nat n) = Some (of_nat n)"
proof -
  have "length (show_nat n) \<le> 3" and "length (show_nat n) > 1 \<Longrightarrow> hd (show_nat n) \<noteq> CHR ''0''"
    using assms by (auto simp: show_nat_small digit_char_eq_0 div_eq_0_iff)
  then show ?thesis
    using assms by (auto simp: parse_octet_def digits_val_show_nat)
qed

lemma parse_ip_string [simp]: "parse_ip (ip_string a) = Some a"
proof -
  have "split_on CHR ''.'' (ip_string a) = map (\<lambda>b. show_nat (unat b)) (ip_bytes a)"
    by (simp add: ip_string_def ip_bytes_def split_on_append split_on_no_sep show_nat_notin)
  then show ?thesis
    using bytes_ip_bytes [of a]
    by (simp add: parse_ip_def ip_bytes_def parse_octet_show_nat byte_bound del: bytes_ip.simps)
qed

lemma ip_string_inj [simp]: "ip_string a = ip_string b \<longleftrightarrow> a = b"
  by (metis option.inject parse_ip_string)

lemma set_ip_string: "c \<in> set (ip_string a) \<Longrightarrow> c = CHR ''.'' \<or> digit_val c \<noteq> None"
  using show_nat_notin by (auto simp: ip_string_def ip_bytes_def)

lemma ip_string_no_slash: "CHR ''/'' \<notin> set (ip_string a)"
  using set_ip_string by fastforce

lemma ip_string_nonempty [simp]: "ip_string a \<noteq> []"
  using parse_ip_string [of a] by (auto simp: parse_ip_def parse_octet_def)

lemma parse_cidr_slash:
  assumes "n \<le> 32"
  shows "parse_cidr (ip_string a @ ''/'' @ show_nat n) = Some \<lparr>net_ip = a AND cidr_mask n, net_ones = n\<rparr>"
proof -
  let ?s = "ip_string a @ ''/'' @ show_nat n"
  have "takeWhile (\<lambda>c. c \<noteq> CHR ''/'') ?s = ip_string a"
    using ip_string_no_slash by (subst takeWhile_append2) auto
  moreover have "dropWhile (\<lambda>c. c \<noteq> CHR ''/'') ?s = ''/'' @ show_nat n"
    using ip_string_no_slash by (subst dropWhile_append2) auto
  ultimately show ?thesis
    using assms by (simp add: parse_cidr_def digits_val_show_nat)
qed

lemma wf_net_masked: "wf_net n \<Longrightarrow> net_ip n AND cidr_mask (net_ones n) = net_ip n"
proof -
  assume "wf_net n"
  then have "net_ip n AND mask (net_host_bits n) = 0"
    using wf_netD by (simp add: and_mask_dvd_nat)
  then show ?thesis
    by (intro bit_word_eqI) (auto simp: bit_simps cidr_mask_def net_host_bits_def bit_eq_iff)
qed

lemma parse_net_string [simp]: "wf_net n \<Longrightarrow> parse_cidr (net_string n) = Some n"
  using parse_cidr_slash [of "net_ones n" "net_ip n"]
  by (simp add: net_string_def wf_net_masked) (simp add: wf_net_def)

lemma parse_cidr_wf: "parse_cidr s = Some n \<Longrightarrow> wf_net n"
  by (auto simp: parse_cidr_def Let_def wf_net_mask split: if_splits option.splits)

section \<open>Properties\<close>

text \<open>
  Property C8. Both byte-wise increments of the code, the one of the address pools (\<open>incIP\<close>, which tests
  for the carry before each step) and the one of the service range (\<open>incIPv4\<close>, which tests after
  it), are the addition of one modulo 2^32.
\<close>

theorem increments_agree:
  "bytes_ip (incIP_bytes (ip_bytes a)) = a + 1 \<and> bytes_ip (incIPv4_bytes (ip_bytes a)) = a + 1"
  using incIP_eq incIPv4_eq by (simp add: incIP_def incIPv4_def)

text \<open>
  Property C9. The broadcast address computed byte by byte is the last address of the network: it is
  inside, and no address of the network is larger.
\<close>

theorem broadcastIPv4_last:
  assumes "wf_net n"
  shows "net_contains n (broadcastIPv4 n) \<and> (\<forall>a. net_contains n a \<longrightarrow> unat a \<le> unat (broadcastIPv4 n))"
proof -
  have p: "(0 :: nat) < 2 ^ net_host_bits n" by simp
  have last: "(2 :: nat) ^ net_host_bits n - 1 < 2 ^ net_host_bits n" using p by simp
  have "unat a \<le> unat (broadcastIPv4 n)" if c: "net_contains n a" for a
  proof -
    obtain j where j: "j < 2 ^ net_host_bits n" "a = net_ip n + of_nat j"
      using c net_contains_iff_offset [OF assms] by blast
    then show ?thesis
      unfolding broadcast_offset [OF assms] j(2) unat_add_offset [OF assms j(1)] unat_add_offset [OF assms last]
      by linarith
  qed
  then show ?thesis
    unfolding broadcast_offset [OF assms] using net_contains_offset [OF assms last] by blast
qed

theorem broadcastIPv4_last_witness:
  "net_contains \<lparr>net_ip = 178651136, net_ones = 24\<rparr> (broadcastIPv4 \<lparr>net_ip = 178651136, net_ones = 24\<rparr>)"
  using broadcastIPv4_last [of "\<lparr>net_ip = 178651136, net_ones = 24\<rparr>"] by (simp add: wf_net_def net_host_bits_def)

end
