(* ===== verification/Ipam_Store.thy ===== *)
theory Ipam_Store
  imports Store_Core Ipv4_Net
begin

text \<open>
  The address store \<open>store/ipam\<close>: the pools (one per bridge, a /24 of the runtime subnet each), the
  container addresses allocated in them and their forwarded ports. The state is \<open>IpamState\<close>
  (\<open>model.go\<close>); every method of \<open>IpamManager\<close> (\<open>ipam.go\<close>) and \<open>SetConfig\<close> (\<open>store.go\<close>) is a
  definition. A pool's allocation map may be absent (\<open>None\<close>), which is how a JSON
  \<open>null\<close> decodes: \<open>loadOrInit\<close> does not repair it, see \<open>ipam_loadOrInit\<close>.
\<close>

section \<open>Data\<close>

record ForwardInfo =
  fi_HostPort :: int
  fi_ContainerPort :: int
  fi_Protocol :: string

record Allocation =
  al_ContainerId :: string
  al_Interface :: string
  al_Forwards :: "ForwardInfo list"
  al_AssignedAt :: time

record Pool =
  po_Interface :: string
  po_Subnet :: string
  po_Address :: string
  po_Allocations :: "(string, Allocation) gomap option"

record DnsProxyConf =
  dp_Interface :: string
  dp_Addr :: string
  dp_Upstreams :: "string list"

record IpamState =
  ip_Version :: string
  ip_RuntimeSubnet :: string
  ip_DnsProxy :: DnsProxyConf
  ip_HostInterface :: string
  ip_HostInterfaceAddr :: string
  ip_Pools :: "Pool list"

record NetworkList =
  nl_Interface :: string
  nl_Address :: string
  nl_NumContainers :: nat

text \<open>The entries a \<open>range\<close> over the (possibly absent) allocation map visits.\<close>

definition allocs :: "Pool \<Rightarrow> (string, Allocation) gomap" where
  "allocs p = (case po_Allocations p of None \<Rightarrow> [] | Some m \<Rightarrow> m)"

text \<open>What the host reports: the default-route interface and its address.\<close>

record host_env =
  he_interface :: "string res"
  he_addr :: "string res"

section \<open>The store\<close>

definition default_dns :: DnsProxyConf where
  "default_dns = \<lparr>dp_Interface = ''raindDns'', dp_Addr = ''10.166.254.254'',
     dp_Upstreams = [''8.8.8.8'', ''1.1.1.1'']\<rparr>"

definition default_pool :: Pool where
  "default_pool = \<lparr>po_Interface = ''raind0'', po_Subnet = ''10.166.0.0/24'',
     po_Address = ''10.166.0.254/24'', po_Allocations = Some []\<rparr>"

definition ipam_initState :: "string \<Rightarrow> string \<Rightarrow> IpamState" where
  "ipam_initState hif addr = \<lparr>ip_Version = ''0.1.0'', ip_RuntimeSubnet = ''10.166.0.0/16'',
     ip_DnsProxy = default_dns, ip_HostInterface = hif, ip_HostInterfaceAddr = addr,
     ip_Pools = [default_pool]\<rparr>"

text \<open>
  \<open>loadOrInit\<close>: when the file cannot be read the host interface is looked up first, and only
  then is the kind of the error examined. After decoding, the loop that should replace
  an absent allocation map assigns to its loop variable, a copy of the pool, so the state is
  returned as decoded.
\<close>

definition ipam_loadOrInit :: "host_env \<Rightarrow> IpamState read_result \<Rightarrow> IpamState res" where
  "ipam_loadOrInit host r =
     (case r of
        Bytes (Undecodable m) \<Rightarrow> Inl (Msg (''ipam state json broken: '' @ m))
      | Bytes (Decoded st) \<Rightarrow> Inr st
      | _ \<Rightarrow> (case he_interface host of Inl e \<Rightarrow> Inl e
         | Inr hif \<Rightarrow> (case he_addr host of Inl e \<Rightarrow> Inl e
         | Inr addr \<Rightarrow> (case r of
               ReadFailed e \<Rightarrow> Inl (SysErr e)
             | _ \<Rightarrow> Inr (ipam_initState hif addr)))))"

definition ipam_atomicSave :: "io_env \<Rightarrow> IpamState \<Rightarrow> IpamState disk \<Rightarrow> unit res \<times> IpamState disk" where
  "ipam_atomicSave = atomicSave (\<lambda>st. st)"

definition ipam_withLock ::
  "host_env \<Rightarrow> io_env \<Rightarrow> (IpamState \<Rightarrow> (IpamState \<times> 'a) res) \<Rightarrow> IpamState disk \<Rightarrow> 'a res \<times> IpamState disk" where
  "ipam_withLock host = withLock (ipam_loadOrInit host) ipam_atomicSave"

definition ipam_withRLock ::
  "host_env \<Rightarrow> io_env \<Rightarrow> (IpamState \<Rightarrow> 'a res) \<Rightarrow> IpamState disk \<Rightarrow> 'a res" where
  "ipam_withRLock host = withRLock (ipam_loadOrInit host)"

definition ipam_SetConfig :: "host_env \<Rightarrow> io_env \<Rightarrow> IpamState disk \<Rightarrow> unit res \<times> IpamState disk" where
  "ipam_SetConfig host io d =
     (case he_interface host of Inl e \<Rightarrow> (Inl e, d)
      | Inr hif \<Rightarrow> (case he_addr host of Inl e \<Rightarrow> (Inl e, d)
      | Inr addr \<Rightarrow> ipam_withLock host io (\<lambda>st. Inr
          (st\<lparr>ip_Version := ''0.1.0'', ip_RuntimeSubnet := ''10.166.0.0/16'',
              ip_DnsProxy := default_dns, ip_HostInterface := hif, ip_HostInterfaceAddr := addr,
              ip_Pools := (if ip_Pools st = [] then [default_pool] else ip_Pools st)\<rparr>, ())) d))"

section \<open>Address search\<close>

function findFree_loop :: "ipnet \<Rightarrow> ip4 \<Rightarrow> (string \<Rightarrow> bool) \<Rightarrow> nat \<Rightarrow> ip4 \<Rightarrow> ip4 option" where
  "findFree_loop n gw used i cursor =
     (if i < 16777216 then
        (let cur = (if \<not> net_contains n cursor then incIP (net_ip n) else cursor) in
         if cur = net_ip n \<or> cur = gw \<or> cur = broadcastIPv4 n
         then findFree_loop n gw used (Suc i) (incIP cur)
         else if \<not> used (ip_string cur) then Some cur
         else findFree_loop n gw used (Suc i) (incIP cur))
      else None)"
  by pat_completeness auto
termination
  by (relation "measure (\<lambda>(n, gw, used, i, cursor). 16777216 - i)") auto

declare findFree_loop.simps [simp del]

definition findFreeIpv4 :: "ipnet \<Rightarrow> ip4 \<Rightarrow> (string, Allocation) gomap \<Rightarrow> ip4 res" where
  "findFreeIpv4 n gw alloc =
     (case findFree_loop n gw (\<lambda>s. map_of alloc s \<noteq> None) 0 (incIP (net_ip n)) of
        Some a \<Rightarrow> Inr a
      | None \<Rightarrow> Inl (Msg (''no free ip in subnet '' @ net_string n)))"

section \<open>Operations that change the state\<close>

text \<open>\<open>Allocate\<close>. The error of \<open>ParseCIDR\<close> is dropped, so an unparsable subnet is a nil dereference.\<close>

definition allocate_in :: "time \<Rightarrow> string \<Rightarrow> Pool \<Rightarrow> (Pool \<times> string) res" where
  "allocate_in now cid p =
     (if po_Subnet p = [] \<or> po_Address p = [] then Inl (Msg ''ipam not configured'')
      else (case parse_ip (hd (split_on CHR ''/'' (po_Address p))) of
              None \<Rightarrow> Inl (Msg ''gateway must be ipv4'')
            | Some gw \<Rightarrow> (case parse_cidr (po_Subnet p) of
                None \<Rightarrow> Inl (Panic ''nil pointer dereference'')
              | Some n \<Rightarrow> (case findFreeIpv4 n gw (allocs p) of
                  Inl e \<Rightarrow> Inl e
                | Inr a \<Rightarrow> (case po_Allocations p of
                    None \<Rightarrow> Inl (Panic ''assignment to entry in nil map'')
                  | Some m \<Rightarrow> Inr (p\<lparr>po_Allocations := Some (map_set (ip_string a)
                      \<lparr>al_ContainerId = cid, al_Interface = ''rd_'' @ cid, al_Forwards = [],
                       al_AssignedAt = now\<rparr> m)\<rparr>, ip_string a))))))"

fun allocate_pools :: "time \<Rightarrow> string \<Rightarrow> string \<Rightarrow> Pool list \<Rightarrow> (Pool list \<times> string) res" where
  "allocate_pools now cid bridge [] = Inl (Msg (''target bridge not configured: '' @ bridge))"
| "allocate_pools now cid bridge (p # ps) =
     (if po_Interface p = bridge
      then (case allocate_in now cid p of Inl e \<Rightarrow> Inl e | Inr (p', s) \<Rightarrow> Inr (p' # ps, s))
      else (case allocate_pools now cid bridge ps of
              Inl e \<Rightarrow> Inl e | Inr (ps', s) \<Rightarrow> Inr (p # ps', s)))"

definition ipam_Allocate ::
  "host_env \<Rightarrow> io_env \<Rightarrow> time \<Rightarrow> string \<Rightarrow> string \<Rightarrow> IpamState disk \<Rightarrow> string res \<times> IpamState disk" where
  "ipam_Allocate host io now cid bridge = ipam_withLock host io (\<lambda>st.
     case allocate_pools now cid bridge (ip_Pools st) of
       Inl e \<Rightarrow> Inl e
     | Inr (ps, s) \<Rightarrow> Inr (st\<lparr>ip_Pools := ps\<rparr>, s))"

text \<open>\<open>Release\<close> deletes the first allocation of the container it meets and stops.\<close>

fun release_pools :: "string \<Rightarrow> Pool list \<Rightarrow> Pool list" where
  "release_pools cid [] = []"
| "release_pools cid (p # ps) =
     (case range_find (\<lambda>_ a. al_ContainerId a = cid) (allocs p) of
        Some (ip, _) \<Rightarrow> p\<lparr>po_Allocations := map_option (map_del ip) (po_Allocations p)\<rparr> # ps
      | None \<Rightarrow> p # release_pools cid ps)"

definition ipam_Release :: "host_env \<Rightarrow> io_env \<Rightarrow> string \<Rightarrow> IpamState disk \<Rightarrow> unit res \<times> IpamState disk" where
  "ipam_Release host io cid = ipam_withLock host io (\<lambda>st.
     Inr (st\<lparr>ip_Pools := release_pools cid (ip_Pools st)\<rparr>, ()))"

text \<open>
  \<open>StoreBridge\<close>: the first /24 of the runtime subnet whose text is not the canonical text of a
  pool's subnet. The loop state is the candidate address alone and every round adds 256,
  so a run that has visited all 2^24 candidates repeats itself for ever: \<open>None\<close> is that case.
\<close>

datatype bridge_search = BridgeFound ip4 | BridgeNone | BridgeDiverges

function bridge_loop :: "ipnet \<Rightarrow> string list \<Rightarrow> nat \<Rightarrow> ip4 \<Rightarrow> bridge_search" where
  "bridge_loop rt used i ip =
     (if i < 16777216 then
        (if \<not> net_contains rt ip then BridgeNone
         else if \<not> net_contains rt (broadcastIPv4 \<lparr>net_ip = ip, net_ones = 24\<rparr>) then BridgeNone
         else if net_string \<lparr>net_ip = ip, net_ones = 24\<rparr> \<in> set used
         then bridge_loop rt used (Suc i) (ipv4Add ip 256)
         else BridgeFound ip)
      else BridgeDiverges)"
  by pat_completeness auto
termination
  by (relation "measure (\<lambda>(rt, used, i, ip). 16777216 - i)") auto

declare bridge_loop.simps [simp del]

fun used_subnets :: "Pool list \<Rightarrow> string list res" where
  "used_subnets [] = Inr []"
| "used_subnets (p # ps) =
     (case parse_cidr (po_Subnet p) of
        None \<Rightarrow> Inl (Msg (''invalid pool subnet: '' @ po_Subnet p))
      | Some n \<Rightarrow> (case used_subnets ps of Inl e \<Rightarrow> Inl e | Inr us \<Rightarrow> Inr (net_string n # us)))"

definition storeBridge_state :: "string \<Rightarrow> IpamState \<Rightarrow> (IpamState \<times> string \<times> string) res" where
  "storeBridge_state bridge st =
     (if bridge \<in> po_Interface ` set (ip_Pools st)
      then Inl (Msg (''interface: '' @ bridge @ '' is already created''))
      else if ip_RuntimeSubnet st = [] then Inl (Msg ''runtime subnet is not configured'')
      else (case parse_cidr (ip_RuntimeSubnet st) of
          None \<Rightarrow> Inl (Msg (''invalid runtime subnet: invalid CIDR address: '' @ ip_RuntimeSubnet st))
        | Some rt \<Rightarrow>
            if net_ones rt > 24
            then Inl (Msg (''runtime subnet prefix must be <= /24: '' @ net_string rt))
            else (case used_subnets (ip_Pools st) of Inl e \<Rightarrow> Inl e
              | Inr used \<Rightarrow> (case bridge_loop rt used 0 (net_ip rt AND cidr_mask (net_ones rt)) of
                    BridgeNone \<Rightarrow> Inl (Msg (''no available /24 subnet in runtime subnet: '' @ net_string rt))
                  | BridgeDiverges \<Rightarrow> Inl (Panic ''diverges'')
                  | BridgeFound ip \<Rightarrow>
                      (let subnet = net_string \<lparr>net_ip = ip, net_ones = 24\<rparr>;
                           addr = ip_string (ipv4Add ip 254) @ ''/24''
                       in Inr (st\<lparr>ip_Pools := ip_Pools st @
                             [\<lparr>po_Interface = bridge, po_Subnet = subnet, po_Address = addr,
                               po_Allocations = Some []\<rparr>]\<rparr>, subnet, addr))))))"

definition ipam_StoreBridge ::
  "host_env \<Rightarrow> io_env \<Rightarrow> string \<Rightarrow> IpamState disk \<Rightarrow> (string \<times> string) res \<times> IpamState disk" where
  "ipam_StoreBridge host io bridge = ipam_withLock host io (storeBridge_state bridge)"

definition ipam_RemoveBridge :: "host_env \<Rightarrow> io_env \<Rightarrow> string \<Rightarrow> IpamState disk \<Rightarrow> unit res \<times> IpamState disk" where
  "ipam_RemoveBridge host io bridge = ipam_withLock host io (\<lambda>st.
     if bridge \<notin> po_Interface ` set (ip_Pools st)
     then Inl (Msg (''bridge: '' @ bridge @ '' not found''))
     else Inr (st\<lparr>ip_Pools := filter (\<lambda>p. po_Interface p \<noteq> bridge) (ip_Pools st)\<rparr>, ()))"

fun setForward_pools :: "string \<Rightarrow> ForwardInfo \<Rightarrow> Pool list \<Rightarrow> Pool list res" where
  "setForward_pools cid fi [] = Inl (Msg (''container: '' @ cid @ '' not found''))"
| "setForward_pools cid fi (p # ps) =
     (case range_find (\<lambda>_ a. al_ContainerId a = cid) (allocs p) of
        Some (addr, a) \<Rightarrow>
          Inr (p\<lparr>po_Allocations := map_option
                 (map_set addr (a\<lparr>al_Forwards := al_Forwards a @ [fi]\<rparr>)) (po_Allocations p)\<rparr> # ps)
      | None \<Rightarrow> (case setForward_pools cid fi ps of Inl e \<Rightarrow> Inl e | Inr ps' \<Rightarrow> Inr (p # ps')))"

definition ipam_SetForwardInfo ::
  "host_env \<Rightarrow> io_env \<Rightarrow> string \<Rightarrow> int \<Rightarrow> int \<Rightarrow> string \<Rightarrow> IpamState disk \<Rightarrow> unit res \<times> IpamState disk" where
  "ipam_SetForwardInfo host io cid sport dport proto = ipam_withLock host io (\<lambda>st.
     case setForward_pools cid
            \<lparr>fi_HostPort = sport, fi_ContainerPort = dport, fi_Protocol = proto\<rparr> (ip_Pools st) of
       Inl e \<Rightarrow> Inl e | Inr ps \<Rightarrow> Inr (st\<lparr>ip_Pools := ps\<rparr>, ()))"

section \<open>Queries\<close>

definition ipam_GetNetworkList :: "host_env \<Rightarrow> io_env \<Rightarrow> IpamState disk \<Rightarrow> NetworkList list res" where
  "ipam_GetNetworkList host io = ipam_withRLock host io (\<lambda>st.
     if ip_Pools st = [] then Inl (Msg ''network is not configured'')
     else Inr (map (\<lambda>p. \<lparr>nl_Interface = po_Interface p, nl_Address = po_Address p,
                          nl_NumContainers = length (allocs p)\<rparr>) (ip_Pools st)))"

definition ipam_GetRuntimeSubnet :: "host_env \<Rightarrow> io_env \<Rightarrow> IpamState disk \<Rightarrow> string res" where
  "ipam_GetRuntimeSubnet host io = ipam_withRLock host io (\<lambda>st.
     if ip_RuntimeSubnet st = [] then Inl (Msg ''runtime subnet is not configured'')
     else Inr (ip_RuntimeSubnet st))"

definition ipam_GetDefaultInterface :: "host_env \<Rightarrow> io_env \<Rightarrow> IpamState disk \<Rightarrow> string res" where
  "ipam_GetDefaultInterface host io = ipam_withRLock host io (\<lambda>st.
     if ip_HostInterface st = [] then Inl (Msg ''default interface is not configured'')
     else Inr (ip_HostInterface st))"

definition ipam_GetDefaultInterfaceAddr :: "host_env \<Rightarrow> io_env \<Rightarrow> IpamState disk \<Rightarrow> string res" where
  "ipam_GetDefaultInterfaceAddr host io = ipam_withRLock host io (\<lambda>st.
     if ip_HostInterfaceAddr st = [] then Inl (Msg ''default interface address is not configured'')
     else Inr (ip_HostInterfaceAddr st))"

definition ipam_GetBridgeAddr :: "host_env \<Rightarrow> io_env \<Rightarrow> string \<Rightarrow> IpamState disk \<Rightarrow> string res" where
  "ipam_GetBridgeAddr host io br = ipam_withRLock host io (\<lambda>st.
     case find (\<lambda>p. po_Interface p = br) (ip_Pools st) of
       Some p \<Rightarrow> Inr (po_Address p)
     | None \<Rightarrow> Inl (Msg (''interface: '' @ br @ '' not found'')))"

text \<open>The first allocation, in pool order, that satisfies a test.\<close>

fun find_alloc :: "(string \<Rightarrow> Allocation \<Rightarrow> bool) \<Rightarrow> Pool list \<Rightarrow> (Pool \<times> string \<times> Allocation) option" where
  "find_alloc t [] = None"
| "find_alloc t (p # ps) =
     (case range_find t (allocs p) of Some (addr, a) \<Rightarrow> Some (p, addr, a) | None \<Rightarrow> find_alloc t ps)"

definition ipam_GetContainerAddress ::
  "host_env \<Rightarrow> io_env \<Rightarrow> string \<Rightarrow> IpamState disk \<Rightarrow> (string \<times> string \<times> string) res" where
  "ipam_GetContainerAddress host io cid = ipam_withRLock host io (\<lambda>st.
     case find_alloc (\<lambda>_ a. al_ContainerId a = cid) (ip_Pools st) of
       Some (p, addr, _) \<Rightarrow> Inr (ip_HostInterface st, po_Interface p, addr)
     | None \<Rightarrow> Inl (Msg (''container: '' @ cid @ '' not found'')))"

definition ipam_GetDnsProxyInfo ::
  "host_env \<Rightarrow> io_env \<Rightarrow> IpamState disk \<Rightarrow> (string \<times> string \<times> string list) res" where
  "ipam_GetDnsProxyInfo host io = ipam_withRLock host io (\<lambda>st.
     let c = ip_DnsProxy st in
     if dp_Interface c = [] \<or> dp_Addr c = [] \<or> dp_Upstreams c = []
     then Inl (Msg ''Dns Proxy not configured'')
     else Inr (dp_Interface c, dp_Addr c, dp_Upstreams c))"

definition ipam_GetForwardInfo :: "host_env \<Rightarrow> io_env \<Rightarrow> string \<Rightarrow> IpamState disk \<Rightarrow> ForwardInfo list res" where
  "ipam_GetForwardInfo host io cid = ipam_withRLock host io (\<lambda>st.
     Inr (concat (map (\<lambda>p. concat (map (\<lambda>(_, a). if al_ContainerId a = cid then al_Forwards a else [])
                                        (allocs p))) (ip_Pools st))))"

definition ipam_GetPoolList :: "host_env \<Rightarrow> io_env \<Rightarrow> IpamState disk \<Rightarrow> Pool list res" where
  "ipam_GetPoolList host io = ipam_withRLock host io (\<lambda>st. Inr (ip_Pools st))"

definition ipam_GetNetworkInfoById ::
  "host_env \<Rightarrow> io_env \<Rightarrow> string \<Rightarrow> IpamState disk \<Rightarrow> (string \<times> Allocation) res" where
  "ipam_GetNetworkInfoById host io cid = ipam_withRLock host io (\<lambda>st.
     case find_alloc (\<lambda>_ a. al_ContainerId a = cid) (ip_Pools st) of
       Some (_, addr, a) \<Rightarrow> Inr (addr, a)
     | None \<Rightarrow> Inl (Msg (''container: '' @ cid @ '' not found'')))"

definition ipam_GetVethById :: "host_env \<Rightarrow> io_env \<Rightarrow> string \<Rightarrow> IpamState disk \<Rightarrow> string res" where
  "ipam_GetVethById host io cid = ipam_withRLock host io (\<lambda>st.
     case find_alloc (\<lambda>_ a. al_ContainerId a = cid) (ip_Pools st) of
       Some (_, _, a) \<Rightarrow> Inr (al_Interface a)
     | None \<Rightarrow> Inl (Msg (''contianer: '' @ cid @ '' not found'')))"

definition ipam_GetInfoByIp ::
  "host_env \<Rightarrow> io_env \<Rightarrow> string \<Rightarrow> IpamState disk \<Rightarrow> (string \<times> string) res" where
  "ipam_GetInfoByIp host io ip = ipam_withRLock host io (\<lambda>st.
     case find_alloc (\<lambda>addr _. addr = ip) (ip_Pools st) of
       Some (_, _, a) \<Rightarrow> Inr (al_ContainerId a, al_Interface a)
     | None \<Rightarrow> Inl (Msg (''ip: '' @ ip @ '' not found'')))"

section \<open>The address search finds the lowest free host\<close>

text \<open>An address the search may hand out.\<close>

definition free_host :: "ipnet \<Rightarrow> ip4 \<Rightarrow> (string \<Rightarrow> bool) \<Rightarrow> ip4 \<Rightarrow> bool" where
  "free_host n gw used a \<longleftrightarrow> net_contains n a \<and> a \<noteq> net_ip n \<and> a \<noteq> gw \<and> a \<noteq> broadcastIPv4 n \<and>
     \<not> used (ip_string a)"

lemma net_contains_start:
  assumes "wf_net n" and "net_ones n \<le> 31"
  shows "net_contains n (incIP (net_ip n))"
proof -
  have "(1 :: nat) < 2 ^ net_host_bits n" using assms(2) by (intro one_less_power) (auto simp: net_host_bits_def)
  from net_contains_offset [OF assms(1) this] show ?thesis by (simp add: incIP_eq)
qed

lemma findFree_sound:
  assumes "wf_net n" and "net_ones n \<le> 31" and "findFree_loop n gw used i cursor = Some a"
  shows "free_host n gw used a"
  using assms
proof (induction n gw used i cursor rule: findFree_loop.induct)
  case (1 n gw used i cursor)
  let ?cur = "if \<not> net_contains n cursor then incIP (net_ip n) else cursor"
  have c: "net_contains n ?cur" using 1(3,4) net_contains_start by auto
  show ?case
    using 1(1,2) [OF _ refl] 1(3,4,5) c unfolding findFree_loop.simps [of n gw used i cursor] Let_def
    by (auto simp: free_host_def split: if_splits)
qed

lemma findFree_skip:
  assumes "i < 16777216" and "net_contains n c" and "\<not> free_host n gw used c"
  shows "findFree_loop n gw used i c = findFree_loop n gw used (Suc i) (incIP c)"
  using assms by (subst findFree_loop.simps) (auto simp: free_host_def)

lemma findFree_stop:
  assumes "i < 16777216" and "free_host n gw used c"
  shows "findFree_loop n gw used i c = Some c"
  using assms by (subst findFree_loop.simps) (auto simp: free_host_def)

lemma findFree_hits:
  assumes n: "wf_net n" "net_ones n \<le> 31" and k: "k < 2 ^ net_host_bits n" "free_host n gw used (net_ip n + of_nat k)"
    and least: "\<And>l. j \<le> l \<Longrightarrow> l < k \<Longrightarrow> \<not> free_host n gw used (net_ip n + of_nat l)"
    and "j \<le> k" and "i + (k - j) < 16777216"
  shows "findFree_loop n gw used i (net_ip n + of_nat j) = Some (net_ip n + of_nat k)"
  using least assms(6,7)
proof (induction "k - j" arbitrary: i j)
  case 0
  then have "j = k" by simp
  with 0 k show ?case by (simp add: findFree_stop)
next
  case (Suc d)
  then have jk: "j < k" by simp
  have c: "net_contains n (net_ip n + of_nat j)" using n k jk by (intro net_contains_offset) auto
  have nf: "\<not> free_host n gw used (net_ip n + of_nat j)" using Suc.prems(1) jk by simp
  have "findFree_loop n gw used (Suc i) (net_ip n + of_nat (Suc j)) = Some (net_ip n + of_nat k)"
    using Suc.prems Suc.hyps(2) jk by (intro Suc.hyps(1)) auto
  moreover have "incIP (net_ip n + of_nat j) = net_ip n + of_nat (Suc j)"
    by (simp add: incIP_eq algebra_simps)
  moreover have "i < 16777216" using Suc.prems(3) by simp
  ultimately show ?case using findFree_skip [OF _ c nf] by simp
qed

lemma findFree_least:
  assumes n: "wf_net n" "8 \<le> net_ones n" "net_ones n \<le> 31"
  shows "case findFree_loop n gw used 0 (incIP (net_ip n)) of
     Some a \<Rightarrow> free_host n gw used a \<and> (\<forall>b. free_host n gw used b \<longrightarrow> unat a \<le> unat b)
   | None \<Rightarrow> \<not> (\<exists>b. free_host n gw used b)"
proof (cases "\<exists>b. free_host n gw used b")
  case False
  then have "findFree_loop n gw used 0 (incIP (net_ip n)) = None"
    using findFree_sound [OF n(1,3)] by (metis option.exhaust)
  with False show ?thesis by simp
next
  case True
  let ?f = "\<lambda>k. k < 2 ^ net_host_bits n \<and> free_host n gw used (net_ip n + of_nat k)"
  have off: "\<exists>k. ?f k \<and> b = net_ip n + of_nat k" if "free_host n gw used b" for b
    using that net_contains_iff_offset [OF n(1)] by (auto simp: free_host_def)
  define k where "k = (LEAST k. ?f k)"
  have k: "?f k" unfolding k_def using True off by (metis (mono_tags, lifting) LeastI)
  have least: "\<not> ?f l" if "l < k" for l using that not_less_Least unfolding k_def by auto
  have "k \<noteq> 0" using k by (intro notI) (simp add: free_host_def)
  moreover have "(2::nat) ^ net_host_bits n \<le> 2 ^ 24"
    using n by (intro power_increasing) (auto simp: net_host_bits_def)
  ultimately have "findFree_loop n gw used 0 (net_ip n + of_nat 1) = Some (net_ip n + of_nat k)"
    using k least n by (intro findFree_hits) auto
  moreover have "unat (net_ip n + of_nat k) \<le> unat b" if b: "free_host n gw used b" for b
  proof -
    from off [OF b] obtain l where l: "?f l" "b = net_ip n + of_nat l" by blast
    then have "k \<le> l" using least not_less by blast
    then show ?thesis using l k n(1) by (simp add: unat_add_offset)
  qed
  ultimately show ?thesis using k by (simp add: incIP_eq)
qed

section \<open>The invariant of the address store\<close>


definition runtime_net :: ipnet where
  "runtime_net = \<lparr>net_ip = 178651136, net_ones = 16\<rparr>"

definition sub24 :: "nat \<Rightarrow> ipnet" where
  "sub24 k = \<lparr>net_ip = 178651136 + of_nat (256 * k), net_ones = 24\<rparr>"

definition pool_key :: "ipnet \<Rightarrow> string \<Rightarrow> bool" where
  "pool_key n s \<longleftrightarrow> (case parse_ip s of
       None \<Rightarrow> False
     | Some a \<Rightarrow> s = ip_string a \<and> net_contains n a \<and> a \<noteq> net_ip n \<and> a \<noteq> net_ip n + 254 \<and> a \<noteq> broadcastIPv4 n)"

definition pool_ok :: "Pool \<Rightarrow> bool" where
  "pool_ok p \<longleftrightarrow> (case parse_cidr (po_Subnet p) of
       None \<Rightarrow> False
     | Some n \<Rightarrow> net_ones n = 24 \<and> net_contains runtime_net (net_ip n) \<and> po_Subnet p = net_string n \<and>
         po_Address p = ip_string (net_ip n + 254) @ ''/24'' \<and>
         (case po_Allocations p of
            None \<Rightarrow> False
          | Some m \<Rightarrow> wf_map m \<and>
              list_all (pool_key n) (map fst m)))"

definition ipam_inv :: "IpamState \<Rightarrow> bool" where
  "ipam_inv st \<longleftrightarrow> ip_RuntimeSubnet st = ''10.166.0.0/16'' \<and> list_all pool_ok (ip_Pools st) \<and>
     distinct (map po_Interface (ip_Pools st)) \<and> distinct (map po_Subnet (ip_Pools st))"

lemma parse_runtime: "parse_cidr ''10.166.0.0/16'' = Some runtime_net"
  unfolding runtime_net_def by code_simp

lemma wf_sub24:
  assumes "k < 256"
  shows "wf_net (sub24 k)" "unat (net_ip (sub24 k)) = 178651136 + 256 * k"
    "net_contains runtime_net (net_ip (sub24 k))"
proof -
  show u: "unat (net_ip (sub24 k)) = 178651136 + 256 * k"
    using assms by (simp add: sub24_def unat_word_ariths unat_of_nat)
  show "wf_net (sub24 k)"
    using u by (simp add: wf_net_def net_host_bits_def sub24_def)
  show "net_contains runtime_net (net_ip (sub24 k))"
    using u assms by (simp add: net_contains_div runtime_net_def net_host_bits_def)
qed

lemma sub24_exhaust:
  assumes "wf_net n" "net_ones n = 24" "net_contains runtime_net (net_ip n)"
  shows "\<exists>k<256. n = sub24 k"
proof -
  have d: "unat (net_ip n) div 65536 = 2726" "unat (net_ip n) mod 256 = 0"
    using assms by (simp_all add: net_contains_div runtime_net_def net_host_bits_def wf_net_def)
  define k where "k = unat (net_ip n) div 256 - 697856"
  have q: "unat (net_ip n) = 256 * (unat (net_ip n) div 256)" using d(2) by auto
  have "unat (net_ip n) div 256 div 256 = 2726" using d(1) by (simp add: div_mult2_eq [symmetric])
  then have "697856 \<le> unat (net_ip n) div 256" "unat (net_ip n) div 256 < 698112"
    by (linarith, linarith)
  with q have k: "unat (net_ip n) = 178651136 + 256 * k" "k < 256"
    unfolding k_def by linarith+
  then have "net_ip n = net_ip (sub24 k)"
    using wf_sub24(2) by (simp add: word_unat_eq_iff)
  with k assms show ?thesis by (intro exI [of _ k]) (simp add: sub24_def)
qed

lemma net_string_inj: "wf_net n \<Longrightarrow> wf_net n' \<Longrightarrow> net_string n = net_string n' \<longleftrightarrow> n = n'"
  by (metis option.inject parse_net_string)

lemma sub24_inj: "j < 256 \<Longrightarrow> k < 256 \<Longrightarrow> sub24 j = sub24 k \<longleftrightarrow> j = k"
  using wf_sub24(2) by (metis add_left_cancel mult_cancel1 zero_neq_numeral)

lemma bridge_scan:
  assumes "k \<le> 256" and "i + (256 - k) < 16777216"
  shows "bridge_loop runtime_net used i (178651136 + of_nat (256 * k)) =
     (case find (\<lambda>j. net_string (sub24 j) \<notin> set used) [k..<256] of
        Some j \<Rightarrow> BridgeFound (net_ip (sub24 j)) | None \<Rightarrow> BridgeNone)"
  using assms
proof (induction "256 - k" arbitrary: i k)
  case 0
  then have k: "k = 256" by simp
  show ?case using 0 by (subst bridge_loop.simps) (simp add: k net_contains_div runtime_net_def net_host_bits_def)
next
  case (Suc d)
  then have k: "k < 256" by simp
  have ip: "178651136 + of_nat (256 * k) = net_ip (sub24 k)" by (simp add: sub24_def)
  have c: "net_contains runtime_net (net_ip (sub24 k))" by (rule wf_sub24 [OF k])
  have eta: "\<lparr>net_ip = net_ip (sub24 k), net_ones = 24\<rparr> = sub24 k" by (simp add: sub24_def)
  have b: "net_contains runtime_net (broadcastIPv4 (sub24 k))"
  proof -
    have "unat (broadcastIPv4 (sub24 k)) = 178651136 + 256 * k + 255"
      unfolding broadcast_offset [OF wf_sub24(1) [OF k]]
      using unat_add_offset [OF wf_sub24(1) [OF k], of 255] wf_sub24(2) [OF k]
      by (simp add: net_host_bits_def sub24_def)
    then show ?thesis using k by (simp add: net_contains_div runtime_net_def net_host_bits_def)
  qed
  have nx: "ipv4Add (net_ip (sub24 k)) 256 = 178651136 + of_nat (256 * Suc k)"
    by (simp add: ipv4Add_def sub24_def)
  have "bridge_loop runtime_net used (Suc i) (178651136 + of_nat (256 * Suc k)) =
     (case find (\<lambda>j. net_string (sub24 j) \<notin> set used) [Suc k..<256] of
        Some j \<Rightarrow> BridgeFound (net_ip (sub24 j)) | None \<Rightarrow> BridgeNone)"
    using Suc by (intro Suc.hyps(1)) simp_all
  moreover have "[k..<256] = k # [Suc k..<256]" using k by (rule upt_conv_Cons)
  ultimately show ?case
    unfolding ip using Suc.prems c b eta nx by (subst bridge_loop.simps) simp
qed

lemma pool_okE:
  assumes "pool_ok p"
  obtains k m where "k < 256" "po_Subnet p = net_string (sub24 k)" "parse_cidr (po_Subnet p) = Some (sub24 k)"
    "po_Address p = ip_string (net_ip (sub24 k) + 254) @ ''/24''" "po_Allocations p = Some m" "wf_map m"
    "\<forall>s \<in> fst ` set m. pool_key (sub24 k) s"
proof -
  from assms obtain n m where n: "parse_cidr (po_Subnet p) = Some n" "net_ones n = 24"
    "net_contains runtime_net (net_ip n)" "po_Subnet p = net_string n"
    "po_Address p = ip_string (net_ip n + 254) @ ''/24''" and m: "po_Allocations p = Some m" "wf_map m"
    "\<forall>s \<in> fst ` set m. pool_key n s"
    by (auto simp: pool_ok_def list_all_iff split: option.splits)
  obtain k where "k < 256" "n = sub24 k"
    using sub24_exhaust [OF parse_cidr_wf [OF n(1)] n(2,3)] by blast
  with n m show thesis by (intro that [of k m]) auto
qed

lemma pool_okI:
  assumes "k < 256" "po_Subnet p = net_string (sub24 k)"
    "po_Address p = ip_string (net_ip (sub24 k) + 254) @ ''/24''" "po_Allocations p = Some m" "wf_map m"
    "\<forall>s \<in> fst ` set m. pool_key (sub24 k) s"
  shows "pool_ok p"
proof -
  have "parse_cidr (po_Subnet p) = Some (sub24 k)"
    using assms(2) wf_sub24(1) [OF assms(1)] by (simp add: parse_net_string)
  with assms wf_sub24(3) [OF assms(1)] show ?thesis
    by (simp add: pool_ok_def list_all_iff) (simp add: sub24_def)
qed

lemma gateway_parse:
  "parse_ip (hd (split_on CHR ''/'' (ip_string a @ ''/24''))) = Some a"
proof -
  have "CHR ''/'' \<notin> set (ip_string a)" using set_ip_string [of "CHR ''/''" a] by auto
  from split_on_append [OF this, of "''24''"] show ?thesis by simp
qed

lemma allocate_in_ok:
  assumes p: "pool_ok p" and r: "allocate_in now cid p = Inr (p', s)"
  shows "pool_ok p'" "po_Interface p' = po_Interface p" "po_Subnet p' = po_Subnet p"
    "s \<notin> fst ` set (allocs p)"
    "map_of (allocs p') = (map_of (allocs p))(s \<mapsto> \<lparr>al_ContainerId = cid, al_Interface = ''rd_'' @ cid,
        al_Forwards = [], al_AssignedAt = now\<rparr>)"
proof -
  obtain k m where k: "k < 256" "po_Subnet p = net_string (sub24 k)" "parse_cidr (po_Subnet p) = Some (sub24 k)"
    "po_Address p = ip_string (net_ip (sub24 k) + 254) @ ''/24''" "po_Allocations p = Some m" "wf_map m"
    "\<forall>s \<in> fst ` set m. pool_key (sub24 k) s"
    using p by (rule pool_okE)
  have m: "allocs p = m" by (simp add: allocs_def k)
  from r k m obtain a where a: "findFree_loop (sub24 k) (net_ip (sub24 k) + 254)
      (\<lambda>s. map_of m s \<noteq> None) 0 (incIP (net_ip (sub24 k))) = Some a" and s: "s = ip_string a"
    and p': "p' = p\<lparr>po_Allocations := Some (map_set (ip_string a) \<lparr>al_ContainerId = cid,
        al_Interface = ''rd_'' @ cid, al_Forwards = [], al_AssignedAt = now\<rparr> m)\<rparr>"
    by (auto simp: allocate_in_def findFreeIpv4_def gateway_parse split: if_splits option.splits sum.splits)
  have f: "free_host (sub24 k) (net_ip (sub24 k) + 254) (\<lambda>s. map_of m s \<noteq> None) a"
    using a wf_sub24(1) [OF k(1)] by (intro findFree_sound) (auto simp: sub24_def)
  have "pool_key (sub24 k) (ip_string a)" using f by (simp add: pool_key_def free_host_def)
  then show "pool_ok p'"
    using k p' by (intro pool_okI [where m = "the (po_Allocations p')", OF k(1)]) (auto simp: AList.dom_update)
  show "po_Interface p' = po_Interface p" "po_Subnet p' = po_Subnet p" using p' by auto
  show "s \<notin> fst ` set (allocs p)" using f m s by (simp add: free_host_def map_of_eq_None_iff)
  show "map_of (allocs p') = (map_of (allocs p))(s \<mapsto> \<lparr>al_ContainerId = cid, al_Interface = ''rd_'' @ cid,
        al_Forwards = [], al_AssignedAt = now\<rparr>)"
    using p' s m by (simp add: allocs_def)
qed

lemma allocate_pools_ok:
  assumes "allocate_pools now cid br ps = Inr (ps', s)"
  shows "\<exists>xs p p' ys. ps = xs @ p # ys \<and> ps' = xs @ p' # ys \<and> po_Interface p = br \<and>
     allocate_in now cid p = Inr (p', s) \<and> br \<notin> po_Interface ` set xs"
  using assms
proof (induction ps arbitrary: ps')
  case (Cons q qs)
  show ?case
  proof (cases "po_Interface q = br")
    case True
    with Cons.prems show ?thesis
      by (intro exI [of _ "[]"]) (auto split: sum.splits)
  next
    case False
    with Cons.prems obtain qs' where q: "allocate_pools now cid br qs = Inr (qs', s)" "ps' = q # qs'"
      by (auto split: sum.splits)
    from Cons.IH [OF q(1)] obtain xs p p' ys where "qs = xs @ p # ys" "qs' = xs @ p' # ys"
      "po_Interface p = br" "allocate_in now cid p = Inr (p', s)" "br \<notin> po_Interface ` set xs"
      by blast
    with False q(2) show ?thesis by (intro exI [of _ "q # xs"]) auto
  qed
qed simp

lemma allocate_pools_inv:
  assumes "ipam_inv st" and "allocate_pools now cid br (ip_Pools st) = Inr (ps', s)"
  shows "ipam_inv (st\<lparr>ip_Pools := ps'\<rparr>)"
proof -
  from allocate_pools_ok [OF assms(2)] obtain xs p p' ys where
    e: "ip_Pools st = xs @ p # ys" "ps' = xs @ p' # ys" "allocate_in now cid p = Inr (p', s)" by blast
  from assms(1) e(1) have "pool_ok p" by (simp add: ipam_inv_def)
  from allocate_in_ok [OF this e(3)] assms(1) e(1,2) show ?thesis by (simp add: ipam_inv_def)
qed

text \<open>Deleting an entry or changing its value keeps a pool well formed.\<close>

lemma pool_ok_update:
  assumes "pool_ok p" and "po_Allocations p = Some m" and "wf_map m'" and "fst ` set m' \<subseteq> fst ` set m"
  shows "pool_ok (p\<lparr>po_Allocations := Some m'\<rparr>)"
proof -
  obtain k where k: "k < 256" "po_Subnet p = net_string (sub24 k)"
    "po_Address p = ip_string (net_ip (sub24 k) + 254) @ ''/24''"
    "\<forall>s \<in> fst ` set m. pool_key (sub24 k) s"
    using assms(1,2) by (elim pool_okE) auto
  have "\<forall>s \<in> fst ` set m'. pool_key (sub24 k) s" using k(4) assms(4) by blast
  then show ?thesis using k assms by (intro pool_okI [where m = m', OF k(1)]) auto
qed

lemma pool_ok_allocs:
  assumes "pool_ok p"
  shows "po_Allocations p = Some (allocs p)" "wf_map (allocs p)"
  using assms by (auto elim!: pool_okE simp: allocs_def)

lemma release_pools_ok:
  assumes "list_all pool_ok ps"
  shows "list_all pool_ok (release_pools cid ps)"
    "map po_Interface (release_pools cid ps) = map po_Interface ps"
    "map po_Subnet (release_pools cid ps) = map po_Subnet ps"
  using assms
  by (induction ps)
    (auto split: option.splits simp: pool_ok_allocs set_map_del intro!: pool_ok_update)

lemma setForward_pools_ok:
  assumes "list_all pool_ok ps" and "setForward_pools cid fi ps = Inr ps'"
  shows "list_all pool_ok ps' \<and> map po_Interface ps' = map po_Interface ps \<and> map po_Subnet ps' = map po_Subnet ps"
  using assms
proof (induction ps arbitrary: ps')
  case (Cons p ps)
  show ?case
  proof (cases "range_find (\<lambda>_ a. al_ContainerId a = cid) (allocs p)")
    case None
    with Cons show ?thesis by (auto split: sum.splits)
  next
    case (Some ka)
    obtain k a where ka: "ka = (k, a)" by (cases ka)
    have k: "k \<in> fst ` set (allocs p)" using range_find_Some Some ka by force
    have "pool_ok (p\<lparr>po_Allocations := Some (map_set k (a\<lparr>al_Forwards := al_Forwards a @ [fi]\<rparr>) (allocs p))\<rparr>)"
      using Cons.prems k
      by (intro pool_ok_update [of _ "allocs p"]) (auto simp: pool_ok_allocs AList.dom_update)
    with Cons.prems Some ka show ?thesis by (auto simp: pool_ok_allocs(1))
  qed
qed simp


lemma used_subnets_ok:
  "list_all pool_ok ps \<Longrightarrow> used_subnets ps = Inr (map po_Subnet ps)"
  by (induction ps) (auto elim!: pool_okE)

lemma storeBridge_eq:
  assumes "ipam_inv st"
  shows "storeBridge_state br st =
     (if br \<in> po_Interface ` set (ip_Pools st)
      then Inl (Msg (''interface: '' @ br @ '' is already created''))
      else (case find (\<lambda>k. net_string (sub24 k) \<notin> po_Subnet ` set (ip_Pools st)) [0..<256] of
          None \<Rightarrow> Inl (Msg ''no available /24 subnet in runtime subnet: 10.166.0.0/16'')
        | Some k \<Rightarrow> (let a = ip_string (net_ip (sub24 k) + 254) @ ''/24'' in
             Inr (st\<lparr>ip_Pools := ip_Pools st @ [\<lparr>po_Interface = br, po_Subnet = net_string (sub24 k),
                 po_Address = a, po_Allocations = Some []\<rparr>]\<rparr>, net_string (sub24 k), a))))"
proof -
  have rt: "net_ip runtime_net AND cidr_mask 16 = 178651136"
    unfolding runtime_net_def cidr_mask_def by code_simp
  have ns: "net_string runtime_net = ''10.166.0.0/16''" unfolding runtime_net_def by code_simp
  have inv: "ip_RuntimeSubnet st = ''10.166.0.0/16''" "used_subnets (ip_Pools st) = Inr (map po_Subnet (ip_Pools st))"
    using assms used_subnets_ok by (auto simp: ipam_inv_def)
  have loop: "bridge_loop runtime_net (map po_Subnet (ip_Pools st)) 0 178651136 =
     (case find (\<lambda>k. net_string (sub24 k) \<notin> po_Subnet ` set (ip_Pools st)) [0..<256] of
        Some j \<Rightarrow> BridgeFound (net_ip (sub24 j)) | None \<Rightarrow> BridgeNone)"
    using bridge_scan [of 0 0 "map po_Subnet (ip_Pools st)"] by (simp del: upt_rec_numeral)
  have eta: "\<lparr>net_ip = net_ip (sub24 k), net_ones = 24\<rparr> = sub24 k" for k by (simp add: sub24_def)
  have ones: "net_ones runtime_net = 16" by (simp add: runtime_net_def)
  show ?thesis
    unfolding storeBridge_state_def
    by (auto simp: inv parse_runtime rt loop ns eta ipv4Add_def ones Let_def simp del: upt_rec_numeral split: option.splits)
qed

lemma storeBridge_inv:
  assumes "ipam_inv st" and "storeBridge_state br st = Inr (st', a)"
  shows "ipam_inv st'"
proof -
  obtain k where new: "br \<notin> po_Interface ` set (ip_Pools st)"
    and k: "find (\<lambda>k. net_string (sub24 k) \<notin> po_Subnet ` set (ip_Pools st)) [0..<256] = Some k"
    and st': "st' = st\<lparr>ip_Pools := ip_Pools st @ [\<lparr>po_Interface = br, po_Subnet = net_string (sub24 k),
                 po_Address = ip_string (net_ip (sub24 k) + 254) @ ''/24'', po_Allocations = Some []\<rparr>]\<rparr>"
    using assms by (auto simp: storeBridge_eq Let_def simp del: upt_rec_numeral split: if_splits option.splits)
  have "k < 256" "net_string (sub24 k) \<notin> po_Subnet ` set (ip_Pools st)"
    using k by (auto simp: find_Some_iff simp del: upt_rec_numeral)
  moreover from this(1) have "pool_ok \<lparr>po_Interface = br, po_Subnet = net_string (sub24 k),
                 po_Address = ip_string (net_ip (sub24 k) + 254) @ ''/24'', po_Allocations = Some []\<rparr>"
    by (intro pool_okI [of k _ "[]"]) auto
  ultimately show ?thesis using assms(1) new st' by (simp add: ipam_inv_def)
qed

lemma pool_ok_default: "pool_ok default_pool"
proof (rule pool_okI [of 0 _ "[]"])
  show "po_Subnet default_pool = net_string (sub24 0)" unfolding default_pool_def sub24_def by code_simp
  show "po_Address default_pool = ip_string (net_ip (sub24 0) + 254) @ ''/24''"
    unfolding default_pool_def sub24_def by code_simp
qed (simp_all add: default_pool_def)

lemma ipam_inv_init: "ipam_inv (ipam_initState hif addr)"
  using pool_ok_default by (simp add: ipam_inv_def ipam_initState_def)

interpretation ipam: locked_store "ipam_loadOrInit host" "\<lambda>st. st" ipam_inv ipam_inv for host
  by unfold_locales (auto simp: ipam_loadOrInit_def ipam_inv_init split: sum.splits)

lemmas ipam_withLock_inv = ipam.withLock_inv [folded ipam_atomicSave_def, folded ipam_withLock_def]

text \<open>
  Histories of the store: any sequence of manager calls, each under its own I/O behaviour and host
  environment, and crashes, which leave the document as it was and \<open>path.tmp\<close> in any state
  (\<open>atomicSave_trace_main\<close>; a crash after the rename is a completed call).
\<close>

inductive ipam_reachable :: "IpamState disk \<Rightarrow> bool" where
  start: "ipam_reachable empty_disk"
| crash: "ipam_reachable d \<Longrightarrow> ipam_reachable (d\<lparr>tmp_file := t\<rparr>)"
| SetConfig: "ipam_reachable d \<Longrightarrow> ipam_reachable (snd (ipam_SetConfig host io d))"
| Allocate: "ipam_reachable d \<Longrightarrow> ipam_reachable (snd (ipam_Allocate host io now cid br d))"
| Release: "ipam_reachable d \<Longrightarrow> ipam_reachable (snd (ipam_Release host io cid d))"
| StoreBridge: "ipam_reachable d \<Longrightarrow> ipam_reachable (snd (ipam_StoreBridge host io br d))"
| RemoveBridge: "ipam_reachable d \<Longrightarrow> ipam_reachable (snd (ipam_RemoveBridge host io br d))"
| SetForwardInfo: "ipam_reachable d \<Longrightarrow> ipam_reachable (snd (ipam_SetForwardInfo host io cid sp dp proto d))"

lemma ipam_Allocate_inv [inv_intros]:
  "disk_inv ipam_inv d \<Longrightarrow> disk_inv ipam_inv (snd (ipam_Allocate host io now cid br d))"
  unfolding ipam_Allocate_def
  by (rule ipam_withLock_inv) (auto split: sum.splits intro: allocate_pools_inv)

lemma ipam_Release_inv [inv_intros]:
  "disk_inv ipam_inv d \<Longrightarrow> disk_inv ipam_inv (snd (ipam_Release host io cid d))"
  unfolding ipam_Release_def
  by (rule ipam_withLock_inv) (auto simp: ipam_inv_def release_pools_ok)

lemma ipam_StoreBridge_inv [inv_intros]:
  "disk_inv ipam_inv d \<Longrightarrow> disk_inv ipam_inv (snd (ipam_StoreBridge host io br d))"
  unfolding ipam_StoreBridge_def by (rule ipam_withLock_inv) (auto intro: storeBridge_inv)

lemma ipam_RemoveBridge_inv [inv_intros]:
  "disk_inv ipam_inv d \<Longrightarrow> disk_inv ipam_inv (snd (ipam_RemoveBridge host io br d))"
  unfolding ipam_RemoveBridge_def
  by (rule ipam_withLock_inv) (auto simp: ipam_inv_def list_all_iff distinct_map_filter split: if_splits)

lemma ipam_SetForwardInfo_inv [inv_intros]:
  "disk_inv ipam_inv d \<Longrightarrow> disk_inv ipam_inv (snd (ipam_SetForwardInfo host io cid sp dp proto d))"
  unfolding ipam_SetForwardInfo_def
  by (rule ipam_withLock_inv) (auto simp: ipam_inv_def setForward_pools_ok split: sum.splits)

lemma ipam_SetConfig_inv [inv_intros]:
  assumes "disk_inv ipam_inv d"
  shows "disk_inv ipam_inv (snd (ipam_SetConfig host io d))"
proof -
  have "disk_inv ipam_inv (snd (ipam_withLock host io (\<lambda>st. Inr
          (st\<lparr>ip_Version := ''0.1.0'', ip_RuntimeSubnet := ''10.166.0.0/16'',
              ip_DnsProxy := default_dns, ip_HostInterface := hif, ip_HostInterfaceAddr := addr,
              ip_Pools := (if ip_Pools st = [] then [default_pool] else ip_Pools st)\<rparr>, ())) d))" for hif addr
    using assms by (rule ipam_withLock_inv) (auto simp: ipam_inv_def pool_ok_default)
  with assms show ?thesis by (auto simp: ipam_SetConfig_def split: sum.splits)
qed

lemma ipam_reachable_inv: "ipam_reachable d \<Longrightarrow> disk_inv ipam_inv d"
  by (induction rule: ipam_reachable.induct) (simp_all add: inv_intros)

text \<open>An address text belongs to one pool and, there, to one entry.\<close>

lemma pool_ok_keys:
  assumes "pool_ok p"
  shows "\<exists>k < 256. po_Subnet p = net_string (sub24 k) \<and> (\<forall>s \<in> fst ` set (allocs p). pool_key (sub24 k) s)"
  using assms by (rule pool_okE) (auto simp: allocs_def)

lemma pool_key_disjoint:
  assumes "ipam_inv st" "p \<in> set (ip_Pools st)" "q \<in> set (ip_Pools st)"
    "s \<in> fst ` set (allocs p)" "s \<in> fst ` set (allocs q)"
  shows "p = q"
proof -
  have "pool_ok p" "pool_ok q" using assms by (auto simp: ipam_inv_def list_all_iff)
  then obtain j k where j: "j < 256" "po_Subnet p = net_string (sub24 j)" "pool_key (sub24 j) s"
    and k: "k < 256" "po_Subnet q = net_string (sub24 k)" "pool_key (sub24 k) s"
    using assms(4,5) pool_ok_keys by meson
  obtain a where "net_contains (sub24 j) a" "net_contains (sub24 k) a"
    using j(3) k(3) by (auto simp: pool_key_def split: option.splits)
  then have "unat (net_ip (sub24 j)) div 256 = unat (net_ip (sub24 k)) div 256"
    by (simp add: net_contains_div net_host_bits_def sub24_def)
  then have "j = k" using j k by (simp add: wf_sub24)
  with j k assms(1-3) show ?thesis by (simp add: ipam_inv_def distinct_map inj_on_def)
qed

section \<open>Lookups after an operation\<close>

lemma pool_lookup_disjoint:
  assumes "ipam_inv st" "p \<in> set (ip_Pools st)" "q \<in> set (ip_Pools st)"
    "map_of (allocs p) s \<noteq> None" "map_of (allocs q) s \<noteq> None"
  shows "p = q"
  using assms unfolding map_of_neq_None by (rule pool_key_disjoint)

lemma range_find_addr:
  assumes "wf_map m"
  shows "range_find (\<lambda>addr _. addr = s) m = map_option (Pair s) (map_of m s)"
proof (cases "map_of m s")
  case None
  then have "range_find (\<lambda>addr _. addr = s) m = None"
    by (force simp: range_find_None map_of_eq_None_iff)
  with None show ?thesis by simp
next
  case (Some a)
  then have "(s, a) \<in> set m" by (rule map_of_SomeD)
  then have "range_find (\<lambda>addr _. addr = s) m = Some (s, a)"
    using assms by (intro range_find_unique) (auto dest: eq_key_imp_eq_value)
  with Some show ?thesis by simp
qed

text \<open>The owner of an address, whichever pool holds it.\<close>

definition owner :: "IpamState \<Rightarrow> string \<Rightarrow> Allocation option" where
  "owner st s = map_option (snd \<circ> snd) (find_alloc (\<lambda>addr _. addr = s) (ip_Pools st))"

lemma find_alloc_addr:
  assumes "\<forall>q \<in> set ps. wf_map (allocs q)"
  shows "find_alloc (\<lambda>addr _. addr = s) ps =
     map_option (\<lambda>q. (q, s, the (map_of (allocs q) s))) (find (\<lambda>q. map_of (allocs q) s \<noteq> None) ps)"
  using assms by (induction ps) (auto simp: range_find_addr split: option.splits)

lemma owner_iff:
  assumes "ipam_inv st"
  shows "owner st s = Some a \<longleftrightarrow> (\<exists>p \<in> set (ip_Pools st). map_of (allocs p) s = Some a)"
proof -
  let ?P = "\<lambda>q. map_of (allocs q) s \<noteq> None"
  have wf: "\<forall>q \<in> set (ip_Pools st). wf_map (allocs q)"
    using assms pool_ok_allocs by (auto simp: ipam_inv_def list_all_iff)
  show ?thesis
  proof
    assume "owner st s = Some a"
    then obtain q where q: "find ?P (ip_Pools st) = Some q" "a = the (map_of (allocs q) s)"
      unfolding owner_def by (auto simp: find_alloc_addr [OF wf])
    then have "q \<in> set (ip_Pools st)" "?P q" by (auto simp: find_Some_iff)
    with q show "\<exists>p \<in> set (ip_Pools st). map_of (allocs p) s = Some a" by auto
  next
    assume "\<exists>p \<in> set (ip_Pools st). map_of (allocs p) s = Some a"
    then obtain p where p: "p \<in> set (ip_Pools st)" "map_of (allocs p) s = Some a" by blast
    have uniq: "q = p" if "q \<in> set (ip_Pools st)" "?P q" for q
      using that p by (intro pool_lookup_disjoint [OF assms]) auto
    have "find ?P (ip_Pools st) = Some p"
      using p(2) by (intro find_unique [OF p(1) _ uniq]) simp_all
    with p show "owner st s = Some a" by (simp add: owner_def find_alloc_addr [OF wf])
  qed
qed

lemma owner_allocate:
  assumes inv: "ipam_inv st" and r: "allocate_pools now cid br (ip_Pools st) = Inr (ps', s)"
  shows "owner st s = None"
    "owner (st\<lparr>ip_Pools := ps'\<rparr>) = (owner st)(s \<mapsto> \<lparr>al_ContainerId = cid, al_Interface = ''rd_'' @ cid,
        al_Forwards = [], al_AssignedAt = now\<rparr>)"
proof -
  let ?a = "\<lparr>al_ContainerId = cid, al_Interface = ''rd_'' @ cid, al_Forwards = [], al_AssignedAt = now\<rparr>"
  from allocate_pools_ok [OF r] obtain xs p p' ys where
    e: "ip_Pools st = xs @ p # ys" "ps' = xs @ p' # ys" "allocate_in now cid p = Inr (p', s)" by blast
  have p: "pool_ok p" using inv e(1) by (simp add: ipam_inv_def)
  note ok = allocate_in_ok [OF p e(3)]
  have inv': "ipam_inv (st\<lparr>ip_Pools := ps'\<rparr>)" using inv r by (rule allocate_pools_inv)
  have s': "map_of (allocs p') s \<noteq> None" using ok(5) by simp
  have others: "map_of (allocs q) s = None" if "q \<in> set (xs @ ys)" for q
  proof (rule ccontr)
    assume "map_of (allocs q) s \<noteq> None"
    then have "q = p'" using that s' e(2) by (intro pool_lookup_disjoint [OF inv']) auto
    with inv' that e(2) show False by (auto simp: ipam_inv_def)
  qed
  have own: "owner st t = Some b \<longleftrightarrow> (\<exists>q \<in> set (xs @ ys). map_of (allocs q) t = Some b) \<or> map_of (allocs p) t = Some b"
    for t b using owner_iff [OF inv, of t b] e(1) by auto
  have own': "owner (st\<lparr>ip_Pools := ps'\<rparr>) t = Some b \<longleftrightarrow>
      (\<exists>q \<in> set (xs @ ys). map_of (allocs q) t = Some b) \<or> map_of (allocs p') t = Some b"
    for t b using owner_iff [OF inv', of t b] e(2) by auto
  have p0: "map_of (allocs p) s = None" using ok(4) by (simp add: map_of_eq_None_iff)
  show none: "owner st s = None"
    using own [of s] others p0 by (cases "owner st s") auto
  show "owner (st\<lparr>ip_Pools := ps'\<rparr>) = (owner st)(s \<mapsto> ?a)"
  proof
    fix t
    show "owner (st\<lparr>ip_Pools := ps'\<rparr>) t = ((owner st)(s \<mapsto> ?a)) t"
    proof (cases "t = s")
      case True
      then show ?thesis using own' [of s ?a] ok(5) by simp
    next
      case False
      then have "owner (st\<lparr>ip_Pools := ps'\<rparr>) t = Some b \<longleftrightarrow> owner st t = Some b" for b
        by (simp add: own own' ok(5))
      then have "owner (st\<lparr>ip_Pools := ps'\<rparr>) t = owner st t" by (rule option_eqI)
      with False show ?thesis by simp
    qed
  qed
qed

lemma ipam_load_ok:
  assumes "main_file d = Some (Decoded st)"
  shows "ipam_loadOrInit host (read_file io_ok d) = Inr st"
  using assms by (simp add: ipam_loadOrInit_def read_file_io_ok)

lemma ipam_withLock_cases:
  assumes "ipam_withLock host io fn d = (Inr a, d')"
  shows "\<exists>st st'. ipam_loadOrInit host (read_file io d) = Inr st \<and> fn st = Inr (st', a) \<and>
     main_file d' = Some (Decoded st')"
  using withLock_Inr [OF assms [unfolded ipam_withLock_def ipam_atomicSave_def]] .

lemma ipam_Allocate_cases:
  assumes "ipam_Allocate host io now cid br d = (Inr s, d')"
  shows "\<exists>st ps. ipam_loadOrInit host (read_file io d) = Inr st \<and>
     allocate_pools now cid br (ip_Pools st) = Inr (ps, s) \<and> main_file d' = Some (Decoded (st\<lparr>ip_Pools := ps\<rparr>))"
proof -
  from ipam_withLock_cases [OF assms [unfolded ipam_Allocate_def]] obtain st st' where
    st: "ipam_loadOrInit host (read_file io d) = Inr st" "main_file d' = Some (Decoded st')"
      "(case allocate_pools now cid br (ip_Pools st) of Inl e \<Rightarrow> Inl e
        | Inr (ps, s) \<Rightarrow> Inr (st\<lparr>ip_Pools := ps\<rparr>, s)) = Inr (st', s)" by blast
  from st(3) obtain ps where "allocate_pools now cid br (ip_Pools st) = Inr (ps, s)" "st' = st\<lparr>ip_Pools := ps\<rparr>"
    by (cases "allocate_pools now cid br (ip_Pools st)") auto
  with st(1,2) show ?thesis by blast
qed

lemma release_pools_skip:
  "list_all (\<lambda>q. list_all (\<lambda>(_, a). al_ContainerId a \<noteq> cid) (allocs q)) xs \<Longrightarrow>
   release_pools cid (xs @ ps) = xs @ release_pools cid ps"
proof (induction xs)
  case (Cons q xs)
  then have "range_find (\<lambda>_ a. al_ContainerId a = cid) (allocs q) = None"
    by (auto simp: range_find_None list_all_iff)
  with Cons show ?case by simp
qed simp

lemma release_allocate:
  assumes p: "pool_ok p" and r: "allocate_in now cid p = Inr (p', s)"
    and fresh: "list_all (\<lambda>(_, a). al_ContainerId a \<noteq> cid) (allocs p)"
  shows "release_pools cid (p' # ys) = p # ys"
proof -
  let ?a = "\<lparr>al_ContainerId = cid, al_Interface = ''rd_'' @ cid, al_Forwards = [], al_AssignedAt = now\<rparr>"
  have s: "s \<notin> fst ` set (allocs p)" by (rule allocate_in_ok(4) [OF p r])
  have p': "p' = p\<lparr>po_Allocations := Some (map_set s ?a (allocs p))\<rparr>"
    using r pool_ok_allocs(1) [OF p]
    by (auto simp: allocate_in_def split: if_splits option.splits sum.splits)
  have "range_find (\<lambda>_ a. al_ContainerId a = cid) (map_set s ?a (allocs p)) = Some (s, ?a)"
  proof (rule range_find_unique)
    show "(s, ?a) \<in> set (map_set s ?a (allocs p))" by (intro map_of_SomeD) simp
    show "(k, a) = (s, ?a)" if "(k, a) \<in> set (map_set s ?a (allocs p))" "al_ContainerId a = cid" for k a
    proof -
      have "(k, a) = (s, ?a) \<or> (k, a) \<in> set (allocs p)"
        using subsetD [OF set_map_set_subset that(1)] by simp
      with fresh that(2) show ?thesis by (auto simp: list_all_iff)
    qed
  qed simp
  moreover have "map_del s (map_set s ?a (allocs p)) = allocs p"
    using s by (simp add: AList.delete_update_same AList.delete_idem)
  moreover have "allocs p' = map_set s ?a (allocs p)" by (simp add: p' allocs_def)
  ultimately show ?thesis using pool_ok_allocs(1) [OF p] by (simp add: p')
qed

text \<open>No allocation belongs to the container.\<close>

definition unallocated :: "string \<Rightarrow> IpamState \<Rightarrow> bool" where
  "unallocated cid st \<longleftrightarrow>
     list_all (\<lambda>p. list_all (\<lambda>(_, a). al_ContainerId a \<noteq> cid) (allocs p)) (ip_Pools st)"

section \<open>Properties of the address store\<close>

text \<open>
  Property C1. Whatever the manager calls, their I/O failures and the crashes between them, the IPAM
  document stays well formed: the runtime subnet is \<open>10.166.0.0/16\<close>, every pool is a canonical /24 of it
  with gateway \<open>.254\<close>, bridges and subnets are pairwise distinct, and every allocated address is
  a host of its pool that is neither the network, the gateway nor the broadcast address.
\<close>

theorem ipam_invariant:
  assumes "ipam_reachable d" and "main_file d = Some (Decoded st)"
  shows "ipam_inv st"
  using ipam_reachable_inv [OF assms(1)] assms(2) by (simp add: disk_inv_def)

text \<open>
  Property C2. A successful \<open>Allocate\<close> returns an address nobody owned in any pool, a host
  address of the bridge's own subnet, and the saved document differs from the loaded one in
  the ownership of that address alone.
\<close>

theorem ipam_Allocate_fresh:
  assumes "ipam_reachable d" and "ipam_Allocate host io now cid br d = (Inr s, d')"
  shows "\<exists>st st' p n. ipam_loadOrInit host (read_file io d) = Inr st \<and> main_file d' = Some (Decoded st') \<and>
     owner st s = None \<and>
     owner st' = (owner st)(s \<mapsto> \<lparr>al_ContainerId = cid, al_Interface = ''rd_'' @ cid, al_Forwards = [],
        al_AssignedAt = now\<rparr>) \<and>
     p \<in> set (ip_Pools st') \<and> po_Interface p = br \<and> parse_cidr (po_Subnet p) = Some n \<and> pool_key n s"
proof -
  obtain st ps where st: "ipam_loadOrInit host (read_file io d) = Inr st"
      "allocate_pools now cid br (ip_Pools st) = Inr (ps, s)" "main_file d' = Some (Decoded (st\<lparr>ip_Pools := ps\<rparr>))"
    using ipam_Allocate_cases [OF assms(2)] by blast
  have inv: "ipam_inv st" using ipam.load_inv [OF st(1)] ipam_reachable_inv [OF assms(1)] by simp
  note inv' = allocate_pools_inv [OF inv st(2)]
  from allocate_pools_ok [OF st(2)] obtain xs p p' ys where
    e: "ip_Pools st = xs @ p # ys" "ps = xs @ p' # ys" "po_Interface p = br" "allocate_in now cid p = Inr (p', s)"
    by blast
  have "pool_ok p" "pool_ok p'" using inv inv' e by (auto simp: ipam_inv_def)
  note ok = allocate_in_ok [OF this(1) e(4)]
  obtain k where k: "k < 256" "po_Subnet p' = net_string (sub24 k)" "\<forall>t \<in> fst ` set (allocs p'). pool_key (sub24 k) t"
    using pool_ok_keys [OF \<open>pool_ok p'\<close>] by blast
  have "s \<in> fst ` set (allocs p')" using ok(5) map_of_neq_None [of "allocs p'" s] by auto
  then have "pool_key (sub24 k) s" using k(3) by blast
  moreover have "parse_cidr (po_Subnet p') = Some (sub24 k)" using k wf_sub24(1) by (simp add: parse_net_string)
  moreover have "p' \<in> set (ip_Pools (st\<lparr>ip_Pools := ps\<rparr>))" "po_Interface p' = br" using e ok(2) by simp_all
  ultimately show ?thesis using st(1,3) owner_allocate [OF inv st(2)] by blast
qed

text \<open>
  After a successful \<open>Allocate\<close> the address answers to the container: \<open>GetInfoByIp\<close> finds
  it, whatever the iteration order of the allocation maps.
\<close>

lemma ipam_Allocate_lookup:
  assumes "ipam_reachable d" and "ipam_Allocate host io now cid br d = (Inr s, d')"
  shows "ipam_GetInfoByIp host' io_ok s d' = Inr (cid, ''rd_'' @ cid)"
proof -
  obtain st ps where st: "ipam_loadOrInit host (read_file io d) = Inr st"
      "allocate_pools now cid br (ip_Pools st) = Inr (ps, s)" "main_file d' = Some (Decoded (st\<lparr>ip_Pools := ps\<rparr>))"
    using ipam_Allocate_cases [OF assms(2)] by blast
  have inv: "ipam_inv st" using ipam.load_inv [OF st(1)] ipam_reachable_inv [OF assms(1)] by simp
  show ?thesis
    using owner_allocate(2) [OF inv st(2), THEN fun_cong, of s] ipam_load_ok [OF st(3)]
    by (auto simp: ipam_GetInfoByIp_def ipam_withRLock_def withRLock_io_ok owner_def)
qed

text \<open>
  Property C5. \<open>Release\<close> undoes \<open>Allocate\<close>: for a container that held no address, allocating and then
  releasing restores the document exactly.
\<close>

theorem ipam_Release_Allocate:
  assumes "ipam_reachable d" and "main_file d = Some (Decoded st)" and "unallocated cid st"
    and "ipam_Allocate host io_ok now cid br d = (Inr s, d')"
  shows "ipam_Release host io_ok cid d' = (Inr (), \<lparr>main_file = Some (Decoded st), tmp_file = None\<rparr>)"
proof -
  obtain ps where ps: "allocate_pools now cid br (ip_Pools st) = Inr (ps, s)"
      "main_file d' = Some (Decoded (st\<lparr>ip_Pools := ps\<rparr>))"
    using ipam_Allocate_cases [OF assms(4)] ipam_load_ok [OF assms(2), of host] by auto
  from allocate_pools_ok [OF ps(1)] obtain xs p p' ys where
    e: "ip_Pools st = xs @ p # ys" "ps = xs @ p' # ys" "allocate_in now cid p = Inr (p', s)"
    by blast
  have "ipam_inv st" using ipam_reachable_inv [OF assms(1)] assms(2) by (simp add: disk_inv_def)
  then have "pool_ok p" using e(1) by (simp add: ipam_inv_def)
  then have "release_pools cid (p' # ys) = p # ys"
    using e assms(3) by (intro release_allocate) (auto simp: unallocated_def)
  then have "release_pools cid ps = ip_Pools st"
    using e assms(3) by (simp add: unallocated_def release_pools_skip)
  then show ?thesis
    using ipam_load_ok [OF ps(2), of host]
    by (simp add: ipam_Release_def ipam_withLock_def ipam_atomicSave_def withLock_io_ok)
qed

text \<open>
  Property C4. \<open>StoreBridge\<close> terminates and gives a new bridge the first /24 of
  \<open>10.166.0.0/16\<close> no pool uses, with gateway \<open>.254\<close>; it fails exactly when the bridge exists or all 256
  subnets are taken.
\<close>

theorem ipam_StoreBridge_first_free:
  assumes "ipam_reachable d" and "main_file d = Some (Decoded st)"
  shows "fst (ipam_StoreBridge host io_ok br d) =
     (if br \<in> po_Interface ` set (ip_Pools st)
      then Inl (Msg (''interface: '' @ br @ '' is already created''))
      else (case find (\<lambda>k. net_string (sub24 k) \<notin> po_Subnet ` set (ip_Pools st)) [0..<256] of
          None \<Rightarrow> Inl (Msg ''no available /24 subnet in runtime subnet: 10.166.0.0/16'')
        | Some k \<Rightarrow> Inr (net_string (sub24 k), ip_string (net_ip (sub24 k) + 254) @ ''/24'')))"
proof -
  have "ipam_inv st" using ipam_reachable_inv [OF assms(1)] assms(2) by (simp add: disk_inv_def)
  from storeBridge_eq [OF this, of br] show ?thesis
    using ipam_load_ok [OF assms(2), of host]
    by (simp add: ipam_StoreBridge_def ipam_withLock_def ipam_atomicSave_def withLock_io_ok Let_def
        del: upt_rec_numeral split: option.splits)
qed

text \<open>
  Property C3. The address search of \<open>Allocate\<close>, for every subnet from /8 to /31: it returns the lowest
  free host address of the subnet, and reports that there is none only when there is none.
\<close>

theorem findFreeIpv4_lowest:
  assumes "wf_net n" and "8 \<le> net_ones n" and "net_ones n \<le> 31"
  shows "case findFreeIpv4 n gw alloc of
     Inr a \<Rightarrow> free_host n gw (\<lambda>s. map_of alloc s \<noteq> None) a \<and>
       (\<forall>b. free_host n gw (\<lambda>s. map_of alloc s \<noteq> None) b \<longrightarrow> unat a \<le> unat b)
   | Inl _ \<Rightarrow> \<not> (\<exists>b. free_host n gw (\<lambda>s. map_of alloc s \<noteq> None) b)"
  using findFree_least [OF assms, of gw "\<lambda>s. map_of alloc s \<noteq> None"]
  by (simp add: findFreeIpv4_def split: option.splits)

section \<open>Witnesses\<close>


text \<open>A first history: the daemon configures the store on an empty disk.\<close>

definition ex_host :: host_env where
  "ex_host = \<lparr>he_interface = Inr ''eth0'', he_addr = Inr ''192.168.0.2/24''\<rparr>"

definition ex_ipam :: "IpamState disk" where
  "ex_ipam = snd (ipam_SetConfig ex_host io_ok empty_disk)"

lemma ex_ipam_reachable: "ipam_reachable ex_ipam"
  unfolding ex_ipam_def by (intro ipam_reachable.intros)

lemma ex_ipam_doc: "main_file ex_ipam = Some (Decoded (ipam_initState ''eth0'' ''192.168.0.2/24''))"
  by (simp add: ex_ipam_def ipam_SetConfig_def ex_host_def ipam_withLock_def ipam_atomicSave_def withLock_io_ok
      read_file_io_ok empty_disk_def ipam_loadOrInit_def ipam_initState_def default_pool_def)

lemma ex_findFree: "findFreeIpv4 (sub24 0) 178651390 [] = Inr 178651137"
proof -
  have "net_contains (sub24 0) 178651137" "broadcastIPv4 (sub24 0) = 178651391"
    unfolding sub24_def by code_simp+
  then have "free_host (sub24 0) 178651390 (\<lambda>_. False) 178651137"
    by (simp add: free_host_def sub24_def)
  from findFree_stop [OF _ this, of 0] show ?thesis
    by (simp add: findFreeIpv4_def incIP_eq sub24_def)
qed

lemma ex_allocate_in: "allocate_in 7 ''c1'' default_pool = Inr (default_pool\<lparr>po_Allocations := Some [(''10.166.0.1'', 
   \<lparr>al_ContainerId = ''c1'', al_Interface = ''rd_c1'', al_Forwards = [], al_AssignedAt = 7\<rparr>)]\<rparr>, ''10.166.0.1'')"
proof -
  have "parse_cidr ''10.166.0.0/24'' = Some (sub24 0)" unfolding sub24_def by code_simp
  moreover have "parse_ip (hd (split_on CHR ''/'' ''10.166.0.254/24'')) = Some 178651390" by code_simp
  moreover have "ip_string 178651137 = ''10.166.0.1''" by code_simp
  ultimately show ?thesis
    by (simp add: allocate_in_def default_pool_def allocs_def ex_findFree)
qed

lemma ex_Allocate: "\<exists>d'. ipam_Allocate ex_host io_ok 7 ''c1'' ''raind0'' ex_ipam = (Inr ''10.166.0.1'', d')"
  using ex_allocate_in ex_ipam_doc ipam_load_ok [OF ex_ipam_doc, of ex_host]
  by (simp add: ipam_Allocate_def ipam_withLock_def ipam_atomicSave_def withLock_io_ok
     ipam_initState_def default_pool_def)

theorem ipam_invariant_witness:
  "ipam_reachable ex_ipam \<and> ipam_inv (ipam_initState ''eth0'' ''192.168.0.2/24'')"
  using ex_ipam_reachable ipam_invariant [OF ex_ipam_reachable ex_ipam_doc] by blast

theorem ipam_Allocate_fresh_witness:
  "\<exists>d' st st'. ipam_Allocate ex_host io_ok 7 ''c1'' ''raind0'' ex_ipam = (Inr ''10.166.0.1'', d') \<and>
     main_file d' = Some (Decoded st') \<and> owner st ''10.166.0.1'' = None \<and>
     owner st' ''10.166.0.1'' = Some \<lparr>al_ContainerId = ''c1'', al_Interface = ''rd_c1'', al_Forwards = [],
        al_AssignedAt = 7\<rparr>"
proof -
  obtain d' where d': "ipam_Allocate ex_host io_ok 7 ''c1'' ''raind0'' ex_ipam = (Inr ''10.166.0.1'', d')"
    using ex_Allocate by blast
  from ipam_Allocate_fresh [OF ex_ipam_reachable this] show ?thesis using d' by fastforce
qed

theorem ipam_Release_Allocate_witness:
  "\<exists>d'. ipam_Allocate ex_host io_ok 7 ''c1'' ''raind0'' ex_ipam = (Inr ''10.166.0.1'', d') \<and>
     ipam_Release ex_host io_ok ''c1'' d' =
       (Inr (), \<lparr>main_file = Some (Decoded (ipam_initState ''eth0'' ''192.168.0.2/24'')), tmp_file = None\<rparr>)"
proof -
  obtain d' where d': "ipam_Allocate ex_host io_ok 7 ''c1'' ''raind0'' ex_ipam = (Inr ''10.166.0.1'', d')"
    using ex_Allocate by blast
  have "unallocated ''c1'' (ipam_initState ''eth0'' ''192.168.0.2/24'')" by code_simp
  from ipam_Release_Allocate [OF ex_ipam_reachable ex_ipam_doc this d'] d' show ?thesis by blast
qed

theorem ipam_StoreBridge_first_free_witness:
  "fst (ipam_StoreBridge ex_host io_ok ''raind1'' ex_ipam) = Inr (''10.166.1.0/24'', ''10.166.1.254/24'')"
proof -
  let ?st = "ipam_initState ''eth0'' ''192.168.0.2/24''"
  have n: "net_string (sub24 0) = ''10.166.0.0/24''" "net_string (sub24 1) = ''10.166.1.0/24''"
      "ip_string (net_ip (sub24 1) + 254) = ''10.166.1.254''" unfolding sub24_def by code_simp+
  have u: "[0..<256] = 0 # 1 # [2..<256]" by (simp add: upt_conv_Cons)
  show ?thesis
    unfolding ipam_StoreBridge_first_free [OF ex_ipam_reachable ex_ipam_doc] u
    using n by (simp add: ipam_initState_def default_pool_def)
qed

theorem findFreeIpv4_lowest_witness:
  "findFreeIpv4 (sub24 0) 178651390 [] = Inr 178651137 \<and>
   free_host (sub24 0) 178651390 (\<lambda>s. map_of ([] :: (string, Allocation) gomap) s \<noteq> None) 178651137"
proof -
  have "wf_net (sub24 0)" "net_ones (sub24 0) = 24" using wf_sub24(1) [of 0] by (simp_all add: sub24_def)
  from findFreeIpv4_lowest [of "sub24 0" 178651390 "[]"] this ex_findFree show ?thesis by simp
qed

end
