(* ===== verification/Container_Store.thy ===== *)
theory Container_Store
  imports Store_Core
begin

text \<open>
  The container store \<open>store/csm\<close>: one \<open>ContainerInfo\<close> per container, filed under its identifier.
  State and document (\<open>model.go\<close>), the store (\<open>store.go\<close>) and every method of \<open>CsmManager\<close>
  (\<open>csm.go\<close>). \<open>now\<close> stands for \<open>time.Now()\<close>. A query that reads the store twice takes the I/O
  behaviour of each read.
\<close>

section \<open>Data\<close>

record StoreContainerRequest =
  rq_ContainerId :: string
  rq_State :: string
  rq_Pid :: int
  rq_Tty :: bool
  rq_Repository :: string
  rq_Reference :: string
  rq_Command :: "string list"
  rq_ContainerName :: string
  rq_BottleId :: string
  rq_LogPath :: string
  rq_PodId :: string
  rq_DropletId :: string
  rq_SecurityProfile :: string

record ContainerInfo =
  cn_ContainerId :: string
  cn_ContainerName :: string
  cn_PodId :: string
  cn_DropletId :: string
  cn_SpiffeId :: string
  cn_State :: string
  cn_Pid :: int
  cn_ExitCode :: int
  cn_Reason :: string
  cn_Message :: string
  cn_LogPath :: string
  cn_Tty :: bool
  cn_Repository :: string
  cn_Reference :: string
  cn_Command :: "string list"
  cn_BottleId :: string
  cn_SecurityProfile :: string
  cn_CreatingAt :: time
  cn_CreatedAt :: time
  cn_StartedAt :: time
  cn_StoppedAt :: time
  cn_FinishedAt :: time
  cn_Labels :: "(string, string) gomap option"
  cn_Annotaions :: "(string, string) gomap option"
  cn_Attemp :: nat

record ContainerState =
  cs_Version :: string
  cs_Containers :: "(string, ContainerInfo) gomap"

text \<open>The document: version and the map, which may be \<open>null\<close>.\<close>

type_synonym container_doc = "string \<times> (string, ContainerInfo) gomap option"

section \<open>The store\<close>

definition csm_init :: ContainerState where
  "csm_init = \<lparr>cs_Version = ''0.1.0'', cs_Containers = []\<rparr>"

definition csm_complete :: "container_doc \<Rightarrow> ContainerState" where
  "csm_complete r = \<lparr>cs_Version = fst r, cs_Containers = or_empty (snd r)\<rparr>"

definition csm_marshal :: "ContainerState \<Rightarrow> container_doc" where
  "csm_marshal st = (cs_Version st, Some (cs_Containers st))"

definition csm_loadOrInit :: "container_doc read_result \<Rightarrow> ContainerState res" where
  "csm_loadOrInit = load_or_init ''container state json broken'' csm_init csm_complete"

definition csm_atomicSave ::
  "io_env \<Rightarrow> ContainerState \<Rightarrow> container_doc disk \<Rightarrow> unit res \<times> container_doc disk" where
  "csm_atomicSave = atomicSave csm_marshal"

definition csm_withLock ::
  "io_env \<Rightarrow> (ContainerState \<Rightarrow> (ContainerState \<times> 'a) res) \<Rightarrow> container_doc disk \<Rightarrow> 'a res \<times> container_doc disk" where
  "csm_withLock = withLock csm_loadOrInit csm_atomicSave"

definition csm_withRLock :: "io_env \<Rightarrow> (ContainerState \<Rightarrow> 'a res) \<Rightarrow> container_doc disk \<Rightarrow> 'a res" where
  "csm_withRLock = withRLock csm_loadOrInit"

definition csm_SetContainerState :: "io_env \<Rightarrow> container_doc disk \<Rightarrow> unit res \<times> container_doc disk" where
  "csm_SetContainerState io = csm_withLock io (\<lambda>st. Inr (st\<lparr>cs_Version := ''0.1.0''\<rparr>, ()))"

section \<open>Operations that change the state\<close>

definition new_container :: "time \<Rightarrow> StoreContainerRequest \<Rightarrow> ContainerInfo" where
  "new_container now q = \<lparr>cn_ContainerId = rq_ContainerId q, cn_ContainerName = rq_ContainerName q,
     cn_PodId = rq_PodId q, cn_DropletId = rq_DropletId q, cn_SpiffeId = [], cn_State = rq_State q,
     cn_Pid = rq_Pid q, cn_ExitCode = 0, cn_Reason = [], cn_Message = [], cn_LogPath = rq_LogPath q,
     cn_Tty = rq_Tty q, cn_Repository = rq_Repository q, cn_Reference = rq_Reference q,
     cn_Command = rq_Command q, cn_BottleId = rq_BottleId q, cn_SecurityProfile = rq_SecurityProfile q,
     cn_CreatingAt = zero_time, cn_CreatedAt = now, cn_StartedAt = zero_time, cn_StoppedAt = zero_time,
     cn_FinishedAt = zero_time, cn_Labels = None, cn_Annotaions = None, cn_Attemp = 0\<rparr>"

definition csm_StoreContainer ::
  "io_env \<Rightarrow> time \<Rightarrow> StoreContainerRequest \<Rightarrow> container_doc disk \<Rightarrow> unit res \<times> container_doc disk" where
  "csm_StoreContainer io now q = csm_withLock io (\<lambda>st.
     Inr (st\<lparr>cs_Containers := map_set (rq_ContainerId q) (new_container now q) (cs_Containers st)\<rparr>, ()))"

definition csm_RemoveContainer :: "io_env \<Rightarrow> string \<Rightarrow> container_doc disk \<Rightarrow> unit res \<times> container_doc disk" where
  "csm_RemoveContainer io cid = csm_withLock io (\<lambda>st.
     case range_find (\<lambda>_ c. cn_ContainerId c = cid) (cs_Containers st) of
       Some (i, _) \<Rightarrow> Inr (st\<lparr>cs_Containers := map_del i (cs_Containers st)\<rparr>, ())
     | None \<Rightarrow> Inl (Msg (''containerId='' @ cid @ '' not found'')))"

text \<open>The state change of \<open>UpdateContainer\<close>: the switch sets time stamps, a negative pid is kept out.\<close>

definition change_state :: "time \<Rightarrow> string \<Rightarrow> int \<Rightarrow> ContainerInfo \<Rightarrow> ContainerInfo" where
  "change_state now state pid c0 =
     (let c = c0\<lparr>cn_State := state\<rparr>;
          c1 = (if state = ''creating'' then
                  (if cn_CreatedAt c > cn_StoppedAt c then c\<lparr>cn_CreatingAt := now\<rparr> else c)
                else if state = ''created'' then
                  (if cn_CreatedAt c > cn_StoppedAt c then c\<lparr>cn_CreatedAt := now\<rparr> else c)
                else if state = ''running'' then c\<lparr>cn_StartedAt := now\<rparr>
                else if state = ''stopped'' then c\<lparr>cn_StoppedAt := now, cn_FinishedAt := now\<rparr>
                else c)
      in if pid \<ge> 0 then c1\<lparr>cn_Pid := pid\<rparr> else c1)"

definition csm_update ::
  "io_env \<Rightarrow> string \<Rightarrow> (ContainerInfo \<Rightarrow> ContainerInfo) \<Rightarrow> container_doc disk \<Rightarrow> unit res \<times> container_doc disk" where
  "csm_update io cid f = csm_withLock io (\<lambda>st. put_back (\<lambda>m. st\<lparr>cs_Containers := m\<rparr>)
     (update_entry (''containerId='' @ cid @ '' not found'') cid f (cs_Containers st)))"

definition csm_UpdateContainer ::
  "io_env \<Rightarrow> time \<Rightarrow> string \<Rightarrow> string \<Rightarrow> int \<Rightarrow> container_doc disk \<Rightarrow> unit res \<times> container_doc disk" where
  "csm_UpdateContainer io now cid state pid = csm_update io cid (change_state now state pid)"

definition csm_UpdateExitStatus ::
  "io_env \<Rightarrow> string \<Rightarrow> int \<Rightarrow> string \<Rightarrow> string \<Rightarrow> container_doc disk \<Rightarrow> unit res \<times> container_doc disk" where
  "csm_UpdateExitStatus io cid code reason message = csm_update io cid
     (\<lambda>c. c\<lparr>cn_ExitCode := code, cn_Reason := reason, cn_Message := message\<rparr>)"

definition csm_UpdateSpiffe ::
  "io_env \<Rightarrow> string \<Rightarrow> string \<Rightarrow> container_doc disk \<Rightarrow> unit res \<times> container_doc disk" where
  "csm_UpdateSpiffe io cid spiffe = csm_update io cid (\<lambda>c. c\<lparr>cn_SpiffeId := spiffe\<rparr>)"

section \<open>Queries\<close>

definition csm_GetContainerList :: "io_env \<Rightarrow> container_doc disk \<Rightarrow> ContainerInfo list res" where
  "csm_GetContainerList io = csm_withRLock io (\<lambda>st. Inr (map snd (cs_Containers st)))"

definition csm_GetContainersByPodId :: "io_env \<Rightarrow> string \<Rightarrow> container_doc disk \<Rightarrow> ContainerInfo list res" where
  "csm_GetContainersByPodId io pid = csm_withRLock io (\<lambda>st.
     Inr (filter (\<lambda>c. cn_PodId c = pid) (map snd (cs_Containers st))))"

text \<open>The scan the point queries share: the first container the test accepts, or an error.\<close>

definition scan :: "(ContainerInfo \<Rightarrow> bool) \<Rightarrow> (ContainerInfo \<Rightarrow> 'a) \<Rightarrow> string \<Rightarrow> ContainerState \<Rightarrow> 'a res" where
  "scan p f what st = (case range_find (\<lambda>_ c. p c) (cs_Containers st) of
       Some (_, c) \<Rightarrow> Inr (f c)
     | None \<Rightarrow> Inl (Msg (''container: '' @ what @ '' not found'')))"

definition csm_GetContainerById :: "io_env \<Rightarrow> string \<Rightarrow> container_doc disk \<Rightarrow> ContainerInfo res" where
  "csm_GetContainerById io cid = csm_withRLock io (scan (\<lambda>c. cn_ContainerId c = cid) (\<lambda>c. c) cid)"

definition csm_IsNameAlreadyUsed :: "io_env \<Rightarrow> string \<Rightarrow> container_doc disk \<Rightarrow> bool" where
  "csm_IsNameAlreadyUsed io name d =
     (case csm_withRLock io (\<lambda>st. Inr (range_find (\<lambda>_ c. cn_ContainerName c = name) (cs_Containers st) \<noteq> None)) d of
        Inr b \<Rightarrow> b | Inl _ \<Rightarrow> False)"

definition csm_GetContainerIdByName :: "io_env \<Rightarrow> string \<Rightarrow> container_doc disk \<Rightarrow> string res" where
  "csm_GetContainerIdByName io name =
     csm_withRLock io (scan (\<lambda>c. cn_ContainerName c = name) cn_ContainerId name)"

definition csm_GetContainerNameById :: "io_env \<Rightarrow> string \<Rightarrow> container_doc disk \<Rightarrow> string res" where
  "csm_GetContainerNameById io cid =
     csm_withRLock io (scan (\<lambda>c. cn_ContainerId c = cid) cn_ContainerName cid)"

definition csm_GetSpiffeById :: "io_env \<Rightarrow> string \<Rightarrow> container_doc disk \<Rightarrow> string res" where
  "csm_GetSpiffeById io cid = csm_withRLock io (scan (\<lambda>c. cn_ContainerId c = cid) cn_SpiffeId cid)"

definition csm_GetContainerIdAndName ::
  "io_env \<Rightarrow> io_env \<Rightarrow> string \<Rightarrow> container_doc disk \<Rightarrow> (string \<times> string) res" where
  "csm_GetContainerIdAndName io1 io2 s d =
     (let byName = csm_GetContainerIdByName io1 s d; byId = csm_GetContainerNameById io2 s d in
      case byName of Inr i \<Rightarrow> Inr (i, s)
      | Inl _ \<Rightarrow> (case byId of Inr n \<Rightarrow> Inr (s, n)
      | Inl _ \<Rightarrow> Inl (Msg (''container: '' @ s @ '' not found''))))"

definition csm_ResolveContainerId :: "io_env \<Rightarrow> io_env \<Rightarrow> string \<Rightarrow> container_doc disk \<Rightarrow> string res" where
  "csm_ResolveContainerId io1 io2 s d =
     (case csm_GetContainerIdByName io1 s d of
        Inr i \<Rightarrow> Inr i
      | Inl _ \<Rightarrow> (case csm_GetContainerById io2 s d of Inl e \<Rightarrow> Inl e | Inr _ \<Rightarrow> Inr s))"

definition csm_IsContainerExist :: "io_env \<Rightarrow> io_env \<Rightarrow> string \<Rightarrow> container_doc disk \<Rightarrow> bool" where
  "csm_IsContainerExist io1 io2 s d =
     (\<not> (\<not> is_ok (csm_GetContainerIdByName io1 s d) \<and> \<not> is_ok (csm_GetContainerNameById io2 s d)))"

definition csm_GetLogPath :: "io_env \<Rightarrow> string \<Rightarrow> container_doc disk \<Rightarrow> string res" where
  "csm_GetLogPath io cid = csm_withRLock io (scan (\<lambda>c. cn_ContainerId c = cid) cn_LogPath cid)"

section \<open>Invariant: every container is filed under its own identifier\<close>

definition csm_inv :: "ContainerState \<Rightarrow> bool" where
  "csm_inv st \<longleftrightarrow> keyed_by cn_ContainerId (cs_Containers st)"

interpretation csm: plain_store "''container state json broken''" csm_init csm_complete csm_marshal csm_inv
  by unfold_locales (simp_all add: csm_init_def csm_complete_def csm_marshal_def csm_inv_def)

lemmas csm_unfold [store_simps] = csm_withLock_def csm_withRLock_def csm_atomicSave_def csm_loadOrInit_def

abbreviation csm_disk_inv :: "container_doc disk \<Rightarrow> bool" where
  "csm_disk_inv \<equiv> disk_inv (\<lambda>r. csm_inv (csm_complete r))"

lemma csm_withLock_inv:
  assumes "csm_disk_inv d" and "\<And>st st' a. csm_inv st \<Longrightarrow> fn st = Inr (st', a) \<Longrightarrow> csm_inv st'"
  shows "csm_disk_inv (snd (csm_withLock io fn d))"
  using csm.withLock_inv [OF assms(1), of fn io] assms(2) by (simp add: store_simps)

inductive csm_reachable :: "container_doc disk \<Rightarrow> bool" where
  start: "csm_reachable empty_disk"
| crash: "csm_reachable d \<Longrightarrow> csm_reachable (d\<lparr>tmp_file := t\<rparr>)"
| SetContainerState: "csm_reachable d \<Longrightarrow> csm_reachable (snd (csm_SetContainerState io d))"
| StoreContainer: "csm_reachable d \<Longrightarrow> csm_reachable (snd (csm_StoreContainer io now q d))"
| RemoveContainer: "csm_reachable d \<Longrightarrow> csm_reachable (snd (csm_RemoveContainer io cid d))"
| UpdateContainer: "csm_reachable d \<Longrightarrow> csm_reachable (snd (csm_UpdateContainer io now cid state pid d))"
| UpdateExitStatus: "csm_reachable d \<Longrightarrow> csm_reachable (snd (csm_UpdateExitStatus io cid code reason message d))"
| UpdateSpiffe: "csm_reachable d \<Longrightarrow> csm_reachable (snd (csm_UpdateSpiffe io cid spiffe d))"

lemma change_state_id [simp]: "cn_ContainerId (change_state now state pid c) = cn_ContainerId c"
  by (simp add: change_state_def Let_def)

lemma csm_update_inv [inv_intros]:
  assumes "csm_disk_inv d" and "\<And>c. cn_ContainerId (f c) = cn_ContainerId c"
  shows "csm_disk_inv (snd (csm_update io cid f d))"
  unfolding csm_update_def using assms
  by (intro csm_withLock_inv) (auto simp: csm_inv_def intro: keyed_by_update_entry)

lemma csm_ops_inv [inv_intros]:
  assumes "csm_disk_inv d"
  shows "csm_disk_inv (snd (csm_SetContainerState io d))"
    "csm_disk_inv (snd (csm_StoreContainer io now q d))"
    "csm_disk_inv (snd (csm_RemoveContainer io cid d))"
    "csm_disk_inv (snd (csm_UpdateContainer io now cid state pid d))"
    "csm_disk_inv (snd (csm_UpdateExitStatus io cid code reason message d))"
    "csm_disk_inv (snd (csm_UpdateSpiffe io cid spiffe d))"
  unfolding csm_SetContainerState_def csm_StoreContainer_def csm_RemoveContainer_def
    csm_UpdateContainer_def csm_UpdateExitStatus_def csm_UpdateSpiffe_def
  using assms
  by - (rule csm_withLock_inv csm_update_inv, assumption,
      (auto simp: csm_inv_def new_container_def intro!: keyed_by_set split: option.splits)[1])+

lemma csm_reachable_inv: "csm_reachable d \<Longrightarrow> csm_disk_inv d"
  by (induction rule: csm_reachable.induct) (simp_all add: inv_intros)

section \<open>What the queries see\<close>

lemma csm_load:
  assumes "csm_reachable d"
  shows "\<exists>st. csm_loadOrInit (read_file io_ok d) = Inr st \<and> csm_inv st"
  unfolding csm_loadOrInit_def by (rule csm.load_total [OF csm_reachable_inv [OF assms]])

lemma scan_id:
  assumes "csm_inv st"
  shows "scan (\<lambda>c. cn_ContainerId c = cid) f what st =
     map_sum id f (lookup_entry (''container: '' @ what @ '' not found'') cid (cs_Containers st))"
  using range_find_key [of cn_ContainerId "cs_Containers st" cid] assms
  by (auto simp: scan_def lookup_entry_def csm_inv_def split: option.splits)

lemma csm_RLock_ok:
  assumes "csm_loadOrInit (read_file io_ok d) = Inr st"
  shows "csm_withRLock io_ok fn d = fn st"
  using assms by (simp add: csm_withRLock_def withRLock_io_ok)

lemma csm_get:
  assumes "csm_loadOrInit (read_file io_ok d) = Inr st" and "csm_inv st"
  shows "csm_GetContainerById io_ok i d = lookup_entry (''container: '' @ i @ '' not found'') i (cs_Containers st)"
proof -
  have "map_sum id (\<lambda>c. c) r = r" for r :: "ContainerInfo res" by (cases r) simp_all
  with assms show ?thesis by (simp add: csm_GetContainerById_def csm_RLock_ok scan_id)
qed

lemma csm_update_ok:
  assumes st: "csm_loadOrInit (read_file io_ok d) = Inr st" "csm_inv st" and "map_of (cs_Containers st) cid = Some c"
    and f: "\<And>c. cn_ContainerId (f c) = cn_ContainerId c"
  shows "\<exists>d'. csm_update io_ok cid f d = (Inr (), d') \<and>
     csm_loadOrInit (read_file io_ok d') = Inr (st\<lparr>cs_Containers := map_set cid (f c) (cs_Containers st)\<rparr>) \<and>
     csm_inv (st\<lparr>cs_Containers := map_set cid (f c) (cs_Containers st)\<rparr>)"
proof -
  have inv: "csm_inv (st\<lparr>cs_Containers := map_set cid (f c) (cs_Containers st)\<rparr>)"
    using assms f by (auto simp: csm_inv_def dest: keyed_by_lookup)
  then show ?thesis
    unfolding csm_update_def csm_unfold using st(1) [unfolded csm_loadOrInit_def] assms(3)
    by (simp add: withLock_io_ok put_back_def update_entry_def csm.load_after_save)
qed

section \<open>Properties of the container store\<close>

text \<open>
  Property C23. In every history, crashes included, the container document can be read, every
  container is filed under its own identifier, and a query by identifier is the lookup of that
  identifier, whatever the iteration order of the map.
\<close>

theorem csm_GetContainerById_lookup:
  assumes "csm_reachable d"
  shows "\<exists>st. csm_loadOrInit (read_file io_ok d) = Inr st \<and> csm_inv st \<and>
     (\<forall>cid. csm_GetContainerById io_ok cid d =
        lookup_entry (''container: '' @ cid @ '' not found'') cid (cs_Containers st))"
proof -
  obtain st where st: "csm_loadOrInit (read_file io_ok d) = Inr st" "csm_inv st"
    using csm_load [OF assms] by blast
  then show ?thesis by (auto simp: csm_get)
qed

text \<open>
  \<open>UpdateContainer\<close> on an existing container succeeds and changes that container alone:
  its state becomes the given one, \<open>StoppedAt\<close> and \<open>FinishedAt\<close> move together, only a non-negative pid
  is taken over, and identity, name, pod and image never change.
\<close>

lemma csm_UpdateContainer_effect:
  assumes "csm_reachable d" and "csm_GetContainerById io_ok cid d = Inr c"
  shows "\<exists>d' c'. csm_UpdateContainer io_ok now cid state pid d = (Inr (), d') \<and>
     (\<forall>i. csm_GetContainerById io_ok i d' = (if i = cid then Inr c' else csm_GetContainerById io_ok i d)) \<and>
     cn_State c' = state \<and> cn_Pid c' = (if pid \<ge> 0 then pid else cn_Pid c) \<and>
     (state = ''stopped'' \<longrightarrow> cn_StoppedAt c' = now \<and> cn_FinishedAt c' = now) \<and>
     (state = ''running'' \<longrightarrow> cn_StartedAt c' = now) \<and>
     (cn_ContainerId c', cn_ContainerName c', cn_PodId c', cn_Repository c', cn_Reference c') =
       (cn_ContainerId c, cn_ContainerName c, cn_PodId c, cn_Repository c, cn_Reference c)"
proof -
  obtain st where st: "csm_loadOrInit (read_file io_ok d) = Inr st" "csm_inv st"
    using csm_load [OF assms(1)] by blast
  note get = csm_get [OF st]
  have c: "map_of (cs_Containers st) cid = Some c"
    using assms(2) get by (auto simp: lookup_entry_def split: option.splits)
  obtain d' where d': "csm_update io_ok cid (change_state now state pid) d = (Inr (), d')"
     "csm_loadOrInit (read_file io_ok d') =
        Inr (st\<lparr>cs_Containers := map_set cid (change_state now state pid c) (cs_Containers st)\<rparr>)"
     "csm_inv (st\<lparr>cs_Containers := map_set cid (change_state now state pid c) (cs_Containers st)\<rparr>)"
    using csm_update_ok [OF st c, of "change_state now state pid"] by auto
  have get': "csm_GetContainerById io_ok i d' =
      (if i = cid then Inr (change_state now state pid c) else csm_GetContainerById io_ok i d)" for i
    by (simp add: csm_get [OF d'(2,3)] get lookup_entry_def)
  show ?thesis
    using d'(1) get' by (auto simp: csm_UpdateContainer_def change_state_def Let_def)
qed

text \<open>
  Name resolution: a text resolves exactly when \<open>IsContainerExist\<close> says so, to an existing
  container that bears it as its name, or, when no container has that name, to the container
  with that identifier.
\<close>

lemma csm_ResolveContainerId_correct:
  assumes "csm_reachable d"
  shows "is_ok (csm_ResolveContainerId io_ok io_ok s d) = csm_IsContainerExist io_ok io_ok s d \<and>
     (\<forall>i. csm_ResolveContainerId io_ok io_ok s d = Inr i \<longrightarrow>
        (\<exists>c. csm_GetContainerById io_ok i d = Inr c \<and>
           (if csm_IsNameAlreadyUsed io_ok s d then cn_ContainerName c = s else i = s)))"
proof -
  obtain st where st: "csm_loadOrInit (read_file io_ok d) = Inr st" "csm_inv st"
    using csm_load [OF assms] by blast
  have get: "map_of (cs_Containers st) (cn_ContainerId c) = Some c"
    if "range_find (\<lambda>_ c. cn_ContainerName c = s) (cs_Containers st) = Some (k, c)" for k c
    using range_find_Some [OF that] st(2) by (auto simp: csm_inv_def keyed_by_def)
  have nm: "cn_ContainerName c = s"
    if "range_find (\<lambda>_ c. cn_ContainerName c = s) (cs_Containers st) = Some (k, c)" for k c
    using range_find_Some [OF that] by simp
  show ?thesis
    using st get nm
    by (simp add: csm_ResolveContainerId_def csm_IsContainerExist_def csm_GetContainerIdByName_def
        csm_GetContainerNameById_def csm_IsNameAlreadyUsed_def csm_RLock_ok scan_id csm_get [OF st])
      (auto simp: scan_def lookup_entry_def csm_get [OF st] split: option.splits)
qed

section \<open>Witnesses\<close>

definition ex_request :: StoreContainerRequest where
  "ex_request = \<lparr>rq_ContainerId = ''c1'', rq_State = ''creating'', rq_Pid = 0, rq_Tty = False,
     rq_Repository = ''nginx'', rq_Reference = ''latest'', rq_Command = [''nginx''], rq_ContainerName = ''web'',
     rq_BottleId = [], rq_LogPath = [], rq_PodId = ''p1'', rq_DropletId = [], rq_SecurityProfile = []\<rparr>"

definition ex_csm :: "container_doc disk" where
  "ex_csm = snd (csm_StoreContainer io_ok 5 ex_request empty_disk)"

lemma ex_csm_reachable: "csm_reachable ex_csm"
  unfolding ex_csm_def by (intro csm_reachable.intros)

lemma ex_csm_get: "csm_GetContainerById io_ok ''c1'' ex_csm = Inr (new_container 5 ex_request)"
  by code_simp

theorem csm_GetContainerById_lookup_witness:
  "csm_reachable ex_csm \<and> (\<exists>st. csm_loadOrInit (read_file io_ok ex_csm) = Inr st \<and> csm_inv st)"
  using ex_csm_reachable csm_GetContainerById_lookup [OF ex_csm_reachable] by blast

end
