(* ===== verification/Namespace_Store.thy ===== *)
theory Namespace_Store
  imports Store_Core
begin

text \<open>
  The namespace store \<open>store/nsm\<close>. The default namespace is re-created whenever the document is
  loaded without it and cannot be removed; \<open>now\<close> is the instant \<open>ensureDefaultNamespace\<close> would stamp.
\<close>

section \<open>Data\<close>

record NamespaceInfo =
  ns_Name :: string
  ns_Network :: string
  ns_NetworkAuto :: bool
  ns_Labels :: "(string, string) gomap option"
  ns_Annotations :: "(string, string) gomap option"
  ns_CreatedAt :: time

record NamespaceState =
  nst_Version :: string
  nst_Namespace :: "(string, NamespaceInfo) gomap"

type_synonym namespace_doc = "string \<times> (string, NamespaceInfo) gomap option"

definition DefaultNamespace :: string where
  "DefaultNamespace = ''default''"

definition DefaultNamespaceNetwork :: string where
  "DefaultNamespaceNetwork = ''raind0''"

section \<open>The store\<close>

definition ensureDefaultNamespace :: "time \<Rightarrow> (string, NamespaceInfo) gomap \<Rightarrow> (string, NamespaceInfo) gomap" where
  "ensureDefaultNamespace now m =
     (if map_of m DefaultNamespace \<noteq> None then m
      else map_set DefaultNamespace \<lparr>ns_Name = DefaultNamespace, ns_Network = DefaultNamespaceNetwork,
        ns_NetworkAuto = False, ns_Labels = None, ns_Annotations = None, ns_CreatedAt = now\<rparr> m)"

definition defaultNamespaceState :: "time \<Rightarrow> NamespaceState" where
  "defaultNamespaceState now = \<lparr>nst_Version = ''0.1.0'', nst_Namespace = ensureDefaultNamespace now []\<rparr>"

definition nsm_complete :: "time \<Rightarrow> namespace_doc \<Rightarrow> NamespaceState" where
  "nsm_complete now r = \<lparr>nst_Version = (if fst r = [] then ''0.1.0'' else fst r),
     nst_Namespace = ensureDefaultNamespace now (or_empty (snd r))\<rparr>"

definition nsm_marshal :: "NamespaceState \<Rightarrow> namespace_doc" where
  "nsm_marshal st = (nst_Version st, Some (nst_Namespace st))"

definition nsm_loadOrInit :: "time \<Rightarrow> namespace_doc read_result \<Rightarrow> NamespaceState res" where
  "nsm_loadOrInit now =
     load_or_init ''namespace state json broken'' (defaultNamespaceState now) (nsm_complete now)"

definition nsm_atomicSave ::
  "io_env \<Rightarrow> NamespaceState \<Rightarrow> namespace_doc disk \<Rightarrow> unit res \<times> namespace_doc disk" where
  "nsm_atomicSave = atomicSave nsm_marshal"

definition nsm_withLock :: "time \<Rightarrow> io_env \<Rightarrow> (NamespaceState \<Rightarrow> (NamespaceState \<times> 'a) res) \<Rightarrow>
    namespace_doc disk \<Rightarrow> 'a res \<times> namespace_doc disk" where
  "nsm_withLock now = withLock (nsm_loadOrInit now) nsm_atomicSave"

definition nsm_withRLock :: "time \<Rightarrow> io_env \<Rightarrow> (NamespaceState \<Rightarrow> 'a res) \<Rightarrow> namespace_doc disk \<Rightarrow> 'a res" where
  "nsm_withRLock now = withRLock (nsm_loadOrInit now)"

definition nsm_SetNamespaceState :: "time \<Rightarrow> io_env \<Rightarrow> namespace_doc disk \<Rightarrow> unit res \<times> namespace_doc disk" where
  "nsm_SetNamespaceState now io = nsm_withLock now io (\<lambda>st.
     Inr (st\<lparr>nst_Version := ''0.1.0'', nst_Namespace := ensureDefaultNamespace now (nst_Namespace st)\<rparr>, ()))"

section \<open>The manager\<close>

definition nsm_EnsureDefaultNamespace :: "time \<Rightarrow> io_env \<Rightarrow> namespace_doc disk \<Rightarrow> unit res \<times> namespace_doc disk" where
  "nsm_EnsureDefaultNamespace = nsm_SetNamespaceState"

definition nsm_StoreNamespace ::
  "time \<Rightarrow> io_env \<Rightarrow> NamespaceInfo \<Rightarrow> namespace_doc disk \<Rightarrow> unit res \<times> namespace_doc disk" where
  "nsm_StoreNamespace now io info = nsm_withLock now io (\<lambda>st.
     if ns_Name info = [] then Inl (Msg ''namespace name is required'')
     else if map_of (nst_Namespace st) (ns_Name info) \<noteq> None
     then Inl (Msg (''namespace already exists: '' @ ns_Name info))
     else (let i = (if ns_CreatedAt info = zero_time then info\<lparr>ns_CreatedAt := now\<rparr> else info) in
           Inr (st\<lparr>nst_Namespace := map_set (ns_Name i) i (nst_Namespace st)\<rparr>, ())))"

definition nsm_GetNamespace :: "time \<Rightarrow> io_env \<Rightarrow> string \<Rightarrow> namespace_doc disk \<Rightarrow> NamespaceInfo res" where
  "nsm_GetNamespace now io name = nsm_withRLock now io (\<lambda>st.
     lookup_entry (''namespace not found: '' @ name) name (nst_Namespace st))"

definition nsm_GetNamespaceList :: "time \<Rightarrow> io_env \<Rightarrow> namespace_doc disk \<Rightarrow> NamespaceInfo list res" where
  "nsm_GetNamespaceList now io = nsm_withRLock now io (\<lambda>st.
     Inr (sort_key ns_Name (map snd (nst_Namespace st))))"

definition nsm_RemoveNamespace ::
  "time \<Rightarrow> io_env \<Rightarrow> string \<Rightarrow> namespace_doc disk \<Rightarrow> unit res \<times> namespace_doc disk" where
  "nsm_RemoveNamespace now io name = nsm_withLock now io (\<lambda>st.
     if name = DefaultNamespace then Inl (Msg ''default namespace cannot be removed'')
     else put_back (\<lambda>m. st\<lparr>nst_Namespace := m\<rparr>)
       (remove_entry (''namespace not found: '' @ name) name (nst_Namespace st)))"

definition nsm_IsNamespaceExist :: "time \<Rightarrow> io_env \<Rightarrow> string \<Rightarrow> namespace_doc disk \<Rightarrow> bool" where
  "nsm_IsNamespaceExist now io name d = is_ok (nsm_GetNamespace now io name d)"

section \<open>Invariant\<close>

definition nsm_inv :: "NamespaceState \<Rightarrow> bool" where
  "nsm_inv st \<longleftrightarrow> nst_Version st \<noteq> [] \<and> keyed_by ns_Name (nst_Namespace st) \<and>
     map_of (nst_Namespace st) DefaultNamespace \<noteq> None"

lemma ensure_keyed:
  "keyed_by ns_Name (ensureDefaultNamespace now m) = keyed_by ns_Name (ensureDefaultNamespace now' m)"
proof -
  have "keyed_by ns_Name (ensureDefaultNamespace t m) \<longleftrightarrow> keyed_by ns_Name m" for t
  proof (cases "map_of m DefaultNamespace")
    case None
    then have "DefaultNamespace \<notin> fst ` set m" by (simp add: map_of_eq_None_iff)
    then show ?thesis using None
      by (auto simp: ensureDefaultNamespace_def keyed_by_def map_set_fresh image_iff)
  qed (simp add: ensureDefaultNamespace_def)
  then show ?thesis by simp
qed

lemma ensure_default [simp]: "map_of (ensureDefaultNamespace now m) DefaultNamespace \<noteq> None"
  by (simp add: ensureDefaultNamespace_def)

interpretation nsm: plain_store "''namespace state json broken''" "defaultNamespaceState now" "nsm_complete now"
    nsm_marshal nsm_inv for now
  by unfold_locales
    (auto simp: defaultNamespaceState_def nsm_complete_def nsm_marshal_def nsm_inv_def ensureDefaultNamespace_def keyed_by_def)

text \<open>Whether a document is good does not depend on the instant at which it is completed.\<close>

definition nsm_good :: "namespace_doc \<Rightarrow> bool" where
  "nsm_good r \<longleftrightarrow> nsm_inv (nsm_complete zero_time r)"

lemma nsm_good_now: "nsm_inv (nsm_complete now r) \<longleftrightarrow> nsm_good r"
  using ensure_keyed [of now _ zero_time] by (simp add: nsm_good_def nsm_inv_def nsm_complete_def)

lemmas nsm_unfold [store_simps] = nsm_withLock_def nsm_withRLock_def nsm_atomicSave_def nsm_loadOrInit_def

lemma nsm_withLock_inv:
  assumes "disk_inv nsm_good d" and "\<And>st st' a. nsm_inv st \<Longrightarrow> fn st = Inr (st', a) \<Longrightarrow> nsm_inv st'"
  shows "disk_inv nsm_good (snd (nsm_withLock now io fn d))"
  using nsm.withLock_inv [where fn = fn and d = d and now = now, unfolded nsm_good_now] assms
  unfolding nsm_unfold by blast

inductive nsm_reachable :: "namespace_doc disk \<Rightarrow> bool" where
  start: "nsm_reachable empty_disk"
| crash: "nsm_reachable d \<Longrightarrow> nsm_reachable (d\<lparr>tmp_file := t\<rparr>)"
| EnsureDefault: "nsm_reachable d \<Longrightarrow> nsm_reachable (snd (nsm_EnsureDefaultNamespace now io d))"
| StoreNamespace: "nsm_reachable d \<Longrightarrow> nsm_reachable (snd (nsm_StoreNamespace now io info d))"
| RemoveNamespace: "nsm_reachable d \<Longrightarrow> nsm_reachable (snd (nsm_RemoveNamespace now io name d))"

lemma nsm_ops_inv [inv_intros]:
  assumes "disk_inv nsm_good d"
  shows "disk_inv nsm_good (snd (nsm_EnsureDefaultNamespace now io d))"
    "disk_inv nsm_good (snd (nsm_StoreNamespace now io info d))"
    "disk_inv nsm_good (snd (nsm_RemoveNamespace now io name d))"
  unfolding nsm_EnsureDefaultNamespace_def nsm_SetNamespaceState_def nsm_StoreNamespace_def nsm_RemoveNamespace_def
  using assms
  by - (rule nsm_withLock_inv, assumption,
      (auto simp: nsm_inv_def ensureDefaultNamespace_def remove_entry_Inr Let_def intro!: keyed_by_set split: if_splits)[1])+

lemma nsm_reachable_inv: "nsm_reachable d \<Longrightarrow> disk_inv nsm_good d"
  by (induction rule: nsm_reachable.induct) (simp_all add: inv_intros)

lemma nsm_load:
  assumes "nsm_reachable d"
  shows "\<exists>st. nsm_loadOrInit now (read_file io_ok d) = Inr st \<and> nsm_inv st"
  unfolding nsm_loadOrInit_def
  by (rule nsm.load_total [unfolded nsm_good_now, OF nsm_reachable_inv [OF assms]])

section \<open>Properties\<close>

text \<open>
  The default namespace exists in every history and cannot be removed; the list of
  namespaces is in strictly increasing order of names and holds exactly the namespaces \<open>GetNamespace\<close> finds.
\<close>

lemma nsm_default_and_list:
  assumes "nsm_reachable d"
  shows "nsm_IsNamespaceExist now io_ok DefaultNamespace d \<and>
     fst (nsm_RemoveNamespace now io_ok DefaultNamespace d) = Inl (Msg ''default namespace cannot be removed'') \<and>
     (\<exists>l. nsm_GetNamespaceList now io_ok d = Inr l \<and> sorted_wrt (<) (map ns_Name l) \<and>
        (\<forall>i. i \<in> set l \<longleftrightarrow> nsm_GetNamespace now io_ok (ns_Name i) d = Inr i))"
proof -
  obtain st where st: "nsm_loadOrInit now (read_file io_ok d) = Inr st" "nsm_inv st"
    using nsm_load [OF assms] by blast
  have k: "keyed_by ns_Name (nst_Namespace st)" using st(2) by (simp add: nsm_inv_def)
  have "distinct (map ns_Name (sort_key ns_Name (map snd (nst_Namespace st))))"
    unfolding distinct_map_sort_key map_map keyed_by_map_fst [OF k] by (rule keyed_by_wf [OF k])
  then have "sorted_wrt (<) (map ns_Name (sort_key ns_Name (map snd (nst_Namespace st))))"
    using strict_sorted_iff by fastforce
  moreover note keyed_by_values [OF k]
  ultimately show ?thesis
    using st by (auto simp: nsm_IsNamespaceExist_def nsm_GetNamespace_def nsm_RemoveNamespace_def
        nsm_GetNamespaceList_def nsm_withRLock_def nsm_withLock_def nsm_atomicSave_def withRLock_io_ok withLock_io_ok
        lookup_entry_def nsm_inv_def split: option.splits)
qed

end
