(* ===== verification/Service_Store.thy ===== *)
theory Service_Store
  imports Store_Core Ipv4_Net
begin

text \<open>
  The service store \<open>store/ssm\<close>: services, their normalised type and the allocation of cluster
  addresses from \<open>10.166.255.0/24\<close>.
\<close>

section \<open>Data\<close>

record ServicePort =
  sp_Port :: int
  sp_TargetPort :: int
  sp_Protocol :: string

record ServiceInfo =
  sv_ServiceId :: string
  sv_Name :: string
  sv_Namespace :: string
  sv_Type :: string
  sv_ClusterIP :: string
  sv_Selector :: "(string, string) gomap option"
  sv_Ports :: "ServicePort list"
  sv_CreatedAt :: time

record ServiceState =
  sst_Version :: string
  sst_Services :: "(string, ServiceInfo) gomap"

type_synonym service_doc = "string \<times> (string, ServiceInfo) gomap option"

definition ServiceTypeNodePort :: string where
  "ServiceTypeNodePort = ''NodePort''"

definition ServiceTypeClusterIP :: string where
  "ServiceTypeClusterIP = ''ClusterIP''"

definition DefaultServiceCIDR :: string where
  "DefaultServiceCIDR = ''10.166.255.0/24''"

section \<open>The store\<close>

definition ssm_init :: ServiceState where
  "ssm_init = \<lparr>sst_Version = ''0.1.0'', sst_Services = []\<rparr>"

definition ssm_complete :: "service_doc \<Rightarrow> ServiceState" where
  "ssm_complete r = \<lparr>sst_Version = fst r, sst_Services = or_empty (snd r)\<rparr>"

definition ssm_marshal :: "ServiceState \<Rightarrow> service_doc" where
  "ssm_marshal st = (sst_Version st, Some (sst_Services st))"

definition ssm_loadOrInit :: "service_doc read_result \<Rightarrow> ServiceState res" where
  "ssm_loadOrInit = load_or_init ''service state json broken'' ssm_init ssm_complete"

definition ssm_atomicSave :: "io_env \<Rightarrow> ServiceState \<Rightarrow> service_doc disk \<Rightarrow> unit res \<times> service_doc disk" where
  "ssm_atomicSave = atomicSave ssm_marshal"

definition ssm_withLock ::
  "io_env \<Rightarrow> (ServiceState \<Rightarrow> (ServiceState \<times> 'a) res) \<Rightarrow> service_doc disk \<Rightarrow> 'a res \<times> service_doc disk" where
  "ssm_withLock = withLock ssm_loadOrInit ssm_atomicSave"

definition ssm_withRLock :: "io_env \<Rightarrow> (ServiceState \<Rightarrow> 'a res) \<Rightarrow> service_doc disk \<Rightarrow> 'a res" where
  "ssm_withRLock = withRLock ssm_loadOrInit"

definition ssm_SetServiceState :: "io_env \<Rightarrow> service_doc disk \<Rightarrow> unit res \<times> service_doc disk" where
  "ssm_SetServiceState io = ssm_withLock io (\<lambda>st. Inr (st\<lparr>sst_Version := ''0.1.0''\<rparr>, ()))"

section \<open>Service types and cluster addresses\<close>

definition NormalizeServiceType :: "string \<Rightarrow> string" where
  "NormalizeServiceType t =
     (let k = to_lower (trim_space t) in
      if k = [] \<or> k = ''clusterip'' then ServiceTypeClusterIP
      else if k = ''nodeport'' then ServiceTypeNodePort
      else t)"

definition isReservedClusterIP :: "ipnet \<Rightarrow> ip4 \<Rightarrow> bool" where
  "isReservedClusterIP n ip \<longleftrightarrow> ip = net_ip n \<or> ip = broadcastIPv4 n"

text \<open>
  The scan for a free address. \<open>None\<close> is a run longer than the fuel, \<open>Some None\<close> one that left the
  subnet; 256 rounds are enough for the /24 the caller uses (\<open>cluster_scan\<close> below).
\<close>

fun cluster_loop :: "nat \<Rightarrow> ipnet \<Rightarrow> string list \<Rightarrow> ip4 \<Rightarrow> ip4 option option" where
  "cluster_loop 0 n used ip = None"
| "cluster_loop (Suc fuel) n used ip =
     (if \<not> net_contains n ip then Some None
      else if isReservedClusterIP n ip then cluster_loop fuel n used (incIPv4 ip)
      else if ip_string ip \<in> set used then cluster_loop fuel n used (incIPv4 ip)
      else Some (Some ip))"

definition used_cluster_ips :: "ServiceState \<Rightarrow> string list" where
  "used_cluster_ips st = filter (\<lambda>s. s \<noteq> []) (map (sv_ClusterIP \<circ> snd) (sst_Services st))"

definition allocateClusterIP :: "ServiceState \<Rightarrow> string \<Rightarrow> string res" where
  "allocateClusterIP st requested =
     (case parse_cidr DefaultServiceCIDR of
        None \<Rightarrow> Inl (SysErr ''invalid CIDR address'')
      | Some n \<Rightarrow> (let used = used_cluster_ips st in
          if requested \<noteq> [] then
            (case parse_ip requested of
               None \<Rightarrow> Inl (Msg (''invalid clusterIP: '' @ requested))
             | Some ip \<Rightarrow>
                 if \<not> net_contains n ip
                 then Inl (Msg (''clusterIP '' @ requested @ '' is outside service CIDR '' @ DefaultServiceCIDR))
                 else if isReservedClusterIP n ip then Inl (Msg (''clusterIP '' @ requested @ '' is reserved''))
                 else if ip_string ip \<in> set used
                 then Inl (Msg (''clusterIP '' @ requested @ '' is already allocated''))
                 else Inr (ip_string ip))
          else (case cluster_loop 256 n used (incIPv4 (net_ip n)) of
                  Some (Some ip) \<Rightarrow> Inr (ip_string ip)
                | Some None \<Rightarrow> Inl (Msg (''no available clusterIP in service CIDR '' @ DefaultServiceCIDR))
                | None \<Rightarrow> Inl (Panic ''diverges''))))"

section \<open>The manager\<close>

definition storeService_state ::
  "time \<Rightarrow> string \<Rightarrow> ServiceInfo \<Rightarrow> ServiceState \<Rightarrow> (ServiceState \<times> unit) res" where
  "storeService_state now sid spec0 st =
     (let spec = spec0\<lparr>sv_ServiceId := sid, sv_CreatedAt := now, sv_Type := NormalizeServiceType (sv_Type spec0)\<rparr> in
      if sv_Type spec \<noteq> ServiceTypeNodePort \<and> sv_Type spec \<noteq> ServiceTypeClusterIP
      then Inl (Msg (''unsupported service type: '' @ sv_Type spec))
      else if sv_Type spec = ServiceTypeClusterIP then
        (case allocateClusterIP st (sv_ClusterIP spec) of
           Inl e \<Rightarrow> Inl e
         | Inr ip \<Rightarrow> Inr (st\<lparr>sst_Services := map_set sid (spec\<lparr>sv_ClusterIP := ip\<rparr>) (sst_Services st)\<rparr>, ()))
      else Inr (st\<lparr>sst_Services := map_set sid spec (sst_Services st)\<rparr>, ()))"

definition ssm_StoreService ::
  "io_env \<Rightarrow> time \<Rightarrow> string \<Rightarrow> ServiceInfo \<Rightarrow> service_doc disk \<Rightarrow> unit res \<times> service_doc disk" where
  "ssm_StoreService io now sid spec = ssm_withLock io (storeService_state now sid spec)"

definition normalised :: "ServiceInfo \<Rightarrow> ServiceInfo" where
  "normalised s = s\<lparr>sv_Type := NormalizeServiceType (sv_Type s)\<rparr>"

definition ssm_GetServiceList :: "io_env \<Rightarrow> service_doc disk \<Rightarrow> ServiceInfo list res" where
  "ssm_GetServiceList io = ssm_withRLock io (\<lambda>st. Inr (map (normalised \<circ> snd) (sst_Services st)))"

definition ssm_GetServiceById :: "io_env \<Rightarrow> string \<Rightarrow> service_doc disk \<Rightarrow> ServiceInfo res" where
  "ssm_GetServiceById io sid = ssm_withRLock io (\<lambda>st.
     map_sum id normalised (lookup_entry (''serviceId='' @ sid @ '' not found'') sid (sst_Services st)))"

definition ssm_RemoveService :: "io_env \<Rightarrow> string \<Rightarrow> service_doc disk \<Rightarrow> unit res \<times> service_doc disk" where
  "ssm_RemoveService io sid = ssm_withLock io (\<lambda>st. put_back (\<lambda>m. st\<lparr>sst_Services := m\<rparr>)
     (remove_entry (''serviceId='' @ sid @ '' not found'') sid (sst_Services st)))"

definition ssm_IsNameAlreadyUsed :: "io_env \<Rightarrow> string \<Rightarrow> string \<Rightarrow> service_doc disk \<Rightarrow> bool" where
  "ssm_IsNameAlreadyUsed io name namespace d =
     (case ssm_withRLock io (\<lambda>st. Inr (range_find (\<lambda>_ s. sv_Name s = name \<and> sv_Namespace s = namespace)
         (sst_Services st) \<noteq> None)) d of Inr b \<Rightarrow> b | Inl _ \<Rightarrow> False)"

section \<open>The address scan\<close>

definition service_net :: ipnet where
  "service_net = \<lparr>net_ip = 178716416, net_ones = 24\<rparr>"

lemma parse_service_cidr: "parse_cidr DefaultServiceCIDR = Some service_net"
  unfolding DefaultServiceCIDR_def service_net_def by code_simp

lemma wf_service_net: "wf_net service_net"
  by (simp add: wf_net_def service_net_def net_host_bits_def)

abbreviation cluster_addr :: "nat \<Rightarrow> ip4" where
  "cluster_addr k \<equiv> net_ip service_net + of_nat k"

lemma unat_cluster_addr: "k \<le> 256 \<Longrightarrow> unat (cluster_addr k) = 178716416 + k"
  by (simp add: service_net_def unat_word_ariths unat_of_nat)

lemma cluster_addr_contains: "k \<le> 256 \<Longrightarrow> net_contains service_net (cluster_addr k) \<longleftrightarrow> k < 256"
proof -
  assume k: "k \<le> 256"
  have "unat (net_ip service_net) = 178716416" by (simp add: service_net_def)
  then show ?thesis
    using unat_cluster_addr [OF k] k by (auto simp: net_contains_div net_host_bits_def service_net_def)
qed

lemma cluster_addr_inj: "j \<le> 256 \<Longrightarrow> k \<le> 256 \<Longrightarrow> cluster_addr j = cluster_addr k \<longleftrightarrow> j = k"
  using unat_cluster_addr by (metis add_left_cancel)

lemma cluster_addr_reserved: "k < 256 \<Longrightarrow> isReservedClusterIP service_net (cluster_addr k) \<longleftrightarrow> k = 0 \<or> k = 255"
proof -
  assume k: "k < 256"
  have b: "broadcastIPv4 service_net = cluster_addr 255"
    using broadcast_offset [OF wf_service_net] by (simp add: net_host_bits_def service_net_def)
  have z: "net_ip service_net = cluster_addr 0" by simp
  show ?thesis
    unfolding isReservedClusterIP_def b using cluster_addr_inj [of k 0] cluster_addr_inj [of k 255] k by simp
qed

lemma cluster_scan:
  assumes "k \<le> 256" and "1 \<le> k" and "256 - k < fuel"
  shows "cluster_loop fuel service_net used (cluster_addr k) =
     Some (map_option cluster_addr (find (\<lambda>j. ip_string (cluster_addr j) \<notin> set used) [k..<255]))"
  using assms
proof (induction fuel arbitrary: k)
  case (Suc fuel)
  have nx: "incIPv4 (cluster_addr k) = cluster_addr (Suc k)" by (simp add: incIPv4_eq algebra_simps)
  consider "k = 256" | "k = 255" | "k < 255" using Suc.prems by linarith
  then show ?case
  proof cases
    case 1
    then show ?thesis using cluster_addr_contains [of k] by simp
  next
    case 2
    then have "cluster_loop fuel service_net used (cluster_addr (Suc k)) = Some None"
      using Suc.prems Suc.IH [of "Suc k"] by simp
    with 2 show ?thesis
      using cluster_addr_contains [of k] cluster_addr_reserved [of k] nx by (simp del: of_nat_Suc)
  next
    case 3
    then have "cluster_loop fuel service_net used (cluster_addr (Suc k)) =
      Some (map_option cluster_addr (find (\<lambda>j. ip_string (cluster_addr j) \<notin> set used) [Suc k..<255]))"
      using Suc.prems by (intro Suc.IH) linarith+
    moreover have "[k..<255] = k # [Suc k..<255]" using 3 by (rule upt_conv_Cons)
    ultimately show ?thesis
      using 3 cluster_addr_contains [of k] cluster_addr_reserved [of k] nx Suc.prems(2) by (simp del: of_nat_Suc)
  qed
qed simp

lemma allocate_auto:
  "allocateClusterIP st [] =
     (case find (\<lambda>k. ip_string (cluster_addr k) \<notin> set (used_cluster_ips st)) [1..<255] of
        Some k \<Rightarrow> Inr (ip_string (cluster_addr k))
      | None \<Rightarrow> Inl (Msg (''no available clusterIP in service CIDR '' @ DefaultServiceCIDR)))"
proof -
  have "incIPv4 (net_ip service_net) = cluster_addr 1" by (simp add: incIPv4_eq)
  then show ?thesis
    using cluster_scan [of 1 256 "used_cluster_ips st"]
    by (simp add: allocateClusterIP_def parse_service_cidr del: upt_rec_numeral split: option.splits)
qed

text \<open>A host address of the service network, in its canonical text.\<close>

definition cluster_host :: "string \<Rightarrow> bool" where
  "cluster_host s \<longleftrightarrow> (case parse_ip s of None \<Rightarrow> False
     | Some ip \<Rightarrow> s = ip_string ip \<and> net_contains service_net ip \<and> \<not> isReservedClusterIP service_net ip)"

lemma allocate_sound:
  assumes "allocateClusterIP st req = Inr s"
  shows "cluster_host s" "s \<notin> set (used_cluster_ips st)"
proof -
  have "cluster_host s \<and> s \<notin> set (used_cluster_ips st)"
  proof (cases "req = []")
    case True
    with assms allocate_auto [of st] obtain k where k: "s = ip_string (cluster_addr k)"
      "find (\<lambda>k. ip_string (cluster_addr k) \<notin> set (used_cluster_ips st)) [1..<255] = Some k"
      by (auto simp del: upt_rec_numeral split: option.splits)
    then have "1 \<le> k" "k < 255" "s \<notin> set (used_cluster_ips st)"
      by (auto simp: find_Some_iff simp del: upt_rec_numeral)
    then show ?thesis
      using k(1) cluster_addr_contains [of k] cluster_addr_reserved [of k] by (simp add: cluster_host_def)
  next
    case False
    with assms show ?thesis
      by (auto simp: allocateClusterIP_def parse_service_cidr Let_def cluster_host_def
          split: option.splits if_splits)
  qed
  then show "cluster_host s" "s \<notin> set (used_cluster_ips st)" by auto
qed

section \<open>Invariant\<close>

definition ssm_inv :: "ServiceState \<Rightarrow> bool" where
  "ssm_inv st \<longleftrightarrow> keyed_by sv_ServiceId (sst_Services st) \<and>
     (\<forall>(k, s) \<in> set (sst_Services st).
        (sv_Type s = ServiceTypeNodePort \<or> sv_Type s = ServiceTypeClusterIP \<and> cluster_host (sv_ClusterIP s)) \<and>
        (\<forall>(k', s') \<in> set (sst_Services st). sv_Type s = ServiceTypeClusterIP \<longrightarrow> sv_Type s' = ServiceTypeClusterIP \<longrightarrow>
           sv_ClusterIP s = sv_ClusterIP s' \<longrightarrow> k = k'))"

lemma cluster_type_neq [simp]: "ServiceTypeClusterIP \<noteq> ServiceTypeNodePort" "ServiceTypeNodePort \<noteq> ServiceTypeClusterIP"
  by (simp_all add: ServiceTypeClusterIP_def ServiceTypeNodePort_def)

lemma cluster_host_nonempty: "cluster_host s \<Longrightarrow> s \<noteq> []"
  by (auto simp: cluster_host_def parse_ip_def parse_octet_def)

lemma ssm_inv_set:
  assumes inv: "ssm_inv st" and "sv_ServiceId s = i"
    and t: "sv_Type s = ServiceTypeNodePort \<or>
      sv_Type s = ServiceTypeClusterIP \<and> cluster_host (sv_ClusterIP s) \<and> sv_ClusterIP s \<notin> set (used_cluster_ips st)"
  shows "ssm_inv (st\<lparr>sst_Services := map_set i s (sst_Services st)\<rparr>)"
proof -
  have new: "sv_ClusterIP s' \<noteq> sv_ClusterIP s"
    if "(k, s') \<in> set (sst_Services st)" "sv_Type s = ServiceTypeClusterIP" for k s'
  proof
    assume eq: "sv_ClusterIP s' = sv_ClusterIP s"
    have "sv_ClusterIP s \<noteq> []" using t that cluster_host_nonempty by auto
    with that(1) eq have "sv_ClusterIP s \<in> set (used_cluster_ips st)" by (force simp: used_cluster_ips_def)
    with t that(2) show False by auto
  qed
  have sub: "x = (i, s) \<or> x \<in> set (sst_Services st)" if "x \<in> set (map_set i s (sst_Services st))" for x
    using subsetD [OF set_map_set_subset that] by simp
  have old: "sv_Type b = ServiceTypeNodePort \<or> sv_Type b = ServiceTypeClusterIP \<and> cluster_host (sv_ClusterIP b)"
    "\<And>k' b'. (k', b') \<in> set (sst_Services st) \<Longrightarrow> sv_Type b = ServiceTypeClusterIP \<Longrightarrow>
       sv_Type b' = ServiceTypeClusterIP \<Longrightarrow> sv_ClusterIP b = sv_ClusterIP b' \<Longrightarrow> k = k'"
    if "(k, b) \<in> set (sst_Services st)" for k b
    using inv that by (auto simp: ssm_inv_def)
  have "keyed_by sv_ServiceId (map_set i s (sst_Services st))"
    using inv assms(2) by (intro keyed_by_set) (simp_all add: ssm_inv_def)
  moreover have "sv_Type b = ServiceTypeNodePort \<or> sv_Type b = ServiceTypeClusterIP \<and> cluster_host (sv_ClusterIP b)"
    if "(k, b) \<in> set (map_set i s (sst_Services st))" for k b
    using sub [OF that] t old(1) by auto
  moreover have "k = k'"
    if "(k, b) \<in> set (map_set i s (sst_Services st))" "(k', b') \<in> set (map_set i s (sst_Services st))"
      "sv_Type b = ServiceTypeClusterIP" "sv_Type b' = ServiceTypeClusterIP" "sv_ClusterIP b = sv_ClusterIP b'" for k b k' b'
    using sub [OF that(1)] sub [OF that(2)] that(3-5) new old(2) by (elim disjE) auto
  ultimately show ?thesis unfolding ssm_inv_def by auto
qed

lemma ssm_inv_version [simp]: "ssm_inv (st\<lparr>sst_Version := v\<rparr>) = ssm_inv st"
  by (simp add: ssm_inv_def)

lemma ssm_inv_del:
  assumes "ssm_inv st"
  shows "ssm_inv (st\<lparr>sst_Services := map_del i (sst_Services st)\<rparr>)"
  using assms unfolding ssm_inv_def by (fastforce simp: set_map_del)

interpretation ssm: plain_store "''service state json broken''" ssm_init ssm_complete ssm_marshal ssm_inv
  by unfold_locales (simp_all add: ssm_init_def ssm_complete_def ssm_marshal_def ssm_inv_def)

lemmas ssm_unfold [store_simps] = ssm_withLock_def ssm_withRLock_def ssm_atomicSave_def ssm_loadOrInit_def

abbreviation ssm_disk_inv :: "service_doc disk \<Rightarrow> bool" where
  "ssm_disk_inv \<equiv> disk_inv (\<lambda>r. ssm_inv (ssm_complete r))"

lemma ssm_withLock_inv:
  assumes "ssm_disk_inv d" and "\<And>st st' a. ssm_inv st \<Longrightarrow> fn st = Inr (st', a) \<Longrightarrow> ssm_inv st'"
  shows "ssm_disk_inv (snd (ssm_withLock io fn d))"
  using ssm.withLock_inv [OF assms(1), of fn io] assms(2) by (simp add: store_simps)

inductive ssm_reachable :: "service_doc disk \<Rightarrow> bool" where
  start: "ssm_reachable empty_disk"
| crash: "ssm_reachable d \<Longrightarrow> ssm_reachable (d\<lparr>tmp_file := t\<rparr>)"
| SetServiceState: "ssm_reachable d \<Longrightarrow> ssm_reachable (snd (ssm_SetServiceState io d))"
| StoreService: "ssm_reachable d \<Longrightarrow> ssm_reachable (snd (ssm_StoreService io now sid spec d))"
| RemoveService: "ssm_reachable d \<Longrightarrow> ssm_reachable (snd (ssm_RemoveService io sid d))"

lemma storeService_inv:
  assumes "ssm_inv st" and "storeService_state now sid spec st = Inr (st', u)"
  shows "ssm_inv st'"
  using assms allocate_sound
  by (auto simp: storeService_state_def Let_def split: if_splits sum.splits intro!: ssm_inv_set)

lemma ssm_ops_inv [inv_intros]:
  assumes "ssm_disk_inv d"
  shows "ssm_disk_inv (snd (ssm_SetServiceState io d))"
    "ssm_disk_inv (snd (ssm_StoreService io now sid spec d))"
    "ssm_disk_inv (snd (ssm_RemoveService io sid d))"
proof -
  show "ssm_disk_inv (snd (ssm_SetServiceState io d))"
    unfolding ssm_SetServiceState_def using assms by (rule ssm_withLock_inv) auto
  show "ssm_disk_inv (snd (ssm_StoreService io now sid spec d))"
    unfolding ssm_StoreService_def using assms by (rule ssm_withLock_inv) (rule storeService_inv)
  show "ssm_disk_inv (snd (ssm_RemoveService io sid d))"
    unfolding ssm_RemoveService_def using assms
    by (rule ssm_withLock_inv) (auto simp: remove_entry_Inr intro: ssm_inv_del)
qed

lemma ssm_reachable_inv: "ssm_reachable d \<Longrightarrow> ssm_disk_inv d"
  by (induction rule: ssm_reachable.induct) (simp_all add: inv_intros)

lemma ssm_load:
  assumes "ssm_reachable d"
  shows "\<exists>st. ssm_loadOrInit (read_file io_ok d) = Inr st \<and> ssm_inv st"
  unfolding ssm_loadOrInit_def by (rule ssm.load_total [OF ssm_reachable_inv [OF assms]])

section \<open>Properties\<close>

text \<open>
  Property C16. In every history the cluster address of a service of type \<open>ClusterIP\<close> is a host of \<open>10.166.255.0/24\<close> other than its network
  and broadcast addresses, and no other service of this type has the same.
\<close>

theorem ssm_ClusterIP_unique:
  assumes "ssm_reachable d" and "ssm_GetServiceById io_ok i d = Inr s" and "sv_Type s = ServiceTypeClusterIP"
  shows "cluster_host (sv_ClusterIP s) \<and>
    (\<forall>j t. ssm_GetServiceById io_ok j d = Inr t \<and> sv_Type t = ServiceTypeClusterIP \<and> j \<noteq> i \<longrightarrow> sv_ClusterIP t \<noteq> sv_ClusterIP s)"
proof -
  obtain st where st: "ssm_loadOrInit (read_file io_ok d) = Inr st" "ssm_inv st"
    using ssm_load [OF assms(1)] by blast
  have fix_type: "NormalizeServiceType ServiceTypeNodePort = ServiceTypeNodePort"
    "NormalizeServiceType ServiceTypeClusterIP = ServiceTypeClusterIP" by code_simp+
  have get: "\<exists>r. (k, r) \<in> set (sst_Services st) \<and> normalised r = x \<and> sv_Type r = sv_Type x"
    if g: "ssm_GetServiceById io_ok k d = Inr x" for k x
  proof -
    obtain r where r: "map_of (sst_Services st) k = Some r" "normalised r = x"
      using g st(1)
      by (cases "map_of (sst_Services st) k")
        (auto simp: ssm_GetServiceById_def ssm_withRLock_def withRLock_io_ok lookup_entry_def)
    then have m: "(k, r) \<in> set (sst_Services st)" by (simp add: map_of_SomeD)
    then have "sv_Type r = ServiceTypeNodePort \<or> sv_Type r = ServiceTypeClusterIP"
      using st(2) by (auto simp: ssm_inv_def)
    then show ?thesis using m r(2) fix_type by (auto simp: normalised_def)
  qed
  obtain r where r: "(i, r) \<in> set (sst_Services st)" "normalised r = s" "sv_Type r = sv_Type s" using get [OF assms(2)] by blast
  have ip: "sv_ClusterIP s = sv_ClusterIP r" unfolding r(2) [symmetric] by (simp add: normalised_def)
  have "sv_ClusterIP t \<noteq> sv_ClusterIP s"
    if t: "ssm_GetServiceById io_ok j d = Inr t" "sv_Type t = ServiceTypeClusterIP" "j \<noteq> i" for j t
  proof -
    obtain q where q: "(j, q) \<in> set (sst_Services st)" "normalised q = t" "sv_Type q = sv_Type t" using get [OF t(1)] by blast
    have "sv_ClusterIP t = sv_ClusterIP q" unfolding q(2) [symmetric] by (simp add: normalised_def)
    then show ?thesis using st(2) r q t(2,3) assms(3) ip unfolding ssm_inv_def by fastforce
  qed
  moreover have "cluster_host (sv_ClusterIP s)" using st(2) r assms(3) ip unfolding ssm_inv_def by fastforce
  ultimately show ?thesis by blast
qed

text \<open>
  \<open>allocateClusterIP\<close> without a requested address terminates and returns the lowest of
  \<open>10.166.255.1 .. 10.166.255.254\<close> that no service holds, and fails exactly when all are held.
\<close>

lemma allocateClusterIP_lowest:
  "allocateClusterIP st [] =
     (case find (\<lambda>k. ip_string (178716416 + of_nat k) \<notin> set (used_cluster_ips st)) [1..<255] of
        Some k \<Rightarrow> Inr (ip_string (178716416 + of_nat k))
      | None \<Rightarrow> Inl (Msg ''no available clusterIP in service CIDR 10.166.255.0/24''))"
  using allocate_auto [of st] by (simp add: service_net_def DefaultServiceCIDR_def del: upt_rec_numeral split: option.splits)

section \<open>Witnesses\<close>

definition ex_service :: ServiceInfo where
  "ex_service = \<lparr>sv_ServiceId = [], sv_Name = ''db'', sv_Namespace = ''default'', sv_Type = [], sv_ClusterIP = ''10.166.255.7'',
     sv_Selector = None, sv_Ports = [], sv_CreatedAt = 0\<rparr>"

definition ex_ssm :: "service_doc disk" where
  "ex_ssm = snd (ssm_StoreService io_ok 2 ''s2'' (ex_service\<lparr>sv_ClusterIP := ''10.166.255.9''\<rparr>)
     (snd (ssm_StoreService io_ok 1 ''s1'' ex_service empty_disk)))"

theorem ssm_ClusterIP_unique_witness:
  "\<exists>s t. ssm_GetServiceById io_ok ''s1'' ex_ssm = Inr s \<and> ssm_GetServiceById io_ok ''s2'' ex_ssm = Inr t \<and>
     sv_ClusterIP s = ''10.166.255.7'' \<and> sv_ClusterIP s \<noteq> sv_ClusterIP t"
proof -
  let ?s = "ex_service\<lparr>sv_ServiceId := ''s1'', sv_CreatedAt := 1, sv_Type := ''ClusterIP''\<rparr>"
  let ?t = "ex_service\<lparr>sv_ServiceId := ''s2'', sv_CreatedAt := 2, sv_Type := ''ClusterIP'', sv_ClusterIP := ''10.166.255.9''\<rparr>"
  have g: "ssm_GetServiceById io_ok ''s1'' ex_ssm = Inr ?s" "ssm_GetServiceById io_ok ''s2'' ex_ssm = Inr ?t"
    by code_simp+
  have "ssm_reachable ex_ssm" unfolding ex_ssm_def by (intro ssm_reachable.intros)
  from ssm_ClusterIP_unique [OF this g(1)] g show ?thesis
    by (auto simp: ServiceTypeClusterIP_def ex_service_def)
qed

end
