(* ===== verification/Pod_Store.thy ===== *)
theory Pod_Store
  imports Store_Core
begin

text \<open>
  The pod store \<open>store/psm\<close>: pods, pod templates, replica sets and deployments, each in a map keyed by
  its identifier. Every method of \<open>PsmManager\<close> (\<open>psm.go\<close>) is a definition.
\<close>

section \<open>Data\<close>

definition PodStateCreated :: string where "PodStateCreated = ''created''"

definition PodStateRunning :: string where "PodStateRunning = ''running''"

definition PodStateStopped :: string where "PodStateStopped = ''stopped''"

definition PodStateDegraded :: string where "PodStateDegraded = ''degraded''"

definition OwnerKindReplicaSet :: string where "OwnerKindReplicaSet = ''ReplicaSet''"

type_synonym labels = "(string, string) gomap option"

record PodInfo =
  pd_PodId :: string
  pd_TemplateId :: string
  pd_OwnerKind :: string
  pd_OwnerId :: string
  pd_Name :: string
  pd_Namespace :: string
  pd_UID :: string
  pd_State :: string
  pd_OwnerPid :: int
  pd_NetworkNS :: string
  pd_IPCNS :: string
  pd_UTSNS :: string
  pd_UserNS :: string
  pd_Rootless :: bool
  pd_Labels :: labels
  pd_Annotations :: labels
  pd_CreatedAt :: time
  pd_StartedAt :: time
  pd_StoppedAt :: time
  pd_StoppedByUser :: bool

record StorePodRequest =
  pr_PodId :: string
  pr_TemplateId :: string
  pr_OwnerKind :: string
  pr_OwnerId :: string
  pr_Name :: string
  pr_Namespace :: string
  pr_UID :: string
  pr_State :: string
  pr_NetworkNS :: string
  pr_IPCNS :: string
  pr_UTSNS :: string
  pr_UserNS :: string
  pr_Rootless :: bool
  pr_Labels :: labels
  pr_Annotations :: labels

record ContainerTemplateSpec =
  ct_Name :: string
  ct_Image :: string
  ct_Command :: "string list"
  ct_Port :: "string list"
  ct_Mount :: "string list"
  ct_Env :: "string list"
  ct_CapAdd :: "string list"
  ct_CapDrop :: "string list"
  ct_SecurityProfile :: string
  ct_Network :: string
  ct_Tty :: bool

record PodTemplateSpec =
  pt_Name :: string
  pt_Namespace :: string
  pt_NetworkNS :: string
  pt_IPCNS :: string
  pt_UTSNS :: string
  pt_UserNS :: string
  pt_Rootless :: bool
  pt_Labels :: labels
  pt_Annotations :: labels
  pt_Containers :: "ContainerTemplateSpec list"

record PodTemplateInfo =
  ti_TemplateId :: string
  ti_Spec :: PodTemplateSpec
  ti_CreatedAt :: time

record ReplicaSetSpec =
  rs_Name :: string
  rs_Namespace :: string
  rs_Replicas :: int
  rs_TemplateId :: string
  rs_Selector :: labels

record ReplicaSetInfo =
  ri_ReplicaSetId :: string
  ri_Spec :: ReplicaSetSpec
  ri_CreatedAt :: time
  ri_ReconcileAttempt :: int
  ri_LastReconcileError :: string
  ri_NextReconcileAt :: time

record DeploymentSpec =
  dy_Name :: string
  dy_Namespace :: string
  dy_Replicas :: int
  dy_TemplateId :: string
  dy_Selector :: labels
  dy_ReplicaSetId :: string

record DeploymentInfo =
  di_DeploymentId :: string
  di_Spec :: DeploymentSpec
  di_CreatedAt :: time
  di_UpdatedAt :: time

record PodState =
  ps_Version :: string
  ps_Pods :: "(string, PodInfo) gomap"
  ps_PodTemplates :: "(string, PodTemplateInfo) gomap"
  ps_ReplicaSets :: "(string, ReplicaSetInfo) gomap"
  ps_Deployments :: "(string, DeploymentInfo) gomap"

record pod_doc =
  pc_Version :: string
  pc_Pods :: "(string, PodInfo) gomap option"
  pc_PodTemplates :: "(string, PodTemplateInfo) gomap option"
  pc_ReplicaSets :: "(string, ReplicaSetInfo) gomap option"
  pc_Deployments :: "(string, DeploymentInfo) gomap option"

section \<open>The store\<close>

definition psm_init :: PodState where
  "psm_init = \<lparr>ps_Version = ''0.3.0'', ps_Pods = [], ps_PodTemplates = [], ps_ReplicaSets = [], ps_Deployments = []\<rparr>"

definition psm_complete :: "pod_doc \<Rightarrow> PodState" where
  "psm_complete r = \<lparr>ps_Version = pc_Version r, ps_Pods = or_empty (pc_Pods r),
     ps_PodTemplates = or_empty (pc_PodTemplates r), ps_ReplicaSets = or_empty (pc_ReplicaSets r),
     ps_Deployments = or_empty (pc_Deployments r)\<rparr>"

definition psm_marshal :: "PodState \<Rightarrow> pod_doc" where
  "psm_marshal st = \<lparr>pc_Version = ps_Version st, pc_Pods = Some (ps_Pods st),
     pc_PodTemplates = Some (ps_PodTemplates st), pc_ReplicaSets = Some (ps_ReplicaSets st),
     pc_Deployments = Some (ps_Deployments st)\<rparr>"

definition psm_loadOrInit :: "pod_doc read_result \<Rightarrow> PodState res" where
  "psm_loadOrInit = load_or_init ''pod state json broken'' psm_init psm_complete"

definition psm_atomicSave :: "io_env \<Rightarrow> PodState \<Rightarrow> pod_doc disk \<Rightarrow> unit res \<times> pod_doc disk" where
  "psm_atomicSave = atomicSave psm_marshal"

definition psm_withLock ::
  "io_env \<Rightarrow> (PodState \<Rightarrow> (PodState \<times> 'a) res) \<Rightarrow> pod_doc disk \<Rightarrow> 'a res \<times> pod_doc disk" where
  "psm_withLock = withLock psm_loadOrInit psm_atomicSave"

definition psm_withRLock :: "io_env \<Rightarrow> (PodState \<Rightarrow> 'a res) \<Rightarrow> pod_doc disk \<Rightarrow> 'a res" where
  "psm_withRLock = withRLock psm_loadOrInit"

definition psm_SetPodState :: "io_env \<Rightarrow> pod_doc disk \<Rightarrow> unit res \<times> pod_doc disk" where
  "psm_SetPodState io = psm_withLock io (\<lambda>st. Inr (st\<lparr>ps_Version := ''0.3.0''\<rparr>, ()))"

section \<open>Pods\<close>

definition new_pod :: "time \<Rightarrow> StorePodRequest \<Rightarrow> PodInfo" where
  "new_pod now q = \<lparr>pd_PodId = pr_PodId q, pd_TemplateId = pr_TemplateId q, pd_OwnerKind = pr_OwnerKind q,
     pd_OwnerId = pr_OwnerId q, pd_Name = pr_Name q, pd_Namespace = pr_Namespace q, pd_UID = pr_UID q,
     pd_State = pr_State q, pd_OwnerPid = 0, pd_NetworkNS = pr_NetworkNS q, pd_IPCNS = pr_IPCNS q,
     pd_UTSNS = pr_UTSNS q, pd_UserNS = pr_UserNS q, pd_Rootless = pr_Rootless q, pd_Labels = pr_Labels q,
     pd_Annotations = pr_Annotations q, pd_CreatedAt = now, pd_StartedAt = zero_time,
     pd_StoppedAt = zero_time, pd_StoppedByUser = False\<rparr>"

definition psm_StorePod :: "io_env \<Rightarrow> time \<Rightarrow> StorePodRequest \<Rightarrow> pod_doc disk \<Rightarrow> unit res \<times> pod_doc disk" where
  "psm_StorePod io now q = psm_withLock io (\<lambda>st.
     Inr (st\<lparr>ps_Pods := map_set (pr_PodId q) (new_pod now q) (ps_Pods st)\<rparr>, ()))"

definition psm_RemovePod :: "io_env \<Rightarrow> string \<Rightarrow> pod_doc disk \<Rightarrow> unit res \<times> pod_doc disk" where
  "psm_RemovePod io pid = psm_withLock io (\<lambda>st. put_back (\<lambda>m. st\<lparr>ps_Pods := m\<rparr>)
     (remove_entry (''podId='' @ pid @ '' not found'') pid (ps_Pods st)))"

text \<open>Look a pod up, change it, put it back.\<close>

definition psm_update_pod :: "io_env \<Rightarrow> string \<Rightarrow> (PodInfo \<Rightarrow> PodInfo) \<Rightarrow> pod_doc disk \<Rightarrow> unit res \<times> pod_doc disk" where
  "psm_update_pod io pid f = psm_withLock io (\<lambda>st. put_back (\<lambda>m. st\<lparr>ps_Pods := m\<rparr>)
     (update_entry (''podId='' @ pid @ '' not found'') pid f (ps_Pods st)))"

definition psm_UpdatePod :: "io_env \<Rightarrow> time \<Rightarrow> string \<Rightarrow> string \<Rightarrow> pod_doc disk \<Rightarrow> unit res \<times> pod_doc disk" where
  "psm_UpdatePod io now pid state = psm_update_pod io pid (\<lambda>p0. let p = p0\<lparr>pd_State := state\<rparr> in
     if state = PodStateCreated then p\<lparr>pd_CreatedAt := now\<rparr>
     else if state = PodStateRunning then p\<lparr>pd_StartedAt := now\<rparr>
     else if state = PodStateStopped then p\<lparr>pd_StoppedAt := now\<rparr>
     else p)"

definition psm_UpdatePodOwner :: "io_env \<Rightarrow> string \<Rightarrow> string \<Rightarrow> string \<Rightarrow> pod_doc disk \<Rightarrow> unit res \<times> pod_doc disk" where
  "psm_UpdatePodOwner io pid kind oid = psm_update_pod io pid (\<lambda>p. p\<lparr>pd_OwnerKind := kind, pd_OwnerId := oid\<rparr>)"

definition psm_UpdatePodStoppedByUser :: "io_env \<Rightarrow> string \<Rightarrow> bool \<Rightarrow> pod_doc disk \<Rightarrow> unit res \<times> pod_doc disk" where
  "psm_UpdatePodStoppedByUser io pid stopped = psm_update_pod io pid (\<lambda>p. p\<lparr>pd_StoppedByUser := stopped\<rparr>)"

definition set_once :: "string \<Rightarrow> string \<Rightarrow> string" where
  "set_once old new = (if old = [] \<and> new \<noteq> [] then new else old)"

definition join_namespaces :: "int \<Rightarrow> string \<Rightarrow> string \<Rightarrow> string \<Rightarrow> string \<Rightarrow> PodInfo \<Rightarrow> PodInfo" where
  "join_namespaces pid net ipc uts user p = p\<lparr>pd_OwnerPid := pid,
     pd_NetworkNS := set_once (pd_NetworkNS p) net, pd_IPCNS := set_once (pd_IPCNS p) ipc,
     pd_UTSNS := set_once (pd_UTSNS p) uts, pd_UserNS := set_once (pd_UserNS p) user\<rparr>"

definition psm_UpdatePodNamespaces ::
  "io_env \<Rightarrow> int \<Rightarrow> string \<Rightarrow> string \<Rightarrow> string \<Rightarrow> string \<Rightarrow> string \<Rightarrow> pod_doc disk \<Rightarrow> unit res \<times> pod_doc disk" where
  "psm_UpdatePodNamespaces io ownerPid pid net ipc uts user =
     psm_update_pod io pid (join_namespaces ownerPid net ipc uts user)"

definition leave_namespaces :: "PodInfo \<Rightarrow> PodInfo" where
  "leave_namespaces p = p\<lparr>pd_OwnerPid := 0, pd_NetworkNS := [], pd_IPCNS := [], pd_UTSNS := [], pd_UserNS := []\<rparr>"

definition psm_ResetPodNamespaces :: "io_env \<Rightarrow> string \<Rightarrow> pod_doc disk \<Rightarrow> unit res \<times> pod_doc disk" where
  "psm_ResetPodNamespaces io pid = psm_update_pod io pid leave_namespaces"

definition psm_GetPodList :: "io_env \<Rightarrow> pod_doc disk \<Rightarrow> PodInfo list res" where
  "psm_GetPodList io = psm_withRLock io (\<lambda>st. Inr (map snd (ps_Pods st)))"

definition psm_GetPodById :: "io_env \<Rightarrow> string \<Rightarrow> pod_doc disk \<Rightarrow> PodInfo res" where
  "psm_GetPodById io pid = psm_withRLock io (\<lambda>st. lookup_entry (''pod: '' @ pid @ '' not found'') pid (ps_Pods st))"

definition psm_IsNameAlreadyUsed :: "io_env \<Rightarrow> string \<Rightarrow> string \<Rightarrow> pod_doc disk \<Rightarrow> bool" where
  "psm_IsNameAlreadyUsed io name namespace d =
     (case psm_withRLock io (\<lambda>st. Inr (range_find (\<lambda>_ p. pd_Name p = name \<and> pd_Namespace p = namespace)
         (ps_Pods st) \<noteq> None)) d of Inr b \<Rightarrow> b | Inl _ \<Rightarrow> False)"

definition psm_GetPodIdByName :: "io_env \<Rightarrow> string \<Rightarrow> string \<Rightarrow> pod_doc disk \<Rightarrow> string res" where
  "psm_GetPodIdByName io name namespace = psm_withRLock io (\<lambda>st.
     case range_find (\<lambda>_ p. pd_Name p = name \<and> pd_Namespace p = namespace) (ps_Pods st) of
       Some (_, p) \<Rightarrow> Inr (pd_PodId p)
     | None \<Rightarrow> Inl (Msg (''pod: '' @ namespace @ ''/'' @ name @ '' not found'')))"

definition psm_ResolvePodId :: "io_env \<Rightarrow> io_env \<Rightarrow> string \<Rightarrow> string \<Rightarrow> pod_doc disk \<Rightarrow> string res" where
  "psm_ResolvePodId io1 io2 s namespace d =
     (let byId = (case psm_GetPodById io2 s d of Inl e \<Rightarrow> Inl e | Inr _ \<Rightarrow> Inr s) in
      if namespace \<noteq> [] then (case psm_GetPodIdByName io1 s namespace d of Inr i \<Rightarrow> Inr i | Inl _ \<Rightarrow> byId)
      else byId)"

definition psm_IsPodExist :: "io_env \<Rightarrow> string \<Rightarrow> pod_doc disk \<Rightarrow> bool" where
  "psm_IsPodExist io pid d = is_ok (psm_GetPodById io pid d)"

definition no_namespaces :: "PodInfo \<Rightarrow> bool" where
  "no_namespaces p \<longleftrightarrow> pd_UserNS p = [] \<and> pd_NetworkNS p = [] \<and> pd_IPCNS p = [] \<and> pd_UTSNS p = []"

definition psm_IsPodOwner :: "io_env \<Rightarrow> string \<Rightarrow> pod_doc disk \<Rightarrow> bool" where
  "psm_IsPodOwner io pid d =
     (if pid = [] then False
      else (case psm_withRLock io (\<lambda>st. map_sum id no_namespaces
              (lookup_entry (''pod: '' @ pid @ '' not found'') pid (ps_Pods st))) d of
              Inr b \<Rightarrow> b | Inl _ \<Rightarrow> False))"

definition psm_GetPodOwnerPid :: "io_env \<Rightarrow> string \<Rightarrow> pod_doc disk \<Rightarrow> int res" where
  "psm_GetPodOwnerPid io pid = psm_withRLock io (\<lambda>st. map_sum id pd_OwnerPid
     (lookup_entry (''pod: '' @ pid @ '' not found'') pid (ps_Pods st)))"

section \<open>Pod templates\<close>

definition psm_StorePodTemplate ::
  "io_env \<Rightarrow> time \<Rightarrow> string \<Rightarrow> PodTemplateSpec \<Rightarrow> pod_doc disk \<Rightarrow> unit res \<times> pod_doc disk" where
  "psm_StorePodTemplate io now tid spec = psm_withLock io (\<lambda>st. Inr (st\<lparr>ps_PodTemplates :=
     map_set tid \<lparr>ti_TemplateId = tid, ti_Spec = spec, ti_CreatedAt = now\<rparr> (ps_PodTemplates st)\<rparr>, ()))"

definition psm_GetPodTemplate :: "io_env \<Rightarrow> string \<Rightarrow> pod_doc disk \<Rightarrow> PodTemplateInfo res" where
  "psm_GetPodTemplate io tid = psm_withRLock io (\<lambda>st.
     lookup_entry (''podTemplateId='' @ tid @ '' not found'') tid (ps_PodTemplates st))"

definition psm_GetPodTemplateList :: "io_env \<Rightarrow> pod_doc disk \<Rightarrow> PodTemplateInfo list res" where
  "psm_GetPodTemplateList io = psm_withRLock io (\<lambda>st. Inr (map snd (ps_PodTemplates st)))"

text \<open>The loop of \<open>AddContainerToPodTemplate\<close>: replace the first container of that name, else append.\<close>

fun replace_container :: "ContainerTemplateSpec \<Rightarrow> ContainerTemplateSpec list \<Rightarrow> ContainerTemplateSpec list option" where
  "replace_container spec [] = None"
| "replace_container spec (c # cs) =
     (if ct_Name c = ct_Name spec \<and> ct_Name spec \<noteq> [] then Some (spec # cs)
      else map_option ((#) c) (replace_container spec cs))"

definition put_container :: "ContainerTemplateSpec \<Rightarrow> ContainerTemplateSpec list \<Rightarrow> ContainerTemplateSpec list" where
  "put_container spec cs = (case replace_container spec cs of Some cs' \<Rightarrow> cs' | None \<Rightarrow> cs @ [spec])"

definition psm_AddContainerToPodTemplate ::
  "io_env \<Rightarrow> string \<Rightarrow> ContainerTemplateSpec \<Rightarrow> pod_doc disk \<Rightarrow> unit res \<times> pod_doc disk" where
  "psm_AddContainerToPodTemplate io pid spec = psm_withLock io (\<lambda>st.
     case map_of (ps_Pods st) pid of
       None \<Rightarrow> Inl (Msg (''podId='' @ pid @ '' not found''))
     | Some pod \<Rightarrow>
         if pd_TemplateId pod = [] then Inl (Msg (''podId='' @ pid @ '' has no templateId''))
         else put_back (\<lambda>m. st\<lparr>ps_PodTemplates := m\<rparr>)
           (update_entry (''podTemplateId='' @ pd_TemplateId pod @ '' not found'') (pd_TemplateId pod)
             (\<lambda>t. t\<lparr>ti_Spec := (ti_Spec t)\<lparr>pt_Containers := put_container spec (pt_Containers (ti_Spec t))\<rparr>\<rparr>)
             (ps_PodTemplates st)))"

definition psm_RemovePodTemplate :: "io_env \<Rightarrow> string \<Rightarrow> pod_doc disk \<Rightarrow> unit res \<times> pod_doc disk" where
  "psm_RemovePodTemplate io tid = psm_withLock io (\<lambda>st. put_back (\<lambda>m. st\<lparr>ps_PodTemplates := m\<rparr>)
     (remove_entry (''podTemplateId='' @ tid @ '' not found'') tid (ps_PodTemplates st)))"

definition psm_IsTemplateReferenced :: "io_env \<Rightarrow> string \<Rightarrow> pod_doc disk \<Rightarrow> bool res" where
  "psm_IsTemplateReferenced io tid = psm_withRLock io (\<lambda>st.
     Inr (range_find (\<lambda>_ r. rs_TemplateId (ri_Spec r) = tid) (ps_ReplicaSets st) \<noteq> None \<or>
          range_find (\<lambda>_ y. dy_TemplateId (di_Spec y) = tid) (ps_Deployments st) \<noteq> None))"

section \<open>Replica sets\<close>

definition psm_StoreReplicaSet ::
  "io_env \<Rightarrow> time \<Rightarrow> string \<Rightarrow> ReplicaSetSpec \<Rightarrow> pod_doc disk \<Rightarrow> unit res \<times> pod_doc disk" where
  "psm_StoreReplicaSet io now rid spec = psm_withLock io (\<lambda>st. Inr (st\<lparr>ps_ReplicaSets := map_set rid
     \<lparr>ri_ReplicaSetId = rid, ri_Spec = spec, ri_CreatedAt = now, ri_ReconcileAttempt = 0,
      ri_LastReconcileError = [], ri_NextReconcileAt = zero_time\<rparr> (ps_ReplicaSets st)\<rparr>, ()))"

definition psm_GetReplicaSet :: "io_env \<Rightarrow> string \<Rightarrow> pod_doc disk \<Rightarrow> ReplicaSetInfo res" where
  "psm_GetReplicaSet io rid = psm_withRLock io (\<lambda>st.
     lookup_entry (''replicaSetId='' @ rid @ '' not found'') rid (ps_ReplicaSets st))"

definition psm_GetReplicaSetList :: "io_env \<Rightarrow> pod_doc disk \<Rightarrow> ReplicaSetInfo list res" where
  "psm_GetReplicaSetList io = psm_withRLock io (\<lambda>st. Inr (map snd (ps_ReplicaSets st)))"

text \<open>The existence check comes first, then the check of the replica count, then the change.\<close>

definition psm_update_rs :: "io_env \<Rightarrow> string \<Rightarrow> int \<Rightarrow> (ReplicaSetInfo \<Rightarrow> ReplicaSetInfo) \<Rightarrow>
    pod_doc disk \<Rightarrow> unit res \<times> pod_doc disk" where
  "psm_update_rs io rid replicas f = psm_withLock io (\<lambda>st.
     case map_of (ps_ReplicaSets st) rid of
       None \<Rightarrow> Inl (Msg (''replicaSetId='' @ rid @ '' not found''))
     | Some r \<Rightarrow> if replicas < 0 then Inl (Msg ''replicas must be >= 0'')
                 else Inr (st\<lparr>ps_ReplicaSets := map_set rid (f r) (ps_ReplicaSets st)\<rparr>, ()))"

definition psm_UpdateReplicaSetReplicas :: "io_env \<Rightarrow> string \<Rightarrow> int \<Rightarrow> pod_doc disk \<Rightarrow> unit res \<times> pod_doc disk" where
  "psm_UpdateReplicaSetReplicas io rid replicas = psm_update_rs io rid replicas
     (\<lambda>r. r\<lparr>ri_Spec := (ri_Spec r)\<lparr>rs_Replicas := replicas\<rparr>\<rparr>)"

definition psm_UpdateReplicaSetSpec :: "io_env \<Rightarrow> string \<Rightarrow> ReplicaSetSpec \<Rightarrow> pod_doc disk \<Rightarrow> unit res \<times> pod_doc disk" where
  "psm_UpdateReplicaSetSpec io rid spec = psm_update_rs io rid (rs_Replicas spec)
     (\<lambda>r. r\<lparr>ri_Spec := spec, ri_ReconcileAttempt := 0, ri_LastReconcileError := [], ri_NextReconcileAt := zero_time\<rparr>)"

definition psm_UpdateReplicaSetReconcileStatus ::
  "io_env \<Rightarrow> string \<Rightarrow> int \<Rightarrow> string \<Rightarrow> time \<Rightarrow> pod_doc disk \<Rightarrow> unit res \<times> pod_doc disk" where
  "psm_UpdateReplicaSetReconcileStatus io rid attempt lastError next = psm_withLock io (\<lambda>st.
     put_back (\<lambda>m. st\<lparr>ps_ReplicaSets := m\<rparr>) (update_entry (''replicaSetId='' @ rid @ '' not found'') rid
       (\<lambda>r. r\<lparr>ri_ReconcileAttempt := attempt, ri_LastReconcileError := lastError, ri_NextReconcileAt := next\<rparr>)
       (ps_ReplicaSets st)))"

definition psm_ClearReplicaSetReconcileStatus :: "io_env \<Rightarrow> string \<Rightarrow> pod_doc disk \<Rightarrow> unit res \<times> pod_doc disk" where
  "psm_ClearReplicaSetReconcileStatus io rid = psm_withLock io (\<lambda>st.
     put_back (\<lambda>m. st\<lparr>ps_ReplicaSets := m\<rparr>) (update_entry (''replicaSetId='' @ rid @ '' not found'') rid
       (\<lambda>r. r\<lparr>ri_ReconcileAttempt := 0, ri_LastReconcileError := [], ri_NextReconcileAt := zero_time\<rparr>)
       (ps_ReplicaSets st)))"

definition psm_RemoveReplicaSet :: "io_env \<Rightarrow> string \<Rightarrow> pod_doc disk \<Rightarrow> unit res \<times> pod_doc disk" where
  "psm_RemoveReplicaSet io rid = psm_withLock io (\<lambda>st. put_back (\<lambda>m. st\<lparr>ps_ReplicaSets := m\<rparr>)
     (remove_entry (''replicaSetId='' @ rid @ '' not found'') rid (ps_ReplicaSets st)))"

section \<open>Deployments\<close>

definition psm_StoreDeployment ::
  "io_env \<Rightarrow> time \<Rightarrow> string \<Rightarrow> DeploymentSpec \<Rightarrow> pod_doc disk \<Rightarrow> unit res \<times> pod_doc disk" where
  "psm_StoreDeployment io now did spec = psm_withLock io (\<lambda>st. Inr (st\<lparr>ps_Deployments := map_set did
     \<lparr>di_DeploymentId = did, di_Spec = spec, di_CreatedAt = now, di_UpdatedAt = now\<rparr> (ps_Deployments st)\<rparr>, ()))"

definition psm_GetDeployment :: "io_env \<Rightarrow> string \<Rightarrow> pod_doc disk \<Rightarrow> DeploymentInfo res" where
  "psm_GetDeployment io did = psm_withRLock io (\<lambda>st.
     lookup_entry (''deploymentId='' @ did @ '' not found'') did (ps_Deployments st))"

definition psm_GetDeploymentList :: "io_env \<Rightarrow> pod_doc disk \<Rightarrow> DeploymentInfo list res" where
  "psm_GetDeploymentList io = psm_withRLock io (\<lambda>st. Inr (map snd (ps_Deployments st)))"

definition psm_update_deploy :: "io_env \<Rightarrow> string \<Rightarrow> int \<Rightarrow> (DeploymentInfo \<Rightarrow> DeploymentInfo) \<Rightarrow>
    pod_doc disk \<Rightarrow> unit res \<times> pod_doc disk" where
  "psm_update_deploy io did replicas f = psm_withLock io (\<lambda>st.
     case map_of (ps_Deployments st) did of
       None \<Rightarrow> Inl (Msg (''deploymentId='' @ did @ '' not found''))
     | Some y \<Rightarrow> if replicas < 0 then Inl (Msg ''replicas must be >= 0'')
                 else Inr (st\<lparr>ps_Deployments := map_set did (f y) (ps_Deployments st)\<rparr>, ()))"

definition psm_UpdateDeploymentReplicas :: "io_env \<Rightarrow> time \<Rightarrow> string \<Rightarrow> int \<Rightarrow> pod_doc disk \<Rightarrow> unit res \<times> pod_doc disk" where
  "psm_UpdateDeploymentReplicas io now did replicas = psm_update_deploy io did replicas
     (\<lambda>y. y\<lparr>di_Spec := (di_Spec y)\<lparr>dy_Replicas := replicas\<rparr>, di_UpdatedAt := now\<rparr>)"

definition psm_UpdateDeploymentSpec ::
  "io_env \<Rightarrow> time \<Rightarrow> string \<Rightarrow> DeploymentSpec \<Rightarrow> pod_doc disk \<Rightarrow> unit res \<times> pod_doc disk" where
  "psm_UpdateDeploymentSpec io now did spec = psm_update_deploy io did (dy_Replicas spec)
     (\<lambda>y. y\<lparr>di_Spec := spec, di_UpdatedAt := now\<rparr>)"

definition psm_UpdateDeploymentReplicaSet ::
  "io_env \<Rightarrow> time \<Rightarrow> string \<Rightarrow> string \<Rightarrow> pod_doc disk \<Rightarrow> unit res \<times> pod_doc disk" where
  "psm_UpdateDeploymentReplicaSet io now did rid = psm_withLock io (\<lambda>st.
     put_back (\<lambda>m. st\<lparr>ps_Deployments := m\<rparr>) (update_entry (''deploymentId='' @ did @ '' not found'') did
       (\<lambda>y. y\<lparr>di_Spec := (di_Spec y)\<lparr>dy_ReplicaSetId := rid\<rparr>, di_UpdatedAt := now\<rparr>) (ps_Deployments st)))"

definition psm_RemoveDeployment :: "io_env \<Rightarrow> string \<Rightarrow> pod_doc disk \<Rightarrow> unit res \<times> pod_doc disk" where
  "psm_RemoveDeployment io did = psm_withLock io (\<lambda>st. put_back (\<lambda>m. st\<lparr>ps_Deployments := m\<rparr>)
     (remove_entry (''deploymentId='' @ did @ '' not found'') did (ps_Deployments st)))"

section \<open>Invariant: every object is filed under its own identifier\<close>

definition psm_inv :: "PodState \<Rightarrow> bool" where
  "psm_inv st \<longleftrightarrow> keyed_by pd_PodId (ps_Pods st) \<and> keyed_by ti_TemplateId (ps_PodTemplates st) \<and>
     keyed_by ri_ReplicaSetId (ps_ReplicaSets st) \<and> keyed_by di_DeploymentId (ps_Deployments st)"

interpretation psm: plain_store "''pod state json broken''" psm_init psm_complete psm_marshal psm_inv
  by unfold_locales (simp_all add: psm_init_def psm_complete_def psm_marshal_def psm_inv_def)

lemmas psm_unfold [store_simps] = psm_withLock_def psm_withRLock_def psm_atomicSave_def psm_loadOrInit_def

abbreviation psm_disk_inv :: "pod_doc disk \<Rightarrow> bool" where
  "psm_disk_inv \<equiv> disk_inv (\<lambda>r. psm_inv (psm_complete r))"

lemma psm_withLock_inv:
  assumes "psm_disk_inv d" and "\<And>st st' a. psm_inv st \<Longrightarrow> fn st = Inr (st', a) \<Longrightarrow> psm_inv st'"
  shows "psm_disk_inv (snd (psm_withLock io fn d))"
  using psm.withLock_inv [OF assms(1), of fn io] assms(2) by (simp add: store_simps)

inductive psm_reachable :: "pod_doc disk \<Rightarrow> bool" where
  start: "psm_reachable empty_disk"
| crash: "psm_reachable d \<Longrightarrow> psm_reachable (d\<lparr>tmp_file := t\<rparr>)"
| SetPodState: "psm_reachable d \<Longrightarrow> psm_reachable (snd (psm_SetPodState io d))"
| StorePod: "psm_reachable d \<Longrightarrow> psm_reachable (snd (psm_StorePod io now q d))"
| RemovePod: "psm_reachable d \<Longrightarrow> psm_reachable (snd (psm_RemovePod io pid d))"
| UpdatePod: "psm_reachable d \<Longrightarrow> psm_reachable (snd (psm_UpdatePod io now pid state d))"
| UpdatePodOwner: "psm_reachable d \<Longrightarrow> psm_reachable (snd (psm_UpdatePodOwner io pid kind oid d))"
| UpdatePodStoppedByUser: "psm_reachable d \<Longrightarrow> psm_reachable (snd (psm_UpdatePodStoppedByUser io pid stopped d))"
| UpdatePodNamespaces: "psm_reachable d \<Longrightarrow>
    psm_reachable (snd (psm_UpdatePodNamespaces io owner pid net ipc uts user d))"
| ResetPodNamespaces: "psm_reachable d \<Longrightarrow> psm_reachable (snd (psm_ResetPodNamespaces io pid d))"
| StorePodTemplate: "psm_reachable d \<Longrightarrow> psm_reachable (snd (psm_StorePodTemplate io now tid tspec d))"
| AddContainer: "psm_reachable d \<Longrightarrow> psm_reachable (snd (psm_AddContainerToPodTemplate io pid cspec d))"
| RemovePodTemplate: "psm_reachable d \<Longrightarrow> psm_reachable (snd (psm_RemovePodTemplate io tid d))"
| StoreReplicaSet: "psm_reachable d \<Longrightarrow> psm_reachable (snd (psm_StoreReplicaSet io now rid rspec d))"
| UpdateReplicaSetReplicas: "psm_reachable d \<Longrightarrow> psm_reachable (snd (psm_UpdateReplicaSetReplicas io rid n d))"
| UpdateReplicaSetSpec: "psm_reachable d \<Longrightarrow> psm_reachable (snd (psm_UpdateReplicaSetSpec io rid rspec d))"
| UpdateReplicaSetReconcileStatus: "psm_reachable d \<Longrightarrow>
    psm_reachable (snd (psm_UpdateReplicaSetReconcileStatus io rid attempt lastError nxt d))"
| ClearReplicaSetReconcileStatus: "psm_reachable d \<Longrightarrow>
    psm_reachable (snd (psm_ClearReplicaSetReconcileStatus io rid d))"
| RemoveReplicaSet: "psm_reachable d \<Longrightarrow> psm_reachable (snd (psm_RemoveReplicaSet io rid d))"
| StoreDeployment: "psm_reachable d \<Longrightarrow> psm_reachable (snd (psm_StoreDeployment io now did dspec d))"
| UpdateDeploymentReplicas: "psm_reachable d \<Longrightarrow> psm_reachable (snd (psm_UpdateDeploymentReplicas io now did n d))"
| UpdateDeploymentSpec: "psm_reachable d \<Longrightarrow> psm_reachable (snd (psm_UpdateDeploymentSpec io now did dspec d))"
| UpdateDeploymentReplicaSet: "psm_reachable d \<Longrightarrow>
    psm_reachable (snd (psm_UpdateDeploymentReplicaSet io now did rid d))"
| RemoveDeployment: "psm_reachable d \<Longrightarrow> psm_reachable (snd (psm_RemoveDeployment io did d))"

lemma psm_update_pod_inv:
  assumes "psm_disk_inv d" and "\<And>p. pd_PodId (f p) = pd_PodId p"
  shows "psm_disk_inv (snd (psm_update_pod io pid f d))"
  unfolding psm_update_pod_def using assms
  by (intro psm_withLock_inv) (auto simp: psm_inv_def intro: keyed_by_update_entry)

lemma psm_update_rs_inv:
  assumes "psm_disk_inv d" and f: "\<And>r. ri_ReplicaSetId (f r) = ri_ReplicaSetId r"
  shows "psm_disk_inv (snd (psm_update_rs io rid n f d))"
  unfolding psm_update_rs_def
proof (rule psm_withLock_inv [OF assms(1)])
  fix st st' :: PodState and a :: unit
  assume inv: "psm_inv st" and eq: "(case map_of (ps_ReplicaSets st) rid of
       None \<Rightarrow> Inl (Msg (''replicaSetId='' @ rid @ '' not found''))
     | Some r \<Rightarrow> if n < 0 then Inl (Msg ''replicas must be >= 0'')
                 else Inr (st\<lparr>ps_ReplicaSets := map_set rid (f r) (ps_ReplicaSets st)\<rparr>, ())) = Inr (st', a)"
  then obtain r where r: "map_of (ps_ReplicaSets st) rid = Some r"
    "st' = st\<lparr>ps_ReplicaSets := map_set rid (f r) (ps_ReplicaSets st)\<rparr>"
    by (auto split: option.splits if_splits)
  have "ri_ReplicaSetId (f r) = rid" using inv r(1) f by (metis psm_inv_def keyed_by_lookup)
  with inv r(2) show "psm_inv st'" by (auto simp: psm_inv_def intro!: keyed_by_set)
qed

lemma psm_update_deploy_inv:
  assumes "psm_disk_inv d" and f: "\<And>y. di_DeploymentId (f y) = di_DeploymentId y"
  shows "psm_disk_inv (snd (psm_update_deploy io did n f d))"
  unfolding psm_update_deploy_def
proof (rule psm_withLock_inv [OF assms(1)])
  fix st st' :: PodState and a :: unit
  assume inv: "psm_inv st" and eq: "(case map_of (ps_Deployments st) did of
       None \<Rightarrow> Inl (Msg (''deploymentId='' @ did @ '' not found''))
     | Some y \<Rightarrow> if n < 0 then Inl (Msg ''replicas must be >= 0'')
                 else Inr (st\<lparr>ps_Deployments := map_set did (f y) (ps_Deployments st)\<rparr>, ())) = Inr (st', a)"
  then obtain y where y: "map_of (ps_Deployments st) did = Some y"
    "st' = st\<lparr>ps_Deployments := map_set did (f y) (ps_Deployments st)\<rparr>"
    by (auto split: option.splits if_splits)
  have "di_DeploymentId (f y) = did" using inv y(1) f by (metis psm_inv_def keyed_by_lookup)
  with inv y(2) show "psm_inv st'" by (auto simp: psm_inv_def intro!: keyed_by_set)
qed

lemmas psm_pod_ops = psm_SetPodState_def psm_StorePod_def psm_RemovePod_def psm_UpdatePod_def psm_UpdatePodOwner_def
  psm_UpdatePodStoppedByUser_def psm_UpdatePodNamespaces_def psm_ResetPodNamespaces_def

lemmas psm_rs_ops = psm_StoreReplicaSet_def psm_UpdateReplicaSetReplicas_def psm_UpdateReplicaSetSpec_def
  psm_UpdateReplicaSetReconcileStatus_def psm_ClearReplicaSetReconcileStatus_def psm_RemoveReplicaSet_def

lemmas psm_deploy_ops = psm_StoreDeployment_def psm_UpdateDeploymentReplicas_def psm_UpdateDeploymentSpec_def
  psm_UpdateDeploymentReplicaSet_def psm_RemoveDeployment_def

lemma psm_pod_ops_inv [inv_intros]:
  assumes "psm_disk_inv d"
  shows "psm_disk_inv (snd (psm_SetPodState io d))"
    "psm_disk_inv (snd (psm_StorePod io now q d))"
    "psm_disk_inv (snd (psm_RemovePod io pid d))"
    "psm_disk_inv (snd (psm_UpdatePod io now pid state d))"
    "psm_disk_inv (snd (psm_UpdatePodOwner io pid kind oid d))"
    "psm_disk_inv (snd (psm_UpdatePodStoppedByUser io pid stopped d))"
    "psm_disk_inv (snd (psm_UpdatePodNamespaces io owner pid net ipc uts user d))"
    "psm_disk_inv (snd (psm_ResetPodNamespaces io pid d))"
  unfolding psm_pod_ops using assms
  by - (rule psm_withLock_inv psm_update_pod_inv, assumption,
      (auto simp: psm_inv_def new_pod_def Let_def join_namespaces_def leave_namespaces_def
         intro!: keyed_by_set intro: keyed_by_remove_entry)[1])+

lemma psm_template_ops_inv [inv_intros]:
  assumes "psm_disk_inv d"
  shows "psm_disk_inv (snd (psm_StorePodTemplate io now tid tspec d))"
    "psm_disk_inv (snd (psm_AddContainerToPodTemplate io pid cspec d))"
    "psm_disk_inv (snd (psm_RemovePodTemplate io tid d))"
  unfolding psm_StorePodTemplate_def psm_AddContainerToPodTemplate_def psm_RemovePodTemplate_def using assms
  by - (rule psm_withLock_inv, assumption,
      (auto simp: psm_inv_def intro!: keyed_by_set intro: keyed_by_update_entry keyed_by_remove_entry split: option.splits if_splits)[1])+

lemma psm_rs_ops_inv [inv_intros]:
  assumes "psm_disk_inv d"
  shows "psm_disk_inv (snd (psm_StoreReplicaSet io now rid rspec d))"
    "psm_disk_inv (snd (psm_UpdateReplicaSetReplicas io rid n d))"
    "psm_disk_inv (snd (psm_UpdateReplicaSetSpec io rid rspec d))"
    "psm_disk_inv (snd (psm_UpdateReplicaSetReconcileStatus io rid attempt lastError nxt d))"
    "psm_disk_inv (snd (psm_ClearReplicaSetReconcileStatus io rid d))"
    "psm_disk_inv (snd (psm_RemoveReplicaSet io rid d))"
  unfolding psm_rs_ops using assms
  by - (rule psm_withLock_inv psm_update_rs_inv, assumption,
      (auto simp: psm_inv_def intro!: keyed_by_set intro: keyed_by_update_entry keyed_by_remove_entry)[1])+

lemma psm_deploy_ops_inv [inv_intros]:
  assumes "psm_disk_inv d"
  shows "psm_disk_inv (snd (psm_StoreDeployment io now did dspec d))"
    "psm_disk_inv (snd (psm_UpdateDeploymentReplicas io now did n d))"
    "psm_disk_inv (snd (psm_UpdateDeploymentSpec io now did dspec d))"
    "psm_disk_inv (snd (psm_UpdateDeploymentReplicaSet io now did rid d))"
    "psm_disk_inv (snd (psm_RemoveDeployment io did d))"
  unfolding psm_deploy_ops using assms
  by - (rule psm_withLock_inv psm_update_deploy_inv, assumption,
      (auto simp: psm_inv_def intro!: keyed_by_set intro: keyed_by_update_entry keyed_by_remove_entry)[1])+

lemma psm_reachable_inv: "psm_reachable d \<Longrightarrow> psm_disk_inv d"
  by (induction rule: psm_reachable.induct) (simp_all add: inv_intros)

section \<open>What the queries see\<close>

lemma psm_load:
  assumes "psm_reachable d"
  shows "\<exists>st. psm_loadOrInit (read_file io_ok d) = Inr st \<and> psm_inv st"
  unfolding psm_loadOrInit_def by (rule psm.load_total [OF psm_reachable_inv [OF assms]])

lemma psm_RLock_ok:
  assumes "psm_loadOrInit (read_file io_ok d) = Inr st"
  shows "psm_withRLock io_ok fn d = fn st"
  using assms by (simp add: psm_withRLock_def withRLock_io_ok)

lemma psm_get_pod:
  assumes "psm_loadOrInit (read_file io_ok d) = Inr st"
  shows "psm_GetPodById io_ok pid d = lookup_entry (''pod: '' @ pid @ '' not found'') pid (ps_Pods st)"
  using psm_RLock_ok [OF assms] by (simp add: psm_GetPodById_def)

lemma psm_update_pod_ok:
  assumes d: "psm_reachable d" and p: "psm_GetPodById io_ok pid d = Inr p"
    and f: "\<And>p. pd_PodId (f p) = pd_PodId p"
  shows "\<exists>d'. psm_update_pod io_ok pid f d = (Inr (), d') \<and>
     (\<forall>i. psm_GetPodById io_ok i d' = (if i = pid then Inr (f p) else psm_GetPodById io_ok i d))"
proof -
  obtain st where st: "psm_loadOrInit (read_file io_ok d) = Inr st" "psm_inv st"
    using psm_load [OF d] by blast
  have m: "map_of (ps_Pods st) pid = Some p"
    using p psm_get_pod [OF st(1)] by (auto simp: lookup_entry_def split: option.splits)
  let ?st' = "st\<lparr>ps_Pods := map_set pid (f p) (ps_Pods st)\<rparr>"
  have "pd_PodId (f p) = pid" using st(2) m f by (metis psm_inv_def keyed_by_lookup)
  then have inv: "psm_inv ?st'" using st(2) by (auto simp: psm_inv_def intro!: keyed_by_set)
  obtain d' where d': "psm_update_pod io_ok pid f d = (Inr (), d')" "psm_loadOrInit (read_file io_ok d') = Inr ?st'"
    unfolding psm_update_pod_def psm_unfold using st(1) [unfolded psm_loadOrInit_def] m inv
    by (simp add: withLock_io_ok put_back_def update_entry_def psm.load_after_save)
  then show ?thesis by (auto simp: psm_get_pod [OF d'(2)] psm_get_pod [OF st(1)] lookup_entry_def)
qed

lemma psm_owner_iff:
  assumes "psm_reachable d"
  shows "psm_IsPodOwner io_ok pid d \<longleftrightarrow> pid \<noteq> [] \<and> (\<exists>p. psm_GetPodById io_ok pid d = Inr p \<and> no_namespaces p)"
proof -
  obtain st where st: "psm_loadOrInit (read_file io_ok d) = Inr st" using psm_load [OF assms] by blast
  show ?thesis
    by (cases "map_of (ps_Pods st) pid")
      (simp_all add: psm_IsPodOwner_def psm_RLock_ok [OF st] psm_get_pod [OF st] lookup_entry_def)
qed

section \<open>Container templates\<close>

lemma replace_container_None:
  "replace_container spec cs = None \<longleftrightarrow> ct_Name spec = [] \<or> ct_Name spec \<notin> ct_Name ` set cs"
  by (induction cs) auto

lemma replace_container_Some:
  assumes "replace_container spec cs = Some cs'"
  shows "\<exists>xs c ys. cs = xs @ c # ys \<and> cs' = xs @ spec # ys \<and> ct_Name c = ct_Name spec \<and> ct_Name spec \<notin> ct_Name ` set xs"
  using assms
proof (induction cs arbitrary: cs')
  case (Cons c cs)
  show ?case
  proof (cases "ct_Name c = ct_Name spec \<and> ct_Name spec \<noteq> []")
    case True
    with Cons.prems show ?thesis by (intro exI [of _ "[]"]) auto
  next
    case False
    with Cons.prems obtain cs1 where c1: "replace_container spec cs = Some cs1" "cs' = c # cs1"
      by (auto split: if_splits)
    from Cons.IH [OF c1(1)] obtain xs b ys where
      "cs = xs @ b # ys" "cs1 = xs @ spec # ys" "ct_Name b = ct_Name spec" "ct_Name spec \<notin> ct_Name ` set xs" by blast
    moreover have "ct_Name c \<noteq> ct_Name spec"
      using False c1(1) replace_container_None [of spec cs] by auto
    ultimately show ?thesis using c1(2) by (intro exI [of _ "c # xs"]) auto
  qed
qed simp

section \<open>Properties of the pod store\<close>

text \<open>
  Property C22. In every history, crashes included, the pod document can be read, and a pod, template,
  replica set or deployment found under an identifier is the one with that identifier.
\<close>

theorem psm_lookup_identity:
  assumes "psm_reachable d"
  shows "(\<exists>l. psm_GetPodList io_ok d = Inr l \<and> (\<forall>p. p \<in> set l \<longleftrightarrow> psm_GetPodById io_ok (pd_PodId p) d = Inr p)) \<and>
     (\<forall>i p. psm_GetPodById io_ok i d = Inr p \<longrightarrow> pd_PodId p = i) \<and>
     (\<forall>i t. psm_GetPodTemplate io_ok i d = Inr t \<longrightarrow> ti_TemplateId t = i) \<and>
     (\<forall>i r. psm_GetReplicaSet io_ok i d = Inr r \<longrightarrow> ri_ReplicaSetId r = i) \<and>
     (\<forall>i y. psm_GetDeployment io_ok i d = Inr y \<longrightarrow> di_DeploymentId y = i)"
proof -
  obtain st where st: "psm_loadOrInit (read_file io_ok d) = Inr st" "psm_inv st"
    using psm_load [OF assms] by blast
  have "\<exists>l. psm_GetPodList io_ok d = Inr l \<and> (\<forall>p. p \<in> set l \<longleftrightarrow> psm_GetPodById io_ok (pd_PodId p) d = Inr p)"
    using keyed_by_values [of pd_PodId "ps_Pods st"] st(2)
    by (auto simp: psm_GetPodList_def psm_GetPodById_def psm_RLock_ok [OF st(1)] lookup_entry_def psm_inv_def
        split: option.splits)
  moreover have "pd_PodId p = i" if "psm_GetPodById io_ok i d = Inr p" for i p
    by (rule keyed_by_lookup_entry [OF _ that [unfolded psm_GetPodById_def psm_RLock_ok [OF st(1)]]]) (use st(2) in \<open>simp add: psm_inv_def\<close>)
  moreover have "ti_TemplateId t = i" if "psm_GetPodTemplate io_ok i d = Inr t" for i t
    by (rule keyed_by_lookup_entry [OF _ that [unfolded psm_GetPodTemplate_def psm_RLock_ok [OF st(1)]]]) (use st(2) in \<open>simp add: psm_inv_def\<close>)
  moreover have "ri_ReplicaSetId r = i" if "psm_GetReplicaSet io_ok i d = Inr r" for i r
    by (rule keyed_by_lookup_entry [OF _ that [unfolded psm_GetReplicaSet_def psm_RLock_ok [OF st(1)]]]) (use st(2) in \<open>simp add: psm_inv_def\<close>)
  moreover have "di_DeploymentId y = i" if "psm_GetDeployment io_ok i d = Inr y" for i y
    by (rule keyed_by_lookup_entry [OF _ that [unfolded psm_GetDeployment_def psm_RLock_ok [OF st(1)]]]) (use st(2) in \<open>simp add: psm_inv_def\<close>)
  ultimately show ?thesis by blast
qed

text \<open>
  Namespace paths of a pod are set once: \<open>UpdatePodNamespaces\<close> fills the paths that are
  still empty, keeps the others, changes no other pod, and the pod has an owner to be
  created (\<open>IsPodOwner\<close>) afterwards only if neither the pod nor the caller had a path.
\<close>

lemma psm_UpdatePodNamespaces_once:
  assumes "psm_reachable d" and "psm_GetPodById io_ok pid d = Inr p"
  shows "\<exists>d' p'. psm_UpdatePodNamespaces io_ok owner pid net ipc uts user d = (Inr (), d') \<and>
     (\<forall>i. psm_GetPodById io_ok i d' = (if i = pid then Inr p' else psm_GetPodById io_ok i d)) \<and>
     pd_OwnerPid p' = owner \<and>
     (pd_NetworkNS p \<noteq> [] \<longrightarrow> pd_NetworkNS p' = pd_NetworkNS p) \<and> (pd_NetworkNS p = [] \<longrightarrow> pd_NetworkNS p' = net) \<and>
     (pd_UserNS p \<noteq> [] \<longrightarrow> pd_UserNS p' = pd_UserNS p) \<and> (pd_UserNS p = [] \<longrightarrow> pd_UserNS p' = user) \<and>
     (psm_IsPodOwner io_ok pid d' \<longleftrightarrow>
        psm_IsPodOwner io_ok pid d \<and> net = [] \<and> ipc = [] \<and> uts = [] \<and> user = [])"
proof -
  let ?f = "join_namespaces owner net ipc uts user"
  obtain d' where d': "psm_update_pod io_ok pid ?f d = (Inr (), d')"
    "\<forall>i. psm_GetPodById io_ok i d' = (if i = pid then Inr (?f p) else psm_GetPodById io_ok i d)"
    using psm_update_pod_ok [OF assms, of ?f] by (auto simp: join_namespaces_def)
  have "psm_reachable d'"
    using psm_reachable.UpdatePodNamespaces [OF assms(1), of io_ok owner pid net ipc uts user] d'(1)
    by (simp add: psm_UpdatePodNamespaces_def)
  then have "psm_IsPodOwner io_ok pid d' \<longleftrightarrow>
        psm_IsPodOwner io_ok pid d \<and> net = [] \<and> ipc = [] \<and> uts = [] \<and> user = []"
    using d'(2) assms by (auto simp: psm_owner_iff no_namespaces_def join_namespaces_def set_once_def split: if_splits)
  with d' show ?thesis
    by (intro exI [of _ d'] exI [of _ "?f p"])
      (simp add: psm_UpdatePodNamespaces_def join_namespaces_def set_once_def)
qed

text \<open>
  \<open>ResetPodNamespaces\<close> makes the pod ownerless again, whatever it held before.
\<close>

lemma psm_ResetPodNamespaces_owner:
  assumes "psm_reachable d" and "psm_GetPodById io_ok pid d = Inr p" and "pid \<noteq> []"
  shows "\<exists>d'. psm_ResetPodNamespaces io_ok pid d = (Inr (), d') \<and> psm_IsPodOwner io_ok pid d' \<and>
     psm_GetPodOwnerPid io_ok pid d' = Inr 0"
proof -
  obtain d' where d': "psm_update_pod io_ok pid leave_namespaces d = (Inr (), d')"
    "\<forall>i. psm_GetPodById io_ok i d' = (if i = pid then Inr (leave_namespaces p) else psm_GetPodById io_ok i d)"
    using psm_update_pod_ok [OF assms(1,2), of leave_namespaces] by (auto simp: leave_namespaces_def)
  have r: "psm_reachable d'"
    using psm_reachable.ResetPodNamespaces [OF assms(1), of io_ok pid] d'(1) by (simp add: psm_ResetPodNamespaces_def)
  obtain st where st: "psm_loadOrInit (read_file io_ok d') = Inr st" using psm_load [OF r] by blast
  have "psm_GetPodOwnerPid io_ok pid d' = map_sum id pd_OwnerPid (psm_GetPodById io_ok pid d')"
    by (simp add: psm_GetPodOwnerPid_def psm_RLock_ok [OF st] psm_get_pod [OF st])
  with d' r assms(3) show ?thesis
    by (auto simp: psm_ResetPodNamespaces_def psm_owner_iff no_namespaces_def leave_namespaces_def)
qed

text \<open>
  Adding a container to a template keeps container names unique: the container of
  that name is replaced in place, all others are kept in order.
\<close>

lemma put_container_unique:
  assumes "distinct (map ct_Name cs)" and "ct_Name spec \<noteq> []"
  shows "distinct (map ct_Name (put_container spec cs)) \<and> spec \<in> set (put_container spec cs) \<and>
     filter (\<lambda>c. ct_Name c \<noteq> ct_Name spec) (put_container spec cs) = filter (\<lambda>c. ct_Name c \<noteq> ct_Name spec) cs"
proof (cases "replace_container spec cs")
  case None
  with assms replace_container_None [of spec cs] show ?thesis by (simp add: put_container_def)
next
  case (Some cs')
  from replace_container_Some [OF Some] obtain xs c ys where
    "cs = xs @ c # ys" "cs' = xs @ spec # ys" "ct_Name c = ct_Name spec" by blast
  with assms Some show ?thesis by (simp add: put_container_def)
qed

section \<open>Witnesses\<close>

definition ex_pod_request :: StorePodRequest where
  "ex_pod_request = \<lparr>pr_PodId = ''p1'', pr_TemplateId = ''t1'', pr_OwnerKind = [], pr_OwnerId = [],
     pr_Name = ''web'', pr_Namespace = ''default'', pr_UID = ''u1'', pr_State = ''created'', pr_NetworkNS = [],
     pr_IPCNS = [], pr_UTSNS = [], pr_UserNS = [], pr_Rootless = False, pr_Labels = None, pr_Annotations = None\<rparr>"

definition ex_psm :: "pod_doc disk" where
  "ex_psm = snd (psm_StorePod io_ok 5 ex_pod_request empty_disk)"

lemma ex_psm_reachable: "psm_reachable ex_psm"
  unfolding ex_psm_def by (intro psm_reachable.intros)

lemma ex_psm_get: "psm_GetPodById io_ok ''p1'' ex_psm = Inr (new_pod 5 ex_pod_request)"
  by code_simp

theorem psm_lookup_identity_witness:
  "psm_reachable ex_psm \<and> pd_PodId (new_pod 5 ex_pod_request) = ''p1''"
  using psm_lookup_identity [OF ex_psm_reachable] ex_psm_reachable ex_psm_get by blast

definition ex_container :: "string \<Rightarrow> string \<Rightarrow> ContainerTemplateSpec" where
  "ex_container name img = \<lparr>ct_Name = name, ct_Image = img, ct_Command = [], ct_Port = [], ct_Mount = [],
     ct_Env = [], ct_CapAdd = [], ct_CapDrop = [], ct_SecurityProfile = [], ct_Network = [], ct_Tty = False\<rparr>"

end
