(* ===== verification/Policy_Store.thy ===== *)
theory Policy_Store
  imports Store_Core
begin

text \<open>
  The firewall policy store \<open>store/npm\<close>: the default modes, the three user policy chains (east-west,
  north-south observe, north-south enforce) and the running copy a commit takes (\<open>Backup\<close>) and a
  rollback restores (\<open>Revert\<close>). Besides the document and its temporary file the store
  keeps \<open>path.running\<close> and, during a rollback, \<open>path.org\<close>.
\<close>

section \<open>Data\<close>

record HostInfo =
  ho_ContainerName :: string
  ho_DisplayName :: string
  ho_Address :: string

record Policy =
  pl_Id :: string
  pl_Status :: string
  pl_Reason :: string
  pl_Source :: HostInfo
  pl_Destination :: HostInfo
  pl_Protocol :: string
  pl_DestPort :: int
  pl_Comment :: string
  pl_ManagedBy :: string
  pl_OwnerKind :: string
  pl_OwnerNS :: string
  pl_OwnerName :: string
  pl_OwnerId :: string

record PolicyChain =
  ch_EastWestPolicy :: "Policy list"
  ch_NorthSouthObservePolicy :: "Policy list"
  ch_NorthSouthEnforcePolicy :: "Policy list"

record PolicyMode =
  pm_Mode :: string
  pm_Logging :: bool

record DefaultPolicy =
  dpo_EastWest :: PolicyMode
  dpo_NorthSouth :: PolicyMode

record NetworkPolicy =
  np_Version :: string
  np_DefaultRule :: DefaultPolicy
  np_Policies :: PolicyChain

record npm_files =
  nf_disk :: "NetworkPolicy disk"
  nf_running :: "NetworkPolicy content option"
  nf_org :: "NetworkPolicy content option"

definition empty_npm :: npm_files where
  "empty_npm = \<lparr>nf_disk = empty_disk, nf_running = None, nf_org = None\<rparr>"

section \<open>The store\<close>

definition npm_init :: NetworkPolicy where
  "npm_init = \<lparr>np_Version = ''v1'',
     np_DefaultRule = \<lparr>dpo_EastWest = \<lparr>pm_Mode = ''deny_by_default'', pm_Logging = True\<rparr>,
                       dpo_NorthSouth = \<lparr>pm_Mode = ''observe'', pm_Logging = True\<rparr>\<rparr>,
     np_Policies = \<lparr>ch_EastWestPolicy = [], ch_NorthSouthObservePolicy = [], ch_NorthSouthEnforcePolicy = []\<rparr>\<rparr>"

definition npm_loadOrInit :: "NetworkPolicy read_result \<Rightarrow> NetworkPolicy res" where
  "npm_loadOrInit = load_or_init ''network policy json broken'' npm_init (\<lambda>np. np)"

definition npm_atomicSave ::
  "io_env \<Rightarrow> NetworkPolicy \<Rightarrow> NetworkPolicy disk \<Rightarrow> unit res \<times> NetworkPolicy disk" where
  "npm_atomicSave = atomicSave (\<lambda>np. np)"

definition npm_withLock ::
  "io_env \<Rightarrow> (NetworkPolicy \<Rightarrow> (NetworkPolicy \<times> 'a) res) \<Rightarrow> npm_files \<Rightarrow> 'a res \<times> npm_files" where
  "npm_withLock io fn f =
     (let (r, d) = withLock npm_loadOrInit npm_atomicSave io fn (nf_disk f) in (r, f\<lparr>nf_disk := d\<rparr>))"

definition npm_withRLock :: "io_env \<Rightarrow> (NetworkPolicy \<Rightarrow> 'a res) \<Rightarrow> npm_files \<Rightarrow> 'a res" where
  "npm_withRLock io fn f = withRLock npm_loadOrInit io fn (nf_disk f)"

text \<open>\<open>Backup\<close>: the destination is truncated before the copy, so a failing copy leaves it broken.\<close>

record backup_io =
  bk_open :: "string option"
  bk_create :: "string option"
  bk_copy :: "string option"

definition npm_Backup :: "backup_io \<Rightarrow> npm_files \<Rightarrow> unit res \<times> npm_files" where
  "npm_Backup io f =
     (case bk_open io of Some e \<Rightarrow> (Inl (SysErr e), f)
      | None \<Rightarrow> (case main_file (nf_disk f) of
          None \<Rightarrow> (Inl (SysErr ''no such file or directory''), f)
        | Some c \<Rightarrow> (case bk_create io of Some e \<Rightarrow> (Inl (SysErr e), f)
            | None \<Rightarrow> (case bk_copy io of
                Some e \<Rightarrow> (Inl (SysErr e), f\<lparr>nf_running := Some (Undecodable ''unexpected end of JSON input'')\<rparr>)
              | None \<Rightarrow> (Inr (), f\<lparr>nf_running := Some c\<rparr>)))))"

record revert_io =
  rv_rename_org :: "string option"
  rv_rename_running :: "string option"
  rv_backup :: backup_io
  rv_remove :: "string option"

definition npm_Revert :: "revert_io \<Rightarrow> npm_files \<Rightarrow> unit res \<times> npm_files" where
  "npm_Revert io f =
     (case rv_rename_org io of Some e \<Rightarrow> (Inl (SysErr e), f)
      | None \<Rightarrow> (case main_file (nf_disk f) of
          None \<Rightarrow> (Inl (SysErr ''no such file or directory''), f)
        | Some c \<Rightarrow>
            (let f1 = f\<lparr>nf_disk := (nf_disk f)\<lparr>main_file := None\<rparr>, nf_org := Some c\<rparr> in
             case rv_rename_running io of Some e \<Rightarrow> (Inl (SysErr e), f1)
             | None \<Rightarrow> (case nf_running f1 of
                 None \<Rightarrow> (Inl (SysErr ''no such file or directory''), f1)
               | Some r \<Rightarrow>
                   (let f2 = f1\<lparr>nf_disk := (nf_disk f1)\<lparr>main_file := Some r\<rparr>, nf_running := None\<rparr> in
                    case npm_Backup (rv_backup io) f2 of
                      (Inl e, f3) \<Rightarrow> (Inl e, f3)
                    | (Inr _, f3) \<Rightarrow> (case rv_remove io of
                         Some e \<Rightarrow> (Inl (SysErr e), f3)
                       | None \<Rightarrow> (Inr (), f3\<lparr>nf_org := None\<rparr>)))))))"

text \<open>\<open>SetNetworkPolicy\<close> overwrites the error of \<open>withLock\<close> with the result of \<open>Backup\<close>.\<close>

definition npm_SetNetworkPolicy :: "io_env \<Rightarrow> backup_io \<Rightarrow> npm_files \<Rightarrow> unit res \<times> npm_files" where
  "npm_SetNetworkPolicy io bio f =
     (case npm_withLock io (\<lambda>np. Inr (np\<lparr>np_Version := ''v1''\<rparr>, ())) f of (_, f1) \<Rightarrow> npm_Backup bio f1)"

section \<open>Reading the modes and the chains\<close>

text \<open>A query that ignores the error of \<open>withRLock\<close> returns the zero value of its result then.\<close>

definition npm_read :: "io_env \<Rightarrow> 'a \<Rightarrow> (NetworkPolicy \<Rightarrow> 'a) \<Rightarrow> npm_files \<Rightarrow> 'a" where
  "npm_read io zero get f = (case npm_withRLock io (\<lambda>np. Inr (get np)) f of Inr a \<Rightarrow> a | Inl _ \<Rightarrow> zero)"

definition npm_GetEWMode :: "io_env \<Rightarrow> npm_files \<Rightarrow> string" where
  "npm_GetEWMode io = npm_read io [] (\<lambda>np. pm_Mode (dpo_EastWest (np_DefaultRule np)))"

definition npm_GetNSMode :: "io_env \<Rightarrow> npm_files \<Rightarrow> string" where
  "npm_GetNSMode io = npm_read io [] (\<lambda>np. pm_Mode (dpo_NorthSouth (np_DefaultRule np)))"

definition npm_GetEWLogging :: "io_env \<Rightarrow> npm_files \<Rightarrow> bool" where
  "npm_GetEWLogging io = npm_read io False (\<lambda>np. pm_Logging (dpo_EastWest (np_DefaultRule np)))"

definition npm_GetNSLogging :: "io_env \<Rightarrow> npm_files \<Rightarrow> bool" where
  "npm_GetNSLogging io = npm_read io False (\<lambda>np. pm_Logging (dpo_NorthSouth (np_DefaultRule np)))"

definition npm_IsNsEnforce :: "io_env \<Rightarrow> npm_files \<Rightarrow> bool" where
  "npm_IsNsEnforce io = npm_read io False (\<lambda>np. pm_Mode (dpo_NorthSouth (np_DefaultRule np)) = ''enforce'')"

definition npm_GetEWPolicyList :: "io_env \<Rightarrow> npm_files \<Rightarrow> Policy list" where
  "npm_GetEWPolicyList io = npm_read io [] (\<lambda>np. ch_EastWestPolicy (np_Policies np))"

definition npm_GetNSObsPolicyList :: "io_env \<Rightarrow> npm_files \<Rightarrow> Policy list" where
  "npm_GetNSObsPolicyList io = npm_read io [] (\<lambda>np. ch_NorthSouthObservePolicy (np_Policies np))"

definition npm_GetNSEnfPolicyList :: "io_env \<Rightarrow> npm_files \<Rightarrow> Policy list" where
  "npm_GetNSEnfPolicyList io = npm_read io [] (\<lambda>np. ch_NorthSouthEnforcePolicy (np_Policies np))"

definition has_id :: "string \<Rightarrow> Policy list \<Rightarrow> bool" where
  "has_id i ps \<longleftrightarrow> list_ex (\<lambda>p. pl_Id p = i) ps"

definition chain_of :: "string \<Rightarrow> PolicyChain \<Rightarrow> string res" where
  "chain_of i c =
     (if has_id i (ch_EastWestPolicy c) then Inr ''RAIND-EW''
      else if has_id i (ch_NorthSouthObservePolicy c) then Inr ''RAIND-NS-OBS''
      else if has_id i (ch_NorthSouthEnforcePolicy c) then Inr ''RAIND-NS-ENF''
      else Inl (Msg (''ID: '' @ i @ '' not found'')))"

definition npm_GetPolicyChain :: "io_env \<Rightarrow> string \<Rightarrow> npm_files \<Rightarrow> string res" where
  "npm_GetPolicyChain io i = npm_withRLock io (\<lambda>np. chain_of i (np_Policies np))"

section \<open>Changing the chains\<close>

text \<open>The \<open>switch\<close> on the chain name: apply a function to the chain, \<open>None\<close> for another name.\<close>

definition on_chain :: "string \<Rightarrow> (Policy list \<Rightarrow> Policy list) \<Rightarrow> PolicyChain \<Rightarrow> PolicyChain option" where
  "on_chain name g c =
     (if name = ''RAIND-EW'' then Some (c\<lparr>ch_EastWestPolicy := g (ch_EastWestPolicy c)\<rparr>)
      else if name = ''RAIND-NS-OBS'' then Some (c\<lparr>ch_NorthSouthObservePolicy := g (ch_NorthSouthObservePolicy c)\<rparr>)
      else if name = ''RAIND-NS-ENF'' then Some (c\<lparr>ch_NorthSouthEnforcePolicy := g (ch_NorthSouthEnforcePolicy c)\<rparr>)
      else None)"

definition npm_AddPolicy :: "io_env \<Rightarrow> string \<Rightarrow> Policy \<Rightarrow> npm_files \<Rightarrow> unit res \<times> npm_files" where
  "npm_AddPolicy io name p = npm_withLock io (\<lambda>np.
     case on_chain name (\<lambda>ps. ps @ [p]) (np_Policies np) of
       Some c \<Rightarrow> Inr (np\<lparr>np_Policies := c\<rparr>, ())
     | None \<Rightarrow> Inl (Msg (''Chain: '' @ name @ '' is invalid'')))"

text \<open>Removing the element at the first matching index: \<open>append(s[:i], s[i+1:]...)\<close>.\<close>

fun remove_first :: "('a \<Rightarrow> bool) \<Rightarrow> 'a list \<Rightarrow> 'a list" where
  "remove_first p [] = []"
| "remove_first p (x # xs) = (if p x then xs else x # remove_first p xs)"

definition removePolicy_chain :: "string \<Rightarrow> PolicyChain \<Rightarrow> PolicyChain res" where
  "removePolicy_chain i c =
     (let del = remove_first (\<lambda>p. pl_Id p = i) in
      if has_id i (ch_EastWestPolicy c) then Inr (c\<lparr>ch_EastWestPolicy := del (ch_EastWestPolicy c)\<rparr>)
      else if has_id i (ch_NorthSouthObservePolicy c)
      then Inr (c\<lparr>ch_NorthSouthObservePolicy := del (ch_NorthSouthObservePolicy c)\<rparr>)
      else if has_id i (ch_NorthSouthEnforcePolicy c)
      then Inr (c\<lparr>ch_NorthSouthEnforcePolicy := del (ch_NorthSouthEnforcePolicy c)\<rparr>)
      else Inl (Msg (''ID: '' @ i @ '' not found'')))"

definition npm_RemovePolicy :: "io_env \<Rightarrow> string \<Rightarrow> npm_files \<Rightarrow> unit res \<times> npm_files" where
  "npm_RemovePolicy io i = npm_withLock io (\<lambda>np.
     put_back (\<lambda>c. np\<lparr>np_Policies := c\<rparr>) (removePolicy_chain i (np_Policies np)))"

definition removePoliciesByOwner ::
  "Policy list \<Rightarrow> string \<Rightarrow> string \<Rightarrow> Policy list \<Rightarrow> Policy list \<times> Policy list" where
  "removePoliciesByOwner ps kind oid removed =
     (filter (\<lambda>p. \<not> (pl_OwnerKind p = kind \<and> pl_OwnerId p = oid)) ps,
      removed @ filter (\<lambda>p. pl_OwnerKind p = kind \<and> pl_OwnerId p = oid) ps)"

definition npm_RemovePoliciesByOwner ::
  "io_env \<Rightarrow> string \<Rightarrow> string \<Rightarrow> npm_files \<Rightarrow> Policy list res \<times> npm_files" where
  "npm_RemovePoliciesByOwner io kind oid = npm_withLock io (\<lambda>np.
     let c = np_Policies np;
         (ew, r1) = removePoliciesByOwner (ch_EastWestPolicy c) kind oid [];
         (ob, r2) = removePoliciesByOwner (ch_NorthSouthObservePolicy c) kind oid r1;
         (en, r3) = removePoliciesByOwner (ch_NorthSouthEnforcePolicy c) kind oid r2
     in Inr (np\<lparr>np_Policies := \<lparr>ch_EastWestPolicy = ew, ch_NorthSouthObservePolicy = ob,
          ch_NorthSouthEnforcePolicy = en\<rparr>\<rparr>, r3))"

definition replacePoliciesByOwnerKind :: "Policy list \<Rightarrow> string \<Rightarrow> Policy list \<Rightarrow> Policy list" where
  "replacePoliciesByOwnerKind current kind desired = filter (\<lambda>p. pl_OwnerKind p \<noteq> kind) current @ desired"

definition npm_ReplacePoliciesByOwnerKind ::
  "io_env \<Rightarrow> string \<Rightarrow> string \<Rightarrow> Policy list \<Rightarrow> npm_files \<Rightarrow> unit res \<times> npm_files" where
  "npm_ReplacePoliciesByOwnerKind io name kind ps = npm_withLock io (\<lambda>np.
     case on_chain name (\<lambda>cur. replacePoliciesByOwnerKind cur kind ps) (np_Policies np) of
       Some c \<Rightarrow> Inr (np\<lparr>np_Policies := c\<rparr>, ())
     | None \<Rightarrow> Inl (Msg (''Chain: '' @ name @ '' is invalid'')))"

fun update_first :: "('a \<Rightarrow> bool) \<Rightarrow> ('a \<Rightarrow> 'a) \<Rightarrow> 'a list \<Rightarrow> 'a list" where
  "update_first p g [] = []"
| "update_first p g (x # xs) = (if p x then g x # xs else x # update_first p g xs)"

definition chain_policies :: "string \<Rightarrow> PolicyChain \<Rightarrow> Policy list" where
  "chain_policies name c =
     (if name = ''RAIND-EW'' then ch_EastWestPolicy c
      else if name = ''RAIND-NS-OBS'' then ch_NorthSouthObservePolicy c
      else if name = ''RAIND-NS-ENF'' then ch_NorthSouthEnforcePolicy c
      else [])"

definition npm_UpdateStatus ::
  "io_env \<Rightarrow> string \<Rightarrow> string \<Rightarrow> string \<Rightarrow> string \<Rightarrow> npm_files \<Rightarrow> unit res \<times> npm_files" where
  "npm_UpdateStatus io name i status reason = npm_withLock io (\<lambda>np.
     if has_id i (chain_policies name (np_Policies np))
     then (case on_chain name (update_first (\<lambda>p. pl_Id p = i) (\<lambda>p. p\<lparr>pl_Status := status, pl_Reason := reason\<rparr>))
             (np_Policies np) of
             Some c \<Rightarrow> Inr (np\<lparr>np_Policies := c\<rparr>, ())
           | None \<Rightarrow> Inl (Msg (''ID: '' @ i @ '' not found'')))
     else Inl (Msg (''ID: '' @ i @ '' not found'')))"

definition npm_ChangeNSMode :: "io_env \<Rightarrow> string \<Rightarrow> npm_files \<Rightarrow> unit res \<times> npm_files" where
  "npm_ChangeNSMode io mode = npm_withLock io (\<lambda>np. Inr (np\<lparr>np_DefaultRule :=
     (np_DefaultRule np)\<lparr>dpo_NorthSouth := (dpo_NorthSouth (np_DefaultRule np))\<lparr>pm_Mode := mode\<rparr>\<rparr>\<rparr>, ()))"

section \<open>Edits between a commit and a rollback\<close>

inductive npm_edit :: "npm_files \<Rightarrow> npm_files \<Rightarrow> bool" where
  AddPolicy: "npm_edit f (snd (npm_AddPolicy io name p f))"
| RemovePolicy: "npm_edit f (snd (npm_RemovePolicy io i f))"
| RemovePoliciesByOwner: "npm_edit f (snd (npm_RemovePoliciesByOwner io kind oid f))"
| ReplacePoliciesByOwnerKind: "npm_edit f (snd (npm_ReplacePoliciesByOwnerKind io name kind ps f))"
| UpdateStatus: "npm_edit f (snd (npm_UpdateStatus io name i status reason f))"
| ChangeNSMode: "npm_edit f (snd (npm_ChangeNSMode io mode f))"

abbreviation npm_edits :: "npm_files \<Rightarrow> npm_files \<Rightarrow> bool" where
  "npm_edits \<equiv> npm_edit\<^sup>*\<^sup>*"

lemma npm_withLock_running:
  "nf_running (snd (npm_withLock io fn f)) = nf_running f"
  by (simp add: npm_withLock_def case_prod_beta)

lemma npm_withLock_main:
  assumes "main_file (nf_disk f) \<noteq> None"
  shows "main_file (nf_disk (snd (npm_withLock io fn f))) \<noteq> None"
proof -
  have "main_file (snd (withLock npm_loadOrInit npm_atomicSave io fn (nf_disk f))) \<noteq> None"
    using assms withLock_all_or_nothing
      [where load = npm_loadOrInit and marshal = "\<lambda>np. np" and io = io and fn = fn and d = "nf_disk f"]
    by (auto simp: npm_atomicSave_def split: prod.splits sum.splits)
  then show ?thesis by (simp add: npm_withLock_def case_prod_beta)
qed

lemmas npm_edit_defs = npm_AddPolicy_def npm_RemovePolicy_def npm_RemovePoliciesByOwner_def
  npm_ReplacePoliciesByOwnerKind_def npm_UpdateStatus_def npm_ChangeNSMode_def

lemma npm_edit_keeps:
  "npm_edit f f' \<Longrightarrow> nf_running f' = nf_running f \<and> (main_file (nf_disk f) \<noteq> None \<longrightarrow> main_file (nf_disk f') \<noteq> None)"
  by (induction rule: npm_edit.induct)
    (unfold npm_edit_defs, (rule conjI, rule npm_withLock_running, rule impI, rule npm_withLock_main, assumption)+)

lemma npm_edits_keep:
  "npm_edits f f' \<Longrightarrow> nf_running f' = nf_running f \<and> (main_file (nf_disk f) \<noteq> None \<longrightarrow> main_file (nf_disk f') \<noteq> None)"
  by (induction rule: rtranclp_induct) (use npm_edit_keeps in auto)

definition backup_ok :: backup_io where
  "backup_ok = \<lparr>bk_open = None, bk_create = None, bk_copy = None\<rparr>"

definition revert_ok :: revert_io where
  "revert_ok = \<lparr>rv_rename_org = None, rv_rename_running = None, rv_backup = backup_ok, rv_remove = None\<rparr>"

section \<open>Properties\<close>

text \<open>
  Property C21. A rollback undoes every edit since the commit: after \<open>Backup\<close> and any sequence of manager
  calls, failing ones included, \<open>Revert\<close> restores the committed document, keeps it as the running
  copy and leaves no \<open>.org\<close> file.
\<close>

theorem npm_Revert_restores:
  assumes "npm_Backup bio f = (Inr (), f1)" and "npm_edits f1 f2"
  shows "\<exists>f3. npm_Revert revert_ok f2 = (Inr (), f3) \<and>
     main_file (nf_disk f3) = main_file (nf_disk f) \<and> nf_running f3 = main_file (nf_disk f) \<and> nf_org f3 = None"
proof -
  obtain c where c: "main_file (nf_disk f) = Some c" and f1: "f1 = f\<lparr>nf_running := Some c\<rparr>"
    using assms(1) by (auto simp: npm_Backup_def split: option.splits)
  have "nf_running f2 = Some c" "main_file (nf_disk f2) \<noteq> None"
    using npm_edits_keep [OF assms(2)] c f1 by auto
  then show ?thesis
    using c by (auto simp: npm_Revert_def npm_Backup_def revert_ok_def backup_ok_def Let_def)
qed

section \<open>Reading back what was written\<close>

interpretation npm: plain_store "''network policy json broken''" npm_init "\<lambda>np. np" "\<lambda>np. np" "\<lambda>_. True"
  by unfold_locales auto

text \<open>The policy document is readable: absent, or not broken.\<close>

definition npm_readable :: "npm_files \<Rightarrow> bool" where
  "npm_readable f \<longleftrightarrow> disk_inv (\<lambda>_. True) (nf_disk f)"

lemma npm_load:
  assumes "npm_readable f"
  shows "\<exists>np. npm_loadOrInit (read_file io_ok (nf_disk f)) = Inr np"
  using npm.load_total [OF assms [unfolded npm_readable_def]] by (simp add: npm_loadOrInit_def)

lemma npm_read_ok:
  assumes "npm_loadOrInit (read_file io_ok (nf_disk f)) = Inr np"
  shows "npm_withRLock io_ok fn f = fn np" "npm_read io_ok z g f = g np"
  using assms by (simp_all add: npm_withRLock_def withRLock_io_ok npm_read_def)

lemma npm_write_ok:
  assumes "npm_loadOrInit (read_file io_ok (nf_disk f)) = Inr np"
  shows "npm_withLock io_ok fn f = (case fn np of Inl e \<Rightarrow> (Inl e, f)
     | Inr (np', a) \<Rightarrow> (Inr a, f\<lparr>nf_disk := \<lparr>main_file = Some (Decoded np'), tmp_file = None\<rparr>\<rparr>))"
  using assms by (simp add: npm_withLock_def npm_atomicSave_def withLock_io_ok split: sum.splits)

lemma npm_load_saved [simp]:
  "npm_loadOrInit (read_file io_ok \<lparr>main_file = Some (Decoded np), tmp_file = t\<rparr>) = Inr np"
  by (simp add: npm_loadOrInit_def load_or_init_def read_file_io_ok)

lemma has_id_append [simp]: "has_id i (ps @ [p]) \<longleftrightarrow> has_id i ps \<or> pl_Id p = i"
  by (simp add: has_id_def)

lemma remove_first_append: "\<not> has_id i ps \<Longrightarrow> remove_first (\<lambda>p. pl_Id p = i) (ps @ [p]) = (if pl_Id p = i then ps else ps @ [p])"
  by (induction ps) (auto simp: has_id_def)

text \<open>The policy's identifier is used in no chain.\<close>

definition fresh_id :: "string \<Rightarrow> PolicyChain \<Rightarrow> bool" where
  "fresh_id i c \<longleftrightarrow> \<not> has_id i (ch_EastWestPolicy c) \<and> \<not> has_id i (ch_NorthSouthObservePolicy c) \<and>
     \<not> has_id i (ch_NorthSouthEnforcePolicy c)"

lemma on_chain_add:
  assumes "fresh_id (pl_Id p) c" and "on_chain name (\<lambda>ps. ps @ [p]) c = Some c'"
  shows "chain_of (pl_Id p) c' = Inr name" "removePolicy_chain (pl_Id p) c' = Inr c"
  using assms
  by (auto simp: on_chain_def chain_of_def removePolicy_chain_def fresh_id_def remove_first_append Let_def split: if_splits)

text \<open>
  Adding a policy under a fresh identifier to one of the three chains files it there
  (\<open>GetPolicyChain\<close> names that chain), and removing it by identifier restores all three chains.
\<close>

lemma npm_AddPolicy_RemovePolicy:
  assumes "npm_loadOrInit (read_file io_ok (nf_disk f)) = Inr np" and "fresh_id (pl_Id p) (np_Policies np)"
    and "name \<in> {''RAIND-EW'', ''RAIND-NS-OBS'', ''RAIND-NS-ENF''}"
  shows "\<exists>f1 f2. npm_AddPolicy io_ok name p f = (Inr (), f1) \<and>
     npm_GetPolicyChain io_ok (pl_Id p) f1 = Inr name \<and>
     npm_RemovePolicy io_ok (pl_Id p) f1 = (Inr (), f2) \<and>
     npm_loadOrInit (read_file io_ok (nf_disk f2)) = Inr np"
proof -
  obtain c' where c': "on_chain name (\<lambda>ps. ps @ [p]) (np_Policies np) = Some c'"
    using assms(3) by (auto simp: on_chain_def)
  note ch = on_chain_add [OF assms(2) c']
  let ?f1 = "f\<lparr>nf_disk := \<lparr>main_file = Some (Decoded (np\<lparr>np_Policies := c'\<rparr>)), tmp_file = None\<rparr>\<rparr>"
  have l1: "npm_loadOrInit (read_file io_ok (nf_disk ?f1)) = Inr (np\<lparr>np_Policies := c'\<rparr>)" by simp
  have "npm_AddPolicy io_ok name p f = (Inr (), ?f1)"
    using c' by (simp add: npm_AddPolicy_def npm_write_ok [OF assms(1)])
  moreover have "npm_GetPolicyChain io_ok (pl_Id p) ?f1 = Inr name"
    unfolding npm_GetPolicyChain_def npm_read_ok(1) [OF l1] using ch(1) by simp
  moreover have "npm_RemovePolicy io_ok (pl_Id p) ?f1 =
      (Inr (), ?f1\<lparr>nf_disk := \<lparr>main_file = Some (Decoded np), tmp_file = None\<rparr>\<rparr>)"
    unfolding npm_RemovePolicy_def npm_write_ok [OF l1] using ch(2) by (simp add: put_back_def)
  moreover have "npm_loadOrInit (read_file io_ok
      (nf_disk (?f1\<lparr>nf_disk := \<lparr>main_file = Some (Decoded np), tmp_file = None\<rparr>\<rparr>))) = Inr np" by simp
  ultimately show ?thesis by blast
qed

text \<open>
  Replacing the policies a controller owns leaves every other policy of the chain in its
  place, the controller's policies become exactly the desired ones, and doing it again changes nothing.
\<close>

lemma replacePoliciesByOwnerKind_correct:
  assumes "\<forall>p \<in> set desired. pl_OwnerKind p = kind"
  shows "filter (\<lambda>p. pl_OwnerKind p \<noteq> kind) (replacePoliciesByOwnerKind cur kind desired) =
         filter (\<lambda>p. pl_OwnerKind p \<noteq> kind) cur \<and>
     filter (\<lambda>p. pl_OwnerKind p = kind) (replacePoliciesByOwnerKind cur kind desired) = desired \<and>
     replacePoliciesByOwnerKind (replacePoliciesByOwnerKind cur kind desired) kind desired =
       replacePoliciesByOwnerKind cur kind desired"
  using assms by (auto simp: replacePoliciesByOwnerKind_def filter_id_conv filter_empty_conv)

section \<open>Witnesses\<close>

definition ex_policy :: Policy where
  "ex_policy = \<lparr>pl_Id = ''r1'', pl_Status = [], pl_Reason = [],
     pl_Source = \<lparr>ho_ContainerName = ''web'', ho_DisplayName = [], ho_Address = []\<rparr>,
     pl_Destination = \<lparr>ho_ContainerName = ''db'', ho_DisplayName = [], ho_Address = []\<rparr>,
     pl_Protocol = ''tcp'', pl_DestPort = 5432, pl_Comment = [], pl_ManagedBy = [], pl_OwnerKind = ''NetworkPolicy'',
     pl_OwnerNS = [], pl_OwnerName = [], pl_OwnerId = []\<rparr>"

definition ex_npm :: npm_files where
  "ex_npm = snd (npm_SetNetworkPolicy io_ok backup_ok empty_npm)"

theorem npm_Revert_restores_witness:
  "\<exists>f3. npm_Revert revert_ok (snd (npm_AddPolicy io_ok ''RAIND-EW'' ex_policy ex_npm)) = (Inr (), f3) \<and>
     main_file (nf_disk f3) = Some (Decoded npm_init)"
proof -
  have b: "npm_Backup backup_ok ex_npm = (Inr (), ex_npm)" "main_file (nf_disk ex_npm) = Some (Decoded npm_init)"
    by code_simp+
  have "npm_edits ex_npm (snd (npm_AddPolicy io_ok ''RAIND-EW'' ex_policy ex_npm))"
    by (rule r_into_rtranclp) (rule npm_edit.AddPolicy)
  from npm_Revert_restores [OF b(1) this] b(2) show ?thesis by auto
qed

end
