(* ===== verification/Object_Stores.thy ===== *)
theory Object_Stores
  imports Store_Core "HOL-Library.Word"
begin

text \<open>
  Four stores of named objects with one contract: config maps (\<open>store/cfm\<close>), volume claims
  (\<open>store/vsm\<close>), ingresses (\<open>store/ism\<close>) and network policies (\<open>store/netpol\<close>). The contract is the
  locale \<open>object_store\<close>; each store interprets it and gets its round-trip lemmas from it.
\<close>

section \<open>The contract\<close>

locale object_store = plain_store pfx init complete marshal inv
  for pfx :: string and init :: 's and complete :: "'r \<Rightarrow> 's" and marshal :: "'s \<Rightarrow> 'r" and inv :: "'s \<Rightarrow> bool" +
  fixes get :: "'s \<Rightarrow> (string, 'v) gomap"
    and put :: "(string, 'v) gomap \<Rightarrow> 's \<Rightarrow> 's"
    and key :: "'v \<Rightarrow> string"
  assumes get_put: "get (put m st) = m"
    and inv_iff: "inv st \<longleftrightarrow> keyed_by key (get st)"
begin

lemma inv_store: "inv st \<Longrightarrow> key v = i \<Longrightarrow> inv (put (map_set i v (get st)) st)"
  by (auto simp: inv_iff get_put intro!: keyed_by_set)

lemma inv_remove: "inv st \<Longrightarrow> inv (put (map_del i (get st)) st)"
  by (auto simp: inv_iff get_put)

lemma store_keeps:
  assumes "disk_inv (\<lambda>r. inv (complete r)) d" and "\<And>st. key (v st) = i"
  shows "disk_inv (\<lambda>r. inv (complete r)) (snd (withLock (load_or_init pfx init complete) (atomicSave marshal) io
     (\<lambda>st. Inr (put (map_set i (v st) (get st)) st, ())) d))"
  using assms by (intro withLock_inv) (auto intro: inv_store)

lemma remove_keeps:
  assumes "disk_inv (\<lambda>r. inv (complete r)) d"
  shows "disk_inv (\<lambda>r. inv (complete r)) (snd (withLock (load_or_init pfx init complete) (atomicSave marshal) io
     (\<lambda>st. put_back (\<lambda>m. put m st) (remove_entry err i (get st))) d))"
  using assms by (intro withLock_inv) (auto simp: remove_entry_Inr intro: inv_remove)

text \<open>What a lookup returns after a store, and after a removal.\<close>

lemma store_lookup:
  assumes "disk_inv (\<lambda>r. inv (complete r)) d" and "key v = i"
  shows "\<exists>d' st. withLock (load_or_init pfx init complete) (atomicSave marshal) io_ok
      (\<lambda>st. Inr (put (map_set i v (get st)) st, ())) d = (Inr (), d') \<and>
     load_or_init pfx init complete (read_file io_ok d) = Inr st \<and>
     load_or_init pfx init complete (read_file io_ok d') = Inr (put (map_set i v (get st)) st)"
proof -
  obtain st where st: "load_or_init pfx init complete (read_file io_ok d) = Inr st" "inv st"
    using load_total [OF assms(1)] by blast
  have "inv (put (map_set i v (get st)) st)" using st(2) assms(2) by (rule inv_store)
  with st(1) show ?thesis by (simp add: withLock_io_ok load_after_save)
qed

lemma remove_lookup:
  assumes "load_or_init pfx init complete (read_file io_ok d) = Inr st" and "inv st" and "map_of (get st) i \<noteq> None"
  shows "\<exists>d'. withLock (load_or_init pfx init complete) (atomicSave marshal) io_ok
      (\<lambda>st. put_back (\<lambda>m. put m st) (remove_entry err i (get st))) d = (Inr (), d') \<and>
     load_or_init pfx init complete (read_file io_ok d') = Inr (put (map_del i (get st)) st)"
proof -
  have "inv (put (map_del i (get st)) st)" using assms(2) by (rule inv_remove)
  with assms(1,3) show ?thesis by (auto simp: withLock_io_ok load_after_save put_back_def remove_entry_def)
qed

text \<open>Store, look up, remove, look up again.\<close>

lemma store_get_remove:
  assumes "disk_inv (\<lambda>r. inv (complete r)) d" and "key v = i"
  shows "\<exists>d1 d2. withLock (load_or_init pfx init complete) (atomicSave marshal) io_ok
        (\<lambda>st. Inr (put (map_set i v (get st)) st, ())) d = (Inr (), d1) \<and>
     withLock (load_or_init pfx init complete) (atomicSave marshal) io_ok
        (\<lambda>st. put_back (\<lambda>m. put m st) (remove_entry err i (get st))) d1 = (Inr (), d2) \<and>
     (\<forall>e j. withRLock (load_or_init pfx init complete) io_ok (\<lambda>st. lookup_entry e j (get st)) d1 =
        (if j = i then Inr v
         else withRLock (load_or_init pfx init complete) io_ok (\<lambda>st. lookup_entry e j (get st)) d)) \<and>
     (\<forall>e j. withRLock (load_or_init pfx init complete) io_ok (\<lambda>st. lookup_entry e j (get st)) d2 =
        (if j = i then Inl (Msg e)
         else withRLock (load_or_init pfx init complete) io_ok (\<lambda>st. lookup_entry e j (get st)) d))"
proof -
  obtain d1 st where d1: "withLock (load_or_init pfx init complete) (atomicSave marshal) io_ok
      (\<lambda>st. Inr (put (map_set i v (get st)) st, ())) d = (Inr (), d1)"
    "load_or_init pfx init complete (read_file io_ok d) = Inr st"
    "load_or_init pfx init complete (read_file io_ok d1) = Inr (put (map_set i v (get st)) st)"
    using store_lookup [OF assms] by blast
  have "inv st" using load_inv [OF d1(2) assms(1)] .
  then have "inv (put (map_set i v (get st)) st)" using assms(2) by (rule inv_store)
  then obtain d2 where d2: "withLock (load_or_init pfx init complete) (atomicSave marshal) io_ok
      (\<lambda>st. put_back (\<lambda>m. put m st) (remove_entry err i (get st))) d1 = (Inr (), d2)"
    "load_or_init pfx init complete (read_file io_ok d2) =
      Inr (put (map_del i (get (put (map_set i v (get st)) st))) (put (map_set i v (get st)) st))"
    using remove_lookup [OF d1(3), of i err] by (auto simp: get_put)
  show ?thesis
    using d1(1) d2(1)
    by (auto simp: withRLock_io_ok d1(2,3) d2(2) get_put lookup_entry_def)
qed

end

section \<open>Config maps\<close>

record ConfigMapInfo =
  cm_ConfigMapId :: string
  cm_Name :: string
  cm_Namespace :: string
  cm_Data :: "(string, string) gomap option"
  cm_CreatedAt :: time

record ConfigMapState =
  cmst_Version :: string
  cmst_ConfigMap :: "(string, ConfigMapInfo) gomap"

type_synonym configmap_doc = "string \<times> (string, ConfigMapInfo) gomap option"

definition cfm_init :: ConfigMapState where
  "cfm_init = \<lparr>cmst_Version = ''0.1.0'', cmst_ConfigMap = []\<rparr>"

definition cfm_complete :: "configmap_doc \<Rightarrow> ConfigMapState" where
  "cfm_complete r = \<lparr>cmst_Version = fst r, cmst_ConfigMap = or_empty (snd r)\<rparr>"

definition cfm_marshal :: "ConfigMapState \<Rightarrow> configmap_doc" where
  "cfm_marshal st = (cmst_Version st, Some (cmst_ConfigMap st))"

definition cfm_loadOrInit :: "configmap_doc read_result \<Rightarrow> ConfigMapState res" where
  "cfm_loadOrInit = load_or_init ''configmap state json broken'' cfm_init cfm_complete"

definition cfm_atomicSave :: "io_env \<Rightarrow> ConfigMapState \<Rightarrow> configmap_doc disk \<Rightarrow> unit res \<times> configmap_doc disk" where
  "cfm_atomicSave = atomicSave cfm_marshal"

definition cfm_withLock ::
  "io_env \<Rightarrow> (ConfigMapState \<Rightarrow> (ConfigMapState \<times> 'a) res) \<Rightarrow> configmap_doc disk \<Rightarrow> 'a res \<times> configmap_doc disk" where
  "cfm_withLock = withLock cfm_loadOrInit cfm_atomicSave"

definition cfm_withRLock :: "io_env \<Rightarrow> (ConfigMapState \<Rightarrow> 'a res) \<Rightarrow> configmap_doc disk \<Rightarrow> 'a res" where
  "cfm_withRLock = withRLock cfm_loadOrInit"

definition cfm_SetConfigMapState :: "io_env \<Rightarrow> configmap_doc disk \<Rightarrow> unit res \<times> configmap_doc disk" where
  "cfm_SetConfigMapState io = cfm_withLock io (\<lambda>st. Inr (st\<lparr>cmst_Version := ''0.1.0''\<rparr>, ()))"

definition filled_configmap :: "time \<Rightarrow> string \<Rightarrow> ConfigMapInfo \<Rightarrow> ConfigMapInfo" where
  "filled_configmap now i spec = spec\<lparr>cm_ConfigMapId := i, cm_CreatedAt := now,
     cm_Namespace := (if cm_Namespace spec = [] then ''default'' else cm_Namespace spec),
     cm_Data := Some (or_empty (cm_Data spec))\<rparr>"

definition cfm_StoreConfigMap ::
  "io_env \<Rightarrow> time \<Rightarrow> string \<Rightarrow> ConfigMapInfo \<Rightarrow> configmap_doc disk \<Rightarrow> unit res \<times> configmap_doc disk" where
  "cfm_StoreConfigMap io now i spec = cfm_withLock io (\<lambda>st.
     Inr (st\<lparr>cmst_ConfigMap := map_set i (filled_configmap now i spec) (cmst_ConfigMap st)\<rparr>, ()))"

definition cfm_GetConfigMapList :: "io_env \<Rightarrow> configmap_doc disk \<Rightarrow> ConfigMapInfo list res" where
  "cfm_GetConfigMapList io = cfm_withRLock io (\<lambda>st. Inr (map snd (cmst_ConfigMap st)))"

definition cfm_GetConfigMapById :: "io_env \<Rightarrow> string \<Rightarrow> configmap_doc disk \<Rightarrow> ConfigMapInfo res" where
  "cfm_GetConfigMapById io i = cfm_withRLock io (\<lambda>st.
     lookup_entry (''configMapId='' @ i @ '' not found'') i (cmst_ConfigMap st))"

definition cfm_GetConfigMapByName :: "io_env \<Rightarrow> string \<Rightarrow> string \<Rightarrow> configmap_doc disk \<Rightarrow> ConfigMapInfo res" where
  "cfm_GetConfigMapByName io name namespace0 =
     (let namespace = (if namespace0 = [] then ''default'' else namespace0) in cfm_withRLock io (\<lambda>st.
       case range_find (\<lambda>_ c. cm_Name c = name \<and> cm_Namespace c = namespace) (cmst_ConfigMap st) of
         Some (_, c) \<Rightarrow> Inr c
       | None \<Rightarrow> Inl (Msg (''configmap '' @ namespace @ ''/'' @ name @ '' not found''))))"

definition cfm_RemoveConfigMap :: "io_env \<Rightarrow> string \<Rightarrow> configmap_doc disk \<Rightarrow> unit res \<times> configmap_doc disk" where
  "cfm_RemoveConfigMap io i = cfm_withLock io (\<lambda>st. put_back (\<lambda>m. st\<lparr>cmst_ConfigMap := m\<rparr>)
     (remove_entry (''configMapId='' @ i @ '' not found'') i (cmst_ConfigMap st)))"

definition cfm_IsNameAlreadyUsed :: "io_env \<Rightarrow> string \<Rightarrow> string \<Rightarrow> configmap_doc disk \<Rightarrow> bool" where
  "cfm_IsNameAlreadyUsed io name namespace0 d =
     (let namespace = (if namespace0 = [] then ''default'' else namespace0) in
      case cfm_withRLock io (\<lambda>st. Inr (range_find (\<lambda>_ c. cm_Name c = name \<and> cm_Namespace c = namespace)
         (cmst_ConfigMap st) \<noteq> None)) d of Inr b \<Rightarrow> b | Inl _ \<Rightarrow> False)"

definition cfm_inv :: "ConfigMapState \<Rightarrow> bool" where
  "cfm_inv st \<longleftrightarrow> keyed_by cm_ConfigMapId (cmst_ConfigMap st)"

interpretation cfm: object_store "''configmap state json broken''" cfm_init cfm_complete cfm_marshal cfm_inv
    cmst_ConfigMap "\<lambda>m st. st\<lparr>cmst_ConfigMap := m\<rparr>" cm_ConfigMapId
  by unfold_locales (simp_all add: cfm_init_def cfm_complete_def cfm_marshal_def cfm_inv_def)

lemmas cfm_unfold = cfm_withLock_def cfm_withRLock_def cfm_atomicSave_def cfm_loadOrInit_def

text \<open>
  A stored config map is found under its identifier with its defaults filled in
  (namespace \<open>default\<close>, empty data), until it is removed, after which it is not found; no other
  config map is affected by either.
\<close>

lemma cfm_store_get_remove:
  assumes "disk_inv (\<lambda>r. cfm_inv (cfm_complete r)) d"
  shows "\<exists>d1 d2. cfm_StoreConfigMap io_ok now i spec d = (Inr (), d1) \<and>
     cfm_RemoveConfigMap io_ok i d1 = (Inr (), d2) \<and>
     (\<forall>j. cfm_GetConfigMapById io_ok j d1 =
        (if j = i then Inr (filled_configmap now i spec) else cfm_GetConfigMapById io_ok j d)) \<and>
     (\<forall>j. cfm_GetConfigMapById io_ok j d2 =
        (if j = i then Inl (Msg (''configMapId='' @ i @ '' not found'')) else cfm_GetConfigMapById io_ok j d))"
  using cfm.store_get_remove [OF assms, of "filled_configmap now i spec" i "''configMapId='' @ i @ '' not found''"]
  unfolding cfm_StoreConfigMap_def cfm_RemoveConfigMap_def cfm_GetConfigMapById_def cfm_unfold
  by (fastforce simp: filled_configmap_def)

section \<open>Volume claims\<close>

definition PVCPhaseBound :: string where "PVCPhaseBound = ''Bound''"

definition PVCReclaimRetain :: string where "PVCReclaimRetain = ''Retain''"

record PersistentVolumeClaimInfo =
  pv_PVCId :: string
  pv_Name :: string
  pv_Namespace :: string
  pv_AccessModes :: "string list"
  pv_RequestedStorage :: string
  pv_RequestedBytes :: "64 word"
  pv_StorageClassName :: string
  pv_VolumeMode :: string
  pv_HostPath :: string
  pv_DataPath :: string
  pv_ReclaimPolicy :: string
  pv_Phase :: string
  pv_CreatedAt :: time

record VolumeState =
  vst_Version :: string
  vst_PVCs :: "(string, PersistentVolumeClaimInfo) gomap"

type_synonym volume_doc = "string \<times> (string, PersistentVolumeClaimInfo) gomap option"

definition vsm_init :: VolumeState where
  "vsm_init = \<lparr>vst_Version = ''0.1.0'', vst_PVCs = []\<rparr>"

definition vsm_complete :: "volume_doc \<Rightarrow> VolumeState" where
  "vsm_complete r = \<lparr>vst_Version = fst r, vst_PVCs = or_empty (snd r)\<rparr>"

definition vsm_marshal :: "VolumeState \<Rightarrow> volume_doc" where
  "vsm_marshal st = (vst_Version st, Some (vst_PVCs st))"

definition vsm_loadOrInit :: "volume_doc read_result \<Rightarrow> VolumeState res" where
  "vsm_loadOrInit = load_or_init ''volume state json broken'' vsm_init vsm_complete"

definition vsm_atomicSave :: "io_env \<Rightarrow> VolumeState \<Rightarrow> volume_doc disk \<Rightarrow> unit res \<times> volume_doc disk" where
  "vsm_atomicSave = atomicSave vsm_marshal"

definition vsm_withLock ::
  "io_env \<Rightarrow> (VolumeState \<Rightarrow> (VolumeState \<times> 'a) res) \<Rightarrow> volume_doc disk \<Rightarrow> 'a res \<times> volume_doc disk" where
  "vsm_withLock = withLock vsm_loadOrInit vsm_atomicSave"

definition vsm_withRLock :: "io_env \<Rightarrow> (VolumeState \<Rightarrow> 'a res) \<Rightarrow> volume_doc disk \<Rightarrow> 'a res" where
  "vsm_withRLock = withRLock vsm_loadOrInit"

definition vsm_SetVolumeState :: "io_env \<Rightarrow> volume_doc disk \<Rightarrow> unit res \<times> volume_doc disk" where
  "vsm_SetVolumeState io = vsm_withLock io (\<lambda>st. Inr (st\<lparr>vst_Version := ''0.1.0''\<rparr>, ()))"

definition filled_pvc :: "time \<Rightarrow> string \<Rightarrow> PersistentVolumeClaimInfo \<Rightarrow> PersistentVolumeClaimInfo" where
  "filled_pvc now i spec = spec\<lparr>pv_PVCId := i,
     pv_Namespace := (if pv_Namespace spec = [] then ''default'' else pv_Namespace spec),
     pv_ReclaimPolicy := (if pv_ReclaimPolicy spec = [] then PVCReclaimRetain else pv_ReclaimPolicy spec),
     pv_Phase := (if pv_Phase spec = [] then PVCPhaseBound else pv_Phase spec),
     pv_CreatedAt := (if pv_CreatedAt spec = zero_time then now else pv_CreatedAt spec)\<rparr>"

definition vsm_StorePVC ::
  "io_env \<Rightarrow> time \<Rightarrow> string \<Rightarrow> PersistentVolumeClaimInfo \<Rightarrow> volume_doc disk \<Rightarrow> unit res \<times> volume_doc disk" where
  "vsm_StorePVC io now i spec = vsm_withLock io (\<lambda>st.
     Inr (st\<lparr>vst_PVCs := map_set i (filled_pvc now i spec) (vst_PVCs st)\<rparr>, ()))"

definition vsm_GetPVCList :: "io_env \<Rightarrow> volume_doc disk \<Rightarrow> PersistentVolumeClaimInfo list res" where
  "vsm_GetPVCList io = vsm_withRLock io (\<lambda>st. Inr (map snd (vst_PVCs st)))"

definition vsm_GetPVCById :: "io_env \<Rightarrow> string \<Rightarrow> volume_doc disk \<Rightarrow> PersistentVolumeClaimInfo res" where
  "vsm_GetPVCById io i = vsm_withRLock io (\<lambda>st.
     lookup_entry (''pvcId='' @ i @ '' not found'') i (vst_PVCs st))"

definition vsm_GetPVCByName :: "io_env \<Rightarrow> string \<Rightarrow> string \<Rightarrow> volume_doc disk \<Rightarrow> PersistentVolumeClaimInfo res" where
  "vsm_GetPVCByName io name namespace0 =
     (let namespace = (if namespace0 = [] then ''default'' else namespace0) in vsm_withRLock io (\<lambda>st.
       case range_find (\<lambda>_ c. pv_Name c = name \<and> pv_Namespace c = namespace) (vst_PVCs st) of
         Some (_, c) \<Rightarrow> Inr c
       | None \<Rightarrow> Inl (Msg (''pvc '' @ namespace @ ''/'' @ name @ '' not found''))))"

definition vsm_RemovePVC :: "io_env \<Rightarrow> string \<Rightarrow> volume_doc disk \<Rightarrow> unit res \<times> volume_doc disk" where
  "vsm_RemovePVC io i = vsm_withLock io (\<lambda>st. put_back (\<lambda>m. st\<lparr>vst_PVCs := m\<rparr>)
     (remove_entry (''pvcId='' @ i @ '' not found'') i (vst_PVCs st)))"

definition vsm_IsNameAlreadyUsed :: "io_env \<Rightarrow> string \<Rightarrow> string \<Rightarrow> volume_doc disk \<Rightarrow> bool" where
  "vsm_IsNameAlreadyUsed io name namespace0 d =
     (let namespace = (if namespace0 = [] then ''default'' else namespace0) in
      case vsm_withRLock io (\<lambda>st. Inr (range_find (\<lambda>_ c. pv_Name c = name \<and> pv_Namespace c = namespace)
         (vst_PVCs st) \<noteq> None)) d of Inr b \<Rightarrow> b | Inl _ \<Rightarrow> False)"

definition vsm_inv :: "VolumeState \<Rightarrow> bool" where
  "vsm_inv st \<longleftrightarrow> keyed_by pv_PVCId (vst_PVCs st)"

interpretation vsm: object_store "''volume state json broken''" vsm_init vsm_complete vsm_marshal vsm_inv
    vst_PVCs "\<lambda>m st. st\<lparr>vst_PVCs := m\<rparr>" pv_PVCId
  by unfold_locales (simp_all add: vsm_init_def vsm_complete_def vsm_marshal_def vsm_inv_def)

lemmas vsm_unfold = vsm_withLock_def vsm_withRLock_def vsm_atomicSave_def vsm_loadOrInit_def

text \<open>
  A stored volume claim is found under its identifier, bound and with reclaim policy
  \<open>Retain\<close> unless it says otherwise, until it is removed; no other claim is affected.
\<close>

lemma vsm_store_get_remove:
  assumes "disk_inv (\<lambda>r. vsm_inv (vsm_complete r)) d"
  shows "\<exists>d1 d2. vsm_StorePVC io_ok now i spec d = (Inr (), d1) \<and>
     vsm_RemovePVC io_ok i d1 = (Inr (), d2) \<and>
     (\<forall>j. vsm_GetPVCById io_ok j d1 =
        (if j = i then Inr (filled_pvc now i spec) else vsm_GetPVCById io_ok j d)) \<and>
     (\<forall>j. vsm_GetPVCById io_ok j d2 =
        (if j = i then Inl (Msg (''pvcId='' @ i @ '' not found'')) else vsm_GetPVCById io_ok j d))"
  using vsm.store_get_remove [OF assms, of "filled_pvc now i spec" i "''pvcId='' @ i @ '' not found''"]
  unfolding vsm_StorePVC_def vsm_RemovePVC_def vsm_GetPVCById_def vsm_unfold
  by (fastforce simp: filled_pvc_def)

section \<open>Ingresses\<close>

record IngressBackend =
  ib_ServiceName :: string
  ib_ServicePort :: int

record IngressPath =
  ig_Path :: string
  ig_PathType :: string
  ig_Backend :: IngressBackend

record IngressRule =
  ir_Host :: string
  ir_Paths :: "IngressPath list"

record IngressInfo =
  in_IngressId :: string
  in_Name :: string
  in_Namespace :: string
  in_Rules :: "IngressRule list"
  in_TLSHosts :: "string list"
  in_CreatedAt :: time

record IngressState =
  ist_Version :: string
  ist_Ingresses :: "(string, IngressInfo) gomap"

type_synonym ingress_doc = "string \<times> (string, IngressInfo) gomap option"

definition ism_init :: IngressState where
  "ism_init = \<lparr>ist_Version = ''0.1.0'', ist_Ingresses = []\<rparr>"

definition ism_complete :: "ingress_doc \<Rightarrow> IngressState" where
  "ism_complete r = \<lparr>ist_Version = fst r, ist_Ingresses = or_empty (snd r)\<rparr>"

definition ism_marshal :: "IngressState \<Rightarrow> ingress_doc" where
  "ism_marshal st = (ist_Version st, Some (ist_Ingresses st))"

definition ism_loadOrInit :: "ingress_doc read_result \<Rightarrow> IngressState res" where
  "ism_loadOrInit = load_or_init ''ingress state json broken'' ism_init ism_complete"

definition ism_atomicSave :: "io_env \<Rightarrow> IngressState \<Rightarrow> ingress_doc disk \<Rightarrow> unit res \<times> ingress_doc disk" where
  "ism_atomicSave = atomicSave ism_marshal"

definition ism_withLock ::
  "io_env \<Rightarrow> (IngressState \<Rightarrow> (IngressState \<times> 'a) res) \<Rightarrow> ingress_doc disk \<Rightarrow> 'a res \<times> ingress_doc disk" where
  "ism_withLock = withLock ism_loadOrInit ism_atomicSave"

definition ism_withRLock :: "io_env \<Rightarrow> (IngressState \<Rightarrow> 'a res) \<Rightarrow> ingress_doc disk \<Rightarrow> 'a res" where
  "ism_withRLock = withRLock ism_loadOrInit"

definition ism_SetIngressState :: "io_env \<Rightarrow> ingress_doc disk \<Rightarrow> unit res \<times> ingress_doc disk" where
  "ism_SetIngressState io = ism_withLock io (\<lambda>st. Inr (st\<lparr>ist_Version := ''0.1.0''\<rparr>, ()))"

definition filled_ingress :: "time \<Rightarrow> string \<Rightarrow> IngressInfo \<Rightarrow> IngressInfo" where
  "filled_ingress now i spec = spec\<lparr>in_IngressId := i, in_CreatedAt := now\<rparr>"

definition ism_StoreIngress ::
  "io_env \<Rightarrow> time \<Rightarrow> string \<Rightarrow> IngressInfo \<Rightarrow> ingress_doc disk \<Rightarrow> unit res \<times> ingress_doc disk" where
  "ism_StoreIngress io now i spec = ism_withLock io (\<lambda>st.
     Inr (st\<lparr>ist_Ingresses := map_set i (filled_ingress now i spec) (ist_Ingresses st)\<rparr>, ()))"

definition ism_GetIngressList :: "io_env \<Rightarrow> ingress_doc disk \<Rightarrow> IngressInfo list res" where
  "ism_GetIngressList io = ism_withRLock io (\<lambda>st. Inr (map snd (ist_Ingresses st)))"

definition ism_GetIngressById :: "io_env \<Rightarrow> string \<Rightarrow> ingress_doc disk \<Rightarrow> IngressInfo res" where
  "ism_GetIngressById io i = ism_withRLock io (\<lambda>st.
     lookup_entry (''ingressId='' @ i @ '' not found'') i (ist_Ingresses st))"

definition ism_RemoveIngress :: "io_env \<Rightarrow> string \<Rightarrow> ingress_doc disk \<Rightarrow> unit res \<times> ingress_doc disk" where
  "ism_RemoveIngress io i = ism_withLock io (\<lambda>st. put_back (\<lambda>m. st\<lparr>ist_Ingresses := m\<rparr>)
     (remove_entry (''ingressId='' @ i @ '' not found'') i (ist_Ingresses st)))"

definition ism_IsNameAlreadyUsed :: "io_env \<Rightarrow> string \<Rightarrow> string \<Rightarrow> ingress_doc disk \<Rightarrow> bool" where
  "ism_IsNameAlreadyUsed io name namespace0 d =
     (let namespace = namespace0 in
      case ism_withRLock io (\<lambda>st. Inr (range_find (\<lambda>_ c. in_Name c = name \<and> in_Namespace c = namespace)
         (ist_Ingresses st) \<noteq> None)) d of Inr b \<Rightarrow> b | Inl _ \<Rightarrow> False)"

definition ism_inv :: "IngressState \<Rightarrow> bool" where
  "ism_inv st \<longleftrightarrow> keyed_by in_IngressId (ist_Ingresses st)"

interpretation ism: object_store "''ingress state json broken''" ism_init ism_complete ism_marshal ism_inv
    ist_Ingresses "\<lambda>m st. st\<lparr>ist_Ingresses := m\<rparr>" in_IngressId
  by unfold_locales (simp_all add: ism_init_def ism_complete_def ism_marshal_def ism_inv_def)

lemmas ism_unfold = ism_withLock_def ism_withRLock_def ism_atomicSave_def ism_loadOrInit_def

text \<open>
  A stored ingress is found under its identifier until it is removed; no other ingress is
  affected.
\<close>

lemma ism_store_get_remove:
  assumes "disk_inv (\<lambda>r. ism_inv (ism_complete r)) d"
  shows "\<exists>d1 d2. ism_StoreIngress io_ok now i spec d = (Inr (), d1) \<and>
     ism_RemoveIngress io_ok i d1 = (Inr (), d2) \<and>
     (\<forall>j. ism_GetIngressById io_ok j d1 =
        (if j = i then Inr (filled_ingress now i spec) else ism_GetIngressById io_ok j d)) \<and>
     (\<forall>j. ism_GetIngressById io_ok j d2 =
        (if j = i then Inl (Msg (''ingressId='' @ i @ '' not found'')) else ism_GetIngressById io_ok j d))"
  using ism.store_get_remove [OF assms, of "filled_ingress now i spec" i "''ingressId='' @ i @ '' not found''"]
  unfolding ism_StoreIngress_def ism_RemoveIngress_def ism_GetIngressById_def ism_unfold
  by (fastforce simp: filled_ingress_def)

section \<open>Network policies\<close>

record RuleInfo =
  ru_Direction :: string
  ru_PodSelector :: "(string, string) gomap option"
  ru_Protocol :: string
  ru_Port :: int

record NetworkPolicyInfo =
  nw_NetworkPolicyId :: string
  nw_Name :: string
  nw_Namespace :: string
  nw_PodSelector :: "(string, string) gomap option"
  nw_Ingress :: "RuleInfo list"
  nw_Egress :: "RuleInfo list"
  nw_GeneratedRuleIds :: "string list"
  nw_CreatedAt :: time

record NetworkPolicyState =
  nwst_Version :: string
  nwst_NetworkPolicies :: "(string, NetworkPolicyInfo) gomap"

type_synonym netpol_doc = "string \<times> (string, NetworkPolicyInfo) gomap option"

definition netpol_init :: NetworkPolicyState where
  "netpol_init = \<lparr>nwst_Version = ''0.1.0'', nwst_NetworkPolicies = []\<rparr>"

definition netpol_complete :: "netpol_doc \<Rightarrow> NetworkPolicyState" where
  "netpol_complete r = \<lparr>nwst_Version = fst r, nwst_NetworkPolicies = or_empty (snd r)\<rparr>"

definition netpol_marshal :: "NetworkPolicyState \<Rightarrow> netpol_doc" where
  "netpol_marshal st = (nwst_Version st, Some (nwst_NetworkPolicies st))"

definition netpol_loadOrInit :: "netpol_doc read_result \<Rightarrow> NetworkPolicyState res" where
  "netpol_loadOrInit = load_or_init ''networkpolicy state json broken'' netpol_init netpol_complete"

definition netpol_atomicSave :: "io_env \<Rightarrow> NetworkPolicyState \<Rightarrow> netpol_doc disk \<Rightarrow> unit res \<times> netpol_doc disk" where
  "netpol_atomicSave = atomicSave netpol_marshal"

definition netpol_withLock ::
  "io_env \<Rightarrow> (NetworkPolicyState \<Rightarrow> (NetworkPolicyState \<times> 'a) res) \<Rightarrow> netpol_doc disk \<Rightarrow> 'a res \<times> netpol_doc disk" where
  "netpol_withLock = withLock netpol_loadOrInit netpol_atomicSave"

definition netpol_withRLock :: "io_env \<Rightarrow> (NetworkPolicyState \<Rightarrow> 'a res) \<Rightarrow> netpol_doc disk \<Rightarrow> 'a res" where
  "netpol_withRLock = withRLock netpol_loadOrInit"

definition netpol_SetNetworkPolicyState :: "io_env \<Rightarrow> netpol_doc disk \<Rightarrow> unit res \<times> netpol_doc disk" where
  "netpol_SetNetworkPolicyState io = netpol_withLock io (\<lambda>st. Inr (st\<lparr>nwst_Version := ''0.1.0''\<rparr>, ()))"

definition filled_netpol :: "time \<Rightarrow> string \<Rightarrow> NetworkPolicyInfo \<Rightarrow> NetworkPolicyInfo" where
  "filled_netpol now i spec = spec\<lparr>nw_NetworkPolicyId := i,
     nw_Namespace := (if nw_Namespace spec = [] then ''default'' else nw_Namespace spec),
     nw_CreatedAt := (if nw_CreatedAt spec = zero_time then now else nw_CreatedAt spec)\<rparr>"

definition netpol_StoreNetworkPolicy ::
  "io_env \<Rightarrow> time \<Rightarrow> string \<Rightarrow> NetworkPolicyInfo \<Rightarrow> netpol_doc disk \<Rightarrow> unit res \<times> netpol_doc disk" where
  "netpol_StoreNetworkPolicy io now i spec = netpol_withLock io (\<lambda>st.
     Inr (st\<lparr>nwst_NetworkPolicies := map_set i (filled_netpol now i spec) (nwst_NetworkPolicies st)\<rparr>, ()))"

definition netpol_GetNetworkPolicyList :: "io_env \<Rightarrow> netpol_doc disk \<Rightarrow> NetworkPolicyInfo list res" where
  "netpol_GetNetworkPolicyList io = netpol_withRLock io (\<lambda>st. Inr (map snd (nwst_NetworkPolicies st)))"

definition netpol_GetNetworkPolicyById :: "io_env \<Rightarrow> string \<Rightarrow> netpol_doc disk \<Rightarrow> NetworkPolicyInfo res" where
  "netpol_GetNetworkPolicyById io i = netpol_withRLock io (\<lambda>st.
     lookup_entry (''networkPolicyId='' @ i @ '' not found'') i (nwst_NetworkPolicies st))"

definition netpol_GetNetworkPolicyByName :: "io_env \<Rightarrow> string \<Rightarrow> string \<Rightarrow> netpol_doc disk \<Rightarrow> NetworkPolicyInfo res" where
  "netpol_GetNetworkPolicyByName io name namespace0 =
     (let namespace = (if namespace0 = [] then ''default'' else namespace0) in netpol_withRLock io (\<lambda>st.
       case range_find (\<lambda>_ c. nw_Name c = name \<and> nw_Namespace c = namespace) (nwst_NetworkPolicies st) of
         Some (_, c) \<Rightarrow> Inr c
       | None \<Rightarrow> Inl (Msg (''networkpolicy '' @ namespace @ ''/'' @ name @ '' not found''))))"

definition netpol_RemoveNetworkPolicy :: "io_env \<Rightarrow> string \<Rightarrow> netpol_doc disk \<Rightarrow> unit res \<times> netpol_doc disk" where
  "netpol_RemoveNetworkPolicy io i = netpol_withLock io (\<lambda>st. put_back (\<lambda>m. st\<lparr>nwst_NetworkPolicies := m\<rparr>)
     (remove_entry (''networkPolicyId='' @ i @ '' not found'') i (nwst_NetworkPolicies st)))"

definition netpol_IsNameAlreadyUsed :: "io_env \<Rightarrow> string \<Rightarrow> string \<Rightarrow> netpol_doc disk \<Rightarrow> bool" where
  "netpol_IsNameAlreadyUsed io name namespace0 d =
     (let namespace = (if namespace0 = [] then ''default'' else namespace0) in
      case netpol_withRLock io (\<lambda>st. Inr (range_find (\<lambda>_ c. nw_Name c = name \<and> nw_Namespace c = namespace)
         (nwst_NetworkPolicies st) \<noteq> None)) d of Inr b \<Rightarrow> b | Inl _ \<Rightarrow> False)"

definition netpol_UpdateGeneratedRuleIds ::
  "io_env \<Rightarrow> string \<Rightarrow> string list \<Rightarrow> netpol_doc disk \<Rightarrow> unit res \<times> netpol_doc disk" where
  "netpol_UpdateGeneratedRuleIds io i ids = netpol_withLock io (\<lambda>st.
     put_back (\<lambda>m. st\<lparr>nwst_NetworkPolicies := m\<rparr>)
       (update_entry (''networkPolicyId='' @ i @ '' not found'') i (\<lambda>p. p\<lparr>nw_GeneratedRuleIds := ids\<rparr>)
         (nwst_NetworkPolicies st)))"

definition netpol_inv :: "NetworkPolicyState \<Rightarrow> bool" where
  "netpol_inv st \<longleftrightarrow> keyed_by nw_NetworkPolicyId (nwst_NetworkPolicies st)"

interpretation netpol: object_store "''networkpolicy state json broken''" netpol_init netpol_complete netpol_marshal netpol_inv
    nwst_NetworkPolicies "\<lambda>m st. st\<lparr>nwst_NetworkPolicies := m\<rparr>" nw_NetworkPolicyId
  by unfold_locales (simp_all add: netpol_init_def netpol_complete_def netpol_marshal_def netpol_inv_def)

lemmas netpol_unfold = netpol_withLock_def netpol_withRLock_def netpol_atomicSave_def netpol_loadOrInit_def

text \<open>
  A stored network policy is found under its identifier, in namespace \<open>default\<close> unless it
  names one, until it is removed; no other policy is affected.
\<close>

lemma netpol_store_get_remove:
  assumes "disk_inv (\<lambda>r. netpol_inv (netpol_complete r)) d"
  shows "\<exists>d1 d2. netpol_StoreNetworkPolicy io_ok now i spec d = (Inr (), d1) \<and>
     netpol_RemoveNetworkPolicy io_ok i d1 = (Inr (), d2) \<and>
     (\<forall>j. netpol_GetNetworkPolicyById io_ok j d1 =
        (if j = i then Inr (filled_netpol now i spec) else netpol_GetNetworkPolicyById io_ok j d)) \<and>
     (\<forall>j. netpol_GetNetworkPolicyById io_ok j d2 =
        (if j = i then Inl (Msg (''networkPolicyId='' @ i @ '' not found'')) else netpol_GetNetworkPolicyById io_ok j d))"
  using netpol.store_get_remove [OF assms, of "filled_netpol now i spec" i "''networkPolicyId='' @ i @ '' not found''"]
  unfolding netpol_StoreNetworkPolicy_def netpol_RemoveNetworkPolicy_def netpol_GetNetworkPolicyById_def netpol_unfold
  by (fastforce simp: filled_netpol_def)

section \<open>Witnesses\<close>

end
