(* ===== verification/Bottle_Store.thy ===== *)
theory Bottle_Store
  imports Object_Stores
begin

text \<open>
  The bottle store \<open>store/bsm\<close>: a bottle is a set of services with a start order, the containers created
  for them, their policies and their network. Every method of \<open>BsmManager\<close> is a definition.
\<close>

section \<open>Data\<close>

record ServiceSpec =
  ss_Image :: string
  ss_Command :: "string list"
  ss_Env :: "string list"
  ss_Ports :: "string list"
  ss_Mount :: "string list"
  ss_Device :: "string list"
  ss_CapAdd :: "string list"
  ss_CapDrop :: "string list"
  ss_Network :: string
  ss_Tty :: bool
  ss_DependsOn :: "string list"

record PolicyInfo =
  pi_Id :: string
  pi_Type :: string
  pi_Source :: string
  pi_Destination :: string
  pi_Protocol :: string
  pi_DestPort :: int
  pi_Comment :: string

record BottleInfo =
  bo_BottleId :: string
  bo_BottleName :: string
  bo_Services :: "(string, ServiceSpec) gomap option"
  bo_StartOrder :: "string list"
  bo_Containers :: "(string, string) gomap option"
  bo_Policies :: "PolicyInfo list"
  bo_Network :: string
  bo_NetworkAuto :: bool
  bo_CreatedAt :: time

record BottleState =
  bst_Version :: string
  bst_Bottles :: "(string, BottleInfo) gomap"

type_synonym bottle_doc = "string \<times> (string, BottleInfo) gomap option"

section \<open>The store\<close>

definition bsm_init :: BottleState where
  "bsm_init = \<lparr>bst_Version = ''0.1.0'', bst_Bottles = []\<rparr>"

definition bsm_complete :: "bottle_doc \<Rightarrow> BottleState" where
  "bsm_complete r = \<lparr>bst_Version = fst r, bst_Bottles = or_empty (snd r)\<rparr>"

definition bsm_marshal :: "BottleState \<Rightarrow> bottle_doc" where
  "bsm_marshal st = (bst_Version st, Some (bst_Bottles st))"

definition bsm_loadOrInit :: "bottle_doc read_result \<Rightarrow> BottleState res" where
  "bsm_loadOrInit = load_or_init ''bottle state json broken'' bsm_init bsm_complete"

definition bsm_atomicSave :: "io_env \<Rightarrow> BottleState \<Rightarrow> bottle_doc disk \<Rightarrow> unit res \<times> bottle_doc disk" where
  "bsm_atomicSave = atomicSave bsm_marshal"

definition bsm_withLock ::
  "io_env \<Rightarrow> (BottleState \<Rightarrow> (BottleState \<times> 'a) res) \<Rightarrow> bottle_doc disk \<Rightarrow> 'a res \<times> bottle_doc disk" where
  "bsm_withLock = withLock bsm_loadOrInit bsm_atomicSave"

definition bsm_withRLock :: "io_env \<Rightarrow> (BottleState \<Rightarrow> 'a res) \<Rightarrow> bottle_doc disk \<Rightarrow> 'a res" where
  "bsm_withRLock = withRLock bsm_loadOrInit"

definition bsm_SetBottleState :: "io_env \<Rightarrow> bottle_doc disk \<Rightarrow> unit res \<times> bottle_doc disk" where
  "bsm_SetBottleState io = bsm_withLock io (\<lambda>st. Inr (st\<lparr>bst_Version := ''0.1.0''\<rparr>, ()))"

section \<open>Operations that change the state\<close>

definition new_bottle :: "time \<Rightarrow> string \<Rightarrow> string \<Rightarrow> (string, ServiceSpec) gomap option \<Rightarrow> string list \<Rightarrow>
    PolicyInfo list \<Rightarrow> BottleInfo" where
  "new_bottle now bid name svcs order pols = \<lparr>bo_BottleId = bid, bo_BottleName = name, bo_Services = svcs,
     bo_StartOrder = order, bo_Containers = Some [], bo_Policies = pols, bo_Network = [],
     bo_NetworkAuto = False, bo_CreatedAt = now\<rparr>"

definition bsm_StoreBottle :: "io_env \<Rightarrow> time \<Rightarrow> string \<Rightarrow> string \<Rightarrow> (string, ServiceSpec) gomap option \<Rightarrow>
    string list \<Rightarrow> PolicyInfo list \<Rightarrow> bottle_doc disk \<Rightarrow> unit res \<times> bottle_doc disk" where
  "bsm_StoreBottle io now bid name svcs order pols = bsm_withLock io (\<lambda>st.
     Inr (st\<lparr>bst_Bottles := map_set bid (new_bottle now bid name svcs order pols) (bst_Bottles st)\<rparr>, ()))"

definition bsm_RemoveBottle :: "io_env \<Rightarrow> string \<Rightarrow> bottle_doc disk \<Rightarrow> unit res \<times> bottle_doc disk" where
  "bsm_RemoveBottle io bid = bsm_withLock io (\<lambda>st.
     case range_find (\<lambda>_ b. bo_BottleId b = bid) (bst_Bottles st) of
       Some (i, _) \<Rightarrow> Inr (st\<lparr>bst_Bottles := map_del i (bst_Bottles st)\<rparr>, ())
     | None \<Rightarrow> Inl (Msg (''bottleId='' @ bid @ '' not found'')))"

definition bsm_update :: "io_env \<Rightarrow> string \<Rightarrow> (BottleInfo \<Rightarrow> BottleInfo) \<Rightarrow> bottle_doc disk \<Rightarrow>
    unit res \<times> bottle_doc disk" where
  "bsm_update io bid f = bsm_withLock io (\<lambda>st. put_back (\<lambda>m. st\<lparr>bst_Bottles := m\<rparr>)
     (update_entry (''bottleId='' @ bid @ '' not found'') bid f (bst_Bottles st)))"

definition bsm_UpdateBottleContainers ::
  "io_env \<Rightarrow> string \<Rightarrow> (string, string) gomap \<Rightarrow> bottle_doc disk \<Rightarrow> unit res \<times> bottle_doc disk" where
  "bsm_UpdateBottleContainers io bid cs = bsm_update io bid (\<lambda>b. b\<lparr>bo_Containers := Some cs\<rparr>)"

definition bsm_UpdateBottleContainer ::
  "io_env \<Rightarrow> string \<Rightarrow> string \<Rightarrow> string \<Rightarrow> bottle_doc disk \<Rightarrow> unit res \<times> bottle_doc disk" where
  "bsm_UpdateBottleContainer io bid svc cid = bsm_update io bid
     (\<lambda>b. b\<lparr>bo_Containers := Some (map_set svc cid (or_empty (bo_Containers b)))\<rparr>)"

definition bsm_UpdateBottleNetwork ::
  "io_env \<Rightarrow> string \<Rightarrow> string \<Rightarrow> bool \<Rightarrow> bottle_doc disk \<Rightarrow> unit res \<times> bottle_doc disk" where
  "bsm_UpdateBottleNetwork io bid net auto = bsm_update io bid (\<lambda>b. b\<lparr>bo_Network := net, bo_NetworkAuto := auto\<rparr>)"

section \<open>Queries\<close>

definition bsm_GetBottleList :: "io_env \<Rightarrow> bottle_doc disk \<Rightarrow> BottleInfo list res" where
  "bsm_GetBottleList io = bsm_withRLock io (\<lambda>st. Inr (map snd (bst_Bottles st)))"

definition bottle_scan :: "(BottleInfo \<Rightarrow> bool) \<Rightarrow> (BottleInfo \<Rightarrow> 'a) \<Rightarrow> string \<Rightarrow> BottleState \<Rightarrow> 'a res" where
  "bottle_scan p f what st = (case range_find (\<lambda>_ b. p b) (bst_Bottles st) of
       Some (_, b) \<Rightarrow> Inr (f b)
     | None \<Rightarrow> Inl (Msg (''bottle: '' @ what @ '' not found'')))"

definition bsm_GetBottleById :: "io_env \<Rightarrow> string \<Rightarrow> bottle_doc disk \<Rightarrow> BottleInfo res" where
  "bsm_GetBottleById io bid = bsm_withRLock io (bottle_scan (\<lambda>b. bo_BottleId b = bid) (\<lambda>b. b) bid)"

definition bsm_GetBottleByName :: "io_env \<Rightarrow> string \<Rightarrow> bottle_doc disk \<Rightarrow> BottleInfo res" where
  "bsm_GetBottleByName io name = bsm_withRLock io (bottle_scan (\<lambda>b. bo_BottleName b = name) (\<lambda>b. b) name)"

definition bsm_IsNameAlreadyUsed :: "io_env \<Rightarrow> string \<Rightarrow> bottle_doc disk \<Rightarrow> bool" where
  "bsm_IsNameAlreadyUsed io name d =
     (case bsm_withRLock io (\<lambda>st. Inr (range_find (\<lambda>_ b. bo_BottleName b = name) (bst_Bottles st) \<noteq> None)) d of
        Inr b \<Rightarrow> b | Inl _ \<Rightarrow> False)"

definition bsm_GetBottleIdByName :: "io_env \<Rightarrow> string \<Rightarrow> bottle_doc disk \<Rightarrow> string res" where
  "bsm_GetBottleIdByName io name = bsm_withRLock io (bottle_scan (\<lambda>b. bo_BottleName b = name) bo_BottleId name)"

definition bsm_GetBottleNameById :: "io_env \<Rightarrow> string \<Rightarrow> bottle_doc disk \<Rightarrow> string res" where
  "bsm_GetBottleNameById io bid = bsm_withRLock io (bottle_scan (\<lambda>b. bo_BottleId b = bid) bo_BottleName bid)"

definition bsm_GetBottleIdAndName ::
  "io_env \<Rightarrow> io_env \<Rightarrow> string \<Rightarrow> bottle_doc disk \<Rightarrow> (string \<times> string) res" where
  "bsm_GetBottleIdAndName io1 io2 s d =
     (let byName = bsm_GetBottleIdByName io1 s d; byId = bsm_GetBottleNameById io2 s d in
      case byName of Inr i \<Rightarrow> Inr (i, s)
      | Inl _ \<Rightarrow> (case byId of Inr n \<Rightarrow> Inr (s, n)
      | Inl _ \<Rightarrow> Inl (Msg (''bottle: '' @ s @ '' not found''))))"

definition bsm_ResolveBottleId :: "io_env \<Rightarrow> io_env \<Rightarrow> string \<Rightarrow> bottle_doc disk \<Rightarrow> string res" where
  "bsm_ResolveBottleId io1 io2 s d =
     (case bsm_GetBottleIdByName io1 s d of
        Inr i \<Rightarrow> Inr i
      | Inl _ \<Rightarrow> (case bsm_GetBottleById io2 s d of Inl e \<Rightarrow> Inl e | Inr _ \<Rightarrow> Inr s))"

definition bsm_IsBottleExist :: "io_env \<Rightarrow> io_env \<Rightarrow> string \<Rightarrow> bottle_doc disk \<Rightarrow> bool" where
  "bsm_IsBottleExist io1 io2 s d =
     (\<not> (\<not> is_ok (bsm_GetBottleIdByName io1 s d) \<and> \<not> is_ok (bsm_GetBottleNameById io2 s d)))"

section \<open>Invariant\<close>

definition bsm_inv :: "BottleState \<Rightarrow> bool" where
  "bsm_inv st \<longleftrightarrow> keyed_by bo_BottleId (bst_Bottles st)"

interpretation bsm: object_store "''bottle state json broken''" bsm_init bsm_complete bsm_marshal bsm_inv
    bst_Bottles "\<lambda>m st. st\<lparr>bst_Bottles := m\<rparr>" bo_BottleId
  by unfold_locales (simp_all add: bsm_init_def bsm_complete_def bsm_marshal_def bsm_inv_def)

lemmas bsm_unfold = bsm_withLock_def bsm_withRLock_def bsm_atomicSave_def bsm_loadOrInit_def

text \<open>On a well-keyed document a scan for an identifier is a lookup.\<close>

lemma bottle_scan_id:
  assumes "bsm_inv st"
  shows "bottle_scan (\<lambda>b. bo_BottleId b = bid) f what st =
     map_sum id f (lookup_entry (''bottle: '' @ what @ '' not found'') bid (bst_Bottles st))"
  using range_find_key [of bo_BottleId "bst_Bottles st" bid] assms
  by (auto simp: bottle_scan_def lookup_entry_def bsm_inv_def split: option.splits)

lemma bsm_get:
  assumes "bsm_loadOrInit (read_file io_ok d) = Inr st" and "bsm_inv st"
  shows "bsm_GetBottleById io_ok bid d = lookup_entry (''bottle: '' @ bid @ '' not found'') bid (bst_Bottles st)"
proof -
  have "map_sum id (\<lambda>b. b) r = r" for r :: "BottleInfo res" by (cases r) simp_all
  with assms show ?thesis
    by (simp add: bsm_GetBottleById_def bsm_withRLock_def withRLock_io_ok bottle_scan_id)
qed

text \<open>
  A stored bottle is found under its identifier, without containers and network, and can be
  removed by it, after which it is not found; no other bottle is affected by either.
\<close>

lemma bsm_store_get_remove:
  assumes "disk_inv (\<lambda>r. bsm_inv (bsm_complete r)) d"
  shows "\<exists>d1 d2. bsm_StoreBottle io_ok now bid name svcs order pols d = (Inr (), d1) \<and>
     bsm_RemoveBottle io_ok bid d1 = (Inr (), d2) \<and>
     (\<forall>j. bsm_GetBottleById io_ok j d1 =
        (if j = bid then Inr (new_bottle now bid name svcs order pols) else bsm_GetBottleById io_ok j d)) \<and>
     (\<forall>j. bsm_GetBottleById io_ok j d2 =
        (if j = bid then Inl (Msg (''bottle: '' @ bid @ '' not found'')) else bsm_GetBottleById io_ok j d))"
proof -
  let ?b = "new_bottle now bid name svcs order pols"
  have key: "bo_BottleId ?b = bid" by (simp add: new_bottle_def)
  obtain d1 st where d1: "bsm_StoreBottle io_ok now bid name svcs order pols d = (Inr (), d1)"
    "bsm_loadOrInit (read_file io_ok d) = Inr st"
    "bsm_loadOrInit (read_file io_ok d1) = Inr (st\<lparr>bst_Bottles := map_set bid ?b (bst_Bottles st)\<rparr>)"
    using bsm.store_lookup [OF assms key] unfolding bsm_StoreBottle_def bsm_unfold by blast
  have inv: "bsm_inv st" using bsm.load_inv [OF d1(2) [unfolded bsm_loadOrInit_def] assms] .
  let ?st1 = "st\<lparr>bst_Bottles := map_set bid ?b (bst_Bottles st)\<rparr>"
  let ?st2 = "st\<lparr>bst_Bottles := map_del bid (map_set bid ?b (bst_Bottles st))\<rparr>"
  have inv1: "bsm_inv ?st1" using bsm.inv_store [OF inv key] .
  then have inv2: "bsm_inv ?st2" using bsm.inv_remove [OF inv1, of bid] by simp
  obtain d2 where d2: "bsm_RemoveBottle io_ok bid d1 = (Inr (), d2)" "bsm_loadOrInit (read_file io_ok d2) = Inr ?st2"
  proof -
    have "range_find (\<lambda>_ b. bo_BottleId b = bid) (bst_Bottles ?st1) = Some (bid, ?b)"
      using range_find_key [of bo_BottleId "bst_Bottles ?st1" bid] inv1 by (simp add: bsm_inv_def)
    then have "\<exists>d2. bsm_RemoveBottle io_ok bid d1 = (Inr (), d2) \<and> bsm_loadOrInit (read_file io_ok d2) = Inr ?st2"
      using d1(3) bsm.load_after_save [OF inv2]
      by (simp add: bsm_RemoveBottle_def bsm_withLock_def bsm_atomicSave_def withLock_io_ok bsm_loadOrInit_def)
    then show thesis using that by blast
  qed
  show ?thesis
    using d1(1) d2(1)
    by (intro exI [of _ d1] exI [of _ d2])
      (simp add: bsm_get [OF d1(2) inv] bsm_get [OF d1(3) inv1] bsm_get [OF d2(2) inv2] lookup_entry_def)
qed

end
