(* ===== verification/Bottle_Service.thy ===== *)
theory Bottle_Service
  imports Bottle_Store
begin

text \<open>
  The bottle service \<open>core/bottle/service.go\<close>: normalisation of a bottle specification, the start
  order of its services (Kahn's algorithm over \<open>depends_on\<close>), and starting and stopping a bottle.
\<close>

section \<open>Normalisation\<close>

text \<open>The fields of the YAML service specification that normalisation touches are kept apart from the rest.\<close>

record BottleServiceSpec = ServiceSpec +
  ss_DeviceAlt :: "string list"
  ss_CapAddAlt :: "string list"
  ss_CapDropAlt :: "string list"

fun merge_loop :: "string list \<Rightarrow> string list \<Rightarrow> string list" where
  "merge_loop out [] = out"
| "merge_loop out (s # ss) =
     (let v = trim_space s in
      if v = [] then merge_loop out ss
      else if v \<in> set out then merge_loop out ss
      else merge_loop (out @ [v]) ss)"

definition mergeUniqueStrings :: "string list \<Rightarrow> string list \<Rightarrow> string list" where
  "mergeUniqueStrings a b = (if a = [] \<and> b = [] then [] else merge_loop [] (a @ b))"

definition normalize_service :: "BottleServiceSpec \<Rightarrow> BottleServiceSpec" where
  "normalize_service s = s\<lparr>ss_CapAdd := mergeUniqueStrings (ss_CapAdd s) (ss_CapAddAlt s),
     ss_CapDrop := mergeUniqueStrings (ss_CapDrop s) (ss_CapDropAlt s),
     ss_Device := mergeUniqueStrings (ss_Device s) (ss_DeviceAlt s),
     ss_CapAddAlt := [], ss_CapDropAlt := [], ss_DeviceAlt := []\<rparr>"

definition normalizeServiceSpec :: "(string, BottleServiceSpec) gomap \<Rightarrow> (string, BottleServiceSpec) gomap" where
  "normalizeServiceSpec m = (if m = [] then m else map (\<lambda>(k, s). (k, normalize_service s)) m)"

section \<open>Start order\<close>

text \<open>
  The maps \<open>inDegree\<close> and \<open>graph\<close> are read with their zero value for absent keys, so they are
  functions here. \<open>iter\<close> is the order in which the \<open>range\<close> over \<open>inDegree\<close> visits the names.
\<close>

definition hex_digit :: "nat \<Rightarrow> char" where
  "hex_digit n = (if n < 10 then char_of (48 + n) else char_of (87 + n))"

text \<open>The verb \<open>%q\<close> on ASCII text.\<close>

fun quote_char :: "char \<Rightarrow> string" where
  "quote_char c = (let n = (of_char c :: nat) in
     if n = 0x22 \<or> n = 0x5C then [CHR 0x5C, c]
     else if 0x20 \<le> n \<and> n \<noteq> 0x7F then [c]
     else if 7 \<le> n \<and> n \<le> 13 then [CHR 0x5C, ''abtnvfr'' ! (n - 7)]
     else [CHR 0x5C, CHR ''x'', hex_digit (n div 16), hex_digit (n mod 16)])"

definition go_quote :: "string \<Rightarrow> string" where
  "go_quote s = CHR 0x22 # concat (map quote_char s) @ [CHR 0x22]"

type_synonym dep_graph = "(string \<Rightarrow> string list) \<times> (string \<Rightarrow> int)"

fun deps_loop :: "(string, 'v) gomap \<Rightarrow> string \<Rightarrow> string list \<Rightarrow> dep_graph \<Rightarrow> dep_graph res" where
  "deps_loop svcs name [] acc = Inr acc"
| "deps_loop svcs name (dep # deps) (graph, inDegree) =
     (if map_of svcs dep = None
      then Inl (Msg (''service '' @ go_quote name @ '' depends on unknown service '' @ go_quote dep))
      else deps_loop svcs name deps (graph(dep := graph dep @ [name]), inDegree(name := inDegree name + 1)))"

fun services_loop :: "(string, BottleServiceSpec) gomap \<Rightarrow> (string, BottleServiceSpec) gomap \<Rightarrow> dep_graph \<Rightarrow>
    dep_graph res" where
  "services_loop svcs [] acc = Inr acc"
| "services_loop svcs ((name, svc) # rest) acc =
     (case deps_loop svcs name (ss_DependsOn svc) acc of Inl e \<Rightarrow> Inl e | Inr acc' \<Rightarrow> services_loop svcs rest acc')"

fun relax_loop :: "string list \<Rightarrow> (string \<Rightarrow> int) \<Rightarrow> string list \<Rightarrow> (string \<Rightarrow> int) \<times> string list" where
  "relax_loop [] inDegree queue = (inDegree, queue)"
| "relax_loop (next # rest) inDegree queue =
     (let d = inDegree(next := inDegree next - 1) in
      relax_loop rest d (if d next = 0 then queue @ [next] else queue))"

text \<open>The main loop; \<open>None\<close> when the fuel runs out, which \<open>start_order_correct\<close> excludes.\<close>

fun kahn_loop :: "nat \<Rightarrow> (string \<Rightarrow> string list) \<Rightarrow> (string \<Rightarrow> int) \<Rightarrow> string list \<Rightarrow> string list \<Rightarrow> string list option" where
  "kahn_loop fuel graph inDegree [] order = Some order"
| "kahn_loop 0 graph inDegree (n # queue) order = None"
| "kahn_loop (Suc fuel) graph inDegree (n # queue) order =
     (let (d, q) = relax_loop (graph n) inDegree queue in kahn_loop fuel graph d q (order @ [n]))"

definition BuildStartOrder :: "string list \<Rightarrow> (string, BottleServiceSpec) gomap \<Rightarrow> string list res" where
  "BuildStartOrder iter svcs =
     (case services_loop svcs svcs (\<lambda>_. [], \<lambda>_. 0) of
        Inl e \<Rightarrow> Inl e
      | Inr (graph, inDegree) \<Rightarrow>
          (case kahn_loop (length svcs) graph inDegree (filter (\<lambda>n. inDegree n = 0) iter) [] of
             None \<Rightarrow> Inl (Panic ''diverges'')
           | Some order \<Rightarrow>
               if length order \<noteq> length svcs then Inl (Msg ''dependency cycle detected'') else Inr order))"

section \<open>What the graph construction builds\<close>

abbreviation deps_of :: "(string, BottleServiceSpec) gomap \<Rightarrow> string \<Rightarrow> string list" where
  "deps_of svcs s \<equiv> (case map_of svcs s of None \<Rightarrow> [] | Some svc \<Rightarrow> ss_DependsOn svc)"

lemma deps_loop_ok:
  assumes "\<forall>x \<in> set deps. map_of svcs x \<noteq> None"
  shows "\<exists>g' d'. deps_loop svcs name deps (g, d) = Inr (g', d') \<and>
     (\<forall>n s. count_list (g' n) s = count_list (g n) s + (if s = name then count_list deps n else 0)) \<and>
     (\<forall>s. d' s = d s + (if s = name then int (length deps) else 0))"
  using assms
proof (induction deps arbitrary: g d)
  case (Cons x deps)
  obtain g' d' where
    "deps_loop svcs name deps (g(x := g x @ [name]), d(name := d name + 1)) = Inr (g', d')"
    "\<forall>n s. count_list (g' n) s = count_list ((g(x := g x @ [name])) n) s + (if s = name then count_list deps n else 0)"
    "\<forall>s. d' s = (d(name := d name + 1)) s + (if s = name then int (length deps) else 0)"
    using Cons.IH [of "g(x := g x @ [name])" "d(name := d name + 1)"] Cons.prems by (meson list.set_intros(2))
  with Cons.prems show ?case by auto
qed simp

definition unknown_dep :: "string \<Rightarrow> string \<Rightarrow> go_error" where
  "unknown_dep name x = Msg (''service '' @ go_quote name @ '' depends on unknown service '' @ go_quote x)"

lemma deps_loop_err:
  "deps_loop svcs name deps acc = Inl e \<Longrightarrow> \<exists>x \<in> set deps. map_of svcs x = None \<and> e = unknown_dep name x"
  by (induction svcs name deps acc rule: deps_loop.induct) (auto simp: unknown_dep_def split: if_splits)

lemma deps_loop_Inr:
  "deps_loop svcs name deps acc = Inr acc' \<Longrightarrow> \<forall>x \<in> set deps. map_of svcs x \<noteq> None"
  by (induction svcs name deps acc rule: deps_loop.induct) (auto split: if_splits)

text \<open>Every dependency names a service.\<close>

definition deps_known :: "(string, BottleServiceSpec) gomap \<Rightarrow> bool" where
  "deps_known svcs \<longleftrightarrow> (\<forall>(s, svc) \<in> set svcs. \<forall>x \<in> set (ss_DependsOn svc). map_of svcs x \<noteq> None)"

lemma services_loop_ok:
  assumes "\<forall>(s, svc) \<in> set rest. \<forall>x \<in> set (ss_DependsOn svc). map_of svcs x \<noteq> None" and "wf_map rest"
  shows "\<exists>g' d'. services_loop svcs rest (g, d) = Inr (g', d') \<and>
     (\<forall>n s. count_list (g' n) s = count_list (g n) s + count_list (deps_of rest s) n) \<and>
     (\<forall>s. d' s = d s + int (length (deps_of rest s)))"
  using assms
proof (induction rest arbitrary: g d)
  case (Cons r rest)
  obtain name svc where r: "r = (name, svc)" by (cases r)
  obtain g1 d1 where 1: "deps_loop svcs name (ss_DependsOn svc) (g, d) = Inr (g1, d1)"
    "\<forall>n s. count_list (g1 n) s = count_list (g n) s + (if s = name then count_list (ss_DependsOn svc) n else 0)"
    "\<forall>s. d1 s = d s + (if s = name then int (length (ss_DependsOn svc)) else 0)"
    using deps_loop_ok [of "ss_DependsOn svc" svcs name g d] Cons.prems(1) r by auto
  obtain g' d' where 2: "services_loop svcs rest (g1, d1) = Inr (g', d')"
    "\<forall>n s. count_list (g' n) s = count_list (g1 n) s + count_list (deps_of rest s) n"
    "\<forall>s. d' s = d1 s + int (length (deps_of rest s))"
    using Cons.IH [of g1 d1] Cons.prems r by auto
  have "map_of rest name = None" using Cons.prems(2) r by (simp add: map_of_eq_None_iff)
  with 1 2 r show ?case by auto
qed simp

lemma services_loop_err:
  "services_loop svcs rest acc = Inl e \<Longrightarrow>
     \<exists>(s, svc) \<in> set rest. \<exists>x \<in> set (ss_DependsOn svc). map_of svcs x = None \<and> e = unknown_dep s x"
proof (induction rest arbitrary: acc)
  case (Cons r rest)
  obtain name svc where r: "r = (name, svc)" by (cases r)
  show ?case
  proof (cases "deps_loop svcs name (ss_DependsOn svc) acc")
    case (Inl x)
    with Cons.prems r have "x = e" by simp
    with deps_loop_err [OF Inl] r show ?thesis by auto
  next
    case (Inr acc')
    with Cons.prems r have "services_loop svcs rest acc' = Inl e" by simp
    from Cons.IH [OF this] show ?thesis by auto
  qed
qed simp

lemma services_loop_Inr:
  "services_loop svcs rest acc = Inr acc' \<Longrightarrow>
     \<forall>(s, svc) \<in> set rest. \<forall>x \<in> set (ss_DependsOn svc). map_of svcs x \<noteq> None"
proof (induction rest arbitrary: acc)
  case (Cons r rest)
  obtain name svc where r: "r = (name, svc)" by (cases r)
  obtain a where a: "deps_loop svcs name (ss_DependsOn svc) acc = Inr a" "services_loop svcs rest a = Inr acc'"
    using Cons.prems r by (auto split: sum.splits)
  from deps_loop_Inr [OF a(1)] Cons.IH [OF a(2)] r show ?case by auto
qed simp

section \<open>The main loop\<close>

lemma relax_loop_spec:
  assumes "\<forall>s. int (count_list ns s) \<le> d s"
  shows "\<exists>r. relax_loop ns d q = (\<lambda>s. d s - int (count_list ns s), q @ r) \<and> distinct r \<and>
     set r = {s \<in> set ns. d s = int (count_list ns s)}"
  using assms
proof (induction ns arbitrary: d q)
  case (Cons x ns)
  let ?d = "d(x := d x - 1)"
  let ?q = "if ?d x = 0 then q @ [x] else q"
  have le: "\<forall>s. int (count_list ns s) \<le> ?d s"
  proof
    fix s show "int (count_list ns s) \<le> ?d s" using spec [OF Cons.prems, of s] by (auto split: if_splits)
  qed
  obtain r where r: "relax_loop ns ?d ?q = (\<lambda>s. ?d s - int (count_list ns s), ?q @ r)" "distinct r"
     "set r = {s \<in> set ns. ?d s = int (count_list ns s)}"
    using Cons.IH [OF le, of ?q] by blast
  have fn: "(\<lambda>s. ?d s - int (count_list ns s)) = (\<lambda>s. d s - int (count_list (x # ns) s))" by auto
  have zero: "x \<notin> set ns" if "d x = 1"
    using spec [OF le, of x] that count_list_0_iff [of ns x] by simp
  show ?case
  proof (cases "d x = 1")
    case True
    have "set (x # r) = {s \<in> set (x # ns). d s = int (count_list (x # ns) s)}"
      using r(3) zero [OF True] True by (auto simp: count_list_0_iff)
    moreover have "x \<notin> set r" using r(3) zero [OF True] by simp
    ultimately show ?thesis using r True fn by (intro exI [of _ "x # r"]) simp
  next
    case False
    have "set r = {s \<in> set (x # ns). d s = int (count_list (x # ns) s)}"
    proof -
      have "x \<in> set ns" if "d x = int (count_list (x # ns) x)"
        using that False count_list_0_iff [of ns x] by auto
      then show ?thesis using r(3) by auto
    qed
    then show ?thesis using r False fn by (intro exI [of _ r]) simp
  qed
qed simp

text \<open>
  The loop invariant: \<open>inDegree\<close> counts the dependencies not yet started, the services with count
  zero are those started or queued, and what is started so far is in dependency order.
\<close>

definition kahn_inv :: "(string, BottleServiceSpec) gomap \<Rightarrow> (string \<Rightarrow> int) \<Rightarrow> string list \<Rightarrow> string list \<Rightarrow> bool" where
  "kahn_inv svcs d q order \<longleftrightarrow>
     (\<forall>s. d s = int (length (filter (\<lambda>x. x \<notin> set order) (deps_of svcs s)))) \<and>
     distinct (order @ q) \<and> set (order @ q) \<subseteq> fst ` set svcs \<and>
     (\<forall>s \<in> fst ` set svcs. d s = 0 \<longleftrightarrow> s \<in> set (order @ q)) \<and>
     (\<forall>i < length order. set (deps_of svcs (order ! i)) \<subseteq> set (take i order))"

lemma filter_insert_count:
  "n \<notin> A \<Longrightarrow> length (filter (\<lambda>x. x \<notin> insert n A) xs) + count_list xs n = length (filter (\<lambda>x. x \<notin> A) xs)"
  by (induction xs) auto

lemma deps_of_dom: "deps_of svcs s \<noteq> [] \<Longrightarrow> s \<in> fst ` set svcs"
  by (auto split: option.splits dest: map_of_SomeD simp: rev_image_eqI)

lemma kahn_step:
  assumes inv: "kahn_inv svcs d (n # q) order" and g: "\<forall>n s. count_list (g n) s = count_list (deps_of svcs s) n"
    and r: "relax_loop (g n) d q = (d', q')"
  shows "kahn_inv svcs d' q' (order @ [n])"
proof -
  have n: "n \<notin> set order" and deg: "\<And>s. d s = int (length (filter (\<lambda>x. x \<notin> set order) (deps_of svcs s)))"
    and zero: "\<And>s. s \<in> fst ` set svcs \<Longrightarrow> d s = 0 \<longleftrightarrow> s \<in> set (order @ n # q)"
    using inv by (auto simp: kahn_inv_def)
  have cnt: "int (length (filter (\<lambda>x. x \<notin> set (order @ [n])) (deps_of svcs s))) = d s - int (count_list (g n) s)" for s
    using filter_insert_count [OF n, of "deps_of svcs s"] g deg [of s] by simp
  then have le: "\<forall>s. int (count_list (g n) s) \<le> d s" by (metis diff_ge_0_iff_ge of_nat_0_le_iff)
  obtain new where new: "d' = (\<lambda>s. d s - int (count_list (g n) s))" "q' = q @ new" "distinct new"
    "set new = {s \<in> set (g n). d s = int (count_list (g n) s)}"
    using relax_loop_spec [OF le, of q] r by auto
  have gn: "s \<in> set (g n) \<longleftrightarrow> n \<in> set (deps_of svcs s)" for s
    using g by (metis count_list_0_iff)
  have fresh: "s \<notin> set (order @ n # q) \<and> s \<in> fst ` set svcs" if s: "s \<in> set new" for s
  proof -
    have "n \<in> set (deps_of svcs s)" using s new(4) gn by simp
    then have dom: "s \<in> fst ` set svcs" using deps_of_dom [of svcs s] by (metis empty_iff empty_set)
    have "count_list (g n) s \<noteq> 0" using s new(4) count_list_0_iff [of "g n" s] by auto
    then have "d s \<noteq> 0" using s new(4) by auto
    with zero [OF dom] dom show ?thesis by simp
  qed
  have "distinct ((order @ [n]) @ q')" using inv new(2,3) fresh by (auto simp: kahn_inv_def)
  moreover have "set ((order @ [n]) @ q') \<subseteq> fst ` set svcs" using inv new(2) fresh by (auto simp: kahn_inv_def)
  moreover have "d' s = 0 \<longleftrightarrow> s \<in> set ((order @ [n]) @ q')" if dom: "s \<in> fst ` set svcs" for s
  proof (cases "s \<in> set (g n)")
    case True
    then have "count_list (g n) s \<noteq> 0" by (simp add: count_list_0_iff)
    then have "d s \<noteq> 0" using le by (metis int_eq_iff_numeral le_zero_eq linorder_not_less nat_less_le of_nat_0 of_nat_le_0_iff)
    with zero [OF dom] True new show ?thesis by auto
  next
    case False
    then have "count_list (g n) s = 0" "s \<notin> set new" using new(4) by (simp_all add: count_list_0_iff)
    with zero [OF dom] new(1,2) show ?thesis by auto
  qed
  moreover have "set (deps_of svcs ((order @ [n]) ! i)) \<subseteq> set (take i (order @ [n]))" if "i < length (order @ [n])" for i
  proof (cases "i < length order")
    case True
    then show ?thesis using inv by (simp add: kahn_inv_def nth_append)
  next
    case False
    then have i: "i = length order" using that by simp
    have "n \<in> fst ` set svcs" using inv by (simp add: kahn_inv_def)
    then have "d n = 0" using zero by simp
    then have "set (deps_of svcs n) \<subseteq> set order" using deg [of n] by (auto simp: filter_empty_conv)
    then show ?thesis by (simp add: i)
  qed
  ultimately show ?thesis unfolding kahn_inv_def using cnt new(1) by auto
qed

lemma kahn_result:
  assumes "kahn_inv svcs d q order" and "\<forall>n s. count_list (g n) s = count_list (deps_of svcs s) n"
    and "wf_map svcs" and "fuel + length order = length svcs"
  shows "\<exists>order' d'. kahn_loop fuel g d q order = Some order' \<and> kahn_inv svcs d' [] order'"
  using assms
proof (induction fuel g d q order rule: kahn_loop.induct)
  case (2 g d n q order)
  have "card (set (order @ n # q)) \<le> card (fst ` set svcs)"
    using 2(1) by (intro card_mono) (auto simp: kahn_inv_def)
  moreover have "card (fst ` set svcs) = length svcs" using 2(3) by (metis distinct_card length_map list.set_map)
  moreover have "card (set (order @ n # q)) = length (order @ n # q)" using 2(1) by (intro distinct_card) (simp add: kahn_inv_def)
  ultimately show ?case using 2(4) by simp
next
  case (3 fuel g d n q order)
  obtain d' q' where r: "relax_loop (g n) d q = (d', q')" by force
  have "kahn_inv svcs d' q' (order @ [n])" using kahn_step [OF 3(2) 3(3) r] .
  with 3 r show ?case by simp
qed auto

section \<open>Properties\<close>

text \<open>The dependency relation of a specification.\<close>

definition depends :: "(string, BottleServiceSpec) gomap \<Rightarrow> (string \<times> string) set" where
  "depends svcs = {(x, s). (s \<in> fst ` set svcs) \<and> x \<in> set (deps_of svcs s)}"

lemma kahn_init:
  assumes "mset iter = mset (map fst svcs)" and "wf_map svcs" and "\<forall>s. d s = int (length (deps_of svcs s))"
  shows "kahn_inv svcs d (filter (\<lambda>n. d n = 0) iter) []"
proof -
  have "distinct iter" "set iter = fst ` set svcs"
    using assms(1,2) mset_eq_setD [OF assms(1)] mset_eq_imp_distinct_iff [OF assms(1)] by auto
  with assms(3) show ?thesis by (auto simp: kahn_inv_def)
qed

lemma start_order_known:
  assumes "mset iter = mset (map fst svcs)" and "wf_map svcs" and "deps_known svcs"
  shows "\<exists>order d. kahn_inv svcs d [] order \<and> BuildStartOrder iter svcs =
     (if length order \<noteq> length svcs then Inl (Msg ''dependency cycle detected'') else Inr order)"
proof -
  obtain g d where g: "services_loop svcs svcs (\<lambda>_. [], \<lambda>_. 0) = Inr (g, d)"
     "\<forall>n s. count_list (g n) s = count_list (deps_of svcs s) n" "\<forall>s. d s = int (length (deps_of svcs s))"
    using services_loop_ok [of svcs svcs "\<lambda>_. []" "\<lambda>_. 0"] assms(2,3) by (auto simp: deps_known_def)
  obtain order d' where "kahn_loop (length svcs) g d (filter (\<lambda>n. d n = 0) iter) [] = Some order" "kahn_inv svcs d' [] order"
    using kahn_result [OF kahn_init [OF assms(1,2) g(3)] g(2) assms(2), of "length svcs"] by auto
  with g(1) show ?thesis by (auto simp: BuildStartOrder_def)
qed

lemma start_order_unknown:
  assumes "\<not> deps_known svcs"
  shows "\<exists>s svc x. (s, svc) \<in> set svcs \<and> x \<in> set (ss_DependsOn svc) \<and> map_of svcs x = None \<and>
     BuildStartOrder iter svcs = Inl (unknown_dep s x)"
proof (cases "services_loop svcs svcs (\<lambda>_. [], \<lambda>_. 0)")
  case (Inl e)
  from services_loop_err [OF this] Inl show ?thesis by (auto simp: BuildStartOrder_def)
next
  case (Inr acc)
  from services_loop_Inr [OF this] assms show ?thesis by (auto simp: deps_known_def)
qed

text \<open>When the queue runs empty the services left over are those on or behind a cycle.\<close>

lemma kahn_complete:
  assumes inv: "kahn_inv svcs d [] order" and "wf_map svcs" and known: "deps_known svcs"
  shows "length order = length svcs \<longleftrightarrow> acyclic (depends svcs)"
proof
  have card: "card (fst ` set svcs) = length svcs" using assms(2) by (metis distinct_card length_map list.set_map)
  have ord: "distinct order" "set order \<subseteq> fst ` set svcs" using inv by (auto simp: kahn_inv_def)
  assume "length order = length svcs"
  then have all: "set order = fst ` set svcs"
    using card ord by (metis card_subset_eq distinct_card finite_imageI List.finite_set)
  let ?pos = "\<lambda>x. THE i. i < length order \<and> order ! i = x"
  have pos: "?pos (order ! i) = i" if "i < length order" for i
    using that ord(1) by (intro the_equality) (auto simp: nth_eq_iff_index_eq)
  have "depends svcs \<subseteq> measure ?pos"
  proof
    fix e assume e: "e \<in> depends svcs"
    obtain x s where xs: "e = (x, s)" "s \<in> fst ` set svcs" "x \<in> set (deps_of svcs s)"
      using e unfolding depends_def by blast
    obtain j where j: "j < length order" "order ! j = s" using all xs(2) by (metis in_set_conv_nth)
    have "set (deps_of svcs (order ! j)) \<subseteq> set (take j order)" using inv j(1) unfolding kahn_inv_def by blast
    then have "x \<in> set (take j order)" using xs(3) j(2) by blast
    then obtain i where i: "i < j" "order ! i = x" using j(1) by (auto simp: in_set_conv_nth)
    show "e \<in> measure ?pos" using pos [of i] pos [of j] i j xs(1) by auto
  qed
  then show "acyclic (depends svcs)" by (metis wf_acyclic wf_measure wf_subset)
next
  have card: "card (fst ` set svcs) = length svcs" using assms(2) by (metis distinct_card length_map list.set_map)
  have ord: "distinct order" "set order \<subseteq> fst ` set svcs" using inv by (auto simp: kahn_inv_def)
  assume ac: "acyclic (depends svcs)"
  have dep_dom: "x \<in> fst ` set svcs" if dep: "x \<in> set (deps_of svcs s)" for s x
  proof -
    obtain svc where "map_of svcs s = Some svc" "x \<in> set (ss_DependsOn svc)"
      using dep by (cases "map_of svcs s") auto
    then have "map_of svcs x \<noteq> None" using known map_of_SomeD unfolding deps_known_def by fastforce
    then show ?thesis unfolding map_of_neq_None .
  qed
  have "finite (depends svcs)"
  proof (rule finite_subset)
    show "depends svcs \<subseteq> fst ` set svcs \<times> fst ` set svcs" using dep_dom unfolding depends_def by blast
  qed simp
  then have wf: "wf (depends svcs)" using ac by (rule finite_acyclic_wf)
  have "set order = fst ` set svcs"
  proof (rule ccontr)
    assume "set order \<noteq> fst ` set svcs"
    then obtain z where "z \<in> fst ` set svcs - set order" using ord(2) by blast
    then obtain s where s: "s \<in> fst ` set svcs - set order"
      "\<And>x. (x, s) \<in> depends svcs \<Longrightarrow> x \<notin> fst ` set svcs - set order" using wf by (metis wfE_min)
    have "set (deps_of svcs s) \<subseteq> set order" using s dep_dom [of _ s] unfolding depends_def by blast
    then have "d s = 0" using inv by (auto simp: kahn_inv_def filter_empty_conv)
    with inv s(1) show False by (auto simp: kahn_inv_def)
  qed
  then show "length order = length svcs" using card ord(1) by (metis distinct_card)
qed

lemma start_order_spec:
  assumes "mset iter = mset (map fst svcs)" and "wf_map svcs"
  shows "case BuildStartOrder iter svcs of
     Inr order \<Rightarrow> deps_known svcs \<and> distinct order \<and> set order = fst ` set svcs \<and>
       (\<forall>i < length order. \<forall>x \<in> set (deps_of svcs (order ! i)). \<exists>j < i. order ! j = x)
   | Inl e \<Rightarrow> (deps_known svcs \<and> \<not> acyclic (depends svcs) \<and> e = Msg ''dependency cycle detected'') \<or>
       (\<exists>s svc x. (s, svc) \<in> set svcs \<and> x \<in> set (ss_DependsOn svc) \<and> map_of svcs x = None \<and> e = unknown_dep s x)"
proof (cases "deps_known svcs")
  case False
  then obtain s svc x where "(s, svc) \<in> set svcs" "x \<in> set (ss_DependsOn svc)" "map_of svcs x = None"
    and r: "BuildStartOrder iter svcs = Inl (unknown_dep s x)"
    using start_order_unknown [of svcs iter] by blast
  then show ?thesis unfolding r sum.case by blast
next
  case True
  obtain order d where o: "kahn_inv svcs d [] order" "BuildStartOrder iter svcs =
     (if length order \<noteq> length svcs then Inl (Msg ''dependency cycle detected'') else Inr order)"
    using start_order_known [OF assms True] by blast
  show ?thesis
  proof (cases "length order = length svcs")
    case False
    with o kahn_complete [OF o(1) assms(2) True] True show ?thesis by simp
  next
    case len: True
    have ord: "distinct order" "set order \<subseteq> fst ` set svcs" using o(1) by (auto simp: kahn_inv_def)
    have "card (fst ` set svcs) = length svcs" using assms(2) by (metis distinct_card length_map list.set_map)
    then have "set order = fst ` set svcs"
      using ord len by (metis card_subset_eq distinct_card finite_imageI List.finite_set)
    moreover have "\<exists>j < i. order ! j = x" if "i < length order" "x \<in> set (deps_of svcs (order ! i))" for i x
    proof -
      have "x \<in> set (take i order)" using o(1) that unfolding kahn_inv_def by blast
      then show ?thesis using that(1) by (auto simp: in_set_conv_nth)
    qed
    ultimately show ?thesis using o(2) len ord(1) True by simp
  qed
qed

text \<open>
  Property C17. The start order of a bottle, for every iteration order of its maps: an unknown dependency
  is reported by name; with all dependencies known the call always ends, fails exactly when
  the dependencies are cyclic, and otherwise lists every service once, after all the services it depends on.
\<close>

theorem BuildStartOrder_correct:
  assumes "mset iter = mset (map fst svcs)" and "wf_map svcs"
  shows "case BuildStartOrder iter svcs of
     Inr order \<Rightarrow> deps_known svcs \<and> distinct order \<and> set order = fst ` set svcs \<and>
       (\<forall>i < length order. \<forall>x \<in> set (deps_of svcs (order ! i)). \<exists>j < i. order ! j = x)
   | Inl e \<Rightarrow> (deps_known svcs \<and> \<not> acyclic (depends svcs) \<and> e = Msg ''dependency cycle detected'') \<or>
       (\<exists>s svc x. (s, svc) \<in> set svcs \<and> x \<in> set (ss_DependsOn svc) \<and> map_of svcs x = None \<and> e = unknown_dep s x)"
  using assms by (rule start_order_spec)

text \<open>A three-service bottle, its map visited in the order \<open>web, db, cache\<close>.\<close>

definition witness_services :: "(string, BottleServiceSpec) gomap" where
  "witness_services =
     (let svc = (\<lambda>deps. \<lparr>ss_Image = ''img'', ss_Command = [], ss_Env = [], ss_Ports = [], ss_Mount = [], ss_Device = [],
        ss_CapAdd = [], ss_CapDrop = [], ss_Network = [], ss_Tty = False, ss_DependsOn = deps,
        ss_DeviceAlt = [], ss_CapAddAlt = [], ss_CapDropAlt = []\<rparr>) in
      [(''web'', svc [''cache'', ''db'']), (''db'', svc []), (''cache'', svc [''db''])])"

theorem BuildStartOrder_correct_witness:
  "BuildStartOrder [''web'', ''db'', ''cache''] witness_services = Inr [''db'', ''cache'', ''web''] \<and>
     deps_known witness_services"
proof -
  have "mset [''web'', ''db'', ''cache''] = mset (map fst witness_services)" "wf_map witness_services"
    by (simp_all add: witness_services_def)
  note c = BuildStartOrder_correct [OF this]
  have "BuildStartOrder [''web'', ''db'', ''cache''] witness_services = Inr [''db'', ''cache'', ''web'']"
    by (simp add: BuildStartOrder_def witness_services_def)
  with c show ?thesis by simp
qed

section \<open>Normalisation\<close>

lemma merge_loop_spec:
  assumes "distinct out"
  shows "distinct (merge_loop out ss) \<and> set (merge_loop out ss) = set out \<union> (trim_space ` set ss - {[]})"
  using assms by (induction out ss rule: merge_loop.induct) (auto simp: Let_def)

lemma trim_space_idem [simp]: "trim_space (trim_space s) = trim_space s"
proof -
  have d: "dropWhile is_space (dropWhile is_space xs) = dropWhile is_space xs" for xs
    by (simp add: dropWhile_idem)
  let ?t = "rev (dropWhile is_space (rev (dropWhile is_space s)))"
  have "dropWhile is_space ?t = ?t"
  proof (cases ?t)
    case Nil
    then show ?thesis by (metis dropWhile.simps(1))
  next
    case (Cons c cs)
    obtain zs where "dropWhile is_space s = ?t @ zs"
      by (metis rev_append rev_rev_ident takeWhile_dropWhile_id)
    then have "hd (dropWhile is_space s) = c" "dropWhile is_space s \<noteq> []" using Cons by simp_all
    then have "\<not> is_space c" using hd_dropWhile by blast
    then show ?thesis using Cons by simp
  qed
  then show ?thesis by (simp add: trim_space_def d)
qed

lemma merge_loop_clean:
  "distinct (out @ ss) \<Longrightarrow> \<forall>s \<in> set ss. trim_space s = s \<and> s \<noteq> [] \<Longrightarrow> merge_loop out ss = out @ ss"
  by (induction out ss rule: merge_loop.induct) (auto simp: Let_def)

text \<open>
  Merging the two spellings of a list option (\<open>capAdd\<close> and \<open>cap-add\<close>, ...) gives every trimmed
  non-empty entry of either exactly once, and normalising a second time changes nothing.
\<close>

lemma mergeUniqueStrings_correct:
  "distinct (mergeUniqueStrings a b) \<and>
   set (mergeUniqueStrings a b) = trim_space ` (set a \<union> set b) - {[]} \<and>
   normalizeServiceSpec (normalizeServiceSpec m) = normalizeServiceSpec m"
proof -
  have spec: "distinct (mergeUniqueStrings a b) \<and> set (mergeUniqueStrings a b) = trim_space ` (set a \<union> set b) - {[]}"
    for a b using merge_loop_spec [of "[]" "a @ b"] by (auto simp: mergeUniqueStrings_def)
  have again: "mergeUniqueStrings (mergeUniqueStrings a b) [] = mergeUniqueStrings a b" for a b
  proof -
    have "\<forall>s \<in> set (mergeUniqueStrings a b). trim_space s = s \<and> s \<noteq> []" using spec [of a b] by auto
    then have "merge_loop [] (mergeUniqueStrings a b) = mergeUniqueStrings a b"
      using merge_loop_clean [of "[]" "mergeUniqueStrings a b"] spec [of a b] by (metis append_Nil)
    then show ?thesis unfolding mergeUniqueStrings_def [of "mergeUniqueStrings a b" "[]"] by (metis append_Nil2)
  qed
  have "normalize_service (normalize_service s) = normalize_service s" for s
    by (simp add: normalize_service_def again)
  then have "normalizeServiceSpec (normalizeServiceSpec m) = normalizeServiceSpec m"
    by (auto simp: normalizeServiceSpec_def)
  with spec show ?thesis by blast
qed

end
