(* ===== verification/Bottle_Lifecycle.thy ===== *)
theory Bottle_Lifecycle
  imports Bottle_Service
begin

text \<open>
  Creating, starting, stopping and deleting a bottle (\<open>core/bottle/service.go\<close>). The container, network and
  policy services are reached through interfaces; a run of a bottle operation is the sequence of
  calls it makes to them, each with its answer, together with the bottle document it leaves behind.
\<close>

section \<open>The services a bottle relies on\<close>

record ServiceCreateModel =
  sc_Image :: string
  sc_Command :: "string list"
  sc_Port :: "string list"
  sc_Mount :: "string list"
  sc_Device :: "string list"
  sc_Env :: "string list"
  sc_CapAdd :: "string list"
  sc_CapDrop :: "string list"
  sc_Network :: string
  sc_Tty :: bool
  sc_Name :: string
  sc_BottleId :: string

datatype service_call =
    Container_Create ServiceCreateModel
  | Container_Start string bool
  | Container_Stop string
  | Container_Delete string
  | CreateNewNetwork string
  | RemoveNetwork string
  | RemoveUserPolicy string
  | CommitPolicy

text \<open>
  What the environment decides: the answer to a call and the recorded state of a container, both
  depending on all calls made so far, and the outcome of the system calls of every access to the document.
\<close>

record service_env =
  answer :: "(service_call \<times> string res) list \<Rightarrow> service_call \<Rightarrow> string res"
  container_state :: "(service_call \<times> string res) list \<Rightarrow> string \<Rightarrow> string res"
  store_io :: "nat \<Rightarrow> io_env"

record bottle_world =
  bw_doc :: "bottle_doc disk"
  bw_calls :: "(service_call \<times> string res) list"
  bw_access :: nat

definition call :: "service_env \<Rightarrow> service_call \<Rightarrow> bottle_world \<Rightarrow> string res \<times> bottle_world" where
  "call env c w = (let r = answer env (bw_calls w) c in (r, w\<lparr>bw_calls := bw_calls w @ [(c, r)]\<rparr>))"

definition on_doc :: "service_env \<Rightarrow> (io_env \<Rightarrow> bottle_doc disk \<Rightarrow> 'a res \<times> bottle_doc disk) \<Rightarrow> bottle_world \<Rightarrow>
    'a res \<times> bottle_world" where
  "on_doc env f w = (let (r, d) = f (store_io env (bw_access w)) (bw_doc w) in
     (r, w\<lparr>bw_doc := d, bw_access := Suc (bw_access w)\<rparr>))"

text \<open>The common head of the four operations: resolve the argument, read the bottle, check its start order.\<close>

definition get_bottle :: "service_env \<Rightarrow> string \<Rightarrow> bottle_world \<Rightarrow> (string \<times> BottleInfo) res \<times> bottle_world" where
  "get_bottle env s w =
     (let n = bw_access w; io = store_io env; d = bw_doc w in
      case bsm_ResolveBottleId (io n) (io (n + 1)) s d of
        Inl e \<Rightarrow> (Inl e, w\<lparr>bw_access := n + 2\<rparr>)
      | Inr bid \<Rightarrow> (case bsm_GetBottleById (io (n + 2)) bid d of
          Inl e \<Rightarrow> (Inl e, w\<lparr>bw_access := n + 3\<rparr>)
        | Inr b \<Rightarrow> (if bo_StartOrder b = [] then (Inl (Msg ''start order is empty''), w\<lparr>bw_access := n + 3\<rparr>)
            else (Inr (bid, b), w\<lparr>bw_access := n + 3\<rparr>))))"

text \<open>\<open>info.Containers[serviceName]\<close>, the empty text when the map is nil or has no entry.\<close>

definition container_of :: "(string, string) gomap \<Rightarrow> string \<Rightarrow> string" where
  "container_of cs name = (case map_of cs name of None \<Rightarrow> [] | Some cid \<Rightarrow> cid)"

abbreviation info_container :: "BottleInfo \<Rightarrow> string \<Rightarrow> string" where
  "info_container b \<equiv> container_of (or_empty (bo_Containers b))"

abbreviation info_service :: "BottleInfo \<Rightarrow> string \<Rightarrow> ServiceSpec option" where
  "info_service b \<equiv> map_of (or_empty (bo_Services b))"

section \<open>Start\<close>

fun start_loop :: "service_env \<Rightarrow> BottleInfo \<Rightarrow> string list \<Rightarrow> bottle_world \<Rightarrow> unit res \<times> bottle_world" where
  "start_loop env b [] w = (Inr (), w)"
| "start_loop env b (name # names) w =
     (let cid = info_container b name in
      if cid = [] then (Inl (Msg (''container for service '' @ name @ '' not created'')), w)
      else (case info_service b name of
          None \<Rightarrow> (Inl (Msg (''service spec not found: '' @ name)), w)
        | Some spec \<Rightarrow> (case call env (Container_Start cid (ss_Tty spec)) w of
            (Inl e, w') \<Rightarrow> (Inl e, w')
          | (Inr _, w') \<Rightarrow> start_loop env b names w')))"

definition Bottle_Start :: "service_env \<Rightarrow> string \<Rightarrow> bottle_world \<Rightarrow> string res \<times> bottle_world" where
  "Bottle_Start env s w =
     (case get_bottle env s w of
        (Inl e, w') \<Rightarrow> (Inl e, w')
      | (Inr (bid, b), w') \<Rightarrow> (case start_loop env b (bo_StartOrder b) w' of
          (Inl e, w'') \<Rightarrow> (Inl e, w'')
        | (Inr _, w'') \<Rightarrow> (Inr bid, w'')))"

section \<open>Stop\<close>

fun stop_loop :: "service_env \<Rightarrow> BottleInfo \<Rightarrow> string list \<Rightarrow> bottle_world \<Rightarrow> unit res \<times> bottle_world" where
  "stop_loop env b [] w = (Inr (), w)"
| "stop_loop env b (name # names) w =
     (let cid = info_container b name in
      if cid = [] then (Inl (Msg (''container for service '' @ name @ '' not found'')), w)
      else (case container_state env (bw_calls w) cid of
          Inl e \<Rightarrow> (Inl e, w)
        | Inr st \<Rightarrow>
            if st \<noteq> ''running'' then stop_loop env b names w
            else (case call env (Container_Stop cid) w of
                (Inl e, w') \<Rightarrow> (Inl e, w')
              | (Inr _, w') \<Rightarrow> stop_loop env b names w')))"

definition Bottle_Stop :: "service_env \<Rightarrow> string \<Rightarrow> bottle_world \<Rightarrow> string res \<times> bottle_world" where
  "Bottle_Stop env s w =
     (case get_bottle env s w of
        (Inl e, w') \<Rightarrow> (Inl e, w')
      | (Inr (bid, b), w') \<Rightarrow> (case stop_loop env b (rev (bo_StartOrder b)) w' of
          (Inl e, w'') \<Rightarrow> (Inl e, w'')
        | (Inr _, w'') \<Rightarrow> (Inr bid, w'')))"

section \<open>Delete\<close>

definition stop_if_running :: "service_env \<Rightarrow> string \<Rightarrow> string \<Rightarrow> bottle_world \<Rightarrow> unit res \<times> bottle_world" where
  "stop_if_running env cid st w =
     (if st = ''running'' then (case call env (Container_Stop cid) w of (Inl e, w') \<Rightarrow> (Inl e, w') | (Inr _, w') \<Rightarrow> (Inr (), w'))
      else (Inr (), w))"

fun delete_loop :: "service_env \<Rightarrow> BottleInfo \<Rightarrow> string list \<Rightarrow> bottle_world \<Rightarrow> unit res \<times> bottle_world" where
  "delete_loop env b [] w = (Inr (), w)"
| "delete_loop env b (name # names) w =
     (let cid = info_container b name in
      if cid = [] then (Inl (Msg (''container for service '' @ name @ '' not found'')), w)
      else (case container_state env (bw_calls w) cid of
          Inl e \<Rightarrow> (Inl e, w)
        | Inr st \<Rightarrow> (case stop_if_running env cid st w of
            (Inl e, w') \<Rightarrow> (Inl e, w')
          | (Inr _, w') \<Rightarrow> (case call env (Container_Delete cid) w' of
              (Inl e, w'') \<Rightarrow> (Inl e, w'')
            | (Inr _, w'') \<Rightarrow> delete_loop env b names w''))))"

fun removeBottlePolicies :: "service_env \<Rightarrow> PolicyInfo list \<Rightarrow> bottle_world \<Rightarrow> unit res \<times> bottle_world" where
  "removeBottlePolicies env [] w = (Inr (), w)"
| "removeBottlePolicies env (p # ps) w =
     (if pi_Id p = [] then removeBottlePolicies env ps w
      else (case call env (RemoveUserPolicy (pi_Id p)) w of
          (Inl e, w') \<Rightarrow> (Inl e, w')
        | (Inr _, w') \<Rightarrow> (case call env CommitPolicy w' of
            (Inl e, w'') \<Rightarrow> (Inl e, w'')
          | (Inr _, w'') \<Rightarrow> removeBottlePolicies env ps w'')))"

definition remove_auto_network :: "service_env \<Rightarrow> BottleInfo \<Rightarrow> bottle_world \<Rightarrow> unit res \<times> bottle_world" where
  "remove_auto_network env b w =
     (if bo_NetworkAuto b \<and> bo_Network b \<noteq> [] then
        (case call env (RemoveNetwork (bo_Network b)) w of (Inl e, w') \<Rightarrow> (Inl e, w') | (Inr _, w') \<Rightarrow> (Inr (), w'))
      else (Inr (), w))"

definition Bottle_Delete :: "service_env \<Rightarrow> string \<Rightarrow> bottle_world \<Rightarrow> string res \<times> bottle_world" where
  "Bottle_Delete env s w =
     (case get_bottle env s w of
        (Inl e, w1) \<Rightarrow> (Inl e, w1)
      | (Inr (bid, b), w1) \<Rightarrow> (case delete_loop env b (rev (bo_StartOrder b)) w1 of
          (Inl e, w2) \<Rightarrow> (Inl e, w2)
        | (Inr _, w2) \<Rightarrow> (case removeBottlePolicies env (bo_Policies b) w2 of
            (Inl e, w3) \<Rightarrow> (Inl e, w3)
          | (Inr _, w3) \<Rightarrow> (case remove_auto_network env b w3 of
              (Inl e, w4) \<Rightarrow> (Inl e, w4)
            | (Inr _, w4) \<Rightarrow> (case on_doc env (\<lambda>io. bsm_RemoveBottle io bid) w4 of
                (Inl e, w5) \<Rightarrow> (Inl e, w5)
              | (Inr _, w5) \<Rightarrow> (Inr bid, w5))))))"

section \<open>Create\<close>

definition buildContainerName :: "string \<Rightarrow> string \<Rightarrow> string" where
  "buildContainerName bottleName serviceName = bottleName @ ''-'' @ serviceName"

definition shouldCreateBottleNetwork :: "(string, ServiceSpec) gomap \<Rightarrow> bool" where
  "shouldCreateBottleNetwork svcs \<longleftrightarrow> svcs \<noteq> [] \<and> (\<forall>(_, svc) \<in> set svcs. ss_Network svc = [])"

definition bottleIdPrefix :: "string \<Rightarrow> string" where
  "bottleIdPrefix bid = (if length bid \<le> 10 then bid else take 10 bid)"

fun delete_all :: "service_env \<Rightarrow> string list \<Rightarrow> bottle_world \<Rightarrow> bottle_world" where
  "delete_all env [] w = w"
| "delete_all env (cid # cids) w = delete_all env cids (snd (call env (Container_Delete cid) w))"

text \<open>The map without the entries of the containers just deleted.\<close>

definition drop_created :: "string list \<Rightarrow> (string, string) gomap \<Rightarrow> (string, string) gomap" where
  "drop_created created containers = filter (\<lambda>(name, _). map_of containers name \<notin> Some ` set created) containers"

definition rollbackCreatedContainers :: "service_env \<Rightarrow> string list \<Rightarrow> (string, string) gomap \<Rightarrow> string \<Rightarrow> string \<Rightarrow>
    bool \<Rightarrow> bottle_world \<Rightarrow> bottle_world" where
  "rollbackCreatedContainers env created containers bid bridge autoNetwork w =
     (let w1 = delete_all env (rev created) w;
          w2 = snd (on_doc env (\<lambda>io. bsm_UpdateBottleContainers io bid (drop_created created containers)) w1) in
      if autoNetwork \<and> bridge \<noteq> [] then
        snd (on_doc env (\<lambda>io. bsm_UpdateBottleNetwork io bid [] False) (snd (call env (RemoveNetwork bridge) w2)))
      else w2)"

definition create_param :: "string \<Rightarrow> string \<Rightarrow> string \<Rightarrow> bool \<Rightarrow> string \<Rightarrow> ServiceSpec \<Rightarrow> ServiceCreateModel" where
  "create_param bid bottleName bridge autoNetwork name spec =
     \<lparr>sc_Image = ss_Image spec, sc_Command = ss_Command spec, sc_Port = ss_Ports spec, sc_Mount = ss_Mount spec,
      sc_Device = ss_Device spec, sc_Env = ss_Env spec, sc_CapAdd = ss_CapAdd spec, sc_CapDrop = ss_CapDrop spec,
      sc_Network = (if ss_Network spec = [] \<and> autoNetwork then bridge else ss_Network spec), sc_Tty = ss_Tty spec,
      sc_Name = buildContainerName bottleName name, sc_BottleId = bid\<rparr>"

fun create_loop :: "service_env \<Rightarrow> string \<Rightarrow> BottleInfo \<Rightarrow> string \<Rightarrow> bool \<Rightarrow> string list \<Rightarrow> (string, string) gomap \<Rightarrow>
    string list \<Rightarrow> bottle_world \<Rightarrow> unit res \<times> bottle_world" where
  "create_loop env bid b bridge autoNetwork [] containers created w = (Inr (), w)"
| "create_loop env bid b bridge autoNetwork (name # names) containers created w =
     (if container_of containers name \<noteq> [] then create_loop env bid b bridge autoNetwork names containers created w
      else (case info_service b name of
          None \<Rightarrow> (Inl (Msg (''service spec not found: '' @ name)), w)
        | Some spec \<Rightarrow>
            (case call env (Container_Create (create_param bid (bo_BottleName b) bridge autoNetwork name spec)) w of
               (Inl e, w') \<Rightarrow> (Inl e, rollbackCreatedContainers env created containers bid bridge autoNetwork w')
             | (Inr cid, w') \<Rightarrow>
                 (let containers' = map_set name cid containers; created' = created @ [cid] in
                  case on_doc env (\<lambda>io. bsm_UpdateBottleContainer io bid name cid) w' of
                    (Inl e, w'') \<Rightarrow> (Inl e, rollbackCreatedContainers env created' containers' bid bridge autoNetwork w'')
                  | (Inr _, w'') \<Rightarrow> create_loop env bid b bridge autoNetwork names containers' created' w''))))"

text \<open>The network part: the bridge and whether it is the bottle's own, or an error.\<close>

definition prepare_network :: "service_env \<Rightarrow> string \<Rightarrow> BottleInfo \<Rightarrow> bottle_world \<Rightarrow> (string \<times> bool) res \<times> bottle_world" where
  "prepare_network env bid b w =
     (if bo_Network b = [] \<and> shouldCreateBottleNetwork (or_empty (bo_Services b)) then
        (let bridge = ''raind'' @ bottleIdPrefix bid in
         case call env (CreateNewNetwork bridge) w of
           (Inl e, w1) \<Rightarrow> (Inl e, w1)
         | (Inr _, w1) \<Rightarrow> (case on_doc env (\<lambda>io. bsm_UpdateBottleNetwork io bid bridge True) w1 of
             (Inl e, w2) \<Rightarrow> (Inl e, snd (call env (RemoveNetwork bridge) w2))
           | (Inr _, w2) \<Rightarrow> (Inr (bridge, True), w2)))
      else if bo_Network b = [] \<and> \<not> bo_NetworkAuto b then
        (Inr ([], False), snd (on_doc env (\<lambda>io. bsm_UpdateBottleNetwork io bid [] False) w))
      else (Inr (bo_Network b, bo_NetworkAuto b), w))"

definition Bottle_Create :: "service_env \<Rightarrow> string \<Rightarrow> bottle_world \<Rightarrow> string res \<times> bottle_world" where
  "Bottle_Create env s w =
     (case get_bottle env s w of
        (Inl e, w1) \<Rightarrow> (Inl e, w1)
      | (Inr (bid, b), w1) \<Rightarrow> (case prepare_network env bid b w1 of
          (Inl e, w2) \<Rightarrow> (Inl e, w2)
        | (Inr (bridge, autoNetwork), w2) \<Rightarrow>
            (case create_loop env bid b bridge autoNetwork (bo_StartOrder b) (or_empty (bo_Containers b)) [] w2 of
               (Inl e, w3) \<Rightarrow> (Inl e, w3)
             | (Inr _, w3) \<Rightarrow> (Inr bid, w3))))"

section \<open>The calls an operation makes\<close>

lemma call_calls [simp]: "bw_calls (snd (call env c w)) = bw_calls w @ [(c, fst (call env c w))]"
  and call_doc [simp]: "bw_doc (snd (call env c w)) = bw_doc w"
  by (simp_all add: call_def Let_def)

lemma on_doc_calls [simp]: "bw_calls (snd (on_doc env f w)) = bw_calls w"
  by (simp add: on_doc_def split: prod.split)

lemma call_eq: "call env c w = (r, w') \<Longrightarrow> bw_calls w' = bw_calls w @ [(c, r)] \<and> bw_doc w' = bw_doc w"
  by (auto simp: call_def Let_def)

lemma on_doc_eq:
  "on_doc env f w = (r, w') \<Longrightarrow> bw_calls w' = bw_calls w \<and> f (store_io env (bw_access w)) (bw_doc w) = (r, bw_doc w')"
  by (auto simp: on_doc_def split: prod.splits)

lemma get_bottle_eq:
  assumes "get_bottle env s w = (r, w')"
  shows "bw_calls w' = bw_calls w \<and> bw_doc w' = bw_doc w \<and>
     (\<forall>bid b. r = Inr (bid, b) \<longrightarrow> bo_StartOrder b \<noteq> [] \<and> (\<exists>io. bsm_GetBottleById io bid (bw_doc w) = Inr b))"
  using assms by (auto simp: get_bottle_def Let_def split: sum.splits if_splits)

definition start_call :: "BottleInfo \<Rightarrow> string \<Rightarrow> service_call" where
  "start_call b name = Container_Start (info_container b name) (ss_Tty (the (info_service b name)))"

lemma start_loop_calls:
  "start_loop env b names w = (r, w') \<Longrightarrow> \<exists>new. bw_calls w' = bw_calls w @ new \<and> bw_doc w' = bw_doc w \<and>
     length new \<le> length names \<and> map fst new = map (start_call b) (take (length new) names) \<and>
     (\<forall>x \<in> set (butlast new). is_ok (snd x)) \<and>
     (is_ok r \<longleftrightarrow> length new = length names \<and> (\<forall>x \<in> set new. is_ok (snd x)))"
proof (induction env b names w rule: start_loop.induct)
  case (2 env b name names w)
  show ?case
  proof (cases "info_container b name = [] \<or> info_service b name = None")
    case True
    with "2.prems" show ?thesis by (intro exI [of _ "[]"]) (auto simp: Let_def split: if_splits)
  next
    case False
    then obtain spec where spec: "info_service b name = Some spec" "info_container b name \<noteq> []" by auto
    let ?c = "Container_Start (info_container b name) (ss_Tty spec)"
    have c: "?c = start_call b name" by (simp add: start_call_def spec)
    obtain a w1 where a: "call env ?c w = (a, w1)" by force
    note w1 = call_eq [OF a]
    show ?thesis
    proof (cases a)
      case (Inl e)
      with "2.prems" spec a w1 c show ?thesis by (intro exI [of _ "[(?c, a)]"]) (auto simp: Let_def)
    next
      case (Inr x)
      then have rest: "start_loop env b names w1 = (r, w')" using "2.prems" spec a by (simp add: Let_def)
      obtain new where "bw_calls w' = bw_calls w1 @ new" "bw_doc w' = bw_doc w1"
        "length new \<le> length names" "map fst new = map (start_call b) (take (length new) names)"
        "\<forall>x \<in> set (butlast new). is_ok (snd x)"
        "is_ok r \<longleftrightarrow> length new = length names \<and> (\<forall>x \<in> set new. is_ok (snd x))"
        using "2.IH" [OF refl spec(2) spec(1) a [symmetric] Inr rest] by blast
      with w1 Inr c show ?thesis by (intro exI [of _ "(?c, a) # new"]) auto
    qed
  qed
qed auto

lemma stop_loop_calls:
  "stop_loop env b names w = (r, w') \<Longrightarrow> \<exists>new. bw_calls w' = bw_calls w @ new \<and> bw_doc w' = bw_doc w \<and>
     subseq (map fst new) (map (\<lambda>n. Container_Stop (info_container b n)) names) \<and>
     (\<forall>i < length new. \<exists>cid. fst (new ! i) = Container_Stop cid \<and>
        container_state env (bw_calls w @ take i new) cid = Inr ''running'') \<and>
     (\<forall>x \<in> set (butlast new). is_ok (snd x)) \<and> (is_ok r \<longrightarrow> (\<forall>x \<in> set new. is_ok (snd x)))"
proof (induction env b names w rule: stop_loop.induct)
  case (2 env b name names w)
  let ?cid = "info_container b name"
  show ?case
  proof (cases "?cid = [] \<or> (\<exists>e. container_state env (bw_calls w) ?cid = Inl e)")
    case True
    with "2.prems" show ?thesis by (intro exI [of _ "[]"]) (auto simp: Let_def split: if_splits)
  next
    case False
    then obtain st where st: "container_state env (bw_calls w) ?cid = Inr st" "?cid \<noteq> []" by (metis sum.exhaust)
    show ?thesis
    proof (cases "st = ''running''")
      case False
      then have rest: "stop_loop env b names w = (r, w')" using "2.prems" st by (simp add: Let_def)
      from "2.IH"(1) [OF refl st(2) st(1) False rest] show ?thesis by (auto intro: subseq_Cons')
    next
      case True
      obtain a w1 where a: "call env (Container_Stop ?cid) w = (a, w1)" by force
      note w1 = call_eq [OF a]
      show ?thesis
      proof (cases a)
        case (Inl e)
        with "2.prems" st True a w1 show ?thesis
          by (intro exI [of _ "[(Container_Stop ?cid, a)]"]) (auto simp: Let_def)
      next
        case (Inr x)
        then have rest: "stop_loop env b names w1 = (r, w')" using "2.prems" st True a by (simp add: Let_def)
        obtain new where new: "bw_calls w' = bw_calls w1 @ new" "bw_doc w' = bw_doc w1"
          "subseq (map fst new) (map (\<lambda>n. Container_Stop (info_container b n)) names)"
          "\<forall>i < length new. \<exists>cid. fst (new ! i) = Container_Stop cid \<and>
             container_state env (bw_calls w1 @ take i new) cid = Inr ''running''"
          "\<forall>x \<in> set (butlast new). is_ok (snd x)" "is_ok r \<longrightarrow> (\<forall>x \<in> set new. is_ok (snd x))"
          using "2.IH"(2) [OF refl st(2) st(1) _ a [symmetric] Inr rest] True by blast
        have "\<exists>cid. fst (((Container_Stop ?cid, a) # new) ! i) = Container_Stop cid \<and>
           container_state env (bw_calls w @ take i ((Container_Stop ?cid, a) # new)) cid = Inr ''running''"
          if "i < Suc (length new)" for i
          using that new(4) st(1) True w1 by (cases i) auto
        with new w1 Inr show ?thesis by (intro exI [of _ "(Container_Stop ?cid, a) # new"]) auto
      qed
    qed
  qed
qed auto

section \<open>Creating\<close>

text \<open>The containers a list of calls created, in order.\<close>

fun created_in :: "(service_call \<times> string res) list \<Rightarrow> string list" where
  "created_in [] = []"
| "created_in ((Container_Create m, Inr cid) # cs) = cid # created_in cs"
| "created_in (_ # cs) = created_in cs"

text \<open>The networks a list of calls created, in order.\<close>

definition networks_in :: "(service_call \<times> string res) list \<Rightarrow> string list" where
  "networks_in cs = concat (map (\<lambda>(c, r). case c of CreateNewNetwork x \<Rightarrow> if is_ok r then [x] else [] | _ \<Rightarrow> []) cs)"

lemma networks_in_simps [simp]:
  "networks_in [] = []" "networks_in (cs @ ds) = networks_in cs @ networks_in ds"
  "networks_in ((CreateNewNetwork x, r) # cs) = (if is_ok r then x # networks_in cs else networks_in cs)"
  "networks_in ((Container_Create m, r) # cs) = networks_in cs" "networks_in ((RemoveNetwork x, r) # cs) = networks_in cs"
  by (simp_all add: networks_in_def)

definition rollback_calls :: "string list \<Rightarrow> string \<Rightarrow> bool \<Rightarrow> service_call list" where
  "rollback_calls created bridge autoNetwork = map Container_Delete (rev created) @
     (if autoNetwork \<and> bridge \<noteq> [] then [RemoveNetwork bridge] else [])"

lemma delete_all_calls:
  "\<exists>new. bw_calls (delete_all env cids w) = bw_calls w @ new \<and> map fst new = map Container_Delete cids"
proof (induction cids arbitrary: w)
  case (Cons cid cids)
  let ?w = "snd (call env (Container_Delete cid) w)"
  obtain new where "bw_calls (delete_all env cids ?w) = bw_calls ?w @ new" "map fst new = map Container_Delete cids"
    using Cons.IH by blast
  then show ?case by (intro exI [of _ "(Container_Delete cid, fst (call env (Container_Delete cid) w)) # new"]) simp
qed simp

lemma rollback_adds:
  "\<exists>new. bw_calls (rollbackCreatedContainers env created containers bid bridge autoNetwork w) = bw_calls w @ new \<and>
     map fst new = rollback_calls created bridge autoNetwork"
proof -
  obtain new where "bw_calls (delete_all env (rev created) w) = bw_calls w @ new"
    "map fst new = map Container_Delete (rev created)" using delete_all_calls by blast
  then show ?thesis by (auto simp: rollbackCreatedContainers_def rollback_calls_def Let_def)
qed

section \<open>The document\<close>

definition bottle_at :: "bottle_doc disk \<Rightarrow> string \<Rightarrow> BottleInfo option" where
  "bottle_at d bid = (case bsm_loadOrInit (read_file io_ok d) of Inl _ \<Rightarrow> None | Inr st \<Rightarrow> map_of (bst_Bottles st) bid)"

abbreviation bsm_disk_inv :: "bottle_doc disk \<Rightarrow> bool" where
  "bsm_disk_inv \<equiv> disk_inv (\<lambda>r. bsm_inv (bsm_complete r))"

lemma bsm_load_io: "bsm_loadOrInit (read_file io d) = Inr st \<Longrightarrow> bsm_loadOrInit (read_file io_ok d) = Inr st"
  by (auto simp: bsm_loadOrInit_def load_or_init_def read_file_def io_ok_def split: option.splits)

lemma bottle_at_main: "main_file d = main_file d' \<Longrightarrow> bottle_at d = bottle_at d'"
  by (rule ext) (simp add: bottle_at_def read_file_io_ok)

lemma bsm_saved [simp]:
  "main_file d = Some (Decoded (bsm_marshal st)) \<Longrightarrow> bottle_at d = map_of (bst_Bottles st)"
  by (rule ext) (simp add: bottle_at_def read_file_io_ok bsm_loadOrInit_def load_or_init_def bsm_complete_def bsm_marshal_def)

lemma bsm_withLock_at:
  assumes "bsm_withLock io fn d = (r, d')"
  shows "case r of Inl _ \<Rightarrow> bottle_at d' = bottle_at d
     | Inr a \<Rightarrow> \<exists>st st'. fn st = Inr (st', a) \<and> bottle_at d = map_of (bst_Bottles st) \<and>
         bottle_at d' = map_of (bst_Bottles st') \<and> bsm_loadOrInit (read_file io d) = Inr st"
proof (cases r)
  case (Inl e)
  have "main_file d' = main_file d"
    using assms Inl withLock_all_or_nothing [where load = bsm_loadOrInit and marshal = bsm_marshal and io = io and fn = fn and d = d]
    by (simp add: bsm_withLock_def bsm_atomicSave_def)
  from bottle_at_main [OF this] Inl show ?thesis by simp
next
  case (Inr a)
  obtain st st' where "bsm_loadOrInit (read_file io d) = Inr st" "fn st = Inr (st', a)"
    "main_file d' = Some (Decoded (bsm_marshal st'))"
    using assms withLock_Inr [where load = bsm_loadOrInit and marshal = bsm_marshal and io = io and fn = fn and d = d] Inr
    by (auto simp: bsm_withLock_def bsm_atomicSave_def)
  moreover from this(1) have "bottle_at d = map_of (bst_Bottles st)"
    using bsm_load_io by (fastforce simp: bottle_at_def)
  ultimately show ?thesis using Inr by auto
qed

lemma bsm_update_at:
  assumes "bsm_update io bid f d = (r, d')"
  shows "bottle_at d' = (if is_ok r then (bottle_at d)(bid := map_option f (bottle_at d bid)) else bottle_at d)"
    and "is_ok r \<Longrightarrow> bottle_at d bid \<noteq> None"
  using bsm_withLock_at [OF assms [unfolded bsm_update_def]] by (auto simp: update_entry_Inr split: sum.splits)

lemma bsm_get_at:
  assumes "bsm_GetBottleById io bid d = Inr b" and "bsm_disk_inv d"
  shows "bottle_at d bid = Some b"
proof -
  obtain st where st: "bsm_loadOrInit (read_file io d) = Inr st" "bottle_scan (\<lambda>b. bo_BottleId b = bid) (\<lambda>b. b) bid st = Inr b"
    using assms(1) by (auto simp: bsm_GetBottleById_def bsm_withRLock_def withRLock_def split: option.splits sum.splits)
  have "bsm_inv st" using bsm.load_inv [OF st(1) [unfolded bsm_loadOrInit_def] assms(2)] .
  with st(2) have "map_of (bst_Bottles st) bid = Some b"
    by (auto simp: bottle_scan_id lookup_entry_def split: option.splits)
  with bsm_load_io [OF st(1)] show ?thesis by (simp add: bottle_at_def)
qed

lemma bsm_remove_at:
  assumes "bsm_RemoveBottle io bid d = (r, d')" and "bsm_disk_inv d"
  shows "bottle_at d' = (if is_ok r then (bottle_at d)(bid := None) else bottle_at d)"
proof (cases r)
  case (Inl e)
  with bsm_withLock_at [OF assms(1) [unfolded bsm_RemoveBottle_def]] show ?thesis by simp
next
  case (Inr u)
  then obtain st st' where st: "(case range_find (\<lambda>_ b. bo_BottleId b = bid) (bst_Bottles st) of
       Some (i, _) \<Rightarrow> Inr (st\<lparr>bst_Bottles := map_del i (bst_Bottles st)\<rparr>, ())
     | None \<Rightarrow> Inl (Msg (''bottleId='' @ bid @ '' not found''))) = Inr (st', u)"
     "bottle_at d = map_of (bst_Bottles st)" "bottle_at d' = map_of (bst_Bottles st')"
     "bsm_loadOrInit (read_file io d) = Inr st"
    using bsm_withLock_at [OF assms(1) [unfolded bsm_RemoveBottle_def]] by auto
  have "bsm_inv st" using bsm.load_inv [OF st(4) [unfolded bsm_loadOrInit_def] assms(2)] .
  then have "st' = st\<lparr>bst_Bottles := map_del bid (bst_Bottles st)\<rparr>"
    using st(1) range_find_key [of bo_BottleId "bst_Bottles st" bid]
    by (auto simp: bsm_inv_def split: option.splits)
  with st Inr show ?thesis by simp
qed

text \<open>The rollback leaves a container under a service exactly when it was there before, if the write that records it succeeds.\<close>

lemma container_of_drop: "container_of (drop_created created cs) n = (if map_of cs n \<in> Some ` set created then [] else container_of cs n)"
proof -
  have "map_of (filter (\<lambda>(k, _). P k) xs) n = (if P n then map_of xs n else None)" for P :: "string \<Rightarrow> bool" and xs :: "(string, string) gomap"
    by (induction xs) auto
  then show ?thesis by (simp add: drop_created_def container_of_def)
qed

lemma bsm_update_io_ok: "bottle_at d bid \<noteq> None \<Longrightarrow> is_ok (fst (bsm_update io_ok bid f d))"
  by (auto simp: bottle_at_def bsm_update_def bsm_withLock_def withLock_io_ok bsm_atomicSave_def atomicSave_io_ok update_entry_def put_back_def
      split: sum.splits option.splits)

lemma delete_all_same [simp]: "bw_doc (delete_all env cids w) = bw_doc w" "bw_access (delete_all env cids w) = bw_access w"
  by (induction env cids w rule: delete_all.induct) (simp_all add: call_def Let_def)

lemma on_doc_access [simp]: "bw_access (snd (on_doc env f w)) = Suc (bw_access w)" "bw_access (snd (call env c w)) = bw_access w"
  by (simp_all add: on_doc_def call_def Let_def split: prod.split)

lemma on_doc_update:
  assumes "bottle_at (bw_doc w) bid = Some b0"
  shows "bottle_at (bw_doc (snd (on_doc env (\<lambda>io. bsm_update io bid f) w))) bid \<in> {Some b0, Some (f b0)}"
    and "store_io env (bw_access w) = io_ok \<Longrightarrow> bottle_at (bw_doc (snd (on_doc env (\<lambda>io. bsm_update io bid f) w))) bid = Some (f b0)"
proof -
  obtain r d where u: "bsm_update (store_io env (bw_access w)) bid f (bw_doc w) = (r, d)" by force
  have e: "bw_doc (snd (on_doc env (\<lambda>io. bsm_update io bid f) w)) = d" by (simp add: on_doc_def u)
  show "bottle_at (bw_doc (snd (on_doc env (\<lambda>io. bsm_update io bid f) w))) bid \<in> {Some b0, Some (f b0)}"
    using bsm_update_at(1) [OF u] assms e by auto
  show "bottle_at (bw_doc (snd (on_doc env (\<lambda>io. bsm_update io bid f) w))) bid = Some (f b0)" if "store_io env (bw_access w) = io_ok"
    using bsm_update_at(1) [OF u] bsm_update_io_ok [of "bw_doc w" bid f] u assms e that by auto
qed

lemma rollback_doc:
  assumes "bottle_at (bw_doc w) bid = Some b0" and "rollbackCreatedContainers env created containers bid bridge auto w = w'"
    and "store_io env (bw_access w' - Suc (if auto \<and> bridge \<noteq> [] then 1 else 0)) = io_ok"
  shows "\<exists>b'. bottle_at (bw_doc w') bid = Some b' \<and> or_empty (bo_Containers b') = drop_created created containers"
proof -
  let ?w1 = "delete_all env (rev created) w"
  let ?w2 = "snd (on_doc env (\<lambda>io. bsm_UpdateBottleContainers io bid (drop_created created containers)) ?w1)"
  let ?w3 = "snd (call env (RemoveNetwork bridge) ?w2)"
  let ?w4 = "snd (on_doc env (\<lambda>io. bsm_UpdateBottleNetwork io bid [] False) ?w3)"
  have w': "w' = (if auto \<and> bridge \<noteq> [] then ?w4 else ?w2)" unfolding assms(2) [symmetric] by (simp add: rollbackCreatedContainers_def Let_def)
  have io: "store_io env (bw_access ?w1) = io_ok" using assms(3) unfolding w' by (auto split: if_splits)
  then have two: "bottle_at (bw_doc ?w2) bid = Some (b0\<lparr>bo_Containers := Some (drop_created created containers)\<rparr>)"
    unfolding bsm_UpdateBottleContainers_def using on_doc_update(2) [of ?w1 bid b0 env] assms(1) by simp
  show ?thesis
  proof (cases "auto \<and> bridge \<noteq> []")
    case True
    have "bottle_at (bw_doc ?w3) bid = Some (b0\<lparr>bo_Containers := Some (drop_created created containers)\<rparr>)" using two by simp
    from on_doc_update(1) [OF this, of env "\<lambda>b. b\<lparr>bo_Network := [], bo_NetworkAuto := False\<rparr>"] show ?thesis unfolding w' if_P [OF True] bsm_UpdateBottleNetwork_def by auto
  next
    case False
    with two w' show ?thesis by auto
  qed
qed

text \<open>
  The containers of the loop: a service has the container it had, or one created by now.
\<close>

definition loop_books :: "BottleInfo \<Rightarrow> (string, string) gomap \<Rightarrow> string list \<Rightarrow> bool" where
  "loop_books b cs created \<longleftrightarrow> (\<forall>n. if map_of cs n \<in> Some ` set created then info_container b n = [] \<or> info_container b n \<in> set created
     else container_of cs n = info_container b n)"

lemma loop_books_start: "loop_books b (or_empty (bo_Containers b)) []"
  by (simp add: loop_books_def)

lemma loop_books_step:
  assumes "loop_books b cs created" "container_of cs name = []"
  shows "loop_books b (map_set name cid cs) (created @ [cid])"
  unfolding loop_books_def
proof
  fix n
  have "if map_of cs n \<in> Some ` set created then info_container b n = [] \<or> info_container b n \<in> set created
     else container_of cs n = info_container b n" using assms(1) by (simp add: loop_books_def)
  then show "if map_of (map_set name cid cs) n \<in> Some ` set (created @ [cid]) then info_container b n = [] \<or> info_container b n \<in> set (created @ [cid])
     else container_of (map_set name cid cs) n = info_container b n"
    using assms(2) by (cases "n = name") (auto simp: container_of_def split: option.splits if_splits)
qed

lemma loop_books_dropped:
  assumes "loop_books b cs created"
  shows "container_of (drop_created created cs) n = (if info_container b n \<in> set created then [] else info_container b n)"
proof -
  have "if map_of cs n \<in> Some ` set created then info_container b n = [] \<or> info_container b n \<in> set created
     else container_of cs n = info_container b n" using assms by (simp add: loop_books_def)
  moreover have "map_of cs n = None \<and> container_of cs n = [] \<or> map_of cs n = Some (container_of cs n)"
    by (cases "map_of cs n") (simp_all add: container_of_def)
  ultimately show ?thesis unfolding container_of_drop by (auto split: if_splits)
qed

definition books_restored :: "service_env \<Rightarrow> BottleInfo \<Rightarrow> string \<Rightarrow> string list \<Rightarrow> nat \<Rightarrow> bottle_world \<Rightarrow> bool" where
  "books_restored env b bid created k w \<longleftrightarrow> (store_io env (bw_access w - Suc k) = io_ok \<longrightarrow>
     (\<exists>b'. bottle_at (bw_doc w) bid = Some b' \<and>
        (\<forall>n. info_container b' n = (if info_container b n \<in> set created then [] else info_container b n))))"

lemma rollback_restores:
  assumes "bottle_at (bw_doc w) bid = Some b0" and "loop_books b containers created"
  shows "books_restored env b bid created (if auto \<and> bridge \<noteq> [] then 1 else 0) (rollbackCreatedContainers env created containers bid bridge auto w)"
  using rollback_doc [OF assms(1) refl] loop_books_dropped [OF assms(2)] unfolding books_restored_def by metis

lemma create_loop_undone:
  assumes "create_loop env bid b bridge auto names containers created w = (Inl e, w')"
    and "bottle_at (bw_doc w) bid = Some b0" and "loop_books b containers created"
  shows "(\<exists>n \<in> set names. info_service b n = None \<and> e = Msg (''service spec not found: '' @ n)) \<or>
     (\<exists>pre post. bw_calls w' = bw_calls w @ pre @ post \<and> map fst post = rollback_calls (created @ created_in pre) bridge auto \<and> networks_in pre = [] \<and>
        books_restored env b bid (created @ created_in pre) (if auto \<and> bridge \<noteq> [] then 1 else 0) w')"
  using assms
proof (induction env bid b bridge auto names containers created w arbitrary: b0 rule: create_loop.induct)
  case (2 env bid b bridge auto name names containers created w)
  show ?case
  proof (cases "container_of containers name = []")
    case False
    then have "create_loop env bid b bridge auto names containers created w = (Inl e, w')" using "2.prems" by simp
    from "2.IH"(1) [OF False this "2.prems"(2,3)] show ?thesis by auto
  next
    case True
    show ?thesis
    proof (cases "info_service b name")
      case None
      with True "2.prems"(1) show ?thesis by auto
    next
      case spec: (Some spec)
      let ?c = "Container_Create (create_param bid (bo_BottleName b) bridge auto name spec)"
      obtain a w1 where a: "call env ?c w = (a, w1)" by force
      note w1 = call_eq [OF a]
      show ?thesis
      proof (cases a)
        case (Inl x)
        with True spec a "2.prems"(1) have w': "w' = rollbackCreatedContainers env created containers bid bridge auto w1" by simp
        then obtain post where "bw_calls w' = bw_calls w1 @ post" "map fst post = rollback_calls created bridge auto"
          using rollback_adds by metis
        with w1 Inl w' rollback_restores [of w1 bid b0 b containers created env auto bridge] "2.prems"(2,3)
        show ?thesis by (intro disjI2 exI [of _ "[(?c, a)]"] exI [of _ post]) simp
      next
        case (Inr cid)
        let ?cs = "map_set name cid containers" and ?cr = "created @ [cid]"
        obtain u w2 where u: "on_doc env (\<lambda>io. bsm_UpdateBottleContainer io bid name cid) w1 = (u, w2)" by force
        note w2 = on_doc_eq [OF u]
        obtain b1 where at: "bottle_at (bw_doc w2) bid = Some b1"
          using on_doc_update(1) [of w1 bid b0 env "\<lambda>b. b\<lparr>bo_Containers := Some (map_set name cid (or_empty (bo_Containers b)))\<rparr>"]
            "2.prems"(2) w1 u unfolding bsm_UpdateBottleContainer_def by auto
        note books = loop_books_step [OF "2.prems"(3) True, of cid]
        show ?thesis
        proof (cases u)
          case Inl
          with True spec a Inr u "2.prems"(1) have w': "w' = rollbackCreatedContainers env ?cr ?cs bid bridge auto w2" by simp
          then obtain post where "bw_calls w' = bw_calls w2 @ post" "map fst post = rollback_calls ?cr bridge auto"
            using rollback_adds by metis
          with w1 w2 Inr w' rollback_restores [OF at books, of env auto bridge]
          show ?thesis by (intro disjI2 exI [of _ "[(?c, a)]"] exI [of _ post]) simp
        next
          case u2: Inr
          have rest: "create_loop env bid b bridge auto names ?cs ?cr w2 = (Inl e, w')"
            using True spec a Inr u u2 "2.prems"(1) by simp
          have "(\<exists>n \<in> set names. info_service b n = None \<and> e = Msg (''service spec not found: '' @ n)) \<or>
             (\<exists>pre post. bw_calls w' = bw_calls w2 @ pre @ post \<and> map fst post = rollback_calls (?cr @ created_in pre) bridge auto \<and> networks_in pre = [] \<and>
                books_restored env b bid (?cr @ created_in pre) (if auto \<and> bridge \<noteq> [] then 1 else 0) w')"
            using "2.IH"(2) [OF _ spec a [symmetric] Inr refl refl u [symmetric] u2 rest at books] True by simp
          then show ?thesis
          proof (elim disjE exE conjE)
            fix pre post
            assume "bw_calls w' = bw_calls w2 @ pre @ post" "map fst post = rollback_calls (?cr @ created_in pre) bridge auto" "networks_in pre = []"
              "books_restored env b bid (?cr @ created_in pre) (if auto \<and> bridge \<noteq> [] then 1 else 0) w'"
            with w1 w2 Inr show ?thesis by (intro disjI2 exI [of _ "(?c, a) # pre"] exI [of _ post]) simp
          qed auto
        qed
      qed
    qed
  qed
qed simp

lemma create_loop_done:
  assumes "create_loop env bid b bridge auto names containers created w = (Inr u, w')"
    and "bottle_at (bw_doc w) bid = Some b0" and "map_of (or_empty (bo_Containers b0)) = map_of containers"
  shows "\<exists>new b'. bw_calls w' = bw_calls w @ new \<and> bottle_at (bw_doc w') bid = Some b' \<and>
     (\<forall>n. container_of containers n \<noteq> [] \<or> n \<notin> set names \<longrightarrow> info_container b' n = container_of containers n) \<and>
     (\<forall>n \<in> set names. container_of containers n = [] \<longrightarrow>
        (\<exists>m. (Container_Create m, Inr (info_container b' n)) \<in> set new \<and> sc_Name m = buildContainerName (bo_BottleName b) n))"
  using assms
proof (induction env bid b bridge auto names containers created w arbitrary: b0 rule: create_loop.induct)
  case (1 env bid b bridge auto containers created w)
  then show ?case by (auto simp: container_of_def)
next
  case (2 env bid b bridge auto name names containers created w)
  show ?case
  proof (cases "container_of containers name = []")
    case False
    then have "create_loop env bid b bridge auto names containers created w = (Inr u, w')" using "2.prems" by simp
    from "2.IH"(1) [OF False this "2.prems"(2,3)] False show ?thesis by (metis list.set_intros(2) set_ConsD)
  next
    case True
    obtain spec where spec: "info_service b name = Some spec" using "2.prems"(1) True by (cases "info_service b name") auto
    let ?c = "Container_Create (create_param bid (bo_BottleName b) bridge auto name spec)"
    obtain a w1 where a: "call env ?c w = (a, w1)" by force
    note w1 = call_eq [OF a]
    obtain cid where Inr: "a = Inr cid" using "2.prems"(1) True spec a by (cases a) auto
    let ?cs = "map_set name cid containers" and ?cr = "created @ [cid]"
    obtain v w2 where v: "on_doc env (\<lambda>io. bsm_UpdateBottleContainer io bid name cid) w1 = (v, w2)" by force
    note w2 = on_doc_eq [OF v]
    have v2: "v = Inr ()" using "2.prems"(1) True spec a Inr v by (cases v) auto
    have rest: "create_loop env bid b bridge auto names ?cs ?cr w2 = (Inr u, w')"
      using True spec a Inr v v2 "2.prems"(1) by simp
    let ?b = "b0\<lparr>bo_Containers := Some (map_set name cid (or_empty (bo_Containers b0)))\<rparr>"
    have at: "bottle_at (bw_doc w2) bid = Some ?b"
      using bsm_update_at(1) [OF conjunct2 [OF w2, unfolded bsm_UpdateBottleContainer_def]] w1 v2 "2.prems"(2) by simp
    have cs: "map_of (or_empty (bo_Containers ?b)) = map_of ?cs" using "2.prems"(3) by simp
    obtain new b' where new: "bw_calls w' = bw_calls w2 @ new" "bottle_at (bw_doc w') bid = Some b'"
      "\<And>n. container_of ?cs n \<noteq> [] \<or> n \<notin> set names \<Longrightarrow> info_container b' n = container_of ?cs n"
      "\<And>n. n \<in> set names \<Longrightarrow> container_of ?cs n = [] \<Longrightarrow>
        \<exists>m. (Container_Create m, Inr (info_container b' n)) \<in> set new \<and> sc_Name m = buildContainerName (bo_BottleName b) n"
      using "2.IH"(2) [OF _ spec a [symmetric] Inr refl refl v [symmetric] v2 rest at cs] True by blast
    have look: "container_of ?cs n = (if n = name then cid else container_of containers n)" for n
      by (simp add: container_of_def)
    have nm: "sc_Name (create_param bid (bo_BottleName b) bridge auto name spec) = buildContainerName (bo_BottleName b) name"
      by (simp add: create_param_def)
    have made: "\<exists>m. (Container_Create m, Inr (info_container b' n)) \<in> set ((?c, a) # new) \<and>
        sc_Name m = buildContainerName (bo_BottleName b) n"
      if "n \<in> set (name # names)" "container_of containers n = []" for n
    proof (cases "n = name \<and> (cid \<noteq> [] \<or> n \<notin> set names)")
      case True
      then show ?thesis using new(3) [of n] nm Inr by (auto simp: look)
    next
      case False
      then have "n \<in> set names" "container_of ?cs n = []" using that by (auto simp: look)
      from new(4) [OF this] show ?thesis by auto
    qed
    moreover have "info_container b' n = container_of containers n"
      if "container_of containers n \<noteq> [] \<or> n \<notin> set (name # names)" for n
    proof -
      have "n \<noteq> name" using that True by auto
      with that new(3) [of n] show ?thesis by (auto simp: look)
    qed
    ultimately show ?thesis using new(1,2) w1 w2 Inr by (intro exI [of _ "(?c, a) # new"] exI [of _ b']) auto
  qed
qed

section \<open>Deleting\<close>

text \<open>The containers a list of calls deleted with success, in order.\<close>

fun deleted_in :: "(service_call \<times> string res) list \<Rightarrow> string list" where
  "deleted_in [] = []"
| "deleted_in ((Container_Delete cid, Inr _) # cs) = cid # deleted_in cs"
| "deleted_in (_ # cs) = deleted_in cs"

lemma deleted_in_append [simp]: "deleted_in (xs @ ys) = deleted_in xs @ deleted_in ys"
  by (induction xs rule: deleted_in.induct) auto

lemma stop_if_running_eq:
  "stop_if_running env cid st w = (r, w') \<Longrightarrow>
     \<exists>new. bw_calls w' = bw_calls w @ new \<and> bw_doc w' = bw_doc w \<and> deleted_in new = []"
  by (auto simp: stop_if_running_def dest!: call_eq split: if_splits prod.splits sum.splits)

lemma remove_auto_network_eq:
  "remove_auto_network env b w = (r, w') \<Longrightarrow>
     \<exists>new. bw_calls w' = bw_calls w @ new \<and> bw_doc w' = bw_doc w \<and> deleted_in new = []"
  by (auto simp: remove_auto_network_def dest!: call_eq split: if_splits prod.splits sum.splits)

lemma removeBottlePolicies_eq:
  "removeBottlePolicies env ps w = (r, w') \<Longrightarrow>
     \<exists>new. bw_calls w' = bw_calls w @ new \<and> bw_doc w' = bw_doc w \<and> deleted_in new = []"
proof (induction env ps w rule: removeBottlePolicies.induct)
  case (2 env p ps w)
  then show ?case
    by (fastforce dest!: call_eq split: if_splits prod.splits sum.splits)
qed simp

lemma delete_loop_eq:
  "delete_loop env b names w = (r, w') \<Longrightarrow>
     \<exists>new. bw_calls w' = bw_calls w @ new \<and> bw_doc w' = bw_doc w \<and>
       prefix (deleted_in new) (map (info_container b) names) \<and>
       (is_ok r \<longrightarrow> deleted_in new = map (info_container b) names)"
proof (induction env b names w rule: delete_loop.induct)
  case (2 env b name names w)
  let ?cid = "info_container b name"
  show ?case
  proof (cases "?cid = [] \<or> (\<exists>e. container_state env (bw_calls w) ?cid = Inl e)")
    case True
    with "2.prems" show ?thesis by (intro exI [of _ "[]"]) (auto simp: Let_def split: if_splits)
  next
    case False
    then obtain st where st: "container_state env (bw_calls w) ?cid = Inr st" "?cid \<noteq> []" by (metis sum.exhaust)
    obtain s1 w1 where s1: "stop_if_running env ?cid st w = (s1, w1)" by force
    obtain new1 where w1: "bw_calls w1 = bw_calls w @ new1" "bw_doc w1 = bw_doc w" "deleted_in new1 = []"
      using stop_if_running_eq [OF s1] by blast
    obtain a w2 where a: "call env (Container_Delete ?cid) w1 = (a, w2)" by force
    note w2 = call_eq [OF a]
    show ?thesis
    proof (cases s1)
      case (Inl e)
      with "2.prems" st s1 w1 show ?thesis by (intro exI [of _ new1]) (auto simp: Let_def)
    next
      case s1ok: (Inr u)
      show ?thesis
      proof (cases a)
        case (Inl e)
        with "2.prems" st s1 s1ok a w1 w2 show ?thesis
          by (intro exI [of _ "new1 @ [(Container_Delete ?cid, a)]"]) (auto simp: Let_def)
      next
        case (Inr x)
        then have rest: "delete_loop env b names w2 = (r, w')" using "2.prems" st s1 s1ok a by (simp add: Let_def)
        obtain new where "bw_calls w' = bw_calls w2 @ new" "bw_doc w' = bw_doc w2"
          "prefix (deleted_in new) (map (info_container b) names)"
          "is_ok r \<longrightarrow> deleted_in new = map (info_container b) names"
          using "2.IH" [OF refl st(2) st(1) s1 [symmetric] s1ok a [symmetric] Inr rest] by blast
        with w1 w2 Inr show ?thesis
          by (intro exI [of _ "new1 @ (Container_Delete ?cid, a) # new"]) auto
      qed
    qed
  qed
qed auto

lemma created_in_append [simp]: "created_in (xs @ ys) = created_in xs @ created_in ys"
  by (induction xs rule: created_in.induct) auto

lemma prepare_network_eq:
  assumes "prepare_network env bid b w = (r, w')" and "bottle_at (bw_doc w) bid = Some b"
  shows "\<exists>new b0. bw_calls w' = bw_calls w @ new \<and> created_in new = [] \<and>
     bottle_at (bw_doc w') bid = Some b0 \<and> bo_Containers b0 = bo_Containers b"
proof -
  have upd: "\<exists>b0. bottle_at d' bid = Some b0 \<and> bo_Containers b0 = bo_Containers b"
    if "bsm_UpdateBottleNetwork io bid net auto d = (r', d')" "bottle_at d bid = Some b" for io net auto r' d d'
    using bsm_update_at(1) [OF that(1) [unfolded bsm_UpdateBottleNetwork_def]] that(2) by (cases r') auto
  show ?thesis
  proof (cases "bo_Network b = [] \<and> shouldCreateBottleNetwork (or_empty (bo_Services b))")
    case True
    let ?br = "''raind'' @ bottleIdPrefix bid"
    obtain a w1 where a: "call env (CreateNewNetwork ?br) w = (a, w1)" by force
    note w1 = call_eq [OF a]
    show ?thesis
    proof (cases a)
      case (Inl e)
      with assms True a w1 show ?thesis by (auto simp: prepare_network_def Let_def)
    next
      case (Inr x)
      obtain u w2 where u: "on_doc env (\<lambda>io. bsm_UpdateBottleNetwork io bid ?br True) w1 = (u, w2)" by force
      note w2 = on_doc_eq [OF u]
      obtain b0 where "bottle_at (bw_doc w2) bid = Some b0" "bo_Containers b0 = bo_Containers b"
        using upd [OF conjunct2 [OF w2]] w1 assms(2) by auto
      with assms(1) True a Inr u w1 w2 show ?thesis
        by (cases u) (auto simp: prepare_network_def Let_def)
    qed
  next
    case False
    show ?thesis
    proof (cases "bo_Network b = [] \<and> \<not> bo_NetworkAuto b")
      case True
      obtain u w2 where u: "on_doc env (\<lambda>io. bsm_UpdateBottleNetwork io bid [] False) w = (u, w2)" by force
      note w2 = on_doc_eq [OF u]
      from upd [OF conjunct2 [OF w2] assms(2)] w2 assms(1) False True u show ?thesis
        by (auto simp: prepare_network_def)
    next
      case c: False
      with False assms show ?thesis by (auto simp: prepare_network_def)
    qed
  qed
qed

lemma prepare_network_made:
  assumes "prepare_network env bid b w = (Inr (bridge, auto), w')" and "bw_calls w' = bw_calls w @ new"
  shows "networks_in new = [] \<or> networks_in new = [bridge] \<and> auto \<and> bridge \<noteq> []"
  using assms by (auto simp: prepare_network_def Let_def dest!: call_eq on_doc_eq split: if_splits prod.splits sum.splits)

lemma prepare_network_undone:
  assumes "prepare_network env bid b w = (Inl e, w')" and "bottle_at (bw_doc w) bid = Some b"
  shows "\<exists>pre post. bw_calls w' = bw_calls w @ pre @ post \<and> created_in pre = [] \<and> map fst post = map RemoveNetwork (networks_in pre) \<and>
     length (networks_in pre) \<le> 1 \<and> books_restored env b bid [] k w'"
proof -
  let ?br = "''raind'' @ bottleIdPrefix bid"
  obtain new b0 where at: "bottle_at (bw_doc w') bid = Some b0" "bo_Containers b0 = bo_Containers b"
    using prepare_network_eq [OF assms] by blast
  then have books: "books_restored env b bid [] k w'" by (simp add: books_restored_def)
  obtain a w1 where a: "call env (CreateNewNetwork ?br) w = (a, w1)" by force
  obtain u w2 where u: "on_doc env (\<lambda>io. bsm_UpdateBottleNetwork io bid ?br True) w1 = (u, w2)" by force
  have w': "w' = (case a of Inl _ \<Rightarrow> w1 | Inr _ \<Rightarrow> snd (call env (RemoveNetwork ?br) w2))"
    using assms(1) a u by (auto simp: prepare_network_def Let_def split: if_splits sum.splits)
  show ?thesis
  proof (cases a)
    case (Inl x)
    with w' call_eq [OF a] books show ?thesis by (intro exI [of _ "[(CreateNewNetwork ?br, a)]"] exI [of _ "[]"]) simp
  next
    case (Inr x)
    with w' call_eq [OF a] on_doc_eq [OF u] books show ?thesis
      by (intro exI [of _ "[(CreateNewNetwork ?br, a)]"] exI [of _ "[(RemoveNetwork ?br, fst (call env (RemoveNetwork ?br) w2))]"]) simp
  qed
qed

section \<open>Properties\<close>

text \<open>
  The calls of a failed creation and what they leave: the call log grows by the calls made until the failure and the calls of the rollback, which
  are deletions of the created containers, last one first (whatever their answers), and the removal of a network made by the call.
\<close>

definition rolled_back :: "service_env \<Rightarrow> BottleInfo \<Rightarrow> string \<Rightarrow> bottle_world \<Rightarrow> bottle_world \<Rightarrow> bool" where
  "rolled_back env b bid w w' \<longleftrightarrow> (\<exists>pre post net. bw_calls w' = bw_calls w @ pre @ post \<and>
     map fst post = map Container_Delete (rev (created_in pre)) @ net \<and> (net = [] \<or> (\<exists>x. net = [RemoveNetwork x])) \<and>
     (networks_in pre \<noteq> [] \<longrightarrow> net = map RemoveNetwork (networks_in pre)) \<and> books_restored env b bid (created_in pre) (length net) w')"

text \<open>
  Property C18. Creating a bottle is all or nothing. On success every service of the start order has a container in the document, the one it had
  or one created in this call under its name. On failure the deletion of every container the call created was ordered, last one first,
  then that of a network the call created, and, if the write of the rollback succeeds, the document names
  under each service the container it named before and none that was created; the one failure without a rollback is a start order that names an
  unknown service.
\<close>

theorem Bottle_Create_all_or_nothing:
  assumes "get_bottle env s w = (Inr (bid, b), w1)" and "bsm_disk_inv (bw_doc w)"
  shows "case Bottle_Create env s w of
     (Inl e, w') \<Rightarrow> rolled_back env b bid w w' \<or>
       (\<exists>n \<in> set (bo_StartOrder b). info_service b n = None \<and> e = Msg (''service spec not found: '' @ n))
   | (Inr i, w') \<Rightarrow> i = bid \<and> (\<exists>new b'. bw_calls w' = bw_calls w @ new \<and> bottle_at (bw_doc w') bid = Some b' \<and>
       (\<forall>n \<in> set (bo_StartOrder b). (info_container b n \<noteq> [] \<and> info_container b' n = info_container b n) \<or>
          (info_container b n = [] \<and> (\<exists>m. (Container_Create m, Inr (info_container b' n)) \<in> set new \<and>
             sc_Name m = buildContainerName (bo_BottleName b) n))))"
proof -
  note w1 = get_bottle_eq [OF assms(1)]
  then obtain io where "bsm_GetBottleById io bid (bw_doc w) = Inr b" by blast
  then have at: "bottle_at (bw_doc w1) bid = Some b" using bsm_get_at assms(2) w1 by simp
  obtain r2 w2 where p: "prepare_network env bid b w1 = (r2, w2)" by force
  show ?thesis
  proof (cases r2)
    case (Inl e)
    have "Bottle_Create env s w = (Inl e, w2)" using assms(1) p Inl by (simp add: Bottle_Create_def)
    moreover obtain pre post where "bw_calls w2 = bw_calls w1 @ pre @ post" "created_in pre = []" "map fst post = map RemoveNetwork (networks_in pre)"
      "length (networks_in pre) \<le> 1" "books_restored env b bid [] (length (networks_in pre)) w2"
      using prepare_network_undone [OF p [unfolded Inl] at] by (metis length_0_conv)
    then have "rolled_back env b bid w w2"
      unfolding rolled_back_def using w1
      by (intro exI [of _ pre] exI [of _ post] exI [of _ "map RemoveNetwork (networks_in pre)"]) (auto simp: le_Suc_eq length_Suc_conv)
    ultimately show ?thesis by simp
  next
    case (Inr x)
    obtain bridge auto where x: "x = (bridge, auto)" by (cases x)
    obtain new2 b0 where w2: "bw_calls w2 = bw_calls w1 @ new2" "created_in new2 = []"
      "bottle_at (bw_doc w2) bid = Some b0" "bo_Containers b0 = bo_Containers b"
      using prepare_network_eq [OF p at] by blast
    let ?net = "if auto \<and> bridge \<noteq> [] then [RemoveNetwork bridge] else []"
    have made: "networks_in new2 \<noteq> [] \<Longrightarrow> ?net = map RemoveNetwork (networks_in new2)"
      using prepare_network_made [OF p [unfolded Inr x] w2(1)] by auto
    let ?loop = "create_loop env bid b bridge auto (bo_StartOrder b) (or_empty (bo_Containers b)) [] w2"
    obtain r3 w3 where l: "?loop = (r3, w3)" by force
    have eq: "Bottle_Create env s w = (case r3 of Inl e \<Rightarrow> (Inl e, w3) | Inr _ \<Rightarrow> (Inr bid, w3))"
      using assms(1) p Inr x l by (cases r3) (simp_all add: Bottle_Create_def)
    show ?thesis
    proof (cases r3)
      case Inl3: (Inl e)
      have "rolled_back env b bid w w3 \<or> (\<exists>n \<in> set (bo_StartOrder b). info_service b n = None \<and> e = Msg (''service spec not found: '' @ n))"
        using create_loop_undone [OF l [unfolded Inl3] w2(3) loop_books_start]
      proof (elim disjE exE conjE)
        fix pre post
        assume "bw_calls w3 = bw_calls w2 @ pre @ post" "map fst post = rollback_calls ([] @ created_in pre) bridge auto" "networks_in pre = []"
          "books_restored env b bid ([] @ created_in pre) (if auto \<and> bridge \<noteq> [] then 1 else 0) w3"
        then have "rolled_back env b bid w w3"
          unfolding rolled_back_def using w1 w2 made
          by (intro exI [of _ "new2 @ pre"] exI [of _ post] exI [of _ ?net]) (auto simp: rollback_calls_def)
        then show ?thesis by blast
      qed blast
      then show ?thesis using eq Inl3 by simp
    next
      case Inr3: (Inr u)
      obtain new b' where "bw_calls w3 = bw_calls w2 @ new" "bottle_at (bw_doc w3) bid = Some b'"
        "\<forall>n. info_container b n \<noteq> [] \<or> n \<notin> set (bo_StartOrder b) \<longrightarrow> info_container b' n = info_container b n"
        "\<forall>n \<in> set (bo_StartOrder b). info_container b n = [] \<longrightarrow>
          (\<exists>m. (Container_Create m, Inr (info_container b' n)) \<in> set new \<and> sc_Name m = buildContainerName (bo_BottleName b) n)"
        using create_loop_done [OF l [unfolded Inr3] w2(3)] w2(4) by metis
      then show ?thesis using eq Inr3 w1 w2(1) by (auto intro!: exI [of _ "new2 @ new"])
    qed
  qed
qed

text \<open>The bottle of the services above; the last container cannot be created.\<close>

definition witness_bottle :: BottleInfo where
  "witness_bottle = new_bottle 0 ''b1'' ''shop'' (Some (map (\<lambda>(k, s). (k, ServiceSpec.truncate s)) witness_services))
     [''db'', ''cache'', ''web''] []"

definition witness_world :: bottle_world where
  "witness_world = \<lparr>bw_doc = \<lparr>main_file = Some (Decoded (''0.1.0'', Some [(''b1'', witness_bottle)])), tmp_file = None\<rparr>,
     bw_calls = [], bw_access = 0\<rparr>"

definition witness_env :: service_env where
  "witness_env = \<lparr>answer = (\<lambda>log c. case c of
       Container_Create m \<Rightarrow> if sc_Name m = ''shop-web'' then Inl (SysErr ''image not found'') else Inr (sc_Name m)
     | _ \<Rightarrow> Inr []),
     container_state = (\<lambda>log cid. Inr ''created''), store_io = (\<lambda>_. io_ok)\<rparr>"

lemma witness_inv: "bsm_disk_inv (bw_doc witness_world)"
  by (simp add: witness_world_def disk_inv_def bsm_inv_def bsm_complete_def keyed_by_def witness_bottle_def new_bottle_def witness_services_def)

lemma witness_get:
  "get_bottle witness_env ''shop'' witness_world = (Inr (''b1'', witness_bottle), witness_world\<lparr>bw_access := 3\<rparr>)"
  by (simp add: get_bottle_def witness_env_def witness_world_def bsm_ResolveBottleId_def bsm_GetBottleIdByName_def
      bsm_GetBottleById_def bsm_withRLock_def withRLock_io_ok read_file_io_ok bsm_loadOrInit_def load_or_init_def
      bsm_complete_def bottle_scan_def range_find_def witness_bottle_def new_bottle_def witness_services_def)

theorem Bottle_Create_all_or_nothing_witness:
  "fst (Bottle_Create witness_env ''shop'' witness_world) = Inl (SysErr ''image not found'') \<and>
   rolled_back witness_env witness_bottle ''b1'' witness_world (snd (Bottle_Create witness_env ''shop'' witness_world))"
proof -
  have f: "fst (Bottle_Create witness_env ''shop'' witness_world) = Inl (SysErr ''image not found'')"
    by code_simp
  then obtain w' where r: "Bottle_Create witness_env ''shop'' witness_world = (Inl (SysErr ''image not found''), w')"
    by (metis prod.collapse)
  have "rolled_back witness_env witness_bottle ''b1'' witness_world w'"
    using Bottle_Create_all_or_nothing [OF witness_get witness_inv] unfolding r by simp
  with r f show ?thesis by simp
qed

text \<open>The same bottle with its containers created.\<close>

definition witness_created :: BottleInfo where
  "witness_created = witness_bottle\<lparr>bo_Containers := Some [(''db'', ''c1''), (''cache'', ''c2''), (''web'', ''c3'')]\<rparr>"

definition witness_world2 :: bottle_world where
  "witness_world2 = \<lparr>bw_doc = \<lparr>main_file = Some (Decoded (''0.1.0'', Some [(''b1'', witness_created)])), tmp_file = None\<rparr>,
     bw_calls = [], bw_access = 0\<rparr>"

definition witness_env2 :: service_env where
  "witness_env2 = witness_env\<lparr>container_state := (\<lambda>log cid. Inr (if cid = ''c2'' then ''stopped'' else ''running''))\<rparr>"

lemma witness_inv2: "bsm_disk_inv (bw_doc witness_world2)"
  by (simp add: witness_world2_def witness_created_def disk_inv_def bsm_inv_def bsm_complete_def keyed_by_def
      witness_bottle_def new_bottle_def)

lemma witness_get2:
  "get_bottle witness_env2 ''shop'' witness_world2 = (Inr (''b1'', witness_created), witness_world2\<lparr>bw_access := 3\<rparr>)"
  by (simp add: get_bottle_def witness_env2_def witness_env_def witness_world2_def bsm_ResolveBottleId_def bsm_GetBottleIdByName_def
      bsm_GetBottleById_def bsm_withRLock_def withRLock_io_ok read_file_io_ok bsm_loadOrInit_def load_or_init_def
      bsm_complete_def bottle_scan_def range_find_def witness_created_def witness_bottle_def new_bottle_def)

lemma witness_order:
  "BuildStartOrder [''web'', ''db'', ''cache''] witness_services = Inr (bo_StartOrder witness_created)"
  by (simp add: BuildStartOrder_def witness_services_def witness_created_def witness_bottle_def new_bottle_def)

text \<open>
  Property C19. Starting a bottle whose start order was computed by \<open>BuildStartOrder\<close>: the i-th call starts the container of
  the i-th service, when it is made every service that one depends on has been started with success
  earlier in the same run, and the operation succeeds only when every service has been started.
\<close>

theorem Bottle_Start_dependencies_first:
  assumes "get_bottle env s w = (Inr (bid, b), w1)" and "Bottle_Start env s w = (r, w')"
    and "BuildStartOrder iter svcs = Inr (bo_StartOrder b)" and "mset iter = mset (map fst svcs)" and "wf_map svcs"
  shows "\<exists>new. bw_calls w' = bw_calls w @ new \<and> bw_doc w' = bw_doc w \<and>
     (\<forall>i < length new. i < length (bo_StartOrder b) \<and> fst (new ! i) = start_call b (bo_StartOrder b ! i) \<and>
        (\<forall>x \<in> set (deps_of svcs (bo_StartOrder b ! i)). \<exists>j < i. fst (new ! j) = start_call b x \<and> is_ok (snd (new ! j)))) \<and>
     (is_ok r \<longleftrightarrow> length new = length (bo_StartOrder b) \<and> (\<forall>x \<in> set new. is_ok (snd x)))"
proof -
  let ?o = "bo_StartOrder b"
  note w1 = get_bottle_eq [OF assms(1)]
  obtain r1 w2 where l: "start_loop env b ?o w1 = (r1, w2)" by force
  have eq: "w' = w2" "is_ok r \<longleftrightarrow> is_ok r1" using assms(1,2) l by (cases r1; auto simp: Bottle_Start_def)+
  obtain new where new: "bw_calls w2 = bw_calls w1 @ new" "bw_doc w2 = bw_doc w1" "length new \<le> length ?o"
    "map fst new = map (start_call b) (take (length new) ?o)" "\<forall>x \<in> set (butlast new). is_ok (snd x)"
    "is_ok r1 \<longleftrightarrow> length new = length ?o \<and> (\<forall>x \<in> set new. is_ok (snd x))"
    using start_loop_calls [OF l] by blast
  have nth: "fst (new ! i) = start_call b (?o ! i)" if "i < length new" for i
    using that arg_cong [OF new(4), of "\<lambda>l. l ! i"] new(3) by simp
  have dep: "\<exists>j < i. ?o ! j = x" if "i < length ?o" "x \<in> set (deps_of svcs (?o ! i))" for i x
    using start_order_spec [OF assms(4,5)] that unfolding assms(3) sum.case by blast
  have "\<exists>j < i. fst (new ! j) = start_call b x \<and> is_ok (snd (new ! j))"
    if i: "i < length new" and x: "x \<in> set (deps_of svcs (?o ! i))" for i x
  proof -
    obtain j where j: "j < i" "?o ! j = x" using dep [of i x] i x new(3) by auto
    then have "new ! j = butlast new ! j" "j < length (butlast new)" using i by (simp_all add: nth_butlast)
    then have "is_ok (snd (new ! j))" using new(5) by (metis nth_mem)
    then show ?thesis using nth [of j] j i by auto
  qed
  with nth new(3) have "\<forall>i < length new. i < length ?o \<and> fst (new ! i) = start_call b (?o ! i) \<and>
        (\<forall>x \<in> set (deps_of svcs (?o ! i)). \<exists>j < i. fst (new ! j) = start_call b x \<and> is_ok (snd (new ! j)))"
    using less_le_trans by blast
  moreover have "bw_calls w' = bw_calls w @ new" "bw_doc w' = bw_doc w" using new(1,2) w1 eq(1) by simp_all
  ultimately show ?thesis using new(6) eq(2) by blast
qed

theorem Bottle_Start_dependencies_first_witness:
  "\<exists>new. bw_calls (snd (Bottle_Start witness_env2 ''shop'' witness_world2)) = new \<and> length new = 3 \<and>
     fst (new ! 2) = Container_Start ''c3'' False"
proof -
  let ?run = "Bottle_Start witness_env2 ''shop'' witness_world2"
  have ok: "is_ok (fst ?run)" by code_simp
  have m: "mset [''web'', ''db'', ''cache''] = mset (map fst witness_services)" "wf_map witness_services"
    by (simp_all add: witness_services_def)
  have o: "bo_StartOrder witness_created = [''db'', ''cache'', ''web'']" and c: "start_call witness_created ''web'' = Container_Start ''c3'' False"
    by code_simp+
  have "bw_calls witness_world2 = []" by (simp add: witness_world2_def)
  moreover obtain new where "bw_calls (snd ?run) = bw_calls witness_world2 @ new"
    "\<forall>i < length new. i < length (bo_StartOrder witness_created) \<and> fst (new ! i) = start_call witness_created (bo_StartOrder witness_created ! i)"
    "length new = length (bo_StartOrder witness_created)"
    using Bottle_Start_dependencies_first [OF witness_get2 surjective_pairing witness_order m] ok by blast
  ultimately show ?thesis by (simp add: o c)
qed

text \<open>
  Stopping a bottle stops containers of its services only, in reverse start order, each only while it is
  recorded as running, goes on only after a successful stop, and leaves the document alone.
\<close>

lemma Bottle_Stop_reverse_order:
  assumes "get_bottle env s w = (Inr (bid, b), w1)" and "Bottle_Stop env s w = (r, w')"
  shows "\<exists>new. bw_calls w' = bw_calls w @ new \<and> bw_doc w' = bw_doc w \<and>
     subseq (map fst new) (rev (map (\<lambda>n. Container_Stop (info_container b n)) (bo_StartOrder b))) \<and>
     (\<forall>i < length new. \<exists>cid. fst (new ! i) = Container_Stop cid \<and>
        container_state env (bw_calls w @ take i new) cid = Inr ''running'') \<and>
     (\<forall>x \<in> set (butlast new). is_ok (snd x)) \<and> (is_ok r \<longrightarrow> (\<forall>x \<in> set new. is_ok (snd x)))"
proof -
  note w1 = get_bottle_eq [OF assms(1)]
  obtain r1 w2 where l: "stop_loop env b (rev (bo_StartOrder b)) w1 = (r1, w2)" by force
  have eq: "w' = w2" "is_ok r \<longleftrightarrow> is_ok r1" using assms(1,2) l by (cases r1; auto simp: Bottle_Stop_def)+
  have c: "bw_calls w1 = bw_calls w" "bw_doc w1 = bw_doc w" using w1 by simp_all
  show ?thesis using stop_loop_calls [OF l] unfolding eq c rev_map .
qed

text \<open>
  Property C20. Deleting a bottle: on success its containers have been deleted, each with success and in reverse
  start order, and the bottle is gone from the document while every other bottle is as before; a
  deletion that fails at any point leaves the bottle in the document, so that it can be repeated.
\<close>

theorem Bottle_Delete_containers_first:
  assumes "get_bottle env s w = (Inr (bid, b), w1)" and "bsm_disk_inv (bw_doc w)"
  shows "\<exists>new. bw_calls (snd (Bottle_Delete env s w)) = bw_calls w @ new \<and>
     prefix (deleted_in new) (map (info_container b) (rev (bo_StartOrder b))) \<and>
     (case Bottle_Delete env s w of
        (Inl e, w') \<Rightarrow> bottle_at (bw_doc w') = bottle_at (bw_doc w)
      | (Inr i, w') \<Rightarrow> i = bid \<and> deleted_in new = map (info_container b) (rev (bo_StartOrder b)) \<and>
          bottle_at (bw_doc w') = (bottle_at (bw_doc w))(bid := None))"
proof -
  note w1 = get_bottle_eq [OF assms(1)]
  obtain r2 w2 where l2: "delete_loop env b (rev (bo_StartOrder b)) w1 = (r2, w2)" by force
  obtain r3 w3 where l3: "removeBottlePolicies env (bo_Policies b) w2 = (r3, w3)" by force
  obtain r4 w4 where l4: "remove_auto_network env b w3 = (r4, w4)" by force
  obtain r5 w5 where l5: "on_doc env (\<lambda>io. bsm_RemoveBottle io bid) w4 = (r5, w5)" by force
  obtain n2 where n2: "bw_calls w2 = bw_calls w1 @ n2" "bw_doc w2 = bw_doc w1"
    "prefix (deleted_in n2) (map (info_container b) (rev (bo_StartOrder b)))"
    "is_ok r2 \<longrightarrow> deleted_in n2 = map (info_container b) (rev (bo_StartOrder b))"
    using delete_loop_eq [OF l2] by blast
  obtain n3 where n3: "bw_calls w3 = bw_calls w2 @ n3" "bw_doc w3 = bw_doc w2" "deleted_in n3 = []"
    using removeBottlePolicies_eq [OF l3] by blast
  obtain n4 where n4: "bw_calls w4 = bw_calls w3 @ n4" "bw_doc w4 = bw_doc w3" "deleted_in n4 = []"
    using remove_auto_network_eq [OF l4] by blast
  have doc: "bw_doc w4 = bw_doc w" using n2 n3 n4 w1 by simp
  have at: "bottle_at (bw_doc w5) = (if is_ok r5 then (bottle_at (bw_doc w))(bid := None) else bottle_at (bw_doc w))"
    using bsm_remove_at [OF conjunct2 [OF on_doc_eq [OF l5]]] assms(2) doc by simp
  have eq: "Bottle_Delete env s w = (case r2 of Inl e \<Rightarrow> (Inl e, w2) | Inr _ \<Rightarrow> (case r3 of Inl e \<Rightarrow> (Inl e, w3) |
     Inr _ \<Rightarrow> (case r4 of Inl e \<Rightarrow> (Inl e, w4) | Inr _ \<Rightarrow> (case r5 of Inl e \<Rightarrow> (Inl e, w5) | Inr _ \<Rightarrow> (Inr bid, w5)))))"
    using assms(1) l2 l3 l4 l5 by (simp add: Bottle_Delete_def split: sum.split)
  have calls: "bw_calls w2 = bw_calls w @ n2" "bw_calls w3 = bw_calls w @ n2 @ n3" "bw_calls w4 = bw_calls w @ n2 @ n3 @ n4"
    "bw_calls w5 = bw_calls w @ n2 @ n3 @ n4" using n2 n3 n4 w1 on_doc_eq [OF l5] by simp_all
  have d: "deleted_in (n2 @ n3) = deleted_in n2" "deleted_in (n2 @ n3 @ n4) = deleted_in n2" using n3 n4 by simp_all
  have docs: "bw_doc w2 = bw_doc w" "bw_doc w3 = bw_doc w" using n2 n3 w1 by simp_all
  show ?thesis
  proof (cases "is_ok r2 \<and> is_ok r3")
    case False
    then show ?thesis
      unfolding eq using n2(3) d docs calls
      by (cases r2) (auto split: sum.splits intro: exI [of _ n2] exI [of _ "n2 @ n3"])
  next
    case True
    then show ?thesis
      unfolding eq using n2(3,4) d doc calls at
      by (intro exI [of _ "n2 @ n3 @ n4"]) (auto split: sum.splits)
  qed
qed

theorem Bottle_Delete_containers_first_witness:
  "deleted_in (bw_calls (snd (Bottle_Delete witness_env2 ''shop'' witness_world2))) = [''c3'', ''c2'', ''c1''] \<and>
   bottle_at (bw_doc (snd (Bottle_Delete witness_env2 ''shop'' witness_world2))) ''b1'' = None"
proof -
  have "is_ok (fst (Bottle_Delete witness_env2 ''shop'' witness_world2))" by code_simp
  then obtain i w' where r: "Bottle_Delete witness_env2 ''shop'' witness_world2 = (Inr i, w')"
    by (metis is_ok_iff prod.collapse)
  have "bw_calls witness_world2 = []" by (simp add: witness_world2_def)
  moreover have "map (info_container witness_created) (rev (bo_StartOrder witness_created)) = [''c3'', ''c2'', ''c1'']" by code_simp
  ultimately show ?thesis using Bottle_Delete_containers_first [OF witness_get2 witness_inv2] unfolding r by auto
qed

end
