(* ===== verification/Iptables.thy ===== *)
theory Iptables
  imports Ipv4_Net
begin

text \<open>
  The iptables handler of the firewall policy service (\<open>core/policy/iptables_handler.go\<close>). The program \<open>iptables\<close> is
  not part of the repository: it is the parameter \<open>run\<close>, a command line applied to a kernel state, giving the error
  text of a failing command. What the handler relies on is the locale \<open>iptables_tool\<close>, after the
  description of the commands \<open>-L -F -N -C -A -I\<close> in \<open>iptables(8)\<close>. Every command may fail.
\<close>

section \<open>Rules as command lines\<close>

record RuleModel =
  rm_Conntrack :: bool
  rm_Ctstate :: "string list"
  rm_Syn :: bool
  rm_Physdev :: bool
  rm_PhysdevIsBridge :: bool
  rm_InputDev :: string
  rm_OutputDev :: string
  rm_InputPhysdev :: string
  rm_OutputPhysdev :: string
  rm_Source :: string
  rm_Destination :: string
  rm_Protocol :: string
  rm_SourcePort :: int
  rm_DestPort :: int
  rm_NflogGroup :: int
  rm_NflogPrefix :: string

text \<open>The zero value \<open>RuleModel{}\<close>.\<close>

definition no_rule :: RuleModel where
  "no_rule = \<lparr>rm_Conntrack = False, rm_Ctstate = [], rm_Syn = False, rm_Physdev = False, rm_PhysdevIsBridge = False,
     rm_InputDev = [], rm_OutputDev = [], rm_InputPhysdev = [], rm_OutputPhysdev = [], rm_Source = [],
     rm_Destination = [], rm_Protocol = [], rm_SourcePort = 0, rm_DestPort = 0, rm_NflogGroup = 0, rm_NflogPrefix = []\<rparr>"

definition given :: "bool \<Rightarrow> string list \<Rightarrow> string list" where
  "given b args = (if b then args else [])"

text \<open>The match arguments both functions build first, in order.\<close>

definition dev_args :: "RuleModel \<Rightarrow> string list" where
  "dev_args r =
     given (rm_Conntrack r) [''-m'', ''conntrack''] @
     given (rm_Ctstate r \<noteq> []) [''--ctstate'', str_join '','' (rm_Ctstate r)] @
     given (rm_Physdev r) [''-m'', ''physdev''] @
     given (rm_PhysdevIsBridge r) [''--physdev-is-bridged''] @
     given (rm_InputDev r \<noteq> []) [''-i'', rm_InputDev r] @
     given (rm_OutputDev r \<noteq> []) [''-o'', rm_OutputDev r] @
     given (rm_InputPhysdev r \<noteq> []) [''--physdev-in'', rm_InputPhysdev r] @
     given (rm_OutputPhysdev r \<noteq> []) [''--physdev-out'', rm_OutputPhysdev r]"

definition nflog_args :: "RuleModel \<Rightarrow> string list" where
  "nflog_args r =
     given (rm_NflogGroup r > 0) [''--nflog-group'', itoa (rm_NflogGroup r)] @
     given (rm_NflogPrefix r \<noteq> []) [''--nflog-prefix'', rm_NflogPrefix r]"

text \<open>
  The rule of \<open>AddRuleToChain\<close> and of \<open>InsertRuleToChain\<close> without the chain name. Only the first looks
  at \<open>Syn\<close>, only the second at the addresses.
\<close>

definition add_args :: "RuleModel \<Rightarrow> string \<Rightarrow> string list" where
  "add_args r action = [''-j'', action] @ dev_args r @
     given (rm_Protocol r \<noteq> []) ([''-p'', rm_Protocol r] @ given (rm_Protocol r = ''tcp'' \<and> rm_Syn r) [''--syn'']) @
     given (rm_SourcePort r > 0) [''--sport'', itoa (rm_SourcePort r)] @
     given (rm_DestPort r > 0) [''--dport'', itoa (rm_DestPort r)] @
     nflog_args r"

definition insert_args :: "RuleModel \<Rightarrow> string \<Rightarrow> string list" where
  "insert_args r action = [''-j'', action] @ dev_args r @
     given (rm_Protocol r \<noteq> []) [''-p'', rm_Protocol r] @
     given (rm_Source r \<noteq> []) [''-s'', rm_Source r] @
     given (rm_SourcePort r > 0) [''--sport'', itoa (rm_SourcePort r)] @
     given (rm_Destination r \<noteq> []) [''-d'', rm_Destination r] @
     given (rm_DestPort r > 0) [''--dport'', itoa (rm_DestPort r)] @
     nflog_args r"

section \<open>The handler\<close>

type_synonym 'k tool = "string list \<Rightarrow> 'k \<Rightarrow> string option \<times> 'k"

definition command :: "'k tool \<Rightarrow> string list \<Rightarrow> 'k \<Rightarrow> unit res \<times> 'k" where
  "command run args k = (case run args k of (None, k') \<Rightarrow> (Inr (), k') | (Some e, k') \<Rightarrow> (Inl (SysErr e), k'))"

definition CreateChain :: "'k tool \<Rightarrow> string \<Rightarrow> 'k \<Rightarrow> unit res \<times> 'k" where
  "CreateChain run chain k =
     (case command run [''iptables'', ''-L'', chain] k of
        (Inr _, k1) \<Rightarrow> command run [''iptables'', ''-F'', chain] k1
      | (Inl _, k1) \<Rightarrow> command run [''iptables'', ''-N'', chain] k1)"

definition InsertForwardRule :: "'k tool \<Rightarrow> string \<Rightarrow> 'k \<Rightarrow> unit res \<times> 'k" where
  "InsertForwardRule run chain k =
     (case command run [''iptables'', ''-C'', ''FORWARD'', ''-j'', chain] k of
        (Inr _, k1) \<Rightarrow> (Inr (), k1)
      | (Inl _, k1) \<Rightarrow> command run [''iptables'', ''-I'', ''FORWARD'', ''1'', ''-j'', chain] k1)"

definition AddRuleToChain :: "'k tool \<Rightarrow> string \<Rightarrow> RuleModel \<Rightarrow> string \<Rightarrow> 'k \<Rightarrow> unit res \<times> 'k" where
  "AddRuleToChain run chain r action k =
     (let args = chain # add_args r action in
      case command run ([''iptables'', ''-C''] @ args) k of
        (Inr _, k1) \<Rightarrow> (Inr (), k1)
      | (Inl _, k1) \<Rightarrow> command run ([''iptables'', ''-A''] @ args) k1)"

definition InsertRuleToChain :: "'k tool \<Rightarrow> string \<Rightarrow> RuleModel \<Rightarrow> string \<Rightarrow> 'k \<Rightarrow> unit res \<times> 'k" where
  "InsertRuleToChain run chain r action k =
     (let args = chain # insert_args r action in
      case command run ([''iptables'', ''-C''] @ args) k of
        (Inr _, k1) \<Rightarrow> (Inr (), k1)
      | (Inl _, k1) \<Rightarrow> command run ([''iptables'', ''-I''] @ args) k1)"

text \<open>A run of \<open>AddRuleToChain\<close> calls on one chain that stops at the first error.\<close>

fun add_rules :: "'k tool \<Rightarrow> string \<Rightarrow> (RuleModel \<times> string) list \<Rightarrow> 'k \<Rightarrow> unit res \<times> 'k" where
  "add_rules run chain [] k = (Inr (), k)"
| "add_rules run chain ((r, action) # rs) k =
     (case AddRuleToChain run chain r action k of
        (Inl e, k1) \<Rightarrow> (Inl e, k1)
      | (Inr _, k1) \<Rightarrow> add_rules run chain rs k1)"

section \<open>What iptables promises\<close>

text \<open>
  \<open>rules k c\<close> is what a listing of chain \<open>c\<close> in state \<open>k\<close> shows, \<open>None\<close> when there is no such chain; a rule is
  the arguments it was given with. A failing command changes no chain.
\<close>

type_synonym table = "string \<Rightarrow> string list list option"

locale iptables_tool =
  fixes run :: "'k tool"
    and rules :: "'k \<Rightarrow> table"
  assumes failed: "run args k = (Some e, k') \<Longrightarrow> rules k' = rules k"
    and listed: "run [''iptables'', ''-L'', c] k = (None, k') \<Longrightarrow> rules k' = rules k"
    and flushed: "run [''iptables'', ''-F'', c] k = (None, k') \<Longrightarrow> rules k' = (rules k)(c \<mapsto> [])"
    and created: "run [''iptables'', ''-N'', c] k = (None, k') \<Longrightarrow> rules k' = (rules k)(c \<mapsto> [])"
    and checked: "run ([''iptables'', ''-C'', c, ''-j''] @ r) k = (None, k') \<Longrightarrow>
       rules k' = rules k \<and> (\<exists>rs. rules k c = Some rs \<and> (''-j'' # r) \<in> set rs)"
    and appended: "run ([''iptables'', ''-A'', c, ''-j''] @ r) k = (None, k') \<Longrightarrow>
       \<exists>rs. rules k c = Some rs \<and> rules k' = (rules k)(c \<mapsto> rs @ [''-j'' # r])"
    and inserted: "run ([''iptables'', ''-I'', c, ''-j''] @ r) k = (None, k') \<Longrightarrow>
       \<exists>rs. rules k c = Some rs \<and> rules k' = (rules k)(c \<mapsto> (''-j'' # r) # rs)"
    and inserted_first: "run [''iptables'', ''-I'', c, ''1'', ''-j'', t] k = (None, k') \<Longrightarrow>
       \<exists>rs. rules k c = Some rs \<and> rules k' = (rules k)(c \<mapsto> [''-j'', t] # rs)"
begin

lemma command_failed: "command run args k = (Inl e, k') \<Longrightarrow> rules k' = rules k"
  by (auto simp: command_def dest: failed split: prod.splits option.splits)

lemma command_ok: "command run args k = (Inr u, k') \<longleftrightarrow> run args k = (None, k')"
  by (auto simp: command_def split: prod.splits option.splits)

lemma CreateChain_ok:
  assumes "CreateChain run c k = (Inr u, k')"
  shows "rules k' = (rules k)(c \<mapsto> [])"
  using assms
  by (auto simp: CreateChain_def command_ok split: prod.splits sum.splits dest!: flushed created listed command_failed)

lemma InsertForwardRule_ok:
  assumes "InsertForwardRule run c k = (Inr u, k')"
  shows "\<exists>rs. rules k' ''FORWARD'' = Some rs \<and> [''-j'', c] \<in> set rs \<and> (\<forall>d. d \<noteq> ''FORWARD'' \<longrightarrow> rules k' d = rules k d)"
proof (cases "command run [''iptables'', ''-C'', ''FORWARD'', ''-j'', c] k")
  case (Pair r k1)
  show ?thesis
  proof (cases r)
    case (Inl e)
    then have "rules k1 = rules k" using Pair command_failed by simp
    moreover have "run [''iptables'', ''-I'', ''FORWARD'', ''1'', ''-j'', c] k1 = (None, k')"
      using assms Pair Inl by (simp add: InsertForwardRule_def command_ok)
    ultimately show ?thesis using inserted_first [of "''FORWARD''" c k1 k'] by auto
  next
    case (Inr v)
    then have "k' = k1" "run ([''iptables'', ''-C'', ''FORWARD'', ''-j''] @ [c]) k = (None, k1)"
      using assms Pair by (simp_all add: InsertForwardRule_def command_ok)
    then show ?thesis using checked by fastforce
  qed
qed

text \<open>A rule added is in the chain: it was there, or it is now the last one.\<close>

lemma AddRuleToChain_ok:
  assumes "AddRuleToChain run c r a k = (Inr u, k')"
  shows "\<exists>rs. rules k c = Some rs \<and> (rules k' = rules k \<and> add_args r a \<in> set rs \<or>
     rules k' = (rules k)(c \<mapsto> rs @ [add_args r a]))"
proof -
  let ?r = "tl (add_args r a)"
  have hd: "add_args r a = ''-j'' # ?r" by (simp add: add_args_def)
  obtain v k1 where c: "command run ([''iptables'', ''-C'', c, ''-j''] @ ?r) k = (v, k1)" by force
  show ?thesis
  proof (cases v)
    case (Inl e)
    then have "rules k1 = rules k" using c command_failed by simp
    moreover have "run ([''iptables'', ''-A'', c, ''-j''] @ ?r) k1 = (None, k')"
      using assms c Inl hd by (simp add: AddRuleToChain_def command_ok Let_def)
    ultimately show ?thesis using appended hd by fastforce
  next
    case (Inr x)
    then have "k' = k1" using assms c hd by (simp add: AddRuleToChain_def Let_def)
    moreover have "run ([''iptables'', ''-C'', c, ''-j''] @ ?r) k = (None, k1)" using c Inr by (simp add: command_ok)
    ultimately show ?thesis using checked hd by fastforce
  qed
qed

text \<open>A rule inserted, or one whose insertion failed: at most that rule is new, and it is first.\<close>

lemma InsertRuleToChain_any:
  assumes "InsertRuleToChain run c r a k = (v, k')"
  shows "rules k' = rules k \<or> (\<exists>rs. rules k c = Some rs \<and> rules k' = (rules k)(c \<mapsto> insert_args r a # rs))"
    and "is_ok v \<Longrightarrow> \<exists>rs. rules k' c = Some rs \<and> insert_args r a \<in> set rs"
proof -
  let ?r = "tl (insert_args r a)"
  have hd: "insert_args r a = ''-j'' # ?r" by (simp add: insert_args_def)
  obtain w k1 where c: "command run ([''iptables'', ''-C'', c, ''-j''] @ ?r) k = (w, k1)" by force
  have "(rules k' = rules k \<and> (is_ok v \<longrightarrow> (\<exists>rs. rules k' c = Some rs \<and> insert_args r a \<in> set rs))) \<or>
     (\<exists>rs. rules k c = Some rs \<and> rules k' = (rules k)(c \<mapsto> insert_args r a # rs))"
  proof (cases w)
    case (Inl e)
    then have k1: "rules k1 = rules k" using c command_failed by simp
    have i: "command run ([''iptables'', ''-I'', c, ''-j''] @ ?r) k1 = (v, k')"
      using assms c Inl hd by (simp add: InsertRuleToChain_def Let_def)
    show ?thesis
    proof (cases v)
      case (Inl x)
      then show ?thesis using i k1 command_failed by simp
    next
      case (Inr x)
      then show ?thesis using i k1 inserted [of c ?r k1 k'] hd by (auto simp: command_ok)
    qed
  next
    case (Inr x)
    then have "k' = k1" using assms c hd by (simp add: InsertRuleToChain_def Let_def)
    moreover have "run ([''iptables'', ''-C'', c, ''-j''] @ ?r) k = (None, k1)" using c Inr by (simp add: command_ok)
    ultimately show ?thesis using checked [of c ?r k k1] hd by auto
  qed
  then show "rules k' = rules k \<or> (\<exists>rs. rules k c = Some rs \<and> rules k' = (rules k)(c \<mapsto> insert_args r a # rs))"
    and "is_ok v \<Longrightarrow> \<exists>rs. rules k' c = Some rs \<and> insert_args r a \<in> set rs" by auto
qed

end

section \<open>What the rules mean\<close>

text \<open>
  The reading of the arguments the handler emits, after \<open>iptables(8)\<close> and \<open>iptables-extensions(8)\<close>: a rule applies to a
  packet that meets all its criteria; a device name ending in \<open>+\<close> stands for every name it begins.
\<close>

record packet =
  pk_in :: string
  pk_out :: string
  pk_bridged :: bool
  pk_physin :: string
  pk_physout :: string
  pk_src :: ip4
  pk_dst :: ip4
  pk_proto :: string
  pk_syn :: bool
  pk_sport :: int
  pk_dport :: int
  pk_state :: string

definition dev_match :: "string \<Rightarrow> string \<Rightarrow> bool" where
  "dev_match d x = (if d \<noteq> [] \<and> last d = CHR ''+'' then prefix (butlast d) x else d = x)"

definition addr_match :: "string \<Rightarrow> ip4 \<Rightarrow> bool" where
  "addr_match s a = (case parse_cidr s of Some n \<Rightarrow> net_contains n a | None \<Rightarrow> parse_ip s = Some a)"

definition crit_match :: "string \<Rightarrow> string \<Rightarrow> packet \<Rightarrow> bool" where
  "crit_match opt v p =
     (if opt = ''-i'' then dev_match v (pk_in p)
      else if opt = ''-o'' then dev_match v (pk_out p)
      else if opt = ''--physdev-in'' then dev_match v (pk_physin p)
      else if opt = ''--physdev-out'' then dev_match v (pk_physout p)
      else if opt = ''--ctstate'' then pk_state p \<in> set (split_on (CHR '','') v)
      else if opt = ''-p'' then v = pk_proto p
      else if opt = ''-s'' then addr_match v (pk_src p)
      else if opt = ''-d'' then addr_match v (pk_dst p)
      else if opt = ''--sport'' then v = itoa (pk_sport p)
      else if opt = ''--dport'' then v = itoa (pk_dport p)
      else opt \<in> {''-m'', ''--nflog-group'', ''--nflog-prefix''})"

fun args_match :: "string list \<Rightarrow> packet \<Rightarrow> bool" where
  "args_match [] p = True"
| "args_match (opt # args) p =
     (if opt = ''--syn'' then pk_syn p \<and> args_match args p
      else if opt = ''--physdev-is-bridged'' then pk_bridged p \<and> args_match args p
      else (case args of [] \<Rightarrow> False | v # args' \<Rightarrow> crit_match opt v p \<and> args_match args' p))"

declare args_match.simps(2) [simp del]

datatype verdict = Accepted | Dropped | Undecided

text \<open>Evaluation of a chain; \<open>jump\<close> gives the verdict of a user-defined chain. \<open>NFLOG\<close> decides nothing.\<close>

fun eval_chain :: "(string \<Rightarrow> packet \<Rightarrow> verdict) \<Rightarrow> string list list \<Rightarrow> packet \<Rightarrow> verdict" where
  "eval_chain jump [] p = Undecided"
| "eval_chain jump ((j # action # args) # rs) p =
     (if args_match args p then
        if action = ''ACCEPT'' then Accepted
        else if action = ''DROP'' then Dropped
        else if action = ''RETURN'' then Undecided
        else if action = ''NFLOG'' then eval_chain jump rs p
        else (case jump action p of Undecided \<Rightarrow> eval_chain jump rs p | v \<Rightarrow> v)
      else eval_chain jump rs p)"
| "eval_chain jump (_ # rs) p = eval_chain jump rs p"

definition leaf_verdict :: "table \<Rightarrow> string \<Rightarrow> packet \<Rightarrow> verdict" where
  "leaf_verdict tb c p = (case tb c of None \<Rightarrow> Undecided | Some rs \<Rightarrow> eval_chain (\<lambda>_ _. Undecided) rs p)"

definition root_verdict :: "table \<Rightarrow> string \<Rightarrow> packet \<Rightarrow> verdict" where
  "root_verdict tb c p = (case tb c of None \<Rightarrow> Undecided | Some rs \<Rightarrow> eval_chain (leaf_verdict tb) rs p)"

lemma args_match_syn [simp]: "args_match (''--syn'' # args) p \<longleftrightarrow> pk_syn p \<and> args_match args p"
  by (simp add: args_match.simps)

lemma args_match_bridged [simp]: "args_match (''--physdev-is-bridged'' # args) p \<longleftrightarrow> pk_bridged p \<and> args_match args p"
  by (simp add: args_match.simps)

lemma args_match_crit [simp]:
  "opt \<noteq> ''--syn'' \<Longrightarrow> opt \<noteq> ''--physdev-is-bridged'' \<Longrightarrow>
     args_match (opt # v # args) p \<longleftrightarrow> crit_match opt v p \<and> args_match args p"
  by (simp add: args_match.simps)

lemma given_simps [simp]: "given True args = args" "given False args = []"
  by (simp_all add: given_def)

lemma args_match_given [simp]:
  "args_match (given b [opt, v] @ rest) p \<longleftrightarrow> (b \<longrightarrow> opt \<noteq> ''--syn'' \<and> opt \<noteq> ''--physdev-is-bridged'' \<longrightarrow> crit_match opt v p) \<and> args_match rest p"
  if "opt \<noteq> ''--syn''" "opt \<noteq> ''--physdev-is-bridged''"
  using that by (cases b) simp_all

text \<open>A rule that is in the chain already changes nothing when it is met again further down.\<close>

definition skips :: "(string \<Rightarrow> packet \<Rightarrow> verdict) \<Rightarrow> string list \<Rightarrow> packet \<Rightarrow> bool" where
  "skips jump r p \<longleftrightarrow> (\<forall>rs. eval_chain jump (r # rs) p = eval_chain jump rs p)"

lemma eval_step: "skips jump r p \<or> (\<exists>v. \<forall>rs. eval_chain jump (r # rs) p = v)"
proof (cases r)
  case (Cons j t)
  then show ?thesis
  proof (cases t)
    case (Cons action args)
    with \<open>r = j # t\<close> have r: "r = j # action # args" by simp
    consider "\<not> args_match args p" | "args_match args p" "action = ''ACCEPT''" | "args_match args p" "action = ''DROP''"
      | "args_match args p" "action = ''RETURN''" | "args_match args p" "action = ''NFLOG''"
      | "args_match args p" "action \<notin> {''ACCEPT'', ''DROP'', ''RETURN'', ''NFLOG''}" by blast
    then show ?thesis by cases (cases "jump action p"; simp add: r skips_def)+
  next
    case Nil
    with \<open>r = j # t\<close> show ?thesis by (simp add: skips_def)
  qed
qed (simp add: skips_def)

lemma eval_again:
  assumes "r \<in> set xs"
  shows "eval_chain jump (xs @ r # ys) p = eval_chain jump (xs @ ys) p"
  using assms
proof (induction xs)
  case (Cons x xs)
  show ?case
  proof (cases "skips jump x p")
    case True
    show ?thesis
    proof (cases "r \<in> set xs")
      case True
      then show ?thesis using \<open>skips jump x p\<close> Cons.IH by (simp add: skips_def)
    next
      case False
      then have "r = x" using Cons.prems by simp
      have drop: "eval_chain jump (zs @ r # ys) p = eval_chain jump (zs @ ys) p" for zs
      proof (induction zs)
        case Nil
        then show ?case using \<open>skips jump x p\<close> \<open>r = x\<close> by (simp add: skips_def)
      next
        case (Cons z zs)
        then show ?case using eval_step [of jump z p] by (auto simp: skips_def)
      qed
      show ?thesis using drop [of "x # xs"] .
    qed
  next
    case False
    then show ?thesis using eval_step [of jump x p] by auto
  qed
qed simp

context iptables_tool
begin

text \<open>
  Adding a run of rules: the other chains are untouched, and whatever checks found a rule present already,
  the chain decides every packet as the chain with exactly these rules appended would.
\<close>

lemma add_rules_ok:
  assumes "add_rules run c rs k = (Inr u, k')" and "rules k c = Some xs"
  shows "\<exists>ys. rules k' = (rules k)(c \<mapsto> ys) \<and> (\<forall>jump p. eval_chain jump ys p = eval_chain jump (xs @ map (\<lambda>(r, a). add_args r a) rs) p)"
  using assms
proof (induction rs arbitrary: k xs)
  case Nil
  then show ?case by (intro exI [of _ xs]) (simp add: fun_upd_idem)
next
  case (Cons ra rs)
  obtain r a where ra: "ra = (r, a)" by force
  obtain k1 where k1: "AddRuleToChain run c r a k = (Inr (), k1)" "add_rules run c rs k1 = (Inr u, k')"
    using Cons.prems(1) ra by (auto split: prod.splits sum.splits)
  let ?r = "add_args r a" and ?rs = "map (\<lambda>(r, a). add_args r a) rs"
  consider "rules k1 = rules k" "?r \<in> set xs" | "rules k1 = (rules k)(c \<mapsto> xs @ [?r])"
    using AddRuleToChain_ok [OF k1(1)] Cons.prems(2) by auto
  then show ?case
  proof cases
    case 1
    then show ?thesis using Cons.IH [OF k1(2), of xs] Cons.prems(2) ra eval_again [OF 1(2)] by simp
  next
    case 2
    then have "rules k1 c = Some (xs @ [?r])" by simp
    from Cons.IH [OF k1(2) this] obtain ys where ys: "rules k' = (rules k1)(c \<mapsto> ys)"
      "\<forall>jump p. eval_chain jump ys p = eval_chain jump ((xs @ [?r]) @ ?rs) p" by blast
    show ?thesis using ys ra by (intro exI [of _ ys]) (simp add: 2 fun_eq_iff)
  qed
qed

end

section \<open>A table as the commands describe it\<close>

text \<open>The least state that satisfies the contract: the kernel is its table, a command fails when its chain or rule is missing.\<close>

fun table_run :: "table tool" where
  "table_run [prog, opt, c] tb =
     (if opt = ''-L'' then (if tb c = None then (Some ''No chain/target/match by that name.'', tb) else (None, tb))
      else if opt = ''-F'' then (if tb c = None then (Some ''No chain/target/match by that name.'', tb) else (None, tb(c \<mapsto> [])))
      else if opt = ''-N'' then (if tb c = None then (None, tb(c \<mapsto> [])) else (Some ''Chain already exists.'', tb))
      else (Some ''bad argument'', tb))"
| "table_run (prog # opt # c # a # r) tb =
     (case tb c of
        None \<Rightarrow> (Some ''No chain/target/match by that name.'', tb)
      | Some rs \<Rightarrow>
          if opt = ''-C'' then (if (a # r) \<in> set rs then (None, tb) else (Some ''Bad rule'', tb))
          else if opt = ''-A'' then (None, tb(c \<mapsto> rs @ [a # r]))
          else if opt = ''-I'' then (None, tb(c \<mapsto> (if a = ''1'' then r else a # r) # rs))
          else (Some ''bad argument'', tb))"
| "table_run args tb = (Some ''bad argument'', tb)"

lemma table_run_failed: "table_run args tb = (Some e, tb') \<Longrightarrow> tb' = tb"
  by (cases "(args, tb)" rule: table_run.cases) (auto split: if_splits option.splits)

interpretation plain_table: iptables_tool table_run "\<lambda>tb. tb"
  by unfold_locales (auto dest: table_run_failed split: if_splits option.splits)

end
