(* ===== verification/Policy_Service.thy ===== *)
theory Policy_Service
  imports Iptables Policy_Store Ipam_Store Container_Store Pod_Store
begin

text \<open>
  The firewall policy service (\<open>core/policy/service.go\<close>): a commit settles the north-south mode, rebuilds the four
  chains \<open>RAIND-ROOT\<close>, \<open>RAIND-EW\<close>, \<open>RAIND-NS-OBS\<close> and \<open>RAIND-NS-ENF\<close> from the networks and the policy document, and takes the
  running copy. The policy document and the kernel's tables change; the address, container and pod documents are read.
\<close>

section \<open>The rules of the predefined chains\<close>

definition devs :: "string \<Rightarrow> string \<Rightarrow> RuleModel" where
  "devs i o' = no_rule\<lparr>rm_InputDev := i, rm_OutputDev := o'\<rparr>"

definition new_logged :: "int \<Rightarrow> string \<Rightarrow> RuleModel \<Rightarrow> RuleModel" where
  "new_logged grp pre r = r\<lparr>rm_Conntrack := True, rm_Ctstate := [''NEW''], rm_NflogGroup := grp, rm_NflogPrefix := pre\<rparr>"

definition root_rules :: "bool \<Rightarrow> (RuleModel \<times> string) list" where
  "root_rules enforce =
     [(no_rule\<lparr>rm_Conntrack := True, rm_Ctstate := [''ESTABLISHED'', ''RELATED'']\<rparr>, ''ACCEPT''),
      (no_rule, ''RAIND-EW''),
      (no_rule, if enforce then ''RAIND-NS-ENF'' else ''RAIND-NS-OBS''),
      (no_rule, ''RETURN'')]"

definition ew_rules :: "string list \<Rightarrow> bool \<Rightarrow> (RuleModel \<times> string) list" where
  "ew_rules nets nflog =
     (if nflog then map (\<lambda>n. (new_logged 10 ''RAIND-EW-DENY,id=predefined''
         ((devs n n)\<lparr>rm_Physdev := True, rm_PhysdevIsBridge := True\<rparr>), ''NFLOG'')) nets else []) @
     map (\<lambda>n. (devs n n, ''DROP'')) nets @
     (if nflog then [(new_logged 10 ''RAIND-EW-DENY,id=predefined'' (devs ''raind+'' ''raind+''), ''NFLOG'')] else []) @
     [(devs ''raind+'' ''raind+'', ''DROP''), (no_rule, ''RETURN'')]"

definition obs_rules :: "string \<Rightarrow> string list \<Rightarrow> bool \<Rightarrow> (RuleModel \<times> string) list" where
  "obs_rules host nets nflog =
     concat (map (\<lambda>n.
       (if nflog then
          [(new_logged 11 ''RAIND-NS-ALLOW,id=predefined'' ((devs host n)\<lparr>rm_Protocol := ''tcp'', rm_Syn := True\<rparr>), ''NFLOG''),
           (new_logged 11 ''RAIND-NS-ALLOW,id=predefined'' ((devs host n)\<lparr>rm_Protocol := ''udp''\<rparr>), ''NFLOG''),
           (new_logged 11 ''RAIND-NS-ALLOW,id=predefined'' (devs n host), ''NFLOG'')]
        else []) @ [(devs n host, ''ACCEPT'')]) nets) @
     [(no_rule, ''RETURN'')]"

definition enf_rules :: "string \<Rightarrow> string list \<Rightarrow> bool \<Rightarrow> (RuleModel \<times> string) list" where
  "enf_rules host nets nflog =
     (if nflog then map (\<lambda>n. (new_logged 12 ''RAIND-NS-DENY,id=predefined'' (devs n host), ''NFLOG'')) nets else []) @
     map (\<lambda>n. (devs n host, ''DROP'')) nets @ [(no_rule, ''RETURN'')]"

section \<open>The world of the service\<close>

text \<open>
  What a run reads and does not change, and the outcome of the system calls of each access to a document; \<open>pw_tick\<close>
  numbers the accesses.
\<close>

record policy_env =
  pe_io :: "nat \<Rightarrow> io_env"
  pe_backup :: backup_io
  pe_host :: host_env
  pe_ipam :: "IpamState disk"
  pe_csm :: "container_doc disk"
  pe_psm :: "pod_doc disk"

record 'k policy_world =
  pw_npm :: npm_files
  pw_kernel :: 'k
  pw_tick :: nat

definition reading :: "policy_env \<Rightarrow> (io_env \<Rightarrow> 'a) \<Rightarrow> 'k policy_world \<Rightarrow> 'a \<times> 'k policy_world" where
  "reading env f w = (f (pe_io env (pw_tick w)), w\<lparr>pw_tick := Suc (pw_tick w)\<rparr>)"

definition on_npm :: "policy_env \<Rightarrow> (io_env \<Rightarrow> npm_files \<Rightarrow> 'a res \<times> npm_files) \<Rightarrow> 'k policy_world \<Rightarrow>
    'a res \<times> 'k policy_world" where
  "on_npm env f w = (let (r, n) = f (pe_io env (pw_tick w)) (pw_npm w) in
     (r, w\<lparr>pw_npm := n, pw_tick := Suc (pw_tick w)\<rparr>))"

definition on_kernel :: "('k \<Rightarrow> unit res \<times> 'k) \<Rightarrow> 'k policy_world \<Rightarrow> unit res \<times> 'k policy_world" where
  "on_kernel f w = (let (r, k) = f (pw_kernel w) in (r, w\<lparr>pw_kernel := k\<rparr>))"

section \<open>Editing the policies\<close>

record ServiceAddPolicyModel =
  ap_ChainName :: string
  ap_Source :: string
  ap_Destination :: string
  ap_Protocol :: string
  ap_DestPort :: int
  ap_Comment :: string

text \<open>The container identifier and name a text stands for; an unknown text is the name of a container yet to come.\<close>

definition resolveContainerNameAndInfo :: "policy_env \<Rightarrow> string \<Rightarrow> 'k policy_world \<Rightarrow> (string \<times> string) \<times> 'k policy_world" where
  "resolveContainerNameAndInfo env s w =
     (case reading env (\<lambda>io. csm_GetContainerIdByName io s (pe_csm env)) w of
        (Inr got, w1) \<Rightarrow> ((got, s), w1)
      | (Inl _, w1) \<Rightarrow> (case reading env (\<lambda>io. csm_GetContainerNameById io s (pe_csm env)) w1 of
            (Inr got, w2) \<Rightarrow> ((s, got), w2)
          | (Inl _, w2) \<Rightarrow> (([], s), w2)))"

abbreviation named_host :: "string \<Rightarrow> HostInfo" where
  "named_host n \<equiv> \<lparr>ho_ContainerName = n, ho_DisplayName = [], ho_Address = []\<rparr>"

definition user_policy :: "string \<Rightarrow> HostInfo \<Rightarrow> HostInfo \<Rightarrow> ServiceAddPolicyModel \<Rightarrow> Policy" where
  "user_policy i src dst m = \<lparr>pl_Id = i, pl_Status = ''before_commit'', pl_Reason = [], pl_Source = src, pl_Destination = dst,
     pl_Protocol = ap_Protocol m, pl_DestPort = ap_DestPort m, pl_Comment = ap_Comment m, pl_ManagedBy = [],
     pl_OwnerKind = [], pl_OwnerNS = [], pl_OwnerName = [], pl_OwnerId = []\<rparr>"

definition AddUserPolicy :: "policy_env \<Rightarrow> string \<Rightarrow> ServiceAddPolicyModel \<Rightarrow> 'k policy_world \<Rightarrow> string res \<times> 'k policy_world" where
  "AddUserPolicy env ulid m w =
     (let ((_, src), w1) = resolveContainerNameAndInfo env (ap_Source m) w;
          (dst, w2) = (if ap_ChainName m = ''RAIND-EW''
             then (let ((_, d), w') = resolveContainerNameAndInfo env (ap_Destination m) w1 in (named_host d, w'))
             else (\<lparr>ho_ContainerName = [], ho_DisplayName = [], ho_Address = ap_Destination m\<rparr>, w1))
      in and_then (on_npm env (\<lambda>io. npm_AddPolicy io (ap_ChainName m) (user_policy ulid (named_host src) dst m)))
           (\<lambda>_ w'. (Inr ulid, w')) w2)"

definition RemoveUserPolicy :: "policy_env \<Rightarrow> string \<Rightarrow> 'k policy_world \<Rightarrow> unit res \<times> 'k policy_world" where
  "RemoveUserPolicy env i w =
     (case reading env (\<lambda>io. npm_GetPolicyChain io i (pw_npm w)) w of
        (Inl e, w1) \<Rightarrow> (Inl e, w1)
      | (Inr chain, w1) \<Rightarrow> on_npm env (\<lambda>io. npm_UpdateStatus io chain i ''remove_next_commit'' ''user operation'') w1)"

definition Service_ChangeNSMode :: "policy_env \<Rightarrow> string \<Rightarrow> 'k policy_world \<Rightarrow> unit res \<times> 'k policy_world" where
  "Service_ChangeNSMode env mode w =
     (if mode \<noteq> ''enforce'' \<and> mode \<noteq> ''observe'' then (Inl (Msg (''invalid mode: '' @ mode)), w)
      else (case reading env (\<lambda>io. npm_GetNSMode io (pw_npm w)) w of (current, w1) \<Rightarrow>
        if current = mode then (Inl (Msg (''NS Mode already set in: '' @ current)), w1)
        else on_npm env (\<lambda>io. npm_ChangeNSMode io (mode @ ''_next_commit'')) w1))"

definition FixNSMode :: "policy_env \<Rightarrow> 'k policy_world \<Rightarrow> unit res \<times> 'k policy_world" where
  "FixNSMode env w =
     (case reading env (\<lambda>io. npm_GetNSMode io (pw_npm w)) w of (current, w1) \<Rightarrow>
        if current = ''observe'' \<or> current = ''enforce'' then (Inr (), w1)
        else if str_contains current ''_next_commit''
        then on_npm env (\<lambda>io. npm_ChangeNSMode io (hd (split_on (CHR ''_'') current))) w1
        else (Inr (), w1))"

section \<open>Building the predefined chains\<close>

fun createChain :: "'k tool \<Rightarrow> string list \<Rightarrow> 'k \<Rightarrow> unit res \<times> 'k" where
  "createChain run [] k = (Inr (), k)"
| "createChain run (c # cs) k = and_then (CreateChain run c) (\<lambda>_. createChain run cs) k"

definition raind_chains :: "string list" where
  "raind_chains = [''RAIND-ROOT'', ''RAIND-EW'', ''RAIND-NS-OBS'', ''RAIND-NS-ENF'']"

definition insertForward :: "'k tool \<Rightarrow> 'k \<Rightarrow> unit res \<times> 'k" where
  "insertForward run = InsertForwardRule run ''RAIND-ROOT''"

definition buildRaindRootChain :: "'k tool \<Rightarrow> bool \<Rightarrow> 'k \<Rightarrow> unit res \<times> 'k" where
  "buildRaindRootChain run enforce = add_rules run ''RAIND-ROOT'' (root_rules enforce)"

definition buildRaindEWChain :: "'k tool \<Rightarrow> string list \<Rightarrow> bool \<Rightarrow> 'k \<Rightarrow> unit res \<times> 'k" where
  "buildRaindEWChain run nets nflog = add_rules run ''RAIND-EW'' (ew_rules nets nflog)"

definition buildRaindNSObserveChain :: "policy_env \<Rightarrow> 'k tool \<Rightarrow> string list \<Rightarrow> bool \<Rightarrow> 'k policy_world \<Rightarrow> unit res \<times> 'k policy_world" where
  "buildRaindNSObserveChain env run nets nflog =
     and_then (reading env (\<lambda>io. ipam_GetDefaultInterface (pe_host env) io (pe_ipam env)))
       (\<lambda>host. on_kernel (add_rules run ''RAIND-NS-OBS'' (obs_rules host nets nflog)))"

definition buildRaindNSEnforceChain :: "policy_env \<Rightarrow> 'k tool \<Rightarrow> string list \<Rightarrow> bool \<Rightarrow> 'k policy_world \<Rightarrow> unit res \<times> 'k policy_world" where
  "buildRaindNSEnforceChain env run nets nflog =
     and_then (reading env (\<lambda>io. ipam_GetDefaultInterface (pe_host env) io (pe_ipam env)))
       (\<lambda>host. on_kernel (add_rules run ''RAIND-NS-ENF'' (enf_rules host nets nflog)))"

definition BuildPredefinedPolicy :: "policy_env \<Rightarrow> 'k tool \<Rightarrow> 'k policy_world \<Rightarrow> unit res \<times> 'k policy_world" where
  "BuildPredefinedPolicy env run w0 =
     and_then (reading env (\<lambda>io. ipam_GetNetworkList (pe_host env) io (pe_ipam env))) (\<lambda>networkList w1.
       let nets = map nl_Interface networkList;
           (enforce, w2) = reading env (\<lambda>io. npm_IsNsEnforce io (pw_npm w1)) w1;
           (loggingEw, w3) = reading env (\<lambda>io. npm_GetEWLogging io (pw_npm w2)) w2;
           (loggingNs, w4) = reading env (\<lambda>io. npm_GetNSLogging io (pw_npm w3)) w3
       in and_then (on_kernel (createChain run raind_chains)) (\<lambda>_.
          and_then (on_kernel (insertForward run)) (\<lambda>_.
          and_then (on_kernel (buildRaindRootChain run enforce)) (\<lambda>_.
          and_then (on_kernel (buildRaindEWChain run nets loggingEw)) (\<lambda>_.
          if enforce then buildRaindNSEnforceChain env run nets loggingNs
          else buildRaindNSObserveChain env run nets loggingNs)))) w4) w0"

section \<open>Applying the user policies\<close>

definition ew_rule :: "string \<Rightarrow> string \<Rightarrow> Policy \<Rightarrow> RuleModel" where
  "ew_rule srcVeth dstVeth p = no_rule\<lparr>rm_Physdev := True, rm_PhysdevIsBridge := True, rm_InputPhysdev := srcVeth,
     rm_OutputPhysdev := dstVeth, rm_Protocol := pl_Protocol p, rm_DestPort := pl_DestPort p\<rparr>"

definition not_found :: "HostInfo \<Rightarrow> string" where
  "not_found h = ''container: '' @ ho_ContainerName h @ '' not found''"

text \<open>One round of a loop over policies: \<open>Inl\<close> returns from the function, \<open>Inr\<close> goes on with the next policy.\<close>

definition skip_err :: "unit res \<times> 'w \<Rightarrow> ('w \<Rightarrow> unit res \<times> 'w) \<Rightarrow> unit res \<times> 'w" where
  "skip_err x g = (case x of (Inl _, w) \<Rightarrow> (Inr (), w) | (Inr _, w) \<Rightarrow> g w)"

definition apply_ew :: "policy_env \<Rightarrow> 'k tool \<Rightarrow> bool \<Rightarrow> Policy \<Rightarrow> 'k policy_world \<Rightarrow> unit res \<times> 'k policy_world" where
  "apply_ew env run logging p w0 =
     (if pl_Status p = ''remove_next_commit'' then on_npm env (\<lambda>io. npm_RemovePolicy io (pl_Id p)) w0
      else
       let ((srcId, _), w1) = resolveContainerNameAndInfo env (ho_ContainerName (pl_Source p)) w0;
           ((dstId, _), w2) = resolveContainerNameAndInfo env (ho_ContainerName (pl_Destination p)) w1
       in case reading env (\<lambda>io. ipam_GetVethById (pe_host env) io srcId (pe_ipam env)) w2 of
            (Inl _, w3) \<Rightarrow> on_npm env (\<lambda>io. npm_UpdateStatus io ''RAIND-EW'' (pl_Id p) ''unresolved'' (not_found (pl_Source p))) w3
          | (Inr srcVeth, w3) \<Rightarrow>
              (case reading env (\<lambda>io. ipam_GetVethById (pe_host env) io dstId (pe_ipam env)) w3 of
                 (Inl _, w4) \<Rightarrow> on_npm env (\<lambda>io. npm_UpdateStatus io ''RAIND-EW'' (pl_Id p) ''unresolved'' (not_found (pl_Destination p))) w4
               | (Inr dstVeth, w4) \<Rightarrow>
                   skip_err (on_kernel (InsertRuleToChain run ''RAIND-EW'' (ew_rule srcVeth dstVeth p) ''ACCEPT'') w4) (\<lambda>w5.
                   skip_err (if logging then on_kernel (InsertRuleToChain run ''RAIND-EW''
                        (new_logged 10 (''RAIND-EW-ALLOW,id='' @ pl_Id p) (ew_rule srcVeth dstVeth p)) ''NFLOG'') w5 else (Inr (), w5)) (\<lambda>w6.
                   skip_err (on_npm env (\<lambda>io. npm_UpdateStatus io ''RAIND-EW'' (pl_Id p) ''applied'' []) w6) (\<lambda>w7. (Inr (), w7))))))"

fun insertRaindEWUserPolicy :: "policy_env \<Rightarrow> 'k tool \<Rightarrow> Policy list \<Rightarrow> bool \<Rightarrow> 'k policy_world \<Rightarrow> unit res \<times> 'k policy_world" where
  "insertRaindEWUserPolicy env run [] logging w = (Inr (), w)"
| "insertRaindEWUserPolicy env run (p # ps) logging w =
     and_then (apply_ew env run logging p) (\<lambda>_. insertRaindEWUserPolicy env run ps logging) w"

definition ns_rule :: "string \<Rightarrow> string \<Rightarrow> string \<Rightarrow> Policy \<Rightarrow> RuleModel" where
  "ns_rule bridgeDev srcAddress dstDev p = no_rule\<lparr>rm_InputDev := bridgeDev, rm_Source := srcAddress, rm_OutputDev := dstDev,
     rm_Destination := ho_Address (pl_Destination p), rm_Protocol := pl_Protocol p, rm_DestPort := pl_DestPort p\<rparr>"

definition ns_action :: "string \<Rightarrow> string" where
  "ns_action chain = (if chain = ''RAIND-NS-OBS'' then ''DROP'' else ''ACCEPT'')"

definition ns_log :: "string \<Rightarrow> string \<Rightarrow> int \<times> string" where
  "ns_log chain i = (if chain = ''RAIND-NS-OBS'' then (11, ''RAIND-NS-DENY,id='' @ i) else (12, ''RAIND-NS-ALLOW,id='' @ i))"

text \<open>The values of a call whose error is ignored: the zero values when it fails.\<close>

definition or_zero :: "'a \<Rightarrow> 'a res \<Rightarrow> 'a" where
  "or_zero z r = (case r of Inl _ \<Rightarrow> z | Inr a \<Rightarrow> a)"

definition apply_ns :: "policy_env \<Rightarrow> 'k tool \<Rightarrow> string \<Rightarrow> bool \<Rightarrow> Policy \<Rightarrow> 'k policy_world \<Rightarrow> unit res \<times> 'k policy_world" where
  "apply_ns env run chain logging p w0 =
     (if pl_Status p = ''remove_next_commit'' then on_npm env (\<lambda>io. npm_RemovePolicy io (pl_Id p)) w0
      else
       let ((srcId, _), w1) = resolveContainerNameAndInfo env (ho_ContainerName (pl_Source p)) w0
       in case reading env (\<lambda>io. ipam_GetVethById (pe_host env) io srcId (pe_ipam env)) w1 of
            (Inl _, w2) \<Rightarrow> on_npm env (\<lambda>io. npm_UpdateStatus io chain (pl_Id p) ''unresolved'' (not_found (pl_Source p))) w2
          | (Inr _, w2) \<Rightarrow>
              (let (addr, w3) = reading env (\<lambda>io. ipam_GetContainerAddress (pe_host env) io srcId (pe_ipam env)) w2;
                   (_, bridgeDev, srcAddress) = or_zero ([], [], []) addr;
                   (dev, w4) = reading env (\<lambda>io. ipam_GetDefaultInterface (pe_host env) io (pe_ipam env)) w3;
                   rule = ns_rule bridgeDev srcAddress (or_zero [] dev) p
               in skip_err (on_kernel (InsertRuleToChain run chain rule (ns_action chain)) w4) (\<lambda>w5.
                  skip_err (if logging then on_kernel (InsertRuleToChain run chain
                       (new_logged (fst (ns_log chain (pl_Id p))) (snd (ns_log chain (pl_Id p))) rule) ''NFLOG'') w5 else (Inr (), w5)) (\<lambda>w6.
                  skip_err (on_npm env (\<lambda>io. npm_UpdateStatus io chain (pl_Id p) ''applied'' []) w6) (\<lambda>w7. (Inr (), w7))))))"

fun insertRaindNSUserPolicy :: "policy_env \<Rightarrow> 'k tool \<Rightarrow> string \<Rightarrow> Policy list \<Rightarrow> bool \<Rightarrow> 'k policy_world \<Rightarrow> unit res \<times> 'k policy_world" where
  "insertRaindNSUserPolicy env run chain [] logging w = (Inr (), w)"
| "insertRaindNSUserPolicy env run chain (p # ps) logging w =
     and_then (apply_ns env run chain logging p) (\<lambda>_. insertRaindNSUserPolicy env run chain ps logging) w"

text \<open>The errors of the first two insertions are overwritten.\<close>

definition BuildUserPolicy :: "policy_env \<Rightarrow> 'k tool \<Rightarrow> 'k policy_world \<Rightarrow> unit res \<times> 'k policy_world" where
  "BuildUserPolicy env run w0 =
     (let (loggingEw, w1) = reading env (\<lambda>io. npm_GetEWLogging io (pw_npm w0)) w0;
          (loggingNs, w2) = reading env (\<lambda>io. npm_GetNSLogging io (pw_npm w1)) w1;
          (ew, w3) = reading env (\<lambda>io. npm_GetEWPolicyList io (pw_npm w2)) w2;
          (_, w4) = insertRaindEWUserPolicy env run ew loggingEw w3;
          (obs, w5) = reading env (\<lambda>io. npm_GetNSObsPolicyList io (pw_npm w4)) w4;
          (_, w6) = insertRaindNSUserPolicy env run ''RAIND-NS-OBS'' obs loggingNs w5;
          (enf, w7) = reading env (\<lambda>io. npm_GetNSEnfPolicyList io (pw_npm w6)) w6
      in insertRaindNSUserPolicy env run ''RAIND-NS-ENF'' enf loggingNs w7)"

definition CommitPolicy :: "policy_env \<Rightarrow> 'k tool \<Rightarrow> 'k policy_world \<Rightarrow> unit res \<times> 'k policy_world" where
  "CommitPolicy env run =
     and_then (FixNSMode env) (\<lambda>_.
     and_then (BuildPredefinedPolicy env run) (\<lambda>_.
     and_then (BuildUserPolicy env run) (\<lambda>_.
     on_npm env (\<lambda>_. npm_Backup (pe_backup env)))))"

definition RevertPolicy :: "revert_io \<Rightarrow> 'k policy_world \<Rightarrow> unit res \<times> 'k policy_world" where
  "RevertPolicy io w = (let (r, n) = npm_Revert io (pw_npm w) in (r, w\<lparr>pw_npm := n\<rparr>))"

section \<open>Listing the policies\<close>

record ListedHost =
  lh_ContainerName :: string
  lh_DisplayName :: string
  lh_Address :: string

record PolicyInfo =
  pi_Id :: string
  pi_Status :: string
  pi_Reason :: string
  pi_Source :: ListedHost
  pi_Destination :: ListedHost
  pi_Protocol :: string
  pi_DestPort :: int
  pi_Comment :: string

record PolicyListModel =
  lm_Mode :: string
  lm_PoliciesTotal :: nat
  lm_Policies :: "PolicyInfo list"

text \<open>The infrastructure container of a pod is shown under the name of the pod.\<close>

definition displayNameForPolicyHost :: "policy_env \<Rightarrow> HostInfo \<Rightarrow> 'k policy_world \<Rightarrow> string \<times> 'k policy_world" where
  "displayNameForPolicyHost env h w =
     (if ho_DisplayName h \<noteq> [] then (ho_DisplayName h, w)
      else if ho_ContainerName h = [] \<or> \<not> prefix ''condenser-pod-infra-'' (ho_ContainerName h) then (ho_ContainerName h, w)
      else let ((cid, _), w1) = resolveContainerNameAndInfo env (ho_ContainerName h) w in
        if cid = [] then (ho_ContainerName h, w1)
        else case reading env (\<lambda>io. csm_GetContainerById io cid (pe_csm env)) w1 of
          (Inl _, w2) \<Rightarrow> (ho_ContainerName h, w2)
        | (Inr info, w2) \<Rightarrow>
            if cn_PodId info = [] then (ho_ContainerName h, w2)
            else case reading env (\<lambda>io. psm_GetPodById io (cn_PodId info) (pe_psm env)) w2 of
              (Inl _, w3) \<Rightarrow> (ho_ContainerName h, w3)
            | (Inr pod, w3) \<Rightarrow> (if pd_Name pod = [] then ho_ContainerName h else pd_Name pod, w3))"

definition policyHostInfo :: "policy_env \<Rightarrow> HostInfo \<Rightarrow> 'k policy_world \<Rightarrow> ListedHost \<times> 'k policy_world" where
  "policyHostInfo env h w = (let (n, w1) = displayNameForPolicyHost env h w in
     (\<lparr>lh_ContainerName = ho_ContainerName h, lh_DisplayName = n, lh_Address = ho_Address h\<rparr>, w1))"

fun list_policies :: "policy_env \<Rightarrow> Policy list \<Rightarrow> 'k policy_world \<Rightarrow> PolicyInfo list \<times> 'k policy_world" where
  "list_policies env [] w = ([], w)"
| "list_policies env (p # ps) w =
     (let (src, w1) = policyHostInfo env (pl_Source p) w;
          (dst, w2) = policyHostInfo env (pl_Destination p) w1;
          (rest, w3) = list_policies env ps w2
      in (\<lparr>pi_Id = pl_Id p, pi_Status = pl_Status p, pi_Reason = pl_Reason p, pi_Source = src, pi_Destination = dst,
           pi_Protocol = pl_Protocol p, pi_DestPort = pl_DestPort p, pi_Comment = pl_Comment p\<rparr> # rest, w3))"

definition GetPolicyList :: "policy_env \<Rightarrow> string \<Rightarrow> 'k policy_world \<Rightarrow> PolicyListModel \<times> 'k policy_world" where
  "GetPolicyList env chain w =
     (let listing = (\<lambda>mode policies.
            let (m, w1) = reading env (\<lambda>io. mode io (pw_npm w)) w;
                (ps, w2) = reading env (\<lambda>io. policies io (pw_npm w1)) w1;
                (infos, w3) = list_policies env ps w2
            in (\<lparr>lm_Mode = m, lm_PoliciesTotal = length ps, lm_Policies = infos\<rparr>, w3))
      in if chain = ''RAIND-EW'' then listing npm_GetEWMode npm_GetEWPolicyList
         else if chain = ''RAIND-NS-OBS'' then listing npm_GetNSMode npm_GetNSObsPolicyList
         else if chain = ''RAIND-NS-ENF'' then listing npm_GetNSMode npm_GetNSEnfPolicyList
         else (\<lparr>lm_Mode = [], lm_PoliciesTotal = 0, lm_Policies = []\<rparr>, w))"

text \<open>A listing changes neither the document nor the kernel, whatever fails, and its total is the number of policies listed.\<close>

lemma resolve_frame: "pw_npm (snd (resolveContainerNameAndInfo env s w)) = pw_npm w"
  "pw_kernel (snd (resolveContainerNameAndInfo env s w)) = pw_kernel w"
  by (auto simp: resolveContainerNameAndInfo_def reading_def split: sum.splits)

lemma policyHostInfo_frame: "pw_npm (snd (policyHostInfo env h w)) = pw_npm w" "pw_kernel (snd (policyHostInfo env h w)) = pw_kernel w"
  using resolve_frame [of env "ho_ContainerName h" w]
  by (auto simp: policyHostInfo_def displayNameForPolicyHost_def reading_def Let_def split: sum.splits prod.splits)

lemma list_policies_frame:
  "pw_npm (snd (list_policies env ps w)) = pw_npm w \<and> pw_kernel (snd (list_policies env ps w)) = pw_kernel w \<and>
   map pi_Id (fst (list_policies env ps w)) = map pl_Id ps"
proof (induction ps arbitrary: w)
  case (Cons p ps)
  obtain src w1 where s: "policyHostInfo env (pl_Source p) w = (src, w1)" by force
  obtain dst w2 where d: "policyHostInfo env (pl_Destination p) w1 = (dst, w2)" by force
  have "pw_npm w2 = pw_npm w" "pw_kernel w2 = pw_kernel w"
    using policyHostInfo_frame [of env "pl_Source p" w] policyHostInfo_frame [of env "pl_Destination p" w1] s d by simp_all
  with Cons.IH [of w2] s d show ?case by (simp add: split_beta)
qed simp

lemma GetPolicyList_frame:
  assumes "GetPolicyList env chain w = (l, w')"
  shows "pw_npm w' = pw_npm w" and "pw_kernel w' = pw_kernel w" and "lm_PoliciesTotal l = length (lm_Policies l)"
proof -
  have len: "length (fst (list_policies env ps v)) = length ps" for ps and v :: "'a policy_world"
    using list_policies_frame [of env ps v] by (metis length_map)
  show "pw_npm w' = pw_npm w" "pw_kernel w' = pw_kernel w" "lm_PoliciesTotal l = length (lm_Policies l)"
    using assms
    by (auto simp: GetPolicyList_def reading_def split_beta Let_def list_policies_frame len split: if_splits)
qed

end
