(* ===== verification/Policy_Commit.thy ===== *)
theory Policy_Commit
  imports Policy_Service
begin

text \<open>
  What a commit of the firewall policy service leaves in the kernel: how the predefined chains decide a packet, which
  rules the user policies add in front of them, and the resulting guarantees.
\<close>


section \<open>How the chains decide\<close>

abbreviation rule_lines :: "(RuleModel \<times> string) list \<Rightarrow> string list list" where
  "rule_lines rs \<equiv> map (\<lambda>(r, a). add_args r a) rs"

definition behaves_as :: "table \<Rightarrow> string \<Rightarrow> (RuleModel \<times> string) list \<Rightarrow> bool" where
  "behaves_as tb c rs \<longleftrightarrow> (\<exists>ys. tb c = Some ys \<and> (\<forall>jump p. eval_chain jump ys p = eval_chain jump (rule_lines rs) p))"

text \<open>The criteria of a rule, read off the model.\<close>

definition port_match :: "int \<Rightarrow> int \<Rightarrow> bool" where
  "port_match want have \<longleftrightarrow> (want > 0 \<longrightarrow> itoa want = itoa have)"

definition name_match :: "(string \<Rightarrow> 'a \<Rightarrow> bool) \<Rightarrow> string \<Rightarrow> 'a \<Rightarrow> bool" where
  "name_match m want have \<longleftrightarrow> (want \<noteq> [] \<longrightarrow> m want have)"

definition model_match :: "RuleModel \<Rightarrow> packet \<Rightarrow> bool" where
  "model_match r p \<longleftrightarrow>
     (rm_Ctstate r \<noteq> [] \<longrightarrow> pk_state p \<in> set (split_on (CHR '','') (str_join '','' (rm_Ctstate r)))) \<and>
     (rm_PhysdevIsBridge r \<longrightarrow> pk_bridged p) \<and>
     name_match dev_match (rm_InputDev r) (pk_in p) \<and> name_match dev_match (rm_OutputDev r) (pk_out p) \<and>
     name_match dev_match (rm_InputPhysdev r) (pk_physin p) \<and> name_match dev_match (rm_OutputPhysdev r) (pk_physout p) \<and>
     name_match (=) (rm_Protocol r) (pk_proto p) \<and>
     port_match (rm_SourcePort r) (pk_sport p) \<and> port_match (rm_DestPort r) (pk_dport p)"

lemma args_match_bridge_given [simp]:
  "args_match (given b [''--physdev-is-bridged''] @ rest) p \<longleftrightarrow> (b \<longrightarrow> pk_bridged p) \<and> args_match rest p"
  by (cases b) simp_all

lemma args_match_dev:
  "args_match (dev_args r @ rest) p \<longleftrightarrow>
     (rm_Ctstate r \<noteq> [] \<longrightarrow> pk_state p \<in> set (split_on (CHR '','') (str_join '','' (rm_Ctstate r)))) \<and>
     (rm_PhysdevIsBridge r \<longrightarrow> pk_bridged p) \<and>
     name_match dev_match (rm_InputDev r) (pk_in p) \<and> name_match dev_match (rm_OutputDev r) (pk_out p) \<and>
     name_match dev_match (rm_InputPhysdev r) (pk_physin p) \<and> name_match dev_match (rm_OutputPhysdev r) (pk_physout p) \<and>
     args_match rest p"
  by (simp add: dev_args_def crit_match_def name_match_def)

lemma args_match_nflog [simp]: "args_match (nflog_args r) p"
  using args_match_given [of "''--nflog-prefix''" _ _ "[]"]
  by (simp add: nflog_args_def crit_match_def)

lemma add_args_match:
  "args_match (tl (tl (add_args r a))) p \<longleftrightarrow> model_match r p \<and> (rm_Protocol r = ''tcp'' \<and> rm_Syn r \<longrightarrow> pk_syn p)"
proof -
  have syn: "args_match (given (rm_Protocol r \<noteq> []) (''-p'' # rm_Protocol r # given (rm_Protocol r = ''tcp'' \<and> rm_Syn r) [''--syn'']) @ rest) p
    \<longleftrightarrow> name_match (=) (rm_Protocol r) (pk_proto p) \<and> (rm_Protocol r = ''tcp'' \<and> rm_Syn r \<longrightarrow> pk_syn p) \<and> args_match rest p" for rest
    by (cases "rm_Protocol r = []"; cases "rm_Protocol r = ''tcp'' \<and> rm_Syn r") (auto simp: crit_match_def name_match_def)
  show ?thesis
    by (simp add: add_args_def args_match_dev syn model_match_def crit_match_def port_match_def) blast
qed

lemma insert_args_match:
  "args_match (tl (tl (insert_args r a))) p \<longleftrightarrow> model_match r p \<and>
     name_match addr_match (rm_Source r) (pk_src p) \<and> name_match addr_match (rm_Destination r) (pk_dst p)"
  by (simp add: insert_args_def args_match_dev model_match_def crit_match_def port_match_def name_match_def) blast

lemma add_args_shape: "add_args r a = ''-j'' # a # tl (tl (add_args r a))"
  and insert_args_shape: "insert_args r a = ''-j'' # a # tl (tl (insert_args r a))"
  by (simp_all add: add_args_def insert_args_def)

lemma eval_add:
  "eval_chain jump (add_args r a # rs) p =
     (if model_match r p \<and> (rm_Protocol r = ''tcp'' \<and> rm_Syn r \<longrightarrow> pk_syn p) then
        if a = ''ACCEPT'' then Accepted else if a = ''DROP'' then Dropped else if a = ''RETURN'' then Undecided
        else if a = ''NFLOG'' then eval_chain jump rs p
        else (case jump a p of Undecided \<Rightarrow> eval_chain jump rs p | v \<Rightarrow> v)
      else eval_chain jump rs p)"
  by (subst add_args_shape) (simp add: add_args_match)

section \<open>The chains after the predefined build\<close>

lemma on_kernel_eq: "on_kernel f w = (r, w') \<longleftrightarrow> (\<exists>k. f (pw_kernel w) = (r, k) \<and> w' = w\<lparr>pw_kernel := k\<rparr>)"
  by (auto simp: on_kernel_def split: prod.splits)

lemma reading_eq: "reading env f w = (r, w') \<longleftrightarrow> f (pe_io env (pw_tick w)) = r \<and> w' = w\<lparr>pw_tick := Suc (pw_tick w)\<rparr>"
  by (auto simp: reading_def)

lemma on_npm_kernel: "on_npm env f w = (r, w') \<Longrightarrow> pw_kernel w' = pw_kernel w"
  by (auto simp: on_npm_def split: prod.splits)

context iptables_tool
begin

lemma createChain_ok:
  "createChain run cs k = (Inr u, k') \<Longrightarrow> rules k' = (\<lambda>c. if c \<in> set cs then Some [] else rules k c)"
proof (induction cs arbitrary: k)
  case (Cons c cs)
  then obtain v k1 where k1: "CreateChain run c k = (Inr v, k1)" "createChain run cs k1 = (Inr u, k')"
    by (auto simp: and_then_Inr)
  show ?case using Cons.IH [OF k1(2)] CreateChain_ok [OF k1(1)] by (auto simp: fun_eq_iff)
qed auto

lemma add_rules_behaves:
  assumes "add_rules run c rs k = (Inr u, k')" and "rules k c = Some []"
  shows "behaves_as (rules k') c rs \<and> (\<forall>d. d \<noteq> c \<longrightarrow> rules k' d = rules k d)"
  using add_rules_ok [OF assms] by (auto simp: behaves_as_def)

lemma behaves_as_frame: "behaves_as tb c rs \<Longrightarrow> tb' c = tb c \<Longrightarrow> behaves_as tb' c rs"
  by (simp add: behaves_as_def)

text \<open>A successful build: what was read, and how the chains then behave.\<close>

lemma BuildPredefinedPolicy_ok:
  assumes "BuildPredefinedPolicy env run w = (Inr u, w')"
  shows "\<exists>nl n1 n2 logEw logNs host enforce.
     ipam_GetNetworkList (pe_host env) (pe_io env n1) (pe_ipam env) = Inr nl \<and>
     ipam_GetDefaultInterface (pe_host env) (pe_io env n2) (pe_ipam env) = Inr host \<and>
     enforce = npm_IsNsEnforce (pe_io env (Suc (pw_tick w))) (pw_npm w) \<and> pw_npm w' = pw_npm w \<and>
     behaves_as (rules (pw_kernel w')) ''RAIND-ROOT'' (root_rules enforce) \<and>
     behaves_as (rules (pw_kernel w')) ''RAIND-EW'' (ew_rules (map nl_Interface nl) logEw) \<and>
     (if enforce then behaves_as (rules (pw_kernel w')) ''RAIND-NS-ENF'' (enf_rules host (map nl_Interface nl) logNs) \<and>
           rules (pw_kernel w') ''RAIND-NS-OBS'' = Some []
      else behaves_as (rules (pw_kernel w')) ''RAIND-NS-OBS'' (obs_rules host (map nl_Interface nl) logNs) \<and>
           rules (pw_kernel w') ''RAIND-NS-ENF'' = Some [])"
proof -
  define enforce where "enforce = npm_IsNsEnforce (pe_io env (Suc (pw_tick w))) (pw_npm w)"
  define logEw where "logEw = npm_GetEWLogging (pe_io env (Suc (Suc (pw_tick w)))) (pw_npm w)"
  define logNs where "logNs = npm_GetNSLogging (pe_io env (Suc (Suc (Suc (pw_tick w))))) (pw_npm w)"
  obtain nl where nl: "ipam_GetNetworkList (pe_host env) (pe_io env (pw_tick w)) (pe_ipam env) = Inr nl"
    using assms by (auto simp: BuildPredefinedPolicy_def and_then_Inr reading_eq)
  define nets where "nets = map nl_Interface nl"
  define w4 where "w4 = w\<lparr>pw_tick := Suc (Suc (Suc (Suc (pw_tick w))))\<rparr>"
  have *: "and_then (on_kernel (createChain run raind_chains)) (\<lambda>_.
          and_then (on_kernel (insertForward run)) (\<lambda>_.
          and_then (on_kernel (buildRaindRootChain run enforce)) (\<lambda>_.
          and_then (on_kernel (buildRaindEWChain run nets logEw)) (\<lambda>_.
          if enforce then buildRaindNSEnforceChain env run nets logNs
          else buildRaindNSObserveChain env run nets logNs)))) w4 = (Inr u, w')"
    using assms nl
    by (simp add: BuildPredefinedPolicy_def and_then_def [of "reading env _"] reading_def enforce_def logEw_def logNs_def nets_def w4_def Let_def
        split del: if_split cong: if_cong)
  then obtain k1 k2 k3 k4 where k1: "createChain run raind_chains (pw_kernel w) = (Inr (), k1)" and
    k2: "InsertForwardRule run ''RAIND-ROOT'' k1 = (Inr (), k2)" and
    k3: "add_rules run ''RAIND-ROOT'' (root_rules enforce) k2 = (Inr (), k3)" and
    k4: "add_rules run ''RAIND-EW'' (ew_rules nets logEw) k3 = (Inr (), k4)" and
    l: "(if enforce then buildRaindNSEnforceChain env run nets logNs
          else buildRaindNSObserveChain env run nets logNs) (w4\<lparr>pw_kernel := k4\<rparr>) = (Inr u, w')"
    by (auto simp: and_then_Inr on_kernel_eq insertForward_def buildRaindRootChain_def buildRaindEWChain_def w4_def
        split del: if_split)
  then obtain n2 host k5 where host: "ipam_GetDefaultInterface (pe_host env) (pe_io env n2) (pe_ipam env) = Inr host" and
    k5: "(if enforce then add_rules run ''RAIND-NS-ENF'' (enf_rules host nets logNs) k4
          else add_rules run ''RAIND-NS-OBS'' (obs_rules host nets logNs) k4) = (Inr (), k5)" and
    w': "pw_kernel w' = k5" "pw_npm w' = pw_npm w"
    by (auto simp: buildRaindNSEnforceChain_def buildRaindNSObserveChain_def and_then_Inr reading_eq on_kernel_eq w4_def
        split: if_splits)
  have r2: "rules k2 c = Some []" if "c \<in> {''RAIND-ROOT'', ''RAIND-EW'', ''RAIND-NS-OBS'', ''RAIND-NS-ENF''}" for c
    using InsertForwardRule_ok [OF k2] createChain_ok [OF k1] that by (auto simp: raind_chains_def)
  have r3: "behaves_as (rules k3) ''RAIND-ROOT'' (root_rules enforce)" "\<And>d. d \<noteq> ''RAIND-ROOT'' \<Longrightarrow> rules k3 d = rules k2 d"
    using add_rules_behaves [OF k3] r2 by auto
  have r4: "behaves_as (rules k4) ''RAIND-EW'' (ew_rules nets logEw)" "\<And>d. d \<noteq> ''RAIND-EW'' \<Longrightarrow> rules k4 d = rules k3 d"
    using add_rules_behaves [OF k4] r2 r3(2) by auto
  have ns: "rules k4 ''RAIND-NS-ENF'' = Some []" "rules k4 ''RAIND-NS-OBS'' = Some []"
    using r2 r3(2) r4(2) by auto
  let ?ns = "if enforce then ''RAIND-NS-ENF'' else ''RAIND-NS-OBS''"
  let ?rs = "if enforce then enf_rules host nets logNs else obs_rules host nets logNs"
  have "add_rules run ?ns ?rs k4 = (Inr (), k5)" using k5 by (simp split: if_splits)
  from add_rules_behaves [OF this] ns have r5: "behaves_as (rules k5) ?ns ?rs" "\<And>d. d \<noteq> ?ns \<Longrightarrow> rules k5 d = rules k4 d" by auto
  have "behaves_as (rules k5) ''RAIND-ROOT'' (root_rules enforce)" "behaves_as (rules k5) ''RAIND-EW'' (ew_rules nets logEw)"
    using behaves_as_frame [OF r3(1), of "rules k5"] behaves_as_frame [OF r4(1), of "rules k5"] r4(2) r5(2) by auto
  moreover have "if enforce then behaves_as (rules k5) ''RAIND-NS-ENF'' (enf_rules host nets logNs) \<and> rules k5 ''RAIND-NS-OBS'' = Some []
     else behaves_as (rules k5) ''RAIND-NS-OBS'' (obs_rules host nets logNs) \<and> rules k5 ''RAIND-NS-ENF'' = Some []"
    using r5(1) r5(2) [of "''RAIND-NS-OBS''"] r5(2) [of "''RAIND-NS-ENF''"] ns by (cases enforce) simp_all
  ultimately show ?thesis
    using nl host w' enforce_def unfolding nets_def [symmetric]
    by - (rule exI [of _ nl], rule exI [of _ "pw_tick w"], rule exI [of _ n2], rule exI [of _ logEw], rule exI [of _ logNs],
      rule exI [of _ host], rule exI [of _ enforce], simp add: nets_def split: if_splits)
qed

end

section \<open>The rules the user policies add\<close>

text \<open>A container the text names, by name or by identifier, and the interface an identifier has in a pool.\<close>

definition container_named :: "policy_env \<Rightarrow> string \<Rightarrow> string \<Rightarrow> bool" where
  "container_named env s cid \<longleftrightarrow> (\<exists>st c. csm_loadOrInit (read_file io_ok (pe_csm env)) = Inr st \<and> c \<in> snd ` set (cs_Containers st) \<and>
     cn_ContainerId c = cid \<and> (cn_ContainerName c = s \<or> cid = s))"

definition has_allocation :: "policy_env \<Rightarrow> string \<Rightarrow> Pool \<Rightarrow> string \<Rightarrow> Allocation \<Rightarrow> bool" where
  "has_allocation env cid pool addr a \<longleftrightarrow> (\<exists>st. ipam_loadOrInit (pe_host env) (read_file io_ok (pe_ipam env)) = Inr st \<and>
     pool \<in> set (ip_Pools st) \<and> (addr, a) \<in> set (allocs pool) \<and> al_ContainerId a = cid)"

definition all_identified :: "policy_env \<Rightarrow> bool" where
  "all_identified env \<longleftrightarrow> (\<forall>pool addr a. \<not> has_allocation env [] pool addr a)"

lemma csm_load_io: "csm_loadOrInit (read_file io d) = Inr st \<Longrightarrow> csm_loadOrInit (read_file io_ok d) = Inr st"
  by (auto simp: csm_loadOrInit_def load_or_init_def read_file_def io_ok_def split: option.splits)

lemma ipam_load_io: "ipam_loadOrInit h (read_file io d) = Inr st \<Longrightarrow> ipam_loadOrInit h (read_file io_ok d) = Inr st"
  by (auto simp: ipam_loadOrInit_def read_file_def io_ok_def split: option.splits sum.splits)

lemma withRLock_Inr: "withRLock load io fn d = Inr a \<Longrightarrow> \<exists>st. load (read_file io d) = Inr st \<and> fn st = Inr a"
  by (auto simp: withRLock_def split: option.splits sum.splits)

lemma scan_Inr: "scan t f what st = Inr x \<Longrightarrow> \<exists>c \<in> snd ` set (cs_Containers st). t c \<and> x = f c"
  by (force simp: scan_def dest!: range_find_Some split: option.splits)

lemma find_alloc_Some:
  "find_alloc t ps = Some (p, addr, a) \<Longrightarrow> p \<in> set ps \<and> (addr, a) \<in> set (allocs p) \<and> t addr a"
  by (induction t ps rule: find_alloc.induct) (auto dest: range_find_Some split: option.splits)

lemma resolve_eq:
  assumes "resolveContainerNameAndInfo env s w = ((cid, n), w')"
  shows "(cid = [] \<or> container_named env s cid) \<and> (\<exists>t. w' = w\<lparr>pw_tick := t\<rparr>)"
proof -
  have query: "\<exists>st c. csm_loadOrInit (read_file io_ok (pe_csm env)) = Inr st \<and> c \<in> snd ` set (cs_Containers st) \<and> t c \<and> x = f c"
    if "csm_withRLock io (scan t f s) (pe_csm env) = Inr x" for io t x and f :: "ContainerInfo \<Rightarrow> string"
    using withRLock_Inr [OF that [unfolded csm_withRLock_def]] csm_load_io scan_Inr by metis
  have named: "container_named env s i" if "csm_GetContainerIdByName io s (pe_csm env) = Inr i" for io i
    using query [OF that [unfolded csm_GetContainerIdByName_def]] unfolding container_named_def by blast
  have ident: "container_named env s s" if "csm_GetContainerNameById io s (pe_csm env) = Inr m" for io m
    using query [OF that [unfolded csm_GetContainerNameById_def]] unfolding container_named_def by blast
  show ?thesis using assms named ident
    by (auto simp: resolveContainerNameAndInfo_def reading_def split: sum.splits)
qed

lemma veth_allocated:
  assumes "ipam_GetVethById (pe_host env) io cid (pe_ipam env) = Inr veth"
  shows "\<exists>pool addr a. has_allocation env cid pool addr a \<and> al_Interface a = veth"
proof -
  obtain st where st: "ipam_loadOrInit (pe_host env) (read_file io (pe_ipam env)) = Inr st"
    "(case find_alloc (\<lambda>_ a. al_ContainerId a = cid) (ip_Pools st) of Some (_, _, a) \<Rightarrow> Inr (al_Interface a)
      | None \<Rightarrow> Inl (Msg (''contianer: '' @ cid @ '' not found''))) = Inr veth"
    using withRLock_Inr [OF assms [unfolded ipam_GetVethById_def ipam_withRLock_def]] by blast
  then obtain p addr a where "find_alloc (\<lambda>_ a. al_ContainerId a = cid) (ip_Pools st) = Some (p, addr, a)" "al_Interface a = veth"
    by (auto split: option.splits)
  with find_alloc_Some [OF this(1)] ipam_load_io [OF st(1)] show ?thesis unfolding has_allocation_def by blast
qed

text \<open>The container's interface, as the policies see it.\<close>

definition endpoint :: "policy_env \<Rightarrow> string \<Rightarrow> string \<Rightarrow> bool" where
  "endpoint env s veth \<longleftrightarrow> (\<exists>cid pool addr a. container_named env s cid \<and> has_allocation env cid pool addr a \<and> al_Interface a = veth)"

lemma endpointI:
  assumes "resolveContainerNameAndInfo env s w = ((cid, n), w')" and "all_identified env"
    and "ipam_GetVethById (pe_host env) io cid (pe_ipam env) = Inr veth"
  shows "endpoint env s veth"
  using resolve_eq [OF assms(1)] veth_allocated [OF assms(3)] assms(2)
  by (auto simp: endpoint_def all_identified_def)

definition ew_user_rule :: "policy_env \<Rightarrow> Policy \<Rightarrow> string list \<Rightarrow> bool" where
  "ew_user_rule env pol u \<longleftrightarrow> pl_Status pol \<noteq> ''remove_next_commit'' \<and> (\<exists>sv dv.
     endpoint env (ho_ContainerName (pl_Source pol)) sv \<and> endpoint env (ho_ContainerName (pl_Destination pol)) dv \<and>
     (u = insert_args (ew_rule sv dv pol) ''ACCEPT'' \<or> (\<exists>l. u = insert_args (new_logged 10 l (ew_rule sv dv pol)) ''NFLOG'')))"

context iptables_tool
begin

text \<open>A kernel call that at most puts rules satisfying \<open>P\<close> in front of one chain.\<close>

definition puts_front :: "string \<Rightarrow> (string list \<Rightarrow> bool) \<Rightarrow> 'k \<Rightarrow> 'k \<Rightarrow> bool" where
  "puts_front c P k k' \<longleftrightarrow> (\<forall>rs. rules k c = Some rs \<longrightarrow>
     (\<exists>us. rules k' = (rules k)(c \<mapsto> us @ rs) \<and> (\<forall>u \<in> set us. P u)))"

lemma puts_front_refl [intro]: "rules k' = rules k \<Longrightarrow> puts_front c P k k'"
  by (force simp: puts_front_def intro: exI [of _ "[]"])

lemma puts_front_trans:
  assumes "puts_front c P k k1" and "puts_front c P k1 k2"
  shows "puts_front c P k k2"
  unfolding puts_front_def
proof (intro allI impI)
  fix rs assume rs: "rules k c = Some rs"
  obtain us where us: "rules k1 = (rules k)(c \<mapsto> us @ rs)" "\<forall>u \<in> set us. P u" using assms(1) rs by (auto simp: puts_front_def)
  then have "rules k1 c = Some (us @ rs)" by simp
  then obtain vs where "rules k2 = (rules k1)(c \<mapsto> vs @ us @ rs)" "\<forall>u \<in> set vs. P u"
    using assms(2) unfolding puts_front_def by blast
  then show "\<exists>us. rules k2 = (rules k)(c \<mapsto> us @ rs) \<and> (\<forall>u \<in> set us. P u)"
    using us by (intro exI [of _ "vs @ us"]) auto
qed

lemma puts_front_insert:
  assumes "InsertRuleToChain run c r a k = (v, k')" and "P (insert_args r a)"
  shows "puts_front c P k k'"
  using InsertRuleToChain_any(1) [OF assms(1)]
proof
  assume "\<exists>rs. rules k c = Some rs \<and> rules k' = (rules k)(c \<mapsto> insert_args r a # rs)"
  then show ?thesis using assms(2) by (auto simp: puts_front_def intro: exI [of _ "[insert_args r a]"])
qed (rule puts_front_refl)

lemma puts_front_mono: "puts_front c P k k' \<Longrightarrow> (\<And>u. P u \<Longrightarrow> Q u) \<Longrightarrow> puts_front c Q k k'"
  by (fastforce simp: puts_front_def)

text \<open>The tail both loops share: the rule, its log rule, the status.\<close>

lemma apply_tail:
  assumes "skip_err (on_kernel (InsertRuleToChain run c r a) w4) (\<lambda>w5.
      skip_err (if logging then on_kernel (InsertRuleToChain run c (new_logged g l r) ''NFLOG'') w5 else (Inr (), w5)) (\<lambda>w6.
      skip_err (on_npm env (f c) w6) (\<lambda>w7. (Inr (), w7)))) = (v, w')"
    and "P (insert_args r a)" and "P (insert_args (new_logged g l r) ''NFLOG'')"
  shows "puts_front c P (pw_kernel w4) (pw_kernel w')"
proof -
  obtain v1 w5 where w5: "on_kernel (InsertRuleToChain run c r a) w4 = (v1, w5)" by force
  have p5: "puts_front c P (pw_kernel w4) (pw_kernel w5)"
    using w5 puts_front_insert [where P = P] assms(2) by (auto simp: on_kernel_eq)
  obtain v2 w6 where w6: "(if logging then on_kernel (InsertRuleToChain run c (new_logged g l r) ''NFLOG'') w5 else (Inr (), w5)) = (v2, w6)" by force
  have p6: "puts_front c P (pw_kernel w5) (pw_kernel w6)"
    using w6 puts_front_insert [where P = P] assms(3) by (auto simp: on_kernel_eq split: if_splits)
  obtain v3 w7 where w7: "on_npm env (f c) w6 = (v3, w7)" by force
  have "pw_kernel w' = pw_kernel w5 \<or> pw_kernel w' = pw_kernel w6"
    using assms(1) w5 w6 w7 on_npm_kernel [OF w7] by (auto simp: skip_err_def split: sum.splits)
  then show ?thesis using p5 puts_front_trans [OF p5 p6] by (elim disjE) simp_all
qed

lemma apply_ew_rules:
  assumes "apply_ew env run logging p w = (v, w')" and "all_identified env"
  shows "puts_front ''RAIND-EW'' (ew_user_rule env p) (pw_kernel w) (pw_kernel w')"
proof (cases "pl_Status p = ''remove_next_commit''")
  case True
  then show ?thesis using assms(1) on_npm_kernel by (fastforce simp: apply_ew_def)
next
  case False
  obtain si sn w1 where s: "resolveContainerNameAndInfo env (ho_ContainerName (pl_Source p)) w = ((si, sn), w1)" by (metis prod.collapse)
  obtain di dn w2 where d: "resolveContainerNameAndInfo env (ho_ContainerName (pl_Destination p)) w1 = ((di, dn), w2)" by (metis prod.collapse)
  have k2: "pw_kernel w2 = pw_kernel w" using resolve_eq [OF s] resolve_eq [OF d] by auto
  obtain sv where sv: "ipam_GetVethById (pe_host env) (pe_io env (pw_tick w2)) si (pe_ipam env) = sv" by simp
  obtain dv where dv: "ipam_GetVethById (pe_host env) (pe_io env (Suc (pw_tick w2))) di (pe_ipam env) = dv" by simp
  show ?thesis
  proof (cases "(\<exists>e. sv = Inl e) \<or> (\<exists>e. dv = Inl e)")
    case True
    then show ?thesis
      using assms(1) False s d sv dv k2
      by (auto simp: apply_ew_def reading_def dest!: on_npm_kernel split: sum.splits)
  next
    case ok: False
    then obtain sv' dv' where v: "sv = Inr sv'" "dv = Inr dv'" by (metis sum.exhaust)
    let ?P = "ew_user_rule env p" and ?r = "ew_rule sv' dv' p"
    have "endpoint env (ho_ContainerName (pl_Source p)) sv'" "endpoint env (ho_ContainerName (pl_Destination p)) dv'"
      using endpointI [OF s assms(2)] endpointI [OF d assms(2)] sv dv v by auto
    then have P: "?P (insert_args ?r ''ACCEPT'')" "?P (insert_args (new_logged 10 (''RAIND-EW-ALLOW,id='' @ pl_Id p) ?r) ''NFLOG'')"
      using False by (auto simp: ew_user_rule_def)
    let ?w4 = "w2\<lparr>pw_tick := Suc (Suc (pw_tick w2))\<rparr>"
    have "puts_front ''RAIND-EW'' ?P (pw_kernel ?w4) (pw_kernel w')"
      by (rule apply_tail [where g = 10 and l = "''RAIND-EW-ALLOW,id='' @ pl_Id p" and r = ?r and a = "''ACCEPT''" and v = v and env = env and
            f = "\<lambda>c io. npm_UpdateStatus io c (pl_Id p) ''applied'' []" and logging = logging])
        (use assms(1) False s d sv dv v P in \<open>simp_all add: apply_ew_def reading_def\<close>)
    then show ?thesis using k2 by simp
  qed
qed

end

section \<open>The document during a commit\<close>

definition doc_policies :: "string \<Rightarrow> npm_files \<Rightarrow> Policy list" where
  "doc_policies chain f = (case npm_loadOrInit (read_file io_ok (nf_disk f)) of
     Inl _ \<Rightarrow> [] | Inr np \<Rightarrow> chain_policies chain (np_Policies np))"

lemma npm_load_io: "npm_loadOrInit (read_file io d) = Inr np \<Longrightarrow> npm_loadOrInit (read_file io_ok d) = Inr np"
  by (auto simp: npm_loadOrInit_def load_or_init_def read_file_def io_ok_def split: option.splits)

lemma npm_read_policies:
  "set (npm_read io [] (\<lambda>np. chain_policies c (np_Policies np)) f) \<subseteq> set (doc_policies c f)"
proof (cases "npm_withRLock io (\<lambda>np. Inr (chain_policies c (np_Policies np))) f")
  case (Inr ps)
  then obtain np where "npm_loadOrInit (read_file io (nf_disk f)) = Inr np" "ps = chain_policies c (np_Policies np)"
    using withRLock_Inr unfolding npm_withRLock_def by fastforce
  then show ?thesis using npm_load_io Inr by (fastforce simp: npm_read_def doc_policies_def)
qed (simp add: npm_read_def)

lemma doc_policies_read:
  "set (npm_GetEWPolicyList io f) \<subseteq> set (doc_policies ''RAIND-EW'' f)"
  "set (npm_GetNSObsPolicyList io f) \<subseteq> set (doc_policies ''RAIND-NS-OBS'' f)"
  "set (npm_GetNSEnfPolicyList io f) \<subseteq> set (doc_policies ''RAIND-NS-ENF'' f)"
  using npm_read_policies [of io "''RAIND-EW''" f] npm_read_policies [of io "''RAIND-NS-OBS''" f]
    npm_read_policies [of io "''RAIND-NS-ENF''" f]
  by (simp_all add: npm_GetEWPolicyList_def npm_GetNSObsPolicyList_def npm_GetNSEnfPolicyList_def chain_policies_def)

lemma doc_policies_main: "main_file (nf_disk f') = main_file (nf_disk f) \<Longrightarrow> doc_policies c f' = doc_policies c f"
  by (simp add: doc_policies_def read_file_io_ok)

text \<open>A change of the document that keeps, or only thins out, the policies of a chain.\<close>

lemma npm_withLock_policies:
  assumes "npm_withLock io fn f = (r, f')"
    and "\<And>np np' a. fn np = Inr (np', a) \<Longrightarrow> set (chain_policies c (np_Policies np')) \<subseteq> set (chain_policies c (np_Policies np))"
  shows "set (doc_policies c f') \<subseteq> set (doc_policies c f)"
proof -
  obtain d' where d': "withLock npm_loadOrInit (atomicSave (\<lambda>np. np)) io fn (nf_disk f) = (r, d')" "f' = f\<lparr>nf_disk := d'\<rparr>"
    using assms(1) by (auto simp: npm_withLock_def npm_atomicSave_def split: prod.splits)
  show ?thesis
  proof (cases r)
    case (Inl e)
    have "main_file d' = main_file (nf_disk f)"
      using withLock_all_or_nothing [where load = npm_loadOrInit and marshal = "\<lambda>np. np" and io = io and fn = fn and d = "nf_disk f"] d' Inl by simp
    then show ?thesis using doc_policies_main [of f' f c] d' by simp
  next
    case (Inr a)
    obtain np np' where "npm_loadOrInit (read_file io (nf_disk f)) = Inr np" "fn np = Inr (np', a)" "main_file d' = Some (Decoded np')"
      using withLock_Inr [OF d'(1) [unfolded Inr]] by blast
    then show ?thesis using assms(2) d'(2) npm_load_io
      by (simp add: doc_policies_def read_file_io_ok npm_loadOrInit_def load_or_init_def)
  qed
qed

lemma remove_first_subset: "set (remove_first P xs) \<subseteq> set xs"
  by (induction xs) auto

lemma RemovePolicy_policies: "npm_RemovePolicy io i f = (r, f') \<Longrightarrow> set (doc_policies c f') \<subseteq> set (doc_policies c f)"
  unfolding npm_RemovePolicy_def
  by (erule npm_withLock_policies)
    (use remove_first_subset in \<open>fastforce simp: removePolicy_chain_def chain_policies_def Let_def split: if_splits\<close>)

lemma UpdateStatus_policies:
  "npm_UpdateStatus io d i s m f = (r, f') \<Longrightarrow> c \<noteq> d \<Longrightarrow> set (doc_policies c f') \<subseteq> set (doc_policies c f)"
  unfolding npm_UpdateStatus_def
  by (erule npm_withLock_policies)
    (auto simp: on_chain_def chain_policies_def split: if_splits)

lemma ChangeNSMode_policies: "npm_ChangeNSMode io m f = (r, f') \<Longrightarrow> set (doc_policies c f') \<subseteq> set (doc_policies c f)"
  unfolding npm_ChangeNSMode_def by (erule npm_withLock_policies) auto

lemma on_npm_eq: "on_npm env f w = (r, w') \<Longrightarrow> f (pe_io env (pw_tick w)) (pw_npm w) = (r, pw_npm w') \<and> pw_kernel w' = pw_kernel w"
  by (auto simp: on_npm_def split: prod.splits)

lemma FixNSMode_eq:
  assumes "FixNSMode env w = (r, w')"
  shows "pw_kernel w' = pw_kernel w \<and> set (doc_policies c (pw_npm w')) \<subseteq> set (doc_policies c (pw_npm w))"
  using assms
  by (auto simp: FixNSMode_def reading_def split: if_splits dest!: on_npm_eq dest: ChangeNSMode_policies [THEN subsetD])

text \<open>Kernel calls leave the document alone.\<close>

lemma on_kernel_npm [simp]: "pw_npm (snd (on_kernel f w)) = pw_npm w"
  by (simp add: on_kernel_def split: prod.split)

definition thins :: "string \<Rightarrow> 'k policy_world \<Rightarrow> 'k policy_world \<Rightarrow> bool" where
  "thins c w w' \<longleftrightarrow> set (doc_policies c (pw_npm w')) \<subseteq> set (doc_policies c (pw_npm w))"

lemma thins_trans: "thins c w w1 \<Longrightarrow> thins c w1 w2 \<Longrightarrow> thins c w w2"
  by (auto simp: thins_def)

lemma thins_npm: "pw_npm w' = pw_npm w \<Longrightarrow> thins c w w'"
  by (simp add: thins_def)

lemma thins_tail:
  assumes "skip_err (on_kernel f w4) (\<lambda>w5. skip_err (if logging then on_kernel g w5 else (Inr (), w5)) (\<lambda>w6.
      skip_err (on_npm env (\<lambda>io. npm_UpdateStatus io d i s m) w6) (\<lambda>w7. (Inr (), w7)))) = (v, w')" and "c \<noteq> d"
  shows "thins c w4 w'"
proof -
  obtain v1 w5 where w5: "on_kernel f w4 = (v1, w5)" by force
  obtain v2 w6 where w6: "(if logging then on_kernel g w5 else (Inr (), w5)) = (v2, w6)" by force
  obtain v3 w7 where w7: "on_npm env (\<lambda>io. npm_UpdateStatus io d i s m) w6 = (v3, w7)" by force
  have n: "pw_npm w5 = pw_npm w4" "pw_npm w6 = pw_npm w4" using w5 w6 by (auto simp: on_kernel_eq split: if_splits)
  have "thins c w6 w7" using UpdateStatus_policies [OF conjunct1 [OF on_npm_eq [OF w7]] assms(2)] by (simp add: thins_def)
  moreover have "w' = w5 \<or> w' = w6 \<or> w' = w7"
    using assms(1) w5 w6 w7 by (auto simp: skip_err_def split: sum.splits)
  ultimately show ?thesis using n thins_npm thins_trans by metis
qed

lemma resolve_npm: "resolveContainerNameAndInfo env s w = (x, w') \<Longrightarrow> pw_npm w' = pw_npm w \<and> pw_kernel w' = pw_kernel w"
  using resolve_eq [of env s w "fst x" "snd x" w'] by auto

lemma on_npm_thins:
  "on_npm env (\<lambda>io. npm_UpdateStatus io d i s m) w = (r, w') \<Longrightarrow> c \<noteq> d \<Longrightarrow> thins c w w'"
  "on_npm env (\<lambda>io. npm_RemovePolicy io i) w = (r, w') \<Longrightarrow> thins c w w'"
  by (auto simp: thins_def dest!: on_npm_eq dest: UpdateStatus_policies [THEN subsetD] RemovePolicy_policies [THEN subsetD])

lemma apply_ew_thins:
  assumes "apply_ew env run logging p w = (v, w')" and "c \<noteq> ''RAIND-EW''"
  shows "thins c w w'"
proof (cases "pl_Status p = ''remove_next_commit''")
  case True
  then show ?thesis using assms(1) on_npm_thins(2) by (auto simp: apply_ew_def)
next
  case False
  obtain si sn w1 where s: "resolveContainerNameAndInfo env (ho_ContainerName (pl_Source p)) w = ((si, sn), w1)" by (metis prod.collapse)
  obtain di dn w2 where d: "resolveContainerNameAndInfo env (ho_ContainerName (pl_Destination p)) w1 = ((di, dn), w2)" by (metis prod.collapse)
  have n: "pw_npm w2 = pw_npm w" using resolve_npm [OF s] resolve_npm [OF d] by simp
  have th: "thins c w w3" if "thins c (w2\<lparr>pw_tick := t\<rparr>) w3" for t w3 using that n by (simp add: thins_def)
  show ?thesis
    using assms(1) False s d
    by (auto simp: apply_ew_def reading_def split: sum.splits
        intro: th thins_tail [OF _ assms(2)] on_npm_thins(1) [OF _ assms(2)])
qed

lemma ew_loop_thins:
  "insertRaindEWUserPolicy env run ps logging w = (v, w') \<Longrightarrow> c \<noteq> ''RAIND-EW'' \<Longrightarrow> thins c w w'"
proof (induction ps arbitrary: w)
  case (Cons p ps)
  obtain r w1 where 1: "apply_ew env run logging p w = (r, w1)" by force
  then show ?case
    using Cons apply_ew_thins [OF 1 Cons.prems(2)] by (cases r) (auto simp: and_then_def intro: thins_trans)
qed (simp add: thins_def)

lemma apply_ns_thins:
  assumes "apply_ns env run chain logging p w = (v, w')" and "c \<noteq> chain"
  shows "thins c w w'"
proof (cases "pl_Status p = ''remove_next_commit''")
  case True
  then show ?thesis using assms(1) on_npm_thins(2) by (auto simp: apply_ns_def)
next
  case False
  obtain si sn w1 where s: "resolveContainerNameAndInfo env (ho_ContainerName (pl_Source p)) w = ((si, sn), w1)" by (metis prod.collapse)
  have n: "pw_npm w1 = pw_npm w" using resolve_npm [OF s] by simp
  have th: "thins c w w3" if "thins c (w1\<lparr>pw_tick := t\<rparr>) w3" for t w3 using that n by (simp add: thins_def)
  show ?thesis
    using assms(1) False s
    by (auto simp: apply_ns_def reading_def Let_def split: sum.splits prod.splits
        intro: th thins_tail [OF _ assms(2)] on_npm_thins(1) [OF _ assms(2)])
qed

lemma ns_loop_thins:
  "insertRaindNSUserPolicy env run chain ps logging w = (v, w') \<Longrightarrow> c \<noteq> chain \<Longrightarrow> thins c w w'"
proof (induction ps arbitrary: w)
  case (Cons p ps)
  obtain r w1 where 1: "apply_ns env run chain logging p w = (r, w1)" by force
  then show ?case
    using Cons apply_ns_thins [OF 1 Cons.prems(2)] by (cases r) (auto simp: and_then_def intro: thins_trans)
qed (simp add: thins_def)

section \<open>All chains after the user policies\<close>

text \<open>A north-south rule: bridge and address of a container the policy names.\<close>

definition ns_user_rule :: "policy_env \<Rightarrow> string \<Rightarrow> Policy \<Rightarrow> string list \<Rightarrow> bool" where
  "ns_user_rule env chain pol u \<longleftrightarrow> pl_Status pol \<noteq> ''remove_next_commit'' \<and> (\<exists>cid pool addr a dev.
     container_named env (ho_ContainerName (pl_Source pol)) cid \<and> has_allocation env cid pool addr a \<and>
     (u = insert_args (ns_rule (po_Interface pool) addr dev pol) (ns_action chain) \<or>
      (\<exists>g l. u = insert_args (new_logged g l (ns_rule (po_Interface pool) addr dev pol)) ''NFLOG'')))"

lemma GetContainerAddress_ok:
  assumes "ipam_GetVethById (pe_host env) io_ok cid (pe_ipam env) = Inr veth"
  shows "\<exists>h pool addr a. ipam_GetContainerAddress (pe_host env) io_ok cid (pe_ipam env) = Inr (h, po_Interface pool, addr) \<and>
     has_allocation env cid pool addr a"
proof -
  obtain st where st: "ipam_loadOrInit (pe_host env) (read_file io_ok (pe_ipam env)) = Inr st"
    "(case find_alloc (\<lambda>_ a. al_ContainerId a = cid) (ip_Pools st) of Some (_, _, a) \<Rightarrow> Inr (al_Interface a)
      | None \<Rightarrow> Inl (Msg (''contianer: '' @ cid @ '' not found''))) = Inr veth"
    using withRLock_Inr [OF assms [unfolded ipam_GetVethById_def ipam_withRLock_def]] by blast
  then obtain p addr a where f: "find_alloc (\<lambda>_ a. al_ContainerId a = cid) (ip_Pools st) = Some (p, addr, a)"
    by (auto split: option.splits)
  then have "ipam_GetContainerAddress (pe_host env) io_ok cid (pe_ipam env) = Inr (ip_HostInterface st, po_Interface p, addr)"
    using st(1) by (simp add: ipam_GetContainerAddress_def ipam_withRLock_def withRLock_io_ok)
  then show ?thesis using find_alloc_Some [OF f] st(1) unfolding has_allocation_def by blast
qed

context iptables_tool
begin

lemma apply_ns_rules:
  assumes "apply_ns env run chain logging p w = (v, w')" and "all_identified env" and "\<forall>n. pe_io env n = io_ok"
  shows "puts_front chain (ns_user_rule env chain p) (pw_kernel w) (pw_kernel w')"
proof (cases "pl_Status p = ''remove_next_commit''")
  case True
  then show ?thesis using assms(1) on_npm_kernel by (fastforce simp: apply_ns_def)
next
  case False
  obtain si sn w1 where s: "resolveContainerNameAndInfo env (ho_ContainerName (pl_Source p)) w = ((si, sn), w1)" by (metis prod.collapse)
  have k1: "pw_kernel w1 = pw_kernel w" using resolve_npm [OF s] by simp
  show ?thesis
  proof (cases "ipam_GetVethById (pe_host env) io_ok si (pe_ipam env)")
    case (Inl e)
    then show ?thesis using assms(1,3) False s k1
      by (auto simp: apply_ns_def reading_def dest!: on_npm_kernel)
  next
    case (Inr veth)
    obtain h pool addr a where ad: "ipam_GetContainerAddress (pe_host env) io_ok si (pe_ipam env) = Inr (h, po_Interface pool, addr)"
      "has_allocation env si pool addr a" using GetContainerAddress_ok [OF Inr] by blast
    have named: "container_named env (ho_ContainerName (pl_Source p)) si"
      using resolve_eq [OF s] ad(2) assms(2) by (auto simp: all_identified_def)
    let ?dev = "or_zero [] (ipam_GetDefaultInterface (pe_host env) io_ok (pe_ipam env))"
    let ?r = "ns_rule (po_Interface pool) addr ?dev p" and ?P = "ns_user_rule env chain p"
    let ?w4 = "w1\<lparr>pw_tick := Suc (Suc (Suc (pw_tick w1)))\<rparr>"
    have P: "?P (insert_args ?r (ns_action chain))" "\<And>g l. ?P (insert_args (new_logged g l ?r) ''NFLOG'')"
      using False named ad(2) unfolding ns_user_rule_def by blast+
    have "puts_front chain ?P (pw_kernel ?w4) (pw_kernel w')"
      by (rule apply_tail [where g = "fst (ns_log chain (pl_Id p))" and l = "snd (ns_log chain (pl_Id p))" and r = ?r and
            a = "ns_action chain" and v = v and env = env and f = "\<lambda>c io. npm_UpdateStatus io c (pl_Id p) ''applied'' []" and logging = logging])
        (use assms(1,3) False s Inr ad P in \<open>simp_all add: apply_ns_def reading_def or_zero_def [of "([], [], [])"] Let_def cong: if_cong\<close>)
    then show ?thesis using k1 by simp
  qed
qed

lemma ew_loop_rules:
  "insertRaindEWUserPolicy env run ps logging w = (v, w') \<Longrightarrow> all_identified env \<Longrightarrow>
     puts_front ''RAIND-EW'' (\<lambda>u. \<exists>p \<in> set ps. ew_user_rule env p u) (pw_kernel w) (pw_kernel w')"
proof (induction ps arbitrary: w)
  case (Cons p ps)
  let ?P = "\<lambda>u. \<exists>p \<in> set (p # ps). ew_user_rule env p u"
  obtain r w1 where 1: "apply_ew env run logging p w = (r, w1)" by force
  have "puts_front ''RAIND-EW'' ?P (pw_kernel w) (pw_kernel w1)"
    by (rule puts_front_mono [OF apply_ew_rules [OF 1 Cons.prems(2)]]) simp
  moreover have "puts_front ''RAIND-EW'' ?P (pw_kernel w1) (pw_kernel w')"
  proof (cases r)
    case (Inl e)
    then show ?thesis using Cons.prems(1) 1 by (auto simp: and_then_def)
  next
    case (Inr x)
    then have "insertRaindEWUserPolicy env run ps logging w1 = (v, w')" using Cons.prems(1) 1 by (simp add: and_then_def)
    from puts_front_mono [OF Cons.IH [OF this Cons.prems(2)], of ?P] show ?thesis by auto
  qed
  ultimately show ?case by (rule puts_front_trans)
qed auto

lemma ns_loop_rules:
  "insertRaindNSUserPolicy env run chain ps logging w = (v, w') \<Longrightarrow> all_identified env \<Longrightarrow> \<forall>n. pe_io env n = io_ok \<Longrightarrow>
     puts_front chain (\<lambda>u. \<exists>p \<in> set ps. ns_user_rule env chain p u) (pw_kernel w) (pw_kernel w')"
proof (induction ps arbitrary: w)
  case (Cons p ps)
  let ?P = "\<lambda>u. \<exists>p \<in> set (p # ps). ns_user_rule env chain p u"
  obtain r w1 where 1: "apply_ns env run chain logging p w = (r, w1)" by force
  have "puts_front chain ?P (pw_kernel w) (pw_kernel w1)"
    by (rule puts_front_mono [OF apply_ns_rules [OF 1 Cons.prems(2,3)]]) simp
  moreover have "puts_front chain ?P (pw_kernel w1) (pw_kernel w')"
  proof (cases r)
    case (Inl e)
    then show ?thesis using Cons.prems(1) 1 by (auto simp: and_then_def)
  next
    case (Inr x)
    then have "insertRaindNSUserPolicy env run chain ps logging w1 = (v, w')" using Cons.prems(1) 1 by (simp add: and_then_def)
    from puts_front_mono [OF Cons.IH [OF this Cons.prems(2,3)], of ?P] show ?thesis by auto
  qed
  ultimately show ?case by (rule puts_front_trans)
qed auto

text \<open>Whatever fails on the way, the north-south insertions touch their own chain only.\<close>

lemma apply_ns_frame:
  assumes "apply_ns env run chain logging p w = (v, w')"
  shows "puts_front chain (\<lambda>_. True) (pw_kernel w) (pw_kernel w')"
proof (cases "pl_Status p = ''remove_next_commit''")
  case True
  then show ?thesis using assms on_npm_kernel by (fastforce simp: apply_ns_def)
next
  case False
  obtain si sn w1 where s: "resolveContainerNameAndInfo env (ho_ContainerName (pl_Source p)) w = ((si, sn), w1)" by (metis prod.collapse)
  have k1: "pw_kernel w1 = pw_kernel w" using resolve_npm [OF s] by simp
  show ?thesis
  proof (cases "ipam_GetVethById (pe_host env) (pe_io env (pw_tick w1)) si (pe_ipam env)")
    case (Inl e)
    then show ?thesis using assms False s k1 by (auto simp: apply_ns_def reading_def dest!: on_npm_kernel)
  next
    case (Inr veth)
    obtain hh br ad where t: "or_zero ([], [], []) (ipam_GetContainerAddress (pe_host env) (pe_io env (Suc (pw_tick w1))) si (pe_ipam env)) = (hh, br, ad)"
      by (metis prod.collapse)
    let ?dev = "or_zero [] (ipam_GetDefaultInterface (pe_host env) (pe_io env (Suc (Suc (pw_tick w1)))) (pe_ipam env))"
    let ?w4 = "w1\<lparr>pw_tick := Suc (Suc (Suc (pw_tick w1)))\<rparr>"
    have "puts_front chain (\<lambda>_. True) (pw_kernel ?w4) (pw_kernel w')"
      by (rule apply_tail [where g = "fst (ns_log chain (pl_Id p))" and l = "snd (ns_log chain (pl_Id p))" and r = "ns_rule br ad ?dev p" and
            a = "ns_action chain" and v = v and env = env and f = "\<lambda>c io. npm_UpdateStatus io c (pl_Id p) ''applied'' []" and logging = logging])
        (use assms False s Inr t in \<open>simp_all add: apply_ns_def reading_def Let_def cong: if_cong\<close>)
    then show ?thesis using k1 by simp
  qed
qed

lemma ns_loop_frame:
  "insertRaindNSUserPolicy env run chain ps logging w = (v, w') \<Longrightarrow>
     puts_front chain (\<lambda>_. True) (pw_kernel w) (pw_kernel w')"
proof (induction ps arbitrary: w)
  case (Cons p ps)
  obtain r w1 where 1: "apply_ns env run chain logging p w = (r, w1)" by force
  then show ?case
    using Cons apply_ns_frame [OF 1] by (cases r) (auto simp: and_then_def intro: puts_front_trans)
qed auto

end

text \<open>The effect of one line, by action.\<close>

definition decides :: "string \<Rightarrow> verdict \<Rightarrow> bool" where
  "decides act v \<longleftrightarrow> (act = ''ACCEPT'' \<and> v = Accepted) \<or> (act = ''DROP'' \<and> v = Dropped)"

lemma decides_simps [simp]: "decides ''ACCEPT'' Accepted" "decides ''DROP'' Dropped"
  by (simp_all add: decides_def)

lemma eval_decides: "decides act v \<Longrightarrow> eval_chain jump ((j # act # args) # rs) p = (if args_match args p then v else eval_chain jump rs p)"
  by (elim decides_def [THEN iffD1, elim_format]) auto

lemma eval_nflog: "eval_chain jump ((j # ''NFLOG'' # args) # rs) p = eval_chain jump rs p"
  and eval_return: "eval_chain jump ((j # ''RETURN'' # args) # rs) p = (if args_match args p then Undecided else eval_chain jump rs p)"
  by simp_all

lemma eval_add_decides:
  "decides act v \<Longrightarrow> eval_chain jump (add_args r act # rs) p =
     (if model_match r p \<and> (rm_Protocol r = ''tcp'' \<and> rm_Syn r \<longrightarrow> pk_syn p) then v else eval_chain jump rs p)"
  by (subst add_args_shape) (simp only: eval_decides add_args_match)

lemma eval_add_nflog: "eval_chain jump (add_args r ''NFLOG'' # rs) p = eval_chain jump rs p"
  by (subst add_args_shape) (simp only: eval_nflog)

lemma eval_add_skip: "\<not> model_match r p \<Longrightarrow> eval_chain jump (add_args r a # rs) p = eval_chain jump rs p"
  by (subst add_args_shape) (simp only: eval_chain.simps add_args_match if_False simp_thms)

lemma eval_user:
  assumes "\<forall>u \<in> set us. \<exists>args. u = ''-j'' # ''NFLOG'' # args \<or> u = ''-j'' # act # args" and "decides act v"
  shows "eval_chain jump (us @ rs) p =
     (if \<exists>args. ''-j'' # act # args \<in> set us \<and> args_match args p then v else eval_chain jump rs p)"
  using assms(1)
proof (induction us)
  case (Cons u us)
  have ne: "act \<noteq> ''NFLOG''" using assms(2) by (auto simp: decides_def)
  consider args where "u = ''-j'' # ''NFLOG'' # args" | args where "u = ''-j'' # act # args" using Cons.prems by auto
  then show ?case
  proof cases
    case 1
    then show ?thesis using Cons ne by (simp add: eval_nflog del: eval_chain.simps)
  next
    case 2
    then show ?thesis using Cons by (auto simp: eval_decides [OF assms(2)] simp del: eval_chain.simps)
  qed
qed simp

lemma eval_lines_skip:
  assumes "\<forall>(r, a) \<in> set rs. a = ''NFLOG'' \<or> \<not> model_match r p"
  shows "eval_chain jump (rule_lines rs @ rest) p = eval_chain jump rest p"
  using assms
proof (induction rs)
  case (Cons x rs)
  obtain r a where x: "x = (r, a)" by force
  consider "a = ''NFLOG''" | "\<not> model_match r p" using Cons.prems x by auto
  then show ?case
    using Cons x by cases (simp_all add: eval_add_nflog eval_add_skip del: eval_chain.simps)
qed simp

lemma eval_lines_hit:
  assumes "\<forall>(r, a) \<in> set rs. a = act \<and> rm_Protocol r = []" and "decides act v" and "(r, a) \<in> set rs" and "model_match r p"
  shows "eval_chain jump (rule_lines rs @ rest) p = v"
  using assms(1,3)
proof (induction rs)
  case (Cons x rs)
  obtain r' where x: "x = (r', act)" "rm_Protocol r' = []" using Cons.prems(1) by (cases x) auto
  show ?case
    using Cons x assms(4) by (auto simp: eval_add_decides [OF assms(2)] simp del: eval_chain.simps)
qed simp

lemma model_match_devs: "model_match (devs i o') p \<longleftrightarrow> name_match dev_match i (pk_in p) \<and> name_match dev_match o' (pk_out p)"
  by (simp add: model_match_def devs_def no_rule_def port_match_def name_match_def)

lemma model_match_none [simp]: "model_match no_rule p"
  by (simp add: model_match_def no_rule_def port_match_def name_match_def)

lemma no_rule_fields [simp]: "rm_Protocol no_rule = []" "rm_Protocol (devs i o') = []"
  by (simp_all add: no_rule_def devs_def)

lemma dev_match_self [simp]: "name_match dev_match d d"
  by (auto simp: name_match_def dev_match_def prefix_def) (metis append_butlast_last_id)

lemma eval_add_return: "rm_Protocol r = [] \<Longrightarrow> model_match r p \<Longrightarrow> eval_chain jump (add_args r ''RETURN'' # rs) p = Undecided"
  by (subst add_args_shape) (simp add: eval_return add_args_match del: eval_chain.simps)

lemma eval_add_jump:
  assumes "c \<notin> {''ACCEPT'', ''DROP'', ''RETURN'', ''NFLOG''}"
  shows "eval_chain jump (add_args no_rule c # rs) p = (case jump c p of Undecided \<Rightarrow> eval_chain jump rs p | v \<Rightarrow> v)"
proof -
  have "args_match (tl (tl (add_args no_rule c))) p" by (simp add: add_args_match)
  then show ?thesis using assms by (subst add_args_shape) simp
qed

text \<open>The first rule of the root chain lets replies pass, the second asks the east-west chain.\<close>

lemma root_new:
  assumes "behaves_as tb ''RAIND-ROOT'' (root_rules enforce)" and "pk_state p = ''NEW''"
  shows "root_verdict tb ''RAIND-ROOT'' p = (case leaf_verdict tb ''RAIND-EW'' p of
       Undecided \<Rightarrow> leaf_verdict tb (if enforce then ''RAIND-NS-ENF'' else ''RAIND-NS-OBS'') p | v \<Rightarrow> v)"
proof -
  obtain ys where ys: "tb ''RAIND-ROOT'' = Some ys"
    "eval_chain (leaf_verdict tb) ys p = eval_chain (leaf_verdict tb) (rule_lines (root_rules enforce)) p"
    using assms(1) by (auto simp: behaves_as_def)
  have "\<not> model_match (no_rule\<lparr>rm_Conntrack := True, rm_Ctstate := [''ESTABLISHED'', ''RELATED'']\<rparr>) p"
    using assms(2) by (simp add: model_match_def no_rule_def)
  then show ?thesis
    using ys by (simp add: root_verdict_def root_rules_def eval_add_skip eval_add_jump eval_add_return split: verdict.split)
qed

lemma ew_rules_drop:
  assumes "n \<in> set nets" and "pk_in p = n" and "pk_out p = n"
  shows "eval_chain jump (rule_lines (ew_rules nets nflog)) p = Dropped"
proof -
  let ?log = "if nflog then map (\<lambda>n. (new_logged 10 ''RAIND-EW-DENY,id=predefined''
         ((devs n n)\<lparr>rm_Physdev := True, rm_PhysdevIsBridge := True\<rparr>), ''NFLOG'')) nets else []"
  let ?drop = "map (\<lambda>n. (devs n n, ''DROP'')) nets"
  obtain rest where e: "rule_lines (ew_rules nets nflog) = rule_lines ?log @ rule_lines ?drop @ rest" by (simp add: ew_rules_def)
  have skip: "\<forall>(r, a) \<in> set ?log. a = ''NFLOG'' \<or> \<not> model_match r p" by auto
  have all: "\<forall>(r, a) \<in> set ?drop. a = ''DROP'' \<and> rm_Protocol r = []" by (auto simp: devs_def no_rule_def)
  have hit: "(devs n n, ''DROP'') \<in> set ?drop" "model_match (devs n n) p" using assms by (auto simp: model_match_devs)
  show ?thesis unfolding e eval_lines_skip [OF skip] using eval_lines_hit [OF all _ hit] by simp
qed

lemma ew_rules_pass:
  assumes "\<forall>n \<in> set nets. \<not> name_match dev_match n (pk_out p)" and "\<not> prefix ''raind'' (pk_out p)"
  shows "eval_chain jump (rule_lines (ew_rules nets nflog)) p = Undecided"
proof -
  let ?log = "\<lambda>r. (new_logged 10 ''RAIND-EW-DENY,id=predefined'' r, ''NFLOG'')"
  let ?rs = "(if nflog then map (\<lambda>n. ?log ((devs n n)\<lparr>rm_Physdev := True, rm_PhysdevIsBridge := True\<rparr>)) nets else []) @
     map (\<lambda>n. (devs n n, ''DROP'')) nets @ (if nflog then [?log (devs ''raind+'' ''raind+'')] else []) @ [(devs ''raind+'' ''raind+'', ''DROP'')]"
  have "dev_match ''raind+'' (pk_out p) = False" using assms(2) by (simp add: dev_match_def)
  then have nr: "\<not> model_match (devs ''raind+'' ''raind+'') p" by (simp add: model_match_devs name_match_def)
  have nn: "\<not> model_match (devs n n) p" if "n \<in> set nets" for n using assms(1) that by (simp add: model_match_devs)
  have "\<forall>(r, a) \<in> set ?rs. a = ''NFLOG'' \<or> \<not> model_match r p" using nr nn by (cases nflog) (simp_all add: ball_Un)
  note skip = eval_lines_skip [OF this, of jump "rule_lines [(no_rule, ''RETURN'')]"]
  have "eval_chain jump (rule_lines (ew_rules nets nflog)) p = eval_chain jump (rule_lines ?rs @ rule_lines [(no_rule, ''RETURN'')]) p"
    by (simp add: ew_rules_def)
  also have "\<dots> = Undecided" unfolding skip by (simp add: eval_add_return)
  finally show ?thesis .
qed

lemma enf_rules_drop:
  assumes "n \<in> set nets" and "pk_in p = n" and "pk_out p = host"
  shows "eval_chain jump (rule_lines (enf_rules host nets nflog)) p = Dropped"
proof -
  let ?log = "if nflog then map (\<lambda>n. (new_logged 12 ''RAIND-NS-DENY,id=predefined'' (devs n host), ''NFLOG'')) nets else []"
  let ?drop = "map (\<lambda>n. (devs n host, ''DROP'')) nets"
  obtain rest where e: "rule_lines (enf_rules host nets nflog) = rule_lines ?log @ rule_lines ?drop @ rest" by (simp add: enf_rules_def)
  have skip: "\<forall>(r, a) \<in> set ?log. a = ''NFLOG'' \<or> \<not> model_match r p" by auto
  have all: "\<forall>(r, a) \<in> set ?drop. a = ''DROP'' \<and> rm_Protocol r = []" by (auto simp: devs_def no_rule_def)
  have hit: "(devs n host, ''DROP'') \<in> set ?drop" "model_match (devs n host) p" using assms by (auto simp: model_match_devs)
  show ?thesis unfolding e eval_lines_skip [OF skip] using eval_lines_hit [OF all _ hit] by simp
qed

lemma obs_rules_accept:
  assumes "n \<in> set nets" and "pk_in p = n" and "pk_out p = host"
  shows "eval_chain jump (rule_lines (obs_rules host nets nflog)) p = Accepted"
proof -
  let ?blk = "\<lambda>n. (if nflog then
          [(new_logged 11 ''RAIND-NS-ALLOW,id=predefined'' ((devs host n)\<lparr>rm_Protocol := ''tcp'', rm_Syn := True\<rparr>), ''NFLOG''),
           (new_logged 11 ''RAIND-NS-ALLOW,id=predefined'' ((devs host n)\<lparr>rm_Protocol := ''udp''\<rparr>), ''NFLOG''),
           (new_logged 11 ''RAIND-NS-ALLOW,id=predefined'' (devs n host), ''NFLOG'')]
        else []) @ [(devs n host, ''ACCEPT'')]"
  have blk: "eval_chain jump (rule_lines (?blk m) @ rest) p =
      (if name_match dev_match m (pk_in p) then Accepted else eval_chain jump rest p)" for m rest
  proof -
    have "rm_Protocol (devs m host) = []" by (simp add: devs_def no_rule_def)
    moreover have "name_match dev_match host (pk_out p)" using assms(3) by simp
    ultimately show ?thesis
      by (simp add: eval_add_nflog eval_add_decides [of "''ACCEPT''" Accepted] model_match_devs del: eval_chain.simps)
  qed
  have "eval_chain jump (rule_lines (concat (map ?blk nets)) @ rest) p = Accepted" for rest
    using assms(1)
  proof (induction nets)
    case (Cons m nets)
    then show ?case using blk [of m] assms(2) by auto
  qed simp
  then show ?thesis by (simp add: obs_rules_def)
qed

section \<open>What the user rules match\<close>

definition ew_allows :: "policy_env \<Rightarrow> Policy \<Rightarrow> packet \<Rightarrow> bool" where
  "ew_allows env pol p \<longleftrightarrow> pl_Status pol \<noteq> ''remove_next_commit'' \<and> pk_bridged p \<and> (\<exists>sv dv.
     endpoint env (ho_ContainerName (pl_Source pol)) sv \<and> name_match dev_match sv (pk_physin p) \<and>
     endpoint env (ho_ContainerName (pl_Destination pol)) dv \<and> name_match dev_match dv (pk_physout p)) \<and>
     name_match (=) (pl_Protocol pol) (pk_proto p) \<and> port_match (pl_DestPort pol) (pk_dport p)"

definition ns_matches :: "policy_env \<Rightarrow> Policy \<Rightarrow> packet \<Rightarrow> bool" where
  "ns_matches env pol p \<longleftrightarrow> pl_Status pol \<noteq> ''remove_next_commit'' \<and> (\<exists>cid pool addr a.
     container_named env (ho_ContainerName (pl_Source pol)) cid \<and> has_allocation env cid pool addr a \<and>
     name_match dev_match (po_Interface pool) (pk_in p) \<and> name_match addr_match addr (pk_src p)) \<and>
     name_match addr_match (ho_Address (pl_Destination pol)) (pk_dst p) \<and>
     name_match (=) (pl_Protocol pol) (pk_proto p) \<and> port_match (pl_DestPort pol) (pk_dport p)"

lemma ew_rule_match:
  "model_match (ew_rule sv dv pol) p \<longleftrightarrow> pk_bridged p \<and> name_match dev_match sv (pk_physin p) \<and> name_match dev_match dv (pk_physout p) \<and>
     name_match (=) (pl_Protocol pol) (pk_proto p) \<and> port_match (pl_DestPort pol) (pk_dport p)"
  by (simp add: model_match_def ew_rule_def no_rule_def name_match_def [of _ "[]"] port_match_def)

lemma ns_rule_match:
  "model_match (ns_rule br addr dev pol) p \<longleftrightarrow> name_match dev_match br (pk_in p) \<and> name_match dev_match dev (pk_out p) \<and>
     name_match (=) (pl_Protocol pol) (pk_proto p) \<and> port_match (pl_DestPort pol) (pk_dport p)"
  by (simp add: model_match_def ns_rule_def no_rule_def name_match_def [of _ "[]"] port_match_def)

lemma ew_rule_addr [simp]: "rm_Source (ew_rule sv dv pol) = []" "rm_Destination (ew_rule sv dv pol) = []"
  by (simp_all add: ew_rule_def no_rule_def)

lemma ns_rule_addr [simp]: "rm_Source (ns_rule br addr dev pol) = addr" "rm_Destination (ns_rule br addr dev pol) = ho_Address (pl_Destination pol)"
  by (simp_all add: ns_rule_def no_rule_def)

lemma user_shape:
  "ew_user_rule env pol u \<Longrightarrow> \<exists>args. u = ''-j'' # ''NFLOG'' # args \<or> u = ''-j'' # ''ACCEPT'' # args"
  "ns_user_rule env c pol u \<Longrightarrow> \<exists>args. u = ''-j'' # ''NFLOG'' # args \<or> u = ''-j'' # ns_action c # args"
  unfolding ew_user_rule_def ns_user_rule_def by (metis insert_args_shape)+

lemma insert_args_inj_action: "insert_args r a = ''-j'' # b # args \<longleftrightarrow> a = b \<and> args = tl (tl (insert_args r a))"
  by (subst insert_args_shape) auto

lemma ew_user_accepts:
  assumes "ew_user_rule env pol (''-j'' # ''ACCEPT'' # args)" and "args_match args p"
  shows "ew_allows env pol p"
proof -
  obtain sv dv where e: "pl_Status pol \<noteq> ''remove_next_commit''" "endpoint env (ho_ContainerName (pl_Source pol)) sv"
    "endpoint env (ho_ContainerName (pl_Destination pol)) dv" "args = tl (tl (insert_args (ew_rule sv dv pol) ''ACCEPT''))"
    using assms(1) insert_args_inj_action [of _ "''NFLOG''" "''ACCEPT''" args] insert_args_inj_action [of _ "''ACCEPT''" "''ACCEPT''" args]
    unfolding ew_user_rule_def by fastforce
  then have "model_match (ew_rule sv dv pol) p" using assms(2) by (simp add: insert_args_match)
  with e show ?thesis unfolding ew_allows_def ew_rule_match by blast
qed

lemma ns_action_not_log: "ns_action c \<noteq> ''NFLOG''"
  by (simp add: ns_action_def)

lemma ns_user_decides:
  assumes "ns_user_rule env c pol (''-j'' # ns_action c # args)" and "args_match args p"
  shows "ns_matches env pol p"
proof -
  obtain cid pool addr a dev where e: "pl_Status pol \<noteq> ''remove_next_commit''" "container_named env (ho_ContainerName (pl_Source pol)) cid"
    "has_allocation env cid pool addr a" "args = tl (tl (insert_args (ns_rule (po_Interface pool) addr dev pol) (ns_action c)))"
    using assms(1) insert_args_inj_action [of _ _ "ns_action c" args] ns_action_not_log unfolding ns_user_rule_def by metis
  then have "model_match (ns_rule (po_Interface pool) addr dev pol) p" "name_match addr_match addr (pk_src p)"
    "name_match addr_match (ho_Address (pl_Destination pol)) (pk_dst p)" using assms(2) by (simp_all add: insert_args_match)
  with e show ?thesis unfolding ns_matches_def ns_rule_match by blast
qed

section \<open>The tables after a commit\<close>

context iptables_tool
begin

lemma BuildUserPolicy_chains:
  assumes "BuildUserPolicy env run w = (r, w')" and "all_identified env"
    and "rules (pw_kernel w) ''RAIND-EW'' = Some e" and "rules (pw_kernel w) ''RAIND-NS-OBS'' = Some ob"
    and "rules (pw_kernel w) ''RAIND-NS-ENF'' = Some en"
  shows "\<exists>ue uo un. rules (pw_kernel w') = (rules (pw_kernel w))(''RAIND-EW'' \<mapsto> ue @ e, ''RAIND-NS-OBS'' \<mapsto> uo @ ob, ''RAIND-NS-ENF'' \<mapsto> un @ en) \<and>
     (\<forall>u \<in> set ue. \<exists>p \<in> set (doc_policies ''RAIND-EW'' (pw_npm w)). ew_user_rule env p u) \<and>
     ((\<forall>n. pe_io env n = io_ok) \<longrightarrow>
        (\<forall>u \<in> set uo. \<exists>p \<in> set (doc_policies ''RAIND-NS-OBS'' (pw_npm w)). ns_user_rule env ''RAIND-NS-OBS'' p u) \<and>
        (\<forall>u \<in> set un. \<exists>p \<in> set (doc_policies ''RAIND-NS-ENF'' (pw_npm w)). ns_user_rule env ''RAIND-NS-ENF'' p u))"
proof -
  define w3 where "w3 = w\<lparr>pw_tick := Suc (Suc (Suc (pw_tick w)))\<rparr>"
  define ew where "ew = npm_GetEWPolicyList (pe_io env (Suc (Suc (pw_tick w)))) (pw_npm w)"
  define lew where "lew = npm_GetEWLogging (pe_io env (pw_tick w)) (pw_npm w)"
  define lns where "lns = npm_GetNSLogging (pe_io env (Suc (pw_tick w))) (pw_npm w)"
  obtain r4 w4 where 4: "insertRaindEWUserPolicy env run ew lew w3 = (r4, w4)" by force
  define w5 where "w5 = w4\<lparr>pw_tick := Suc (pw_tick w4)\<rparr>"
  define obs where "obs = npm_GetNSObsPolicyList (pe_io env (pw_tick w4)) (pw_npm w4)"
  obtain r6 w6 where 6: "insertRaindNSUserPolicy env run ''RAIND-NS-OBS'' obs lns w5 = (r6, w6)" by force
  define w7 where "w7 = w6\<lparr>pw_tick := Suc (pw_tick w6)\<rparr>"
  define enf where "enf = npm_GetNSEnfPolicyList (pe_io env (pw_tick w6)) (pw_npm w6)"
  have 8: "insertRaindNSUserPolicy env run ''RAIND-NS-ENF'' enf lns w7 = (r, w')"
    using assms(1) 4 6
    by (simp add: BuildUserPolicy_def reading_def w3_def ew_def lew_def lns_def w5_def obs_def w7_def enf_def)
  have k: "pw_kernel w3 = pw_kernel w" "pw_kernel w5 = pw_kernel w4" "pw_kernel w7 = pw_kernel w6"
    "pw_npm w3 = pw_npm w" "pw_npm w5 = pw_npm w4" "pw_npm w7 = pw_npm w6" by (simp_all add: w3_def w5_def w7_def)
  have th: "set obs \<subseteq> set (doc_policies ''RAIND-NS-OBS'' (pw_npm w))" "set enf \<subseteq> set (doc_policies ''RAIND-NS-ENF'' (pw_npm w))"
    "set ew \<subseteq> set (doc_policies ''RAIND-EW'' (pw_npm w))"
    using doc_policies_read(2) [of "pe_io env (pw_tick w4)" "pw_npm w4"] doc_policies_read(3) [of "pe_io env (pw_tick w6)" "pw_npm w6"]
      doc_policies_read(1) [of "pe_io env (Suc (Suc (pw_tick w)))" "pw_npm w"]
      ew_loop_thins [OF 4, of "''RAIND-NS-OBS''"] ew_loop_thins [OF 4, of "''RAIND-NS-ENF''"] ns_loop_thins [OF 6, of "''RAIND-NS-ENF''"]
    unfolding thins_def k obs_def enf_def ew_def by auto
  obtain ue where ue: "rules (pw_kernel w4) = (rules (pw_kernel w))(''RAIND-EW'' \<mapsto> ue @ e)" "\<forall>u \<in> set ue. \<exists>p \<in> set ew. ew_user_rule env p u"
    using ew_loop_rules [OF 4 assms(2)] assms(3) unfolding puts_front_def k by blast
  have o4: "rules (pw_kernel w4) ''RAIND-NS-OBS'' = Some ob" using ue(1) assms(4) by simp
  define ns where "ns = (\<lambda>c ps u. if \<forall>n. pe_io env n = io_ok then \<exists>p \<in> set ps. ns_user_rule env c p u else True)"
  have f: "puts_front c (ns c ps) (pw_kernel v) (pw_kernel v')" if "insertRaindNSUserPolicy env run c ps lns v = (x, v')" for c ps v x v'
  proof (cases "\<forall>n. pe_io env n = io_ok")
    case True
    from puts_front_mono [OF ns_loop_rules [OF that assms(2) True], of "ns c ps"] show ?thesis by (simp add: ns_def)
  next
    case False
    have "ns c ps u" for u using False by (auto simp: ns_def)
    with puts_front_mono [OF ns_loop_frame [OF that]] show ?thesis by blast
  qed
  obtain uo where uo: "rules (pw_kernel w6) = (rules (pw_kernel w4))(''RAIND-NS-OBS'' \<mapsto> uo @ ob)" "\<forall>u \<in> set uo. ns ''RAIND-NS-OBS'' obs u"
    using f [OF 6] o4 unfolding puts_front_def k by blast
  have e6: "rules (pw_kernel w6) ''RAIND-NS-ENF'' = Some en" using uo(1) ue(1) assms(5) by simp
  obtain un where un: "rules (pw_kernel w') = (rules (pw_kernel w6))(''RAIND-NS-ENF'' \<mapsto> un @ en)" "\<forall>u \<in> set un. ns ''RAIND-NS-ENF'' enf u"
    using f [OF 8] e6 unfolding puts_front_def k by blast
  have "rules (pw_kernel w') = (rules (pw_kernel w))(''RAIND-EW'' \<mapsto> ue @ e, ''RAIND-NS-OBS'' \<mapsto> uo @ ob, ''RAIND-NS-ENF'' \<mapsto> un @ en)"
    unfolding un(1) uo(1) ue(1) ..
  moreover have "\<forall>u \<in> set ue. \<exists>p \<in> set (doc_policies ''RAIND-EW'' (pw_npm w)). ew_user_rule env p u" using ue(2) th(3) by blast
  moreover have "(\<forall>n. pe_io env n = io_ok) \<longrightarrow>
        (\<forall>u \<in> set uo. \<exists>p \<in> set (doc_policies ''RAIND-NS-OBS'' (pw_npm w)). ns_user_rule env ''RAIND-NS-OBS'' p u) \<and>
        (\<forall>u \<in> set un. \<exists>p \<in> set (doc_policies ''RAIND-NS-ENF'' (pw_npm w)). ns_user_rule env ''RAIND-NS-ENF'' p u)"
  proof
    assume ok: "\<forall>n. pe_io env n = io_ok"
    then have "ns c ps u \<longleftrightarrow> (\<exists>p \<in> set ps. ns_user_rule env c p u)" for c ps u by (simp add: ns_def)
    then show "(\<forall>u \<in> set uo. \<exists>p \<in> set (doc_policies ''RAIND-NS-OBS'' (pw_npm w)). ns_user_rule env ''RAIND-NS-OBS'' p u) \<and>
        (\<forall>u \<in> set un. \<exists>p \<in> set (doc_policies ''RAIND-NS-ENF'' (pw_npm w)). ns_user_rule env ''RAIND-NS-ENF'' p u)"
      using uo(2) un(2) th(1,2) by (meson subsetD)
  qed
  ultimately show ?thesis by blast
qed

text \<open>The state of the firewall after a successful commit.\<close>

lemma CommitPolicy_tables:
  assumes "CommitPolicy env run w = (Inr u, w')" and "all_identified env"
  shows "\<exists>nl n1 n2 w1 host enforce nets logEw logNs ue uo un e ob en.
     FixNSMode env w = (Inr (), w1) \<and> enforce = npm_IsNsEnforce (pe_io env (Suc (pw_tick w1))) (pw_npm w1) \<and>
     ipam_GetNetworkList (pe_host env) (pe_io env n1) (pe_ipam env) = Inr nl \<and> nets = map nl_Interface nl \<and>
     ipam_GetDefaultInterface (pe_host env) (pe_io env n2) (pe_ipam env) = Inr host \<and>
     behaves_as (rules (pw_kernel w')) ''RAIND-ROOT'' (root_rules enforce) \<and>
     rules (pw_kernel w') ''RAIND-EW'' = Some (ue @ e) \<and> rules (pw_kernel w') ''RAIND-NS-OBS'' = Some (uo @ ob) \<and>
     rules (pw_kernel w') ''RAIND-NS-ENF'' = Some (un @ en) \<and>
     (\<forall>jump p. eval_chain jump e p = eval_chain jump (rule_lines (ew_rules nets logEw)) p) \<and>
     (enforce \<longrightarrow> (\<forall>jump p. eval_chain jump en p = eval_chain jump (rule_lines (enf_rules host nets logNs)) p)) \<and>
     (\<not> enforce \<longrightarrow> (\<forall>jump p. eval_chain jump ob p = eval_chain jump (rule_lines (obs_rules host nets logNs)) p)) \<and>
     (\<forall>u \<in> set ue. \<exists>p \<in> set (doc_policies ''RAIND-EW'' (pw_npm w)). ew_user_rule env p u) \<and>
     ((\<forall>n. pe_io env n = io_ok) \<longrightarrow>
        (\<forall>u \<in> set uo. \<exists>p \<in> set (doc_policies ''RAIND-NS-OBS'' (pw_npm w)). ns_user_rule env ''RAIND-NS-OBS'' p u) \<and>
        (\<forall>u \<in> set un. \<exists>p \<in> set (doc_policies ''RAIND-NS-ENF'' (pw_npm w)). ns_user_rule env ''RAIND-NS-ENF'' p u))"
proof -
  obtain w1 w2 w3 where w1: "FixNSMode env w = (Inr (), w1)" and w2: "BuildPredefinedPolicy env run w1 = (Inr (), w2)" and
    w3: "BuildUserPolicy env run w2 = (Inr (), w3)" and w4: "on_npm env (\<lambda>_. npm_Backup (pe_backup env)) w3 = (Inr u, w')"
    using assms(1) by (auto simp: CommitPolicy_def and_then_Inr)
  have k': "pw_kernel w' = pw_kernel w3" using on_npm_kernel [OF w4] .
  obtain nl n1 n2 logEw logNs host enforce where b: "ipam_GetNetworkList (pe_host env) (pe_io env n1) (pe_ipam env) = Inr nl"
     "ipam_GetDefaultInterface (pe_host env) (pe_io env n2) (pe_ipam env) = Inr host"
     "enforce = npm_IsNsEnforce (pe_io env (Suc (pw_tick w1))) (pw_npm w1)" "pw_npm w2 = pw_npm w1"
     "behaves_as (rules (pw_kernel w2)) ''RAIND-ROOT'' (root_rules enforce)"
     "behaves_as (rules (pw_kernel w2)) ''RAIND-EW'' (ew_rules (map nl_Interface nl) logEw)"
     "if enforce then behaves_as (rules (pw_kernel w2)) ''RAIND-NS-ENF'' (enf_rules host (map nl_Interface nl) logNs) \<and>
           rules (pw_kernel w2) ''RAIND-NS-OBS'' = Some []
      else behaves_as (rules (pw_kernel w2)) ''RAIND-NS-OBS'' (obs_rules host (map nl_Interface nl) logNs) \<and>
           rules (pw_kernel w2) ''RAIND-NS-ENF'' = Some []"
    using BuildPredefinedPolicy_ok [OF w2] by metis
  obtain e where e: "rules (pw_kernel w2) ''RAIND-EW'' = Some e" "\<forall>jump p. eval_chain jump e p = eval_chain jump (rule_lines (ew_rules (map nl_Interface nl) logEw)) p"
    using b(6) unfolding behaves_as_def by blast
  obtain ob where ob: "rules (pw_kernel w2) ''RAIND-NS-OBS'' = Some ob"
    "\<not> enforce \<longrightarrow> (\<forall>jump p. eval_chain jump ob p = eval_chain jump (rule_lines (obs_rules host (map nl_Interface nl) logNs)) p)"
    using b(7) unfolding behaves_as_def by (cases enforce) auto
  obtain en where en: "rules (pw_kernel w2) ''RAIND-NS-ENF'' = Some en"
    "enforce \<longrightarrow> (\<forall>jump p. eval_chain jump en p = eval_chain jump (rule_lines (enf_rules host (map nl_Interface nl) logNs)) p)"
    using b(7) unfolding behaves_as_def by (cases enforce) auto
  obtain ue uo un where u: "rules (pw_kernel w3) = (rules (pw_kernel w2))(''RAIND-EW'' \<mapsto> ue @ e, ''RAIND-NS-OBS'' \<mapsto> uo @ ob, ''RAIND-NS-ENF'' \<mapsto> un @ en)"
     "\<forall>u \<in> set ue. \<exists>p \<in> set (doc_policies ''RAIND-EW'' (pw_npm w2)). ew_user_rule env p u"
     "(\<forall>n. pe_io env n = io_ok) \<longrightarrow>
        (\<forall>u \<in> set uo. \<exists>p \<in> set (doc_policies ''RAIND-NS-OBS'' (pw_npm w2)). ns_user_rule env ''RAIND-NS-OBS'' p u) \<and>
        (\<forall>u \<in> set un. \<exists>p \<in> set (doc_policies ''RAIND-NS-ENF'' (pw_npm w2)). ns_user_rule env ''RAIND-NS-ENF'' p u)"
    using BuildUserPolicy_chains [OF w3 assms(2) e(1) ob(1) en(1)] by blast
  have sub: "set (doc_policies c (pw_npm w2)) \<subseteq> set (doc_policies c (pw_npm w))" for c
    using FixNSMode_eq [OF w1] b(4) by simp
  have root: "behaves_as (rules (pw_kernel w')) ''RAIND-ROOT'' (root_rules enforce)"
    using behaves_as_frame [OF b(5)] by (simp add: k' u(1))
  have ch: "rules (pw_kernel w') ''RAIND-EW'' = Some (ue @ e)" "rules (pw_kernel w') ''RAIND-NS-OBS'' = Some (uo @ ob)"
     "rules (pw_kernel w') ''RAIND-NS-ENF'' = Some (un @ en)" by (simp_all add: k' u(1))
  have us: "\<forall>u \<in> set ue. \<exists>p \<in> set (doc_policies ''RAIND-EW'' (pw_npm w)). ew_user_rule env p u"
     "(\<forall>n. pe_io env n = io_ok) \<longrightarrow>
        (\<forall>u \<in> set uo. \<exists>p \<in> set (doc_policies ''RAIND-NS-OBS'' (pw_npm w)). ns_user_rule env ''RAIND-NS-OBS'' p u) \<and>
        (\<forall>u \<in> set un. \<exists>p \<in> set (doc_policies ''RAIND-NS-ENF'' (pw_npm w)). ns_user_rule env ''RAIND-NS-ENF'' p u)"
    using u(2,3) sub by blast+
  show ?thesis
    using w1 b(1-3) root ch e(2) ob(2) en(2) us
    by - (rule exI [of _ nl], rule exI [of _ n1], rule exI [of _ n2], rule exI [of _ w1], rule exI [of _ host], rule exI [of _ enforce],
      rule exI [of _ "map nl_Interface nl"], rule exI [of _ logEw], rule exI [of _ logNs], rule exI [of _ ue], rule exI [of _ uo],
      rule exI [of _ un], rule exI [of _ e], rule exI [of _ ob], rule exI [of _ en], intro conjI, (assumption | rule refl)+)
qed

end

section \<open>Properties\<close>

lemma networks_read:
  assumes "ipam_loadOrInit (pe_host env) (read_file io_ok (pe_ipam env)) = Inr ist"
  shows "ipam_GetNetworkList (pe_host env) io (pe_ipam env) = Inr nl \<Longrightarrow> map nl_Interface nl = map po_Interface (ip_Pools ist)"
    and "ipam_GetDefaultInterface (pe_host env) io (pe_ipam env) = Inr host \<Longrightarrow> host = ip_HostInterface ist"
proof -
  have same: "st = ist" if "ipam_loadOrInit (pe_host env) (read_file io (pe_ipam env)) = Inr st" for st
    using ipam_load_io [OF that] assms by simp
  show "map nl_Interface nl = map po_Interface (ip_Pools ist)" if "ipam_GetNetworkList (pe_host env) io (pe_ipam env) = Inr nl"
    using withRLock_Inr [OF that [unfolded ipam_GetNetworkList_def ipam_withRLock_def]] same by (auto split: if_splits)
  show "host = ip_HostInterface ist" if "ipam_GetDefaultInterface (pe_host env) io (pe_ipam env) = Inr host"
    using withRLock_Inr [OF that [unfolded ipam_GetDefaultInterface_def ipam_withRLock_def]] same by (auto split: if_splits)
qed


text \<open>The north-south mode a commit settles on.\<close>

definition settled_mode :: "string \<Rightarrow> string" where
  "settled_mode m = (if m = ''observe'' \<or> m = ''enforce'' then m
     else if str_contains m ''_next_commit'' then hd (split_on (CHR ''_'') m) else m)"

lemma FixNSMode_settles:
  assumes "FixNSMode env w = (Inr (), w1)" and "\<forall>n. pe_io env n = io_ok"
    and "npm_loadOrInit (read_file io_ok (nf_disk (pw_npm w))) = Inr np"
  shows "npm_IsNsEnforce io_ok (pw_npm w1) \<longleftrightarrow> settled_mode (pm_Mode (dpo_NorthSouth (np_DefaultRule np))) = ''enforce''"
proof -
  let ?m = "pm_Mode (dpo_NorthSouth (np_DefaultRule np))"
  have m: "npm_GetNSMode io_ok (pw_npm w) = ?m" using npm_read_ok(2) [OF assms(3)] by (simp add: npm_GetNSMode_def)
  have now: "npm_IsNsEnforce io_ok (pw_npm w) \<longleftrightarrow> ?m = ''enforce''" using npm_read_ok(2) [OF assms(3)] by (simp add: npm_IsNsEnforce_def)
  show ?thesis
  proof (cases "?m = ''observe'' \<or> ?m = ''enforce'' \<or> \<not> str_contains ?m ''_next_commit''")
    case True
    then have "pw_npm w1 = pw_npm w" using assms(1,2) m by (auto simp: FixNSMode_def reading_def split: if_splits)
    then show ?thesis using True now by (auto simp: settled_mode_def)
  next
    case False
    let ?np = "np\<lparr>np_DefaultRule := (np_DefaultRule np)\<lparr>dpo_NorthSouth := (dpo_NorthSouth (np_DefaultRule np))\<lparr>pm_Mode := hd (split_on (CHR ''_'') ?m)\<rparr>\<rparr>\<rparr>"
    have "pw_npm w1 = (pw_npm w)\<lparr>nf_disk := \<lparr>main_file = Some (Decoded ?np), tmp_file = None\<rparr>\<rparr>"
      using assms(1,2) m False
      by (auto simp: FixNSMode_def reading_def on_npm_def npm_ChangeNSMode_def npm_write_ok [OF assms(3)] split: if_splits)
    then have "npm_loadOrInit (read_file io_ok (nf_disk (pw_npm w1))) = Inr ?np" by simp
    then show ?thesis using False by (simp add: npm_IsNsEnforce_def settled_mode_def npm_read_ok(2))
  qed
qed


section \<open>Witnesses\<close>

text \<open>Two containers on the default bridge and no policies; the mode changes to \<open>enforce\<close> with the commit.\<close>

definition ex_ist :: IpamState where
  "ex_ist = (ipam_initState ''eth0'' ''192.168.0.2/24'')\<lparr>ip_Pools := [default_pool\<lparr>po_Allocations := Some
     [(''10.166.0.1'', \<lparr>al_ContainerId = ''c1'', al_Interface = ''rd_c1'', al_Forwards = [], al_AssignedAt = 1\<rparr>),
      (''10.166.0.2'', \<lparr>al_ContainerId = ''c2'', al_Interface = ''rd_c2'', al_Forwards = [], al_AssignedAt = 2\<rparr>)]\<rparr>]\<rparr>"

definition ex_container :: "string \<Rightarrow> string \<Rightarrow> ContainerInfo" where
  "ex_container cid name = \<lparr>cn_ContainerId = cid, cn_ContainerName = name, cn_PodId = [], cn_DropletId = [], cn_SpiffeId = [], cn_State = ''running'',
     cn_Pid = 1, cn_ExitCode = 0, cn_Reason = [], cn_Message = [], cn_LogPath = [], cn_Tty = False, cn_Repository = [], cn_Reference = [],
     cn_Command = [], cn_BottleId = [], cn_SecurityProfile = [], cn_CreatingAt = 0, cn_CreatedAt = 0, cn_StartedAt = 0, cn_StoppedAt = 0,
     cn_FinishedAt = 0, cn_Labels = None, cn_Annotaions = None, cn_Attemp = 0\<rparr>"

definition ex_env :: policy_env where
  "ex_env = \<lparr>pe_io = (\<lambda>_. io_ok), pe_backup = backup_ok, pe_host = \<lparr>he_interface = Inr ''eth0'', he_addr = Inr ''192.168.0.2/24''\<rparr>,
     pe_ipam = \<lparr>main_file = Some (Decoded ex_ist), tmp_file = None\<rparr>,
     pe_csm = \<lparr>main_file = Some (Decoded (''0.1.0'', Some [(''c1'', ex_container ''c1'' ''web''), (''c2'', ex_container ''c2'' ''db'')])), tmp_file = None\<rparr>,
     pe_psm = \<lparr>main_file = None, tmp_file = None\<rparr>\<rparr>"

definition ex_np :: NetworkPolicy where
  "ex_np = npm_init\<lparr>np_DefaultRule := (np_DefaultRule npm_init)\<lparr>dpo_NorthSouth := \<lparr>pm_Mode = ''enforce_next_commit'', pm_Logging = True\<rparr>\<rparr>\<rparr>"

definition ex_world :: "table policy_world" where
  "ex_world = \<lparr>pw_npm = \<lparr>nf_disk = \<lparr>main_file = Some (Decoded ex_np), tmp_file = None\<rparr>, nf_running = None, nf_org = None\<rparr>,
     pw_kernel = [''FORWARD'' \<mapsto> []], pw_tick = 0\<rparr>"

definition ex_packet :: packet where
  "ex_packet = \<lparr>pk_in = ''raind0'', pk_out = ''raind0'', pk_bridged = True, pk_physin = ''rd_c1'', pk_physout = ''rd_c2'', pk_src = 178651137,
     pk_dst = 178651138, pk_proto = ''tcp'', pk_syn = True, pk_sport = 40000, pk_dport = 22, pk_state = ''NEW''\<rparr>"

lemma table_add:
  assumes "tb c \<noteq> None"
  shows "\<exists>tb'. AddRuleToChain table_run c r a tb = (Inr (), tb') \<and> (\<forall>d. tb d \<noteq> None \<longrightarrow> tb' d \<noteq> None)"
proof -
  obtain rs where rs: "tb c = Some rs" using assms by auto
  obtain r' where hd: "add_args r a = ''-j'' # r'" by (simp add: add_args_def)
  show ?thesis
    using rs by (cases "(''-j'' # r') \<in> set rs") (auto simp: AddRuleToChain_def Let_def hd command_def)
qed

lemma table_add_rules:
  "tb c \<noteq> None \<Longrightarrow> \<exists>tb'. add_rules table_run c rs tb = (Inr (), tb') \<and> (\<forall>d. tb d \<noteq> None \<longrightarrow> tb' d \<noteq> None)"
proof (induction rs arbitrary: tb)
  case (Cons ra rs)
  obtain r a where ra: "ra = (r, a)" by force
  obtain t1 where t1: "AddRuleToChain table_run c r a tb = (Inr (), t1)" "\<forall>d. tb d \<noteq> None \<longrightarrow> t1 d \<noteq> None"
    using table_add [of tb c r a] Cons.prems by blast
  from Cons.IH [of t1] t1 Cons.prems ra show ?case by fastforce
qed auto

lemma table_create: "CreateChain table_run c tb = (Inr (), tb(c \<mapsto> []))"
  by (simp add: CreateChain_def command_def)

lemma table_forward: "tb ''FORWARD'' \<noteq> None \<Longrightarrow> \<exists>tb'. insertForward table_run tb = (Inr (), tb') \<and> (\<forall>d. tb d \<noteq> None \<longrightarrow> tb' d \<noteq> None)"
  by (auto simp: insertForward_def InsertForwardRule_def command_def)

lemma ex_load: "ipam_loadOrInit (pe_host ex_env) (read_file io_ok (pe_ipam ex_env)) = Inr ex_ist"
  by (simp add: ex_env_def ipam_loadOrInit_def read_file_io_ok)

lemma ex_npm_load: "npm_loadOrInit (read_file io_ok (nf_disk (pw_npm ex_world))) = Inr ex_np"
  by (simp add: ex_world_def)

lemma ex_commit: "\<exists>w'. CommitPolicy ex_env table_run ex_world = (Inr (), w')"
proof -
  let ?np = "ex_np\<lparr>np_DefaultRule := (np_DefaultRule ex_np)\<lparr>dpo_NorthSouth := \<lparr>pm_Mode = ''enforce'', pm_Logging = True\<rparr>\<rparr>\<rparr>"
  let ?f = "(pw_npm ex_world)\<lparr>nf_disk := \<lparr>main_file = Some (Decoded ?np), tmp_file = None\<rparr>\<rparr>"
  let ?w1 = "ex_world\<lparr>pw_npm := ?f, pw_tick := 2\<rparr>"
  have io: "pe_io ex_env n = io_ok" for n by (simp add: ex_env_def)
  have m: "pm_Mode (dpo_NorthSouth (np_DefaultRule ex_np)) = ''enforce_next_commit''" "str_contains ''enforce_next_commit'' ''_next_commit''"
    by code_simp+
  have fixm: "FixNSMode ex_env ex_world = (Inr (), ?w1)"
    using m by (simp add: FixNSMode_def reading_def io npm_GetNSMode_def npm_read_ok(2) [OF ex_npm_load] on_npm_def npm_ChangeNSMode_def
        npm_write_ok [OF ex_npm_load]) (simp add: ex_np_def npm_init_def ex_world_def)
  have l: "npm_loadOrInit (read_file io_ok (nf_disk ?f)) = Inr ?np" by simp
  obtain nl where nl: "ipam_GetNetworkList (pe_host ex_env) io_ok (pe_ipam ex_env) = Inr nl"
    by (simp add: ipam_GetNetworkList_def ipam_withRLock_def withRLock_io_ok ex_load) (simp add: ex_ist_def)
  have host: "ipam_GetDefaultInterface (pe_host ex_env) io_ok (pe_ipam ex_env) = Inr ''eth0''"
    by (simp add: ipam_GetDefaultInterface_def ipam_withRLock_def withRLock_io_ok ex_load) (simp add: ex_ist_def ipam_initState_def)
  define t0 where "t0 = (\<lambda>c. if c \<in> set raind_chains then Some [] else pw_kernel ex_world c)"
  have c0: "createChain table_run raind_chains (pw_kernel ex_world) = (Inr (), t0)"
    by (simp add: raind_chains_def table_create and_then_def t0_def fun_eq_iff)
  have t0: "t0 ''FORWARD'' \<noteq> None" "t0 ''RAIND-ROOT'' \<noteq> None" "t0 ''RAIND-EW'' \<noteq> None" "t0 ''RAIND-NS-ENF'' \<noteq> None"
    by (simp_all add: t0_def raind_chains_def ex_world_def)
  obtain t1 where t1: "insertForward table_run t0 = (Inr (), t1)" "\<forall>d. t0 d \<noteq> None \<longrightarrow> t1 d \<noteq> None" using table_forward [of t0] t0(1) by blast
  have k1: "t1 ''RAIND-ROOT'' \<noteq> None" "t1 ''RAIND-EW'' \<noteq> None" "t1 ''RAIND-NS-ENF'' \<noteq> None" using t1(2) t0(2-4) by (simp_all only: simp_thms)
  obtain t2 where t2: "buildRaindRootChain table_run True t1 = (Inr (), t2)" "\<forall>d. t1 d \<noteq> None \<longrightarrow> t2 d \<noteq> None"
    using table_add_rules [of t1 "''RAIND-ROOT''" "root_rules True", OF k1(1), folded buildRaindRootChain_def] by (elim exE conjE) (rule that)
  have k2: "t2 ''RAIND-EW'' \<noteq> None" "t2 ''RAIND-NS-ENF'' \<noteq> None" using t2(2) k1(2-3) by (simp_all only: simp_thms)
  obtain t3 where t3: "buildRaindEWChain table_run (map nl_Interface nl) True t2 = (Inr (), t3)" "\<forall>d. t2 d \<noteq> None \<longrightarrow> t3 d \<noteq> None"
    using table_add_rules [of t2 "''RAIND-EW''" "ew_rules (map nl_Interface nl) True", OF k2(1), folded buildRaindEWChain_def] by (elim exE conjE) (rule that)
  have k3: "t3 ''RAIND-NS-ENF'' \<noteq> None" using t3(2) k2(2) by (simp only: simp_thms)
  obtain t4 where t4: "add_rules table_run ''RAIND-NS-ENF'' (enf_rules ''eth0'' (map nl_Interface nl) True) t3 = (Inr (), t4)"
    using table_add_rules [of t3 "''RAIND-NS-ENF''" "enf_rules ''eth0'' (map nl_Interface nl) True", OF k3] by (elim exE conjE) (rule that)
  have logs: "npm_IsNsEnforce io_ok ?f" "npm_GetEWLogging io_ok ?f" "npm_GetNSLogging io_ok ?f"
    by (simp_all add: npm_IsNsEnforce_def npm_GetEWLogging_def npm_GetNSLogging_def npm_read_ok(2) [OF l]) (simp add: ex_np_def npm_init_def)
  have pre: "BuildPredefinedPolicy ex_env table_run ?w1 = (Inr (), ?w1\<lparr>pw_kernel := t4, pw_tick := 7\<rparr>)"
    using c0 t1(1) t2(1) t3(1) t4
    by (simp add: BuildPredefinedPolicy_def and_then_def reading_def io nl logs on_kernel_def buildRaindNSEnforceChain_def host)
  have pol: "npm_GetEWPolicyList io_ok ?f = []" "npm_GetNSObsPolicyList io_ok ?f = []" "npm_GetNSEnfPolicyList io_ok ?f = []"
    by (simp_all add: npm_GetEWPolicyList_def npm_GetNSObsPolicyList_def npm_GetNSEnfPolicyList_def npm_read_ok(2) [OF l])
      (simp_all add: ex_np_def npm_init_def)
  have bk: "pe_backup ex_env = backup_ok" by (simp add: ex_env_def)
  show ?thesis
    by (simp add: CommitPolicy_def and_then_def fixm pre BuildUserPolicy_def reading_def io pol on_npm_def bk)
      (simp add: npm_Backup_def backup_ok_def)
qed

lemma ex_identified: "all_identified ex_env"
  by (auto simp: all_identified_def has_allocation_def ex_load) (auto simp: ex_ist_def ipam_initState_def default_pool_def allocs_def)



end
