(* ===== verification/Secret_Store.thy ===== *)
theory Secret_Store
  imports Object_Stores
begin

text \<open>
  The secret store \<open>store/sec\<close>. Its files are private: taking the lock and saving call \<open>Chmod\<close> at
  four more places, and the last one comes after the document has been replaced.
\<close>

section \<open>Data\<close>

record SecretInfo =
  si_SecretId :: string
  si_Name :: string
  si_Namespace :: string
  si_Type :: string
  si_Data :: "(string, string) gomap option"
  si_CreatedAt :: time

record SecretState =
  sst_Version :: string
  sst_Secrets :: "(string, SecretInfo) gomap"

type_synonym secret_doc = "string \<times> (string, SecretInfo) gomap option"

text \<open>The outcome of the calls every store makes, and of the four calls of \<open>Chmod\<close>.\<close>

record sec_io =
  sio_env :: io_env
  chmod_dir_err :: "string option"
  chmod_lock_err :: "string option"
  chmod_tmp_err :: "string option"
  chmod_file_err :: "string option"

definition sec_io_ok :: sec_io where
  "sec_io_ok = \<lparr>sio_env = io_ok, chmod_dir_err = None, chmod_lock_err = None, chmod_tmp_err = None, chmod_file_err = None\<rparr>"

definition first_err :: "string option \<Rightarrow> string option \<Rightarrow> string option" where
  "first_err a b = (case a of Some e \<Rightarrow> Some e | None \<Rightarrow> b)"

section \<open>The store\<close>

definition sec_init :: SecretState where
  "sec_init = \<lparr>sst_Version = ''0.1.0'', sst_Secrets = []\<rparr>"

definition sec_complete :: "secret_doc \<Rightarrow> SecretState" where
  "sec_complete r = \<lparr>sst_Version = fst r, sst_Secrets = or_empty (snd r)\<rparr>"

definition sec_marshal :: "SecretState \<Rightarrow> secret_doc" where
  "sec_marshal st = (sst_Version st, Some (sst_Secrets st))"

definition sec_loadOrInit :: "secret_doc read_result \<Rightarrow> SecretState res" where
  "sec_loadOrInit = load_or_init ''secret state json broken'' sec_init sec_complete"

text \<open>
  The calls before the document is read, in order: create the directory, \<open>Chmod\<close> it (\<open>ensurePrivateDir\<close>),
  open the lock file, \<open>Chmod\<close> it, lock it.
\<close>

definition ensurePrivateDir :: "sec_io \<Rightarrow> string option" where
  "ensurePrivateDir io = first_err (mkdir_err (sio_env io)) (chmod_dir_err io)"

definition sec_lock_io :: "sec_io \<Rightarrow> io_env" where
  "sec_lock_io io = (sio_env io)\<lparr>mkdir_err := ensurePrivateDir io,
     open_lock_err := first_err (open_lock_err (sio_env io)) (chmod_lock_err io)\<rparr>"

text \<open>
  The \<open>Chmod\<close> of the temporary file comes before the write, and its failure leaves the same empty file as a
  failing write. The \<open>Chmod\<close> after the rename can fail when the new document is in place.
\<close>

definition sec_atomicSave :: "sec_io \<Rightarrow> SecretState \<Rightarrow> secret_doc disk \<Rightarrow> unit res \<times> secret_doc disk" where
  "sec_atomicSave io st d =
     (case atomicSave sec_marshal ((sio_env io)\<lparr>write_err := first_err (chmod_tmp_err io) (write_err (sio_env io))\<rparr>) st d of
        (Inl e, d') \<Rightarrow> (Inl e, d')
      | (Inr _, d') \<Rightarrow> (case chmod_file_err io of Some e \<Rightarrow> (Inl (SysErr e), d') | None \<Rightarrow> (Inr (), d')))"

definition sec_withLock ::
  "sec_io \<Rightarrow> (SecretState \<Rightarrow> (SecretState \<times> 'a) res) \<Rightarrow> secret_doc disk \<Rightarrow> 'a res \<times> secret_doc disk" where
  "sec_withLock io = withLock sec_loadOrInit (\<lambda>_. sec_atomicSave io) (sec_lock_io io)"

definition sec_withRLock :: "sec_io \<Rightarrow> (SecretState \<Rightarrow> 'a res) \<Rightarrow> secret_doc disk \<Rightarrow> 'a res" where
  "sec_withRLock io = withRLock sec_loadOrInit (sec_lock_io io)"

definition sec_SetSecretState :: "sec_io \<Rightarrow> secret_doc disk \<Rightarrow> unit res \<times> secret_doc disk" where
  "sec_SetSecretState io = sec_withLock io (\<lambda>st. Inr (st\<lparr>sst_Version := ''0.1.0''\<rparr>, ()))"

section \<open>The manager\<close>

definition filled_secret :: "time \<Rightarrow> string \<Rightarrow> SecretInfo \<Rightarrow> SecretInfo" where
  "filled_secret now i spec = spec\<lparr>si_SecretId := i, si_CreatedAt := now,
     si_Namespace := (if si_Namespace spec = [] then ''default'' else si_Namespace spec),
     si_Type := (if si_Type spec = [] then ''Opaque'' else si_Type spec),
     si_Data := (if si_Data spec = None then Some [] else si_Data spec)\<rparr>"

definition sec_StoreSecret ::
  "sec_io \<Rightarrow> time \<Rightarrow> string \<Rightarrow> SecretInfo \<Rightarrow> secret_doc disk \<Rightarrow> unit res \<times> secret_doc disk" where
  "sec_StoreSecret io now i spec = sec_withLock io (\<lambda>st.
     Inr (st\<lparr>sst_Secrets := map_set i (filled_secret now i spec) (sst_Secrets st)\<rparr>, ()))"

definition sec_GetSecretList :: "sec_io \<Rightarrow> secret_doc disk \<Rightarrow> SecretInfo list res" where
  "sec_GetSecretList io = sec_withRLock io (\<lambda>st. Inr (map snd (sst_Secrets st)))"

definition sec_GetSecretById :: "sec_io \<Rightarrow> string \<Rightarrow> secret_doc disk \<Rightarrow> SecretInfo res" where
  "sec_GetSecretById io i = sec_withRLock io (\<lambda>st. lookup_entry (''secretId='' @ i @ '' not found'') i (sst_Secrets st))"

definition sec_GetSecretByName :: "sec_io \<Rightarrow> string \<Rightarrow> string \<Rightarrow> secret_doc disk \<Rightarrow> SecretInfo res" where
  "sec_GetSecretByName io name namespace0 =
     (let namespace = (if namespace0 = [] then ''default'' else namespace0) in sec_withRLock io (\<lambda>st.
       case range_find (\<lambda>_ s. si_Name s = name \<and> si_Namespace s = namespace) (sst_Secrets st) of
         Some (_, s) \<Rightarrow> Inr s
       | None \<Rightarrow> Inl (Msg (''secret '' @ namespace @ ''/'' @ name @ '' not found''))))"

definition sec_RemoveSecret :: "sec_io \<Rightarrow> string \<Rightarrow> secret_doc disk \<Rightarrow> unit res \<times> secret_doc disk" where
  "sec_RemoveSecret io i = sec_withLock io (\<lambda>st. put_back (\<lambda>m. st\<lparr>sst_Secrets := m\<rparr>)
     (remove_entry (''secretId='' @ i @ '' not found'') i (sst_Secrets st)))"

definition sec_IsNameAlreadyUsed :: "sec_io \<Rightarrow> string \<Rightarrow> string \<Rightarrow> secret_doc disk \<Rightarrow> bool" where
  "sec_IsNameAlreadyUsed io name namespace0 d =
     (let namespace = (if namespace0 = [] then ''default'' else namespace0) in
      case sec_withRLock io (\<lambda>st. Inr (range_find (\<lambda>_ s. si_Name s = name \<and> si_Namespace s = namespace)
         (sst_Secrets st) \<noteq> None)) d of Inr b \<Rightarrow> b | Inl _ \<Rightarrow> False)"

section \<open>What the store promises\<close>

definition sec_inv :: "SecretState \<Rightarrow> bool" where
  "sec_inv st \<longleftrightarrow> keyed_by si_SecretId (sst_Secrets st)"

interpretation sec: object_store "''secret state json broken''" sec_init sec_complete sec_marshal sec_inv
    sst_Secrets "\<lambda>m st. st\<lparr>sst_Secrets := m\<rparr>" si_SecretId
  by unfold_locales (simp_all add: sec_init_def sec_complete_def sec_marshal_def sec_inv_def)

lemma sec_lock_io_ok [simp]: "sec_lock_io sec_io_ok = io_ok"
  by (simp add: sec_lock_io_def sec_io_ok_def ensurePrivateDir_def first_err_def io_ok_def)

lemma sec_save_ok: "sec_atomicSave sec_io_ok = atomicSave sec_marshal io_ok"
proof -
  have "io_ok\<lparr>write_err := first_err None None\<rparr> = io_ok" by (simp add: io_ok_def first_err_def)
  then show ?thesis by (simp add: fun_eq_iff sec_atomicSave_def sec_io_ok_def first_err_def split: prod.splits sum.splits)
qed

lemma sec_withLock_ok: "sec_withLock sec_io_ok = withLock sec_loadOrInit (atomicSave sec_marshal) io_ok"
  by (simp add: fun_eq_iff sec_withLock_def sec_save_ok withLock_def)

text \<open>A call that reports an error leaves the document alone, unless the error is that of the last \<open>Chmod\<close>.\<close>

lemma sec_withLock_outcome:
  "case sec_withLock io fn d of
     (Inl e, d') \<Rightarrow> main_file d' = main_file d \<or>
       (chmod_file_err io \<noteq> None \<and> (\<exists>st st' a. sec_loadOrInit (read_file (sec_lock_io io) d) = Inr st \<and> fn st = Inr (st', a) \<and>
          main_file d' = Some (Decoded (sec_marshal st'))))
   | (Inr a, d') \<Rightarrow> \<exists>st st'. sec_loadOrInit (read_file (sec_lock_io io) d) = Inr st \<and> fn st = Inr (st', a) \<and>
        main_file d' = Some (Decoded (sec_marshal st'))"
proof -
  have save: "main_file (snd (sec_atomicSave io st d)) = main_file d \<or>
      main_file (snd (sec_atomicSave io st d)) = Some (Decoded (sec_marshal st)) \<and>
        (fst (sec_atomicSave io st d) = Inr () \<or> chmod_file_err io \<noteq> None)"
    and ok: "fst (sec_atomicSave io st d) = Inr () \<Longrightarrow> main_file (snd (sec_atomicSave io st d)) = Some (Decoded (sec_marshal st))" for st
    using atomicSave_main [of sec_marshal "(sio_env io)\<lparr>write_err := first_err (chmod_tmp_err io) (write_err (sio_env io))\<rparr>" st d]
    by (auto simp: sec_atomicSave_def split: prod.splits sum.splits option.splits)
  show ?thesis
  proof (cases "\<exists>st st' a. lock_err (sec_lock_io io) = None \<and> sec_loadOrInit (read_file (sec_lock_io io) d) = Inr st \<and> fn st = Inr (st', a)")
    case True
    then obtain st st' a where t: "lock_err (sec_lock_io io) = None" "sec_loadOrInit (read_file (sec_lock_io io) d) = Inr st"
      "fn st = Inr (st', a)" by blast
    obtain r d' where r: "sec_atomicSave io st' d = (r, d')" by force
    show ?thesis using save [of st'] ok [of st'] r t
      by (cases r) (auto simp: sec_withLock_def withLock_def)
  next
    case False
    then show ?thesis by (auto simp: sec_withLock_def withLock_def split: option.splits sum.splits)
  qed
qed

text \<open>
  A stored secret is found under its identifier, in namespace \<open>default\<close> and of type \<open>Opaque\<close> unless it says
  otherwise, until it is removed; no other secret is affected.
\<close>

lemma sec_store_get_remove:
  assumes "disk_inv (\<lambda>r. sec_inv (sec_complete r)) d"
  shows "\<exists>d1 d2. sec_StoreSecret sec_io_ok now i spec d = (Inr (), d1) \<and>
     sec_RemoveSecret sec_io_ok i d1 = (Inr (), d2) \<and>
     (\<forall>j. sec_GetSecretById sec_io_ok j d1 =
        (if j = i then Inr (filled_secret now i spec) else sec_GetSecretById sec_io_ok j d)) \<and>
     (\<forall>j. sec_GetSecretById sec_io_ok j d2 =
        (if j = i then Inl (Msg (''secretId='' @ i @ '' not found'')) else sec_GetSecretById sec_io_ok j d))"
proof -
  have key: "si_SecretId (filled_secret now i spec) = i" by (simp add: filled_secret_def)
  obtain d1 d2 where "withLock sec_loadOrInit (atomicSave sec_marshal) io_ok
        (\<lambda>st. Inr (st\<lparr>sst_Secrets := map_set i (filled_secret now i spec) (sst_Secrets st)\<rparr>, ())) d = (Inr (), d1)"
    "withLock sec_loadOrInit (atomicSave sec_marshal) io_ok
        (\<lambda>st. put_back (\<lambda>m. st\<lparr>sst_Secrets := m\<rparr>) (remove_entry (''secretId='' @ i @ '' not found'') i (sst_Secrets st))) d1 = (Inr (), d2)"
    "\<And>e j. withRLock sec_loadOrInit io_ok (\<lambda>st. lookup_entry e j (sst_Secrets st)) d1 =
        (if j = i then Inr (filled_secret now i spec) else withRLock sec_loadOrInit io_ok (\<lambda>st. lookup_entry e j (sst_Secrets st)) d)"
    "\<And>e j. withRLock sec_loadOrInit io_ok (\<lambda>st. lookup_entry e j (sst_Secrets st)) d2 =
        (if j = i then Inl (Msg e) else withRLock sec_loadOrInit io_ok (\<lambda>st. lookup_entry e j (sst_Secrets st)) d)"
    unfolding sec_loadOrInit_def
    using sec.store_get_remove [OF assms key, of "''secretId='' @ i @ '' not found''"] by blast
  then show ?thesis
    unfolding sec_StoreSecret_def sec_RemoveSecret_def sec_GetSecretById_def sec_withLock_ok sec_withRLock_def sec_lock_io_ok
    by (intro exI [of _ d1] exI [of _ d2] conjI allI) simp_all
qed

text \<open>The last \<open>Chmod\<close> failing: the call reports an error although the secret is stored.\<close>

lemma sec_error_after_store:
  "let io = sec_io_ok\<lparr>chmod_file_err := Some e\<rparr>; (r, d') = sec_StoreSecret io now i spec empty_disk in
   r = Inl (SysErr e) \<and> sec_GetSecretById sec_io_ok i d' = Inr (filled_secret now i spec)"
proof -
  have io: "io_ok\<lparr>mkdir_err := None, open_lock_err := None\<rparr> = io_ok" "io_ok\<lparr>write_err := None\<rparr> = io_ok" by (simp_all add: io_ok_def)
  have e: "mkdir_err io_ok = None" "open_lock_err io_ok = None" "write_err io_ok = None" by (simp_all add: io_ok_def)
  show ?thesis
    by (simp add: sec_StoreSecret_def sec_GetSecretById_def sec_withLock_def sec_withRLock_def sec_atomicSave_def sec_io_ok_def sec_lock_io_def
        ensurePrivateDir_def first_err_def withLock_def withRLock_def sec_loadOrInit_def load_or_init_def read_file_io_ok empty_disk_def
        sec_init_def sec_marshal_def sec_complete_def lookup_entry_def io e)
qed

end
