(* ===== verification/Image_Store.thy ===== *)
theory Image_Store
  imports Store_Core
begin

text \<open>
  The image layer store \<open>store/ilm\<close>: for each repository and reference the paths of an unpacked image. Both levels of
  the document are Go maps that may be \<open>nil\<close>.
\<close>

section \<open>Data\<close>

record ReferenceInfo =
  rf_BundlePath :: string
  rf_ConfigPath :: string
  rf_RootfsPath :: string
  rf_CreatedAt :: time

text \<open>A \<open>RepositoryInfo\<close> is its map of references.\<close>

type_synonym RepositoryInfo = "(string, ReferenceInfo) gomap option"

record ImageLayerState =
  il_Version :: string
  il_Repositories :: "(string, RepositoryInfo) gomap option"

record ImageInfo =
  ii_Repository :: string
  ii_Reference :: string
  ii_CreatedAt :: time

section \<open>The store\<close>

text \<open>A decoded document is used as it is.\<close>

definition ilm_init :: ImageLayerState where
  "ilm_init = \<lparr>il_Version = ''0.1.0'', il_Repositories = Some []\<rparr>"

definition ilm_loadOrInit :: "ImageLayerState read_result \<Rightarrow> ImageLayerState res" where
  "ilm_loadOrInit = load_or_init ''image layer state json broken'' ilm_init (\<lambda>r. r)"

definition ilm_atomicSave :: "io_env \<Rightarrow> ImageLayerState \<Rightarrow> ImageLayerState disk \<Rightarrow> unit res \<times> ImageLayerState disk" where
  "ilm_atomicSave = atomicSave (\<lambda>st. st)"

definition ilm_withLock ::
  "io_env \<Rightarrow> (ImageLayerState \<Rightarrow> (ImageLayerState \<times> 'a) res) \<Rightarrow> ImageLayerState disk \<Rightarrow> 'a res \<times> ImageLayerState disk" where
  "ilm_withLock = withLock ilm_loadOrInit ilm_atomicSave"

definition ilm_withRLock :: "io_env \<Rightarrow> (ImageLayerState \<Rightarrow> 'a res) \<Rightarrow> ImageLayerState disk \<Rightarrow> 'a res" where
  "ilm_withRLock = withRLock ilm_loadOrInit"

definition ilm_SetConfig :: "io_env \<Rightarrow> ImageLayerState disk \<Rightarrow> unit res \<times> ImageLayerState disk" where
  "ilm_SetConfig io = ilm_withLock io (\<lambda>st.
     Inr (st\<lparr>il_Version := ''0.1.0'', il_Repositories := Some (or_empty (il_Repositories st))\<rparr>, ()))"

section \<open>The manager\<close>

text \<open>Indexing a map, \<open>nil\<close> or not, gives the zero value where there is no entry.\<close>

definition refs_of :: "string \<Rightarrow> ImageLayerState \<Rightarrow> (string, ReferenceInfo) gomap" where
  "refs_of repo st = (case map_of (or_empty (il_Repositories st)) repo of None \<Rightarrow> [] | Some m \<Rightarrow> or_empty m)"

definition ref_of :: "string \<Rightarrow> string \<Rightarrow> ImageLayerState \<Rightarrow> ReferenceInfo" where
  "ref_of repo ref st = (case map_of (refs_of repo st) ref of
     None \<Rightarrow> \<lparr>rf_BundlePath = [], rf_ConfigPath = [], rf_RootfsPath = [], rf_CreatedAt = zero_time\<rparr> | Some i \<Rightarrow> i)"

definition ilm_StoreImage ::
  "io_env \<Rightarrow> time \<Rightarrow> string \<Rightarrow> string \<Rightarrow> string \<Rightarrow> string \<Rightarrow> string \<Rightarrow> ImageLayerState disk \<Rightarrow> unit res \<times> ImageLayerState disk" where
  "ilm_StoreImage io now repo ref bundle config rootfs = ilm_withLock io (\<lambda>st.
     Inr (st\<lparr>il_Repositories := Some (map_set repo (Some (map_set ref
       \<lparr>rf_BundlePath = bundle, rf_ConfigPath = config, rf_RootfsPath = rootfs, rf_CreatedAt = now\<rparr> (refs_of repo st)))
       (or_empty (il_Repositories st)))\<rparr>, ()))"

definition image_not_found :: "string \<Rightarrow> string \<Rightarrow> go_error" where
  "image_not_found repo ref = Msg (repo @ '':'' @ ref @ '' not found'')"

definition ilm_RemoveImage :: "io_env \<Rightarrow> string \<Rightarrow> string \<Rightarrow> ImageLayerState disk \<Rightarrow> unit res \<times> ImageLayerState disk" where
  "ilm_RemoveImage io repo ref = ilm_withLock io (\<lambda>st.
     case map_of (or_empty (il_Repositories st)) repo of
       None \<Rightarrow> Inl (image_not_found repo ref)
     | Some refs \<Rightarrow>
         if map_of (or_empty refs) ref = None then Inl (image_not_found repo ref)
         else Inr (st\<lparr>il_Repositories := Some (map_set repo (Some (map_del ref (or_empty refs))) (or_empty (il_Repositories st)))\<rparr>, ()))"

definition nonempty_path :: "string \<Rightarrow> string \<Rightarrow> string res" where
  "nonempty_path what p = (if p = [] then Inl (Msg (what @ '' path not found.'')) else Inr p)"

definition ilm_GetBundlePath :: "io_env \<Rightarrow> string \<Rightarrow> string \<Rightarrow> ImageLayerState disk \<Rightarrow> string res" where
  "ilm_GetBundlePath io repo ref = ilm_withRLock io (\<lambda>st. nonempty_path ''bundle'' (rf_BundlePath (ref_of repo ref st)))"

definition ilm_GetConfigPath :: "io_env \<Rightarrow> string \<Rightarrow> string \<Rightarrow> ImageLayerState disk \<Rightarrow> string res" where
  "ilm_GetConfigPath io repo ref = ilm_withRLock io (\<lambda>st. nonempty_path ''config'' (rf_ConfigPath (ref_of repo ref st)))"

text \<open>The error text names the bundle here too.\<close>

definition ilm_GetRootfsPath :: "io_env \<Rightarrow> string \<Rightarrow> string \<Rightarrow> ImageLayerState disk \<Rightarrow> string res" where
  "ilm_GetRootfsPath io repo ref = ilm_withRLock io (\<lambda>st. nonempty_path ''bundle'' (rf_RootfsPath (ref_of repo ref st)))"

definition ilm_GetImageList :: "io_env \<Rightarrow> ImageLayerState disk \<Rightarrow> ImageInfo list res" where
  "ilm_GetImageList io = ilm_withRLock io (\<lambda>st. Inr (concat (map (\<lambda>(repo, refs).
     map (\<lambda>(ref, i). \<lparr>ii_Repository = repo, ii_Reference = ref, ii_CreatedAt = rf_CreatedAt i\<rparr>) (or_empty refs))
     (or_empty (il_Repositories st)))))"

definition ilm_GetImageInfo :: "io_env \<Rightarrow> string \<Rightarrow> string \<Rightarrow> ImageLayerState disk \<Rightarrow> ImageInfo res" where
  "ilm_GetImageInfo io repo ref = ilm_withRLock io (\<lambda>st.
     case map_of (or_empty (il_Repositories st)) repo of
       None \<Rightarrow> Inl (image_not_found repo ref)
     | Some refs \<Rightarrow> (case map_of (or_empty refs) ref of
         None \<Rightarrow> Inl (image_not_found repo ref)
       | Some i \<Rightarrow> Inr \<lparr>ii_Repository = repo, ii_Reference = ref, ii_CreatedAt = rf_CreatedAt i\<rparr>))"

text \<open>\<open>on_disk\<close>: whether \<open>os.Stat\<close> of a path succeeds.\<close>

definition ilm_IsImageExist :: "io_env \<Rightarrow> (string \<Rightarrow> bool) \<Rightarrow> string \<Rightarrow> string \<Rightarrow> ImageLayerState disk \<Rightarrow> bool" where
  "ilm_IsImageExist io on_disk repo ref d =
     (case ilm_withRLock io (\<lambda>st. Inr (map_of (refs_of repo st) ref)) d of
        Inr (Some i) \<Rightarrow> rf_ConfigPath i \<noteq> [] \<and> on_disk (rf_ConfigPath i)
      | _ \<Rightarrow> False)"

section \<open>What the manager promises\<close>

interpretation ilm: plain_store "''image layer state json broken''" ilm_init "\<lambda>r. r" "\<lambda>st. st" "\<lambda>_. True"
  by unfold_locales simp_all

lemmas ilm_unfold [store_simps] = ilm_withLock_def ilm_withRLock_def ilm_atomicSave_def ilm_loadOrInit_def

lemma ilm_load:
  assumes "disk_inv (\<lambda>_. True) d"
  obtains st where "ilm_loadOrInit (read_file io_ok d) = Inr st"
  using ilm.load_total [OF assms] by (auto simp: ilm_loadOrInit_def)

lemma ilm_paths:
  assumes "ilm_loadOrInit (read_file io_ok d) = Inr st"
  shows "ilm_GetBundlePath io_ok r f d = nonempty_path ''bundle'' (rf_BundlePath (ref_of r f st))"
    "ilm_GetConfigPath io_ok r f d = nonempty_path ''config'' (rf_ConfigPath (ref_of r f st))"
    "ilm_GetRootfsPath io_ok r f d = nonempty_path ''bundle'' (rf_RootfsPath (ref_of r f st))"
  using assms by (simp_all add: ilm_GetBundlePath_def ilm_GetConfigPath_def ilm_GetRootfsPath_def ilm_withRLock_def withRLock_io_ok)

lemma ilm_StoreImage_ok:
  assumes "ilm_loadOrInit (read_file io_ok d) = Inr st"
  obtains d' st' where "ilm_StoreImage io_ok now repo ref b c r d = (Inr (), d')" "ilm_loadOrInit (read_file io_ok d') = Inr st'"
    "\<And>x y. map_of (refs_of x st') y = (if x = repo \<and> y = ref
       then Some \<lparr>rf_BundlePath = b, rf_ConfigPath = c, rf_RootfsPath = r, rf_CreatedAt = now\<rparr> else map_of (refs_of x st) y)"
proof -
  let ?i = "\<lparr>rf_BundlePath = b, rf_ConfigPath = c, rf_RootfsPath = r, rf_CreatedAt = now\<rparr>"
  let ?st = "st\<lparr>il_Repositories := Some (map_set repo (Some (map_set ref ?i (refs_of repo st))) (or_empty (il_Repositories st)))\<rparr>"
  let ?d = "\<lparr>main_file = Some (Decoded ?st), tmp_file = None\<rparr>"
  have "ilm_StoreImage io_ok now repo ref b c r d = (Inr (), ?d)"
    using assms by (simp add: ilm_StoreImage_def ilm_withLock_def ilm_atomicSave_def withLock_io_ok)
  moreover have "ilm_loadOrInit (read_file io_ok ?d) = Inr ?st"
    by (simp add: ilm_loadOrInit_def load_or_init_def read_file_io_ok)
  moreover have "map_of (refs_of x ?st) y = (if x = repo \<and> y = ref then Some ?i else map_of (refs_of x st) y)" for x y
    by (auto simp: refs_of_def)
  ultimately show ?thesis using that by blast
qed

lemma ilm_RemoveImage_ok:
  assumes "ilm_loadOrInit (read_file io_ok d) = Inr st" and "map_of (refs_of repo st) ref \<noteq> None"
  obtains d' st' where "ilm_RemoveImage io_ok repo ref d = (Inr (), d')" "ilm_loadOrInit (read_file io_ok d') = Inr st'"
    "\<And>x y. map_of (refs_of x st') y = (if x = repo \<and> y = ref then None else map_of (refs_of x st) y)"
proof -
  obtain refs where refs: "map_of (or_empty (il_Repositories st)) repo = Some refs" "map_of (or_empty refs) ref \<noteq> None"
    using assms(2) by (auto simp: refs_of_def split: option.splits)
  let ?st = "st\<lparr>il_Repositories := Some (map_set repo (Some (map_del ref (or_empty refs))) (or_empty (il_Repositories st)))\<rparr>"
  let ?d = "\<lparr>main_file = Some (Decoded ?st), tmp_file = None\<rparr>"
  have "ilm_RemoveImage io_ok repo ref d = (Inr (), ?d)"
    using assms(1) refs by (simp add: ilm_RemoveImage_def ilm_withLock_def ilm_atomicSave_def withLock_io_ok)
  moreover have "ilm_loadOrInit (read_file io_ok ?d) = Inr ?st"
    by (simp add: ilm_loadOrInit_def load_or_init_def read_file_io_ok)
  moreover have "map_of (refs_of x ?st) y = (if x = repo \<and> y = ref then None else map_of (refs_of x st) y)" for x y
    using refs by (auto simp: refs_of_def)
  ultimately show ?thesis using that by blast
qed

text \<open>
  An image that was stored is found with the paths it was stored with until it is removed; then its repository
  remains without it, and no call touches another image.
\<close>

lemma ilm_store_remove:
  assumes "disk_inv (\<lambda>_. True) d" and "bundle \<noteq> []" and "config \<noteq> []" and "rootfs \<noteq> []"
  shows "\<exists>d1 d2. ilm_StoreImage io_ok now repo ref bundle config rootfs d = (Inr (), d1) \<and>
     ilm_GetBundlePath io_ok repo ref d1 = Inr bundle \<and> ilm_GetConfigPath io_ok repo ref d1 = Inr config \<and>
     ilm_GetRootfsPath io_ok repo ref d1 = Inr rootfs \<and>
     ilm_IsImageExist io_ok on_disk repo ref d1 = on_disk config \<and>
     ilm_RemoveImage io_ok repo ref d1 = (Inr (), d2) \<and>
     \<not> ilm_IsImageExist io_ok on_disk repo ref d2 \<and> \<not> is_ok (ilm_GetBundlePath io_ok repo ref d2) \<and>
     (\<forall>x y. (x, y) \<noteq> (repo, ref) \<longrightarrow>
        ilm_GetBundlePath io_ok x y d1 = ilm_GetBundlePath io_ok x y d \<and>
        ilm_GetBundlePath io_ok x y d2 = ilm_GetBundlePath io_ok x y d)"
proof -
  obtain st where st: "ilm_loadOrInit (read_file io_ok d) = Inr st" using ilm_load [OF assms(1)] .
  obtain d1 st1 where d1: "ilm_StoreImage io_ok now repo ref bundle config rootfs d = (Inr (), d1)"
    "ilm_loadOrInit (read_file io_ok d1) = Inr st1"
    "\<And>x y. map_of (refs_of x st1) y = (if x = repo \<and> y = ref
       then Some \<lparr>rf_BundlePath = bundle, rf_ConfigPath = config, rf_RootfsPath = rootfs, rf_CreatedAt = now\<rparr> else map_of (refs_of x st) y)"
    using ilm_StoreImage_ok [OF st] by metis
  obtain d2 st2 where d2: "ilm_RemoveImage io_ok repo ref d1 = (Inr (), d2)" "ilm_loadOrInit (read_file io_ok d2) = Inr st2"
    "\<And>x y. map_of (refs_of x st2) y = (if x = repo \<and> y = ref then None else map_of (refs_of x st1) y)"
    using ilm_RemoveImage_ok [OF d1(2), of repo ref] d1(3) by (metis option.distinct(1))
  show ?thesis
    using d1 d2 assms(2-4)
    by (auto simp: ilm_paths [OF st] ilm_paths [OF d1(2)] ilm_paths [OF d2(2)] ref_of_def nonempty_path_def
        ilm_IsImageExist_def ilm_withRLock_def withRLock_io_ok)
qed

end
