(* ===== verification/Path_Safety.thy ===== *)
theory Path_Safety
  imports Raind_Prelude
begin

text \<open>
  The path checks of \<open>utils/path_safety.go\<close>, which guard every recursive deletion. Paths are absolute, so
  \<open>filepath.Abs\<close> is \<open>filepath.Clean\<close>; a cleaned path is the list of its elements.
\<close>

section \<open>Cleaning a path\<close>

abbreviation dot :: string where "dot \<equiv> ''.''"
abbreviation dotdot :: string where "dotdot \<equiv> ''..''"

text \<open>The elements of \<open>Clean(s)\<close>: empty and \<open>.\<close> elements go, \<open>..\<close> removes the element before it, at the root itself.\<close>

definition path_elems :: "string \<Rightarrow> string list" where
  "path_elems s = filter (\<lambda>x. x \<noteq> [] \<and> x \<noteq> dot) (split_on CHR ''/'' s)"

fun resolve_dots :: "string list \<Rightarrow> string list \<Rightarrow> string list" where
  "resolve_dots acc [] = rev acc"
| "resolve_dots acc (x # xs) = (if x = dotdot then resolve_dots (tl acc) xs else resolve_dots (x # acc) xs)"

definition clean_elems :: "string \<Rightarrow> string list" where
  "clean_elems s = resolve_dots [] (path_elems s)"

definition path_string :: "string list \<Rightarrow> string" where
  "path_string es = CHR ''/'' # str_join ''/'' es"

definition clean_path :: "string \<Rightarrow> string" where
  "clean_path s = path_string (clean_elems s)"

definition join_paths :: "string list \<Rightarrow> string" where
  "join_paths ps = clean_path (str_join ''/'' (filter (\<lambda>p. p \<noteq> []) ps))"

section \<open>The checks\<close>

text \<open>
  \<open>filepath.Rel\<close> of absolute paths: \<open>.\<close> for equal ones; otherwise the elements both begin with are left out, one \<open>..\<close> stands
  for each element left of the base, and the elements left of the target follow.
\<close>

fun drop_common :: "string list \<Rightarrow> string list \<Rightarrow> string list \<times> string list" where
  "drop_common (b # bs) (t # ts) = (if b = t then drop_common bs ts else (b # bs, t # ts))"
| "drop_common bs ts = (bs, ts)"

definition Rel :: "string \<Rightarrow> string \<Rightarrow> string" where
  "Rel basepath targpath = (let base = clean_path basepath; targ = clean_path targpath in
     if targ = base then ''.''
     else case drop_common (path_elems base) (path_elems targ) of (b, t) \<Rightarrow> str_join ''/'' (map (\<lambda>_. ''..'') b @ t))"

definition IsAbs :: "string \<Rightarrow> bool" where
  "IsAbs path \<longleftrightarrow> has_prefix path ''/''"

definition EnsurePathUnderRoot :: "string \<Rightarrow> string \<Rightarrow> unit res" where
  "EnsurePathUnderRoot root path = (let absRoot = clean_path root; target = clean_path path; rel = Rel absRoot target in
     if rel = ''.'' \<or> rel = ''..'' \<or> has_prefix rel ''../'' \<or> IsAbs rel
     then Inl (Msg (''path escapes root \"'' @ root @ ''\": '' @ path)) else Inr ())"

definition SafeJoin :: "string \<Rightarrow> string list \<Rightarrow> string res" where
  "SafeJoin root elems =
     (let absRoot = clean_path root; target = join_paths (absRoot # elems)
      in case EnsurePathUnderRoot absRoot target of Inl e \<Rightarrow> Inl e | Inr _ \<Rightarrow> Inr (clean_path target))"

text \<open>\<open>rm\<close> stands for the deletion itself.\<close>

definition RemoveAllUnderRoot :: "(string \<Rightarrow> unit res) \<Rightarrow> string \<Rightarrow> string \<Rightarrow> unit res" where
  "RemoveAllUnderRoot rm root path = (case EnsurePathUnderRoot root path of Inl e \<Rightarrow> Inl e | Inr _ \<Rightarrow> rm path)"

section \<open>Cleaned paths\<close>

definition clean_elem :: "string \<Rightarrow> bool" where
  "clean_elem x \<longleftrightarrow> x \<noteq> [] \<and> x \<noteq> dot \<and> x \<noteq> dotdot \<and> CHR ''/'' \<notin> set x"

lemma split_on_elems: "x \<in> set (split_on c s) \<Longrightarrow> c \<notin> set x"
proof (induction s arbitrary: x)
  case (Cons a s)
  then show ?case by (cases "split_on c s") (auto split: if_splits)
qed simp

lemma resolve_clean:
  assumes "\<forall>x \<in> set xs. clean_elem x \<or> x = dotdot"
  shows "\<forall>x \<in> set acc. clean_elem x \<Longrightarrow> \<forall>x \<in> set (resolve_dots acc xs). clean_elem x"
  using assms
proof (induction xs arbitrary: acc)
  case (Cons x xs)
  show ?case
  proof (cases "x = dotdot")
    case True
    have "\<forall>y \<in> set (tl acc). clean_elem y" using Cons.prems(1) by (cases acc) simp_all
    with True Cons.IH [of "tl acc"] Cons.prems(2) show ?thesis by simp
  next
    case False
    then have "\<forall>y \<in> set (x # acc). clean_elem y" using Cons.prems by simp
    with False Cons.IH [of "x # acc"] Cons.prems(2) show ?thesis by simp
  qed
qed simp

lemma clean_elems_clean: "\<forall>x \<in> set (clean_elems s). clean_elem x"
  unfolding clean_elems_def
  by (rule resolve_clean) (auto simp: path_elems_def clean_elem_def dest: split_on_elems)

lemma resolve_id: "\<forall>x \<in> set xs. clean_elem x \<Longrightarrow> resolve_dots acc xs = rev acc @ xs"
  by (induction xs arbitrary: acc) (auto simp: clean_elem_def)

lemma split_on_join:
  "xs \<noteq> [] \<Longrightarrow> \<forall>x \<in> set xs. c \<notin> set x \<Longrightarrow> split_on c (str_join [c] xs) = xs"
proof (induction xs rule: induct_list012)
  case (3 x y zs)
  then show ?case by (simp add: split_on_append)
qed (simp_all add: split_on_no_sep)

lemma split_on_sep: "split_on c (s @ c # t) = split_on c s @ split_on c t"
proof (induction s)
  case (Cons a s)
  then show ?case by (cases "split_on c s") (auto split: list.splits)
qed simp

lemma path_elems_string:
  assumes "\<forall>x \<in> set es. clean_elem x"
  shows "path_elems (path_string es) = es"
proof (cases es)
  case (Cons a as)
  then have "split_on CHR ''/'' (path_string es) = [] # es"
    using assms split_on_join [of es "CHR ''/''"] by (auto simp: path_string_def clean_elem_def)
  then show ?thesis using assms by (simp add: path_elems_def filter_id_conv clean_elem_def)
qed (simp add: path_elems_def path_string_def)

lemma clean_elems_string: "\<forall>x \<in> set es. clean_elem x \<Longrightarrow> clean_elems (path_string es) = es"
  by (simp add: clean_elems_def path_elems_string resolve_id)

lemma clean_elems_clean_path [simp]: "clean_elems (clean_path s) = clean_elems s"
  by (simp add: clean_path_def clean_elems_string clean_elems_clean)

lemma clean_path_idem [simp]: "clean_path (clean_path s) = clean_path s"
  by (simp add: clean_path_def clean_elems_string clean_elems_clean)

lemma join_single:
  assumes "clean_elem x"
  shows "clean_elems (join_paths [clean_path s, x]) = clean_elems s @ [x]"
proof -
  have x: "x \<noteq> []" "CHR ''/'' \<notin> set x" using assms by (auto simp: clean_elem_def)
  have cs: "\<forall>y \<in> set (clean_elems s). clean_elem y" by (rule clean_elems_clean)
  have "path_elems (clean_path s @ ''/'' @ x) = clean_elems s @ [x]"
  proof -
    have "split_on CHR ''/'' (clean_path s @ CHR ''/'' # x) = split_on CHR ''/'' (clean_path s) @ [x]"
      using split_on_sep [of _ "clean_path s" x] split_on_no_sep [OF x(2)] by metis
    moreover have "filter (\<lambda>x. x \<noteq> [] \<and> x \<noteq> dot) (split_on CHR ''/'' (clean_path s)) = clean_elems s"
      using path_elems_string [OF cs] by (simp add: path_elems_def clean_path_def)
    ultimately show ?thesis using assms by (simp add: path_elems_def clean_elem_def)
  qed
  moreover have "clean_path s \<noteq> []" by (simp add: clean_path_def path_string_def)
  ultimately have "clean_elems (str_join ''/'' (filter (\<lambda>p. p \<noteq> []) [clean_path s, x])) = resolve_dots [] (clean_elems s @ [x])"
    using x(1) by (simp add: clean_elems_def)
  then show ?thesis using resolve_id [of "clean_elems s @ [x]" "[]"] cs assms
    by (simp add: join_paths_def)
qed

section \<open>The relative path\<close>

lemma drop_common_spec:
  "drop_common bs ts = (b, t) \<Longrightarrow> \<exists>c. bs = c @ b \<and> ts = c @ t \<and> (b = [] \<or> t = [] \<or> hd b \<noteq> hd t)"
proof (induction bs ts rule: drop_common.induct)
  case (1 b' bs t' ts)
  show ?case
  proof (cases "b' = t'")
    case True
    then obtain c where "bs = c @ b \<and> ts = c @ t \<and> (b = [] \<or> t = [] \<or> hd b \<noteq> hd t)" using 1 by auto
    with True show ?thesis by (intro exI [of _ "b' # c"]) simp
  qed (use 1 in auto)
qed auto

text \<open>The relative path of a place below the root passes the four tests, and no other does.\<close>

lemma down_passes:
  assumes t: "t \<noteq> []" "\<forall>x \<in> set t. clean_elem x"
  shows "\<not> (str_join ''/'' t = ''.'' \<or> str_join ''/'' t = ''..'' \<or> has_prefix (str_join ''/'' t) ''../'' \<or> IsAbs (str_join ''/'' t))"
proof -
  let ?r = "str_join ''/'' t"
  have s: "split_on CHR ''/'' ?r = t" using split_on_join [OF t(1)] t(2) by (auto simp: clean_elem_def)
  have hd: "clean_elem (hd t)" using t by simp
  have "hd t = dotdot" if r: "has_prefix ?r ''../''"
  proof -
    obtain r where "?r = dotdot @ CHR ''/'' # r" using r by (auto simp: has_prefix_def prefix_def)
    then have "t = dotdot # split_on CHR ''/'' r" using s split_on_append [of "CHR ''/''" dotdot r] by simp
    then show ?thesis by simp
  qed
  moreover have "hd t = []" if r: "IsAbs ?r"
  proof -
    obtain r where "?r = [] @ CHR ''/'' # r" using r by (auto simp: IsAbs_def has_prefix_def prefix_def)
    then have "t = [] # split_on CHR ''/'' r" using s split_on_append [of "CHR ''/''" "[]" r] by simp
    then show ?thesis by simp
  qed
  moreover have "t = [dot]" if "?r = ''.''" using that s by simp
  moreover have "t = [dotdot]" if "?r = ''..''" using that s by simp
  ultimately show ?thesis using hd by (auto simp: clean_elem_def)
qed

lemma up_fails: "b \<noteq> [] \<Longrightarrow> let r = str_join ''/'' (map (\<lambda>_. ''..'') b @ t) in r = ''..'' \<or> has_prefix r ''../''"
  by (cases b; cases "map (\<lambda>_. ''..'') (tl b) @ t") (auto simp: has_prefix_def)

lemma EnsurePathUnderRoot_ok: "EnsurePathUnderRoot root path = Inr () \<longleftrightarrow> strict_prefix (clean_elems root) (clean_elems path)"
proof -
  let ?b = "clean_elems root" and ?t = "clean_elems path"
  have e: "path_elems (clean_path s) = clean_elems s" for s by (simp add: clean_path_def path_elems_string clean_elems_clean)
  have same: "clean_path path = clean_path root \<longleftrightarrow> ?b = ?t" by (metis clean_elems_clean_path clean_path_def)
  obtain b t where d: "drop_common ?b ?t = (b, t)" by force
  obtain c where c: "?b = c @ b" "?t = c @ t" "b = [] \<or> t = [] \<or> hd b \<noteq> hd t" using drop_common_spec [OF d] by blast
  have clean: "\<forall>x \<in> set t. clean_elem x" using clean_elems_clean [of path] c by simp
  show ?thesis
  proof (cases "?b = ?t")
    case True
    then show ?thesis using same by (simp add: EnsurePathUnderRoot_def Rel_def)
  next
    case False
    then have r: "Rel (clean_path root) (clean_path path) = str_join ''/'' (map (\<lambda>_. ''..'') b @ t)"
      using same d by (simp add: Rel_def e Let_def)
    show ?thesis
    proof (cases "b = []")
      case True
      then have "t \<noteq> []" using False c by auto
      with True down_passes [OF _ clean] r c show ?thesis by (simp add: EnsurePathUnderRoot_def Let_def strict_prefix_def)
    next
      case b: False
      have "\<not> prefix ?b ?t" using c b by (cases b; cases t) (auto simp: prefix_def)
      moreover have "EnsurePathUnderRoot root path \<noteq> Inr ()" using up_fails [OF b, of t] r by (auto simp: EnsurePathUnderRoot_def Let_def)
      ultimately show ?thesis by (simp add: strict_prefix_def)
    qed
  qed
qed

text \<open>
  Property C25. The four tests on the relative path accept exactly the paths strictly below the root, element by element. Whatever
  elements are joined to a root, a path \<open>SafeJoin\<close> returns is clean, without any \<open>..\<close>, and strictly below the root;
  a plain name is always accepted and gives the entry of that name in the root.
\<close>

theorem SafeJoin_under_root:
  "(\<forall>p. EnsurePathUnderRoot root p = Inr () \<longleftrightarrow> strict_prefix (clean_elems root) (clean_elems p)) \<and>
   (\<forall>p. SafeJoin root elems = Inr p \<longrightarrow> clean_path p = p \<and> strict_prefix (clean_elems root) (clean_elems p) \<and>
     (\<forall>x \<in> set (clean_elems p). clean_elem x)) \<and>
   (\<forall>x. clean_elem x \<longrightarrow> SafeJoin root [x] = Inr (path_string (clean_elems root @ [x])))"
proof (intro conjI allI impI)
  fix p
  show "EnsurePathUnderRoot root p = Inr () \<longleftrightarrow> strict_prefix (clean_elems root) (clean_elems p)" by (rule EnsurePathUnderRoot_ok)
next
  fix p assume p: "SafeJoin root elems = Inr p"
  then show "clean_path p = p" by (auto simp: SafeJoin_def Let_def split: sum.splits)
  obtain u where "EnsurePathUnderRoot (clean_path root) (join_paths (clean_path root # elems)) = Inr u" "p = clean_path (join_paths (clean_path root # elems))"
    using p by (auto simp: SafeJoin_def Let_def split: sum.splits)
  then show "strict_prefix (clean_elems root) (clean_elems p)" by (simp add: EnsurePathUnderRoot_ok)
  show "\<forall>x \<in> set (clean_elems p). clean_elem x" by (rule clean_elems_clean)
next
  fix x assume x: "clean_elem x"
  have "EnsurePathUnderRoot (clean_path root) (join_paths [clean_path root, x]) = Inr ()"
    by (simp add: EnsurePathUnderRoot_ok join_single [OF x] strict_prefix_def)
  then show "SafeJoin root [x] = Inr (path_string (clean_elems root @ [x]))"
    using join_single [OF x, of root] by (simp add: SafeJoin_def Let_def clean_path_def [of "join_paths _"])
qed

theorem SafeJoin_under_root_witness:
  "SafeJoin ''/etc/raind/container'' [''01hx''] = Inr ''/etc/raind/container/01hx'' \<and>
   \<not> is_ok (SafeJoin ''/etc/raind/container'' [''../store'']) \<and> \<not> is_ok (SafeJoin ''/etc/raind/container'' ['''']) \<and>
   strict_prefix [''etc'', ''raind'', ''container''] (clean_elems ''/etc/raind/container/01hx'')"
proof -
  have a: "SafeJoin ''/etc/raind/container'' [''01hx''] = Inr ''/etc/raind/container/01hx''" by code_simp
  have b: "\<not> is_ok (SafeJoin ''/etc/raind/container'' [''../store''])" "\<not> is_ok (SafeJoin ''/etc/raind/container'' [''''])"
    "clean_elems ''/etc/raind/container'' = [''etc'', ''raind'', ''container'']"
    by code_simp+
  have "strict_prefix (clean_elems ''/etc/raind/container'') (clean_elems ''/etc/raind/container/01hx'')"
    using SafeJoin_under_root [of "''/etc/raind/container''" "[''01hx'']"] a by blast
  with a b show ?thesis by simp
qed

end
