(* ===== verification/Node_World.thy ===== *)
theory Node_World
  imports Container_Store Pod_Store Ipam_Store Image_Store Namespace_Store Service_Store Policy_Store Object_Stores
begin

text \<open>
  The world of the services of condenser: the documents of the stores they share, and the rest of the node
  (the runtime \<open>droplet\<close>, the kernel, the file system, the registry) as a value \<open>'k\<close> that calls change. Every access to a document, every
  reading of the clock and every fresh identifier takes a new tick, so its outcome is an arbitrary function of the time it happens.
\<close>

section \<open>State\<close>

record 'k node =
  nd_csm :: "container_doc disk"
  nd_psm :: "pod_doc disk"
  nd_ipam :: "IpamState disk"
  nd_ilm :: "ImageLayerState disk"
  nd_nsm :: "namespace_doc disk"
  nd_ssm :: "service_doc disk"
  nd_npm :: npm_files
  nd_netpol :: "netpol_doc disk"
  nd_rest :: 'k
  nd_tick :: nat

text \<open>The model handed to the runtime's \<open>Spec\<close>, from which droplet writes \<open>config.json\<close>.\<close>

record SpecModel =
  sm_Rootfs :: string
  sm_Cwd :: string
  sm_Command :: string
  sm_Namespace :: "string list"
  sm_NSPath :: "string list"
  sm_Hostname :: string
  sm_Env :: "string list"
  sm_Mount :: "string list"
  sm_CapAdd :: "string list"
  sm_CapDrop :: "string list"
  sm_CapBase :: "string list"
  sm_SecurityProfile :: string
  sm_SeccompJSON :: string
  sm_AppArmorProfile :: string
  sm_NoNewPrivileges :: bool
  sm_Rootless :: bool
  sm_RootlessMode :: string
  sm_RootlessRootUID :: int
  sm_RootlessRootGID :: int
  sm_HostInterface :: string
  sm_BridgeInterface :: string
  sm_ContainerInterface :: string
  sm_ContainerInterfaceAddr :: string
  sm_ContainerGateway :: string
  sm_ContainerDns :: "string list"
  sm_ImageLayer :: "string list"
  sm_UpperDir :: string
  sm_WorkDir :: string
  sm_CreateRuntimeHook :: "string list"
  sm_CreateRuntimeHookEnv :: "string list"
  sm_CreateContainerHook :: "string list"
  sm_CreateContainerHookEnv :: "string list"
  sm_PoststartHook :: "string list"
  sm_PoststartHookEnv :: "string list"
  sm_StopContainerHook :: "string list"
  sm_StopContainerHookEnv :: "string list"
  sm_PoststopHook :: "string list"
  sm_PoststopHookEnv :: "string list"
  sm_Output :: string

text \<open>Calls that leave condenser's core: to the runtime, to the network service, to the file system and to the image service.\<close>

datatype node_call =
    Runtime_Spec SpecModel
  | Runtime_Create string bool
  | Runtime_Start string bool
  | Runtime_Stop string
  | Runtime_Delete string bool
  | Runtime_Exec string bool "string list"
  | CreateForwardingRule string string string string
  | RemoveForwardingRule string string string string
  | CreateNewNetwork string
  | RemoveNetwork string
  | MkdirAll string
  | Chmod string
  | WriteFile string string
  | RemoveAll string
  | RemovePath string
  | Pull string string string
  | IssueClientCert string
  | PrepareBundle string int int
  | Commit_policies

text \<open>Questions to the host, and its answer: a text, or an error.\<close>

datatype node_query =
    StatPath string
  | RandName
  | HostOs
  | HostArch
  | HookAgentBin
  | ReadFile string

record ImageConfigObject =
  ic_Env :: "string list"
  ic_Cmd :: "string list"
  ic_Entrypoint :: "string list"
  ic_WorkingDir :: string
  ic_User :: string

text \<open>A resolved security profile; \<open>sp_Seccomp\<close> is the outcome of marshalling its filter, if it has one.\<close>

record SecurityProfile =
  sp_Name :: string
  sp_CapBase :: "string list"
  sp_Seccomp :: "string res option"
  sp_AppArmorProfile :: string
  sp_NoNewPrivileges :: bool

text \<open>
  The environment: outcomes of system calls, clock and fresh identifiers by tick, the effects of calls, the host's answers,
  \<open>shellescape.Quote\<close>, the ids of the process and the base of the rootless id mapping.
\<close>

record 'k node_env =
  ne_io :: "nat \<Rightarrow> io_env"
  ne_now :: "nat \<Rightarrow> time"
  ne_ulid :: "nat \<Rightarrow> string"
  ne_host :: host_env
  ne_call :: "node_call \<Rightarrow> 'k node \<Rightarrow> unit res \<times> 'k node"
  ne_query :: "node_query \<Rightarrow> 'k node \<Rightarrow> string res"
  ne_image_config :: "string \<Rightarrow> 'k node \<Rightarrow> ImageConfigObject res"
  ne_profile :: "string \<Rightarrow> 'k node \<Rightarrow> SecurityProfile res"
  ne_quote :: "string \<Rightarrow> string"
  ne_uid :: int
  ne_gid :: int
  ne_uid_base :: int
  ne_gid_base :: int

section \<open>Steps\<close>

definition tick :: "'k node \<Rightarrow> 'k node" where
  "tick w = w\<lparr>nd_tick := Suc (nd_tick w)\<rparr>"

definition on_csm :: "'k node_env \<Rightarrow> (io_env \<Rightarrow> time \<Rightarrow> container_doc disk \<Rightarrow> 'a \<times> container_doc disk) \<Rightarrow> 'k node \<Rightarrow> 'a \<times> 'k node" where
  "on_csm env f w = (let (r, d) = f (ne_io env (nd_tick w)) (ne_now env (nd_tick w)) (nd_csm w) in (r, tick (w\<lparr>nd_csm := d\<rparr>)))"

definition on_psm :: "'k node_env \<Rightarrow> (io_env \<Rightarrow> time \<Rightarrow> pod_doc disk \<Rightarrow> 'a \<times> pod_doc disk) \<Rightarrow> 'k node \<Rightarrow> 'a \<times> 'k node" where
  "on_psm env f w = (let (r, d) = f (ne_io env (nd_tick w)) (ne_now env (nd_tick w)) (nd_psm w) in (r, tick (w\<lparr>nd_psm := d\<rparr>)))"

definition on_ipam :: "'k node_env \<Rightarrow> (io_env \<Rightarrow> time \<Rightarrow> IpamState disk \<Rightarrow> 'a \<times> IpamState disk) \<Rightarrow> 'k node \<Rightarrow> 'a \<times> 'k node" where
  "on_ipam env f w = (let (r, d) = f (ne_io env (nd_tick w)) (ne_now env (nd_tick w)) (nd_ipam w) in (r, tick (w\<lparr>nd_ipam := d\<rparr>)))"

definition on_nsm :: "'k node_env \<Rightarrow> (io_env \<Rightarrow> time \<Rightarrow> namespace_doc disk \<Rightarrow> 'a \<times> namespace_doc disk) \<Rightarrow> 'k node \<Rightarrow> 'a \<times> 'k node" where
  "on_nsm env f w = (let (r, d) = f (ne_io env (nd_tick w)) (ne_now env (nd_tick w)) (nd_nsm w) in (r, tick (w\<lparr>nd_nsm := d\<rparr>)))"

text \<open>A reading access, to one document or to several, each at the same tick.\<close>

definition ask :: "'k node_env \<Rightarrow> (io_env \<Rightarrow> 'k node \<Rightarrow> 'a) \<Rightarrow> 'k node \<Rightarrow> 'a \<times> 'k node" where
  "ask env f w = (f (ne_io env (nd_tick w)) w, tick w)"

definition ask2 :: "'k node_env \<Rightarrow> (io_env \<Rightarrow> io_env \<Rightarrow> 'k node \<Rightarrow> 'a) \<Rightarrow> 'k node \<Rightarrow> 'a \<times> 'k node" where
  "ask2 env f w = (f (ne_io env (nd_tick w)) (ne_io env (Suc (nd_tick w))) w, tick (tick w))"

definition call :: "'k node_env \<Rightarrow> node_call \<Rightarrow> 'k node \<Rightarrow> unit res \<times> 'k node" where
  "call env c w = (let (r, w') = ne_call env c w in (r, tick w'))"

definition query :: "'k node_env \<Rightarrow> node_query \<Rightarrow> 'k node \<Rightarrow> string res \<times> 'k node" where
  "query env q w = (ne_query env q w, tick w)"

definition new_ulid :: "'k node_env \<Rightarrow> 'k node \<Rightarrow> string \<times> 'k node" where
  "new_ulid env w = (ne_ulid env (nd_tick w), tick w)"

definition clock :: "'k node_env \<Rightarrow> 'k node \<Rightarrow> time \<times> 'k node" where
  "clock env w = (ne_now env (nd_tick w), tick w)"

text \<open>
  \<open>isNotFoundErr\<close>, which the services repeat: an error that is or wraps \<open>os.ErrNotExist\<close>, or whose text says so.
\<close>

definition isNotFoundErr :: "go_error \<Rightarrow> bool" where
  "isNotFoundErr e \<longleftrightarrow>
     (case e of SysErr m \<Rightarrow> has_suffix m ''file does not exist'' | _ \<Rightarrow> False) \<or>
     str_contains (to_lower (error_text e)) ''not found'' \<or> str_contains (to_lower (error_text e)) ''no such file''"

section \<open>Which steps touch which document\<close>

lemmas step_defs = on_csm_def on_psm_def on_ipam_def on_nsm_def ask_def ask2_def query_def new_ulid_def clock_def tick_def

lemma tick_simps [simp]:
  "nd_csm (tick w) = nd_csm w" "nd_psm (tick w) = nd_psm w" "nd_ipam (tick w) = nd_ipam w" "nd_ilm (tick w) = nd_ilm w"
  "nd_nsm (tick w) = nd_nsm w" "nd_ssm (tick w) = nd_ssm w" "nd_npm (tick w) = nd_npm w" "nd_netpol (tick w) = nd_netpol w"
  "nd_rest (tick w) = nd_rest w" "nd_tick (tick w) = Suc (nd_tick w)"
  by (simp_all add: tick_def)

end
