(* ===== verification/Container_Service.thy ===== *)
theory Container_Service
  imports Node_World Path_Safety
begin

text \<open>
  The container service (\<open>core/container\<close>): create, start, stop and delete a container and list them. It keeps the container
  and address documents in step with the runtime: \<open>Create\<close> undoes its steps when a later one fails.
\<close>

section \<open>Data\<close>

record ServiceCreateModel =
  cr_Image :: string
  cr_Os :: string
  cr_Arch :: string
  cr_Command :: "string list"
  cr_Port :: "string list"
  cr_Mount :: "string list"
  cr_Device :: "string list"
  cr_Env :: "string list"
  cr_CapAdd :: "string list"
  cr_CapDrop :: "string list"
  cr_SecurityProfile :: string
  cr_Network :: string
  cr_Tty :: bool
  cr_Name :: string
  cr_BottleId :: string
  cr_PodId :: string
  cr_Rootless :: bool
  cr_RootlessMode :: string
  cr_RootlessRootUID :: int
  cr_RootlessRootGID :: int
  cr_IsPodInfra :: bool

text \<open>The service's view of a container, \<open>ContainerState\<close> of \<open>model.go\<close>.\<close>

record ContainerView =
  cv_ContainerId :: string
  cv_Name :: string
  cv_PodId :: string
  cv_State :: string
  cv_Pid :: int
  cv_Repository :: string
  cv_Reference :: string
  cv_Command :: "string list"
  cv_Address :: string
  cv_Forwards :: "ForwardInfo list"
  cv_CreatingAt :: time
  cv_CreatedAt :: time
  cv_StartedAt :: time
  cv_StoppedAt :: time

record RollbackFlag =
  rb_AllocateAddr :: bool
  rb_CSMEntry :: bool
  rb_DirectoryEnv :: bool
  rb_CgroupEntry :: bool
  rb_ForwardRule :: bool
  rb_Runtime :: bool

definition no_rollback :: RollbackFlag where
  "no_rollback = \<lparr>rb_AllocateAddr = False, rb_CSMEntry = False, rb_DirectoryEnv = False, rb_CgroupEntry = False,
     rb_ForwardRule = False, rb_Runtime = False\<rparr>"

definition zero_container :: ContainerInfo where
  "zero_container = \<lparr>cn_ContainerId = [], cn_ContainerName = [], cn_PodId = [], cn_DropletId = [], cn_SpiffeId = [], cn_State = [],
     cn_Pid = 0, cn_ExitCode = 0, cn_Reason = [], cn_Message = [], cn_LogPath = [], cn_Tty = False, cn_Repository = [], cn_Reference = [],
     cn_Command = [], cn_BottleId = [], cn_SecurityProfile = [], cn_CreatingAt = 0, cn_CreatedAt = 0, cn_StartedAt = 0, cn_StoppedAt = 0,
     cn_FinishedAt = 0, cn_Labels = None, cn_Annotaions = None, cn_Attemp = 0\<rparr>"

section \<open>Paths and names\<close>

definition ContainerRootDir :: string where "ContainerRootDir = ''/etc/raind/container''"
definition CgroupRuntimeDir :: string where "CgroupRuntimeDir = ''/sys/fs/cgroup/raind''"
definition PodInfraImage :: string where "PodInfraImage = ''registry.k8s.io/pause:3.9''"
definition PodInfraContainerNamePrefix :: string where "PodInfraContainerNamePrefix = ''condenser-pod-infra-''"

definition container_dir :: "string \<Rightarrow> string" where
  "container_dir cid = join_paths [ContainerRootDir, cid]"

definition container_path :: "string \<Rightarrow> string list \<Rightarrow> string" where
  "container_path cid es = join_paths (ContainerRootDir # cid # es)"

definition last_chars :: "nat \<Rightarrow> string \<Rightarrow> string" where
  "last_chars n s = drop (length s - n) s"

definition buildPodContainerName :: "string \<Rightarrow> string \<Rightarrow> string" where
  "buildPodContainerName base podId = (if podId = [] then base else base @ ''-'' @ last_chars 8 podId)"

definition podInfraName :: "string \<Rightarrow> string" where
  "podInfraName podId = PodInfraContainerNamePrefix @ take 12 podId"

definition isPodInfraName :: "string \<Rightarrow> string \<Rightarrow> bool" where
  "isPodInfraName name podId \<longleftrightarrow> prefix PodInfraContainerNamePrefix name \<or> name = podInfraName podId"

definition shortId :: "string \<Rightarrow> nat \<Rightarrow> string" where
  "shortId i n = take n i"

definition normalizeRootlessCreateParameter :: "ServiceCreateModel \<Rightarrow> ServiceCreateModel" where
  "normalizeRootlessCreateParameter m =
     (if cr_RootlessMode m = [] then m\<lparr>cr_RootlessMode := ''shifted-root''\<rparr>
      else if cr_RootlessMode m = ''login-root'' then m\<lparr>cr_Rootless := True\<rparr>
      else m)"

section \<open>Image references\<close>

text \<open>\<open>strings.SplitN(s, c, 2)\<close>: the text before the first \<open>c\<close>, and the text after it if there is one.\<close>

definition cut :: "char \<Rightarrow> string \<Rightarrow> string \<times> string option" where
  "cut c s = (takeWhile (\<lambda>x. x \<noteq> c) s, if c \<in> set s then Some (tl (dropWhile (\<lambda>x. x \<noteq> c) s)) else None)"

definition isRegistryHost :: "string \<Rightarrow> bool" where
  "isRegistryHost host \<longleftrightarrow> host = ''localhost'' \<or> CHR ''.'' \<in> set host \<or> CHR '':'' \<in> set host"

definition normalizeRegistry :: "string \<Rightarrow> string" where
  "normalizeRegistry reg = (if reg = ''docker.io'' \<or> reg = ''index.docker.io'' then ''registry-1.docker.io'' else reg)"

definition parseImageRef :: "string \<Rightarrow> (string \<times> string) res" where
  "parseImageRef s =
     (let (repo, ref) = (if CHR ''@'' \<in> set s then (fst (cut CHR ''@'' s), the (snd (cut CHR ''@'' s)))
          else (fst (cut CHR '':'' s), case snd (cut CHR '':'' s) of Some r \<Rightarrow> if r = [] then ''latest'' else r | None \<Rightarrow> ''latest''))
      in if repo = [] then Inl (Msg ''empty repository'')
         else
          let (registry, repo') = (case cut CHR ''/'' repo of
                (first, Some rest) \<Rightarrow> if isRegistryHost first then (normalizeRegistry first, rest) else ([], repo)
              | _ \<Rightarrow> ([], repo))
          in Inr (if registry = [] \<or> registry = ''registry-1.docker.io''
                  then (if CHR ''/'' \<in> set repo' then repo' else ''library/'' @ repo')
                  else registry @ ''/'' @ repo', ref))"

section \<open>Device mounts\<close>

text \<open>\<open>SRC[:DST[:rwm]]\<close> as a bind mount. The texts are quoted with \<open>%q\<close> in errors.\<close>

definition device_err :: "string \<Rightarrow> string \<Rightarrow> string \<Rightarrow> go_error" where
  "device_err what raw hint = Msg (''invalid --device '' @ what @ '': \"'' @ raw @ ''\" ('' @ hint @ '')'')"

definition device_mount :: "string \<Rightarrow> string \<Rightarrow> string \<Rightarrow> string \<Rightarrow> string res" where
  "device_mount raw src dst perm =
     (if src = [] \<or> dst = [] then Inl (device_err ''format'' raw ''empty path'')
      else if \<not> prefix ''/'' src \<or> \<not> prefix ''/'' dst then Inl (device_err ''format'' raw ''absolute path required'')
      else let p = to_lower perm in
        if perm \<noteq> [] \<and> CHR ''r'' \<notin> set p \<and> CHR ''w'' \<notin> set p \<and> CHR ''m'' \<notin> set p
        then Inl (device_err ''permission'' raw ''use rwm'')
        else Inr (str_join '':'' [src, dst, str_join '','' ([''bind'', ''rprivate'', ''dev''] @
               (if perm \<noteq> [] \<and> CHR ''r'' \<in> set p \<and> CHR ''w'' \<notin> set p then [''ro''] else []))]))"

fun buildDeviceMounts :: "string list \<Rightarrow> string list res" where
  "buildDeviceMounts [] = Inr []"
| "buildDeviceMounts (raw # raws) =
     (let spec = trim_space raw in
      if spec = [] then buildDeviceMounts raws
      else (case (case map trim_space (split_on CHR '':'' spec) of
              [a] \<Rightarrow> device_mount raw a a []
            | [a, b] \<Rightarrow> device_mount raw a b []
            | [a, b, c] \<Rightarrow> device_mount raw a b c
            | _ \<Rightarrow> Inl (device_err ''format'' raw ''expected SRC[:DST[:rwm]]'')) of
          Inl e \<Rightarrow> Inl e
        | Inr m \<Rightarrow> (case buildDeviceMounts raws of Inl e \<Rightarrow> Inl e | Inr ms \<Rightarrow> Inr (m # ms))))"

section \<open>Listing\<close>

definition view_of :: "Pool list \<Rightarrow> ContainerInfo \<Rightarrow> ContainerView" where
  "view_of pools c =
     (let owned = filter (\<lambda>(_, a). al_ContainerId a = cn_ContainerId c) (concat (map allocs pools))
      in \<lparr>cv_ContainerId = cn_ContainerId c, cv_Name = cn_ContainerName c, cv_PodId = cn_PodId c, cv_State = cn_State c,
          cv_Pid = cn_Pid c, cv_Repository = cn_Repository c, cv_Reference = cn_Reference c, cv_Command = cn_Command c,
          cv_Address = (if owned = [] then [] else fst (last owned)), cv_Forwards = concat (map (al_Forwards \<circ> snd) owned),
          cv_CreatingAt = cn_CreatingAt c, cv_CreatedAt = cn_CreatedAt c, cv_StartedAt = cn_StartedAt c, cv_StoppedAt = cn_StoppedAt c\<rparr>)"

definition buildContainerStateList :: "'k node_env \<Rightarrow> ContainerInfo list \<Rightarrow> 'k node \<Rightarrow> ContainerView list res \<times> 'k node" where
  "buildContainerStateList env cs =
     and_then (ask env (\<lambda>io w. ipam_GetPoolList (ne_host env) io (nd_ipam w))) (\<lambda>pools w. (Inr (map (view_of pools) cs), w))"

definition GetContainerList :: "'k node_env \<Rightarrow> 'k node \<Rightarrow> ContainerView list res \<times> 'k node" where
  "GetContainerList env = and_then (ask env (\<lambda>io w. csm_GetContainerList io (nd_csm w))) (buildContainerStateList env)"

definition GetContainersByPodId :: "'k node_env \<Rightarrow> string \<Rightarrow> 'k node \<Rightarrow> ContainerView list res \<times> 'k node" where
  "GetContainersByPodId env podId =
     and_then (ask env (\<lambda>io w. csm_GetContainersByPodId io podId (nd_csm w))) (buildContainerStateList env)"

definition Container_GetContainerById :: "'k node_env \<Rightarrow> string \<Rightarrow> 'k node \<Rightarrow> ContainerView res \<times> 'k node" where
  "Container_GetContainerById env cid =
     and_then (ask env (\<lambda>io w. csm_GetContainerById io cid (nd_csm w))) (\<lambda>c.
     and_then (ask env (\<lambda>io w. ipam_GetNetworkInfoById (ne_host env) io cid (nd_ipam w))) (\<lambda>(addr, a) w.
       (Inr \<lparr>cv_ContainerId = cn_ContainerId c, cv_Name = [], cv_PodId = cn_PodId c, cv_State = cn_State c,
          cv_Pid = cn_Pid c, cv_Repository = cn_Repository c, cv_Reference = cn_Reference c, cv_Command = cn_Command c,
          cv_Address = addr, cv_Forwards = al_Forwards a,
          cv_CreatingAt = cn_CreatingAt c, cv_CreatedAt = cn_CreatedAt c, cv_StartedAt = cn_StartedAt c, cv_StoppedAt = cn_StoppedAt c\<rparr>, w)))"

definition container_not_found :: "string \<Rightarrow> go_error" where
  "container_not_found s = Msg (''container: '' @ s @ '' not found'')"

text \<open>\<open>ResolveContainerId\<close>, whose error every operation replaces by its own.\<close>

definition resolve_container :: "'k node_env \<Rightarrow> string \<Rightarrow> 'k node \<Rightarrow> string res \<times> 'k node" where
  "resolve_container env s w = (case ask2 env (\<lambda>io1 io2 w. csm_ResolveContainerId io1 io2 s (nd_csm w)) w of
     (Inl _, w') \<Rightarrow> (Inl (container_not_found s), w') | (Inr cid, w') \<Rightarrow> (Inr cid, w'))"

definition GetContainerLogPath :: "'k node_env \<Rightarrow> string \<Rightarrow> 'k node \<Rightarrow> string res \<times> 'k node" where
  "GetContainerLogPath env s = and_then (resolve_container env s) (\<lambda>cid. ask env (\<lambda>io w. csm_GetLogPath io cid (nd_csm w)))"

definition Container_Exec :: "'k node_env \<Rightarrow> string \<Rightarrow> bool \<Rightarrow> string list \<Rightarrow> 'k node \<Rightarrow> unit res \<times> 'k node" where
  "Container_Exec env s tty entrypoint = and_then (resolve_container env s) (\<lambda>cid. call env (Runtime_Exec cid tty entrypoint))"

section \<open>Forwarding rules, addresses, directories\<close>

definition itoa_forward :: "(string \<Rightarrow> string \<Rightarrow> string \<Rightarrow> string \<Rightarrow> node_call) \<Rightarrow> string \<Rightarrow> ForwardInfo \<Rightarrow> node_call" where
  "itoa_forward c cid f = c cid (itoa (fi_HostPort f)) (itoa (fi_ContainerPort f)) (fi_Protocol f)"

fun call_all :: "'k node_env \<Rightarrow> node_call list \<Rightarrow> 'k node \<Rightarrow> unit res \<times> 'k node" where
  "call_all env [] w = (Inr (), w)"
| "call_all env (c # cs) w = and_then (call env c) (\<lambda>_. call_all env cs) w"

definition forward_rules :: "'k node_env \<Rightarrow> (string \<Rightarrow> string \<Rightarrow> string \<Rightarrow> string \<Rightarrow> node_call) \<Rightarrow> string \<Rightarrow> 'k node \<Rightarrow> unit res \<times> 'k node" where
  "forward_rules env c cid =
     and_then (ask env (\<lambda>io w. ipam_GetForwardInfo (ne_host env) io cid (nd_ipam w))) (\<lambda>fs. call_all env (map (itoa_forward c cid) fs))"

definition cleanupForwardRules :: "'k node_env \<Rightarrow> string \<Rightarrow> 'k node \<Rightarrow> unit res \<times> 'k node" where
  "cleanupForwardRules env = forward_rules env RemoveForwardingRule"

definition restoreForwardRules :: "'k node_env \<Rightarrow> string \<Rightarrow> 'k node \<Rightarrow> unit res \<times> 'k node" where
  "restoreForwardRules env = forward_rules env CreateForwardingRule"

definition releaseAddress :: "'k node_env \<Rightarrow> string \<Rightarrow> 'k node \<Rightarrow> unit res \<times> 'k node" where
  "releaseAddress env cid = on_ipam env (\<lambda>io _. ipam_Release (ne_host env) io cid)"

definition deleteContainerDirectory :: "'k node_env \<Rightarrow> string \<Rightarrow> 'k node \<Rightarrow> unit res \<times> 'k node" where
  "deleteContainerDirectory env cid w =
     (case SafeJoin ContainerRootDir [cid] of Inl e \<Rightarrow> (Inl e, w)
      | Inr dir \<Rightarrow> (case EnsurePathUnderRoot ContainerRootDir dir of Inl e \<Rightarrow> (Inl e, w) | Inr _ \<Rightarrow> call env (RemoveAll dir) w))"

definition deleteCgroupSubtree :: "'k node_env \<Rightarrow> string \<Rightarrow> 'k node \<Rightarrow> unit res \<times> 'k node" where
  "deleteCgroupSubtree env cid w =
     (case SafeJoin CgroupRuntimeDir [cid] of Inl e \<Rightarrow> (Inl e, w) | Inr dir \<Rightarrow> call env (RemovePath dir) w)"

definition isBusyErr :: "go_error \<Rightarrow> bool" where
  "isBusyErr e = (case e of SysErr m \<Rightarrow> has_suffix m ''device or resource busy'' | _ \<Rightarrow> False)"

section \<open>Start, stop, delete\<close>

definition deleteContainer :: "'k node_env \<Rightarrow> string \<Rightarrow> bool \<Rightarrow> 'k node \<Rightarrow> unit res \<times> 'k node" where
  "deleteContainer env cid force = call env (Runtime_Delete cid force)"

definition createContainer :: "'k node_env \<Rightarrow> string \<Rightarrow> bool \<Rightarrow> 'k node \<Rightarrow> unit res \<times> 'k node" where
  "createContainer env cid tty = call env (Runtime_Create cid tty)"

definition startContainer :: "'k node_env \<Rightarrow> string \<Rightarrow> bool \<Rightarrow> 'k node \<Rightarrow> unit res \<times> 'k node" where
  "startContainer env cid tty = call env (Runtime_Start cid tty)"

definition stopContainer :: "'k node_env \<Rightarrow> string \<Rightarrow> 'k node \<Rightarrow> unit res \<times> 'k node" where
  "stopContainer env cid = call env (Runtime_Stop cid)"

definition joinContainer :: "'k node_env \<Rightarrow> string \<Rightarrow> bool \<Rightarrow> string \<Rightarrow> 'k node \<Rightarrow> unit res \<times> 'k node" where
  "joinContainer env cid tty podId =
     and_then (ask env (\<lambda>io w. psm_GetPodById io podId (nd_psm w))) (\<lambda>pod w.
       if pd_OwnerPid pod \<le> 0
       then createContainer env cid tty (ignore (on_psm env (\<lambda>io _. psm_ResetPodNamespaces io podId)) w)
       else call env (Runtime_Create cid tty) w)"

definition managed_by_bottle :: "string \<Rightarrow> string \<Rightarrow> string \<Rightarrow> string \<Rightarrow> go_error" where
  "managed_by_bottle kind s bottle sub = Msg (''direct '' @ kind @ '' of container: '' @ s @
     '' is not supported as it'' @ [CHR 0x27] @ ''s managed by bottle: '' @ bottle @ ''.'' @ [CHR 0x0A] @ ''use '' @ [CHR 0x27] @
     ''raind bottle '' @ sub @ '' <bottle-id|bottle-name>'' @ [CHR 0x27])"

definition not_allowed :: "string \<Rightarrow> string \<Rightarrow> go_error" where
  "not_allowed op st = Msg (op @ '' operation not allowed to current container status: '' @ st)"

text \<open>The error of \<open>GetContainerById\<close> is dropped: the zero value has no bottle and no state.\<close>

definition container_info :: "'k node_env \<Rightarrow> string \<Rightarrow> 'k node \<Rightarrow> ContainerInfo \<times> 'k node" where
  "container_info env cid = ask env (\<lambda>io w. or_default zero_container (csm_GetContainerById io cid (nd_csm w)))"

definition Container_Start :: "'k node_env \<Rightarrow> string \<Rightarrow> bool \<Rightarrow> bool \<Rightarrow> 'k node \<Rightarrow> string res \<times> 'k node" where
  "Container_Start env s tty opBottle =
     and_then (resolve_container env s) (\<lambda>cid w.
       let (info, w1) = container_info env cid w in
       if cn_BottleId info \<noteq> [] \<and> \<not> opBottle then (Inl (managed_by_bottle ''operation'' s (cn_BottleId info) ''start''), w1)
       else if cn_State info = ''created'' then
         and_then (wrapped ''start container failed'' (startContainer env cid tty)) (\<lambda>_ w. (Inr cid, w)) w1
       else if cn_State info = ''running'' then (Inl (Msg (''container: '' @ cid @ '' already started'')), w1)
       else if cn_State info = ''stopped'' then
         and_then (ask env (\<lambda>io w. csm_GetContainerById io cid (nd_csm w))) (\<lambda>info.
         and_then (wrapped ''start container failed''
            (if cn_PodId info \<noteq> [] then joinContainer env cid (cn_Tty info) (cn_PodId info) else createContainer env cid (cn_Tty info))) (\<lambda>_.
         and_then (wrapped ''restore forward rule failed'' (restoreForwardRules env cid)) (\<lambda>_.
         and_then (wrapped ''start container failed'' (startContainer env cid (cn_Tty info))) (\<lambda>_ w. (Inr cid, w))))) w1
       else (Inl (not_allowed ''start'' (cn_State info)), w1))"

definition Container_Stop :: "'k node_env \<Rightarrow> string \<Rightarrow> bool \<Rightarrow> 'k node \<Rightarrow> string res \<times> 'k node" where
  "Container_Stop env s opBottle =
     and_then (resolve_container env s) (\<lambda>cid w.
       let (info, w1) = container_info env cid w in
       if cn_BottleId info \<noteq> [] \<and> \<not> opBottle then (Inl (managed_by_bottle ''operation'' s (cn_BottleId info) ''stop''), w1)
       else if cn_State info = ''running'' then
         and_then (wrapped ''stop failed'' (stopContainer env cid)) (\<lambda>_ w.
           (Inr cid, if cn_PodId info \<noteq> [] \<and> \<not> prefix PodInfraContainerNamePrefix (cn_ContainerName info)
              then ignore (on_psm env (\<lambda>io now. psm_UpdatePod io now (cn_PodId info) ''degraded'')) w else w)) w1
       else (Inl (not_allowed ''stop'' (cn_State info)), w1))"

definition removeContainer :: "'k node_env \<Rightarrow> string \<Rightarrow> 'k node \<Rightarrow> unit res \<times> 'k node" where
  "removeContainer env cid = on_csm env (\<lambda>io _. csm_RemoveContainer io cid)"

definition Container_Delete :: "'k node_env \<Rightarrow> string \<Rightarrow> bool \<Rightarrow> 'k node \<Rightarrow> string res \<times> 'k node" where
  "Container_Delete env s opBottle =
     and_then (resolve_container env s) (\<lambda>cid w.
       let (info, w1) = container_info env cid w in
       if cn_BottleId info \<noteq> [] \<and> \<not> opBottle then (Inl (managed_by_bottle ''delete operation'' s (cn_BottleId info) ''rm''), w1)
       else if cn_State info \<in> {''creating'', ''created'', ''stopped''} then
         and_then (wrapped ''delete container failed'' (deleteContainer env cid (cn_State info \<noteq> ''stopped''))) (\<lambda>_.
         and_then (wrapped ''cleanup forward rule failed'' (cleanupForwardRules env cid)) (\<lambda>_.
         and_then (wrapped ''release address failed'' (releaseAddress env cid)) (\<lambda>_.
         and_then (wrapped ''delete container directory failed'' (deleteContainerDirectory env cid)) (\<lambda>_.
         and_then (wrapped ''delete cgroup subtree failed'' (tolerate isNotFoundErr (deleteCgroupSubtree env cid))) (\<lambda>_.
         and_then (wrapped ''remove container state failed'' (tolerate isNotFoundErr (removeContainer env cid))) (\<lambda>_ w. (Inr cid, w))))))) w1
       else (Inl (not_allowed ''delete'' (cn_State info)), w1))"

end
