(* ===== verification/Container_Create.thy ===== *)
theory Container_Create
  imports Container_Service
begin

text \<open>
  Creating a container (\<open>core/container/service_create.go\<close>): the steps of \<open>Create\<close> with the flags that say which of them a
  failure has to undo, the infrastructure container of a pod, and the specification handed to the runtime. Progress reports
  are left out.
\<close>

section \<open>Texts\<close>

text \<open>\<open>strconv.Atoi\<close> with its error ignored: 0 for what is no number, the nearest \<open>int\<close> for a number out of range.\<close>

definition digits_value :: "string \<Rightarrow> int option" where
  "digits_value s = (if s \<noteq> [] \<and> (\<forall>c \<in> set s. CHR ''0'' \<le> c \<and> c \<le> CHR ''9'')
     then Some (foldl (\<lambda>n c. 10 * n + (of_char c - 48)) 0 s) else None)"

definition atoi_or_zero :: "string \<Rightarrow> int" where
  "atoi_or_zero s =
     (let (neg, ds) = (case s of c # cs \<Rightarrow> if c = CHR ''-'' then (True, cs) else if c = CHR ''+'' then (False, cs) else (False, s) | [] \<Rightarrow> (False, s))
      in case digits_value ds of None \<Rightarrow> 0
         | Some n \<Rightarrow> if neg then max (- (2 ^ 63)) (- n) else min (2 ^ 63 - 1) n)"

text \<open>The search domains of \<open>resolv.conf\<close>: trimmed, not empty, each once.\<close>

definition add_domain :: "string \<Rightarrow> string list \<Rightarrow> string list" where
  "add_domain d0 ds = (let d = trim_space d0 in if d = [] \<or> d \<in> set ds then ds else ds @ [d])"

definition resolvSearchDomains :: "'k node_env \<Rightarrow> string \<Rightarrow> string \<Rightarrow> 'k node \<Rightarrow> string list \<times> 'k node" where
  "resolvSearchDomains env network podId w =
     (let (ds, w1) = (if podId = [] then ([], w)
          else case ask env (\<lambda>io w. psm_GetPodById io podId (nd_psm w)) w of
            (Inl _, w1) \<Rightarrow> ([], w1)
          | (Inr pod, w1) \<Rightarrow>
              (let ns = trim_space (pd_Namespace pod) in
               (add_domain ''cluster.local'' (add_domain ''svc.cluster.local''
                  (if ns = [] then [] else add_domain (ns @ ''.svc.cluster.local'') [])), w1)))
      in (if network = [] then ds else add_domain (network @ ''.raind'') ds, w1))"

section \<open>Preparing the container\<close>

fun generate_name :: "'k node_env \<Rightarrow> nat \<Rightarrow> 'k node \<Rightarrow> string res \<times> 'k node" where
  "generate_name env n w =
     (case query env RandName w of
        (Inl e, w1) \<Rightarrow> (Inl e, w1)
      | (Inr name, w1) \<Rightarrow>
          (case ask env (\<lambda>io w. csm_IsNameAlreadyUsed io name (nd_csm w)) w1 of (used, w2) \<Rightarrow>
             if \<not> used then (Inr name, w2)
             else (case n of 0 \<Rightarrow> (Inl (Msg ''cannot assign random name''), w2) | Suc m \<Rightarrow> generate_name env m w2)))"

declare generate_name.simps [simp del]

text \<open>\<open>genCount\<close> goes from 0 to 10.\<close>

definition generateContainerName :: "'k node_env \<Rightarrow> 'k node \<Rightarrow> string res \<times> 'k node" where
  "generateContainerName env = generate_name env 10"

text \<open>An answer that cannot be an error.\<close>

definition query_or :: "'k node_env \<Rightarrow> string \<Rightarrow> node_query \<Rightarrow> 'k node \<Rightarrow> string res \<times> 'k node" where
  "query_or env z q w = (case query env q w of (r, w1) \<Rightarrow> (Inr (or_default z r), w1))"

definition pullImage :: "'k node_env \<Rightarrow> string \<Rightarrow> string \<Rightarrow> string \<Rightarrow> 'k node \<Rightarrow> unit res \<times> 'k node" where
  "pullImage env img os arch =
     and_then (if os = [] then query_or env [] HostOs else (\<lambda>w. (Inr os, w))) (\<lambda>targetOs.
     and_then (if arch = [] then query env HostArch else (\<lambda>w. (Inr arch, w))) (\<lambda>targetArch.
     call env (Pull img targetOs targetArch)))"

definition setupContainerDirectory :: "'k node_env \<Rightarrow> string \<Rightarrow> 'k node \<Rightarrow> unit res \<times> 'k node" where
  "setupContainerDirectory env cid = call_all env (map (\<lambda>es. MkdirAll (container_path cid es))
     [[], [''diff''], [''work''], [''merged''], [''etc''], [''logs''], [''cert'']])"

definition setupEtcFiles :: "'k node_env \<Rightarrow> string \<Rightarrow> string \<Rightarrow> string \<Rightarrow> string \<Rightarrow> string \<Rightarrow> 'k node \<Rightarrow> unit res \<times> 'k node" where
  "setupEtcFiles env cid addr gateway network podId =
     and_then (call env (WriteFile (container_path cid [''etc'', ''hosts''])
       (''127.0.0.1 localhost'' @ [CHR 0x0A] @ fst (cut CHR ''/'' addr) @ '' '' @ cid @ [CHR 0x0A]))) (\<lambda>_.
     and_then (call env (WriteFile (container_path cid [''etc'', ''hostname'']) (cid @ [CHR 0x0A]))) (\<lambda>_ w.
       let (ds, w1) = resolvSearchDomains env network podId w in
       call env (WriteFile (container_path cid [''etc'', ''resolv.conf''])
         (''nameserver '' @ (if gateway = [] then ''8.8.8.8'' else gateway) @ [CHR 0x0A] @
          (if ds = [] then [] else ''search '' @ str_join '' '' ds @ [CHR 0x0A]))) w1))"

definition setupCgroupSubtree :: "'k node_env \<Rightarrow> string \<Rightarrow> 'k node \<Rightarrow> unit res \<times> 'k node" where
  "setupCgroupSubtree env cid = call env (MkdirAll (join_paths [CgroupRuntimeDir, cid]))"

definition ChangeCgroupMode :: "'k node_env \<Rightarrow> string \<Rightarrow> 'k node \<Rightarrow> unit res \<times> 'k node" where
  "ChangeCgroupMode env cid = call env (Chmod (join_paths [CgroupRuntimeDir, cid]))"

text \<open>Gateway and address; the address stays allocated when the gateway cannot be read.\<close>

definition allocateAddress :: "'k node_env \<Rightarrow> string \<Rightarrow> string \<Rightarrow> 'k node \<Rightarrow> (string \<times> string) res \<times> 'k node" where
  "allocateAddress env cid bridge =
     and_then (on_ipam env (\<lambda>io now. ipam_Allocate (ne_host env) io now cid bridge)) (\<lambda>addr.
     and_then (ask env (\<lambda>io w. ipam_GetBridgeAddr (ne_host env) io bridge (nd_ipam w))) (\<lambda>gw w.
       (Inr (hd (split_on CHR ''/'' gw), addr @ ''/24''), w)))"

fun setupForwardRule :: "'k node_env \<Rightarrow> string \<Rightarrow> string list \<Rightarrow> 'k node \<Rightarrow> unit res \<times> 'k node" where
  "setupForwardRule env cid [] w = (Inr (), w)"
| "setupForwardRule env cid (port # ports) w =
     (case (case split_on CHR '':'' port of [s, d] \<Rightarrow> Some (s, d, ''tcp'') | [s, d, p] \<Rightarrow> Some (s, d, p) | _ \<Rightarrow> None) of
        None \<Rightarrow> (Inl (Msg (''port format failed: '' @ port)), w)
      | Some (sport, dport, protocol) \<Rightarrow>
          and_then (call env (CreateForwardingRule cid sport dport protocol)) (\<lambda>_.
          and_then (on_ipam env (\<lambda>io _. ipam_SetForwardInfo (ne_host env) io cid (atoi_or_zero sport) (atoi_or_zero dport) protocol)) (\<lambda>_.
          setupForwardRule env cid ports)) w)"

definition rootlessRuntimeHostRootID :: "'k node_env \<Rightarrow> ServiceCreateModel \<Rightarrow> int \<times> int" where
  "rootlessRuntimeHostRootID env m =
     (if cr_RootlessMode m = ''login-root''
      then (if cr_RootlessRootUID m \<le> 0 then ne_uid env else cr_RootlessRootUID m,
            if cr_RootlessRootGID m \<le> 0 then ne_gid env else cr_RootlessRootGID m)
      else (ne_uid_base env, ne_gid_base env))"

section \<open>The specification\<close>

text \<open>Whether all of some paths exist, asked one after the other until one does not.\<close>

fun all_exist :: "'k node_env \<Rightarrow> string list \<Rightarrow> 'k node \<Rightarrow> bool \<times> 'k node" where
  "all_exist env [] w = (True, w)"
| "all_exist env (p # ps) w =
     (if p = [] then (False, w)
      else case query env (StatPath p) w of (Inl _, w1) \<Rightarrow> (False, w1) | (Inr _, w1) \<Rightarrow> all_exist env ps w1)"

definition joinable :: "PodInfo \<Rightarrow> bool" where
  "joinable p \<longleftrightarrow> pd_NetworkNS p \<noteq> [] \<and> pd_IPCNS p \<noteq> [] \<and> pd_UTSNS p \<noteq> []"

definition own_namespaces :: "bool \<Rightarrow> string list \<times> string list" where
  "own_namespaces rootless = ([''mount'', ''network'', ''uts'', ''pid'', ''ipc'', ''cgroup''] @ (if rootless then [''user''] else []), [])"

text \<open>The namespaces of the container: its own, or those of its pod while they exist; stale ones are forgotten.\<close>

definition choose_namespaces :: "'k node_env \<Rightarrow> bool \<Rightarrow> string \<Rightarrow> 'k node \<Rightarrow> (string list \<times> string list) res \<times> 'k node" where
  "choose_namespaces env rootless podId w =
     (if podId = [] then (Inr (own_namespaces rootless), w)
      else and_then (ask env (\<lambda>io w. psm_GetPodById io podId (nd_psm w))) (\<lambda>pod w.
        if \<not> joinable pod then (Inr (own_namespaces rootless), w)
        else (case all_exist env ([pd_NetworkNS pod, pd_IPCNS pod, pd_UTSNS pod] @ (if pd_UserNS pod = [] then [] else [pd_UserNS pod])) w of
            (False, w1) \<Rightarrow> (Inr (own_namespaces rootless), ignore (on_psm env (\<lambda>io _. psm_ResetPodNamespaces io podId)) w1)
          | (True, w1) \<Rightarrow> (Inr ([''mount'', ''pid'', ''cgroup''] @ (if rootless then [''user''] else []),
               [''network='' @ pd_NetworkNS pod, ''ipc='' @ pd_IPCNS pod, ''uts='' @ pd_UTSNS pod]), w1))) w)"

definition buildCommand :: "(string \<Rightarrow> string) \<Rightarrow> string list \<Rightarrow> string list \<Rightarrow> string" where
  "buildCommand quote entrypoint cmd = str_join '' '' (map quote (entrypoint @ cmd))"

definition hook_command :: "string \<Rightarrow> string \<Rightarrow> string \<Rightarrow> string \<Rightarrow> string \<Rightarrow> string" where
  "hook_command agent url event crt key = str_join '','' [agent, ''--url'', url, ''--event'', event,
     ''--ca'', ''/etc/raind/cert/raind.crt'', ''--cert'', crt, ''--key'', key]"

definition container_hook :: "string \<Rightarrow> string \<Rightarrow> string \<Rightarrow> string \<Rightarrow> string" where
  "container_hook agent addr cid event = hook_command agent (''https://'' @ addr @ '':7756/v1/hooks/droplet'') event
     (container_path cid [''/cert/client.crt'']) (container_path cid [''/cert/client.key''])"

abbreviation hook_setter :: string where
  "hook_setter \<equiv> ''RAIND-HOOK-SETTER=CONDENSER''"

definition createContainerSpec ::
  "'k node_env \<Rightarrow> string \<Rightarrow> ServiceCreateModel \<Rightarrow> string \<Rightarrow> string \<Rightarrow> ImageConfigObject \<Rightarrow> string \<Rightarrow> string \<Rightarrow> string \<Rightarrow> string \<Rightarrow>
     'k node \<Rightarrow> unit res \<times> 'k node" where
  "createContainerSpec env cid m repo ref conf bridge addr gateway podId =
     and_then (choose_namespaces env (cr_Rootless m) podId) (\<lambda>(namespace, nspath).
     and_then (\<lambda>w. (buildDeviceMounts (cr_Device m), w)) (\<lambda>devices.
     and_then (ask env (\<lambda>io w. ipam_GetDefaultInterface (ne_host env) io (nd_ipam w))) (\<lambda>host.
     and_then (ask env (\<lambda>io w. ilm_GetRootfsPath io repo ref (nd_ilm w))) (\<lambda>layer.
     and_then (ask env (\<lambda>io w. ipam_GetDefaultInterfaceAddr (ne_host env) io (nd_ipam w))) (\<lambda>hostAddr.
     and_then (query_or env ''/usr/local/bin/condenser-hook-agent'' HookAgentBin) (\<lambda>agent.
     and_then (ask env (\<lambda>_ w. ne_profile env (cr_SecurityProfile m) w)) (\<lambda>profile.
     and_then (\<lambda>w. (case sp_Seccomp profile of None \<Rightarrow> Inr []
        | Some (Inl e) \<Rightarrow> Inl (wrap ''marshal security profile seccomp failed'' e) | Some (Inr s) \<Rightarrow> Inr s, w)) (\<lambda>seccomp.
     let hook = container_hook agent (hd (split_on CHR ''/'' hostAddr)) cid in
     call env (Runtime_Spec
       \<lparr>sm_Rootfs = container_path cid [''merged''],
        sm_Cwd = (if ic_WorkingDir conf = [] then ''/'' else ic_WorkingDir conf),
        sm_Command = (if cr_Command m \<noteq> [] then buildCommand (ne_quote env) (cr_Command m) []
          else buildCommand (ne_quote env) (ic_Entrypoint conf) (ic_Cmd conf)),
        sm_Namespace = namespace, sm_NSPath = nspath,
        sm_Hostname = (if podId = [] then cid else shortId podId 12),
        sm_Env = ic_Env conf @ cr_Env m, sm_Mount = cr_Mount m @ devices,
        sm_CapAdd = cr_CapAdd m, sm_CapDrop = cr_CapDrop m, sm_CapBase = sp_CapBase profile,
        sm_SecurityProfile = sp_Name profile, sm_SeccompJSON = seccomp, sm_AppArmorProfile = sp_AppArmorProfile profile,
        sm_NoNewPrivileges = sp_NoNewPrivileges profile, sm_Rootless = cr_Rootless m, sm_RootlessMode = cr_RootlessMode m,
        sm_RootlessRootUID = cr_RootlessRootUID m, sm_RootlessRootGID = cr_RootlessRootGID m,
        sm_HostInterface = host, sm_BridgeInterface = bridge, sm_ContainerInterface = ''rd_'' @ cid,
        sm_ContainerInterfaceAddr = addr, sm_ContainerGateway = gateway, sm_ContainerDns = [''8.8.8.8''],
        sm_ImageLayer = [layer], sm_UpperDir = container_path cid [''diff''], sm_WorkDir = container_path cid [''work''],
        sm_CreateRuntimeHook = [hook_command agent ''https://localhost:7757/v1/pki/sign'' ''requestCert''
            ''/etc/raind/cert/raindHookClient.crt'' ''/etc/raind/cert/raindHookClient.key'', hook ''createRuntime''],
        sm_CreateRuntimeHookEnv = [hook_setter, hook_setter],
        sm_CreateContainerHook = [hook ''createContainer''], sm_CreateContainerHookEnv = [hook_setter],
        sm_PoststartHook = [hook ''poststart''], sm_PoststartHookEnv = [hook_setter],
        sm_StopContainerHook = [hook ''stopContainer''], sm_StopContainerHookEnv = [hook_setter],
        sm_PoststopHook = [hook ''poststop''], sm_PoststopHookEnv = [hook_setter],
        sm_Output = container_path cid []\<rparr>)))))))))"

section \<open>Undoing a failed creation\<close>

definition undo :: "bool \<Rightarrow> ('w \<Rightarrow> unit res \<times> 'w) \<Rightarrow> 'w \<Rightarrow> unit res \<times> 'w" where
  "undo flag f w = (if flag then f w else (Inr (), w))"

definition rollback :: "'k node_env \<Rightarrow> RollbackFlag \<Rightarrow> string \<Rightarrow> 'k node \<Rightarrow> unit res \<times> 'k node" where
  "rollback env fl cid =
     and_then (undo (rb_Runtime fl) (tolerate isNotFoundErr (deleteContainer env cid True))) (\<lambda>_.
     and_then (undo (rb_AllocateAddr fl) (releaseAddress env cid)) (\<lambda>_.
     and_then (undo (rb_CSMEntry fl) (tolerate isNotFoundErr (removeContainer env cid))) (\<lambda>_.
     and_then (undo (rb_DirectoryEnv fl) (deleteContainerDirectory env cid)) (\<lambda>_.
     and_then (undo (rb_CgroupEntry fl) (tolerate (\<lambda>e. isNotFoundErr e \<or> isBusyErr e) (deleteCgroupSubtree env cid))) (\<lambda>_.
     undo (rb_ForwardRule fl) (cleanupForwardRules env cid))))))"

text \<open>A step of the body: on an error the body ends with the flags set so far.\<close>

definition step :: "RollbackFlag \<Rightarrow> ('w \<Rightarrow> 'a res \<times> 'w) \<Rightarrow> ('a \<Rightarrow> 'w \<Rightarrow> ('b res \<times> RollbackFlag) \<times> 'w) \<Rightarrow> 'w \<Rightarrow> ('b res \<times> RollbackFlag) \<times> 'w" where
  "step fl f g w = (case f w of (Inl e, w') \<Rightarrow> ((Inl e, fl), w') | (Inr a, w') \<Rightarrow> g a w')"

section \<open>Create\<close>

definition template_of :: "ServiceCreateModel \<Rightarrow> string \<Rightarrow> ContainerTemplateSpec" where
  "template_of m name = \<lparr>ct_Name = name, ct_Image = cr_Image m, ct_Command = cr_Command m, ct_Port = cr_Port m, ct_Mount = cr_Mount m,
     ct_Env = cr_Env m, ct_CapAdd = cr_CapAdd m, ct_CapDrop = cr_CapDrop m, ct_SecurityProfile = cr_SecurityProfile m,
     ct_Network = cr_Network m, ct_Tty = cr_Tty m\<rparr>"

text \<open>Whether the container gets an address and a runtime container of its own, asked at two places.\<close>

definition owns_network :: "'k node_env \<Rightarrow> string \<Rightarrow> 'k node \<Rightarrow> bool \<times> 'k node" where
  "owns_network env podId w = (if podId = [] then (True, w) else ask env (\<lambda>io w. psm_IsPodOwner io podId (nd_psm w)) w)"

text \<open>The steps after the container is registered.\<close>

definition build_container :: "'k node_env \<Rightarrow> string \<Rightarrow> string \<Rightarrow> ServiceCreateModel \<Rightarrow> string \<times> string \<Rightarrow> ImageConfigObject \<Rightarrow> string \<Rightarrow>
    string \<times> string \<Rightarrow> RollbackFlag \<Rightarrow> 'k node \<Rightarrow> (string res \<times> RollbackFlag) \<times> 'k node" where
  "build_container env cid name m img conf bridge net fl2 =
     (let member = (cr_PodId m \<noteq> [] \<and> \<not> cr_IsPodInfra m); fl3 = fl2\<lparr>rb_DirectoryEnv := True\<rparr>; fl4 = fl3\<lparr>rb_CgroupEntry := True\<rparr>;
          fl5 = fl4\<lparr>rb_ForwardRule := \<not> member\<rparr>; fl6 = fl5\<lparr>rb_Runtime := True\<rparr> in
      step fl2 (wrapped ''create container directory failed'' (setupContainerDirectory env cid)) (\<lambda>_.
      step fl3 (wrapped ''setup etc files failed'' (setupEtcFiles env cid (snd net) (fst net) bridge (cr_PodId m))) (\<lambda>_.
      step fl3 (wrapped ''setup cgroup subtree failed'' (setupCgroupSubtree env cid)) (\<lambda>_.
      step fl4 (wrapped ''create spec failed''
         (createContainerSpec env cid m (fst img) (snd img) conf bridge (snd net) (fst net) (cr_PodId m))) (\<lambda>_.
      step fl4 (if cr_Rootless m \<and> member then
          and_then (wrapped ''issue rootless pod member client cert failed'' (call env (IssueClientCert cid))) (\<lambda>_.
          wrapped ''prepare rootless pod member bundle failed''
            (call env (PrepareBundle cid (fst (rootlessRuntimeHostRootID env m)) (snd (rootlessRuntimeHostRootID env m)))))
        else Pair (Inr ())) (\<lambda>_.
      step fl4 (if member then Pair (Inr ()) else wrapped ''forward rule failed'' (setupForwardRule env cid (cr_Port m))) (\<lambda>_.
      step fl5 (\<lambda>w. case owns_network env (cr_PodId m) w of (own, w1) \<Rightarrow> wrapped ''create container failed''
         (if own then createContainer env cid (cr_Tty m) else joinContainer env cid (cr_Tty m) (cr_PodId m)) w1) (\<lambda>_.
      step fl6 (if member then on_psm env (\<lambda>io _. psm_AddContainerToPodTemplate io (cr_PodId m)
            (template_of m (if cr_Name m = [] then name else cr_Name m)))
          else Pair (Inr ())) (\<lambda>_ w. ((Inr cid, fl6), w))))))))))"

definition register_container :: "'k node_env \<Rightarrow> string \<Rightarrow> string \<Rightarrow> ServiceCreateModel \<Rightarrow> string \<times> string \<Rightarrow> ImageConfigObject \<Rightarrow>
    'k node \<Rightarrow> unit res \<times> 'k node" where
  "register_container env cid name m img conf = on_csm env (\<lambda>io now. csm_StoreContainer io now
     \<lparr>rq_ContainerId = cid, rq_State = ''creating'', rq_Pid = 0, rq_Tty = cr_Tty m, rq_Repository = fst img, rq_Reference = snd img,
      rq_Command = (if cr_Command m \<noteq> [] then cr_Command m else ic_Entrypoint conf @ ic_Cmd conf),
      rq_ContainerName = name, rq_BottleId = cr_BottleId m, rq_LogPath = container_path cid [''logs'', ''container.log''],
      rq_PodId = cr_PodId m, rq_DropletId = ''container'', rq_SecurityProfile = cr_SecurityProfile m\<rparr>)"

definition bridge_of :: "ServiceCreateModel \<Rightarrow> string" where
  "bridge_of m = (if cr_Network m = [] then ''raind0'' else cr_Network m)"

text \<open>Image, address, registration, then the rest.\<close>

definition ensure_image :: "'k node_env \<Rightarrow> ServiceCreateModel \<Rightarrow> string \<times> string \<Rightarrow> 'k node \<Rightarrow> unit res \<times> 'k node" where
  "ensure_image env m img w =
     (case ask env (\<lambda>io w. ilm_IsImageExist io (\<lambda>p. is_ok (ne_query env (StatPath p) w)) (fst img) (snd img) (nd_ilm w)) w of
        (there, w1) \<Rightarrow> if there then (Inr (), w1) else pullImage env (cr_Image m) (cr_Os m) (cr_Arch m) w1)"

definition create_body :: "'k node_env \<Rightarrow> string \<Rightarrow> string \<Rightarrow> ServiceCreateModel \<Rightarrow> 'k node \<Rightarrow> (string res \<times> RollbackFlag) \<times> 'k node" where
  "create_body env cid name m =
     step no_rollback (Pair (parseImageRef (cr_Image m))) (\<lambda>img.
     step no_rollback (ensure_image env m img) (\<lambda>_.
     step no_rollback (ask env (\<lambda>io w. ilm_GetConfigPath io (fst img) (snd img) (nd_ilm w))) (\<lambda>path.
     step no_rollback (ask env (\<lambda>_. ne_image_config env path)) (\<lambda>conf w. case owns_network env (cr_PodId m) w of (own, w1) \<Rightarrow>
     (let fl1 = no_rollback\<lparr>rb_AllocateAddr := own\<rparr> in
      step no_rollback (if own then allocateAddress env cid (bridge_of m) else Pair (Inr ([], []))) (\<lambda>net.
      step fl1 (ask env (\<lambda>_. ne_profile env (cr_SecurityProfile m))) (\<lambda>profile.
      let m' = m\<lparr>cr_SecurityProfile := sp_Name profile\<rparr> in
      step fl1 (register_container env cid name m' img conf) (\<lambda>_.
      build_container env cid name m' img conf (bridge_of m) net (fl1\<lparr>rb_CSMEntry := True\<rparr>)))) w1)))))"

text \<open>Identifier, name, body, and the deferred rollback, whose own error replaces that of the body.\<close>

definition container_name :: "'k node_env \<Rightarrow> ServiceCreateModel \<Rightarrow> 'k node \<Rightarrow> string res \<times> 'k node" where
  "container_name env m =
     (let name = (if cr_Name m \<noteq> [] \<and> cr_PodId m \<noteq> [] \<and> \<not> cr_IsPodInfra m then buildPodContainerName (cr_Name m) (cr_PodId m) else cr_Name m)
      in if name = [] then generateContainerName env
         else (\<lambda>w. case ask env (\<lambda>io w. csm_IsNameAlreadyUsed io name (nd_csm w)) w of (used, w1) \<Rightarrow>
           (if used then Inl (Msg (''name: '' @ name @ '' already used by other container'')) else Inr name, w1)))"

definition create_core :: "'k node_env \<Rightarrow> ServiceCreateModel \<Rightarrow> 'k node \<Rightarrow> string res \<times> 'k node" where
  "create_core env m w =
     (let (u, w1) = new_ulid env w; cid = take 12 u in
      and_then (container_name env m) (\<lambda>name w.
        case create_body env cid name m w of
          ((Inr i, _), w2) \<Rightarrow> (Inr i, w2)
        | ((Inl e, fl), w2) \<Rightarrow> (case rollback env fl cid w2 of (Inl e', w3) \<Rightarrow> (Inl e', w3) | (Inr _, w3) \<Rightarrow> (Inl e, w3))) w1)"

section \<open>The infrastructure container of a pod\<close>

definition podNamespacesReady :: "'k node_env \<Rightarrow> PodInfo \<Rightarrow> 'k node \<Rightarrow> bool \<times> 'k node" where
  "podNamespacesReady env p w =
     (if \<not> joinable p then (False, w)
      else all_exist env ((if pd_UserNS p = [] then [] else [pd_UserNS p]) @ [pd_NetworkNS p, pd_IPCNS p, pd_UTSNS p]) w)"

definition podNamespacesPopulated :: "PodInfo \<Rightarrow> bool" where
  "podNamespacesPopulated p \<longleftrightarrow> \<not> no_namespaces p"

fun waitForPodNamespaces :: "'k node_env \<Rightarrow> string \<Rightarrow> nat \<Rightarrow> 'k node \<Rightarrow> unit res \<times> 'k node" where
  "waitForPodNamespaces env podId 0 w = (Inl (Msg (''pod namespaces not ready: '' @ podId)), w)"
| "waitForPodNamespaces env podId (Suc n) w =
     and_then (ask env (\<lambda>io w. psm_GetPodById io podId (nd_psm w))) (\<lambda>pod w.
       case podNamespacesReady env pod w of (True, w1) \<Rightarrow> (Inr (), w1) | (False, w1) \<Rightarrow> waitForPodNamespaces env podId n w1) w"

definition findPodInfraContainer :: "'k node_env \<Rightarrow> string \<Rightarrow> 'k node \<Rightarrow> ContainerView res \<times> 'k node" where
  "findPodInfraContainer env podId =
     and_then (GetContainersByPodId env podId) (\<lambda>cs w.
       (case find (\<lambda>c. isPodInfraName (cv_Name c) podId) cs of Some c \<Rightarrow> Inr c | None \<Rightarrow> Inl (Msg ''pod infra not found''), w))"

definition infra_model :: "string \<Rightarrow> string \<Rightarrow> bool \<Rightarrow> ServiceCreateModel" where
  "infra_model podId network rootless = \<lparr>cr_Image = PodInfraImage, cr_Os = [], cr_Arch = [], cr_Command = [], cr_Port = [], cr_Mount = [],
     cr_Device = [], cr_Env = [], cr_CapAdd = [], cr_CapDrop = [], cr_SecurityProfile = [], cr_Network = network, cr_Tty = False,
     cr_Name = podInfraName podId, cr_BottleId = [], cr_PodId = podId, cr_Rootless = rootless, cr_RootlessMode = [],
     cr_RootlessRootUID = 0, cr_RootlessRootGID = 0, cr_IsPodInfra = True\<rparr>"

text \<open>The recursive call of \<open>Create\<close> is for an infrastructure container, so it goes straight to the core.\<close>

definition ensurePodInfra :: "'k node_env \<Rightarrow> string \<Rightarrow> string \<Rightarrow> 'k node \<Rightarrow> unit res \<times> 'k node" where
  "ensurePodInfra env podId network =
     and_then (ask env (\<lambda>io w. psm_GetPodById io podId (nd_psm w))) (\<lambda>pod w.
       case podNamespacesReady env pod w of
         (True, w1) \<Rightarrow> (Inr (), w1)
       | (False, w1) \<Rightarrow>
           (let w2 = (if podNamespacesPopulated pod then ignore (on_psm env (\<lambda>io _. psm_ResetPodNamespaces io podId)) w1 else w1);
                w3 = (case findPodInfraContainer env podId w2 of
                    (Inl _, w3) \<Rightarrow> w3
                  | (Inr infra, w3) \<Rightarrow> ignore (Container_Delete env (cv_ContainerId infra) False)
                      (if cv_State infra = ''running'' then ignore (Container_Stop env (cv_ContainerId infra) False) w3 else w3))
            in and_then (create_core env (normalizeRootlessCreateParameter (infra_model podId network (pd_Rootless pod)))) (\<lambda>infraId w.
                 case Container_Start env infraId False False w of
                   (Inl e, w4) \<Rightarrow> (Inl e, ignore (Container_Delete env infraId False) w4)
                 | (Inr _, w4) \<Rightarrow> waitForPodNamespaces env podId 50 w4) w3))"

definition Container_Create :: "'k node_env \<Rightarrow> ServiceCreateModel \<Rightarrow> 'k node \<Rightarrow> string res \<times> 'k node" where
  "Container_Create env m0 =
     (let m = normalizeRootlessCreateParameter m0 in
      if cr_PodId m \<noteq> [] \<and> \<not> cr_IsPodInfra m then
        and_then (ask env (\<lambda>io w. psm_GetPodById io (cr_PodId m) (nd_psm w))) (\<lambda>pod.
          if pd_Rootless pod then
            (let m' = normalizeRootlessCreateParameter (m\<lparr>cr_Rootless := True\<rparr>) in
             and_then (ensurePodInfra env (cr_PodId m') (cr_Network m')) (\<lambda>_. create_core env m'))
          else if cr_Rootless m then (\<lambda>w. (Inl (Msg ''rootless mode is a pod-level setting; set spec.hostUsers=false on the pod''), w))
          else and_then (ensurePodInfra env (cr_PodId m) (cr_Network m)) (\<lambda>_. create_core env m))
      else create_core env m)"

end
