(* ===== verification/Container_Books.thy ===== *)
theory Container_Books
  imports Container_Create
begin

text \<open>
  A failing creation leaves no trace in the books: neither an entry in the container document nor an address. The runtime reports back
  through hooks that change or remove entries of the container document, which is all that is assumed of calls.
\<close>

section \<open>The books\<close>

definition container_ids :: "container_doc disk \<Rightarrow> string set" where
  "container_ids d = (case csm_loadOrInit (read_file io_ok d) of Inr st \<Rightarrow> fst ` set (cs_Containers st) | Inl _ \<Rightarrow> {})"

definition keeps_books :: "'k node_env \<Rightarrow> bool" where
  "keeps_books env \<longleftrightarrow> (\<forall>c w. nd_ipam (snd (ne_call env c w)) = nd_ipam w \<and>
     (csm_disk_inv (nd_csm w) \<longrightarrow> csm_disk_inv (nd_csm (snd (ne_call env c w)))) \<and>
     container_ids (nd_csm (snd (ne_call env c w))) \<subseteq> container_ids (nd_csm w))"

text \<open>
  The books after some steps of a creation: \<open>a\<close> and \<open>c\<close> say whether the container has an address and an entry, \<open>st0\<close> and \<open>ids0\<close>
  are the address state and the containers before it.
\<close>

definition released :: "string \<Rightarrow> IpamState \<Rightarrow> IpamState" where
  "released cid st = st\<lparr>ip_Pools := release_pools cid (ip_Pools st)\<rparr>"

definition booked :: "host_env \<Rightarrow> string \<Rightarrow> IpamState \<Rightarrow> string set \<Rightarrow> bool \<Rightarrow> bool \<Rightarrow> 'k node \<Rightarrow> bool" where
  "booked host cid st0 ids0 a c w \<longleftrightarrow> csm_disk_inv (nd_csm w) \<and>
     container_ids (nd_csm w) \<subseteq> (if c then insert cid ids0 else ids0) \<and>
     (\<exists>st. ipam_loadOrInit host (read_file io_ok (nd_ipam w)) = Inr st \<and> ipam_inv st \<and> (if a then released cid st = st0 else st = st0))"

section \<open>Steps that keep a predicate\<close>

definition keep :: "('w \<Rightarrow> bool) \<Rightarrow> ('w \<Rightarrow> 'a \<times> 'w) \<Rightarrow> bool" where
  "keep B f \<longleftrightarrow> (\<forall>w. B w \<longrightarrow> B (snd (f w)))"

named_theorems keep_intros

lemma keepD: "keep B f \<Longrightarrow> B w \<Longrightarrow> f w = (r, w') \<Longrightarrow> B w'"
  by (metis keep_def snd_conv)

lemma keep_and_then [keep_intros]: "keep B f \<Longrightarrow> (\<And>a. keep B (g a)) \<Longrightarrow> keep B (and_then f g)"
  by (simp add: keep_def and_then_def split: prod.splits sum.splits) (metis snd_conv)

lemma keep_case [keep_intros]: "keep B f \<Longrightarrow> (\<And>x. keep B (g x)) \<Longrightarrow> keep B (\<lambda>w. case f w of (x, w1) \<Rightarrow> g x w1)"
  by (simp add: keep_def split: prod.splits) (metis snd_conv)

lemma keep_pure [keep_intros]: "keep B (\<lambda>w. (r w, w))"
  by (simp add: keep_def)

lemma keep_Pair [keep_intros]: "keep B (Pair r)"
  by (simp add: keep_def)

lemma keep_If [keep_intros]: "(b \<Longrightarrow> keep B f) \<Longrightarrow> (\<not> b \<Longrightarrow> keep B g) \<Longrightarrow> keep B (if b then f else g)"
  by simp

lemma keep_if [keep_intros]: "keep B f \<Longrightarrow> keep B g \<Longrightarrow> keep B (\<lambda>w. if b w then f w else g w)"
  by (simp add: keep_def)

lemma keep_wrapped [keep_intros]: "keep B f \<Longrightarrow> keep B (wrapped s f)"
  by (simp add: keep_def wrapped_def split: prod.splits sum.splits) (metis snd_conv)

lemma keep_tolerate [keep_intros]: "keep B f \<Longrightarrow> keep B (tolerate p f)"
  by (simp add: keep_def tolerate_def split: prod.splits sum.splits) (metis snd_conv)

lemma keep_undo [keep_intros]: "(b \<Longrightarrow> keep B f) \<Longrightarrow> keep B (undo b f)"
  by (simp add: keep_def undo_def)

text \<open>What a predicate must allow for the steps that leave the books alone.\<close>

definition neutral :: "('k node \<Rightarrow> bool) \<Rightarrow> bool" where
  "neutral B \<longleftrightarrow> (\<forall>w. B w \<longrightarrow> B (tick w)) \<and> (\<forall>w d. B w \<longrightarrow> B (w\<lparr>nd_psm := d\<rparr>))"

definition indifferent :: "'k node_env \<Rightarrow> ('k node \<Rightarrow> bool) \<Rightarrow> bool" where
  "indifferent env B \<longleftrightarrow> neutral B \<and> (\<forall>c w. B w \<longrightarrow> B (snd (ne_call env c w)))"

lemma indifferent_neutral: "indifferent env B \<Longrightarrow> neutral B"
  by (simp add: indifferent_def)

lemma keep_ask [keep_intros]: "neutral B \<Longrightarrow> keep B (ask e f)"
  by (simp add: keep_def ask_def neutral_def)

lemma keep_ask2 [keep_intros]: "neutral B \<Longrightarrow> keep B (ask2 e f)"
  by (simp add: keep_def ask2_def neutral_def)

lemma keep_query [keep_intros]: "neutral B \<Longrightarrow> keep B (query e q)" "neutral B \<Longrightarrow> keep B (query_or e z q)"
  by (simp_all add: keep_def query_def query_or_def neutral_def)

lemma keep_call [keep_intros]: "indifferent env B \<Longrightarrow> keep B (call env c)"
  by (simp add: keep_def call_def indifferent_def neutral_def split: prod.splits) (metis snd_conv)

lemma keep_on_psm [keep_intros]: "neutral B \<Longrightarrow> keep B (on_psm e f)"
  by (simp add: keep_def on_psm_def neutral_def split: prod.splits)

lemma keep_call_all [keep_intros]: "indifferent env B \<Longrightarrow> keep B (call_all env cs)"
proof (induction cs)
  case (Cons c cs)
  have "keep B (and_then (call env c) (\<lambda>_. call_all env cs))" by (intro keep_intros Cons)
  then show ?case by (simp add: keep_def)
qed (simp add: keep_def)

lemma keep_all_exist [keep_intros]: "neutral B \<Longrightarrow> keep B (all_exist e ps)"
  by (induction ps) (simp_all add: keep_def query_def neutral_def split: sum.splits)

lemma keep_generate_name [keep_intros]:
  assumes "neutral B" shows "keep B (generate_name e n)"
proof (induction n)
  case 0
  then show ?case using assms
    by (simp add: keep_def generate_name.simps query_def ask_def neutral_def split: sum.splits)
next
  case (Suc n)
  then show ?case using assms
    by (simp add: keep_def generate_name.simps [of _ "Suc n"] query_def ask_def neutral_def split: sum.splits)
qed

lemma indifferent_booked:
  assumes "keeps_books env"
  shows "indifferent env (booked host cid st0 ids0 a c)"
proof -
  have "booked host cid st0 ids0 a c (snd (ne_call env k w))" if "booked host cid st0 ids0 a c w" for k w
  proof -
    have "nd_ipam (snd (ne_call env k w)) = nd_ipam w" "container_ids (nd_csm (snd (ne_call env k w))) \<subseteq> container_ids (nd_csm w)"
      "csm_disk_inv (nd_csm w) \<longrightarrow> csm_disk_inv (nd_csm (snd (ne_call env k w)))"
      using assms unfolding keeps_books_def by blast+
    with that show ?thesis unfolding booked_def by (metis subset_trans)
  qed
  then show ?thesis by (simp add: indifferent_def neutral_def booked_def)
qed

section \<open>The address document\<close>

lemma range_find_set_same:
  assumes "range_find p m = Some (k, v)" and "p k v'" and "wf_map m"
  shows "range_find p (map_set k v' m) = Some (k, v')"
  using assms
proof (induction m)
  case (Cons e m)
  obtain k1 v1 where e: "e = (k1, v1)" by force
  show ?case
  proof (cases "p k1 v1")
    case True
    with Cons.prems e show ?thesis by (auto simp: range_find_def)
  next
    case False
    with Cons.prems(1) e have f: "range_find p m = Some (k, v)" by (simp add: range_find_def)
    then have "k \<in> fst ` set m" using range_find_Some [OF f] by force
    with Cons.prems(3) e have "k1 \<noteq> k" by auto
    with False Cons.IH [OF f] Cons.prems e show ?thesis by (simp add: range_find_def)
  qed
qed (simp add: range_find_def)

lemma release_setForward:
  assumes "list_all pool_ok ps" and "setForward_pools cid fi ps = Inr ps'"
  shows "release_pools cid ps' = release_pools cid ps"
  using assms
proof (induction ps arbitrary: ps')
  case (Cons p ps)
  have ok: "po_Allocations p = Some (allocs p)" "wf_map (allocs p)" using Cons.prems(1) pool_ok_allocs by simp_all
  show ?case
  proof (cases "range_find (\<lambda>_ a. al_ContainerId a = cid) (allocs p)")
    case None
    with Cons show ?thesis by (auto split: sum.splits)
  next
    case (Some ka)
    obtain k a where ka: "ka = (k, a)" by (cases ka)
    let ?a = "a\<lparr>al_Forwards := al_Forwards a @ [fi]\<rparr>"
    have "al_ContainerId a = cid" using Some ka by (auto simp: range_find_def find_Some_iff)
    then have "range_find (\<lambda>_ a. al_ContainerId a = cid) (map_set k ?a (allocs p)) = Some (k, ?a)"
      using Some ka ok(2) by (intro range_find_set_same) auto
    moreover have "ps' = p\<lparr>po_Allocations := Some (map_set k ?a (allocs p))\<rparr> # ps" using Cons.prems(2) Some ka ok(1) by simp
    moreover have "allocs (p\<lparr>po_Allocations := Some (map_set k ?a (allocs p))\<rparr>) = map_set k ?a (allocs p)" by (simp add: allocs_def)
    ultimately show ?thesis using Some ka ok(1) by (simp add: AList.delete_update_same)
  qed
qed simp

lemma release_allocate_pools:
  assumes "ipam_inv st" and "unallocated cid st" and "allocate_pools now cid br (ip_Pools st) = Inr (ps, s)"
  shows "release_pools cid ps = ip_Pools st"
proof -
  from allocate_pools_ok [OF assms(3)] obtain xs p p' ys where
    e: "ip_Pools st = xs @ p # ys" "ps = xs @ p' # ys" "allocate_in now cid p = Inr (p', s)" by blast
  then have "release_pools cid (p' # ys) = p # ys"
    using assms by (intro release_allocate) (auto simp: unallocated_def ipam_inv_def)
  then show ?thesis using e assms(2) by (simp add: unallocated_def release_pools_skip)
qed

lemma setForward_unallocated:
  "list_all (\<lambda>p. list_all (\<lambda>(_, a). al_ContainerId a \<noteq> cid) (allocs p)) ps \<Longrightarrow>
   setForward_pools cid fi ps = Inl (Msg (''container: '' @ cid @ '' not found''))"
  by (induction ps) (auto simp: list_all_iff split: option.splits dest!: range_find_Some)

section \<open>The steps of a creation\<close>

lemma keep_SetForward:
  fixes env :: "'k node_env"
  assumes io: "\<forall>n. ne_io env n = io_ok" and un: "unallocated cid st0"
  shows "keep (booked (ne_host env) cid st0 ids0 a c) (on_ipam env (\<lambda>io _. ipam_SetForwardInfo (ne_host env) io cid x y z))"
  unfolding keep_def
proof (intro allI impI)
  fix w :: "'k node" assume b: "booked (ne_host env) cid st0 ids0 a c w"
  then obtain st where st: "ipam_loadOrInit (ne_host env) (read_file io_ok (nd_ipam w)) = Inr st" "ipam_inv st"
    "if a then released cid st = st0 else st = st0" by (auto simp: booked_def)
  let ?fi = "\<lparr>fi_HostPort = x, fi_ContainerPort = y, fi_Protocol = z\<rparr>"
  have ok: "list_all pool_ok (ip_Pools st)" using st(2) by (simp add: ipam_inv_def)
  show "booked (ne_host env) cid st0 ids0 a c (snd (on_ipam env (\<lambda>io _. ipam_SetForwardInfo (ne_host env) io cid x y z) w))"
  proof (cases "setForward_pools cid ?fi (ip_Pools st)")
    case (Inl e)
    with st(1) b io show ?thesis
      by (simp add: on_ipam_def ipam_SetForwardInfo_def ipam_withLock_def ipam_atomicSave_def withLock_io_ok booked_def)
  next
    case (Inr ps)
    then have a: a using st(3) setForward_unallocated [OF un [unfolded unallocated_def]] by (auto split: if_splits)
    note s = setForward_pools_ok [OF ok Inr] release_setForward [OF ok Inr]
    have "ipam_inv (st\<lparr>ip_Pools := ps\<rparr>)" using st(2) s(1) by (simp add: ipam_inv_def)
    moreover have "released cid (st\<lparr>ip_Pools := ps\<rparr>) = st0" using st(3) a s(2) by (simp add: released_def)
    ultimately show ?thesis using Inr st(1) b io a
      by (simp add: on_ipam_def ipam_SetForwardInfo_def ipam_withLock_def ipam_atomicSave_def withLock_io_ok booked_def
          ipam_loadOrInit_def read_file_io_ok)
  qed
qed

lemma keep_setupForwardRule:
  assumes "keeps_books env" "\<forall>n. ne_io env n = io_ok" "unallocated cid st0"
  shows "keep (booked (ne_host env) cid st0 ids0 a c) (setupForwardRule env cid ports)"
proof (induction ports)
  case (Cons p ps)
  have "keep (booked (ne_host env) cid st0 ids0 a c) (and_then (call env k) (\<lambda>_. and_then
      (on_ipam env (\<lambda>io _. ipam_SetForwardInfo (ne_host env) io cid x y z)) (\<lambda>_. setupForwardRule env cid ps)))" for k x y z
    by (intro keep_intros Cons keep_SetForward assms) (rule indifferent_booked [OF assms(1)])
  then show ?case by (simp add: keep_def split: option.splits prod.splits)
qed (simp add: keep_def)

lemma keep_resolvSearchDomains: "neutral B \<Longrightarrow> keep B (resolvSearchDomains e n p)"
  by (simp add: keep_def resolvSearchDomains_def ask_def neutral_def Let_def split: sum.splits)

lemma keep_setupEtcFiles [keep_intros]:
  assumes "indifferent env B" shows "keep B (setupEtcFiles env cid addr gw net pod)"
  unfolding setupEtcFiles_def Let_def
  by (intro keep_intros keep_resolvSearchDomains assms indifferent_neutral [OF assms])

lemma keep_choose_namespaces: 
  assumes "neutral B" shows "keep B (choose_namespaces env r pod)"
proof -
  have *: "keep B (\<lambda>w. if \<not> joinable p then (Inr x, w) else (case all_exist env ps w of
      (False, w1) \<Rightarrow> (Inr y, ignore (on_psm env f) w1) | (True, w1) \<Rightarrow> (Inr z, w1)))" for p x ps y f z
    using keep_all_exist [OF assms, of env ps] keep_on_psm [OF assms, of env f]
    by (simp add: keep_def ignore_def split: prod.splits bool.splits) (metis snd_conv)
  show ?thesis unfolding choose_namespaces_def
    by (intro keep_intros assms *)
qed

lemma keep_createContainerSpec [keep_intros]:
  assumes "indifferent env B" shows "keep B (createContainerSpec env cid m repo ref conf bridge addr gw pod)"
  unfolding createContainerSpec_def Let_def
  by (intro keep_intros keep_choose_namespaces assms indifferent_neutral [OF assms] | simp only: split_def)+

lemma keep_joinContainer [keep_intros]:
  assumes "indifferent env B" shows "keep B (joinContainer env cid tty pod)"
proof -
  have *: "keep B (\<lambda>w. if x then createContainer env cid tty (ignore (on_psm env f) w) else call env k w)" for x f k
    using keep_call [OF assms] keep_on_psm [OF indifferent_neutral [OF assms], of env f]
    by (simp add: keep_def ignore_def createContainer_def)
  show ?thesis unfolding joinContainer_def by (intro keep_and_then keep_ask indifferent_neutral [OF assms] *)
qed

lemma keep_createContainer [keep_intros]: "indifferent env B \<Longrightarrow> keep B (createContainer env cid tty)"
  unfolding createContainer_def by (rule keep_call)

lemma keep_pullImage [keep_intros]: "indifferent env B \<Longrightarrow> keep B (pullImage env img os arch)"
  unfolding pullImage_def by (intro keep_intros) (simp_all add: indifferent_neutral)


lemma keep_directories [keep_intros]:
  assumes "indifferent env B"
  shows "keep B (setupContainerDirectory env cid)" "keep B (setupCgroupSubtree env cid)" "keep B (deleteContainerDirectory env cid)"
    "keep B (deleteCgroupSubtree env cid)" "keep B (deleteContainer env cid force)" "keep B (cleanupForwardRules env cid)"
  using keep_call [OF assms]
  by (auto simp: setupContainerDirectory_def setupCgroupSubtree_def deleteContainerDirectory_def deleteCgroupSubtree_def deleteContainer_def
      cleanupForwardRules_def forward_rules_def keep_def [of B "deleteContainerDirectory env cid"] keep_def [of B "deleteCgroupSubtree env cid"]
      intro!: keep_intros assms indifferent_neutral [OF assms] split: sum.splits dest: keep_def [THEN iffD1])

section \<open>Allocating and registering\<close>

lemma allocateAddress_books:
  fixes env :: "'k node_env"
  assumes io: "\<forall>n. ne_io env n = io_ok" and un: "unallocated cid st0" and b: "booked (ne_host env) cid st0 ids0 False c w"
    and r: "allocateAddress env cid br w = (r, w')"
  shows "booked (ne_host env) cid st0 ids0 (is_ok r) c w'"
proof -
  from b have st: "ipam_loadOrInit (ne_host env) (read_file io_ok (nd_ipam w)) = Inr st0" "ipam_inv st0" by (auto simp: booked_def)
  show ?thesis
  proof (cases "allocate_pools (ne_now env (nd_tick w)) cid br (ip_Pools st0)")
    case (Inl e)
    with r st(1) b io show ?thesis
      by (auto simp: allocateAddress_def and_then_def on_ipam_def ipam_Allocate_def ipam_withLock_def ipam_atomicSave_def withLock_io_ok booked_def)
  next
    case (Inr pss)
    obtain ps s where ps: "pss = (ps, s)" by force
    note al = Inr [unfolded ps]
    let ?st = "st0\<lparr>ip_Pools := ps\<rparr>"
    obtain d where d: "ipam_Allocate (ne_host env) io_ok (ne_now env (nd_tick w)) cid br (nd_ipam w) = (Inr s, d)"
      "main_file d = Some (Decoded ?st)"
      using al st(1) by (simp add: ipam_Allocate_def ipam_withLock_def ipam_atomicSave_def withLock_io_ok)
    from allocate_pools_ok [OF al] obtain xs p p' ys where e: "ip_Pools st0 = xs @ p # ys" "ps = xs @ p' # ys" "po_Interface p = br"
      "allocate_in (ne_now env (nd_tick w)) cid p = Inr (p', s)" by blast
    have "po_Interface p' = br" using allocate_in_ok(2) [OF _ e(4)] e(1,3) st(2) by (simp add: ipam_inv_def)
    then obtain q where q: "find (\<lambda>p. po_Interface p = br) ps = Some q" using e(2) by (cases "find (\<lambda>p. po_Interface p = br) ps") (auto simp: find_None_iff)
    note l = ipam_load_ok [OF d(2), of "ne_host env"]
    have w': "w' = tick (tick (w\<lparr>nd_ipam := d\<rparr>))" "is_ok r"
      using r d(1) l q io by (auto simp: allocateAddress_def and_then_def on_ipam_def ask_def ipam_GetBridgeAddr_def ipam_withRLock_def withRLock_io_ok)
    have "released cid ?st = st0" using release_allocate_pools [OF st(2) un al] by (simp add: released_def)
    with w' l allocate_pools_inv [OF st(2) al] b show ?thesis by (simp add: booked_def)
  qed
qed

lemma container_ids_store:
  assumes "csm_disk_inv d" and "csm_StoreContainer io_ok now q d = (r, d')"
  shows "csm_disk_inv d'" and "r = Inr ()" and "container_ids d' \<subseteq> insert (rq_ContainerId q) (container_ids d)"
proof -
  show "csm_disk_inv d'" using csm_ops_inv(2) [OF assms(1), of io_ok now q] assms(2) by simp
  obtain st where st: "csm_loadOrInit (read_file io_ok d) = Inr st" "csm_inv st"
    using csm.load_total [OF assms(1)] by (auto simp: csm_loadOrInit_def)
  let ?st = "st\<lparr>cs_Containers := map_set (rq_ContainerId q) (new_container now q) (cs_Containers st)\<rparr>"
  have d': "r = Inr ()" "main_file d' = Some (Decoded (csm_marshal ?st))"
    using assms(2) st(1) by (auto simp: csm_StoreContainer_def csm_withLock_def csm_atomicSave_def withLock_io_ok)
  then have "csm_loadOrInit (read_file io_ok d') = Inr ?st"
    by (simp add: csm_loadOrInit_def load_or_init_def read_file_io_ok csm_complete_def csm_marshal_def)
  with st(1) d'(1) show "r = Inr ()" "container_ids d' \<subseteq> insert (rq_ContainerId q) (container_ids d)"
    by (auto simp: container_ids_def AList.dom_update)
qed

lemma container_ids_remove:
  assumes "csm_disk_inv d" and "csm_RemoveContainer io_ok cid d = (r, d')"
  shows "csm_disk_inv d'" and "container_ids d' = container_ids d - {cid}"
    and "r = Inr () \<or> r = Inl (Msg (''containerId='' @ cid @ '' not found''))"
proof -
  show "csm_disk_inv d'" using csm_ops_inv(3) [OF assms(1), of io_ok cid] assms(2) by simp
  obtain st where st: "csm_loadOrInit (read_file io_ok d) = Inr st" "csm_inv st"
    using csm.load_total [OF assms(1)] by (auto simp: csm_loadOrInit_def)
  have f: "range_find (\<lambda>_ c. cn_ContainerId c = cid) (cs_Containers st) = map_option (Pair cid) (map_of (cs_Containers st) cid)"
    using range_find_key st(2) by (auto simp: csm_inv_def)
  have k: "fst ` set (map_del cid m) = fst ` set m - {cid}" for m :: "(string, ContainerInfo) gomap"
    by (metis AList.delete_keys list.set_map set_removeAll)
  show "container_ids d' = container_ids d - {cid}" "r = Inr () \<or> r = Inl (Msg (''containerId='' @ cid @ '' not found''))"
  proof (atomize (full), cases "map_of (cs_Containers st) cid")
    case None
    have f': "range_find (\<lambda>_ c. cn_ContainerId c = cid) (cs_Containers st) = None" using f None by simp
    have "d' = d" "r = Inl (Msg (''containerId='' @ cid @ '' not found''))" "cid \<notin> container_ids d"
      using assms(2) st(1) f' None by (auto simp: csm_RemoveContainer_def csm_withLock_def csm_atomicSave_def withLock_io_ok container_ids_def map_of_eq_None_iff)
    then show "container_ids d' = container_ids d - {cid} \<and> (r = Inr () \<or> r = Inl (Msg (''containerId='' @ cid @ '' not found'')))" by blast
  next
    case (Some c)
    let ?st = "st\<lparr>cs_Containers := map_del cid (cs_Containers st)\<rparr>"
    have d': "r = Inr ()" "main_file d' = Some (Decoded (csm_marshal ?st))"
      using assms(2) st(1) f [unfolded Some] by (auto simp: csm_RemoveContainer_def csm_withLock_def csm_atomicSave_def withLock_io_ok)
    then have "csm_loadOrInit (read_file io_ok d') = Inr ?st"
      by (simp add: csm_loadOrInit_def load_or_init_def read_file_io_ok csm_complete_def csm_marshal_def)
    then show "container_ids d' = container_ids d - {cid} \<and> (r = Inr () \<or> r = Inl (Msg (''containerId='' @ cid @ '' not found'')))"
      using st(1) d'(1) by (simp add: container_ids_def k)
  qed
qed

section \<open>The body and its rollback\<close>

text \<open>A run of the body that ends with an error satisfies \<open>Q\<close> for its flags.\<close>

definition ends :: "(RollbackFlag \<Rightarrow> 'w \<Rightarrow> bool) \<Rightarrow> ('b res \<times> RollbackFlag) \<times> 'w \<Rightarrow> bool" where
  "ends Q x \<longleftrightarrow> (case x of ((Inl e, fl), w) \<Rightarrow> Q fl w | _ \<Rightarrow> True)"

lemma ends_change:
  assumes "\<And>e w1. f w = (Inl e, w1) \<Longrightarrow> Q fl w1" and "\<And>a w1. f w = (Inr a, w1) \<Longrightarrow> ends Q (g a w1)"
  shows "ends Q (step fl f g w)"
  using assms by (auto simp: step_def ends_def split: prod.splits sum.splits)

lemma ends_step:
  assumes "B w" and "keep B f" and "\<And>w1. B w1 \<Longrightarrow> Q fl w1" and "\<And>a w1. B w1 \<Longrightarrow> ends Q (g a w1)"
  shows "ends Q (step fl f g w)"
  using assms keepD [OF assms(2,1)] by (intro ends_change) auto

abbreviation flagged :: "'k node_env \<Rightarrow> string \<Rightarrow> IpamState \<Rightarrow> string set \<Rightarrow> RollbackFlag \<Rightarrow> 'k node \<Rightarrow> bool" where
  "flagged env cid st0 ids0 fl \<equiv> booked (ne_host env) cid st0 ids0 (rb_AllocateAddr fl) (rb_CSMEntry fl)"

lemma keep_owns_network: "neutral B \<Longrightarrow> keep B (owns_network env podId)"
  by (simp add: keep_def owns_network_def ask_def neutral_def)

lemma build_container_books:
  fixes env :: "'k node_env"
  assumes kb: "keeps_books env" and io: "\<forall>n. ne_io env n = io_ok" and un: "unallocated cid st0"
    and b: "flagged env cid st0 ids0 fl w"
  shows "ends (flagged env cid st0 ids0) (build_container env cid name m img conf bridge net fl w)"
proof -
  let ?B = "flagged env cid st0 ids0 fl"
  have ind: "indifferent env ?B" by (rule indifferent_booked [OF kb])
  have neu: "neutral ?B" by (rule indifferent_neutral [OF ind])
  note keeps = keep_intros keep_setupForwardRule [OF kb io un] keep_owns_network ind neu
  show ?thesis
    unfolding build_container_def Let_def
    by (rule ends_step [where B = ?B] b, (assumption | rule b)?, (intro keeps)[1], simp)+
      (simp add: ends_def)
qed

lemma register_books:
  fixes env :: "'k node_env"
  assumes io: "\<forall>n. ne_io env n = io_ok" and b: "booked (ne_host env) cid st0 ids0 a c w"
    and r: "register_container env cid name m img conf w = (r, w')"
  shows "r = Inr ()" and "booked (ne_host env) cid st0 ids0 a True w'"
proof -
  let ?q = "\<lparr>rq_ContainerId = cid, rq_State = ''creating'', rq_Pid = 0, rq_Tty = cr_Tty m, rq_Repository = fst img, rq_Reference = snd img,
      rq_Command = (if cr_Command m \<noteq> [] then cr_Command m else ic_Entrypoint conf @ ic_Cmd conf),
      rq_ContainerName = name, rq_BottleId = cr_BottleId m, rq_LogPath = container_path cid [''logs'', ''container.log''],
      rq_PodId = cr_PodId m, rq_DropletId = ''container'', rq_SecurityProfile = cr_SecurityProfile m\<rparr>"
  obtain r0 d where d: "csm_StoreContainer io_ok (ne_now env (nd_tick w)) ?q (nd_csm w) = (r0, d)" by force
  have w': "r = r0" "w' = tick (w\<lparr>nd_csm := d\<rparr>)" using r d io by (simp_all add: register_container_def on_csm_def)
  have "csm_disk_inv (nd_csm w)" using b by (simp add: booked_def)
  note s = container_ids_store [OF this d]
  show "r = Inr ()" using w' s(2) by simp
  have "container_ids d \<subseteq> insert cid ids0" using s(3) b by (auto simp: booked_def split: if_splits)
  with w' s(1) b show "booked (ne_host env) cid st0 ids0 a True w'" by (simp add: booked_def)
qed

lemma step_pure: "step fl (Pair (Inr a)) g w = g a w"
  by (simp add: step_def)

lemma create_body_books:
  fixes env :: "'k node_env"
  assumes kb: "keeps_books env" and io: "\<forall>n. ne_io env n = io_ok" and un: "unallocated cid st0"
    and b: "booked (ne_host env) cid st0 ids0 False False w"
  shows "ends (flagged env cid st0 ids0) (create_body env cid name m w)"
proof -
  let ?B = "booked (ne_host env) cid st0 ids0"
  note ind = indifferent_booked [OF kb]
  note neu = indifferent_neutral [OF ind]
  note keeps = keep_intros keep_owns_network ind neu
  have fl0: "rb_AllocateAddr no_rollback = False" "rb_CSMEntry no_rollback = False" by (simp_all add: no_rollback_def)
  have image: "keep (?B False False) (ensure_image env m img)" for img
    unfolding ensure_image_def by (intro keeps)
  have register: "ends (flagged env cid st0 ids0) (step fl (register_container env cid name m' img conf) (\<lambda>_.
      build_container env cid name m' img conf br net (fl\<lparr>rb_CSMEntry := True\<rparr>)) w1)"
    if "?B (rb_AllocateAddr fl) False w1" "rb_CSMEntry fl = False" for fl m' img conf br net w1
  proof (rule ends_change)
    fix e w2 assume "register_container env cid name m' img conf w1 = (Inl e, w2)"
    from register_books(1) [OF io that(1) this] show "flagged env cid st0 ids0 fl w2" by simp
  next
    fix u w2 assume "register_container env cid name m' img conf w1 = (Inr u, w2)"
    from register_books(2) [OF io that(1) this]
    have "flagged env cid st0 ids0 (fl\<lparr>rb_CSMEntry := True\<rparr>) w2" by simp
    then show "ends (flagged env cid st0 ids0) (build_container env cid name m' img conf br net (fl\<lparr>rb_CSMEntry := True\<rparr>) w2)"
      by (rule build_container_books [OF kb io un])
  qed
  have profile: "ends (flagged env cid st0 ids0) (step fl (ask env (\<lambda>_. ne_profile env p)) (\<lambda>profile.
      let m' = f profile in step fl (register_container env cid name m' img conf) (\<lambda>_.
      build_container env cid name m' img conf br net (fl\<lparr>rb_CSMEntry := True\<rparr>))) w1)"
    if "?B (rb_AllocateAddr fl) False w1" "rb_CSMEntry fl = False" for fl p f img conf br net w1
    unfolding Let_def
    by (rule ends_step [where B = "?B (rb_AllocateAddr fl) False"], rule that, intro keeps)
      (simp_all add: that register)
  have net: "ends (flagged env cid st0 ids0) (let fl1 = no_rollback\<lparr>rb_AllocateAddr := own\<rparr> in
      step no_rollback (if own then allocateAddress env cid br else Pair (Inr ([], []))) (\<lambda>net.
      step fl1 (ask env (\<lambda>_. ne_profile env p)) (\<lambda>profile.
      let m' = f profile in step fl1 (register_container env cid name m' img conf) (\<lambda>_.
      build_container env cid name m' img conf br net (fl1\<lparr>rb_CSMEntry := True\<rparr>)))) w1)"
    if "?B False False w1" for own br p f img conf w1
  proof (cases own)
    case True
    then have o: "own = True" by simp
    show ?thesis unfolding Let_def o if_True
    proof (rule ends_change)
      fix e w2 assume "allocateAddress env cid br w1 = (Inl e, w2)"
      from allocateAddress_books [OF io un that this] show "flagged env cid st0 ids0 no_rollback w2" by (simp add: fl0)
    next
      fix n w2 assume "allocateAddress env cid br w1 = (Inr n, w2)"
      from allocateAddress_books [OF io un that this]
      have "?B (rb_AllocateAddr (no_rollback\<lparr>rb_AllocateAddr := True\<rparr>)) False w2" by simp
      then show "ends (flagged env cid st0 ids0) (step (no_rollback\<lparr>rb_AllocateAddr := True\<rparr>) (ask env (\<lambda>_. ne_profile env p)) (\<lambda>profile.
          step (no_rollback\<lparr>rb_AllocateAddr := True\<rparr>) (register_container env cid name (f profile) img conf) (\<lambda>_.
          build_container env cid name (f profile) img conf br n (no_rollback\<lparr>rb_AllocateAddr := True, rb_CSMEntry := True\<rparr>))) w2)"
        using profile [unfolded Let_def, of "no_rollback\<lparr>rb_AllocateAddr := True\<rparr>" w2] by (simp add: fl0)
    qed
  next
    case False
    have o: "own = False" using False by simp
    show ?thesis unfolding Let_def o if_False step_pure
      by (rule profile [unfolded Let_def]) (use that in \<open>simp_all add: fl0\<close>)
  qed
  show ?thesis
    unfolding create_body_def
  proof (rule ends_step [where B = "?B False False", OF b keep_Pair])
    fix img and w1 :: "'k node" assume b1: "?B False False w1"
    show "ends (flagged env cid st0 ids0) (step no_rollback (ensure_image env m img)
          (\<lambda>_. step no_rollback (ask env (\<lambda>io w. ilm_GetConfigPath io (fst img) (snd img) (nd_ilm w)))
          (\<lambda>path. step no_rollback (ask env (\<lambda>_. ne_image_config env path)) (\<lambda>conf w. case owns_network env (cr_PodId m) w of (own, w1) \<Rightarrow>
            (let fl1 = no_rollback\<lparr>rb_AllocateAddr := own\<rparr> in
             step no_rollback (if own then allocateAddress env cid (bridge_of m) else Pair (Inr ([], []))) (\<lambda>net.
             step fl1 (ask env (\<lambda>_. ne_profile env (cr_SecurityProfile m))) (\<lambda>profile.
             let m' = m\<lparr>cr_SecurityProfile := sp_Name profile\<rparr> in
             step fl1 (register_container env cid name m' img conf) (\<lambda>_.
             build_container env cid name m' img conf (bridge_of m) net (fl1\<lparr>rb_CSMEntry := True\<rparr>)))) w1)))) w1)"
    proof (rule ends_step [where B = "?B False False", OF b1 image], simp add: fl0,
        rule ends_step [where B = "?B False False", OF _ keep_ask [OF neu]], assumption, simp add: fl0,
        rule ends_step [where B = "?B False False", OF _ keep_ask [OF neu]], assumption, simp add: fl0)
      fix path conf and w2 :: "'k node" assume b2: "?B False False w2"
      obtain own w3 where o: "owns_network env (cr_PodId m) w2 = (own, w3)" by force
      have "?B False False w3" by (rule keepD [OF keep_owns_network [OF neu] b2 o])
      from net [OF this, of own "bridge_of m" "cr_SecurityProfile m" "\<lambda>p. m\<lparr>cr_SecurityProfile := sp_Name p\<rparr>" img conf]
      show "ends (flagged env cid st0 ids0) (case owns_network env (cr_PodId m) w2 of (own, w1) \<Rightarrow>
            (let fl1 = no_rollback\<lparr>rb_AllocateAddr := own\<rparr> in
             step no_rollback (if own then allocateAddress env cid (bridge_of m) else Pair (Inr ([], []))) (\<lambda>net.
             step fl1 (ask env (\<lambda>_. ne_profile env (cr_SecurityProfile m))) (\<lambda>profile.
             let m' = m\<lparr>cr_SecurityProfile := sp_Name profile\<rparr> in
             step fl1 (register_container env cid name m' img conf) (\<lambda>_.
             build_container env cid name m' img conf (bridge_of m) net (fl1\<lparr>rb_CSMEntry := True\<rparr>)))) w1))" by (simp only: o prod.case)
    qed
  qed (simp add: fl0)
qed

lemma rollback_books:
  fixes env :: "'k node_env"
  assumes kb: "keeps_books env" and io: "\<forall>n. ne_io env n = io_ok" and b: "flagged env cid st0 ids0 fl w"
    and fresh: "cid \<notin> ids0"
    and del: "\<And>w e. fst (ne_call env (Runtime_Delete cid True) w) = Inl e \<Longrightarrow> isNotFoundErr e"
    and r: "rollback env fl cid w = (r, w')"
  shows "booked (ne_host env) cid st0 ids0 False False w'"
proof -
  let ?B = "booked (ne_host env) cid st0 ids0"
  note ind = indifferent_booked [OF kb]
  note neu = indifferent_neutral [OF ind]
  obtain r1 w1 where 1: "undo (rb_Runtime fl) (tolerate isNotFoundErr (deleteContainer env cid True)) w = (r1, w1)" by force
  have k1: "keep (flagged env cid st0 ids0 fl) (undo (rb_Runtime fl) (tolerate isNotFoundErr (deleteContainer env cid True)))"
    by (intro keep_intros ind)
  have b1: "flagged env cid st0 ids0 fl w1" by (rule keepD [OF k1]) (rule b, rule 1)
  have r1: "r1 = Inr ()"
    using 1 by (auto simp: undo_def tolerate_def deleteContainer_def call_def split: if_splits prod.splits sum.splits)
      (metis del fst_conv)
  obtain r2 w2 where 2: "undo (rb_AllocateAddr fl) (releaseAddress env cid) w1 = (r2, w2)" by force
  have b2: "r2 = Inr () \<and> ?B False (rb_CSMEntry fl) w2"
  proof (cases "rb_AllocateAddr fl")
    case True
    then obtain st where st: "ipam_loadOrInit (ne_host env) (read_file io_ok (nd_ipam w1)) = Inr st" "ipam_inv st" "released cid st = st0"
      using b1 by (auto simp: booked_def)
    have ok: "ipam_inv (released cid st)" using st(2) release_pools_ok [of "ip_Pools st" cid] by (simp add: ipam_inv_def released_def)
    have "r2 = Inr ()" "w2 = tick (w1\<lparr>nd_ipam := \<lparr>main_file = Some (Decoded (released cid st)), tmp_file = None\<rparr>\<rparr>)"
      using 2 True st(1) io
      by (simp_all add: undo_def releaseAddress_def on_ipam_def ipam_Release_def ipam_withLock_def ipam_atomicSave_def withLock_io_ok released_def)
    with b1 True st ok show ?thesis by (simp add: booked_def ipam_loadOrInit_def read_file_io_ok)
  qed (use 2 b1 in \<open>simp add: undo_def\<close>)
  obtain r3 w3 where 3: "undo (rb_CSMEntry fl) (tolerate isNotFoundErr (removeContainer env cid)) w2 = (r3, w3)" by force
  have b3: "r3 = Inr () \<and> ?B False False w3"
  proof (cases "rb_CSMEntry fl")
    case True
    obtain r0 d where d: "csm_RemoveContainer io_ok cid (nd_csm w2) = (r0, d)" by force
    have "csm_disk_inv (nd_csm w2)" using b2 by (simp add: booked_def)
    note rm = container_ids_remove [OF this d]
    have nf: "isNotFoundErr (Msg (''containerId='' @ cid @ '' not found''))"
      using sublist_appendI [of "''not found''" "to_lower (''containerId='' @ cid) @ '' ''" "[]"]
      by (simp add: isNotFoundErr_def str_contains_def to_lower_def to_lower_char_def)
    have "r3 = Inr ()" "w3 = tick (w2\<lparr>nd_csm := d\<rparr>)"
      using 3 True d io rm(3) nf by (auto simp: undo_def tolerate_def removeContainer_def on_csm_def)
    moreover have "container_ids d \<subseteq> ids0" using rm(2) b2 True by (auto simp: booked_def)
    ultimately show ?thesis using b2 rm(1) by (simp add: booked_def)
  qed (use 3 b2 in \<open>simp add: undo_def\<close>)
  have rest: "keep (?B False False) (and_then (undo (rb_DirectoryEnv fl) (deleteContainerDirectory env cid)) (\<lambda>_.
     and_then (undo (rb_CgroupEntry fl) (tolerate (\<lambda>e. isNotFoundErr e \<or> isBusyErr e) (deleteCgroupSubtree env cid))) (\<lambda>_.
     undo (rb_ForwardRule fl) (cleanupForwardRules env cid))))"
    by (intro keep_intros ind)
  show ?thesis
    using r 1 2 3 r1 b2 b3 keepD [OF rest, of w3 r w']
    by (simp add: rollback_def and_then_def)
qed

section \<open>No trace\<close>

lemma container_name_books:
  assumes "neutral B" shows "keep B (container_name env m)"
  using assms unfolding container_name_def Let_def
  by (intro keep_If) (auto simp: generateContainerName_def intro!: keep_intros)

lemma create_core_no_trace:
  fixes env :: "'k node_env"
  assumes kb: "keeps_books env" and io: "\<forall>n. ne_io env n = io_ok"
    and del: "\<And>cid w e. fst (ne_call env (Runtime_Delete cid True) w) = Inl e \<Longrightarrow> isNotFoundErr e"
    and csm: "csm_disk_inv (nd_csm w)" and ipam: "ipam_loadOrInit (ne_host env) (read_file io_ok (nd_ipam w)) = Inr st0" "ipam_inv st0"
    and un: "unallocated (take 12 (ne_ulid env (nd_tick w))) st0"
    and fresh: "take 12 (ne_ulid env (nd_tick w)) \<notin> container_ids (nd_csm w)"
    and r: "create_core env m w = (Inl e, w')"
  shows "container_ids (nd_csm w') \<subseteq> container_ids (nd_csm w) \<and>
    ipam_loadOrInit (ne_host env) (read_file io_ok (nd_ipam w')) = Inr st0"
proof -
  let ?cid = "take 12 (ne_ulid env (nd_tick w))" and ?ids = "container_ids (nd_csm w)"
  let ?B = "booked (ne_host env) ?cid st0 ?ids"
  have b: "?B False False (tick w)" using csm ipam by (simp add: booked_def)
  have k: "keep (?B False False) (container_name env m)"
    by (rule container_name_books [OF indifferent_neutral [OF indifferent_booked [OF kb]]])
  obtain r1 w1 where n: "container_name env m (tick w) = (r1, w1)" by force
  have b1: "?B False False w1" by (rule keepD [OF k]) (rule b, rule n)
  have "?B False False w'"
  proof (cases r1)
    case (Inl e1)
    with r n b1 show ?thesis by (simp add: create_core_def new_ulid_def and_then_def)
  next
    case (Inr name)
    obtain r2 fl w2 where c: "create_body env ?cid name m w1 = ((r2, fl), w2)" by (metis prod.exhaust)
    with r n Inr obtain e2 where e2: "r2 = Inl e2"
      by (cases r2) (auto simp: create_core_def new_ulid_def and_then_def)
    have f: "flagged env ?cid st0 ?ids fl w2"
      using create_body_books [OF kb io un b1, of name m] c e2 by (simp add: ends_def)
    obtain r3 w3 where rb: "rollback env fl ?cid w2 = (r3, w3)" by force
    have "?B False False w3" by (rule rollback_books [OF kb io f fresh del rb])
    with r n Inr c e2 rb show ?thesis by (auto simp: create_core_def new_ulid_def and_then_def split: sum.splits)
  qed
  then show ?thesis by (auto simp: booked_def)
qed

definition ex_env :: "unit node_env" where
  "ex_env = \<lparr>ne_io = \<lambda>_. io_ok, ne_now = \<lambda>_. zero_time, ne_ulid = \<lambda>n. ''01ABCDEFGHJKMNPQRSTVWXYZ01'',
     ne_host = \<lparr>he_interface = Inr ''eth0'', he_addr = Inr ''192.168.0.2''\<rparr>,
     ne_call = (\<lambda>c w. (case c of Runtime_Create _ _ \<Rightarrow> Inl (Msg ''exit status 1'') | Runtime_Delete _ _ \<Rightarrow> Inl (Msg ''container not found'')
        | _ \<Rightarrow> Inr (), w)),
     ne_query = \<lambda>_ _. Inr ''answer'',
     ne_image_config = \<lambda>_ _. Inr \<lparr>ic_Env = [], ic_Cmd = [''sh''], ic_Entrypoint = [], ic_WorkingDir = [], ic_User = []\<rparr>,
     ne_profile = \<lambda>_ _. Inr \<lparr>sp_Name = ''default'', sp_CapBase = [], sp_Seccomp = None, sp_AppArmorProfile = [], sp_NoNewPrivileges = False\<rparr>,
     ne_quote = \<lambda>s. s, ne_uid = 0, ne_gid = 0, ne_uid_base = 100000, ne_gid_base = 100000\<rparr>"

definition ex_node :: "unit node" where
  "ex_node = \<lparr>nd_csm = empty_disk, nd_psm = empty_disk, nd_ipam = empty_disk,
     nd_ilm = \<lparr>main_file = Some (Decoded (ImageLayerState.make ''0.1.0'' (Some [(''library/alpine'', Some [(''latest'',
        \<lparr>rf_BundlePath = ''b'', rf_ConfigPath = ''c'', rf_RootfsPath = ''r'', rf_CreatedAt = zero_time\<rparr>)])]))), tmp_file = None\<rparr>,
     nd_nsm = empty_disk, nd_ssm = empty_disk, nd_npm = empty_npm, nd_netpol = empty_disk, nd_rest = (), nd_tick = 0\<rparr>"

definition ex_model :: ServiceCreateModel where
  "ex_model = \<lparr>cr_Image = ''alpine'', cr_Os = [], cr_Arch = [], cr_Command = [], cr_Port = [''8080:80''], cr_Mount = [],
     cr_Device = [], cr_Env = [], cr_CapAdd = [], cr_CapDrop = [], cr_SecurityProfile = [], cr_Network = [], cr_Tty = False,
     cr_Name = ''web'', cr_BottleId = [], cr_PodId = [], cr_Rootless = False, cr_RootlessMode = [],
     cr_RootlessRootUID = 0, cr_RootlessRootGID = 0, cr_IsPodInfra = False\<rparr>"


lemma step_Inr: "step fl f g w = ((Inr a, fl'), w') \<longleftrightarrow> (\<exists>b w1. f w = (Inr b, w1) \<and> g b w1 = ((Inr a, fl'), w'))"
  by (auto simp: step_def split: prod.splits sum.splits)

lemma wrapped_Inr: "wrapped s f w = (Inr a, w') \<longleftrightarrow> f w = (Inr a, w')"
  by (simp add: wrapped_def split: prod.splits sum.splits)

lemma create_body_runs:
  assumes "create_body env cid name m w = ((Inr i, fl), w')" and "cr_PodId m = []"
  shows "\<exists>w1 u w2. createContainer env cid (cr_Tty m) w1 = (Inr u, w2)"
proof -
  have "\<exists>w1 u w2. createContainer env cid (cr_Tty m1) w1 = (Inr u, w2)"
    if "build_container env cid name m1 img conf br net fl1 w3 = ((Inr i, fl), w')" "cr_PodId m1 = []" for m1 img conf br net fl1 w3
    using that by (auto simp: build_container_def Let_def step_Inr owns_network_def wrapped_Inr)
  from this [of "m\<lparr>cr_SecurityProfile := _\<rparr>"] show ?thesis
    using assms by (auto simp: create_body_def Let_def step_Inr owns_network_def split: prod.splits)
qed

lemma create_core_runs:
  assumes "create_core env m w = (Inr i, w')" and "cr_PodId m = []"
  shows "\<exists>cid w1 u w2. createContainer env cid (cr_Tty m) w1 = (Inr u, w2)"
proof -
  let ?cid = "take 12 (ne_ulid env (nd_tick w))"
  obtain name w1 where n: "container_name env m (tick w) = (Inr name, w1)"
    using assms(1) by (auto simp: create_core_def new_ulid_def Let_def and_then_Inr)
  obtain r fl w2 where c: "create_body env ?cid name m w1 = ((r, fl), w2)" by (metis prod.exhaust)
  have "\<exists>j. r = Inr j"
    using assms(1) n c by (cases r) (auto simp: create_core_def new_ulid_def Let_def and_then_def split: prod.splits sum.splits)
  with c have "\<exists>j. create_body env ?cid name m w1 = ((Inr j, fl), w2)" by blast
  then show ?thesis using create_body_runs assms(2) by blast
qed


end
