(* ===== verification/Namespace_Service.thy ===== *)
theory Namespace_Service
  imports Container_Books Sha256
begin

text \<open>
  The namespace service (\<open>core/namespace/service.go\<close>): creating a namespace with its network, removing an empty one, and the resources that
  keep one from being removed.
\<close>

section \<open>Data\<close>

record NamespaceCreateModel =
  nc_Name :: string
  nc_Network :: string
  nc_Labels :: labels
  nc_Annotations :: labels

record ResourceCounts =
  rc_Pods :: nat
  rc_Services :: nat
  rc_ReplicaSets :: nat
  rc_Deployments :: nat
  rc_Allocations :: nat

text \<open>The service's own \<open>NamespaceInfo\<close>: the stored one and the counts.\<close>

record NamespaceView =
  nv_Name :: string
  nv_Network :: string
  nv_NetworkAuto :: bool
  nv_Labels :: labels
  nv_Annotations :: labels
  nv_CreatedAt :: time
  nv_Resources :: ResourceCounts

section \<open>Names\<close>

text \<open>\<open>^[a-z0-9]([-a-z0-9]*[a-z0-9])?$\<close>\<close>

definition lower_alnum :: "char \<Rightarrow> bool" where
  "lower_alnum c \<longleftrightarrow> CHR ''a'' \<le> c \<and> c \<le> CHR ''z'' \<or> CHR ''0'' \<le> c \<and> c \<le> CHR ''9''"

definition namespaceNamePattern :: "string \<Rightarrow> bool" where
  "namespaceNamePattern s \<longleftrightarrow> s \<noteq> [] \<and> list_all (\<lambda>c. lower_alnum c \<or> c = CHR ''-'') s \<and> lower_alnum (hd s) \<and> lower_alnum (last s)"

definition validateNamespaceName :: "string \<Rightarrow> unit res" where
  "validateNamespaceName name =
     (if name = [] then Inl (Msg ''namespace name is required'')
      else if length name > 63 then Inl (Msg ''namespace name must be 63 characters or less'')
      else if \<not> namespaceNamePattern name then Inl (Msg (''invalid namespace name: '' @ name))
      else Inr ())"

definition bridgeNameForNamespace :: "string \<Rightarrow> string" where
  "bridgeNameForNamespace name = ''rns'' @ take 12 (EncodeToString (Sum256 name))"

section \<open>Counting\<close>

definition isEmpty :: "ResourceCounts \<Rightarrow> bool" where
  "isEmpty r \<longleftrightarrow> rc_Pods r = 0 \<and> rc_Services r = 0 \<and> rc_ReplicaSets r = 0 \<and> rc_Deployments r = 0 \<and> rc_Allocations r = 0"

definition count_in :: "('a \<Rightarrow> string) \<Rightarrow> string \<Rightarrow> 'a list \<Rightarrow> nat" where
  "count_in f n xs = length (filter (\<lambda>x. f x = n) xs)"

text \<open>A failing read of the networks counts no allocation.\<close>

definition resourceCounts :: "'k node_env \<Rightarrow> string \<Rightarrow> string \<Rightarrow> 'k node \<Rightarrow> ResourceCounts res \<times> 'k node" where
  "resourceCounts env name network =
     and_then (ask env (\<lambda>io w. psm_GetPodList io (nd_psm w))) (\<lambda>pods.
     and_then (ask env (\<lambda>io w. ssm_GetServiceList io (nd_ssm w))) (\<lambda>services.
     and_then (ask env (\<lambda>io w. psm_GetReplicaSetList io (nd_psm w))) (\<lambda>sets.
     and_then (ask env (\<lambda>io w. psm_GetDeploymentList io (nd_psm w))) (\<lambda>deployments w.
       case ask env (\<lambda>io w. ipam_GetNetworkList (ne_host env) io (nd_ipam w)) w of (networks, w1) \<Rightarrow>
         (Inr \<lparr>rc_Pods = count_in pd_Namespace name pods, rc_Services = count_in sv_Namespace name services,
            rc_ReplicaSets = count_in (rs_Namespace \<circ> ri_Spec) name sets,
            rc_Deployments = count_in (dy_Namespace \<circ> di_Spec) name deployments,
            rc_Allocations = (case networks of Inl _ \<Rightarrow> 0 | Inr ns \<Rightarrow>
              (case find (\<lambda>n. nl_Interface n = network) ns of None \<Rightarrow> 0 | Some n \<Rightarrow> nl_NumContainers n))\<rparr>, w1)))))"

definition enrich :: "'k node_env \<Rightarrow> NamespaceInfo \<Rightarrow> 'k node \<Rightarrow> NamespaceView res \<times> 'k node" where
  "enrich env info = and_then (resourceCounts env (ns_Name info) (ns_Network info)) (\<lambda>counts w.
     (Inr \<lparr>nv_Name = ns_Name info, nv_Network = ns_Network info, nv_NetworkAuto = ns_NetworkAuto info, nv_Labels = ns_Labels info,
        nv_Annotations = ns_Annotations info, nv_CreatedAt = ns_CreatedAt info, nv_Resources = counts\<rparr>, w))"

section \<open>Operations\<close>

text \<open>Reading the namespace document takes an instant too, for the default namespace.\<close>

definition ask_namespace :: "'k node_env \<Rightarrow> string \<Rightarrow> 'k node \<Rightarrow> NamespaceInfo res \<times> 'k node" where
  "ask_namespace env name w = ask env (\<lambda>io w. nsm_GetNamespace (ne_now env (nd_tick w)) io name (nd_nsm w)) w"

definition Namespace_Create :: "'k node_env \<Rightarrow> NamespaceCreateModel \<Rightarrow> 'k node \<Rightarrow> NamespaceView res \<times> 'k node" where
  "Namespace_Create env p =
     (let name = trim_space (nc_Name p); given = trim_space (nc_Network p); auto = (given = []);
          network = (if auto then bridgeNameForNamespace name else given) in
      and_then (Pair (validateNamespaceName name)) (\<lambda>_.
      if name = DefaultNamespace then Pair (Inl (Msg (''namespace already exists: '' @ name)))
      else and_then (if auto then call env (CreateNewNetwork network)
          else (\<lambda>w. case ask env (\<lambda>io w. ipam_GetBridgeAddr (ne_host env) io network (nd_ipam w)) w of
            (Inl _, w1) \<Rightarrow> (Inl (Msg (''network not found: '' @ network)), w1) | (Inr _, w1) \<Rightarrow> (Inr (), w1))) (\<lambda>_ w.
        let (now, w1) = clock env w;
            info = \<lparr>ns_Name = name, ns_Network = network, ns_NetworkAuto = auto, ns_Labels = nc_Labels p,
              ns_Annotations = nc_Annotations p, ns_CreatedAt = now\<rparr>
        in case on_nsm env (\<lambda>io now. nsm_StoreNamespace now io info) w1 of
             (Inl e, w2) \<Rightarrow> (Inl e, if auto then ignore (call env (RemoveNetwork network)) w2 else w2)
           | (Inr _, w2) \<Rightarrow> enrich env info w2)))"

definition Namespace_Remove :: "'k node_env \<Rightarrow> string \<Rightarrow> 'k node \<Rightarrow> string res \<times> 'k node" where
  "Namespace_Remove env name0 =
     (let name = trim_space name0 in
      if name = [] then Pair (Inl (Msg ''namespace name is required''))
      else if name = DefaultNamespace then Pair (Inl (Msg ''default namespace cannot be removed''))
      else and_then (ask_namespace env name) (\<lambda>info.
        and_then (enrich env info) (\<lambda>v.
        if \<not> isEmpty (nv_Resources v) then Pair (Inl (Msg (''namespace '' @ name @ '' is not empty'')))
        else and_then (if ns_NetworkAuto info \<and> ns_Network info \<noteq> [] then call env (RemoveNetwork (ns_Network info)) else Pair (Inr ())) (\<lambda>_.
        and_then (on_nsm env (\<lambda>io now. nsm_RemoveNamespace now io name)) (\<lambda>_ w. (Inr name, w))))))"

definition Namespace_Get :: "'k node_env \<Rightarrow> string \<Rightarrow> 'k node \<Rightarrow> NamespaceView res \<times> 'k node" where
  "Namespace_Get env name = and_then (ask_namespace env (trim_space name)) (enrich env)"

fun enrich_all :: "'k node_env \<Rightarrow> NamespaceInfo list \<Rightarrow> 'k node \<Rightarrow> NamespaceView list res \<times> 'k node" where
  "enrich_all env [] w = (Inr [], w)"
| "enrich_all env (n # ns) w = and_then (enrich env n) (\<lambda>v. and_then (enrich_all env ns) (\<lambda>vs w. (Inr (v # vs), w))) w"

definition Namespace_List :: "'k node_env \<Rightarrow> 'k node \<Rightarrow> NamespaceView list res \<times> 'k node" where
  "Namespace_List env = and_then (\<lambda>w. ask env (\<lambda>io w. nsm_GetNamespaceList (ne_now env (nd_tick w)) io (nd_nsm w)) w) (enrich_all env)"

definition ResolveNetwork :: "'k node_env \<Rightarrow> string \<Rightarrow> 'k node \<Rightarrow> string res \<times> 'k node" where
  "ResolveNetwork env name = and_then (ask_namespace env (if trim_space name = [] then DefaultNamespace else name)) (\<lambda>info w.
     (Inr (if ns_Network info = [] then DefaultNamespaceNetwork else ns_Network info), w))"

section \<open>Bridge names\<close>

lemma bridge_name: "length (bridgeNameForNamespace name) = 15 \<and> list_all lower_alnum (bridgeNameForNamespace name)"
proof -
  have "set (EncodeToString (Sum256 name)) \<subseteq> set ''0123456789abcdef''"
    using Sum256_lt by (intro EncodeToString_hex) blast
  then have "set (bridgeNameForNamespace name) \<subseteq> set ''rns'' \<union> set ''0123456789abcdef''"
    using set_take_subset [of 12 "EncodeToString (Sum256 name)"] unfolding bridgeNameForNamespace_def set_append by blast
  moreover have "\<forall>c \<in> set ''rns'' \<union> set ''0123456789abcdef''. lower_alnum c" by (simp add: lower_alnum_def less_eq_char_def)
  ultimately have "list_all lower_alnum (bridgeNameForNamespace name)" unfolding list_all_iff by blast
  then show ?thesis by (simp add: bridgeNameForNamespace_def)
qed

section \<open>Removing a namespace\<close>

lemma count_in_0: "count_in f n xs = 0 \<longleftrightarrow> (\<forall>x \<in> set xs. f x \<noteq> n)"
  by (auto simp: count_in_def filter_empty_conv)

lemma ask_Inr: "ask env f w = (r, w') \<longleftrightarrow> r = f (ne_io env (nd_tick w)) w \<and> w' = tick w"
  by (auto simp: ask_def)

definition namespace_empty :: "string \<Rightarrow> 'k node \<Rightarrow> bool" where
  "namespace_empty name w \<longleftrightarrow>
     (\<exists>st. psm_loadOrInit (read_file io_ok (nd_psm w)) = Inr st \<and> (\<forall>(_, p) \<in> set (ps_Pods st). pd_Namespace p \<noteq> name) \<and>
        (\<forall>(_, r) \<in> set (ps_ReplicaSets st). rs_Namespace (ri_Spec r) \<noteq> name) \<and>
        (\<forall>(_, d) \<in> set (ps_Deployments st). dy_Namespace (di_Spec d) \<noteq> name)) \<and>
     (\<exists>st. ssm_loadOrInit (read_file io_ok (nd_ssm w)) = Inr st \<and> (\<forall>(_, s) \<in> set (sst_Services st). sv_Namespace s \<noteq> name))"

lemma resourceCounts_empty:
  assumes "resourceCounts env name network w = (Inr c, w')" and "isEmpty c"
  shows "namespace_empty name w"
proof -
  note reads = withRLock_reads [where load = psm_loadOrInit] withRLock_reads [where load = ssm_loadOrInit]
  have no: "\<not> is_ok (psm_loadOrInit (ReadFailed e))" "\<not> is_ok (ssm_loadOrInit (ReadFailed e))" for e
    by (simp_all add: psm_loadOrInit_def ssm_loadOrInit_def load_or_init_def)
  obtain io1 io2 io3 io4 pods services sets deployments where r:
      "psm_GetPodList io1 (nd_psm w) = Inr pods" "ssm_GetServiceList io2 (nd_ssm w) = Inr services"
      "psm_GetReplicaSetList io3 (nd_psm w) = Inr sets" "psm_GetDeploymentList io4 (nd_psm w) = Inr deployments"
    and n: "count_in pd_Namespace name pods = 0" "count_in sv_Namespace name services = 0"
      "count_in (rs_Namespace \<circ> ri_Spec) name sets = 0" "count_in (dy_Namespace \<circ> di_Spec) name deployments = 0"
    using assms by (auto simp: resourceCounts_def and_then_Inr ask_def isEmpty_def split: prod.splits)
  have "\<exists>st. psm_loadOrInit (read_file io_ok (nd_psm w)) = Inr st \<and> pods = map snd (ps_Pods st) \<and>
      sets = map snd (ps_ReplicaSets st) \<and> deployments = map snd (ps_Deployments st)"
    using r(1,3,4)
    by (auto simp: psm_GetPodList_def psm_GetReplicaSetList_def psm_GetDeploymentList_def psm_withRLock_def dest!: reads(1) [OF _ no(1)])
  moreover have "\<exists>st. ssm_loadOrInit (read_file io_ok (nd_ssm w)) = Inr st \<and> services = map (normalised \<circ> snd) (sst_Services st)"
    using r(2) by (auto simp: ssm_GetServiceList_def ssm_withRLock_def dest!: reads(2) [OF _ no(2)])
  ultimately show ?thesis
    using n by (fastforce simp: namespace_empty_def count_in_0 normalised_def case_prod_beta)
qed

lemma ask_namespace_name:
  assumes "nsm_reachable (nd_nsm w)" and "ask_namespace env name w = (Inr info, w')"
  shows "ns_Name info = name" and "w' = tick w"
proof -
  obtain now io where g: "nsm_GetNamespace now io name (nd_nsm w) = Inr info" and w': "w' = tick w"
    using assms(2) by (auto simp: ask_namespace_def ask_def)
  have "\<not> is_ok (nsm_loadOrInit now (ReadFailed e))" for e by (simp add: nsm_loadOrInit_def load_or_init_def)
  from withRLock_reads [OF g [unfolded nsm_GetNamespace_def nsm_withRLock_def] this] w'
  obtain st where "nsm_loadOrInit now (read_file io_ok (nd_nsm w)) = Inr st"
      "lookup_entry (''namespace not found: '' @ name) name (nst_Namespace st) = Inr info" and "w' = tick w" by blast
  moreover obtain st' where "nsm_loadOrInit now (read_file io_ok (nd_nsm w)) = Inr st'" "nsm_inv st'"
    using nsm_load [OF assms(1)] by blast
  ultimately show "ns_Name info = name" "w' = tick w"
    by (auto simp: nsm_inv_def lookup_entry_def dest: keyed_by_lookup split: option.splits)
qed

lemma removed_namespace:
  assumes "nsm_RemoveNamespace now io name d = (Inr u, d')"
  shows "\<not> nsm_IsNamespaceExist now' io' name d'" and "name \<noteq> DefaultNamespace"
proof -
  obtain st where st: "main_file d' = Some (Decoded (nsm_marshal st))" "map_of (nst_Namespace st) name = None" and n: "name \<noteq> DefaultNamespace"
    using withLock_Inr [OF assms [unfolded nsm_RemoveNamespace_def nsm_withLock_def nsm_atomicSave_def]]
    by (auto simp: remove_entry_Inr split: if_splits)
  then show "\<not> nsm_IsNamespaceExist now' io' name d'"
    by (auto simp: nsm_IsNamespaceExist_def nsm_GetNamespace_def nsm_withRLock_def withRLock_def nsm_loadOrInit_def load_or_init_def read_file_def
        lookup_entry_def nsm_complete_def nsm_marshal_def or_empty_def ensureDefaultNamespace_def split: option.splits sum.splits)
  show "name \<noteq> DefaultNamespace" by (rule n)
qed

lemma enrich_Inr: "enrich env info w = (Inr v, w') \<Longrightarrow>
    resourceCounts env (ns_Name info) (ns_Network info) w = (Inr (nv_Resources v), w')"
  by (auto simp: enrich_def and_then_Inr)

text \<open>
  Property C14. A namespace is removed only when it is empty: a successful removal names neither the default namespace nor one that has a pod,
  a replica set, a deployment or a service, whatever the calls and the accesses to the documents answer, and afterwards the
  namespace is gone.
\<close>

theorem Namespace_Remove_only_empty:
  assumes "nsm_reachable (nd_nsm w)" and "Namespace_Remove env name w = (Inr n, w')"
  shows "n = trim_space name \<and> n \<noteq> DefaultNamespace \<and> namespace_empty n w \<and> (\<forall>now io. \<not> nsm_IsNamespaceExist now io n (nd_nsm w'))"
proof -
  let ?n = "trim_space name"
  obtain info w1 v w2 w3 w4 where 1: "ask_namespace env ?n w = (Inr info, w1)" "enrich env info w1 = (Inr v, w2)" "isEmpty (nv_Resources v)"
    and 2: "on_nsm env (\<lambda>io now. nsm_RemoveNamespace now io ?n) w3 = (Inr (), w4)" "n = ?n" "w' = w4"
    using assms(2) by (auto simp: Namespace_Remove_def Let_def and_then_Inr split: if_splits)
  have "namespace_empty ?n (tick w)"
    using resourceCounts_empty [OF enrich_Inr [OF 1(2)] 1(3)] ask_namespace_name [OF assms(1) 1(1)] by simp
  then have "namespace_empty ?n w" by (simp add: namespace_empty_def)
  moreover obtain now io d where "nsm_RemoveNamespace now io ?n (nd_nsm w3) = (Inr (), d)" "nd_nsm w4 = d"
    using 2(1) by (auto simp: on_nsm_def split: prod.splits)
  ultimately show ?thesis using removed_namespace 2(2,3) by metis
qed

definition ex_shop :: "unit node" where
  "ex_shop = ex_node\<lparr>nd_nsm := snd (nsm_StoreNamespace 3 io_ok \<lparr>ns_Name = ''shop'', ns_Network = ''rns8d9001d32c6a'', ns_NetworkAuto = True,
     ns_Labels = None, ns_Annotations = None, ns_CreatedAt = 3\<rparr> empty_disk)\<rparr>"

theorem Namespace_Remove_only_empty_witness:
  "fst (Namespace_Remove ex_env '' shop'' ex_shop) = Inr ''shop'' \<and> namespace_empty ''shop'' ex_shop \<and>
   \<not> nsm_IsNamespaceExist 9 io_ok ''shop'' (nd_nsm (snd (Namespace_Remove ex_env '' shop'' ex_shop)))"
proof -
  have r: "nsm_reachable (nd_nsm ex_shop)" by (simp add: ex_shop_def ex_node_def nsm_reachable.intros)
  have f: "fst (Namespace_Remove ex_env '' shop'' ex_shop) = Inr ''shop''" by code_simp
  then have "Namespace_Remove ex_env '' shop'' ex_shop = (Inr ''shop'', snd (Namespace_Remove ex_env '' shop'' ex_shop))"
    by (metis prod.collapse)
  from Namespace_Remove_only_empty [OF r this] f show ?thesis by blast
qed

end
