(* ===== verification/Pod_Service.thy ===== *)
theory Pod_Service
  imports Namespace_Service
begin

text \<open>
  The pod service (\<open>core/pod/service*.go\<close>): a pod is an entry of the pod document, filed with the template it is made from, and the containers
  that carry its identifier, among them the infrastructure container that owns its namespaces.
\<close>

section \<open>Data\<close>

record PodCreateModel =
  pm_Name :: string
  pm_Namespace :: string
  pm_UID :: string
  pm_NetworkNS :: string
  pm_IPCNS :: string
  pm_UTSNS :: string
  pm_UserNS :: string
  pm_Rootless :: bool
  pm_Labels :: labels
  pm_Annotations :: labels
  pm_Containers :: "ContainerTemplateSpec list"

text \<open>\<open>PodState\<close> of \<open>model.go\<close>: a stored pod and its container counts.\<close>

record PodView =
  pv_PodId :: string
  pv_Name :: string
  pv_Namespace :: string
  pv_UID :: string
  pv_State :: string
  pv_DesiredContainers :: nat
  pv_RunningContainers :: nat
  pv_NetworkNS :: string
  pv_IPCNS :: string
  pv_UTSNS :: string
  pv_UserNS :: string
  pv_Rootless :: bool
  pv_Labels :: labels
  pv_Annotations :: labels
  pv_CreatedAt :: time
  pv_StartedAt :: time
  pv_StoppedAt :: time

section \<open>Helpers\<close>

text \<open>The service tests the prefix only.\<close>

definition pod_isInfraName :: "string \<Rightarrow> bool" where
  "pod_isInfraName name = prefix PodInfraContainerNamePrefix name"

definition resolveContainerNetworks ::
  "'k node_env \<Rightarrow> string \<Rightarrow> ContainerTemplateSpec list \<Rightarrow> 'k node \<Rightarrow> ContainerTemplateSpec list res \<times> 'k node" where
  "resolveContainerNetworks env namespace cs =
     (if cs = [] then Pair (Inr cs)
      else and_then (ResolveNetwork env namespace) (\<lambda>network w.
        (Inr (map (\<lambda>c. if ct_Network c = [] then c\<lparr>ct_Network := network\<rparr> else c) cs), w)))"

section \<open>Removing\<close>

definition stopContainerIgnoreStopped :: "'k node_env \<Rightarrow> string \<Rightarrow> 'k node \<Rightarrow> unit res \<times> 'k node" where
  "stopContainerIgnoreStopped env cid =
     tolerate (\<lambda>e. str_contains (error_text e) ''stop operation not allowed to current container status'' \<or> isNotFoundErr e)
       (void (Container_Stop env cid False))"

definition remove_container :: "'k node_env \<Rightarrow> string \<Rightarrow> 'k node \<Rightarrow> unit res \<times> 'k node" where
  "remove_container env cid =
     and_then (stopContainerIgnoreStopped env cid) (\<lambda>_. tolerate isNotFoundErr (void (Container_Delete env cid False)))"

fun remove_containers :: "'k node_env \<Rightarrow> string list \<Rightarrow> 'k node \<Rightarrow> unit res \<times> 'k node" where
  "remove_containers env [] w = (Inr (), w)"
| "remove_containers env (c # cs) w = and_then (remove_container env c) (\<lambda>_. remove_containers env cs) w"

text \<open>The members in the order of the list, then the infrastructure container, the last one if there are several.\<close>

definition removal_order :: "ContainerView list \<Rightarrow> string list" where
  "removal_order cs = map cv_ContainerId (filter (\<lambda>c. \<not> pod_isInfraName (cv_Name c)) cs @
     (case filter (\<lambda>c. pod_isInfraName (cv_Name c)) cs of [] \<Rightarrow> [] | infra \<Rightarrow> [last infra]))"

text \<open>A step whose "not found" ends the removal with success.\<close>

definition unless_gone :: "('a \<Rightarrow> 'w \<Rightarrow> string res \<times> 'w) \<Rightarrow> string \<Rightarrow> ('w \<Rightarrow> 'w) \<Rightarrow> ('w \<Rightarrow> 'a res \<times> 'w) \<Rightarrow> 'w \<Rightarrow> string res \<times> 'w" where
  "unless_gone g podId gone f w =
     (case f w of (Inl e, w') \<Rightarrow> if isNotFoundErr e then (Inr podId, gone w') else (Inl e, w') | (Inr a, w') \<Rightarrow> g a w')"

definition drop_template :: "'k node_env \<Rightarrow> string \<Rightarrow> 'k node \<Rightarrow> 'k node" where
  "drop_template env tid w =
     (if tid = [] then w
      else case ask env (\<lambda>io w. psm_IsTemplateReferenced io tid (nd_psm w)) w of
        (Inr False, w') \<Rightarrow> ignore (on_psm env (\<lambda>io _. psm_RemovePodTemplate io tid)) w'
      | (_, w') \<Rightarrow> w')"

definition Pod_Remove :: "'k node_env \<Rightarrow> string \<Rightarrow> 'k node \<Rightarrow> string res \<times> 'k node" where
  "Pod_Remove env podId =
     unless_gone (\<lambda>pod.
       unless_gone (\<lambda>_.
         unless_gone (\<lambda>cs.
           and_then (remove_containers env (removal_order cs)) (\<lambda>_.
           unless_gone (\<lambda>_ w. (Inr podId, drop_template env (pd_TemplateId pod) w))
             podId id (on_psm env (\<lambda>io _. psm_RemovePod io podId))))
         podId (ignore (on_psm env (\<lambda>io _. psm_RemovePod io podId))) (GetContainersByPodId env podId))
       podId id (on_psm env (\<lambda>io _. psm_UpdatePodStoppedByUser io podId True)))
     podId id (ask env (\<lambda>io w. psm_GetPodById io podId (nd_psm w)))"

section \<open>Creating\<close>

definition store_request :: "string \<Rightarrow> string \<Rightarrow> PodCreateModel \<Rightarrow> StorePodRequest" where
  "store_request podId tid m = \<lparr>pr_PodId = podId, pr_TemplateId = tid, pr_OwnerKind = [], pr_OwnerId = [], pr_Name = pm_Name m,
     pr_Namespace = pm_Namespace m, pr_UID = pm_UID m, pr_State = PodStateCreated, pr_NetworkNS = pm_NetworkNS m, pr_IPCNS = pm_IPCNS m,
     pr_UTSNS = pm_UTSNS m, pr_UserNS = pm_UserNS m, pr_Rootless = pm_Rootless m, pr_Labels = pm_Labels m, pr_Annotations = pm_Annotations m\<rparr>"

definition store_pod :: "'k node_env \<Rightarrow> string \<Rightarrow> PodCreateModel \<Rightarrow> 'k node \<Rightarrow> string res \<times> 'k node" where
  "store_pod env tid m w =
     (case new_ulid env w of (podId, w1) \<Rightarrow>
        and_then (on_psm env (\<lambda>io now. psm_StorePod io now (store_request podId tid m))) (\<lambda>_ w. (Inr podId, w)) w1)"

text \<open>
  A pod of the same name and another UID is replaced. When the name cannot be looked up, or the pod found vanishes in between, the new pod
  is stored.
\<close>

definition createWithTemplate :: "'k node_env \<Rightarrow> string \<Rightarrow> PodCreateModel \<Rightarrow> 'k node \<Rightarrow> string res \<times> 'k node" where
  "createWithTemplate env tid m0 w =
     (if pm_Name m0 = [] then (Inl (Msg ''pod name is required''), w)
      else if pm_Namespace m0 = [] then (Inl (Msg ''pod namespace is required''), w)
      else
       let (m, w1) = (if pm_UID m0 = [] then (case new_ulid env w of (u, w1) \<Rightarrow> (m0\<lparr>pm_UID := u\<rparr>, w1)) else (m0, w)) in
       (case ask env (\<lambda>io w. psm_GetPodIdByName io (pm_Name m) (pm_Namespace m) (nd_psm w)) w1 of
          (Inl _, w2) \<Rightarrow> store_pod env tid m w2
        | (Inr existingId, w2) \<Rightarrow>
            (case ask env (\<lambda>io w. psm_GetPodById io existingId (nd_psm w)) w2 of
               (Inl _, w3) \<Rightarrow> store_pod env tid m w3
             | (Inr existing, w3) \<Rightarrow>
                 if pd_UID existing \<noteq> [] \<and> pm_UID m \<noteq> [] \<and> pd_UID existing = pm_UID m then (Inr existingId, w3)
                 else if pd_UID existing \<noteq> [] \<and> pm_UID m \<noteq> [] \<and> pd_UID existing \<noteq> pm_UID m
                 then and_then (Pod_Remove env existingId) (\<lambda>_. store_pod env tid m) w3
                 else (Inl (Msg (''pod name already used: '' @ pm_Namespace m @ ''/'' @ pm_Name m)), w3))))"

definition template_spec :: "PodCreateModel \<Rightarrow> ContainerTemplateSpec list \<Rightarrow> PodTemplateSpec" where
  "template_spec m cs = \<lparr>pt_Name = pm_Name m, pt_Namespace = pm_Namespace m, pt_NetworkNS = pm_NetworkNS m, pt_IPCNS = pm_IPCNS m,
     pt_UTSNS = pm_UTSNS m, pt_UserNS = pm_UserNS m, pt_Rootless = pm_Rootless m, pt_Labels = pm_Labels m,
     pt_Annotations = pm_Annotations m, pt_Containers = cs\<rparr>"

definition Pod_Create :: "'k node_env \<Rightarrow> PodCreateModel \<Rightarrow> 'k node \<Rightarrow> string res \<times> 'k node" where
  "Pod_Create env m w =
     (case new_ulid env w of (tid, w1) \<Rightarrow>
        and_then (resolveContainerNetworks env (pm_Namespace m) (pm_Containers m)) (\<lambda>cs.
        and_then (on_psm env (\<lambda>io now. psm_StorePodTemplate io now tid (template_spec m cs))) (\<lambda>_.
        createWithTemplate env tid m)) w1)"

definition CreateFromTemplate :: "'k node_env \<Rightarrow> string \<Rightarrow> string \<Rightarrow> 'k node \<Rightarrow> string res \<times> 'k node" where
  "CreateFromTemplate env tid nameOverride =
     and_then (ask env (\<lambda>io w. psm_GetPodTemplate io tid (nd_psm w))) (\<lambda>t.
       let s = ti_Spec t in
       createWithTemplate env tid \<lparr>pm_Name = (if nameOverride \<noteq> [] then nameOverride else pt_Name s), pm_Namespace = pt_Namespace s,
         pm_UID = [], pm_NetworkNS = pt_NetworkNS s, pm_IPCNS = pt_IPCNS s, pm_UTSNS = pt_UTSNS s, pm_UserNS = pt_UserNS s,
         pm_Rootless = pt_Rootless s, pm_Labels = pt_Labels s, pm_Annotations = pt_Annotations s, pm_Containers = []\<rparr>)"

definition RecreateFromTemplate :: "'k node_env \<Rightarrow> string \<Rightarrow> 'k node \<Rightarrow> string res \<times> 'k node" where
  "RecreateFromTemplate env tid = CreateFromTemplate env tid []"

section \<open>Starting and stopping\<close>

text \<open>Equal length, and each entry of the first found in the second, where a missing entry reads as the empty string.\<close>

definition equalStringMap :: "labels \<Rightarrow> labels \<Rightarrow> bool" where
  "equalStringMap a b \<longleftrightarrow> length (or_empty a) = length (or_empty b) \<and>
     list_all (\<lambda>(k, v). (case map_of (or_empty b) k of None \<Rightarrow> [] | Some x \<Rightarrow> x) = v) (or_empty a)"

definition image_required :: "ContainerTemplateSpec \<Rightarrow> go_error" where
  "image_required c = Msg (''pod template invalid: container image required: '' @ ct_Name c)"

definition check_labels :: "PodTemplateSpec \<Rightarrow> PodInfo \<Rightarrow> unit res" where
  "check_labels s p =
     (if \<not> equalStringMap (pt_Labels s) (pd_Labels p) then Inl (Msg ''pod template mismatch: labels'')
      else if \<not> equalStringMap (pt_Annotations s) (pd_Annotations p) then Inl (Msg ''pod template mismatch: annotations'')
      else (case find (\<lambda>c. ct_Name c \<noteq> [] \<and> ct_Image c = []) (pt_Containers s) of Some c \<Rightarrow> Inl (image_required c) | None \<Rightarrow> Inr ()))"

definition ensurePodTemplateConsistency :: "'k node_env \<Rightarrow> PodInfo \<Rightarrow> 'k node \<Rightarrow> unit res \<times> 'k node" where
  "ensurePodTemplateConsistency env p =
     (if pd_TemplateId p = [] then Pair (Inr ())
      else and_then (ask env (\<lambda>io w. psm_GetPodTemplate io (pd_TemplateId p) (nd_psm w))) (\<lambda>t.
        and_then (if pt_Name (ti_Spec t) \<noteq> pd_Name p \<or> pt_Namespace (ti_Spec t) \<noteq> pd_Namespace p
          then and_then (ask env (\<lambda>io w. psm_IsTemplateReferenced io (pd_TemplateId p) (nd_psm w))) (\<lambda>inUse w.
            (if inUse then Inr () else Inl (Msg ''pod template mismatch: name/namespace''), w))
          else Pair (Inr ())) (\<lambda>_ w. (check_labels (ti_Spec t) p, w))))"

definition buildPodMemberName :: "string \<Rightarrow> string \<Rightarrow> string" where
  "buildPodMemberName base podId = (if base = [] then base else base @ ''-'' @ last_chars 8 podId)"

definition member_model :: "ContainerTemplateSpec \<Rightarrow> string \<Rightarrow> PodInfo \<Rightarrow> ServiceCreateModel" where
  "member_model c network p = \<lparr>cr_Image = ct_Image c, cr_Os = [], cr_Arch = [], cr_Command = ct_Command c, cr_Port = ct_Port c,
     cr_Mount = ct_Mount c, cr_Device = [], cr_Env = ct_Env c, cr_CapAdd = ct_CapAdd c, cr_CapDrop = ct_CapDrop c,
     cr_SecurityProfile = ct_SecurityProfile c, cr_Network = network, cr_Tty = ct_Tty c, cr_Name = ct_Name c, cr_BottleId = [],
     cr_PodId = pd_PodId p, cr_Rootless = pd_Rootless p, cr_RootlessMode = [], cr_RootlessRootUID = 0, cr_RootlessRootGID = 0,
     cr_IsPodInfra = False\<rparr>"

text \<open>Create the containers of the template that are missing; \<open>actual\<close> are the names of the members there were before.\<close>

fun ensure_members :: "'k node_env \<Rightarrow> PodInfo \<Rightarrow> string list \<Rightarrow> ContainerTemplateSpec list \<Rightarrow> 'k node \<Rightarrow> unit res \<times> 'k node" where
  "ensure_members env p actual [] w = (Inr (), w)"
| "ensure_members env p actual (c # cs) w =
     (if ct_Name c = [] then ensure_members env p actual cs w
      else if ct_Image c = [] then (Inl (image_required c), w)
      else and_then (if ct_Network c = [] then ResolveNetwork env (pd_Namespace p) else Pair (Inr (ct_Network c))) (\<lambda>network.
        if buildPodMemberName (ct_Name c) (pd_PodId p) \<in> set actual then ensure_members env p actual cs
        else and_then (Container_Create env (member_model c network p)) (\<lambda>_. ensure_members env p actual cs)) w)"

definition ensurePodTemplateContainers :: "'k node_env \<Rightarrow> PodInfo \<Rightarrow> 'k node \<Rightarrow> unit res \<times> 'k node" where
  "ensurePodTemplateContainers env p =
     (if pd_TemplateId p = [] then Pair (Inr ())
      else and_then (ask env (\<lambda>io w. psm_GetPodTemplate io (pd_TemplateId p) (nd_psm w))) (\<lambda>t.
        if pt_Containers (ti_Spec t) = [] then Pair (Inr ())
        else and_then (GetContainersByPodId env (pd_PodId p)) (\<lambda>cs.
          ensure_members env p (map cv_Name (filter (\<lambda>c. \<not> pod_isInfraName (cv_Name c)) cs)) (pt_Containers (ti_Spec t)))))"

fun start_all :: "'k node_env \<Rightarrow> string list \<Rightarrow> 'k node \<Rightarrow> unit res \<times> 'k node" where
  "start_all env [] w = (Inr (), w)"
| "start_all env (c # cs) w = and_then (Container_Start env c False False) (\<lambda>_. start_all env cs) w"

text \<open>Infrastructure containers first; what is running is left alone.\<close>

definition start_order :: "ContainerView list \<Rightarrow> string list" where
  "start_order cs = map cv_ContainerId (filter (\<lambda>c. pod_isInfraName (cv_Name c) \<and> cv_State c \<noteq> ''running'') cs @
     filter (\<lambda>c. \<not> pod_isInfraName (cv_Name c) \<and> cv_State c \<noteq> ''running'') cs)"

definition Pod_Start :: "'k node_env \<Rightarrow> string \<Rightarrow> 'k node \<Rightarrow> string res \<times> 'k node" where
  "Pod_Start env podId =
     and_then (ask env (\<lambda>io w. psm_GetPodById io podId (nd_psm w))) (\<lambda>p.
     and_then (ensurePodTemplateConsistency env p) (\<lambda>_.
     and_then (ensurePodTemplateContainers env p) (\<lambda>_.
     and_then (GetContainersByPodId env podId) (\<lambda>cs.
     and_then (start_all env (start_order cs)) (\<lambda>_.
     and_then (on_psm env (\<lambda>io now. psm_UpdatePod io now podId PodStateRunning)) (\<lambda>_ w.
       (Inr podId, ignore (on_psm env (\<lambda>io _. psm_UpdatePodStoppedByUser io podId False)) w)))))))"

fun stop_all :: "'k node_env \<Rightarrow> string list \<Rightarrow> 'k node \<Rightarrow> unit res \<times> 'k node" where
  "stop_all env [] w = (Inr (), w)"
| "stop_all env (c # cs) w = and_then (Container_Stop env c False) (\<lambda>_. stop_all env cs) w"

definition Pod_Stop :: "'k node_env \<Rightarrow> string \<Rightarrow> 'k node \<Rightarrow> string res \<times> 'k node" where
  "Pod_Stop env podId =
     and_then (GetContainersByPodId env podId) (\<lambda>cs.
     and_then (stop_all env (map cv_ContainerId (filter (\<lambda>c. \<not> pod_isInfraName (cv_Name c)) cs))) (\<lambda>_.
     and_then (on_psm env (\<lambda>io now. psm_UpdatePod io now podId PodStateStopped)) (\<lambda>_.
     and_then (on_psm env (\<lambda>io _. psm_UpdatePodStoppedByUser io podId True)) (\<lambda>_ w. (Inr podId, w)))))"

section \<open>Listing\<close>

definition getContainerCounts :: "'k node_env \<Rightarrow> string \<Rightarrow> string \<Rightarrow> 'k node \<Rightarrow> (nat \<times> nat) res \<times> 'k node" where
  "getContainerCounts env podId tid w =
     (let (desired, w1) = (if tid = [] then (0, w)
          else case ask env (\<lambda>io w. psm_GetPodTemplate io tid (nd_psm w)) w of
            (Inl _, w1) \<Rightarrow> (0, w1) | (Inr t, w1) \<Rightarrow> (length (pt_Containers (ti_Spec t)), w1))
      in and_then (GetContainersByPodId env podId) (\<lambda>cs w.
        let members = filter (\<lambda>c. \<not> pod_isInfraName (cv_Name c)) cs;
            running = length (filter (\<lambda>c. cv_State c = ''running'') members)
        in (Inr (if desired = 0 then length members else desired, running), w)) w1)"

definition view_pod :: "PodInfo \<Rightarrow> nat \<times> nat \<Rightarrow> PodView" where
  "view_pod p n = \<lparr>pv_PodId = pd_PodId p, pv_Name = pd_Name p, pv_Namespace = pd_Namespace p, pv_UID = pd_UID p, pv_State = pd_State p,
     pv_DesiredContainers = fst n, pv_RunningContainers = snd n, pv_NetworkNS = pd_NetworkNS p, pv_IPCNS = pd_IPCNS p,
     pv_UTSNS = pd_UTSNS p, pv_UserNS = pd_UserNS p, pv_Rootless = pd_Rootless p, pv_Labels = pd_Labels p,
     pv_Annotations = pd_Annotations p, pv_CreatedAt = pd_CreatedAt p, pv_StartedAt = pd_StartedAt p, pv_StoppedAt = pd_StoppedAt p\<rparr>"

fun view_pods :: "'k node_env \<Rightarrow> PodInfo list \<Rightarrow> 'k node \<Rightarrow> PodView list res \<times> 'k node" where
  "view_pods env [] w = (Inr [], w)"
| "view_pods env (p # ps) w = and_then (getContainerCounts env (pd_PodId p) (pd_TemplateId p)) (\<lambda>n.
     and_then (view_pods env ps) (\<lambda>vs w. (Inr (view_pod p n # vs), w))) w"

definition Pod_GetPodList :: "'k node_env \<Rightarrow> 'k node \<Rightarrow> PodView list res \<times> 'k node" where
  "Pod_GetPodList env = and_then (ask env (\<lambda>io w. psm_GetPodList io (nd_psm w))) (view_pods env)"

definition Pod_GetPodById :: "'k node_env \<Rightarrow> string \<Rightarrow> 'k node \<Rightarrow> PodView res \<times> 'k node" where
  "Pod_GetPodById env podId = and_then (ask env (\<lambda>io w. psm_GetPodById io podId (nd_psm w))) (\<lambda>p.
     and_then (getContainerCounts env (pd_PodId p) (pd_TemplateId p)) (\<lambda>n w. (Inr (view_pod p n), w)))"

section \<open>A removed pod is gone\<close>

lemma GetPodById_error:
  "\<not> is_ok (psm_GetPodById io_ok pid d) \<longleftrightarrow>
     (\<forall>st. psm_loadOrInit (read_file io_ok d) = Inr st \<longrightarrow> map_of (ps_Pods st) pid = None)"
  by (auto simp: psm_GetPodById_def psm_withRLock_def withRLock_io_ok lookup_entry_def split: sum.splits option.splits)

lemma update_pod_error:
  assumes "psm_update_pod io_ok pid f d = (Inl e, d')" shows "d' = d" and "\<not> is_ok (psm_GetPodById io_ok pid d)"
  using assms unfolding GetPodById_error
  by (auto simp: psm_update_pod_def psm_withLock_def psm_atomicSave_def withLock_io_ok update_entry_def put_back_def split: sum.splits option.splits)

lemma RemovePod_gone:
  assumes "psm_RemovePod io_ok pid d = (r, d')" shows "\<not> is_ok (psm_GetPodById io_ok pid d')"
  using assms unfolding GetPodById_error
  by (auto simp: psm_RemovePod_def psm_withLock_def psm_atomicSave_def withLock_io_ok remove_entry_def put_back_def
      psm_loadOrInit_def load_or_init_def psm_complete_def psm_marshal_def or_empty_def read_file_io_ok
      split: sum.splits option.splits)

lemma RemovePodTemplate_pods:
  assumes "psm_RemovePodTemplate io_ok tid d = (r, d')" and "\<not> is_ok (psm_GetPodById io_ok pid d)"
  shows "\<not> is_ok (psm_GetPodById io_ok pid d')"
  using assms unfolding GetPodById_error
  by (auto simp: psm_RemovePodTemplate_def psm_withLock_def psm_atomicSave_def withLock_io_ok remove_entry_def put_back_def
      psm_loadOrInit_def load_or_init_def psm_complete_def psm_marshal_def or_empty_def read_file_io_ok
      split: sum.splits option.splits)

lemma unless_gone_cases:
  assumes "unless_gone g podId gone f w = (Inr r, w')"
  obtains e w1 where "f w = (Inl e, w1)" "w' = gone w1" | a w1 where "f w = (Inr a, w1)" "g a w1 = (Inr r, w')"
  using assms by (auto simp: unless_gone_def split: prod.splits sum.splits if_splits)

lemma drop_template_pods:
  assumes "\<forall>n. ne_io env n = io_ok" and "\<not> is_ok (psm_GetPodById io_ok pid (nd_psm w))"
  shows "\<not> is_ok (psm_GetPodById io_ok pid (nd_psm (drop_template env tid w)))"
  using assms RemovePodTemplate_pods [of tid "nd_psm w" _ _ pid]
  by (auto simp: drop_template_def ask_def ignore_def on_psm_def split: prod.splits sum.splits bool.splits)

lemma Pod_Remove_leaves_nothing:
  fixes env :: "'k node_env"
  assumes io: "\<forall>n. ne_io env n = io_ok" and r: "Pod_Remove env pid w = (Inr r, w')"
  shows "\<not> is_ok (psm_GetPodById io_ok pid (nd_psm w'))"
proof -
  have removed: "\<not> is_ok (psm_GetPodById io_ok pid (nd_psm w2))"
    if "on_psm env (\<lambda>io _. psm_RemovePod io pid) w1 = (x, w2)" for x and w1 w2 :: "'k node"
    using that io RemovePod_gone [of pid "nd_psm w1"] by (auto simp: on_psm_def split: prod.splits)
  from r [unfolded Pod_Remove_def] show ?thesis
  proof (cases rule: unless_gone_cases)
    case (1 e w1)
    then show ?thesis using io by (auto simp: ask_def)
  next
    case (2 pod w1)
    from 2(2) show ?thesis
    proof (cases rule: unless_gone_cases)
      case (1 e w2)
      then show ?thesis using io update_pod_error [of pid "pd_StoppedByUser_update (\<lambda>_. True)" "nd_psm w1" e]
        by (auto simp: on_psm_def psm_UpdatePodStoppedByUser_def split: prod.splits)
    next
      case (2 u w2)
      from 2(2) show ?thesis
      proof (cases rule: unless_gone_cases)
        case (1 e w3)
        then show ?thesis using removed by (metis ignore_def prod.collapse)
      next
        case (2 cs w3)
        then obtain w4 where "unless_gone (\<lambda>_ w. (Inr pid, drop_template env (pd_TemplateId pod) w)) pid id
            (on_psm env (\<lambda>io _. psm_RemovePod io pid)) w4 = (Inr r, w')" by (auto simp: and_then_Inr)
        then show ?thesis
        proof (cases rule: unless_gone_cases)
          case (1 e w5)
          with removed show ?thesis by simp
        next
          case (2 u w5)
          from drop_template_pods [OF io removed [OF 2(1)]] 2(2) show ?thesis by auto
        qed
      qed
    qed
  qed
qed

text \<open>
  Property C13. When all accesses to documents succeed and a pod is removed with success, the pod document names it no longer, whichever of the early ends of
  the removal is taken (an error that says "not found" at any step counts as done) and whatever the calls of the runtime do in between.
  (When the write fails after the containers were not found, the removal ignores the error, reports success and the pod stays.)
\<close>

theorem Pod_Remove_gone:
  assumes "\<forall>n. ne_io env n = io_ok" and "Pod_Remove env pid w = (Inr r, w')"
  shows "\<not> psm_IsPodExist io_ok pid (nd_psm w')"
  unfolding psm_IsPodExist_def by (rule Pod_Remove_leaves_nothing [OF assms])

definition ex_pod :: "unit node" where
  "ex_pod = ex_node\<lparr>nd_psm := snd (psm_StorePod io_ok 3 (store_request ''p1'' [] \<lparr>pm_Name = ''web'', pm_Namespace = ''default'',
     pm_UID = ''u1'', pm_NetworkNS = [], pm_IPCNS = [], pm_UTSNS = [], pm_UserNS = [], pm_Rootless = False, pm_Labels = None,
     pm_Annotations = None, pm_Containers = []\<rparr>) empty_disk)\<rparr>"

theorem Pod_Remove_gone_witness:
  "psm_IsPodExist io_ok ''p1'' (nd_psm ex_pod) \<and> fst (Pod_Remove ex_env ''p1'' ex_pod) = Inr ''p1'' \<and>
   \<not> psm_IsPodExist io_ok ''p1'' (nd_psm (snd (Pod_Remove ex_env ''p1'' ex_pod)))"
proof -
  have f: "psm_IsPodExist io_ok ''p1'' (nd_psm ex_pod)" "fst (Pod_Remove ex_env ''p1'' ex_pod) = Inr ''p1''" by code_simp+
  then have "Pod_Remove ex_env ''p1'' ex_pod = (Inr ''p1'', snd (Pod_Remove ex_env ''p1'' ex_pod))" by (metis prod.collapse)
  moreover have "\<forall>n. ne_io ex_env n = io_ok" by (simp add: ex_env_def)
  ultimately show ?thesis using f Pod_Remove_gone [of ex_env "''p1''" ex_pod] by blast
qed

end
