(* ===== verification/Pod_Controller.thy ===== *)
theory Pod_Controller
  imports Pod_Service
begin

text \<open>
  The pod controller (\<open>core/pod/controller.go\<close>): every five seconds it gives each deployment its replica set, creates or deletes pods until a
  replica set has as many as it asks for, repairs pods whose infrastructure container is down, and restarts pods made from templates.
  What is only logged is left out; a panic ends the daemon and so the pass.
\<close>

section \<open>Backing off\<close>

text \<open>Durations in nanoseconds.\<close>

definition second :: int where "second = 1000000000"

definition interval :: int where "interval = 5 * second"

definition reconcile_delay :: "int \<Rightarrow> int" where
  "reconcile_delay attempt =
     (let d = 2 ^ nat (min (attempt - 1) 6) * interval;
          d' = (if d \<le> 0 then 5 * second else d)
      in if d' > 60 * second then 60 * second else d')"

definition shouldSkipReplicaSet :: "time \<Rightarrow> ReplicaSetInfo \<Rightarrow> bool" where
  "shouldSkipReplicaSet now rs \<longleftrightarrow> ri_NextReconcileAt rs \<noteq> zero_time \<and> now < ri_NextReconcileAt rs"

text \<open>A negative count of attempts, which only a damaged document can have, makes the shift panic.\<close>

definition recordReplicaSetReconcileError :: "'k node_env \<Rightarrow> ReplicaSetInfo \<Rightarrow> go_error \<Rightarrow> 'k node \<Rightarrow> unit res \<times> 'k node" where
  "recordReplicaSetReconcileError env rs e w =
     (let attempt = ri_ReconcileAttempt rs + 1 in
      if attempt - 1 < 0 then (Inl (Panic ''negative shift amount''), w)
      else case clock env w of (now, w1) \<Rightarrow>
        (Inr (), ignore (on_psm env (\<lambda>io _. psm_UpdateReplicaSetReconcileStatus io (ri_ReplicaSetId rs) attempt (error_text e)
           (now + reconcile_delay attempt))) w1))"

definition clearReplicaSetReconcileStatus :: "'k node_env \<Rightarrow> ReplicaSetInfo \<Rightarrow> 'k node \<Rightarrow> 'k node" where
  "clearReplicaSetReconcileStatus env rs w =
     (if ri_ReconcileAttempt rs = 0 \<and> ri_LastReconcileError rs = [] \<and> ri_NextReconcileAt rs = zero_time then w
      else ignore (on_psm env (\<lambda>io _. psm_ClearReplicaSetReconcileStatus io (ri_ReplicaSetId rs))) w)"

section \<open>The pods of a replica set\<close>

definition replicaSetTemplateRefs :: "ReplicaSetInfo list \<Rightarrow> string \<Rightarrow> nat" where
  "replicaSetTemplateRefs sets tid = length (filter (\<lambda>rs. rs_TemplateId (ri_Spec rs) = tid) sets)"

definition managed_by :: "(string \<Rightarrow> nat) \<Rightarrow> ReplicaSetInfo \<Rightarrow> PodInfo \<Rightarrow> bool" where
  "managed_by refs rs p =
     (if pd_OwnerKind p = OwnerKindReplicaSet \<or> pd_OwnerId p \<noteq> []
      then pd_OwnerKind p = OwnerKindReplicaSet \<and> pd_OwnerId p = ri_ReplicaSetId rs
      else pd_TemplateId p = rs_TemplateId (ri_Spec rs) \<and> refs (rs_TemplateId (ri_Spec rs)) = 1 \<and>
        prefix (rs_Name (ri_Spec rs) @ ''-'') (pd_Name p))"

definition filterReplicaSetPods :: "ReplicaSetInfo \<Rightarrow> PodInfo list \<Rightarrow> (string \<Rightarrow> nat) \<Rightarrow> PodInfo list" where
  "filterReplicaSetPods rs pods refs = filter (managed_by refs rs) pods"

section \<open>Operations on pods\<close>

text \<open>Stop what runs and delete everything, whatever comes of it.\<close>

fun discard_containers :: "'k node_env \<Rightarrow> ContainerView list \<Rightarrow> 'k node \<Rightarrow> 'k node" where
  "discard_containers env [] w = w"
| "discard_containers env (c # cs) w =
     (let w1 = (if cv_State c = ''running'' then ignore (Container_Stop env (cv_ContainerId c) False) w else w)
      in discard_containers env cs (ignore (Container_Delete env (cv_ContainerId c) False) w1))"

definition deletePod :: "'k node_env \<Rightarrow> PodInfo \<Rightarrow> 'k node \<Rightarrow> unit res \<times> 'k node" where
  "deletePod env p =
     and_then (on_psm env (\<lambda>io _. psm_UpdatePodStoppedByUser io (pd_PodId p) True)) (\<lambda>_.
     and_then (GetContainersByPodId env (pd_PodId p)) (\<lambda>cs w.
       on_psm env (\<lambda>io _. psm_RemovePod io (pd_PodId p)) (discard_containers env cs w)))"

definition recreatePod :: "'k node_env \<Rightarrow> PodInfo \<Rightarrow> 'k node \<Rightarrow> unit res \<times> 'k node" where
  "recreatePod env p =
     and_then (GetContainersByPodId env (pd_PodId p)) (\<lambda>cs w.
     and_then (tolerate (\<lambda>e. str_contains (error_text e) ''not found'') (on_psm env (\<lambda>io _. psm_RemovePod io (pd_PodId p)))) (\<lambda>_.
       if pd_TemplateId p = [] then Pair (Inr ())
       else and_then (RecreateFromTemplate env (pd_TemplateId p)) (\<lambda>newId.
         and_then (if pd_OwnerKind p \<noteq> [] \<or> pd_OwnerId p \<noteq> []
           then on_psm env (\<lambda>io _. psm_UpdatePodOwner io newId (pd_OwnerKind p) (pd_OwnerId p)) else Pair (Inr ())) (\<lambda>_.
         void (Pod_Start env newId)))) (discard_containers env cs w))"

definition infra_state :: "ContainerView list \<Rightarrow> string" where
  "infra_state cs =
     (let infra = filter (\<lambda>c. pod_isInfraName (cv_Name c)) cs;
          running = length (filter (\<lambda>c. cv_State c = ''running'') infra);
          stopped = length (filter (\<lambda>c. cv_State c \<noteq> ''running'') infra)
      in if cs = [] then ''missing''
         else if running = 1 \<and> stopped = 0 then ''running''
         else if running > 1 then ''duplicate''
         else if stopped > 0 then ''stopped''
         else ''missing'')"

definition getPodInfraState :: "'k node_env \<Rightarrow> string \<Rightarrow> 'k node \<Rightarrow> string res \<times> 'k node" where
  "getPodInfraState env podId = and_then (GetContainersByPodId env podId) (\<lambda>cs w. (Inr (infra_state cs), w))"

definition isPodInfraDown :: "'k node_env \<Rightarrow> string \<Rightarrow> 'k node \<Rightarrow> bool res \<times> 'k node" where
  "isPodInfraDown env podId = and_then (getPodInfraState env podId) (\<lambda>s w. (Inr (s \<noteq> ''running''), w))"

section \<open>Deployments\<close>

definition replica_set_of :: "DeploymentInfo \<Rightarrow> ReplicaSetSpec" where
  "replica_set_of d = \<lparr>rs_Name = dy_Name (di_Spec d), rs_Namespace = dy_Namespace (di_Spec d), rs_Replicas = dy_Replicas (di_Spec d),
     rs_TemplateId = dy_TemplateId (di_Spec d), rs_Selector = dy_Selector (di_Spec d)\<rparr>"

definition link_replica_set :: "'k node_env \<Rightarrow> DeploymentInfo \<Rightarrow> 'k node \<Rightarrow> unit res \<times> 'k node" where
  "link_replica_set env d w =
     (case new_ulid env w of (rid, w1) \<Rightarrow>
      and_then (on_psm env (\<lambda>io now. psm_StoreReplicaSet io now rid (replica_set_of d))) (\<lambda>_ w.
        case on_psm env (\<lambda>io now. psm_UpdateDeploymentReplicaSet io now (di_DeploymentId d) rid) w of
          (Inl e, w2) \<Rightarrow> (Inl e, ignore (on_psm env (\<lambda>io _. psm_RemoveReplicaSet io rid)) w2)
        | (Inr _, w2) \<Rightarrow> (Inr (), w2)) w1)"

definition reconcile_deployment :: "'k node_env \<Rightarrow> (string \<rightharpoonup> ReplicaSetInfo) \<Rightarrow> DeploymentInfo \<Rightarrow> 'k node \<Rightarrow> unit res \<times> 'k node" where
  "reconcile_deployment env sets d =
     (if dy_ReplicaSetId (di_Spec d) = [] then link_replica_set env d
      else case sets (dy_ReplicaSetId (di_Spec d)) of
        None \<Rightarrow> on_psm env (\<lambda>io now. psm_UpdateDeploymentReplicaSet io now (di_DeploymentId d) [])
      | Some rs \<Rightarrow>
          if rs_Replicas (ri_Spec rs) \<noteq> dy_Replicas (di_Spec d)
          then on_psm env (\<lambda>io _. psm_UpdateReplicaSetReplicas io (ri_ReplicaSetId rs) (dy_Replicas (di_Spec d)))
          else Pair (Inr ()))"

fun deployments_loop :: "'k node_env \<Rightarrow> (string \<rightharpoonup> ReplicaSetInfo) \<Rightarrow> DeploymentInfo list \<Rightarrow> 'k node \<Rightarrow> unit res \<times> 'k node" where
  "deployments_loop env sets [] w = (Inr (), w)"
| "deployments_loop env sets (d # ds) w = and_then (reconcile_deployment env sets d) (\<lambda>_. deployments_loop env sets ds) w"

text \<open>A later replica set of the list replaces an earlier one of the same identifier in the map.\<close>

definition reconcileDeployments :: "'k node_env \<Rightarrow> 'k node \<Rightarrow> unit res \<times> 'k node" where
  "reconcileDeployments env =
     and_then (ask env (\<lambda>io w. psm_GetDeploymentList io (nd_psm w))) (\<lambda>ds.
     if ds = [] then Pair (Inr ())
     else and_then (ask env (\<lambda>io w. psm_GetReplicaSetList io (nd_psm w))) (\<lambda>sets.
       deployments_loop env (map_of (rev (map (\<lambda>rs. (ri_ReplicaSetId rs, rs)) sets))) ds))"

section \<open>Replica sets\<close>

text \<open>The active pods, those not stopped by the user, up to the first stopped one that cannot be deleted, and its error.\<close>

fun cleanupStoppedManagedPods :: "'k node_env \<Rightarrow> PodInfo list \<Rightarrow> 'k node \<Rightarrow> (PodInfo list \<times> go_error option) \<times> 'k node" where
  "cleanupStoppedManagedPods env [] w = (([], None), w)"
| "cleanupStoppedManagedPods env (p # ps) w =
     (if \<not> pd_StoppedByUser p then
        (case cleanupStoppedManagedPods env ps w of ((active, e), w') \<Rightarrow> ((p # active, e), w'))
      else case deletePod env p w of
        (Inl e, w') \<Rightarrow> (([], Some e), w')
      | (Inr _, w') \<Rightarrow> cleanupStoppedManagedPods env ps w')"

text \<open>A replica that cannot be created or owned ends the loop; one that cannot be started is deleted and the loop goes on.\<close>

fun create_replicas :: "'k node_env \<Rightarrow> ReplicaSetInfo \<Rightarrow> nat \<Rightarrow> go_error option \<Rightarrow> 'k node \<Rightarrow> go_error option \<times> 'k node" where
  "create_replicas env rs 0 err w = (err, w)"
| "create_replicas env rs (Suc n) err w =
     (case new_ulid env w of (u, w1) \<Rightarrow>
      (case CreateFromTemplate env (rs_TemplateId (ri_Spec rs)) (rs_Name (ri_Spec rs) @ ''-'' @ take 8 u) w1 of
         (Inl e, w2) \<Rightarrow> (Some e, w2)
       | (Inr podId, w2) \<Rightarrow>
           (case on_psm env (\<lambda>io _. psm_UpdatePodOwner io podId OwnerKindReplicaSet (ri_ReplicaSetId rs)) w2 of
              (Inl e, w3) \<Rightarrow> (Some e, w3)
            | (Inr _, w3) \<Rightarrow>
                (case Pod_Start env podId w3 of
                   (Inl e, w4) \<Rightarrow>
                     (case ask env (\<lambda>io w. psm_GetPodById io podId (nd_psm w)) w4 of
                        (Inl _, w5) \<Rightarrow> create_replicas env rs n (Some e) w5
                      | (Inr p, w5) \<Rightarrow> create_replicas env rs n (Some e) (ignore (deletePod env p) w5))
                 | (Inr _, w4) \<Rightarrow> create_replicas env rs n err w4))))"

text \<open>Delete the first \<open>n\<close> pods of the list; a count beyond its end is an index out of range.\<close>

fun delete_excess :: "'k node_env \<Rightarrow> nat \<Rightarrow> PodInfo list \<Rightarrow> 'k node \<Rightarrow> go_error option res \<times> 'k node" where
  "delete_excess env 0 ps w = (Inr None, w)"
| "delete_excess env (Suc n) [] w = (Inl (Panic ''index out of range''), w)"
| "delete_excess env (Suc n) (p # ps) w =
     (case deletePod env p w of (Inl e, w') \<Rightarrow> (Inr (Some e), w') | (Inr _, w') \<Rightarrow> delete_excess env n ps w')"

text \<open>One pod of the list; the error of the last failing step is kept.\<close>

definition repair_pod :: "'k node_env \<Rightarrow> PodInfo \<Rightarrow> go_error option \<Rightarrow> 'k node \<Rightarrow> go_error option \<times> 'k node" where
  "repair_pod env p err w =
     (if pd_StoppedByUser p then (err, w)
      else case getPodInfraState env (pd_PodId p) w of
        (Inl e, w1) \<Rightarrow> (Some e, w1)
      | (Inr s, w1) \<Rightarrow>
          if s \<noteq> ''running'' then
            (case recreatePod env p w1 of (Inl e, w2) \<Rightarrow> (Some e, w2) | (Inr _, w2) \<Rightarrow> (err, w2))
          else if pd_State p = PodStateDegraded \<or> pd_State p = PodStateStopped then
            (case Pod_Start env (pd_PodId p) w1 of (Inl e, w2) \<Rightarrow> (Some e, w2) | (Inr _, w2) \<Rightarrow> (err, w2))
          else if pd_State p = PodStateCreated then
            (case Pod_Start env (pd_PodId p) w1 of (Inl e, w2) \<Rightarrow> (Some e, ignore (recreatePod env p) w2) | (Inr _, w2) \<Rightarrow> (err, w2))
          else (err, w1))"

fun repair_pods :: "'k node_env \<Rightarrow> PodInfo list \<Rightarrow> go_error option \<Rightarrow> 'k node \<Rightarrow> go_error option \<times> 'k node" where
  "repair_pods env [] err w = (err, w)"
| "repair_pods env (p # ps) err w = (case repair_pod env p err w of (err', w') \<Rightarrow> repair_pods env ps err' w')"

text \<open>Bring the number of pods to the one asked for.\<close>

definition scale :: "'k node_env \<Rightarrow> ReplicaSetInfo \<Rightarrow> PodInfo list \<Rightarrow> 'k node \<Rightarrow> go_error option res \<times> 'k node" where
  "scale env rs pods w =
     (let current = int (length pods); wanted = rs_Replicas (ri_Spec rs) in
      if current < wanted then (case create_replicas env rs (nat (wanted - current)) None w of (e, w') \<Rightarrow> (Inr e, w'))
      else if current > wanted then delete_excess env (nat (current - wanted)) pods w
      else (Inr None, w))"

definition settle :: "'k node_env \<Rightarrow> ReplicaSetInfo \<Rightarrow> (go_error option \<Rightarrow> 'k node \<Rightarrow> unit res \<times> 'k node) \<Rightarrow> go_error option \<Rightarrow> 'k node \<Rightarrow> unit res \<times> 'k node" where
  "settle env rs go err w = (case err of Some e \<Rightarrow> recordReplicaSetReconcileError env rs e w | None \<Rightarrow> go None w)"

definition reconcile_replica_set :: "'k node_env \<Rightarrow> PodInfo list \<Rightarrow> (string \<Rightarrow> nat) \<Rightarrow> ReplicaSetInfo \<Rightarrow> 'k node \<Rightarrow> unit res \<times> 'k node" where
  "reconcile_replica_set env pods refs rs w =
     (let (skip, w0) = (if ri_NextReconcileAt rs = zero_time then (False, w)
            else case clock env w of (now, w0) \<Rightarrow> (shouldSkipReplicaSet now rs, w0)) in
      if skip then (Inr (), w0)
      else case cleanupStoppedManagedPods env (filterReplicaSetPods rs pods refs) w0 of
        ((active, err), w1) \<Rightarrow>
          settle env rs (\<lambda>_. and_then (scale env rs active) (\<lambda>err.
            settle env rs (\<lambda>_ w. case repair_pods env active None w of
              (err, w') \<Rightarrow> settle env rs (\<lambda>_ w. (Inr (), clearReplicaSetReconcileStatus env rs w)) err w') err)) err w1)"

fun replica_sets_loop :: "'k node_env \<Rightarrow> PodInfo list \<Rightarrow> (string \<Rightarrow> nat) \<Rightarrow> ReplicaSetInfo list \<Rightarrow> 'k node \<Rightarrow> unit res \<times> 'k node" where
  "replica_sets_loop env pods refs [] w = (Inr (), w)"
| "replica_sets_loop env pods refs (rs # sets) w =
     and_then (reconcile_replica_set env pods refs rs) (\<lambda>_. replica_sets_loop env pods refs sets) w"

section \<open>Templates without a replica set\<close>

text \<open>The scan over the pods of a template: whether one is active, the first degraded and the first stopped one.\<close>

fun scan_pods :: "'k node_env \<Rightarrow> PodInfo list \<Rightarrow> string \<Rightarrow> string \<Rightarrow> 'k node \<Rightarrow> (bool \<times> string \<times> string) \<times> 'k node" where
  "scan_pods env [] degraded stopped w = ((False, degraded, stopped), w)"
| "scan_pods env (p # ps) degraded stopped w =
     (if pd_State p = PodStateCreated then ((True, degraded, stopped), w)
      else
       (case (if pd_StoppedByUser p then (Inr False, w) else isPodInfraDown env (pd_PodId p) w) of
          (Inr True, w1) \<Rightarrow> ((True, degraded, stopped), ignore (recreatePod env p) w1)
        | (_, w1) \<Rightarrow>
            let degraded' = (if pd_State p = PodStateDegraded \<and> \<not> pd_StoppedByUser p \<and> degraded = [] then pd_PodId p else degraded) in
            if pd_State p \<noteq> PodStateStopped then ((True, degraded', stopped), w1)
            else scan_pods env ps degraded' (if \<not> pd_StoppedByUser p \<and> stopped = [] then pd_PodId p else stopped) w1))"

definition reconcile_template :: "'k node_env \<Rightarrow> PodInfo list \<Rightarrow> PodTemplateInfo \<Rightarrow> 'k node \<Rightarrow> 'k node" where
  "reconcile_template env pods t w =
     (case ask env (\<lambda>io w. psm_IsTemplateReferenced io (ti_TemplateId t) (nd_psm w)) w of
        (Inr False, w1) \<Rightarrow>
          (case filter (\<lambda>p. pd_TemplateId p \<noteq> [] \<and> pd_TemplateId p = ti_TemplateId t) pods of
             [] \<Rightarrow> ignore (RecreateFromTemplate env (ti_TemplateId t)) w1
           | ps \<Rightarrow> (case scan_pods env ps [] [] w1 of ((active, degraded, stopped), w2) \<Rightarrow>
               if degraded \<noteq> [] then ignore (Pod_Start env degraded) w2
               else if active \<or> stopped = [] then w2
               else ignore (Pod_Start env stopped) w2))
      | (_, w1) \<Rightarrow> w1)"

definition reconcileOnce :: "'k node_env \<Rightarrow> 'k node \<Rightarrow> unit res \<times> 'k node" where
  "reconcileOnce env =
     and_then (reconcileDeployments env) (\<lambda>_.
     and_then (ask env (\<lambda>io w. psm_GetReplicaSetList io (nd_psm w))) (\<lambda>sets.
     and_then (ask env (\<lambda>io w. psm_GetPodTemplateList io (nd_psm w))) (\<lambda>templates.
     if templates = [] \<and> sets = [] then Pair (Inr ())
     else and_then (ask env (\<lambda>io w. psm_GetPodList io (nd_psm w))) (\<lambda>pods.
       and_then (replica_sets_loop env pods (replicaSetTemplateRefs sets) sets) (\<lambda>_ w.
         (Inr (), fold (reconcile_template env pods) templates w))))))"

text \<open>The endless loop over the ticks of the timer, up to \<open>n\<close> of them. Errors are logged; a panic ends it.\<close>

fun controller_ticks :: "'k node_env \<Rightarrow> nat \<Rightarrow> 'k node \<Rightarrow> 'k node" where
  "controller_ticks env 0 w = w"
| "controller_ticks env (Suc n) w =
     (case reconcileOnce env w of
        (Inl (Panic m), w') \<Rightarrow> w'
      | (_, w') \<Rightarrow> controller_ticks env n w')"

end
