(* ===== verification/Pod_Convergence.thy ===== *)
theory Pod_Convergence
  imports Pod_Controller
begin

text \<open>
  What the passes of the pod controller achieve: pods are managed by one replica set at most, a failing replica set backs off within bounds,
  deployments settle after two passes; and where scaling does not converge.
\<close>

section \<open>Backing off\<close>

lemma reconcile_delay_eq: "1 \<le> attempt \<Longrightarrow> reconcile_delay attempt = min (60 * second) (2 ^ nat (min (attempt - 1) 6) * interval)"
  by (auto simp: reconcile_delay_def interval_def second_def)

lemma reconcile_delay_bounds:
  assumes "1 \<le> attempt"
  shows "interval \<le> reconcile_delay attempt" and "reconcile_delay attempt \<le> 60 * second"
    and "reconcile_delay attempt \<le> reconcile_delay (attempt + 1)" and "4 < attempt \<Longrightarrow> reconcile_delay attempt = 60 * second"
proof -
  have p: "(1::int) \<le> 2 ^ n" for n :: nat by simp
  have i: "0 < interval" by (simp add: interval_def second_def)
  show "interval \<le> reconcile_delay attempt"
    using assms p [of "nat (min (attempt - 1) 6)"] mult_right_mono [of 1 "2 ^ nat (min (attempt - 1) 6)" interval] i
    by (simp add: reconcile_delay_eq) (simp add: interval_def second_def)
  show "reconcile_delay attempt \<le> 60 * second" using assms by (simp add: reconcile_delay_eq)
  have "nat (min (attempt - 1) 6) \<le> nat (min (attempt + 1 - 1) 6)" by simp
  then have "(2::int) ^ nat (min (attempt - 1) 6) \<le> 2 ^ nat (min (attempt + 1 - 1) 6)" by (intro power_increasing) simp_all
  then have "2 ^ nat (min (attempt - 1) 6) * interval \<le> 2 ^ nat (min (attempt + 1 - 1) 6) * interval"
    using i by (simp only: mult_right_mono less_imp_le)
  then show "reconcile_delay attempt \<le> reconcile_delay (attempt + 1)" using assms unfolding reconcile_delay_eq [OF assms]
    by (subst reconcile_delay_eq) (linarith, simp only: min.mono order_refl)
  show "reconcile_delay attempt = 60 * second" if "4 < attempt"
  proof -
    have "4 \<le> nat (min (attempt - 1) 6)" using that by simp
    then have "(2::int) ^ 4 \<le> 2 ^ nat (min (attempt - 1) 6)" by (intro power_increasing) simp_all
    then have "2 ^ 4 * interval \<le> 2 ^ nat (min (attempt - 1) 6) * interval" using i by (simp only: mult_right_mono less_imp_le)
    then show ?thesis using that by (simp add: reconcile_delay_eq interval_def second_def)
  qed
qed

section \<open>Who manages a pod\<close>

lemma count_one:
  assumes "length (filter P xs) = 1" and "x \<in> set xs" "P x" and "y \<in> set xs" "P y"
  shows "x = y"
proof -
  obtain z where z: "filter P xs = [z]" using assms(1) by (auto simp: length_Suc_conv)
  have "x \<in> set (filter P xs)" "y \<in> set (filter P xs)" using assms by simp_all
  then show ?thesis using z by simp
qed

lemma managed_by_one:
  assumes "rs1 \<in> set sets" "rs2 \<in> set sets" and "distinct (map ri_ReplicaSetId sets)"
    and "managed_by (replicaSetTemplateRefs sets) rs1 p" "managed_by (replicaSetTemplateRefs sets) rs2 p"
  shows "rs1 = rs2"
proof (cases "pd_OwnerKind p = OwnerKindReplicaSet \<or> pd_OwnerId p \<noteq> []")
  case True
  then have "ri_ReplicaSetId rs1 = ri_ReplicaSetId rs2" using assms(4,5) by (auto simp: managed_by_def)
  then show ?thesis using assms(1-3) by (auto simp: distinct_map dest: inj_onD)
next
  case False
  then have "length (filter (\<lambda>rs. rs_TemplateId (ri_Spec rs) = pd_TemplateId p) sets) = 1"
    "rs_TemplateId (ri_Spec rs1) = pd_TemplateId p" "rs_TemplateId (ri_Spec rs2) = pd_TemplateId p"
    using assms(4,5) by (auto simp: managed_by_def replicaSetTemplateRefs_def)
  then show ?thesis using count_one [where P = "\<lambda>rs. rs_TemplateId (ri_Spec rs) = pd_TemplateId p"] assms(1,2) by blast
qed

section \<open>Deployments settle\<close>

text \<open>The pod document of a node, and one operation on it while all goes well.\<close>

definition holds :: "PodState \<Rightarrow> 'k node \<Rightarrow> bool" where
  "holds st w \<longleftrightarrow> psm_loadOrInit (read_file io_ok (nd_psm w)) = Inr st"

lemma psm_saved: "psm_loadOrInit (read_file io_ok \<lparr>main_file = Some (Decoded (psm_marshal st)), tmp_file = t\<rparr>) = Inr st"
  by (simp add: psm_loadOrInit_def load_or_init_def read_file_io_ok psm_complete_def psm_marshal_def)

lemma on_psm_ok:
  assumes "holds st w" and "ne_io env (nd_tick w) = io_ok" and "\<And>now. \<exists>fn. f io_ok now = psm_withLock io_ok fn \<and> fn st = Inr (st' now, a)"
  shows "\<exists>w'. on_psm env f w = (Inr a, w') \<and> holds (st' (ne_now env (nd_tick w))) w' \<and> nd_tick w' = Suc (nd_tick w)"
proof -
  obtain fn where "f io_ok (ne_now env (nd_tick w)) = psm_withLock io_ok fn" "fn st = Inr (st' (ne_now env (nd_tick w)), a)"
    using assms(3) by blast
  then show ?thesis
    using assms(1,2) by (simp add: on_psm_def holds_def psm_withLock_def psm_atomicSave_def withLock_io_ok psm_saved)
qed

abbreviation rsets :: "PodState \<Rightarrow> string \<rightharpoonup> ReplicaSetInfo" where
  "rsets st \<equiv> map_of (ps_ReplicaSets st)"

abbreviation deploys :: "PodState \<Rightarrow> string \<rightharpoonup> DeploymentInfo" where
  "deploys st \<equiv> map_of (ps_Deployments st)"

definition link :: "DeploymentInfo \<Rightarrow> string" where
  "link d = dy_ReplicaSetId (di_Spec d)"

definition matched :: "PodState \<Rightarrow> DeploymentInfo \<Rightarrow> bool" where
  "matched st d \<longleftrightarrow> link d \<noteq> [] \<and> (case rsets st (link d) of None \<Rightarrow> False | Some rs \<Rightarrow> rs_Replicas (ri_Spec rs) = dy_Replicas (di_Spec d))"

definition settled :: "PodState \<Rightarrow> bool" where
  "settled st \<longleftrightarrow> (\<forall>(_, d) \<in> set (ps_Deployments st). matched st d)"

definition relinked :: "string \<Rightarrow> DeploymentInfo \<Rightarrow> DeploymentInfo \<Rightarrow> bool" where
  "relinked rid d' d \<longleftrightarrow> di_DeploymentId d' = di_DeploymentId d \<and> di_Spec d' = (di_Spec d)\<lparr>dy_ReplicaSetId := rid\<rparr>"

definition fresh_ids :: "'k node_env \<Rightarrow> PodState \<Rightarrow> nat \<Rightarrow> bool" where
  "fresh_ids env st n \<longleftrightarrow> (\<forall>k \<ge> n. ne_ulid env k \<noteq> [] \<and> rsets st (ne_ulid env k) = None)"

text \<open>One deployment.\<close>

definition step_to :: "'k node_env \<Rightarrow> (string \<rightharpoonup> ReplicaSetInfo) \<Rightarrow> DeploymentInfo \<Rightarrow> PodState \<Rightarrow> PodState \<Rightarrow> bool" where
  "step_to env sets d st st' \<longleftrightarrow>
     (if link d = [] then \<exists>rid rs d'. rid \<noteq> [] \<and> rsets st rid = None \<and> relinked rid d' d \<and> rs_Replicas (ri_Spec rs) = dy_Replicas (di_Spec d) \<and>
        rsets st' = (rsets st)(rid \<mapsto> rs) \<and> deploys st' = (deploys st)(di_DeploymentId d \<mapsto> d')
      else case sets (link d) of
        None \<Rightarrow> \<exists>d'. relinked [] d' d \<and> rsets st' = rsets st \<and> deploys st' = (deploys st)(di_DeploymentId d \<mapsto> d')
      | Some rs \<Rightarrow> \<exists>rs'. rs_Replicas (ri_Spec rs') = dy_Replicas (di_Spec d) \<and> rsets st' = (rsets st)(link d \<mapsto> rs') \<and>
          deploys st' = deploys st)"

definition relink :: "string \<Rightarrow> time \<Rightarrow> DeploymentInfo \<Rightarrow> DeploymentInfo" where
  "relink rid now d = d\<lparr>di_Spec := (di_Spec d)\<lparr>dy_ReplicaSetId := rid\<rparr>, di_UpdatedAt := now\<rparr>"

definition put_deploy :: "DeploymentInfo \<Rightarrow> PodState \<Rightarrow> PodState" where
  "put_deploy d st = st\<lparr>ps_Deployments := map_set (di_DeploymentId d) d (ps_Deployments st)\<rparr>"

definition put_rs :: "string \<Rightarrow> ReplicaSetInfo \<Rightarrow> PodState \<Rightarrow> PodState" where
  "put_rs rid rs st = st\<lparr>ps_ReplicaSets := map_set rid rs (ps_ReplicaSets st)\<rparr>"

lemma put_simps [simp]:
  "rsets (put_deploy d st) = rsets st" "deploys (put_deploy d st) = (deploys st)(di_DeploymentId d \<mapsto> d)"
  "rsets (put_rs rid rs st) = (rsets st)(rid \<mapsto> rs)" "deploys (put_rs rid rs st) = deploys st"
  by (simp_all add: put_deploy_def put_rs_def)

lemma relink_simps [simp]: "di_DeploymentId (relink rid now d) = di_DeploymentId d" "relinked rid (relink rid now d) d"
  by (simp_all add: relink_def relinked_def)

lemma relink_ok:
  assumes "holds st w" and "ne_io env (nd_tick w) = io_ok" and "deploys st (di_DeploymentId d) = Some d"
  shows "\<exists>w' now. on_psm env (\<lambda>io now. psm_UpdateDeploymentReplicaSet io now (di_DeploymentId d) rid) w = (Inr (), w') \<and>
    holds (put_deploy (relink rid now d) st) w' \<and> nd_tick w' = Suc (nd_tick w)"
proof -
  have "\<exists>w'. on_psm env (\<lambda>io now. psm_UpdateDeploymentReplicaSet io now (di_DeploymentId d) rid) w = (Inr (), w') \<and>
      holds (put_deploy (relink rid (ne_now env (nd_tick w)) d) st) w' \<and> nd_tick w' = Suc (nd_tick w)"
    by (rule on_psm_ok [OF assms(1,2), where st' = "\<lambda>now. put_deploy (relink rid now d) st"])
      (use assms(3) in \<open>auto simp: psm_UpdateDeploymentReplicaSet_def put_back_def update_entry_def put_deploy_def relink_def\<close>)
  then show ?thesis by blast
qed

lemma store_rs_ok:
  assumes "holds st w" and "ne_io env (nd_tick w) = io_ok"
  shows "\<exists>w' rs. on_psm env (\<lambda>io now. psm_StoreReplicaSet io now rid spec) w = (Inr (), w') \<and> holds (put_rs rid rs st) w' \<and>
    nd_tick w' = Suc (nd_tick w) \<and> ri_Spec rs = spec"
proof -
  let ?rs = "\<lambda>now. \<lparr>ri_ReplicaSetId = rid, ri_Spec = spec, ri_CreatedAt = now, ri_ReconcileAttempt = 0,
      ri_LastReconcileError = [], ri_NextReconcileAt = zero_time\<rparr>"
  have "\<exists>w'. on_psm env (\<lambda>io now. psm_StoreReplicaSet io now rid spec) w = (Inr (), w') \<and>
      holds (put_rs rid (?rs (ne_now env (nd_tick w))) st) w' \<and> nd_tick w' = Suc (nd_tick w)"
    by (rule on_psm_ok [OF assms, where st' = "\<lambda>now. put_rs rid (?rs now) st"]) (auto simp: psm_StoreReplicaSet_def put_rs_def)
  moreover have "ri_Spec (?rs now) = spec" for now by simp
  ultimately show ?thesis by blast
qed

lemma scale_rs_ok:
  assumes "holds st w" and "ne_io env (nd_tick w) = io_ok" and "rsets st rid = Some rs" and "0 \<le> n"
  shows "\<exists>w' rs'. on_psm env (\<lambda>io _. psm_UpdateReplicaSetReplicas io rid n) w = (Inr (), w') \<and> holds (put_rs rid rs' st) w' \<and>
    nd_tick w' = Suc (nd_tick w) \<and> rs_Replicas (ri_Spec rs') = n"
proof -
  let ?rs = "rs\<lparr>ri_Spec := (ri_Spec rs)\<lparr>rs_Replicas := n\<rparr>\<rparr>"
  have "\<exists>w'. on_psm env (\<lambda>io _. psm_UpdateReplicaSetReplicas io rid n) w = (Inr (), w') \<and> holds (put_rs rid ?rs st) w' \<and> nd_tick w' = Suc (nd_tick w)"
    by (rule on_psm_ok [OF assms(1,2), where st' = "\<lambda>_. put_rs rid ?rs st"])
      (use assms(3,4) in \<open>auto simp: psm_UpdateReplicaSetReplicas_def psm_update_rs_def put_rs_def\<close>)
  moreover have "rs_Replicas (ri_Spec ?rs) = n" by simp
  ultimately show ?thesis by blast
qed

lemma reconcile_deployment_step:
  fixes env :: "'k node_env"
  assumes io: "\<forall>n. ne_io env n = io_ok" and inj: "inj (ne_ulid env)" and w: "holds st w" "fresh_ids env st (nd_tick w)"
    and d: "deploys st (di_DeploymentId d) = Some d" "0 \<le> dy_Replicas (di_Spec d)"
    and s: "\<And>rs. sets (link d) = Some rs \<Longrightarrow> rsets st (link d) = Some rs \<and> ri_ReplicaSetId rs = link d"
  shows "\<exists>st' w'. reconcile_deployment env sets d w = (Inr (), w') \<and> holds st' w' \<and> fresh_ids env st' (nd_tick w') \<and> step_to env sets d st st'"
proof -
  have later: "fresh_ids env st1 n" if "nd_tick w \<le> n" "\<And>k. n \<le> k \<Longrightarrow> rsets st1 (ne_ulid env k) = rsets st (ne_ulid env k)" for st1 n
    using that w(2) unfolding fresh_ids_def by simp
  show ?thesis
  proof (cases "link d = []")
    case True
    let ?rid = "ne_ulid env (nd_tick w)"
    have "holds st (tick w)" using w(1) by (simp add: holds_def)
    from store_rs_ok [OF this, of env ?rid "replica_set_of d"] io obtain w1 rs where
      w1: "on_psm env (\<lambda>io now. psm_StoreReplicaSet io now ?rid (replica_set_of d)) (tick w) = (Inr (), w1)" "holds (put_rs ?rid rs st) w1"
        "nd_tick w1 = Suc (Suc (nd_tick w))" "ri_Spec rs = replica_set_of d" by auto
    from relink_ok [OF w1(2), of env d ?rid] io d(1) obtain w2 now where
      w2: "on_psm env (\<lambda>io now. psm_UpdateDeploymentReplicaSet io now (di_DeploymentId d) ?rid) w1 = (Inr (), w2)"
        "holds (put_deploy (relink ?rid now d) (put_rs ?rid rs st)) w2" "nd_tick w2 = Suc (nd_tick w1)" by auto
    have "reconcile_deployment env sets d w = (Inr (), w2)"
      using True w1(1) w2(1) by (simp add: reconcile_deployment_def link_def link_replica_set_def new_ulid_def and_then_def)
    moreover have "fresh_ids env (put_deploy (relink ?rid now d) (put_rs ?rid rs st)) (nd_tick w2)"
      by (rule later) (use w1(3) w2(3) inj in \<open>auto dest: injD\<close>)
    moreover have "step_to env sets d st (put_deploy (relink ?rid now d) (put_rs ?rid rs st))"
      unfolding step_to_def if_P [OF True]
      by (rule exI [of _ ?rid], rule exI [of _ rs], rule exI [of _ "relink ?rid now d"])
        (use w(2) w1(4) in \<open>simp add: replica_set_of_def fresh_ids_def\<close>)
    ultimately show ?thesis using w2(2) by blast
  next
    case False
    show ?thesis
    proof (cases "sets (link d)")
      case None
      from relink_ok [OF w(1), of env d "[]"] io d(1) obtain w1 now where
        w1: "on_psm env (\<lambda>io now. psm_UpdateDeploymentReplicaSet io now (di_DeploymentId d) []) w = (Inr (), w1)"
          "holds (put_deploy (relink [] now d) st) w1" "nd_tick w1 = Suc (nd_tick w)" by auto
      have "step_to env sets d st (put_deploy (relink [] now d) st)"
        unfolding step_to_def using False None by (simp, intro exI [of _ "relink [] now d"]) simp
      moreover have "fresh_ids env (put_deploy (relink [] now d) st) (nd_tick w1)" by (rule later) (simp_all add: w1)
      moreover have "reconcile_deployment env sets d w = (Inr (), w1)"
        using False None w1(1) by (simp add: reconcile_deployment_def link_def)
      ultimately show ?thesis using w1(2) by blast
    next
      case (Some rs)
      note rs = s [OF Some]
      show ?thesis
      proof (cases "rs_Replicas (ri_Spec rs) = dy_Replicas (di_Spec d)")
        case True
        have "rsets st = (rsets st)(link d \<mapsto> rs)" using rs by (simp add: fun_upd_idem)
        then have "step_to env sets d st st" using False Some True by (auto simp: step_to_def)
        moreover have "reconcile_deployment env sets d w = (Inr (), w)"
          using False Some True by (simp add: reconcile_deployment_def link_def)
        ultimately show ?thesis using w by blast
      next
        case neq: False
        from scale_rs_ok [OF w(1), of env "link d" rs "dy_Replicas (di_Spec d)"] io d(2) rs obtain w1 rs' where
          w1: "on_psm env (\<lambda>io _. psm_UpdateReplicaSetReplicas io (ri_ReplicaSetId rs) (dy_Replicas (di_Spec d))) w = (Inr (), w1)"
            "holds (put_rs (link d) rs' st) w1" "nd_tick w1 = Suc (nd_tick w)" "rs_Replicas (ri_Spec rs') = dy_Replicas (di_Spec d)" by auto
        have "step_to env sets d st (put_rs (link d) rs' st)" using False Some w1(4) by (auto simp: step_to_def)
        moreover have "fresh_ids env (put_rs (link d) rs' st) (nd_tick w1)"
        proof (rule later)
          fix k assume "nd_tick w1 \<le> k"
          then have "rsets st (ne_ulid env k) = None" using w(2) w1(3) by (simp add: fresh_ids_def)
          then show "rsets (put_rs (link d) rs' st) (ne_ulid env k) = rsets st (ne_ulid env k)" using rs by auto
        qed (simp add: w1)
        moreover have "reconcile_deployment env sets d w = (Inr (), w1)"
          using False Some neq w1(1) by (simp add: reconcile_deployment_def link_def)
        ultimately show ?thesis using w1(2) by blast
      qed
    qed
  qed
qed

text \<open>
  A pass over deployments \<open>ds\<close> of which \<open>done\<close> are dealt with: those are linked to a replica set of their size, unless they named one
  that did not exist and are unlinked now; the others are untouched, and so are their replica sets.
\<close>

definition dealt_with :: "(string \<rightharpoonup> ReplicaSetInfo) \<Rightarrow> PodState \<Rightarrow> DeploymentInfo \<Rightarrow> DeploymentInfo \<Rightarrow> bool" where
  "dealt_with sets st d d' \<longleftrightarrow> relinked (link d') d' d \<and>
     (if link d \<noteq> [] \<and> sets (link d) = None then link d' = []
      else matched st d' \<and> (link d' = link d \<or> sets (link d') = None))"

definition pass_inv :: "(string \<rightharpoonup> ReplicaSetInfo) \<Rightarrow> DeploymentInfo set \<Rightarrow> DeploymentInfo set \<Rightarrow> PodState \<Rightarrow> bool" where
  "pass_inv sets ds done st \<longleftrightarrow>
     (\<forall>d \<in> done. \<exists>d'. deploys st (di_DeploymentId d) = Some d' \<and> dealt_with sets st d d') \<and>
     (\<forall>d \<in> ds - done. deploys st (di_DeploymentId d) = Some d \<and> (\<forall>rs. link d \<noteq> [] \<longrightarrow> sets (link d) = Some rs \<longrightarrow> rsets st (link d) = Some rs)) \<and>
     (\<forall>d1 \<in> done. \<forall>d2 \<in> done. \<forall>d1' d2'. deploys st (di_DeploymentId d1) = Some d1' \<longrightarrow> deploys st (di_DeploymentId d2) = Some d2' \<longrightarrow>
        link d1' = link d2' \<longrightarrow> link d1' \<noteq> [] \<longrightarrow> d1 = d2) \<and>
     dom (deploys st) = di_DeploymentId ` ds \<and> dom sets \<subseteq> dom (rsets st)"

definition own_sets :: "DeploymentInfo set \<Rightarrow> bool" where
  "own_sets ds \<longleftrightarrow> inj_on di_DeploymentId ds \<and> (\<forall>d1 \<in> ds. \<forall>d2 \<in> ds. link d1 = link d2 \<longrightarrow> link d1 \<noteq> [] \<longrightarrow> d1 = d2)"

lemma matched_upd: "matched st d \<Longrightarrow> rsets st' = (rsets st)(rid \<mapsto> rs) \<Longrightarrow> link d \<noteq> rid \<Longrightarrow> matched st' d"
  by (simp add: matched_def)

lemma relinked_link: "relinked rid d' d \<Longrightarrow> link d' = rid"
  by (simp add: relinked_def link_def)

lemma relinked_self: "relinked (link d) d d"
  by (simp add: relinked_def link_def)

lemma dealt_with_link:
  assumes "own_sets ds" "d1 \<in> ds" "d \<in> ds" "d1 \<noteq> d" and "dealt_with sets st d1 d1'" and "link d \<noteq> []" "sets (link d) = Some rs"
  shows "link d1' \<noteq> link d"
  using assms by (auto simp: dealt_with_def own_sets_def split: if_splits)

lemma dealt_with_matched: "dealt_with sets st d d' \<Longrightarrow> link d' = [] \<or> matched st d'"
  by (auto simp: dealt_with_def split: if_splits)

lemma pass_step:
  assumes inv: "pass_inv sets ds done st" and own: "own_sets ds" and sub: "done \<subseteq> ds" and d: "d \<in> ds" "d \<notin> done" and st: "step_to env sets d st st'"
  shows "pass_inv sets ds (insert d done) st'"
proof -
  have done1: "\<exists>d'. deploys st (di_DeploymentId d1) = Some d' \<and> dealt_with sets st d1 d'" if "d1 \<in> done" for d1
    using inv that by (simp add: pass_inv_def)
  have dom: "dom sets \<subseteq> dom (rsets st)" "dom (deploys st) = di_DeploymentId ` ds" using inv by (simp_all add: pass_inv_def)
  have other: "di_DeploymentId d1 \<noteq> di_DeploymentId d" if "d1 \<in> ds" "d1 \<noteq> d" for d1
    using own that d(1) by (auto simp: own_sets_def dest: inj_onD)
  \<comment> \<open>what a step has to satisfy\<close>
  have goal: ?thesis
    if this_one: "deploys st' (di_DeploymentId d) = Some d'" "dealt_with sets st' d d'"
      and others: "\<And>k. k \<noteq> di_DeploymentId d \<Longrightarrow> deploys st' k = deploys st k"
      and keep: "\<And>d1 d1'. d1 \<in> done \<Longrightarrow> dealt_with sets st d1 d1' \<Longrightarrow> dealt_with sets st' d1 d1'"
      and keep_rs: "\<And>d1 rs. d1 \<in> ds \<Longrightarrow> d1 \<noteq> d \<Longrightarrow> link d1 \<noteq> [] \<Longrightarrow> sets (link d1) = Some rs \<Longrightarrow> rsets st (link d1) = Some rs \<Longrightarrow> rsets st' (link d1) = Some rs"
      and diff: "\<And>d1 d1'. d1 \<in> done \<Longrightarrow> dealt_with sets st d1 d1' \<Longrightarrow> link d1' \<noteq> [] \<Longrightarrow> link d1' \<noteq> link d'"
      and grow: "dom (rsets st) \<subseteq> dom (rsets st')"
    for d'
  proof -
    have same: "deploys st' (di_DeploymentId d1) = deploys st (di_DeploymentId d1)" if "d1 \<in> ds" "d1 \<noteq> d" for d1
      using others other that by blast
    have c1: "\<forall>d1 \<in> insert d done. \<exists>d1'. deploys st' (di_DeploymentId d1) = Some d1' \<and> dealt_with sets st' d1 d1'"
    proof
      fix d1 assume "d1 \<in> insert d done"
      then show "\<exists>d1'. deploys st' (di_DeploymentId d1) = Some d1' \<and> dealt_with sets st' d1 d1'"
        using this_one keep done1 same sub by (cases "d1 = d") (auto, metis d(2) subsetD)
    qed
    have c2: "deploys st' (di_DeploymentId d1) = Some d1 \<and> (\<forall>rs. link d1 \<noteq> [] \<longrightarrow> sets (link d1) = Some rs \<longrightarrow> rsets st' (link d1) = Some rs)"
      if "d1 \<in> ds - insert d done" for d1
      using inv that same keep_rs unfolding pass_inv_def by simp
    have c3: "d1 = d2" if m: "d1 \<in> insert d done" "d2 \<in> insert d done" and e: "deploys st' (di_DeploymentId d1) = Some d1'"
        "deploys st' (di_DeploymentId d2) = Some d2'" "link d1' = link d2'" "link d1' \<noteq> []" for d1 d2 d1' d2'
    proof -
      have in_done: "e1 = d \<or> e1 \<in> done \<and> e1 \<noteq> d \<and> deploys st (di_DeploymentId e1) = deploys st' (di_DeploymentId e1)" if "e1 \<in> insert d done" for e1
        using that same sub d(2) by auto
      have no: False if "e1 \<in> done" "e1 \<noteq> d" "deploys st (di_DeploymentId e1) = Some e'" "link e' = link d'" "link e' \<noteq> []" for e1 e'
        using done1 [OF that(1)] that diff by auto
      show ?thesis
      proof (cases "d1 = d"; cases "d2 = d")
        assume "d1 = d" "d2 \<noteq> d"
        then show ?thesis using no [of d2 d2'] in_done [OF m(2)] e this_one(1) by auto
      next
        assume "d1 \<noteq> d" "d2 = d"
        then show ?thesis using no [of d1 d1'] in_done [OF m(1)] e this_one(1) by auto
      next
        assume "d1 \<noteq> d" "d2 \<noteq> d"
        then show ?thesis using in_done [OF m(1)] in_done [OF m(2)] e inv unfolding pass_inv_def by metis
      qed simp
    qed
    have c4: "dom (deploys st') = di_DeploymentId ` ds"
    proof -
      have "dom (deploys st') = insert (di_DeploymentId d) (dom (deploys st))" 
      proof (intro set_eqI iffI)
        fix k assume "k \<in> dom (deploys st')"
        then show "k \<in> insert (di_DeploymentId d) (dom (deploys st))" using others [of k] by (cases "k = di_DeploymentId d") (simp_all add: domIff)
      next
        fix k assume "k \<in> insert (di_DeploymentId d) (dom (deploys st))"
        then show "k \<in> dom (deploys st')" using others [of k] this_one(1) by (cases "k = di_DeploymentId d") (simp_all add: domIff)
      qed
      then show ?thesis using dom(2) d(1) by auto
    qed
    have c5: "dom sets \<subseteq> dom (rsets st')" using dom(1) grow by (rule order_trans)
    show ?thesis
      unfolding pass_inv_def
      by (intro conjI c1 c4 c5 ballI allI impI) ((use c2 in blast)+, rule c3)
  qed
  show ?thesis
  proof (cases "link d = []")
    case True
    then obtain rid rs d' where r: "rid \<noteq> []" "rsets st rid = None" "relinked rid d' d" "rs_Replicas (ri_Spec rs) = dy_Replicas (di_Spec d)"
        "rsets st' = (rsets st)(rid \<mapsto> rs)" "deploys st' = (deploys st)(di_DeploymentId d \<mapsto> d')" using st by (auto simp: step_to_def)
    have l: "link d' = rid" using r(3) by (rule relinked_link)
    have s: "sets rid = None" using dom(1) r(2) by auto
    have not_rid: "link d1' \<noteq> rid" if "dealt_with sets st d1 d1'" for d1 d1'
      using dealt_with_matched [OF that] r(1,2) by (auto simp: matched_def)
    show ?thesis
    proof (rule goal [of d'])
      have "dy_Replicas (di_Spec d') = dy_Replicas (di_Spec d)" using r(3) by (simp add: relinked_def)
      then show "dealt_with sets st' d d'" using True r l s by (auto simp: dealt_with_def matched_def)
      show "dealt_with sets st' d1 d1'" if "dealt_with sets st d1 d1'" for d1 d1'
        using that not_rid [OF that] matched_upd [OF _ r(5)] by (auto simp: dealt_with_def split: if_splits)
    qed (use r l not_rid in auto)
  next
    case False
    show ?thesis
    proof (cases "sets (link d)")
      case None
      then obtain d' where r: "relinked [] d' d" "rsets st' = rsets st" "deploys st' = (deploys st)(di_DeploymentId d \<mapsto> d')"
        using st False by (auto simp: step_to_def)
      have l: "link d' = []" using r(1) by (rule relinked_link)
      show ?thesis
        by (rule goal [of d']) (use False None r l in \<open>auto simp: dealt_with_def matched_def\<close>)
    next
      case (Some rs)
      then obtain rs' where r: "rs_Replicas (ri_Spec rs') = dy_Replicas (di_Spec d)" "rsets st' = (rsets st)(link d \<mapsto> rs')" "deploys st' = deploys st"
        using st False by (auto simp: step_to_def)
      have dd: "deploys st (di_DeploymentId d) = Some d" using inv d by (simp add: pass_inv_def)
      have not_d: "link d1' \<noteq> link d" if "d1 \<in> done" "dealt_with sets st d1 d1'" for d1 d1'
        using dealt_with_link [OF own _ d(1) _ that(2) False Some] that(1) sub d(2) by blast
      show ?thesis
      proof (rule goal [of d])
        show "dealt_with sets st' d d" using False Some r by (auto simp: dealt_with_def matched_def relinked_self)
        show "dealt_with sets st' d1 d1'" if "d1 \<in> done" "dealt_with sets st d1 d1'" for d1 d1'
          using that(2) not_d [OF that] matched_upd [OF _ r(2)] by (auto simp: dealt_with_def split: if_splits)
        show "rsets st' (link d1) = Some rs1"
          if "d1 \<in> ds" "d1 \<noteq> d" "link d1 \<noteq> []" "sets (link d1) = Some rs1" "rsets st (link d1) = Some rs1" for d1 rs1
          using that own d(1) r(2) by (auto simp: own_sets_def)
      qed (use r dd not_d in auto)
    qed
  qed
qed

lemma deployments_loop_inv:
  fixes env :: "'k node_env"
  assumes io: "\<forall>n. ne_io env n = io_ok" and inj: "inj (ne_ulid env)" and own: "own_sets ds"
    and ids: "\<And>rid rs. sets rid = Some rs \<Longrightarrow> ri_ReplicaSetId rs = rid" and pos: "\<forall>d \<in> ds. 0 \<le> dy_Replicas (di_Spec d)"
  shows "holds st w \<Longrightarrow> fresh_ids env st (nd_tick w) \<Longrightarrow> pass_inv sets ds done st \<Longrightarrow> done \<union> set xs = ds \<Longrightarrow> done \<inter> set xs = {} \<Longrightarrow> distinct xs \<Longrightarrow>
    \<exists>st' w'. deployments_loop env sets xs w = (Inr (), w') \<and> holds st' w' \<and> fresh_ids env st' (nd_tick w') \<and> pass_inv sets ds ds st'"
proof (induction xs arbitrary: "done" st w)
  case Nil
  then show ?case by auto
next
  case (Cons d xs)
  have d: "d \<in> ds" "d \<notin> done" using Cons.prems(4,5) by auto
  then have "deploys st (di_DeploymentId d) = Some d" "0 \<le> dy_Replicas (di_Spec d)"
    and s: "sets (link d) = Some rs \<Longrightarrow> link d \<noteq> [] \<Longrightarrow> rsets st (link d) = Some rs" for rs
    using Cons.prems(3) pos by (auto simp: pass_inv_def)
  obtain st1 w1 where 1: "reconcile_deployment env sets d w = (Inr (), w1)" "holds st1 w1" "fresh_ids env st1 (nd_tick w1)" "step_to env sets d st st1"
  proof (cases "link d = []")
    case True
    have "reconcile_deployment env (sets([] := None)) d w = reconcile_deployment env sets d w"
      "step_to env (sets([] := None)) d st st1 = step_to env sets d st st1" for st1
      using True by (simp_all add: reconcile_deployment_def link_def step_to_def)
    with reconcile_deployment_step [OF io inj Cons.prems(1,2), of d "sets([] := None)"] that True
      \<open>deploys st (di_DeploymentId d) = Some d\<close> \<open>0 \<le> dy_Replicas (di_Spec d)\<close>
    show ?thesis by auto
  next
    case False
    from reconcile_deployment_step [OF io inj Cons.prems(1,2), of d sets] that False s ids
      \<open>deploys st (di_DeploymentId d) = Some d\<close> \<open>0 \<le> dy_Replicas (di_Spec d)\<close>
    show ?thesis by blast
  qed
  have "pass_inv sets ds (insert d done) st1"
    using Cons.prems(3,4) by (intro pass_step [OF _ own _ d 1(4)]) auto
  from Cons.IH [OF 1(2,3) this] Cons.prems(4-6) 1(1) show ?case by (auto simp: and_then_def)
qed

lemma map_of_rev_list:
  assumes "distinct (map f xs)" shows "map_of (rev (map (\<lambda>x. (f x, x)) xs)) = map_of (map (\<lambda>x. (f x, x)) xs)"
  using assms by (intro map_of_inject_set [THEN iffD2]) (simp_all add: rev_map [symmetric] comp_def distinct_map)

lemma keyed_list: "keyed_by key m \<Longrightarrow> map (\<lambda>v. (key v, v)) (map snd m) = m"
  by (induction m) (auto simp: keyed_by_def)

definition deploy_set :: "PodState \<Rightarrow> DeploymentInfo set" where
  "deploy_set st = snd ` set (ps_Deployments st)"

lemma one_pass:
  fixes env :: "'k node_env"
  assumes io: "\<forall>n. ne_io env n = io_ok" and inj: "inj (ne_ulid env)" and w: "holds st w" "fresh_ids env st (nd_tick w)"
    and keyed: "keyed_by di_DeploymentId (ps_Deployments st)" "keyed_by ri_ReplicaSetId (ps_ReplicaSets st)"
    and own: "own_sets (deploy_set st)" and pos: "\<forall>d \<in> deploy_set st. 0 \<le> dy_Replicas (di_Spec d)"
  shows "\<exists>st' w'. reconcileDeployments env w = (Inr (), w') \<and> holds st' w' \<and> fresh_ids env st' (nd_tick w') \<and>
    pass_inv (rsets st) (deploy_set st) (deploy_set st) st'"
proof -
  let ?ds = "map snd (ps_Deployments st)" and ?sets = "map snd (ps_ReplicaSets st)"
  have lists: "psm_GetDeploymentList io_ok (nd_psm w) = Inr ?ds" "psm_GetReplicaSetList io_ok (nd_psm w) = Inr ?sets"
    using w(1) by (simp_all add: holds_def psm_GetDeploymentList_def psm_GetReplicaSetList_def psm_RLock_ok)
  have "distinct (map ri_ReplicaSetId ?sets)" unfolding map_map keyed_by_map_fst [OF keyed(2)] by (rule keyed_by_wf [OF keyed(2)])
  then have sets: "map_of (rev (map (\<lambda>rs. (ri_ReplicaSetId rs, rs)) ?sets)) = rsets st"
    using map_of_rev_list [of ri_ReplicaSetId ?sets] by (simp only: keyed_list [OF keyed(2)])
  have dep: "deploys st (di_DeploymentId d) = Some d" if "d \<in> deploy_set st" for d
    using that keyed_by_values [OF keyed(1)] by (simp add: deploy_set_def)
  have inv: "pass_inv (rsets st) (deploy_set st) {} st"
  proof -
    have "dom (deploys st) = di_DeploymentId ` deploy_set st"
    proof (intro set_eqI iffI)
      fix k assume "k \<in> dom (deploys st)"
      then obtain d where "deploys st k = Some d" by auto
      then have "d \<in> deploy_set st" "di_DeploymentId d = k"
        using keyed_by_lookup [OF keyed(1)] by (force simp: deploy_set_def dest: map_of_SomeD)+
      then show "k \<in> di_DeploymentId ` deploy_set st" by blast
    qed (use dep in auto)
    then show ?thesis using dep by (simp add: pass_inv_def)
  qed
  have "distinct (map di_DeploymentId ?ds)" unfolding map_map keyed_by_map_fst [OF keyed(1)] by (rule keyed_by_wf [OF keyed(1)])
  then have d: "distinct ?ds" "set ?ds = deploy_set st" by (simp_all only: distinct_map deploy_set_def set_map)
  let ?w = "tick (tick w)"
  have w2: "holds st ?w" "fresh_ids env st (nd_tick ?w)" using w by (simp_all add: holds_def fresh_ids_def)
  from deployments_loop_inv [OF io inj own _ pos w2 inv, of ?ds] keyed_by_lookup [OF keyed(2)] d
  obtain st' w' where r: "deployments_loop env (rsets st) ?ds ?w = (Inr (), w')" "holds st' w'" "fresh_ids env st' (nd_tick w')"
      "pass_inv (rsets st) (deploy_set st) (deploy_set st) st'" by auto
  show ?thesis
  proof (cases "?ds = []")
    case True
    then have "reconcileDeployments env w = (Inr (), tick w)" using lists io by (simp add: reconcileDeployments_def and_then_def ask_def)
    moreover have "fresh_ids env st (nd_tick (tick w))" using w by (simp add: fresh_ids_def)
    moreover have "deploy_set st = {}" using True by (simp add: deploy_set_def)
    ultimately show ?thesis using w(1) inv by (auto simp: holds_def)
  next
    case False
    then have "reconcileDeployments env w = (Inr (), w')"
      using lists io r(1) sets by (simp add: reconcileDeployments_def and_then_def ask_def)
    with r show ?thesis by blast
  qed
qed

text \<open>The histories of the document go on.\<close>

abbreviation good_pods :: "'k node \<Rightarrow> bool" where
  "good_pods w \<equiv> psm_reachable (nd_psm w)"

lemma keep_psm_op:
  assumes "\<And>io now d. psm_reachable d \<Longrightarrow> psm_reachable (snd (f io now d))"
  shows "keep good_pods (on_psm env f)"
  using assms by (simp add: keep_def on_psm_def case_prod_beta Let_def)

lemma keep_on_error:
  "keep B f \<Longrightarrow> keep B g \<Longrightarrow> keep B (\<lambda>w. case f w of (Inl e, w') \<Rightarrow> (Inl e, ignore g w') | (Inr a, w') \<Rightarrow> (r a, w'))"
  by (simp add: keep_def ignore_def split: prod.splits sum.splits) (metis snd_conv)

lemma keep_pods_read: "keep good_pods (ask env f)" "keep good_pods (new_ulid env)"
  by (simp_all add: keep_def ask_def new_ulid_def)

lemma keep_reconcile_deployment: "keep good_pods (reconcile_deployment env sets d)"
proof -
  have ops: "keep good_pods (on_psm env (\<lambda>io now. psm_UpdateDeploymentReplicaSet io now k rid))"
    "keep good_pods (on_psm env (\<lambda>io now. psm_StoreReplicaSet io now rid spec))"
    "keep good_pods (on_psm env (\<lambda>io _. psm_UpdateReplicaSetReplicas io rid n))"
    "keep good_pods (on_psm env (\<lambda>io _. psm_RemoveReplicaSet io rid))" for k rid spec n
    by (rule keep_psm_op, simp add: psm_reachable.intros)+
  have "keep good_pods (link_replica_set env d)"
    unfolding link_replica_set_def by (intro keep_case keep_and_then keep_on_error ops keep_pods_read)
  then show ?thesis unfolding reconcile_deployment_def
    by (intro keep_If) (auto intro: ops keep_Pair split: option.split)
qed

lemma keep_deployments_loop: "keep good_pods (deployments_loop env sets ds)"
proof (induction ds)
  case (Cons d ds)
  have "keep good_pods (and_then (reconcile_deployment env sets d) (\<lambda>_. deployments_loop env sets ds))"
    by (intro keep_and_then keep_reconcile_deployment Cons.IH)
  then show ?case by (simp add: keep_def)
qed (simp add: keep_def)

lemma keep_reconcileDeployments: "keep good_pods (reconcileDeployments env)"
  unfolding reconcileDeployments_def
  by (intro keep_and_then keep_If keep_Pair keep_pods_read keep_deployments_loop)

lemma loaded:
  assumes "good_pods w" and "holds st w"
  shows "keyed_by di_DeploymentId (ps_Deployments st)" "keyed_by ri_ReplicaSetId (ps_ReplicaSets st)"
  using psm_load [OF assms(1)] assms(2) by (auto simp: holds_def psm_inv_def)

lemma deploy_set_iff: "keyed_by di_DeploymentId (ps_Deployments st) \<Longrightarrow> d \<in> deploy_set st \<longleftrightarrow> deploys st (di_DeploymentId d) = Some d"
  by (simp add: deploy_set_def keyed_by_values)

text \<open>After a pass every deployment comes from one before it.\<close>

lemma after_pass:
  assumes inv: "pass_inv sets (deploy_set st) (deploy_set st) st'" and keyed: "keyed_by di_DeploymentId (ps_Deployments st')"
    and d: "d' \<in> deploy_set st'"
  shows "\<exists>d \<in> deploy_set st. di_DeploymentId d' = di_DeploymentId d \<and> dealt_with sets st' d d'"
proof -
  have e: "deploys st' (di_DeploymentId d') = Some d'" using d deploy_set_iff [OF keyed] by simp
  then have "di_DeploymentId d' \<in> di_DeploymentId ` deploy_set st" using inv by (auto simp: pass_inv_def)
  then obtain d where d: "d \<in> deploy_set st" "di_DeploymentId d' = di_DeploymentId d" by blast
  then have "\<exists>d2. deploys st' (di_DeploymentId d) = Some d2 \<and> dealt_with sets st' d d2" using inv by (simp add: pass_inv_def)
  with d e show ?thesis by auto
qed

lemma own_sets_after:
  assumes inv: "pass_inv sets (deploy_set st) (deploy_set st) st'" and keyed: "keyed_by di_DeploymentId (ps_Deployments st')"
  shows "own_sets (deploy_set st')"
proof -
  have dep: "deploys st' (di_DeploymentId d) = Some d" if "d \<in> deploy_set st'" for d using that deploy_set_iff [OF keyed] by simp
  then have "inj_on di_DeploymentId (deploy_set st')" by (metis inj_onI option.inject)
  moreover have "e1 = e2" if e: "e1 \<in> deploy_set st'" "e2 \<in> deploy_set st'" "link e1 = link e2" "link e1 \<noteq> []" for e1 e2
  proof -
    obtain d1 d2 where d: "d1 \<in> deploy_set st" "di_DeploymentId e1 = di_DeploymentId d1" "d2 \<in> deploy_set st" "di_DeploymentId e2 = di_DeploymentId d2"
      using after_pass [OF inv keyed] e(1,2) by metis
    have "deploys st' (di_DeploymentId d1) = Some e1" "deploys st' (di_DeploymentId d2) = Some e2" using dep [OF e(1)] dep [OF e(2)] d(2,4) by simp_all
    then have "d1 = d2" using inv d(1,3) e(3,4) unfolding pass_inv_def by blast
    then show ?thesis using dep [OF e(1)] dep [OF e(2)] d(2,4) by auto
  qed
  ultimately show ?thesis by (auto simp: own_sets_def)
qed

lemma settled_iff: "settled st \<longleftrightarrow> (\<forall>d \<in> deploy_set st. matched st d)"
  by (auto simp: settled_def deploy_set_def)

text \<open>A pass over a settled document changes nothing.\<close>

lemma settled_pass:
  assumes "ne_io env (nd_tick w) = io_ok" "ne_io env (Suc (nd_tick w)) = io_ok" and w: "good_pods w" "holds st w" and s: "settled st"
  shows "\<exists>w'. reconcileDeployments env w = (Inr (), w') \<and> nd_psm w' = nd_psm w"
proof -
  let ?ds = "map snd (ps_Deployments st)" and ?sets = "map snd (ps_ReplicaSets st)"
  note keyed = loaded [OF w]
  have lists: "psm_GetDeploymentList io_ok (nd_psm w) = Inr ?ds" "psm_GetReplicaSetList io_ok (nd_psm w) = Inr ?sets"
    using w(2) by (simp_all add: holds_def psm_GetDeploymentList_def psm_GetReplicaSetList_def psm_RLock_ok)
  have "distinct (map ri_ReplicaSetId ?sets)" unfolding map_map keyed_by_map_fst [OF keyed(2)] by (rule keyed_by_wf [OF keyed(2)])
  then have sets: "map_of (rev (map (\<lambda>rs. (ri_ReplicaSetId rs, rs)) ?sets)) = rsets st"
    using map_of_rev_list [of ri_ReplicaSetId ?sets] by (simp only: keyed_list [OF keyed(2)])
  have loop: "deployments_loop env (rsets st) ds w1 = (Inr (), w1)" if "\<forall>d \<in> set ds. matched st d" for ds w1
    using that
  proof (induction ds)
    case (Cons d ds)
    then have "reconcile_deployment env (rsets st) d w1 = (Inr (), w1)"
      by (auto simp: reconcile_deployment_def matched_def link_def split: option.splits)
    with Cons show ?case by (simp add: and_then_def)
  qed simp
  have "\<forall>d \<in> set ?ds. matched st d" using s by (auto simp: settled_def)
  with loop lists sets assms(1,2) show ?thesis by (simp add: reconcileDeployments_def and_then_def ask_def)
qed

lemma deployments_settle_lemma:
  fixes env :: "'k node_env"
  assumes io: "\<forall>n. ne_io env n = io_ok" and inj: "inj (ne_ulid env)" and w: "good_pods w" "holds st w" "fresh_ids env st (nd_tick w)"
    and own: "own_sets (deploy_set st)" and pos: "\<forall>d \<in> deploy_set st. 0 \<le> dy_Replicas (di_Spec d)"
  shows "\<exists>w1 w2 st2. reconcileDeployments env w = (Inr (), w1) \<and> reconcileDeployments env w1 = (Inr (), w2) \<and> good_pods w2 \<and> holds st2 w2 \<and> settled st2 \<and>
    (\<forall>d \<in> deploy_set st. \<exists>d2 \<in> deploy_set st2. relinked (link d2) d2 d)"
proof -
  note k0 = loaded [OF w(1,2)]
  obtain st1 w1 where 1: "reconcileDeployments env w = (Inr (), w1)" "holds st1 w1" "fresh_ids env st1 (nd_tick w1)"
      "pass_inv (rsets st) (deploy_set st) (deploy_set st) st1" using one_pass [OF io inj w(2,3) k0 own pos] by blast
  have g1: "good_pods w1" by (rule keepD [OF keep_reconcileDeployments w(1) 1(1)])
  note k1 = loaded [OF g1 1(2)]
  have own1: "own_sets (deploy_set st1)" by (rule own_sets_after [OF 1(4) k1(1)])
  have pos1: "\<forall>d \<in> deploy_set st1. 0 \<le> dy_Replicas (di_Spec d)"
    using after_pass [OF 1(4) k1(1)] pos by (fastforce simp: dealt_with_def relinked_def)
  obtain st2 w2 where 2: "reconcileDeployments env w1 = (Inr (), w2)" "holds st2 w2"
      "pass_inv (rsets st1) (deploy_set st1) (deploy_set st1) st2" using one_pass [OF io inj 1(2,3) k1 own1 pos1] by blast
  have g2: "good_pods w2" by (rule keepD [OF keep_reconcileDeployments g1 2(1)])
  note k2 = loaded [OF g2 2(2)]
  have "matched st2 d2" if m: "d2 \<in> deploy_set st2" for d2
  proof -
    obtain d1 where d1: "d1 \<in> deploy_set st1" "dealt_with (rsets st1) st2 d1 d2" using after_pass [OF 2(3) k2(1) m] by blast
    then have "link d1 = [] \<or> matched st1 d1" using after_pass [OF 1(4) k1(1)] dealt_with_matched by blast
    then have "\<not> (link d1 \<noteq> [] \<and> rsets st1 (link d1) = None)" by (auto simp: matched_def)
    with d1(2) show ?thesis by (auto simp: dealt_with_def split: if_splits)
  qed
  then have "settled st2" by (simp add: settled_iff)
  moreover have "\<exists>d2 \<in> deploy_set st2. relinked (link d2) d2 d" if m: "d \<in> deploy_set st" for d
  proof -
    obtain d1 where d1: "deploys st1 (di_DeploymentId d) = Some d1" "relinked (link d1) d1 d"
      using 1(4) m unfolding pass_inv_def dealt_with_def by blast
    then have "deploys st1 (di_DeploymentId d1) = Some d1" by (simp add: relinked_def)
    then have m1: "d1 \<in> deploy_set st1" using deploy_set_iff [OF k1(1)] by blast
    obtain d2 where d2: "deploys st2 (di_DeploymentId d1) = Some d2" "relinked (link d2) d2 d1"
      using 2(3) m1 unfolding pass_inv_def dealt_with_def by blast
    then have "d2 \<in> deploy_set st2" using deploy_set_iff [OF k2(1)] by (auto simp: relinked_def)
    moreover have "relinked (link d2) d2 d" using d1(2) d2(2) by (simp add: relinked_def)
    ultimately show ?thesis by blast
  qed
  ultimately show ?thesis using 1(1) 2(1,2) g2 by blast
qed

text \<open>
  Property C12. Deployments settle: from any pod document a history of operations can produce, as long as all accesses to documents succeed, new identifiers
  are not empty, never repeat and are not in use, no two deployments share an identifier or name the same replica set, and no deployment
  asks for a negative number of replicas, two runs of \<open>reconcileDeployments\<close> link every deployment to a replica set of its size (a link to
  a replica set that does not exist is dropped in the first run and replaced in the second) without changing the deployments
  otherwise, and the next run leaves the document as it is.  This is the deployment part of a pass of the controller; the creation and
  repair of pods is not part of it.
\<close>

theorem deployments_settle:
  fixes env :: "'k node_env"
  assumes "\<forall>n. ne_io env n = io_ok" and "inj (ne_ulid env)" and "psm_reachable (nd_psm w)" and "holds st w" and "fresh_ids env st (nd_tick w)"
    and "own_sets (deploy_set st)" and "\<forall>d \<in> deploy_set st. 0 \<le> dy_Replicas (di_Spec d)"
  shows "\<exists>w1 w2 w3 st2. reconcileDeployments env w = (Inr (), w1) \<and> reconcileDeployments env w1 = (Inr (), w2) \<and> holds st2 w2 \<and> settled st2 \<and>
    (\<forall>d \<in> deploy_set st. \<exists>d2 \<in> deploy_set st2. relinked (link d2) d2 d) \<and>
    reconcileDeployments env w2 = (Inr (), w3) \<and> nd_psm w3 = nd_psm w2"
proof -
  obtain w1 w2 st2 where r: "reconcileDeployments env w = (Inr (), w1)" "reconcileDeployments env w1 = (Inr (), w2)" "good_pods w2" "holds st2 w2"
      "settled st2" "\<forall>d \<in> deploy_set st. \<exists>d2 \<in> deploy_set st2. relinked (link d2) d2 d"
    using deployments_settle_lemma [OF assms] by blast
  obtain w3 where "reconcileDeployments env w2 = (Inr (), w3)" "nd_psm w3 = nd_psm w2"
    using settled_pass [OF _ _ r(3-5)] assms(1) by blast
  with r show ?thesis by blast
qed

text \<open>
  A failing replica set backs off within bounds: the delay before its next pass is at least the five seconds of the timer and at
  most a minute, does not decrease with the number of attempts and is a minute from the fifth on.
\<close>

lemma reconcile_backoff:
  assumes "1 \<le> attempt"
  shows "interval \<le> reconcile_delay attempt \<and> reconcile_delay attempt \<le> 60 * second \<and>
    reconcile_delay attempt \<le> reconcile_delay (attempt + 1) \<and> (4 < attempt \<longrightarrow> reconcile_delay attempt = 60 * second)"
  using reconcile_delay_bounds [OF assms] by blast

text \<open>
  Property C15. No pod is managed by two replica sets: in a list of replica sets with different identifiers at most one takes a pod,
  whether by ownership or, for a pod nobody owns, by template and name.
\<close>

theorem one_manager:
  assumes "distinct (map ri_ReplicaSetId sets)" and "rs1 \<in> set sets" and "rs2 \<in> set sets"
    and "p \<in> set (filterReplicaSetPods rs1 pods (replicaSetTemplateRefs sets))"
    and "p \<in> set (filterReplicaSetPods rs2 pods (replicaSetTemplateRefs sets))"
  shows "rs1 = rs2"
  using assms managed_by_one [of rs1 sets rs2 p] by (simp add: filterReplicaSetPods_def)

section \<open>Examples\<close>

definition ex_controller :: "unit node_env" where
  "ex_controller = ex_env\<lparr>ne_ulid := \<lambda>n. replicate (Suc n) CHR ''0''\<rparr>"

definition ex_deployment :: DeploymentSpec where
  "ex_deployment = \<lparr>dy_Name = ''web'', dy_Namespace = ''default'', dy_Replicas = 2, dy_TemplateId = ''t1'', dy_Selector = None,
     dy_ReplicaSetId = ''gone''\<rparr>"

definition ex_deployed :: "unit node" where
  "ex_deployed = ex_node\<lparr>nd_psm := snd (psm_StoreDeployment io_ok 3 ''d1'' ex_deployment empty_disk)\<rparr>"

theorem deployments_settle_witness:
  "\<exists>w1 w2 st2. reconcileDeployments ex_controller ex_deployed = (Inr (), w1) \<and> reconcileDeployments ex_controller w1 = (Inr (), w2) \<and>
     holds st2 w2 \<and> settled st2"
proof -
  let ?d = "\<lparr>di_DeploymentId = ''d1'', di_Spec = ex_deployment, di_CreatedAt = 3, di_UpdatedAt = 3\<rparr>"
  let ?st = "psm_init\<lparr>ps_Deployments := [(''d1'', ?d)]\<rparr>"
  have inj: "inj (ne_ulid ex_controller)" by (simp add: ex_controller_def inj_on_def)
  have io: "\<forall>n. ne_io ex_controller n = io_ok" by (simp add: ex_controller_def ex_env_def)
  have doc: "nd_psm ex_deployed = \<lparr>main_file = Some (Decoded (psm_marshal ?st)), tmp_file = None\<rparr>"
    by (simp add: ex_deployed_def psm_StoreDeployment_def psm_withLock_def psm_atomicSave_def withLock_io_ok read_file_io_ok empty_disk_def
        psm_loadOrInit_def load_or_init_def psm_init_def)
  then have h: "holds ?st ex_deployed" by (simp add: holds_def psm_saved)
  have g: "psm_reachable (nd_psm ex_deployed)" by (simp add: ex_deployed_def psm_reachable.intros)
  have f: "fresh_ids ex_controller ?st (nd_tick ex_deployed)" by (simp add: fresh_ids_def ex_controller_def psm_init_def)
  have own: "own_sets (deploy_set ?st)" "\<forall>d \<in> deploy_set ?st. 0 \<le> dy_Replicas (di_Spec d)"
    by (simp_all add: own_sets_def deploy_set_def ex_deployment_def)
  from deployments_settle [OF io inj g h f own] show ?thesis by blast
qed

definition ex_rs :: "string \<Rightarrow> int \<Rightarrow> ReplicaSetInfo" where
  "ex_rs i n = \<lparr>ri_ReplicaSetId = i, ri_Spec = \<lparr>rs_Name = ''web'', rs_Namespace = ''default'', rs_Replicas = n, rs_TemplateId = ''t1'', rs_Selector = None\<rparr>,
     ri_CreatedAt = 3, ri_ReconcileAttempt = 0, ri_LastReconcileError = [], ri_NextReconcileAt = zero_time\<rparr>"

definition ex_web :: PodCreateModel where
  "ex_web = \<lparr>pm_Name = ''web-1'', pm_Namespace = ''default'', pm_UID = ''u1'', pm_NetworkNS = [], pm_IPCNS = [], pm_UTSNS = [], pm_UserNS = [],
     pm_Rootless = False, pm_Labels = None, pm_Annotations = None, pm_Containers = []\<rparr>"

theorem one_manager_witness:
  "let refs = replicaSetTemplateRefs [ex_rs ''r1'' 2, ex_rs ''r2'' 1]; p = (new_pod 3 (store_request ''p1'' ''t1'' ex_web))\<lparr>pd_OwnerKind := OwnerKindReplicaSet, pd_OwnerId := ''r1''\<rparr>
   in filterReplicaSetPods (ex_rs ''r1'' 2) [p] refs = [p] \<and> filterReplicaSetPods (ex_rs ''r2'' 1) [p] refs = []"
proof -
  let ?p = "(new_pod 3 (store_request ''p1'' ''t1'' ex_web))\<lparr>pd_OwnerKind := OwnerKindReplicaSet, pd_OwnerId := ''r1''\<rparr>"
  let ?refs = "replicaSetTemplateRefs [ex_rs ''r1'' 2, ex_rs ''r2'' 1]"
  have m: "filterReplicaSetPods (ex_rs ''r1'' 2) [?p] ?refs = [?p]"
    by (simp add: filterReplicaSetPods_def managed_by_def ex_rs_def)
  moreover have "ex_rs ''r1'' 2 \<noteq> ex_rs ''r2'' 1" by (simp add: ex_rs_def)
  moreover have "distinct (map ri_ReplicaSetId [ex_rs ''r1'' 2, ex_rs ''r2'' 1])" by (simp add: ex_rs_def)
  ultimately have "?p \<notin> set (filterReplicaSetPods (ex_rs ''r2'' 1) [?p] ?refs)"
    using one_manager [of "[ex_rs ''r1'' 2, ex_rs ''r2'' 1]" "ex_rs ''r1'' 2" "ex_rs ''r2'' 1" ?p "[?p]"] by auto
  then have "filterReplicaSetPods (ex_rs ''r2'' 1) [?p] ?refs = []" by (auto simp: filterReplicaSetPods_def split: if_splits)
  with m show ?thesis by (simp add: Let_def)
qed

text \<open>A document with a replica set, its template and, if any, one of its pods.\<close>

definition ex_scaled :: "int \<Rightarrow> bool \<Rightarrow> unit node" where
  "ex_scaled n pod = (let d1 = snd (psm_StorePodTemplate io_ok 3 ''t1'' (template_spec ex_web []) empty_disk);
      d2 = snd (psm_StoreReplicaSet io_ok 3 ''r1'' (ri_Spec (ex_rs ''r1'' n)) d1);
      d3 = snd (psm_UpdatePodOwner io_ok ''p1'' OwnerKindReplicaSet ''r1'' (snd (psm_StorePod io_ok 3 (store_request ''p1'' ''t1'' ex_web) d2)))
    in ex_node\<lparr>nd_psm := if pod then d3 else d2\<rparr>)"

definition pod_names :: "unit node \<Rightarrow> string list" where
  "pod_names w = (case psm_GetPodList io_ok (nd_psm w) of Inr ps \<Rightarrow> map pd_Name ps | Inl _ \<Rightarrow> [])"

text \<open>
  Scaling does not reach its goal in a pass without errors. A replica set scaled to zero has its pod deleted and, in the same
  pass, recreated, because the repair walks over the list of pods read before; and three replicas created at once are one pod in the
  end, because their names carry the part of the identifier that is the time and a pod replaces another of its name.
\<close>

lemma scaling_gaps:
  "fst (reconcileOnce ex_controller (ex_scaled 0 True)) = Inr () \<and> pod_names (snd (reconcileOnce ex_controller (ex_scaled 0 True))) = [''web-1''] \<and>
   pod_names (snd (reconcileOnce (ex_controller\<lparr>ne_ulid := \<lambda>n. ''01ABCDEF'' @ replicate n CHR ''0''\<rparr>) (ex_scaled 3 False))) = [''web-01ABCDEF'']"
  by code_simp

end
