(* ===== verification/Droplet_Spec.thy ===== *)
theory Droplet_Spec
  imports Path_Safety Store_Core
begin

text \<open>
  The low-level runtime \<open>droplet\<close>: the OCI specification of a container (\<open>droplet/spec/spec.go\<close>), the checks and constructors of
  \<open>spec/validate.go\<close>, \<open>spec/spec_io.go\<close> and \<open>spec/security_profile.go\<close>. Pointers to optional values are options; \<open>nil\<close> and empty slices,
  which this code does not tell apart, are the empty list.
\<close>

section \<open>The specification\<close>

record RootObject =
  ro_Path :: string
  ro_Readonly :: bool

record MountObject =
  mo_Destination :: string
  mo_Type :: string
  mo_Source :: string
  mo_Options :: "string list"

record CapabilityObject =
  ca_Bounding :: "string list"
  ca_Permitted :: "string list"
  ca_Inheritable :: "string list"
  ca_Effective :: "string list"
  ca_Ambient :: "string list"

record UserObject =
  us_UID :: int
  us_GID :: int
  us_Umask :: "int option"
  us_AdditionalGids :: "int list"

record RlimitObject =
  rl_Type :: string
  rl_Hard :: nat
  rl_Soft :: nat

record ConsoleSizeObject =
  cz_Height :: nat
  cz_Width :: nat

record ProcessObject =
  po_Cwd :: string
  po_Env :: "string list"
  po_Args :: "string list"
  po_Terminal :: bool
  po_ConsoleSize :: "ConsoleSizeObject option"
  po_OOMScoreAdj :: "int option"
  po_Capabilities :: CapabilityObject
  po_User :: UserObject
  po_Rlimits :: "RlimitObject list"
  po_NoNewPrivileges :: bool

record CpuObject =
  cp_Period :: int
  cp_Quota :: int

record DeviceCgroupObject =
  dc_Allow :: bool
  dc_Type :: string
  dc_Major :: "int option"
  dc_Minor :: "int option"
  dc_Access :: string

record ResourceObject =
  re_Memory_Limit :: int
  re_Cpu :: CpuObject
  re_Pids_Limit :: int
  re_Devices :: "DeviceCgroupObject list"

record DeviceObject =
  de_Path :: string
  de_Type :: string
  de_Major :: int
  de_Minor :: int
  de_FileMode :: "nat option"
  de_UID :: "nat option"
  de_GID :: "nat option"

record NamespaceObject =
  no_Type :: string
  no_Path :: string

record IDMappingObject =
  im_ContainerID :: int
  im_HostID :: int
  im_Size :: int

record SeccompArgObject =
  sa_Index :: nat
  sa_Value :: nat
  sa_Op :: string
  sa_ValueTwo :: "nat option"

record SeccompFilterObject =
  sf_Architectures :: "string list"
  sf_Caps :: "string list"
  sf_MinKernel :: string

record SeccompSyscallObject =
  sy_Names :: "string list"
  sy_Action :: string
  sy_ErrnoRet :: "nat option"
  sy_Args :: "SeccompArgObject list"
  sy_Comment :: string
  sy_Include :: "SeccompFilterObject option"
  sy_Excludes :: "SeccompFilterObject option"

record SeccompObject =
  se_DefaultAction :: string
  se_DefaultErrnoRet :: "nat option"
  se_Architectures :: "string list"
  se_Flags :: "string list"
  se_Syscalls :: "SeccompSyscallObject list"

record LinuxSpecObject =
  ls_Resources :: ResourceObject
  ls_CgroupsPath :: string
  ls_Namespaces :: "NamespaceObject list"
  ls_Devices :: "DeviceObject list"
  ls_UIDMappings :: "IDMappingObject list"
  ls_GIDMappings :: "IDMappingObject list"
  ls_MaskedPaths :: "string list"
  ls_ReadonlyPaths :: "string list"
  ls_RootfsPropagation :: string
  ls_Seccomp :: "SeccompObject option"
  ls_AppArmorProfile :: string

record AnnotationObject =
  an_Version :: string
  an_Net :: string
  an_Image :: string
  an_Rootless :: string
  an_Extra :: "(string, string) gomap"

record HookObject =
  ho_Path :: string
  ho_Args :: "string list"
  ho_Env :: "string list"
  ho_Timeout :: "int option"

record HookLifecycleObject =
  hl_Prestart :: "HookObject list"
  hl_CreateRuntime :: "HookObject list"
  hl_CreateContainer :: "HookObject list"
  hl_StartContainer :: "HookObject list"
  hl_Poststart :: "HookObject list"
  hl_StopContainer :: "HookObject list"
  hl_Poststop :: "HookObject list"

record Spec =
  sp_OciVersion :: string
  sp_Root :: RootObject
  sp_Mounts :: "MountObject list"
  sp_Process :: ProcessObject
  sp_Hostname :: string
  sp_LinuxSpec :: LinuxSpecObject
  sp_Hooks :: HookLifecycleObject
  sp_Annotations :: AnnotationObject

record IPv4Object =
  i4_Address :: string
  i4_Gateway :: string

record InterfaceObject =
  if_Name :: string
  if_IPv4 :: IPv4Object
  if_Dns_Servers :: "string list"

record NetConfigObject =
  nf_HostInterface :: string
  nf_BridgeInterface :: string
  nf_Interface :: InterfaceObject

record ImageConfig =
  io_RootfsType :: string
  io_ImageLayer :: "string list"
  io_UpperDir :: string
  io_WorkDir :: string

record RootlessConfigObject =
  rc_Enabled :: bool
  rc_Mode :: string
  rc_HostRootUID :: int
  rc_HostRootGID :: int

definition RootlessModeShiftedRoot :: string where "RootlessModeShiftedRoot = ''shifted-root''"
definition RootlessModeLoginRoot :: string where "RootlessModeLoginRoot = ''login-root''"

subsection \<open>Annotations as JSON\<close>

text \<open>
  \<open>MarshalJSON\<close> puts the named annotations, unless they are empty, and the others into one object;
  \<open>UnmarshalJSON\<close> takes them apart again.
\<close>

definition key_version :: string where "key_version = ''io.raind.runtime.annotation.version''"
definition key_net :: string where "key_net = ''io.raind.net.config''"
definition key_image :: string where "key_image = ''io.raind.image.config''"
definition key_rootless :: string where "key_rootless = ''io.raind.rootless''"

definition set_nonempty :: "string \<Rightarrow> string \<Rightarrow> (string, string) gomap \<Rightarrow> (string, string) gomap" where
  "set_nonempty k v m = (if v \<noteq> [] then map_set k v m else m)"

definition annotation_items :: "AnnotationObject \<Rightarrow> (string, string) gomap" where
  "annotation_items a = set_nonempty key_rootless (an_Rootless a) (set_nonempty key_image (an_Image a)
     (set_nonempty key_net (an_Net a) (set_nonempty key_version (an_Version a) (an_Extra a))))"

definition map_get :: "(string, string) gomap \<Rightarrow> string \<Rightarrow> string" where
  "map_get m k = (case map_of m k of None \<Rightarrow> [] | Some v \<Rightarrow> v)"

definition annotation_of_items :: "(string, string) gomap \<Rightarrow> AnnotationObject" where
  "annotation_of_items m = \<lparr>an_Version = map_get m key_version, an_Net = map_get m key_net, an_Image = map_get m key_image,
     an_Rootless = map_get m key_rootless, an_Extra = map_del key_rootless (map_del key_image (map_del key_net (map_del key_version m)))\<rparr>"

definition annotation_stored :: "AnnotationObject \<Rightarrow> AnnotationObject" where
  "annotation_stored a = annotation_of_items (annotation_items a)"

lemmas annotation_keys = key_version_def key_net_def key_image_def key_rootless_def

lemma annotation_roundtrip:
  assumes "\<forall>k \<in> {key_version, key_net, key_image, key_rootless}. k \<notin> fst ` set (an_Extra a)"
  shows "annotation_stored a = a"
proof -
  let ?E = "an_Extra a"
  have n: "map_of ?E key_version = None" "map_of ?E key_net = None" "map_of ?E key_image = None" "map_of ?E key_rootless = None"
    using assms by (simp_all add: map_of_eq_None_iff)
  have get: "map_get (annotation_items a) key_version = an_Version a" "map_get (annotation_items a) key_net = an_Net a"
    "map_get (annotation_items a) key_image = an_Image a" "map_get (annotation_items a) key_rootless = an_Rootless a"
    using n by (simp_all add: map_get_def annotation_items_def set_nonempty_def annotation_keys)
  have del: "map_del k (set_nonempty k v m) = map_del k m" "k \<noteq> l \<Longrightarrow> map_del k (set_nonempty l v m) = set_nonempty l v (map_del k m)"
    for k l v and m :: "(string, string) gomap" by (simp_all add: set_nonempty_def AList.delete_update_same AList.delete_update)
  have keys: "key_version \<noteq> key_net" "key_version \<noteq> key_image" "key_version \<noteq> key_rootless" "key_net \<noteq> key_image"
    "key_net \<noteq> key_rootless" "key_image \<noteq> key_rootless" by (simp_all add: annotation_keys)
  have "an_Extra (annotation_stored a) = ?E"
    using assms by (simp add: annotation_stored_def annotation_of_items_def annotation_items_def del keys keys [symmetric] AList.delete_id)
  with get show ?thesis by (simp add: annotation_stored_def annotation_of_items_def)
qed

end
