(* ===== verification/Droplet_Config.thy ===== *)
theory Droplet_Config
  imports Droplet_Spec
begin

text \<open>
  Building and checking specifications: \<open>droplet/spec/options.go\<close>, \<open>security_profile.go\<close>, \<open>spec_io.go\<close> and \<open>validate.go\<close>. JSON texts of
  annotations, the architecture and links under \<open>/proc\<close> are parameters.
\<close>

section \<open>Options\<close>

record MountOption =
  mp_Destination :: string
  mp_Type :: string
  mp_Source :: string
  mp_Options :: "string list"

record ProcessOption =
  pp_Cwd :: string
  pp_Env :: "string list"
  pp_Args :: "string list"
  pp_CapAdd :: "string list"
  pp_CapDrop :: "string list"

record NetOption =
  np_HostInterface :: string
  np_BridgeInterfaceName :: string
  np_InterfaceName :: string
  np_Address :: string
  np_Gateway :: string
  np_Dns :: "string list"

record ImageOption =
  ip_ImageLayer :: "string list"
  ip_UpperDir :: string
  ip_WorkDir :: string

text \<open>Hooks and namespaces are given as they are in the specification.\<close>

type_synonym HookOption = HookObject
type_synonym HookLifecycleOption = HookLifecycleObject
type_synonym NamespaceOption = NamespaceObject

record SecurityOption =
  sb_ProfileName :: string
  sb_BaseCapabilities :: "string list"
  sb_Seccomp :: "SeccompObject option"
  sb_AppArmorProfile :: string
  sb_NoNewPrivileges :: bool

record ConfigOptions =
  co_Rootfs :: string
  co_Mounts :: "MountOption list"
  co_Process :: ProcessOption
  co_Security :: SecurityOption
  co_Namespace :: "NamespaceOption list"
  co_Hostname :: string
  co_Net :: NetOption
  co_Image :: ImageOption
  co_Hooks :: HookLifecycleOption
  co_Rootless :: bool
  co_RootlessMode :: string
  co_RootlessRootUID :: int
  co_RootlessRootGID :: int

section \<open>Security profiles\<close>

record SecurityProfile =
  pf_Name :: string
  pf_Base :: "string list"
  pf_Seccomp :: "SeccompObject option"
  pf_AppArmorProfile :: string
  pf_NoNewPrivileges :: bool

definition allCapabilities :: "string list" where
  "allCapabilities = map (\<lambda>c. ''CAP_'' @ c)
     [''CHOWN'', ''DAC_OVERRIDE'', ''DAC_READ_SEARCH'', ''FOWNER'', ''FSETID'', ''KILL'', ''SETGID'', ''SETUID'', ''SETPCAP'', ''LINUX_IMMUTABLE'',
      ''NET_BIND_SERVICE'', ''NET_BROADCAST'', ''NET_ADMIN'', ''NET_RAW'', ''IPC_LOCK'', ''IPC_OWNER'', ''SYS_MODULE'', ''SYS_RAWIO'', ''SYS_CHROOT'',
      ''SYS_PTRACE'', ''SYS_PACCT'', ''SYS_ADMIN'', ''SYS_BOOT'', ''SYS_NICE'', ''SYS_RESOURCE'', ''SYS_TIME'', ''SYS_TTY_CONFIG'', ''MKNOD'', ''LEASE'',
      ''AUDIT_WRITE'', ''AUDIT_CONTROL'', ''SETFCAP'', ''MAC_OVERRIDE'', ''MAC_ADMIN'', ''SYSLOG'', ''WAKE_ALARM'', ''BLOCK_SUSPEND'', ''AUDIT_READ'',
      ''PERFMON'', ''BPF'', ''CHECKPOINT_RESTORE'']"

definition default_capabilities :: "string list" where
  "default_capabilities = map (\<lambda>c. ''CAP_'' @ c)
     [''CHOWN'', ''DAC_OVERRIDE'', ''FSETID'', ''FOWNER'', ''MKNOD'', ''NET_RAW'', ''SETGID'', ''SETUID'', ''SETFCAP'', ''SETPCAP'', ''NET_BIND_SERVICE'',
      ''SYS_CHROOT'', ''KILL'', ''AUDIT_WRITE'']"

definition denied_syscalls :: "string list" where
  "denied_syscalls =
     [''bpf'', ''perf_event_open'', ''kexec_load'', ''open_by_handle_at'', ''ptrace'', ''process_vm_readv'', ''process_vm_writev'', ''userfaultfd'',
      ''reboot'', ''swapon'', ''swapoff'', ''open_by_handle_at'', ''name_to_handle_at'', ''init_module'', ''finit_module'', ''delete_module'', ''kcmp'',
      ''mount'', ''unshare'', ''setns'']"

definition defaultSeccompArchitectures :: "string \<Rightarrow> string list" where
  "defaultSeccompArchitectures goarch =
     (if goarch = ''amd64'' then [''SCMP_ARCH_X86_64'']
      else if goarch = ''arm64'' then [''SCMP_ARCH_AARCH64'']
      else if goarch = ''riscv64'' then [''SCMP_ARCH_RISCV64'']
      else [''''])"

definition default_seccomp :: "string \<Rightarrow> SeccompObject" where
  "default_seccomp goarch = \<lparr>se_DefaultAction = ''SCMP_ACT_ALLOW'', se_DefaultErrnoRet = Some 1,
     se_Architectures = defaultSeccompArchitectures goarch, se_Flags = [],
     se_Syscalls = [\<lparr>sy_Names = denied_syscalls, sy_Action = ''SCMP_ACT_ERRNO'', sy_ErrnoRet = Some 1, sy_Args = [], sy_Comment = [],
       sy_Include = None, sy_Excludes = None\<rparr>]\<rparr>"

definition DefaultSecurityProfile :: "string \<Rightarrow> SecurityProfile" where
  "DefaultSecurityProfile goarch = \<lparr>pf_Name = ''default'', pf_Base = default_capabilities, pf_Seccomp = Some (default_seccomp goarch),
     pf_AppArmorProfile = ''raind-default'', pf_NoNewPrivileges = False\<rparr>"

definition dropCapabilities :: "string list \<Rightarrow> string list \<Rightarrow> string list" where
  "dropCapabilities base drops = filter (\<lambda>c. c \<notin> set drops) base"

definition DevSecurityProfile :: "string \<Rightarrow> SecurityProfile" where
  "DevSecurityProfile goarch = (DefaultSecurityProfile goarch)\<lparr>pf_Name := ''dev'', pf_NoNewPrivileges := True\<rparr>"

definition DeploySecurityProfile :: "string \<Rightarrow> SecurityProfile" where
  "DeploySecurityProfile goarch = (let p = DefaultSecurityProfile goarch in
     p\<lparr>pf_Name := ''deploy'', pf_Base := dropCapabilities (pf_Base p) [''CAP_NET_RAW'', ''CAP_MKNOD''], pf_NoNewPrivileges := True\<rparr>)"

definition RestrictedSecurityProfile :: "string \<Rightarrow> SecurityProfile" where
  "RestrictedSecurityProfile goarch = (DefaultSecurityProfile goarch)\<lparr>pf_Name := ''restricted'', pf_Base := [], pf_NoNewPrivileges := True\<rparr>"

definition PrivilegedSecurityProfile :: "string \<Rightarrow> SecurityProfile" where
  "PrivilegedSecurityProfile goarch = (DefaultSecurityProfile goarch)\<lparr>pf_Name := ''privileged'', pf_Base := allCapabilities, pf_Seccomp := None,
     pf_AppArmorProfile := [], pf_NoNewPrivileges := False\<rparr>"

definition UnconfinedSecurityProfile :: "string \<Rightarrow> SecurityProfile" where
  "UnconfinedSecurityProfile goarch = (DefaultSecurityProfile goarch)\<lparr>pf_Name := ''unconfined'', pf_Seccomp := None,
     pf_AppArmorProfile := [], pf_NoNewPrivileges := False\<rparr>"

definition ResolveSecurityProfile :: "string \<Rightarrow> string \<Rightarrow> SecurityProfile res" where
  "ResolveSecurityProfile goarch name =
     (if name = [] \<or> name = ''default'' then Inr (DefaultSecurityProfile goarch)
      else if name = ''dev'' then Inr (DevSecurityProfile goarch)
      else if name = ''deploy'' then Inr (DeploySecurityProfile goarch)
      else if name = ''restricted'' then Inr (RestrictedSecurityProfile goarch)
      else if name = ''privileged'' then Inr (PrivilegedSecurityProfile goarch)
      else if name = ''unconfined'' then Inr (UnconfinedSecurityProfile goarch)
      else Inl (Msg (''unknown security profile: '' @ name)))"

text \<open>A copy of a filter is the filter itself here, where values are not shared.\<close>

definition cloneSeccompObject :: "SeccompObject option \<Rightarrow> SeccompObject option" where
  "cloneSeccompObject s = s"

definition ResolveSecurityOption :: "string \<Rightarrow> SecurityOption \<Rightarrow> SecurityProfile res" where
  "ResolveSecurityOption goarch opt =
     (if sb_BaseCapabilities opt \<noteq> [] \<or> sb_Seccomp opt \<noteq> None \<or> sb_AppArmorProfile opt \<noteq> [] \<or> sb_NoNewPrivileges opt
      then Inr \<lparr>pf_Name = sb_ProfileName opt, pf_Base = sb_BaseCapabilities opt, pf_Seccomp = cloneSeccompObject (sb_Seccomp opt),
        pf_AppArmorProfile = sb_AppArmorProfile opt, pf_NoNewPrivileges = sb_NoNewPrivileges opt\<rparr>
      else ResolveSecurityProfile goarch (sb_ProfileName opt))"

section \<open>Capabilities\<close>

definition to_upper_char :: "char \<Rightarrow> char" where
  "to_upper_char c = (if 97 \<le> (of_char c :: nat) \<and> (of_char c :: nat) \<le> 122 then char_of (of_char c - 32 :: nat) else c)"

definition to_upper :: "string \<Rightarrow> string" where
  "to_upper s = map to_upper_char s"

definition capability_name :: "string \<Rightarrow> string" where
  "capability_name c = (let n = trim_space (to_upper c) in if n = [] \<or> has_prefix n ''CAP_'' then n else ''CAP_'' @ n)"

fun add_new :: "string list \<Rightarrow> string list \<Rightarrow> string list" where
  "add_new out [] = out"
| "add_new out (c # cs) = add_new (if c \<in> set out then out else out @ [c]) cs"

definition normalizeCapabilityNames :: "string list \<Rightarrow> string list" where
  "normalizeCapabilityNames caps = add_new [] (filter (\<lambda>n. n \<noteq> []) (map capability_name caps))"

definition mergeCapabilities :: "string list \<Rightarrow> string list \<Rightarrow> string list \<Rightarrow> string list" where
  "mergeCapabilities base capAdd capDrop =
     (let drop = normalizeCapabilityNames capDrop in
      add_new (filter (\<lambda>c. c \<notin> set drop) (normalizeCapabilityNames base))
        (filter (\<lambda>c. c \<notin> set drop) (normalizeCapabilityNames capAdd)))"

section \<open>Building the specification\<close>

definition cut :: "char \<Rightarrow> string \<Rightarrow> (string \<times> string) option" where
  "cut c s = (if c \<in> set s then Some (takeWhile (\<lambda>x. x \<noteq> c) s, tl (dropWhile (\<lambda>x. x \<noteq> c) s)) else None)"

definition env_preset :: "(string, string) gomap" where
  "env_preset = [(''PATH'', ''/usr/local/sbin:/usr/local/bin:/usr/sbin:/usr/bin:/sbin:/bin''), (''TERM'', ''xterm-256color''),
     (''LANG'', ''C.UTF-8''), (''HOME'', ''/root'')]"

definition set_env :: "string \<Rightarrow> (string, string) gomap \<Rightarrow> (string, string) gomap" where
  "set_env kv env = (case cut CHR ''='' kv of Some (k, v) \<Rightarrow> if k \<noteq> [] then map_set k v env else env | None \<Rightarrow> env)"

definition preset_env :: "string \<times> string \<Rightarrow> (string, string) gomap \<Rightarrow> (string, string) gomap" where
  "preset_env = (\<lambda>(k, v) env. if map_of env k = None \<or> trim_space (map_get env k) = [] then map_set k v env else env)"

text \<open>The list is in the iteration order of the map; \<open>order\<close> is that order.\<close>

definition buildProcessEnvSpec :: "((string, string) gomap \<Rightarrow> (string, string) gomap) \<Rightarrow> string list \<Rightarrow> string list" where
  "buildProcessEnvSpec order specEnv = map (\<lambda>(k, v). k @ ''='' @ v) (order (fold preset_env env_preset (fold set_env specEnv [])))"

text \<open>What is not under the control of the caller: map order, architecture and the JSON encoder.\<close>

record config_env =
  ce_order :: "(string, string) gomap \<Rightarrow> (string, string) gomap"
  ce_goarch :: string
  ce_net_json :: "NetConfigObject \<Rightarrow> string"
  ce_image_json :: "ImageConfig \<Rightarrow> string"
  ce_rootless_json :: "RootlessConfigObject \<Rightarrow> string"

definition buildProcessSpec :: "config_env \<Rightarrow> ConfigOptions \<Rightarrow> SecurityProfile \<Rightarrow> ProcessObject" where
  "buildProcessSpec env o1 p =
     (let caps = mergeCapabilities (pf_Base p) (pp_CapAdd (co_Process o1)) (pp_CapDrop (co_Process o1)) in
      \<lparr>po_Cwd = pp_Cwd (co_Process o1), po_Env = buildProcessEnvSpec (ce_order env) (pp_Env (co_Process o1)), po_Args = pp_Args (co_Process o1),
       po_Terminal = False, po_ConsoleSize = None, po_OOMScoreAdj = None,
       po_Capabilities = \<lparr>ca_Bounding = caps, ca_Permitted = caps, ca_Inheritable = [], ca_Effective = caps, ca_Ambient = []\<rparr>,
       po_User = \<lparr>us_UID = 0, us_GID = 0, us_Umask = None, us_AdditionalGids = []\<rparr>, po_Rlimits = [],
       po_NoNewPrivileges = pf_NoNewPrivileges p\<rparr>)"

definition buildMountSpec :: "ConfigOptions \<Rightarrow> MountObject list" where
  "buildMountSpec o1 = map (\<lambda>m. \<lparr>mo_Destination = mp_Destination m, mo_Type = mp_Type m, mo_Source = mp_Source m, mo_Options = mp_Options m\<rparr>)
     (co_Mounts o1)"

definition buildLinuxSpec :: "ConfigOptions \<Rightarrow> SecurityProfile \<Rightarrow> LinuxSpecObject" where
  "buildLinuxSpec o1 p = \<lparr>ls_Resources = \<lparr>re_Memory_Limit = 1073741824, re_Cpu = \<lparr>cp_Period = 100000, cp_Quota = 80000\<rparr>,
       re_Pids_Limit = 512, re_Devices = []\<rparr>,
     ls_CgroupsPath = [], ls_Namespaces = co_Namespace o1, ls_Devices = [], ls_UIDMappings = [], ls_GIDMappings = [], ls_MaskedPaths = [],
     ls_ReadonlyPaths = [], ls_RootfsPropagation = [], ls_Seccomp = cloneSeccompObject (pf_Seccomp p), ls_AppArmorProfile = pf_AppArmorProfile p\<rparr>"

definition buildNetSpec :: "ConfigOptions \<Rightarrow> NetConfigObject" where
  "buildNetSpec o1 = (let n = co_Net o1 in \<lparr>nf_HostInterface = np_HostInterface n, nf_BridgeInterface = np_BridgeInterfaceName n,
     nf_Interface = \<lparr>if_Name = np_InterfaceName n, if_IPv4 = \<lparr>i4_Address = np_Address n, i4_Gateway = np_Gateway n\<rparr>, if_Dns_Servers = np_Dns n\<rparr>\<rparr>)"

definition buildImageSpec :: "ConfigOptions \<Rightarrow> ImageConfig" where
  "buildImageSpec o1 = \<lparr>io_RootfsType = ''overlay'', io_ImageLayer = ip_ImageLayer (co_Image o1), io_UpperDir = ip_UpperDir (co_Image o1),
     io_WorkDir = ip_WorkDir (co_Image o1)\<rparr>"

definition buildHookSpec :: "ConfigOptions \<Rightarrow> HookLifecycleObject" where
  "buildHookSpec o1 = co_Hooks o1"

definition buildRootlessSpec :: "ConfigOptions \<Rightarrow> RootlessConfigObject" where
  "buildRootlessSpec o1 = \<lparr>rc_Enabled = co_Rootless o1, rc_Mode = (if co_RootlessMode o1 = [] then RootlessModeShiftedRoot else co_RootlessMode o1),
     rc_HostRootUID = co_RootlessRootUID o1, rc_HostRootGID = co_RootlessRootGID o1\<rparr>"

definition buildAnnotationSpec :: "config_env \<Rightarrow> ConfigOptions \<Rightarrow> AnnotationObject" where
  "buildAnnotationSpec env o1 = \<lparr>an_Version = ''0.1.0'', an_Net = ce_net_json env (buildNetSpec o1), an_Image = ce_image_json env (buildImageSpec o1),
     an_Rootless = (if co_Rootless o1 then ce_rootless_json env (buildRootlessSpec o1) else []), an_Extra = []\<rparr>"

definition OCIVersion :: string where "OCIVersion = ''1.3.0''"

definition buildSpec :: "config_env \<Rightarrow> ConfigOptions \<Rightarrow> Spec res" where
  "buildSpec env o1 = (case ResolveSecurityOption (ce_goarch env) (co_Security o1) of Inl e \<Rightarrow> Inl e | Inr p \<Rightarrow>
     Inr \<lparr>sp_OciVersion = OCIVersion, sp_Root = \<lparr>ro_Path = co_Rootfs o1, ro_Readonly = False\<rparr>, sp_Mounts = buildMountSpec o1,
       sp_Process = buildProcessSpec env o1 p, sp_Hostname = co_Hostname o1, sp_LinuxSpec = buildLinuxSpec o1 p,
       sp_Hooks = buildHookSpec o1, sp_Annotations = buildAnnotationSpec env o1\<rparr>)"

section \<open>Checking a specification\<close>

definition MaxConsoleSize :: nat where "MaxConsoleSize = 65535"

definition isSupportedOCIVersion :: "string \<Rightarrow> bool" where
  "isSupportedOCIVersion v \<longleftrightarrow> v \<in> set [''1.0.0'', ''1.0.1'', ''1.0.2'', ''1.0.2-dev'', ''1.1.0'', ''1.2.0'', ''1.3.0'']"

definition namespace_types :: "string list" where
  "namespace_types = [''mount'', ''network'', ''uts'', ''pid'', ''ipc'', ''user'', ''cgroup'', ''time'']"

definition namespaceLinkName :: "string \<Rightarrow> string" where
  "namespaceLinkName t = (if t = ''mount'' then ''mnt'' else if t = ''network'' then ''net'' else t)"

definition validateNamespacePath :: "(string \<Rightarrow> string res) \<Rightarrow> string \<Rightarrow> string \<Rightarrow> unit res" where
  "validateNamespacePath readlink nsType path =
     (case readlink path of Inl e \<Rightarrow> Inl (wrap (''read namespace path '' @ path) e)
      | Inr target \<Rightarrow> (let want = namespaceLinkName nsType in
          if want = [] then Inl (Msg (''unsupported linux namespace type: '' @ nsType))
          else if \<not> has_prefix target (want @ '':'') then
            Inl (Msg (''namespace path '' @ path @ '' has type \"'' @ target @ ''\", expected \"'' @ want @ ''\"''))
          else Inr ()))"

definition supportedCapabilities :: "string list" where
  "supportedCapabilities = allCapabilities"

definition supportedRlimits :: "string list" where
  "supportedRlimits = map (\<lambda>r. ''RLIMIT_'' @ r) [''AS'', ''CORE'', ''CPU'', ''DATA'', ''FSIZE'', ''LOCKS'', ''MEMLOCK'', ''MSGQUEUE'', ''NICE'', ''NOFILE'',
     ''NPROC'', ''RSS'', ''RTPRIO'', ''RTTIME'', ''SIGPENDING'', ''STACK'']"

definition appendCapabilityNames :: "CapabilityObject \<Rightarrow> string list" where
  "appendCapabilityNames c = ca_Bounding c @ ca_Permitted c @ ca_Inheritable c @ ca_Effective c @ ca_Ambient c"

text \<open>The first failing check over a list.\<close>

fun first_error :: "('a \<Rightarrow> unit res) \<Rightarrow> 'a list \<Rightarrow> unit res" where
  "first_error f [] = Inr ()"
| "first_error f (x # xs) = (case f x of Inl e \<Rightarrow> Inl e | Inr _ \<Rightarrow> first_error f xs)"

definition fail_if :: "bool \<Rightarrow> string \<Rightarrow> unit res" where
  "fail_if b m = (if b then Inl (Msg m) else Inr ())"

definition also_check :: "unit res \<Rightarrow> unit res \<Rightarrow> unit res" where
  "also_check a b = (case a of Inl e \<Rightarrow> Inl e | Inr _ \<Rightarrow> b)"

definition check_console :: "ConsoleSizeObject \<Rightarrow> unit res" where
  "check_console c = also_check
     (fail_if (cz_Height c = 0 \<or> cz_Width c = 0) ''process.consoleSize height and width must be positive'')
     (fail_if (cz_Height c > MaxConsoleSize \<or> cz_Width c > MaxConsoleSize) ''process.consoleSize height and width must be <= 65535'')"

definition check_namespace :: "(string \<Rightarrow> string res) \<Rightarrow> NamespaceObject \<Rightarrow> unit res" where
  "check_namespace readlink ns = also_check
     (fail_if (no_Type ns \<notin> set namespace_types) (''unsupported linux namespace type: '' @ no_Type ns))
     (if no_Path ns \<noteq> [] then validateNamespacePath readlink (no_Type ns) (no_Path ns) else Inr ())"

definition check_mapping :: "IDMappingObject \<Rightarrow> unit res" where
  "check_mapping m = also_check
     (fail_if (im_Size m \<le> 0) ''linux id mapping size must be positive'')
     (fail_if (im_ContainerID m < 0 \<or> im_HostID m < 0) ''linux id mapping ids must be non-negative'')"

definition check_device :: "DeviceObject \<Rightarrow> unit res" where
  "check_device d = also_check
     (fail_if (trim_space (de_Path d) = []) ''linux device path is required'')
     (fail_if (de_Type d \<notin> set [''c'', ''u'', ''b'', ''p'']) (''unsupported linux device type: '' @ de_Type d))"

definition check_device_rule :: "DeviceCgroupObject \<Rightarrow> unit res" where
  "check_device_rule r = also_check
     (fail_if (dc_Type r \<noteq> [] \<and> dc_Type r \<notin> set [''a'', ''b'', ''c'']) (''unsupported linux resources device type: '' @ dc_Type r)) (also_check
     (fail_if (case dc_Major r of Some m \<Rightarrow> m < 0 | None \<Rightarrow> False) ''linux resources device major must be non-negative'') (also_check
     (fail_if (case dc_Minor r of Some m \<Rightarrow> m < 0 | None \<Rightarrow> False) ''linux resources device minor must be non-negative'')
     (first_error (\<lambda>c. fail_if (c \<notin> set ''rwm'') (''unsupported linux resources device access: '' @ [c])) (dc_Access r))))"

definition absolute :: "string \<Rightarrow> bool" where
  "absolute p \<longleftrightarrow> has_prefix p ''/''"

definition ValidateBasic :: "(string \<Rightarrow> string res) \<Rightarrow> Spec \<Rightarrow> unit res" where
  "ValidateBasic readlink s = (let l = sp_LinuxSpec s; p = sp_Process s in
     also_check (fail_if (trim_space (sp_OciVersion s) = []) ''ociVersion is required'') (
     also_check (fail_if (\<not> isSupportedOCIVersion (sp_OciVersion s)) (''unsupported ociVersion: '' @ sp_OciVersion s)) (
     also_check (fail_if (trim_space (ro_Path (sp_Root s)) = []) ''root.path is required'') (
     also_check (case po_ConsoleSize p of None \<Rightarrow> Inr () | Some c \<Rightarrow> check_console c) (
     also_check (case po_OOMScoreAdj p of None \<Rightarrow> Inr ()
       | Some a \<Rightarrow> fail_if (a < -1000 \<or> a > 1000) ''process.oomScoreAdj must be between -1000 and 1000'') (
     also_check (first_error (check_namespace readlink) (ls_Namespaces l)) (
     also_check (first_error (\<lambda>q. fail_if (\<not> absolute q) (''linux masked path must be absolute: '' @ q)) (ls_MaskedPaths l)) (
     also_check (first_error (\<lambda>q. fail_if (\<not> absolute q) (''linux readonly path must be absolute: '' @ q)) (ls_ReadonlyPaths l)) (
     also_check (first_error check_mapping (ls_UIDMappings l @ ls_GIDMappings l)) (
     also_check (first_error check_device (ls_Devices l)) (
     also_check (first_error check_device_rule (re_Devices (ls_Resources l))) (
     also_check (first_error (\<lambda>c. fail_if (c \<notin> set supportedCapabilities) (''unsupported process capability: '' @ c))
       (appendCapabilityNames (po_Capabilities p))) (
     first_error (\<lambda>r. fail_if (to_upper (trim_space (rl_Type r)) \<notin> set supportedRlimits) (''unsupported process rlimit type: '' @ rl_Type r))
       (po_Rlimits p))))))))))))))"

section \<open>Capabilities that are dropped stay dropped\<close>

lemma add_new_spec: "distinct out \<Longrightarrow> distinct (add_new out cs) \<and> set (add_new out cs) = set out \<union> set cs"
  by (induction out cs rule: add_new.induct) auto

lemma normalize_spec:
  "distinct (normalizeCapabilityNames cs) \<and> set (normalizeCapabilityNames cs) = capability_name ` set cs - {[]}"
  using add_new_spec [of "[]"] by (auto simp: normalizeCapabilityNames_def)

lemma mergeCapabilities_spec:
  "distinct (mergeCapabilities base a d) \<and>
   set (mergeCapabilities base a d) = capability_name ` (set base \<union> set a) - {[]} - capability_name ` set d"
  using normalize_spec add_new_spec [of "filter (\<lambda>c. c \<notin> set (normalizeCapabilityNames d)) (normalizeCapabilityNames base)"]
  by (auto simp: mergeCapabilities_def Let_def)

lemma base_capabilities:
  assumes "ResolveSecurityProfile goarch name = Inr p"
  shows "capability_name ` set (pf_Base p) \<subseteq> set allCapabilities"
proof -
  have "list_all (\<lambda>c. capability_name c = c) allCapabilities" by code_simp
  then have "capability_name ` set allCapabilities = set allCapabilities" by (simp add: list_all_iff)
  moreover have "set default_capabilities \<subseteq> set allCapabilities" by code_simp
  moreover have "set (pf_Base p) \<subseteq> set allCapabilities"
    using assms calculation(2)
    by (auto simp: ResolveSecurityProfile_def DefaultSecurityProfile_def DevSecurityProfile_def DeploySecurityProfile_def
        RestrictedSecurityProfile_def PrivilegedSecurityProfile_def UnconfinedSecurityProfile_def dropCapabilities_def Let_def split: if_splits)
  ultimately show ?thesis by blast
qed

lemma first_error_ok: "first_error f xs = Inr () \<longleftrightarrow> (\<forall>x \<in> set xs. f x = Inr ())"
  by (induction xs) (auto split: sum.splits)

lemma also_check_ok: "also_check a b = Inr () \<longleftrightarrow> a = Inr () \<and> b = Inr ()"
  by (cases a) (auto simp: also_check_def)

lemma fail_if_ok: "fail_if b m = Inr () \<longleftrightarrow> \<not> b"
  by (simp add: fail_if_def)

lemma check_namespace_ok:
  "check_namespace readlink n = Inr () \<longleftrightarrow> no_Type n \<in> set namespace_types \<and>
     (no_Path n \<noteq> [] \<longrightarrow> (\<exists>t. readlink (no_Path n) = Inr t \<and> has_prefix t (namespaceLinkName (no_Type n) @ '':'')))"
proof -
  have "namespaceLinkName t \<noteq> []" if "t \<in> set namespace_types" for t
    using that by (auto simp: namespace_types_def namespaceLinkName_def)
  then show ?thesis
    by (auto simp: check_namespace_def also_check_ok fail_if_ok validateNamespacePath_def Let_def split: sum.splits if_splits)
qed

text \<open>The check of a built specification: what the builder writes itself always passes.\<close>

lemma built_ok:
  assumes "buildSpec env o1 = Inr s"
  shows "ValidateBasic readlink s = Inr () \<longleftrightarrow> trim_space (co_Rootfs o1) \<noteq> [] \<and> (\<forall>n \<in> set (co_Namespace o1). check_namespace readlink n = Inr ()) \<and>
     set (ca_Effective (po_Capabilities (sp_Process s))) \<subseteq> set allCapabilities"
proof -
  have "trim_space OCIVersion \<noteq> [] \<and> isSupportedOCIVersion OCIVersion" by code_simp
  then show ?thesis
    using assms by (auto simp: buildSpec_def ValidateBasic_def Let_def also_check_ok fail_if_ok first_error_ok buildProcessSpec_def buildLinuxSpec_def
        appendCapabilityNames_def supportedCapabilities_def split: sum.splits)
qed

lemma profile_capabilities:
  assumes "ResolveSecurityOption goarch opt = Inr p" and "c \<in> set (pf_Base p)"
  shows "capability_name c \<in> set allCapabilities \<or> c \<in> set (sb_BaseCapabilities opt)"
  using assms base_capabilities [of goarch "sb_ProfileName opt" p] by (auto simp: ResolveSecurityOption_def split: if_splits)

lemma given_base: "ResolveSecurityOption goarch opt = Inr p \<Longrightarrow> c \<in> set (sb_BaseCapabilities opt) \<Longrightarrow> c \<in> set (pf_Base p)"
  by (auto simp: ResolveSecurityOption_def split: if_splits)

text \<open>
  Property C39. The process of a specification that droplet builds has, in its bounding, permitted and effective sets, exactly the
  capabilities of the resolved profile and the added ones, without those that are dropped, whatever their spelling, without duplicates, and none in the
  inheritable and ambient sets; filter, AppArmor profile and no-new-privileges are those of the profile.  It passes droplet's own
  check exactly when the caller gave a root path, namespaces of known types whose paths are links to namespaces of that type, and
  only known capabilities among the added and explicitly given ones, unless they are dropped.
\<close>

theorem buildSpec_valid:
  assumes "buildSpec env o1 = Inr s"
  shows "\<exists>p. ResolveSecurityOption (ce_goarch env) (co_Security o1) = Inr p \<and>
    (let c = po_Capabilities (sp_Process s); given = set (pp_CapAdd (co_Process o1)); dropped = capability_name ` set (pp_CapDrop (co_Process o1)) in
      set (ca_Effective c) = capability_name ` (set (pf_Base p) \<union> given) - {[]} - dropped \<and> distinct (ca_Effective c) \<and>
      ca_Bounding c = ca_Effective c \<and> ca_Permitted c = ca_Effective c \<and> ca_Inheritable c = [] \<and> ca_Ambient c = [] \<and>
      po_NoNewPrivileges (sp_Process s) = pf_NoNewPrivileges p \<and> ls_Seccomp (sp_LinuxSpec s) = pf_Seccomp p \<and>
      ls_AppArmorProfile (sp_LinuxSpec s) = pf_AppArmorProfile p \<and>
      (ValidateBasic readlink s = Inr () \<longleftrightarrow> trim_space (co_Rootfs o1) \<noteq> [] \<and>
        (\<forall>n \<in> set (co_Namespace o1). no_Type n \<in> set namespace_types \<and>
           (no_Path n \<noteq> [] \<longrightarrow> (\<exists>t. readlink (no_Path n) = Inr t \<and> has_prefix t (namespaceLinkName (no_Type n) @ '':'')))) \<and>
        capability_name ` (given \<union> set (sb_BaseCapabilities (co_Security o1))) - {[]} - dropped \<subseteq> set allCapabilities))"
proof -
  obtain p where p: "ResolveSecurityOption (ce_goarch env) (co_Security o1) = Inr p"
    and s: "sp_Process s = buildProcessSpec env o1 p" "sp_LinuxSpec s = buildLinuxSpec o1 p"
    using assms by (auto simp: buildSpec_def split: sum.splits)
  let ?caps = "mergeCapabilities (pf_Base p) (pp_CapAdd (co_Process o1)) (pp_CapDrop (co_Process o1))"
  have c: "po_Capabilities (sp_Process s) = \<lparr>ca_Bounding = ?caps, ca_Permitted = ?caps, ca_Inheritable = [], ca_Effective = ?caps, ca_Ambient = []\<rparr>"
    by (simp add: s buildProcessSpec_def Let_def)
  have "set ?caps \<subseteq> set allCapabilities \<longleftrightarrow>
     capability_name ` (set (pp_CapAdd (co_Process o1)) \<union> set (sb_BaseCapabilities (co_Security o1))) - {[]} -
     capability_name ` set (pp_CapDrop (co_Process o1)) \<subseteq> set allCapabilities"
    using profile_capabilities [OF p] given_base [OF p] unfolding mergeCapabilities_spec [THEN conjunct2] by blast
  with built_ok [OF assms] show ?thesis
    using p by (simp add: Let_def c mergeCapabilities_spec s buildProcessSpec_def buildLinuxSpec_def cloneSeccompObject_def check_namespace_ok)
qed

definition ex_options :: ConfigOptions where
  "ex_options = \<lparr>co_Rootfs = ''/etc/raind/container/c1/rootfs'', co_Mounts = [],
     co_Process = \<lparr>pp_Cwd = ''/'', pp_Env = [''PATH=/bin'', ''A=1''], pp_Args = [''sh''], pp_CapAdd = [''sys_admin''], pp_CapDrop = ['' cap_net_raw'']\<rparr>,
     co_Security = \<lparr>sb_ProfileName = ''dev'', sb_BaseCapabilities = [], sb_Seccomp = None, sb_AppArmorProfile = [], sb_NoNewPrivileges = False\<rparr>,
     co_Namespace = [\<lparr>no_Type = ''mount'', no_Path = []\<rparr>, \<lparr>no_Type = ''network'', no_Path = ''/proc/7/ns/net''\<rparr>], co_Hostname = ''c1'',
     co_Net = \<lparr>np_HostInterface = [], np_BridgeInterfaceName = [], np_InterfaceName = [], np_Address = [], np_Gateway = [], np_Dns = []\<rparr>,
     co_Image = \<lparr>ip_ImageLayer = [], ip_UpperDir = [], ip_WorkDir = []\<rparr>,
     co_Hooks = \<lparr>hl_Prestart = [], hl_CreateRuntime = [], hl_CreateContainer = [], hl_StartContainer = [], hl_Poststart = [], hl_StopContainer = [],
       hl_Poststop = []\<rparr>,
     co_Rootless = False, co_RootlessMode = [], co_RootlessRootUID = 0, co_RootlessRootGID = 0\<rparr>"

definition ex_config_env :: config_env where
  "ex_config_env = \<lparr>ce_order = id, ce_goarch = ''amd64'', ce_net_json = (\<lambda>_. ''{}''), ce_image_json = (\<lambda>_. ''{}''), ce_rootless_json = (\<lambda>_. ''{}'')\<rparr>"

theorem buildSpec_valid_witness:
  "\<exists>s. buildSpec ex_config_env ex_options = Inr s \<and> ValidateBasic (\<lambda>_. Inr ''net:[402]'') s = Inr () \<and>
     ''CAP_NET_RAW'' \<notin> set (ca_Permitted (po_Capabilities (sp_Process s))) \<and> ''CAP_SYS_ADMIN'' \<in> set (ca_Permitted (po_Capabilities (sp_Process s)))"
proof -
  have p: "ResolveSecurityOption ''amd64'' (co_Security ex_options) = Inr (DevSecurityProfile ''amd64'')"
    by (simp add: ex_options_def ResolveSecurityOption_def ResolveSecurityProfile_def)
  then obtain s where s: "buildSpec ex_config_env ex_options = Inr s" by (auto simp: buildSpec_def ex_config_env_def)
  have o1: "list_all (\<lambda>n. check_namespace (\<lambda>_. Inr ''net:[402]'') n = Inr ()) (co_Namespace ex_options)" "trim_space (co_Rootfs ex_options) \<noteq> []"
    "''CAP_SYS_ADMIN'' \<in> set allCapabilities" by code_simp+
  have "capability_name ''sys_admin'' = ''CAP_SYS_ADMIN''" "capability_name '' cap_net_raw'' = ''CAP_NET_RAW''" by code_simp+
  then have "capability_name ` set (pp_CapAdd (co_Process ex_options)) = {''CAP_SYS_ADMIN''}"
    "capability_name ` set (pp_CapDrop (co_Process ex_options)) = {''CAP_NET_RAW''}" "sb_BaseCapabilities (co_Security ex_options) = []"
    by (simp_all add: ex_options_def)
  note e = this
  obtain p' :: SecurityProfile where p': "set (ca_Effective (po_Capabilities (sp_Process s))) = capability_name ` (set (pf_Base p') \<union> set (pp_CapAdd (co_Process ex_options))) - {[]} -
      capability_name ` set (pp_CapDrop (co_Process ex_options))" "ca_Permitted (po_Capabilities (sp_Process s)) = ca_Effective (po_Capabilities (sp_Process s))"
    and v: "ValidateBasic (\<lambda>_. Inr ''net:[402]'') s = Inr () \<longleftrightarrow> trim_space (co_Rootfs ex_options) \<noteq> [] \<and>
        (\<forall>n \<in> set (co_Namespace ex_options). no_Type n \<in> set namespace_types \<and>
           (no_Path n \<noteq> [] \<longrightarrow> (\<exists>t. Inr ''net:[402]'' = (Inr t :: string res) \<and> has_prefix t (namespaceLinkName (no_Type n) @ '':'')))) \<and>
        capability_name ` (set (pp_CapAdd (co_Process ex_options)) \<union> set (sb_BaseCapabilities (co_Security ex_options))) - {[]} -
          capability_name ` set (pp_CapDrop (co_Process ex_options)) \<subseteq> set allCapabilities"
    using buildSpec_valid [OF s, of "\<lambda>_. Inr ''net:[402]''"] unfolding Let_def by blast
  have "ValidateBasic (\<lambda>_. Inr ''net:[402]'') s = Inr ()"
    unfolding v using o1 unfolding list_all_iff check_namespace_ok by (auto simp: e image_Un)
  moreover have "''CAP_NET_RAW'' \<notin> set (ca_Permitted (po_Capabilities (sp_Process s)))" "''CAP_SYS_ADMIN'' \<in> set (ca_Permitted (po_Capabilities (sp_Process s)))"
    unfolding p'(2) p'(1) image_Un e by simp_all
  ultimately show ?thesis using s by blast
qed

end
