(* ===== verification/Droplet_Mounts.thy ===== *)
theory Droplet_Mounts
  imports Droplet_Config "HOL-Library.Word"
begin

text \<open>
  The checks of mounts (\<open>droplet/container/mountguard/mountguard.go\<close>): where a mount of the user may come from and go to.
\<close>

section \<open>Paths\<close>

text \<open>\<open>filepath.Clean\<close> on any path: a relative one keeps the \<open>..\<close> elements it starts with.\<close>

fun resolve_rel :: "string list \<Rightarrow> string list \<Rightarrow> string list" where
  "resolve_rel acc [] = rev acc"
| "resolve_rel acc (x # xs) =
     (if x = dotdot then (case acc of [] \<Rightarrow> resolve_rel [dotdot] xs
        | a # as \<Rightarrow> if a = dotdot then resolve_rel (dotdot # acc) xs else resolve_rel as xs)
      else resolve_rel (x # acc) xs)"

definition rel_elems :: "string \<Rightarrow> string list" where
  "rel_elems s = resolve_rel [] (path_elems s)"

definition filepath_Clean :: "string \<Rightarrow> string" where
  "filepath_Clean s = (if absolute s then clean_path s else if rel_elems s = [] then dot else str_join ''/'' (rel_elems s))"

definition filepath_Join :: "string list \<Rightarrow> string" where
  "filepath_Join ps = (case filter (\<lambda>p. p \<noteq> []) ps of [] \<Rightarrow> [] | qs \<Rightarrow> filepath_Clean (str_join ''/'' qs))"

section \<open>The checks\<close>

text \<open>A mount point below the root file system.\<close>

definition SecurePath :: "string \<Rightarrow> string \<Rightarrow> string res" where
  "SecurePath rootfs dest =
     (let rel = (if has_prefix dest ''/'' then tl dest else dest); clean = filepath_Clean rel in
      if clean = dot \<or> has_prefix clean ''../'' \<or> clean = dotdot then Inl (Msg (''invalid destination: \"'' @ dest @ ''\"''))
      else (let fullPath = filepath_Join [rootfs, clean]; root = filepath_Clean rootfs @ ''/'' in
        if \<not> has_prefix (fullPath @ ''/'') root \<and> fullPath \<noteq> filepath_Clean rootfs
        then Inl (Msg (''destination escapes rootfs: \"'' @ dest @ ''\" -> \"'' @ fullPath @ ''\"''))
        else Inr fullPath))"

definition IsUnderPath :: "string \<Rightarrow> string \<Rightarrow> bool" where
  "IsUnderPath path base = (let p = filepath_Clean path; b = filepath_Clean base in p = b \<or> has_prefix p (b @ ''/''))"

definition denied_sources :: "string list" where
  "denied_sources = [''/proc'', ''/sys'', ''/dev'', ''/run'', ''/var/run'', ''/boot'', ''/root'', ''/bin'', ''/usr/bin'', ''/usr/local/bin'', ''/etc/raind'']"

definition denied_destinations :: "string list" where
  "denied_destinations = [''/proc'', ''/sys'', ''/dev'', ''/run'', ''/var/run'', ''/boot'']"

definition denied :: "string list \<Rightarrow> string \<Rightarrow> bool" where
  "denied ds path = (let p = filepath_Clean path in p = ''/'' \<or> list_ex (\<lambda>d. p = d \<or> has_prefix p (d @ ''/'')) ds)"

definition HasDeniedSource :: "string \<Rightarrow> bool" where "HasDeniedSource = denied denied_sources"
definition HasDeniedDestination :: "string \<Rightarrow> bool" where "HasDeniedDestination = denied denied_destinations"

definition IsAllowedKernelMountType :: "string \<Rightarrow> bool" where
  "IsAllowedKernelMountType t \<longleftrightarrow> t \<in> set [''proc'', ''sysfs'', ''tmpfs'', ''devpts'', ''cgroup'', ''cgroup2'', ''mqueue'']"

definition IsAllowedMountDataOption :: "string \<Rightarrow> bool" where
  "IsAllowedMountDataOption opt = (case cut CHR ''='' opt of None \<Rightarrow> False
     | Some (key, _) \<Rightarrow> key \<in> set [''mode'', ''size'', ''gid'', ''uid'', ''ptmxmode''])"

definition bind_options :: "string list" where "bind_options = [''bind'', ''rbind'']"

definition plain_options :: "string list" where
  "plain_options = [''shared'', ''rshared'', ''slave'', ''rslave'', ''private'', ''rprivate'', ''unbindable'', ''runbindable'', ''ro'', ''rw'',
     ''nosuid'', ''nodev'', ''noexec'', ''relatime'', ''noatime'', ''strictatime'', ''dev'', ''newinstance'', ''z'', ''Z'']"

text \<open>Whether the options from here on are allowed, and whether one of them asks for a bind mount.\<close>

fun scan_options :: "bool \<Rightarrow> bool \<Rightarrow> string list \<Rightarrow> bool option" where
  "scan_options kern hasBind [] = Some hasBind"
| "scan_options kern hasBind (x # xs) =
     (if x \<in> set bind_options then (if kern then None else scan_options kern True xs)
      else if x \<in> set plain_options \<or> kern \<and> IsAllowedMountDataOption x then scan_options kern hasBind xs
      else None)"

definition IsAllowedType :: "string \<Rightarrow> string list \<Rightarrow> bool" where
  "IsAllowedType t opts =
     (let kern = IsAllowedKernelMountType t in
      if t \<noteq> [] \<and> t \<noteq> ''bind'' \<and> \<not> kern then False
      else case scan_options kern (t = ''bind'') opts of None \<Rightarrow> False | Some hasBind \<Rightarrow> kern \<or> hasBind \<or> opts = [])"

definition HasMountOption :: "string list \<Rightarrow> string \<Rightarrow> bool" where
  "HasMountOption opts want \<longleftrightarrow> want \<in> set opts"

definition IsAllowedRuntimeVolumeSource :: "string \<Rightarrow> bool" where
  "IsAllowedRuntimeVolumeSource source = IsUnderPath source ''/etc/raind/volume/pvc''"

definition ValidateUserMount :: "MountObject \<Rightarrow> unit res" where
  "ValidateUserMount m =
     (if \<not> IsAllowedType (mo_Type m) (mo_Options m)
      then Inl (Msg (''invalid mount type/options: type=\"'' @ mo_Type m @ ''\" options=\"'' @ str_join '','' (mo_Options m) @ ''\"''))
      else if IsAllowedKernelMountType (mo_Type m) then Inr ()
      else let allowDevice = HasMountOption (mo_Options m) ''dev'' in
        if HasDeniedSource (mo_Source m) \<and> \<not> (allowDevice \<and> IsUnderPath (mo_Source m) ''/dev'') \<and> \<not> IsAllowedRuntimeVolumeSource (mo_Source m)
        then Inl (Msg (''invalid mount source: '' @ mo_Source m))
        else if HasDeniedDestination (mo_Destination m) \<and> \<not> (allowDevice \<and> IsUnderPath (mo_Destination m) ''/dev'')
        then Inl (Msg (''invalid mount destination: '' @ mo_Destination m))
        else Inr ())"

section \<open>Where mounts can be\<close>

lemma path_elems_append: "path_elems (s @ CHR ''/'' # t) = path_elems s @ path_elems t"
  by (simp add: path_elems_def split_on_sep)

lemma path_elems_slash: "path_elems (s @ ''/'') = path_elems s"
  using path_elems_append [of s "[]"] by (simp add: path_elems_def)

lemma clean_prefixD:
  assumes "has_prefix (path_string fs) (path_string es @ ''/'')" "\<forall>x \<in> set es. clean_elem x" "\<forall>x \<in> set fs. clean_elem x"
  shows "prefix es fs"
proof -
  obtain t where "path_string fs = path_string es @ CHR ''/'' # t" using assms(1) by (auto simp: has_prefix_def elim: prefixE)
  then have "path_elems (path_string fs) = path_elems (path_string es) @ path_elems t" by (simp add: path_elems_append)
  then show ?thesis using assms(2,3) by (simp add: path_elems_string)
qed

lemma str_join_append: "xs \<noteq> [] \<Longrightarrow> ys \<noteq> [] \<Longrightarrow> str_join c (xs @ ys) = str_join c xs @ c @ str_join c ys"
proof (induction xs rule: induct_list012)
  case (2 x)
  then show ?case by (cases ys) simp_all
qed simp_all

lemma path_string_prefix:
  assumes "prefix es fs" "es \<noteq> []"
  shows "path_string fs = path_string es \<or> has_prefix (path_string fs) (path_string es @ ''/'')"
proof -
  obtain gs where gs: "fs = es @ gs" using assms(1) by (elim prefixE)
  show ?thesis
  proof (cases "gs = []")
    case False
    then have "path_string fs = (path_string es @ ''/'') @ str_join ''/'' gs"
      using assms(2) gs by (simp add: path_string_def str_join_append)
    then show ?thesis by (auto simp: has_prefix_def)
  qed (simp add: gs)
qed

lemma filepath_Clean_absolute: "absolute s \<Longrightarrow> filepath_Clean s = path_string (clean_elems s)"
  by (simp add: filepath_Clean_def clean_path_def)

definition below :: "string \<Rightarrow> string \<Rightarrow> bool" where
  "below d p \<longleftrightarrow> prefix (clean_elems d) (clean_elems p)"

lemma denied_iff:
  assumes "absolute p" "\<forall>d \<in> set ds. path_string (clean_elems d) = d \<and> clean_elems d \<noteq> []"
  shows "denied ds p \<longleftrightarrow> clean_elems p = [] \<or> (\<exists>d \<in> set ds. below d p)"
proof -
  have root: "path_string (clean_elems p) = ''/'' \<longleftrightarrow> clean_elems p = []"
  proof
    assume "path_string (clean_elems p) = ''/''"
    then have "path_elems (path_string (clean_elems p)) = path_elems ''/''" by (rule arg_cong)
    moreover have "path_elems ''/'' = []" by code_simp
    ultimately show "clean_elems p = []" using clean_elems_clean [of p] by (simp add: path_elems_string)
  qed (simp add: path_string_def)
  have "path_string (clean_elems p) = d \<or> has_prefix (path_string (clean_elems p)) (d @ ''/'') \<longleftrightarrow> below d p" if d: "d \<in> set ds" for d
  proof
    have e: "path_string (clean_elems d) = d" "clean_elems d \<noteq> []" using assms(2) d by auto
    assume "path_string (clean_elems p) = d \<or> has_prefix (path_string (clean_elems p)) (d @ ''/'')"
    then show "below d p"
    proof
      assume "path_string (clean_elems p) = d"
      then have "clean_elems d = clean_elems p" using clean_elems_string [OF clean_elems_clean, of p] by simp
      then show ?thesis by (simp add: below_def)
    next
      assume "has_prefix (path_string (clean_elems p)) (d @ ''/'')"
      then show ?thesis using clean_prefixD [OF _ clean_elems_clean [of d] clean_elems_clean [of p]] e(1) by (simp add: below_def)
    qed
  next
    assume "below d p"
    then show "path_string (clean_elems p) = d \<or> has_prefix (path_string (clean_elems p)) (d @ ''/'')"
      using assms(2) d path_string_prefix [of "clean_elems d" "clean_elems p"] by (auto simp: below_def)
  qed
  then show ?thesis using assms(1) root by (auto simp: denied_def Let_def list_ex_iff filepath_Clean_absolute)
qed

lemma IsUnderPath_below:
  assumes "absolute p" "absolute d" "IsUnderPath p d" shows "below d p"
proof -
  have "path_string (clean_elems p) = path_string (clean_elems d) \<or> has_prefix (path_string (clean_elems p)) (path_string (clean_elems d) @ ''/'')"
    using assms by (simp add: IsUnderPath_def Let_def filepath_Clean_absolute)
  then show ?thesis
  proof
    assume "path_string (clean_elems p) = path_string (clean_elems d)"
    then have "clean_elems (path_string (clean_elems p)) = clean_elems (path_string (clean_elems d))" by (rule arg_cong)
    then show ?thesis by (simp add: below_def clean_elems_string clean_elems_clean)
  next
    assume "has_prefix (path_string (clean_elems p)) (path_string (clean_elems d) @ ''/'')"
    then show ?thesis unfolding below_def by (rule clean_prefixD [OF _ clean_elems_clean clean_elems_clean])
  qed
qed

lemma IsUnderPath_iff:
  assumes "absolute p" "absolute d" "clean_elems d \<noteq> []"
  shows "IsUnderPath p d \<longleftrightarrow> below d p"
proof
  assume "below d p"
  then have "path_string (clean_elems p) = path_string (clean_elems d) \<or> has_prefix (path_string (clean_elems p)) (path_string (clean_elems d) @ ''/'')"
    using path_string_prefix assms(3) by (simp add: below_def)
  then show "IsUnderPath p d" using assms(1,2) by (simp add: IsUnderPath_def Let_def filepath_Clean_absolute)
qed (rule IsUnderPath_below [OF assms(1,2)])

lemma denied_paths_clean:
  "\<forall>d \<in> set denied_sources \<union> set denied_destinations. path_string (clean_elems d) = d \<and> clean_elems d \<noteq> []"
proof -
  have "list_all (\<lambda>d. path_string (clean_elems d) = d \<and> clean_elems d \<noteq> []) (denied_sources @ denied_destinations)" by code_simp
  then show ?thesis by (auto simp: list_all_iff)
qed

lemma SecurePath_below:
  assumes "absolute rootfs" "SecurePath rootfs dest = Inr p"
  shows "below rootfs p \<and> clean_path p = p"
proof -
  define clean where "clean = filepath_Clean (if has_prefix dest ''/'' then tl dest else dest)"
  define full where "full = filepath_Join [rootfs, clean]"
  define joined where "joined = str_join ''/'' (filter (\<lambda>q. q \<noteq> []) [rootfs, clean])"
  have "rootfs \<noteq> []" using assms(1) by (auto simp: absolute_def has_prefix_def)
  then have "full = filepath_Clean joined" "absolute joined"
    using assms(1) by (auto simp: full_def joined_def filepath_Join_def absolute_def has_prefix_def)
  then have full: "full = path_string (clean_elems joined)" by (simp add: filepath_Clean_absolute)
  have p: "p = full" "has_prefix (full @ ''/'') (filepath_Clean rootfs @ ''/'') \<or> full = filepath_Clean rootfs"
    using assms(2) by (auto simp: SecurePath_def Let_def clean_def full_def split: if_splits)
  have "prefix (clean_elems rootfs) (clean_elems joined)"
    using p(2)
  proof
    assume "has_prefix (full @ ''/'') (filepath_Clean rootfs @ ''/'')"
    then obtain t where "full @ ''/'' = path_string (clean_elems rootfs) @ CHR ''/'' # t"
      using assms(1) by (auto simp: has_prefix_def filepath_Clean_absolute elim: prefixE)
    then have "path_elems full = path_elems (path_string (clean_elems rootfs)) @ path_elems t"
      by (metis path_elems_append path_elems_slash)
    then show ?thesis by (simp add: full path_elems_string clean_elems_clean)
  next
    assume "full = filepath_Clean rootfs"
    then have "path_elems (path_string (clean_elems joined)) = path_elems (path_string (clean_elems rootfs))"
      using assms(1) full by (simp add: filepath_Clean_absolute)
    then show ?thesis by (simp add: path_elems_string clean_elems_clean)
  qed
  then show ?thesis using p(1) full by (simp add: below_def clean_elems_string clean_elems_clean clean_path_def)
qed

text \<open>A path of a protected directory: the root itself, or at or below one of the list.\<close>

definition protected :: "string list \<Rightarrow> string \<Rightarrow> bool" where
  "protected ds p \<longleftrightarrow> clean_elems p = [] \<or> (\<exists>d \<in> set ds. below d p)"

text \<open>
  Property C36. The check of a user mount that is not of a kernel type decides, for absolute paths, exactly by their elements, whatever dots and
  slashes they are written with.  It accepts the mount if and only if type and options are allowed, the source is not in a protected directory of the
  host, unless it is in \<open>/dev\<close> and the option \<open>dev\<close> is given or it is a runtime volume, and the destination is not in a protected
  directory of the container, unless it is in \<open>/dev\<close> and that option is given.  And every mount point that is secured below an
  absolute root file system lies at or below it, for any text of the destination.
\<close>

theorem mounts_confined:
  assumes "\<not> IsAllowedKernelMountType (mo_Type m)" and "absolute (mo_Source m)" and "absolute (mo_Destination m)" and "absolute rootfs"
  shows "(ValidateUserMount m = Inr () \<longleftrightarrow> IsAllowedType (mo_Type m) (mo_Options m) \<and>
      (protected denied_sources (mo_Source m) \<longrightarrow>
        ''dev'' \<in> set (mo_Options m) \<and> below ''/dev'' (mo_Source m) \<or> below ''/etc/raind/volume/pvc'' (mo_Source m)) \<and>
      (protected denied_destinations (mo_Destination m) \<longrightarrow> ''dev'' \<in> set (mo_Options m) \<and> below ''/dev'' (mo_Destination m))) \<and>
    (\<forall>dest p. SecurePath rootfs dest = Inr p \<longrightarrow> below rootfs p \<and> clean_path p = p)"
proof -
  have abs: "absolute ''/dev''" "absolute ''/etc/raind/volume/pvc''" by (simp_all add: absolute_def has_prefix_def)
  have elems: "clean_elems ''/dev'' \<noteq> []" "clean_elems ''/etc/raind/volume/pvc'' \<noteq> []" by code_simp+
  have "denied denied_sources (mo_Source m) \<longleftrightarrow> protected denied_sources (mo_Source m)"
    "denied denied_destinations (mo_Destination m) \<longleftrightarrow> protected denied_destinations (mo_Destination m)"
    using denied_iff [OF assms(2), of denied_sources] denied_iff [OF assms(3), of denied_destinations] denied_paths_clean
    by (simp_all add: protected_def)
  then show ?thesis
    using assms(1) IsUnderPath_iff [OF assms(2) abs(1) elems(1)] IsUnderPath_iff [OF assms(2) abs(2) elems(2)] IsUnderPath_iff [OF assms(3) abs(1) elems(1)]
      SecurePath_below [OF assms(4)]
    by (auto simp: ValidateUserMount_def Let_def HasDeniedSource_def HasDeniedDestination_def HasMountOption_def IsAllowedRuntimeVolumeSource_def)
qed

definition ex_mount :: MountObject where
  "ex_mount = \<lparr>mo_Destination = ''/data'', mo_Type = ''bind'', mo_Source = ''/srv//data/../proc'', mo_Options = [''ro'']\<rparr>"

theorem mounts_confined_witness:
  "ValidateUserMount ex_mount = Inr () \<and> \<not> protected denied_sources (mo_Source ex_mount) \<and> SecurePath ''/r/'' ''/a/./b'' = Inr ''/r/a/b'' \<and>
   below ''/r/'' ''/r/a/b'' \<and> \<not> is_ok (ValidateUserMount (ex_mount\<lparr>mo_Source := ''/srv/../proc/1''\<rparr>))"
proof -
  have v: "ValidateUserMount ex_mount = Inr ()" by code_simp
  have k: "\<not> IsAllowedKernelMountType (mo_Type ex_mount)" by code_simp
  have a: "absolute (mo_Source ex_mount)" "absolute (mo_Destination ex_mount)" "absolute ''/r/''" by code_simp+
  have "''dev'' \<notin> set (mo_Options ex_mount)" "\<not> below ''/etc/raind/volume/pvc'' (mo_Source ex_mount)" by code_simp+
  moreover have "SecurePath ''/r/'' ''/a/./b'' = Inr ''/r/a/b''" by code_simp
  moreover have "\<not> is_ok (ValidateUserMount (ex_mount\<lparr>mo_Source := ''/srv/../proc/1''\<rparr>))" by code_simp
  ultimately show ?thesis using v mounts_confined [OF k a] by blast
qed

section \<open>Mount calls\<close>

text \<open>The flags of \<open>mount(2)\<close> that are used.\<close>

definition MS_RDONLY :: "64 word" where "MS_RDONLY = 1"
definition MS_NOSUID :: "64 word" where "MS_NOSUID = 2"
definition MS_NODEV :: "64 word" where "MS_NODEV = 4"
definition MS_NOEXEC :: "64 word" where "MS_NOEXEC = 8"
definition MS_REMOUNT :: "64 word" where "MS_REMOUNT = 32"
definition MS_NOATIME :: "64 word" where "MS_NOATIME = 1024"
definition MS_BIND :: "64 word" where "MS_BIND = 4096"
definition MS_REC :: "64 word" where "MS_REC = 16384"
definition MS_UNBINDABLE :: "64 word" where "MS_UNBINDABLE = 131072"
definition MS_PRIVATE :: "64 word" where "MS_PRIVATE = 262144"
definition MS_SLAVE :: "64 word" where "MS_SLAVE = 524288"
definition MS_SHARED :: "64 word" where "MS_SHARED = 1048576"
definition MS_RELATIME :: "64 word" where "MS_RELATIME = 2097152"
definition MS_STRICTATIME :: "64 word" where "MS_STRICTATIME = 16777216"

record mount_call =
  mc_source :: string
  mc_target :: string
  mc_fstype :: string
  mc_flags :: "64 word"
  mc_data :: string

end
