(* ===== verification/Droplet_Seccomp.thy ===== *)
theory Droplet_Seccomp
  imports Droplet_Config "HOL-Library.Word"
begin

text \<open>
  The seccomp filter of a container (\<open>droplet/container/security/seccomp.go\<close>): the compiler from the denied system calls of a specification
  to a program of the classic BPF machine, the machine itself as the kernel documents it, and the correctness of the compiler.
\<close>

unbundle bit_operations_syntax

section \<open>Programs\<close>

record SockFilter =
  bf_Code :: "16 word"
  bf_Jt :: "8 word"
  bf_Jf :: "8 word"
  bf_K :: "32 word"

definition bpf_LD_W_ABS :: "16 word" where "bpf_LD_W_ABS = 0x00 OR 0x00 OR 0x20"
definition bpf_JMP_JEQ_K :: "16 word" where "bpf_JMP_JEQ_K = 0x05 OR 0x10 OR 0x00"
definition bpf_RET_K :: "16 word" where "bpf_RET_K = 0x06 OR 0x00"

definition RET_KILL_PROCESS :: "32 word" where "RET_KILL_PROCESS = 0x80000000"
definition RET_ERRNO :: "32 word" where "RET_ERRNO = 0x00050000"
definition RET_ALLOW :: "32 word" where "RET_ALLOW = 0x7fff0000"

definition seccompDataNrOffset :: "32 word" where "seccompDataNrOffset = 0"
definition seccompDataArchOffset :: "32 word" where "seccompDataArchOffset = 4"

definition BPFStmt :: "16 word \<Rightarrow> 32 word \<Rightarrow> SockFilter" where
  "BPFStmt code k = \<lparr>bf_Code = code, bf_Jt = 0, bf_Jf = 0, bf_K = k\<rparr>"

definition BPFJump :: "16 word \<Rightarrow> 32 word \<Rightarrow> 8 word \<Rightarrow> 8 word \<Rightarrow> SockFilter" where
  "BPFJump code k jt jf = \<lparr>bf_Code = code, bf_Jt = jt, bf_Jf = jf, bf_K = k\<rparr>"

section \<open>The compiler\<close>

definition AuditArchForGOARCH :: "string \<Rightarrow> 32 word res" where
  "AuditArchForGOARCH goarch =
     (if goarch = ''amd64'' then Inr 0xc000003e
      else if goarch = ''arm64'' then Inr 0xc00000b7
      else if goarch = ''riscv64'' then Inr 0xc00000f3
      else Inl (Msg (''unsupported GOARCH for seccomp audit arch: '' @ goarch)))"

text \<open>The names the filter knows; \<open>sys\<close> gives the numbers of the architecture, which the package \<open>unix\<close> defines.\<close>

definition syscall_names :: "string list" where
  "syscall_names = [''bpf'', ''perf_event_open'', ''kexec_load'', ''open_by_handle_at'', ''ptrace'', ''process_vm_readv'', ''process_vm_writev'',
     ''userfaultfd'', ''init_module'', ''finit_module'', ''delete_module'', ''name_to_handle_at'', ''kcmp'', ''reboot'', ''swapon'', ''swapoff'',
     ''mount'', ''unshare'', ''setns'', ''clone3'']"

definition ResolveSyscallNr :: "(string \<Rightarrow> 32 word) \<Rightarrow> string \<Rightarrow> 32 word option" where
  "ResolveSyscallNr sys name =
     (let n = to_lower (trim_space name) in if n \<in> set syscall_names then Some (if n = ''clone3'' then 435 else sys n) else None)"

definition ErrnoForRule :: "SeccompSyscallObject \<Rightarrow> 32 word" where
  "ErrnoForRule rule = (case sy_ErrnoRet rule of Some e \<Rightarrow> of_nat e | None \<Rightarrow> 1)"

text \<open>The rules in the order they are met, each system call once.\<close>

fun block_names :: "string \<Rightarrow> (string \<Rightarrow> 32 word) \<Rightarrow> 32 word \<Rightarrow> string list \<Rightarrow> (32 word \<times> 32 word) list \<Rightarrow> (32 word \<times> 32 word) list res" where
  "block_names goarch sys errno [] blocked = Inr blocked"
| "block_names goarch sys errno (name # names) blocked =
     (case ResolveSyscallNr sys name of
        None \<Rightarrow> Inl (Msg (''unknown/unsupported syscall name '' @ goarch @ '': \"'' @ name @ ''\"''))
      | Some nr \<Rightarrow> block_names goarch sys errno names (if nr \<in> fst ` set blocked then blocked else blocked @ [(nr, errno)]))"

fun block_rules :: "string \<Rightarrow> (string \<Rightarrow> 32 word) \<Rightarrow> SeccompSyscallObject list \<Rightarrow> (32 word \<times> 32 word) list \<Rightarrow> (32 word \<times> 32 word) list res" where
  "block_rules goarch sys [] blocked = Inr blocked"
| "block_rules goarch sys (rule # rules) blocked =
     (if sy_Action rule \<noteq> ''SCMP_ACT_ERRNO'' then block_rules goarch sys rules blocked
      else case block_names goarch sys (ErrnoForRule rule) (sy_Names rule) blocked of
        Inl e \<Rightarrow> Inl e | Inr blocked' \<Rightarrow> block_rules goarch sys rules blocked')"

definition deny_code :: "32 word \<times> 32 word \<Rightarrow> SockFilter list" where
  "deny_code = (\<lambda>(nr, errno). [BPFJump bpf_JMP_JEQ_K nr 0 1, BPFStmt bpf_RET_K (RET_ERRNO OR errno)])"

definition filter_program :: "32 word \<Rightarrow> (32 word \<times> 32 word) list \<Rightarrow> SockFilter list" where
  "filter_program arch blocked =
     [BPFStmt bpf_LD_W_ABS seccompDataArchOffset, BPFJump bpf_JMP_JEQ_K arch 1 0, BPFStmt bpf_RET_K RET_KILL_PROCESS,
      BPFStmt bpf_LD_W_ABS seccompDataNrOffset] @ concat (map deny_code blocked) @ [BPFStmt bpf_RET_K RET_ALLOW]"

text \<open>\<open>install\<close> is the system call \<open>seccomp(2)\<close>.\<close>

definition InstallDenyFilter ::
  "string \<Rightarrow> (string \<Rightarrow> 32 word) \<Rightarrow> (SockFilter list \<Rightarrow> 'w \<Rightarrow> unit res \<times> 'w) \<Rightarrow> SeccompObject \<Rightarrow> 'w \<Rightarrow> unit res \<times> 'w" where
  "InstallDenyFilter goarch sys install cfg w =
     (case AuditArchForGOARCH goarch of Inl e \<Rightarrow> (Inl e, w)
      | Inr arch \<Rightarrow> (case block_rules goarch sys (se_Syscalls cfg) [] of Inl e \<Rightarrow> (Inl e, w)
      | Inr blocked \<Rightarrow> if blocked = [] then (Inr (), w)
          else (case install (filter_program arch blocked) w of
            (Inl e, w') \<Rightarrow> (Inl (Msg (''seccomp(SECCOMP_SET_MODE_FILTER) failed: '' @ error_text e)), w') | (Inr _, w') \<Rightarrow> (Inr (), w'))))"

section \<open>The machine\<close>

text \<open>A run over the rest of the program, with the accumulator; jumps go forward only, and a program that runs off its end is not valid.\<close>

function bpf_run :: "SockFilter list \<Rightarrow> 32 word \<Rightarrow> 32 word \<Rightarrow> 32 word \<Rightarrow> 32 word option" where
  "bpf_run [] nr arch acc = None"
| "bpf_run (i # is) nr arch acc =
     (if bf_Code i = bpf_LD_W_ABS then
        (if bf_K i = 0 then bpf_run is nr arch nr else if bf_K i = 4 then bpf_run is nr arch arch else None)
      else if bf_Code i = bpf_JMP_JEQ_K then bpf_run (drop (unat (if acc = bf_K i then bf_Jt i else bf_Jf i)) is) nr arch acc
      else if bf_Code i = bpf_RET_K then Some (bf_K i)
      else None)"
  by pat_completeness auto
termination by (relation "measure (\<lambda>(is, _). length is)") auto

datatype verdict = Allow | Deny "32 word" | Kill | Other

text \<open>The upper half of the returned word is the action, the lower half its data.\<close>

definition verdict_of :: "32 word \<Rightarrow> verdict" where
  "verdict_of k = (let action = k AND 0xffff0000 in
     if action = RET_ALLOW then Allow else if action = RET_ERRNO then Deny (k AND 0xffff)
     else if action = RET_KILL_PROCESS then Kill else Other)"

section \<open>What the specification asks for\<close>

definition rule_denies :: "(string \<Rightarrow> 32 word) \<Rightarrow> 32 word \<Rightarrow> SeccompSyscallObject \<Rightarrow> bool" where
  "rule_denies sys nr rule \<longleftrightarrow> sy_Action rule = ''SCMP_ACT_ERRNO'' \<and> list_ex (\<lambda>n. ResolveSyscallNr sys n = Some nr) (sy_Names rule)"

definition wanted_verdict :: "(string \<Rightarrow> 32 word) \<Rightarrow> SeccompObject \<Rightarrow> 32 word \<Rightarrow> verdict" where
  "wanted_verdict sys cfg nr =
     (case find (rule_denies sys nr) (se_Syscalls cfg) of Some rule \<Rightarrow> Deny (ErrnoForRule rule) | None \<Rightarrow> Allow)"

section \<open>Correctness\<close>

lemmas bpf_code_defs = bpf_LD_W_ABS_def bpf_JMP_JEQ_K_def bpf_RET_K_def

lemma run_denies:
  "bpf_run (concat (map deny_code blocked) @ [BPFStmt bpf_RET_K RET_ALLOW]) nr arch nr =
     Some (case map_of blocked nr of Some errno \<Rightarrow> RET_ERRNO OR errno | None \<Rightarrow> RET_ALLOW)"
  by (induction blocked) (auto simp: deny_code_def BPFJump_def BPFStmt_def bpf_code_defs)

lemma run_program:
  "bpf_run (filter_program arch blocked) nr arch' 0 =
     Some (if arch' = arch then (case map_of blocked nr of Some errno \<Rightarrow> RET_ERRNO OR errno | None \<Rightarrow> RET_ALLOW) else RET_KILL_PROCESS)"
  using run_denies [of blocked nr arch]
  by (simp add: filter_program_def BPFStmt_def BPFJump_def bpf_code_defs seccompDataArchOffset_def seccompDataNrOffset_def)

lemma block_names_lookup:
  "block_names goarch sys errno names blocked = Inr b \<Longrightarrow>
     map_of b nr = (case map_of blocked nr of Some e \<Rightarrow> Some e
       | None \<Rightarrow> if list_ex (\<lambda>n. ResolveSyscallNr sys n = Some nr) names then Some errno else None)"
proof (induction names arbitrary: blocked)
  case (Cons n names)
  then obtain m where m: "ResolveSyscallNr sys n = Some m" by (auto split: option.splits)
  let ?b = "if m \<in> fst ` set blocked then blocked else blocked @ [(m, errno)]"
  have "map_of ?b nr = (case map_of blocked nr of Some e \<Rightarrow> Some e | None \<Rightarrow> if m = nr then Some errno else None)"
  proof (cases "m \<in> fst ` set blocked")
    case True
    then have "map_of blocked m \<noteq> None" by (simp add: map_of_eq_None_iff)
    with True show ?thesis by (auto split: option.splits)
  next
    case False
    then have "map_of blocked m = None" by (simp add: map_of_eq_None_iff)
    with False show ?thesis by (auto simp: map_add_def split: option.splits)
  qed
  moreover have "block_names goarch sys errno names ?b = Inr b" using Cons.prems m by simp
  ultimately show ?case using Cons.IH [of ?b] m by (simp split: option.splits)
qed (simp split: option.splits)

lemma block_rules_lookup:
  "block_rules goarch sys rules blocked = Inr b \<Longrightarrow>
     map_of b nr = (case map_of blocked nr of Some e \<Rightarrow> Some e
       | None \<Rightarrow> map_option ErrnoForRule (find (rule_denies sys nr) rules))"
proof (induction rules arbitrary: blocked)
  case (Cons rule rules)
  show ?case
  proof (cases "sy_Action rule = ''SCMP_ACT_ERRNO''")
    case False
    then have "\<not> rule_denies sys nr rule" "block_rules goarch sys rules blocked = Inr b"
      using Cons.prems by (simp_all add: rule_denies_def)
    then show ?thesis using Cons.IH [of blocked] by (simp split: option.splits)
  next
    case True
    then obtain b1 where b1: "block_names goarch sys (ErrnoForRule rule) (sy_Names rule) blocked = Inr b1"
      using Cons.prems by (auto split: sum.splits)
    moreover have "rule_denies sys nr rule \<longleftrightarrow> list_ex (\<lambda>n. ResolveSyscallNr sys n = Some nr) (sy_Names rule)"
      using True by (simp add: rule_denies_def)
    ultimately show ?thesis using True Cons.prems Cons.IH [of b1] block_names_lookup [OF b1, of nr]
      by (auto split: option.splits)
  qed
qed (simp split: option.splits)

lemma block_names_distinct:
  assumes "block_names goarch sys errno names blocked = Inr b" "distinct (map fst blocked)" "fst ` set blocked \<subseteq> S"
    and "\<And>n nr. ResolveSyscallNr sys n = Some nr \<Longrightarrow> nr \<in> S"
  shows "distinct (map fst b) \<and> fst ` set b \<subseteq> S"
  using assms(1-3)
proof (induction names arbitrary: blocked)
  case (Cons n names)
  then obtain m where m: "ResolveSyscallNr sys n = Some m" by (auto split: option.splits)
  show ?case
    using Cons.prems m assms(4) [OF m] by (intro Cons.IH [of "if m \<in> fst ` set blocked then blocked else blocked @ [(m, errno)]"]) auto
qed simp

lemma block_rules_distinct:
  assumes "block_rules goarch sys rules blocked = Inr b" "distinct (map fst blocked)" "fst ` set blocked \<subseteq> S"
    and "\<And>n nr. ResolveSyscallNr sys n = Some nr \<Longrightarrow> nr \<in> S"
  shows "distinct (map fst b) \<and> fst ` set b \<subseteq> S"
  using assms(1-3)
proof (induction rules arbitrary: blocked)
  case (Cons rule rules)
  show ?case
  proof (cases "sy_Action rule = ''SCMP_ACT_ERRNO''")
    case True
    then obtain b1 where b1: "block_names goarch sys (ErrnoForRule rule) (sy_Names rule) blocked = Inr b1"
      using Cons.prems by (auto split: sum.splits)
    with True Cons.prems(1) block_names_distinct [OF b1 Cons.prems(2,3) assms(4)] show ?thesis
      by (intro Cons.IH [of b1]) simp_all
  qed (use Cons in simp)
qed simp

lemma block_rules_short:
  assumes "block_rules goarch sys rules [] = Inr b" shows "length b \<le> 20"
proof -
  let ?num = "\<lambda>n. if n = ''clone3'' then 435 else sys n"
  have "ResolveSyscallNr sys n = Some nr \<Longrightarrow> nr \<in> ?num ` set syscall_names" for n nr
    by (auto simp: ResolveSyscallNr_def Let_def split: if_splits)
  then have "distinct (map fst b)" "fst ` set b \<subseteq> ?num ` set syscall_names"
    using block_rules_distinct [OF assms, of "?num ` set syscall_names"] by auto
  then have "length b \<le> card (?num ` set syscall_names)"
    using distinct_card [of "map fst b"] card_mono [of "?num ` set syscall_names" "fst ` set b"] by simp
  also have "\<dots> \<le> card (set syscall_names)" by (rule card_image_le) simp
  also have "\<dots> \<le> length syscall_names" by (rule card_length)
  finally show ?thesis by (simp add: syscall_names_def)
qed

lemma verdict_simps: "verdict_of RET_ALLOW = Allow" "verdict_of RET_KILL_PROCESS = Kill"
  by (simp_all add: verdict_of_def Let_def RET_ALLOW_def RET_ERRNO_def RET_KILL_PROCESS_def)

lemma verdict_errno:
  assumes "unat errno < 2 ^ 16" shows "verdict_of (RET_ERRNO OR errno) = Deny errno"
proof -
  have m: "0xffff = (mask 16 :: 32 word)" by (simp add: mask_eq_exp_minus_1)
  have "unat (take_bit 16 errno) = unat errno" using assms by (simp add: unsigned_take_bit_eq take_bit_nat_eq_self)
  then have e: "errno AND 0xffff = errno" by (simp only: m take_bit_eq_mask [symmetric] word_unat_eq_iff)
  have "errno AND 0xffff0000 = errno AND (0xffff AND 0xffff0000)" using e by (metis and.assoc)
  then have "(RET_ERRNO OR errno) AND 0xffff0000 = RET_ERRNO" "(RET_ERRNO OR errno) AND 0xffff = errno"
    using e by (simp_all add: bit.conj_disj_distrib2 RET_ERRNO_def)
  then show ?thesis by (simp add: verdict_of_def Let_def RET_ERRNO_def RET_ALLOW_def)
qed

lemma installed_program:
  assumes "InstallDenyFilter goarch sys install cfg w = (Inr (), w')" and "AuditArchForGOARCH goarch = Inr arch"
    and "\<forall>rule \<in> set (se_Syscalls cfg). unat (ErrnoForRule rule) < 2 ^ 16"
  obtains blocked where "length blocked \<le> 20"
    and "blocked = [] \<and> w' = w \<or> blocked \<noteq> [] \<and> install (filter_program arch blocked) w = (Inr (), w')"
    and "\<And>nr. wanted_verdict sys cfg nr = (case map_of blocked nr of Some errno \<Rightarrow> verdict_of (RET_ERRNO OR errno) | None \<Rightarrow> Allow)"
proof -
  obtain blocked where b: "block_rules goarch sys (se_Syscalls cfg) [] = Inr blocked"
    and i: "blocked = [] \<and> w' = w \<or> blocked \<noteq> [] \<and> install (filter_program arch blocked) w = (Inr (), w')"
    using assms(1,2) by (auto simp: InstallDenyFilter_def split: sum.splits if_splits prod.splits)
  have "wanted_verdict sys cfg nr = (case map_of blocked nr of Some errno \<Rightarrow> verdict_of (RET_ERRNO OR errno) | None \<Rightarrow> Allow)" for nr
  proof (cases "find (rule_denies sys nr) (se_Syscalls cfg)")
    case (Some rule)
    then have "rule \<in> set (se_Syscalls cfg)" by (auto simp: find_Some_iff)
    with Some assms(3) block_rules_lookup [OF b, of nr] show ?thesis by (simp add: wanted_verdict_def verdict_errno)
  qed (use block_rules_lookup [OF b, of nr] in \<open>simp add: wanted_verdict_def\<close>)
  with i block_rules_short [OF b] that show ?thesis by blast
qed


definition ex_sys :: "string \<Rightarrow> 32 word" where
  "ex_sys n = (if n = ''mount'' then 165 else if n = ''ptrace'' then 101 else if n = ''bpf'' then 321 else 0)"

definition ex_filter :: SeccompObject where
  "ex_filter = \<lparr>se_DefaultAction = ''SCMP_ACT_ALLOW'', se_DefaultErrnoRet = None, se_Architectures = [], se_Flags = [],
     se_Syscalls = [\<lparr>sy_Names = ['' Mount'', ''bpf''], sy_Action = ''SCMP_ACT_ERRNO'', sy_ErrnoRet = Some 13, sy_Args = [], sy_Comment = [],
       sy_Include = None, sy_Excludes = None\<rparr>]\<rparr>"


text \<open>
  What the filter leaves open. The default action of the specification is ignored, so that a list of allowed calls installs
  nothing; an error number that does not fit turns the denial of a call into its permission; and the calls of the x32 interface, which
  have the architecture of amd64 and a bit set in their number, are not denied.
\<close>

lemma seccomp_gaps:
  "InstallDenyFilter ''amd64'' ex_sys (\<lambda>p w. (Inr (), w @ [p])) (ex_filter\<lparr>se_DefaultAction := ''SCMP_ACT_ERRNO'',
     se_Syscalls := map (sy_Action_update (\<lambda>_. ''SCMP_ACT_ALLOW'')) (se_Syscalls ex_filter)\<rparr>) [] = (Inr (), []) \<and>
   map_option verdict_of (bpf_run (filter_program 0xc000003e [(165, 0x7fff0000)]) 165 0xc000003e 0) = Some Allow \<and>
   map_option verdict_of (bpf_run (filter_program 0xc000003e [(165, 13)]) (0x40000000 OR 165) 0xc000003e 0) = Some Allow"
proof (intro conjI)
  show "InstallDenyFilter ''amd64'' ex_sys (\<lambda>p w. (Inr (), w @ [p])) (ex_filter\<lparr>se_DefaultAction := ''SCMP_ACT_ERRNO'',
     se_Syscalls := map (sy_Action_update (\<lambda>_. ''SCMP_ACT_ALLOW'')) (se_Syscalls ex_filter)\<rparr>) [] = (Inr (), [])" by code_simp
qed (simp_all add: run_program verdict_of_def Let_def RET_ERRNO_def RET_ALLOW_def RET_KILL_PROCESS_def)

end
