(* ===== verification/Droplet_Namespace.thy ===== *)
theory Droplet_Namespace
  imports Droplet_Mounts "HOL-Library.Word"
begin

text \<open>
  Rootless containers and namespaces: \<open>droplet/container/rootless/config.go\<close> (the mapping of user ids, used when files of image layers are given
  shifted owners) and \<open>container/namespace/namespace_linux.go\<close> (the namespaces of the init process and the mapping the kernel gets).
\<close>

unbundle bit_operations_syntax

section \<open>Numbers\<close>

definition is_digit :: "char \<Rightarrow> bool" where
  "is_digit c \<longleftrightarrow> 48 \<le> (of_char c :: nat) \<and> (of_char c :: nat) \<le> 57"

definition decimal :: "string \<Rightarrow> nat" where
  "decimal = foldl (\<lambda>n c. 10 * n + (of_char c - 48)) 0"

text \<open>\<open>strconv.Atoi\<close>, on 64-bit integers.\<close>

definition Atoi :: "string \<Rightarrow> int option" where
  "Atoi s = (let signed = s \<noteq> [] \<and> (hd s = CHR ''-'' \<or> hd s = CHR ''+''); ds = (if signed then tl s else s);
       v = (if signed \<and> hd s = CHR ''-'' then - int (decimal ds) else int (decimal ds))
     in if ds = [] \<or> \<not> list_all is_digit ds \<or> v < - (2 ^ 63) \<or> v \<ge> 2 ^ 63 then None else Some v)"

definition ParseUint64 :: "string \<Rightarrow> nat option" where
  "ParseUint64 s = (if s = [] \<or> \<not> list_all is_digit s \<or> decimal s \<ge> 2 ^ 64 then None else Some (decimal s))"

text \<open>\<open>strings.Fields\<close>.\<close>

fun fields_aux :: "string \<Rightarrow> string \<Rightarrow> string list" where
  "fields_aux acc [] = (if acc = [] then [] else [rev acc])"
| "fields_aux acc (c # cs) = (if is_space c then (if acc = [] then fields_aux [] cs else rev acc # fields_aux [] cs) else fields_aux (c # acc) cs)"

definition Fields :: "string \<Rightarrow> string list" where
  "Fields s = fields_aux [] s"

section \<open>The mapping of ids\<close>

text \<open>The process and its host: environment variables, ids, id maps, and the decoder of the annotation.\<close>

record id_env =
  ie_getenv :: "string \<Rightarrow> string"
  ie_uid :: int
  ie_gid :: int
  ie_self_map :: "string res"
  ie_init_map :: "string res"
  ie_decode :: "string \<Rightarrow> RootlessConfigObject res"

record IDMapPolicy =
  pl_mode :: string
  pl_uidBase :: int
  pl_gidBase :: int
  pl_mapSize :: int
  pl_rootUID :: int
  pl_rootGID :: int

definition envInt :: "id_env \<Rightarrow> string \<Rightarrow> int \<Rightarrow> int" where
  "envInt env name fallback = (let value = ie_getenv env name in
     if value = [] then fallback else (case Atoi value of None \<Rightarrow> fallback | Some n \<Rightarrow> if n \<le> 0 then fallback else n))"

definition rootlessIDMapConfig :: "id_env \<Rightarrow> int \<times> int \<times> int" where
  "rootlessIDMapConfig env = (envInt env ''RAIND_ROOTLESS_UID_BASE'' 100000, envInt env ''RAIND_ROOTLESS_GID_BASE'' 100000,
     envInt env ''RAIND_ROOTLESS_ID_MAP_SIZE'' 65536)"

definition ModeOrDefault :: "string \<Rightarrow> string" where
  "ModeOrDefault mode = (if mode = [] \<or> mode = RootlessModeShiftedRoot then RootlessModeShiftedRoot
     else if mode = RootlessModeLoginRoot then RootlessModeLoginRoot else RootlessModeShiftedRoot)"

definition HostRootID :: "IDMapPolicy \<Rightarrow> int \<times> int" where
  "HostRootID p = (if pl_mode p = RootlessModeLoginRoot then (pl_rootUID p, pl_rootGID p) else (pl_uidBase p, pl_gidBase p))"

definition IDMapPolicyFromConfig :: "id_env \<Rightarrow> RootlessConfigObject \<Rightarrow> IDMapPolicy" where
  "IDMapPolicyFromConfig env cfg =
     (let (uidBase, gidBase, mapSize) = rootlessIDMapConfig env;
          p = \<lparr>pl_mode = ModeOrDefault (rc_Mode cfg), pl_uidBase = uidBase, pl_gidBase = gidBase, pl_mapSize = mapSize,
            pl_rootUID = rc_HostRootUID cfg, pl_rootGID = rc_HostRootGID cfg\<rparr>
      in if pl_mode p = RootlessModeLoginRoot
         then p\<lparr>pl_rootUID := (if pl_rootUID p \<le> 0 then ie_uid env else pl_rootUID p), pl_rootGID := (if pl_rootGID p \<le> 0 then ie_gid env else pl_rootGID p)\<rparr>
         else p\<lparr>pl_rootUID := fst (HostRootID p), pl_rootGID := snd (HostRootID p)\<rparr>)"

definition outside_map :: "string \<Rightarrow> string \<Rightarrow> int \<Rightarrow> int \<Rightarrow> go_error" where
  "outside_map what path i n = Msg (what @ '' outside rootless map: path='' @ path @ '' '' @ what @ ''='' @ itoa i @ '' map_size='' @ itoa n)"

text \<open>A sum of two values of type \<open>int\<close> of the code, which is 64 bits wide and wraps.\<close>

definition int64 :: "int \<Rightarrow> int" where
  "int64 x = (x + 2 ^ 63) mod 2 ^ 64 - 2 ^ 63"

definition MapUID :: "IDMapPolicy \<Rightarrow> string \<Rightarrow> int \<Rightarrow> int res" where
  "MapUID p path uid =
     (if uid < 0 \<or> uid \<ge> pl_mapSize p then Inl (outside_map ''uid'' path uid (pl_mapSize p))
      else if pl_mode p = RootlessModeLoginRoot then (if uid = 0 then Inr (pl_rootUID p) else Inr (int64 (int64 (pl_uidBase p + uid) - 1)))
      else Inr (int64 (pl_uidBase p + uid)))"

definition MapGID :: "IDMapPolicy \<Rightarrow> string \<Rightarrow> int \<Rightarrow> int res" where
  "MapGID p path gid =
     (if gid < 0 \<or> gid \<ge> pl_mapSize p then Inl (outside_map ''gid'' path gid (pl_mapSize p))
      else if pl_mode p = RootlessModeLoginRoot then (if gid = 0 then Inr (pl_rootGID p) else Inr (int64 (int64 (pl_gidBase p + gid) - 1)))
      else Inr (int64 (pl_gidBase p + gid)))"

text \<open>\<open>ShiftIDs\<close> with a policy, as files of image layers are copied (\<open>rootless/filesystem.go\<close>).\<close>

definition ShiftIDs :: "string \<Rightarrow> int \<Rightarrow> int \<Rightarrow> IDMapPolicy \<Rightarrow> (int \<times> int) res" where
  "ShiftIDs path uid gid p = (case MapUID p path uid of Inl e \<Rightarrow> Inl e
     | Inr u \<Rightarrow> (case MapGID p path gid of Inl e \<Rightarrow> Inl e | Inr g \<Rightarrow> Inr (u, g)))"

definition ShiftedLayerCacheKey :: "IDMapPolicy \<Rightarrow> string" where
  "ShiftedLayerCacheKey p =
     (if pl_mode p = RootlessModeLoginRoot
      then ''mode_'' @ pl_mode p @ ''_rootuid_'' @ itoa (pl_rootUID p) @ ''_rootgid_'' @ itoa (pl_rootGID p) @ ''_uid_'' @ itoa (pl_uidBase p) @
        ''_gid_'' @ itoa (pl_gidBase p) @ ''_size_'' @ itoa (pl_mapSize p) @ ''_v1''
      else ''uid_'' @ itoa (pl_uidBase p) @ ''_gid_'' @ itoa (pl_gidBase p) @ ''_size_'' @ itoa (pl_mapSize p) @ ''_v1'')"

section \<open>The plan of a rootless container\<close>

record RootlessPlan =
  rp_Config :: RootlessConfigObject
  rp_Enabled :: bool
  rp_Nested :: bool
  rp_Policy :: IDMapPolicy
  rp_HostRootUID :: int
  rp_HostRootGID :: int

definition no_rootless_config :: RootlessConfigObject where
  "no_rootless_config = \<lparr>rc_Enabled = False, rc_Mode = [], rc_HostRootUID = 0, rc_HostRootGID = 0\<rparr>"

definition no_plan :: RootlessPlan where
  "no_plan = \<lparr>rp_Config = no_rootless_config, rp_Enabled = False, rp_Nested = False,
     rp_Policy = \<lparr>pl_mode = [], pl_uidBase = 0, pl_gidBase = 0, pl_mapSize = 0, pl_rootUID = 0, pl_rootGID = 0\<rparr>, rp_HostRootUID = 0, rp_HostRootGID = 0\<rparr>"

definition ConfigFromAnnotation :: "id_env \<Rightarrow> AnnotationObject \<Rightarrow> RootlessConfigObject option" where
  "ConfigFromAnnotation env a =
     (if an_Rootless a = [] then None
      else case ie_decode env (an_Rootless a) of Inl _ \<Rightarrow> None
      | Inr cfg \<Rightarrow> if \<not> rc_Enabled cfg then None else Some (cfg\<lparr>rc_Mode := ModeOrDefault (rc_Mode cfg)\<rparr>))"

definition ConfigFromSpec :: "id_env \<Rightarrow> Spec \<Rightarrow> RootlessConfigObject option" where
  "ConfigFromSpec env s = ConfigFromAnnotation env (sp_Annotations s)"

definition UserNamespaceDiffersFromInit :: "string \<Rightarrow> string \<Rightarrow> bool" where
  "UserNamespaceDiffersFromInit self init = (let a = trim_space self; b = trim_space init in a \<noteq> [] \<and> b \<noteq> [] \<and> a \<noteq> b)"

definition CurrentUserNamespaceDiffersFromInit :: "id_env \<Rightarrow> bool" where
  "CurrentUserNamespaceDiffersFromInit env =
     (case ie_self_map env of Inl _ \<Rightarrow> False | Inr self \<Rightarrow> (case ie_init_map env of Inl _ \<Rightarrow> False | Inr init \<Rightarrow> UserNamespaceDiffersFromInit self init))"

fun non_initial_lines :: "string list \<Rightarrow> bool" where
  "non_initial_lines [] = False"
| "non_initial_lines (l # ls) = (let fs = Fields l in
     if length fs < 3 then non_initial_lines ls
     else (case ParseUint64 (fs ! 0) of
        Some 0 \<Rightarrow> (case ParseUint64 (fs ! 1) of None \<Rightarrow> False | Some host \<Rightarrow> host \<noteq> 0)
      | _ \<Rightarrow> non_initial_lines ls))"

definition IsNonInitialUserNamespace :: "string \<Rightarrow> bool" where
  "IsNonInitialUserNamespace uidMap = non_initial_lines (split_on (char_of (10::nat)) uidMap)"

definition PlanFromConfig :: "id_env \<Rightarrow> RootlessConfigObject \<Rightarrow> RootlessPlan" where
  "PlanFromConfig env cfg0 =
     (if \<not> rc_Enabled cfg0 then no_plan
      else let cfg = cfg0\<lparr>rc_Mode := ModeOrDefault (rc_Mode cfg0)\<rparr>; policy = IDMapPolicyFromConfig env cfg in
        \<lparr>rp_Config = cfg, rp_Enabled = True, rp_Nested = CurrentUserNamespaceDiffersFromInit env, rp_Policy = policy,
         rp_HostRootUID = fst (HostRootID policy), rp_HostRootGID = snd (HostRootID policy)\<rparr>)"

definition PlanFromSpec :: "id_env \<Rightarrow> Spec \<Rightarrow> RootlessPlan" where
  "PlanFromSpec env s = (case ConfigFromSpec env s of None \<Rightarrow> no_plan | Some cfg \<Rightarrow> PlanFromConfig env cfg)"

definition ShouldPrepareHostResources :: "RootlessPlan \<Rightarrow> bool" where
  "ShouldPrepareHostResources p \<longleftrightarrow> \<not> rp_Enabled p \<or> \<not> rp_Nested p"

definition ShouldPrepareHostOwnedFiles :: "RootlessPlan \<Rightarrow> bool" where
  "ShouldPrepareHostOwnedFiles p \<longleftrightarrow> rp_Enabled p \<and> \<not> rp_Nested p"

definition ShouldPrejoinNamespaces :: "RootlessPlan \<Rightarrow> bool \<Rightarrow> bool" where
  "ShouldPrejoinNamespaces p hasJoinTargets \<longleftrightarrow> rp_Enabled p \<and> hasJoinTargets"

section \<open>Namespaces\<close>

record NsConfig =
  nx_mount :: bool
  nx_network :: bool
  nx_uts :: bool
  nx_pid :: bool
  nx_ipc :: bool
  nx_user :: bool
  nx_cgroup :: bool
  nx_time :: bool
  nx_mountPath :: string
  nx_networkPath :: string
  nx_utsPath :: string
  nx_pidPath :: string
  nx_ipcPath :: string
  nx_userPath :: string
  nx_cgroupPath :: string
  nx_timePath :: string

definition no_namespaces :: NsConfig where
  "no_namespaces = \<lparr>nx_mount = False, nx_network = False, nx_uts = False, nx_pid = False, nx_ipc = False, nx_user = False, nx_cgroup = False,
     nx_time = False, nx_mountPath = [], nx_networkPath = [], nx_utsPath = [], nx_pidPath = [], nx_ipcPath = [], nx_userPath = [],
     nx_cgroupPath = [], nx_timePath = []\<rparr>"

definition add_namespace :: "NamespaceObject \<Rightarrow> NsConfig \<Rightarrow> NsConfig" where
  "add_namespace ns c = (let p = no_Path ns; t = no_Type ns in
     if t = ''mount'' then (if p \<noteq> [] then c\<lparr>nx_mountPath := p, nx_mount := False\<rparr> else if nx_mountPath c = [] then c\<lparr>nx_mount := True\<rparr> else c)
     else if t = ''network'' then (if p \<noteq> [] then c\<lparr>nx_networkPath := p, nx_network := False\<rparr> else if nx_networkPath c = [] then c\<lparr>nx_network := True\<rparr> else c)
     else if t = ''uts'' then (if p \<noteq> [] then c\<lparr>nx_utsPath := p, nx_uts := False\<rparr> else if nx_utsPath c = [] then c\<lparr>nx_uts := True\<rparr> else c)
     else if t = ''pid'' then (if p \<noteq> [] then c\<lparr>nx_pidPath := p, nx_pid := False\<rparr> else if nx_pidPath c = [] then c\<lparr>nx_pid := True\<rparr> else c)
     else if t = ''ipc'' then (if p \<noteq> [] then c\<lparr>nx_ipcPath := p, nx_ipc := False\<rparr> else if nx_ipcPath c = [] then c\<lparr>nx_ipc := True\<rparr> else c)
     else if t = ''user'' then (if p \<noteq> [] then c\<lparr>nx_userPath := p, nx_user := False\<rparr> else if nx_userPath c = [] then c\<lparr>nx_user := True\<rparr> else c)
     else if t = ''cgroup'' then (if p \<noteq> [] then c\<lparr>nx_cgroupPath := p, nx_cgroup := False\<rparr> else if nx_cgroupPath c = [] then c\<lparr>nx_cgroup := True\<rparr> else c)
     else if t = ''time'' then (if p \<noteq> [] then c\<lparr>nx_timePath := p, nx_time := False\<rparr> else if nx_timePath c = [] then c\<lparr>nx_time := True\<rparr> else c)
     else c)"

definition BuildConfig :: "Spec \<Rightarrow> NsConfig" where
  "BuildConfig s = fold add_namespace (ls_Namespaces (sp_LinuxSpec s)) no_namespaces"

definition CLONE_NEWNS :: "64 word" where "CLONE_NEWNS = 0x20000"
definition CLONE_NEWCGROUP :: "64 word" where "CLONE_NEWCGROUP = 0x2000000"
definition CLONE_NEWUTS :: "64 word" where "CLONE_NEWUTS = 0x4000000"
definition CLONE_NEWIPC :: "64 word" where "CLONE_NEWIPC = 0x8000000"
definition CLONE_NEWUSER :: "64 word" where "CLONE_NEWUSER = 0x10000000"
definition CLONE_NEWPID :: "64 word" where "CLONE_NEWPID = 0x20000000"
definition CLONE_NEWNET :: "64 word" where "CLONE_NEWNET = 0x40000000"

definition BuildCloneFlags :: "NsConfig \<Rightarrow> 64 word" where
  "BuildCloneFlags c =
     (if nx_mount c then CLONE_NEWNS else 0) OR (if nx_network c then CLONE_NEWNET else 0) OR (if nx_uts c then CLONE_NEWUTS else 0) OR
     (if nx_pid c then CLONE_NEWPID else 0) OR (if nx_ipc c then CLONE_NEWIPC else 0) OR (if nx_user c then CLONE_NEWUSER else 0) OR
     (if nx_cgroup c then CLONE_NEWCGROUP else 0)"

record JoinTarget =
  jt_name :: string
  jt_path :: string
  jt_nstype :: "64 word"

definition join_target :: "string \<Rightarrow> string \<Rightarrow> 64 word \<Rightarrow> JoinTarget list" where
  "join_target name path t = (if path \<noteq> [] then [\<lparr>jt_name = name, jt_path = path, jt_nstype = t\<rparr>] else [])"

definition BuildJoinTargets :: "Spec \<Rightarrow> JoinTarget list" where
  "BuildJoinTargets s = (let c = BuildConfig s in
     join_target ''mount'' (nx_mountPath c) CLONE_NEWNS @ join_target ''cgroup'' (nx_cgroupPath c) CLONE_NEWCGROUP @
     join_target ''network'' (nx_networkPath c) CLONE_NEWNET @ join_target ''ipc'' (nx_ipcPath c) CLONE_NEWIPC @
     join_target ''uts'' (nx_utsPath c) CLONE_NEWUTS)"

definition UserNamespacePath :: "Spec \<Rightarrow> string" where
  "UserNamespacePath s = nx_userPath (BuildConfig s)"

definition BuildRootUserNamespaceIDMap :: "NsConfig \<Rightarrow> IDMappingObject list \<times> IDMappingObject list" where
  "BuildRootUserNamespaceIDMap c =
     (if \<not> nx_user c then ([], [])
      else let m = [\<lparr>im_ContainerID = 0, im_HostID = 0, im_Size = 65535\<rparr>] in (m, m))"

definition BuildSpecUserNamespaceIDMap ::
  "NsConfig \<Rightarrow> IDMappingObject list \<Rightarrow> IDMappingObject list \<Rightarrow> IDMappingObject list \<times> IDMappingObject list" where
  "BuildSpecUserNamespaceIDMap c uids gids = (if \<not> nx_user c then ([], []) else (uids, gids))"

definition BuildRootlessUserNamespaceIDMap ::
  "id_env \<Rightarrow> NsConfig \<Rightarrow> RootlessConfigObject \<Rightarrow> IDMappingObject list \<times> IDMappingObject list" where
  "BuildRootlessUserNamespaceIDMap env c cfg =
     (if \<not> nx_user c then ([], [])
      else let p = IDMapPolicyFromConfig env cfg in
        if pl_mode p = RootlessModeLoginRoot
        then ([\<lparr>im_ContainerID = 0, im_HostID = pl_rootUID p, im_Size = 1\<rparr>, \<lparr>im_ContainerID = 1, im_HostID = pl_uidBase p, im_Size = pl_mapSize p - 1\<rparr>],
              [\<lparr>im_ContainerID = 0, im_HostID = pl_rootGID p, im_Size = 1\<rparr>, \<lparr>im_ContainerID = 1, im_HostID = pl_gidBase p, im_Size = pl_mapSize p - 1\<rparr>])
        else ([\<lparr>im_ContainerID = 0, im_HostID = pl_uidBase p, im_Size = pl_mapSize p\<rparr>],
              [\<lparr>im_ContainerID = 0, im_HostID = pl_gidBase p, im_Size = pl_mapSize p\<rparr>]))"

text \<open>Attributes of the init process; a credential is always that of the root of the namespace.\<close>

record ProcAttr =
  pa_cloneFlags :: "64 word"
  pa_uidMap :: "IDMappingObject list"
  pa_gidMap :: "IDMappingObject list"
  pa_setGroupsFlag :: bool
  pa_rootCredential :: bool

definition BuildProcAttrForRootContainer :: "NsConfig \<Rightarrow> ProcAttr" where
  "BuildProcAttrForRootContainer c = (let (u, g) = BuildRootUserNamespaceIDMap c in
     \<lparr>pa_cloneFlags = BuildCloneFlags c, pa_uidMap = u, pa_gidMap = g, pa_setGroupsFlag = nx_user c, pa_rootCredential = False\<rparr>)"

definition BuildProcAttrForContainer :: "id_env \<Rightarrow> Spec \<Rightarrow> ProcAttr" where
  "BuildProcAttrForContainer env s =
     (let c = BuildConfig s; l = sp_LinuxSpec s; (su, sg) = BuildSpecUserNamespaceIDMap c (ls_UIDMappings l) (ls_GIDMappings l);
          base = BuildProcAttrForRootContainer c
      in if su \<noteq> [] \<or> sg \<noteq> [] then base\<lparr>pa_uidMap := su, pa_gidMap := sg\<rparr>
         else case ConfigFromSpec env s of
           None \<Rightarrow> base
         | Some cfg \<Rightarrow> (let (u, g) = BuildRootlessUserNamespaceIDMap env c cfg in
             base\<lparr>pa_uidMap := u, pa_gidMap := g, pa_setGroupsFlag := nx_user c, pa_rootCredential := nx_user c\<rparr>))"

section \<open>Process ids under \<open>/proc\<close>\<close>

definition last_index :: "char \<Rightarrow> string \<Rightarrow> nat option" where
  "last_index c s = (if c \<in> set s then Some (length s - 1 - length (takeWhile (\<lambda>x. x \<noteq> c) (rev s))) else None)"

text \<open>\<open>ProcStatPPID\<close>: the parent in a line of \<open>/proc/N/stat\<close>, which follows the last closing parenthesis.\<close>

definition ProcStatPPID :: "string \<Rightarrow> int" where
  "ProcStatPPID stat = (case last_index CHR '')'' stat of None \<Rightarrow> 0
     | Some k \<Rightarrow> if k + 2 \<ge> length stat then 0
         else (let fs = Fields (drop (k + 2) stat) in if length fs < 2 then 0 else (case Atoi (fs ! 1) of None \<Rightarrow> 0 | Some n \<Rightarrow> n)))"

definition PIDFromProcPath :: "string \<Rightarrow> int option" where
  "PIDFromProcPath path = (let parts = split_on CHR ''/'' (filepath_Clean path) in
     if length parts \<noteq> 5 \<or> parts ! 1 \<noteq> ''proc'' \<or> parts ! 3 \<noteq> ''ns'' then None
     else (case Atoi (parts ! 2) of None \<Rightarrow> None | Some n \<Rightarrow> if n \<le> 0 then None else Some n))"

text \<open>Entries of \<open>/proc\<close>, as listed and read by the scan for a child process.\<close>

record proc_env =
  pv_read :: "string \<Rightarrow> string res"
  pv_list :: "(string \<times> bool) list res"

fun first_positive :: "string list \<Rightarrow> int option" where
  "first_positive [] = None"
| "first_positive (f # fs) = (case Atoi f of Some n \<Rightarrow> if n > 0 then Some n else first_positive fs | None \<Rightarrow> first_positive fs)"

definition FirstChildPID :: "proc_env \<Rightarrow> int \<Rightarrow> int option" where
  "FirstChildPID env parent = (case pv_read env (''/proc/'' @ itoa parent @ ''/task/'' @ itoa parent @ ''/children'') of
     Inl _ \<Rightarrow> None | Inr s \<Rightarrow> first_positive (Fields s))"

fun scan_children :: "proc_env \<Rightarrow> int \<Rightarrow> (string \<times> bool) list \<Rightarrow> int option" where
  "scan_children env parent [] = None"
| "scan_children env parent ((name, isDir) # es) =
     (if \<not> isDir then scan_children env parent es
      else case Atoi name of
        None \<Rightarrow> scan_children env parent es
      | Some n \<Rightarrow> if n \<le> 0 then scan_children env parent es
          else (case pv_read env (filepath_Join [''/proc'', name, ''stat'']) of
            Inl _ \<Rightarrow> scan_children env parent es
          | Inr stat \<Rightarrow> if ProcStatPPID stat = parent then Some n else scan_children env parent es))"

definition ScanFirstChildPID :: "proc_env \<Rightarrow> int \<Rightarrow> int option" where
  "ScanFirstChildPID env parent = (case pv_list env of Inl _ \<Rightarrow> None | Inr es \<Rightarrow> scan_children env parent es)"

text \<open>\<open>filepath.Base\<close>.\<close>

definition filepath_Base :: "string \<Rightarrow> string" where
  "filepath_Base p = (if p = [] then dot
     else case filter (\<lambda>e. e \<noteq> []) (split_on CHR ''/'' p) of [] \<Rightarrow> ''/'' | es \<Rightarrow> last es)"

definition ResolvePIDPath :: "proc_env \<Rightarrow> string \<Rightarrow> string" where
  "ResolvePIDPath env path =
     (if filepath_Base path \<noteq> ''pid_for_children'' then path
      else case PIDFromProcPath path of
        None \<Rightarrow> path
      | Some parent \<Rightarrow> (case FirstChildPID env parent of
          Some child \<Rightarrow> ''/proc/'' @ itoa child @ ''/ns/pid''
        | None \<Rightarrow> (case ScanFirstChildPID env parent of Some child \<Rightarrow> ''/proc/'' @ itoa child @ ''/ns/pid'' | None \<Rightarrow> path)))"

definition PathNsenterArgs :: "proc_env \<Rightarrow> Spec \<Rightarrow> string list" where
  "PathNsenterArgs env s = (let c = BuildConfig s; arg = (\<lambda>flag path. if path \<noteq> [] then [flag @ path] else []) in
     arg ''--cgroup='' (nx_cgroupPath c) @ arg ''--ipc='' (nx_ipcPath c) @ arg ''--mount='' (nx_mountPath c) @ arg ''--net='' (nx_networkPath c) @
     (if nx_pidPath c \<noteq> [] then [''--pid='' @ ResolvePIDPath env (nx_pidPath c)] else []) @ arg ''--uts='' (nx_utsPath c) @
     (if nx_userPath c \<noteq> [] then [''--user='' @ nx_userPath c, ''--setuid=0'', ''--setgid=0''] else []))"

text \<open>\<open>JoinExisting\<close>: opens and joins the targets one after another, stopping at the first error.\<close>

fun join_all :: "(string \<Rightarrow> unit res) \<Rightarrow> (string \<Rightarrow> 64 word \<Rightarrow> unit res) \<Rightarrow> JoinTarget list \<Rightarrow> unit res \<times> JoinTarget list" where
  "join_all opn setns [] = (Inr (), [])"
| "join_all opn setns (t # ts) =
     (case opn (jt_path t) of
        Inl e \<Rightarrow> (Inl (wrap (''open '' @ jt_name t @ '' namespace'') e), [])
      | Inr _ \<Rightarrow> (case setns (jt_path t) (jt_nstype t) of
          Inl e \<Rightarrow> (Inl (wrap (''setns '' @ jt_name t) e), [])
        | Inr _ \<Rightarrow> (case join_all opn setns ts of (r, done) \<Rightarrow> (r, t # done))))"

definition JoinExisting :: "(string \<Rightarrow> unit res) \<Rightarrow> (string \<Rightarrow> 64 word \<Rightarrow> unit res) \<Rightarrow> Spec \<Rightarrow> unit res \<times> JoinTarget list" where
  "JoinExisting opn setns s = join_all opn setns (BuildJoinTargets s)"

section \<open>What the kernel makes of it\<close>

text \<open>An id map as the kernel reads it: the first extent that holds an id of the namespace gives its id on the host.\<close>

fun kernel_id :: "IDMappingObject list \<Rightarrow> int \<Rightarrow> int option" where
  "kernel_id [] i = None"
| "kernel_id (m # ms) i = (if im_ContainerID m \<le> i \<and> i < im_ContainerID m + im_Size m then Some (im_HostID m + (i - im_ContainerID m)) else kernel_id ms i)"

definition of_res :: "'a res \<Rightarrow> 'a option" where
  "of_res r = (case r of Inl _ \<Rightarrow> None | Inr x \<Rightarrow> Some x)"

lemma of_res_simps [simp]: "of_res (Inl e) = None" "of_res (Inr x) = Some x"
  by (simp_all add: of_res_def)

lemma envInt_positive: "0 < d \<Longrightarrow> 0 < envInt env name d"
  by (simp add: envInt_def Let_def split: option.splits)

lemma policy_of_config:
  "pl_mode (IDMapPolicyFromConfig env cfg) = ModeOrDefault (rc_Mode cfg)"
  "0 < pl_mapSize (IDMapPolicyFromConfig env cfg)" "0 < pl_uidBase (IDMapPolicyFromConfig env cfg)" "0 < pl_gidBase (IDMapPolicyFromConfig env cfg)"
  by (auto simp: IDMapPolicyFromConfig_def rootlessIDMapConfig_def Let_def envInt_positive)

text \<open>The host ids of an extent fit into the integers of the code.\<close>

definition extent_fits :: "IDMappingObject \<Rightarrow> bool" where
  "extent_fits m \<longleftrightarrow> im_HostID m + im_Size m \<le> 2 ^ 63"

lemma int64_id: "- (2 ^ 63) \<le> x \<Longrightarrow> x < 2 ^ 63 \<Longrightarrow> int64 x = x"
  by (simp add: int64_def)

lemma int64_pred: "int64 (int64 x - 1) = int64 (x - 1)"
proof -
  have "(int64 x - 1 + 2 ^ 63) mod 2 ^ 64 = ((x + 2 ^ 63) mod 2 ^ 64 - 1) mod 2 ^ 64" by (simp add: int64_def)
  also have "\<dots> = (x + 2 ^ 63 - 1) mod 2 ^ 64" by (rule mod_diff_left_eq)
  finally show ?thesis by (simp add: int64_def algebra_simps)
qed

lemma kernel_id_rootless:
  assumes "nx_user c" "BuildRootlessUserNamespaceIDMap env c cfg = (u, g)"
  shows "list_all extent_fits u \<Longrightarrow> kernel_id u i = of_res (MapUID (IDMapPolicyFromConfig env cfg) path i)"
    and "list_all extent_fits g \<Longrightarrow> kernel_id g i = of_res (MapGID (IDMapPolicyFromConfig env cfg) path i)"
  using assms policy_of_config(2-4) [of env cfg]
  by (auto simp: BuildRootlessUserNamespaceIDMap_def Let_def MapUID_def MapGID_def int64_pred int64_id extent_fits_def split: if_splits)


definition ex_id_env :: id_env where
  "ex_id_env = \<lparr>ie_getenv = (\<lambda>_. []), ie_uid = 1000, ie_gid = 1000,
     ie_self_map = Inr ''0 0 4294967295'', ie_init_map = Inr ''0 0 4294967295'', ie_decode = (\<lambda>_. Inl (Msg ''invalid''))\<rparr>"


text \<open>What a list of namespaces asks for one type: whether it is to be created, and the path of the one to join.\<close>

definition wanted_path :: "string \<Rightarrow> NamespaceObject list \<Rightarrow> string" where
  "wanted_path t nss = (let ps = filter (\<lambda>p. p \<noteq> []) (map no_Path (filter (\<lambda>ns. no_Type ns = t) nss)) in if ps = [] then [] else last ps)"

definition wanted_new :: "string \<Rightarrow> NamespaceObject list \<Rightarrow> bool" where
  "wanted_new t nss \<longleftrightarrow> t \<in> no_Type ` set nss \<and> wanted_path t nss = []"

definition ns_flag :: "string \<Rightarrow> NsConfig \<Rightarrow> bool" where
  "ns_flag t c = (if t = ''mount'' then nx_mount c else if t = ''network'' then nx_network c else if t = ''uts'' then nx_uts c else if t = ''pid'' then nx_pid c
     else if t = ''ipc'' then nx_ipc c else if t = ''user'' then nx_user c else if t = ''cgroup'' then nx_cgroup c else nx_time c)"

definition ns_path :: "string \<Rightarrow> NsConfig \<Rightarrow> string" where
  "ns_path t c = (if t = ''mount'' then nx_mountPath c else if t = ''network'' then nx_networkPath c else if t = ''uts'' then nx_utsPath c
     else if t = ''pid'' then nx_pidPath c else if t = ''ipc'' then nx_ipcPath c else if t = ''user'' then nx_userPath c
     else if t = ''cgroup'' then nx_cgroupPath c else nx_timePath c)"

lemma add_namespace_other: "no_Type ns \<notin> set namespace_types \<Longrightarrow> add_namespace ns c = c"
  by (simp add: namespace_types_def add_namespace_def Let_def)

lemma ns_view_add:
  assumes "t \<in> set namespace_types"
  shows "ns_path t (add_namespace ns c) = (if no_Type ns = t \<and> no_Path ns \<noteq> [] then no_Path ns else ns_path t c)"
    and "ns_flag t (add_namespace ns c) = (if no_Type ns \<noteq> t then ns_flag t c else if no_Path ns \<noteq> [] then False else ns_path t c = [] \<or> ns_flag t c)"
proof -
  have "ns_path t (add_namespace ns c) = (if no_Type ns = t \<and> no_Path ns \<noteq> [] then no_Path ns else ns_path t c) \<and>
    ns_flag t (add_namespace ns c) = (if no_Type ns \<noteq> t then ns_flag t c else if no_Path ns \<noteq> [] then False else ns_path t c = [] \<or> ns_flag t c)"
  proof (cases "no_Type ns \<in> set namespace_types")
    case False
    with assms have "no_Type ns \<noteq> t" by blast
    then show ?thesis by (simp add: add_namespace_other [OF False])
  next
    case True
    obtain ty pa where ns: "ns = \<lparr>no_Type = ty, no_Path = pa\<rparr>" by (cases ns) auto
    from True have "ty \<in> set namespace_types" by (simp add: ns)
    with assms show ?thesis
      unfolding ns namespace_types_def set_simps insert_iff empty_iff simp_thms
      by (elim disjE; hypsubst; simp add: add_namespace_def ns_path_def ns_flag_def)
  qed
  then show "ns_path t (add_namespace ns c) = (if no_Type ns = t \<and> no_Path ns \<noteq> [] then no_Path ns else ns_path t c)"
    "ns_flag t (add_namespace ns c) = (if no_Type ns \<noteq> t then ns_flag t c else if no_Path ns \<noteq> [] then False else ns_path t c = [] \<or> ns_flag t c)"
    by blast+
qed

lemma wanted_snoc:
  "wanted_path t (nss @ [ns]) = (if no_Type ns = t \<and> no_Path ns \<noteq> [] then no_Path ns else wanted_path t nss)"
  "wanted_new t (nss @ [ns]) = (if no_Type ns \<noteq> t then wanted_new t nss else no_Path ns = [] \<and> wanted_path t nss = [])"
  by (auto simp: wanted_path_def wanted_new_def Let_def)

lemma BuildConfig_view:
  assumes "t \<in> set namespace_types"
  shows "ns_path t (fold add_namespace nss no_namespaces) = wanted_path t nss \<and> ns_flag t (fold add_namespace nss no_namespaces) = wanted_new t nss"
proof (induction nss rule: rev_induct)
  case Nil
  show ?case by (simp add: wanted_path_def wanted_new_def ns_path_def ns_flag_def no_namespaces_def)
next
  case (snoc ns nss)
  have "wanted_new t nss \<longrightarrow> wanted_path t nss = []" by (simp add: wanted_new_def)
  with snoc show ?case by (auto simp: ns_view_add [OF assms] wanted_snoc)
qed

text \<open>The clone flag of a type of namespace.\<close>

definition ns_clone :: "string \<Rightarrow> 64 word" where
  "ns_clone t = (if t = ''mount'' then CLONE_NEWNS else if t = ''network'' then CLONE_NEWNET else if t = ''uts'' then CLONE_NEWUTS
     else if t = ''pid'' then CLONE_NEWPID else if t = ''ipc'' then CLONE_NEWIPC else if t = ''user'' then CLONE_NEWUSER
     else if t = ''cgroup'' then CLONE_NEWCGROUP else 0)"

definition cloned_types :: "string list" where
  "cloned_types = [''mount'', ''network'', ''uts'', ''pid'', ''ipc'', ''user'', ''cgroup'']"

definition joined_types :: "string list" where
  "joined_types = [''mount'', ''cgroup'', ''network'', ''ipc'', ''uts'']"

lemmas clone_defs = CLONE_NEWNS_def CLONE_NEWCGROUP_def CLONE_NEWUTS_def CLONE_NEWIPC_def CLONE_NEWUSER_def CLONE_NEWPID_def CLONE_NEWNET_def

lemma clone_flag_iff:
  assumes "t \<in> set cloned_types"
  shows "BuildCloneFlags c AND ns_clone t \<noteq> 0 \<longleftrightarrow> ns_flag t c"
  using assms unfolding cloned_types_def set_simps insert_iff empty_iff simp_thms
  by (elim disjE; hypsubst; simp add: BuildCloneFlags_def ns_clone_def ns_flag_def clone_defs bit.conj_disj_distrib2)

lemma join_targets_are:
  "BuildJoinTargets s = concat (map (\<lambda>t. join_target t (ns_path t (BuildConfig s)) (ns_clone t)) joined_types)"
  by (simp add: BuildJoinTargets_def Let_def joined_types_def ns_path_def ns_clone_def)

lemma ns_clone_inj: "t \<in> set joined_types \<Longrightarrow> t' \<in> set joined_types \<Longrightarrow> ns_clone t = ns_clone t' \<Longrightarrow> t = t'"
  unfolding joined_types_def set_simps insert_iff empty_iff simp_thms
  by (elim disjE; hypsubst; simp add: ns_clone_def clone_defs)

lemma join_targets_of:
  assumes "t \<in> set joined_types"
  shows "{j \<in> set (BuildJoinTargets s). jt_nstype j = ns_clone t} = set (join_target t (ns_path t (BuildConfig s)) (ns_clone t))"
proof -
  have "jt_nstype j = n" if "j \<in> set (join_target u p n)" for j u p n
    using that by (simp add: join_target_def split: if_splits)
  then show ?thesis using assms ns_clone_inj by (fastforce simp: join_targets_are)
qed

lemma join_all_ok: "join_all opn setns ts = (Inr (), done) \<Longrightarrow> done = ts"
  by (induction ts arbitrary: "done") (auto split: sum.splits prod.splits)

lemma clone_flags_of_container: "pa_cloneFlags (BuildProcAttrForContainer env s) = BuildCloneFlags (BuildConfig s)"
  by (simp add: BuildProcAttrForContainer_def BuildProcAttrForRootContainer_def Let_def split: prod.split option.split)

lemma namespace_view:
  assumes "t \<in> set namespace_types"
  shows "ns_path t (BuildConfig s) = wanted_path t (ls_Namespaces (sp_LinuxSpec s))"
    and "ns_flag t (BuildConfig s) = wanted_new t (ls_Namespaces (sp_LinuxSpec s))"
  using BuildConfig_view [OF assms] by (simp_all add: BuildConfig_def)

text \<open>The option of \<open>nsenter\<close> that joins a namespace of a type at a path; a user namespace comes with the switch to its root.\<close>

definition nsenter_options :: "proc_env \<Rightarrow> string \<Rightarrow> string \<Rightarrow> string list" where
  "nsenter_options env t path =
     (if path = [] then []
      else if t = ''cgroup'' then [''--cgroup='' @ path] else if t = ''ipc'' then [''--ipc='' @ path] else if t = ''mount'' then [''--mount='' @ path]
      else if t = ''network'' then [''--net='' @ path] else if t = ''pid'' then [''--pid='' @ ResolvePIDPath env path] else if t = ''uts'' then [''--uts='' @ path]
      else [''--user='' @ path, ''--setuid=0'', ''--setgid=0''])"

definition nsenter_types :: "string list" where
  "nsenter_types = [''cgroup'', ''ipc'', ''mount'', ''network'', ''pid'', ''uts'', ''user'']"

lemma nsenter_args_are:
  "PathNsenterArgs penv s = concat (map (\<lambda>t. nsenter_options penv t (wanted_path t (ls_Namespaces (sp_LinuxSpec s)))) nsenter_types)"
proof -
  have "nsenter_options penv t (wanted_path t (ls_Namespaces (sp_LinuxSpec s))) = nsenter_options penv t (ns_path t (BuildConfig s))"
    if "t \<in> set nsenter_types" for t
  proof -
    have "t \<in> set namespace_types" using that by (auto simp: nsenter_types_def namespace_types_def)
    then show ?thesis by (simp add: namespace_view(1))
  qed
  then have "map (\<lambda>t. nsenter_options penv t (wanted_path t (ls_Namespaces (sp_LinuxSpec s)))) nsenter_types =
      map (\<lambda>t. nsenter_options penv t (ns_path t (BuildConfig s))) nsenter_types" by (simp only: map_eq_conv) blast
  then show ?thesis
    by (simp add: PathNsenterArgs_def Let_def nsenter_types_def nsenter_options_def ns_path_def)
qed

lemma clone_flags_are: "BuildCloneFlags c = foldr (\<lambda>t f. (if ns_flag t c then ns_clone t else 0) OR f) cloned_types 0"
  by (simp add: BuildCloneFlags_def cloned_types_def ns_flag_def ns_clone_def or.assoc)

lemma wanted_clone_flags:
  "BuildCloneFlags (BuildConfig s) = foldr (\<lambda>t f. (if wanted_new t (ls_Namespaces (sp_LinuxSpec s)) then ns_clone t else 0) OR f) cloned_types 0"
proof -
  have "ns_flag t (BuildConfig s) = wanted_new t (ls_Namespaces (sp_LinuxSpec s))" if "t \<in> set cloned_types" for t
    using that by (intro namespace_view(2)) (auto simp: cloned_types_def namespace_types_def)
  then show ?thesis unfolding clone_flags_are by (intro foldr_cong) simp_all
qed

text \<open>Property C38. The namespaces of a specification are applied exactly, but for those of type \<open>time\<close>.  For each of the seven types that can be
  created (mount, network, uts, pid, ipc, user, cgroup) the attributes of the init process carry the clone flag of the type iff the specification
  lists the type and no entry of it has a path, and they carry no other flag.  A listed type that has a path is joined at the last path given for it
  instead: the types mount, cgroup, network, ipc and uts by one target each of \<open>JoinExisting\<close>, which joins them all when it succeeds; these five and
  also pid and user by the options that are given to \<open>nsenter\<close>, which are exactly the options of the seven paths, the pid one resolved to a child of
  the process it names.  So each of the seven types that is listed is either created or has a path to be joined, never both, and one that is not listed
  is shared with the host.  A namespace of type \<open>time\<close> is accepted but neither created nor joined.\<close>

theorem namespaces_applied:
  fixes s :: Spec and env :: id_env and penv :: proc_env
  assumes "t \<in> set cloned_types"
  defines "nss \<equiv> ls_Namespaces (sp_LinuxSpec s)" and "flags \<equiv> pa_cloneFlags (BuildProcAttrForContainer env s)"
  shows "(flags AND ns_clone t \<noteq> 0 \<longleftrightarrow> wanted_new t nss) \<and>
    flags = foldr (\<lambda>u f. (if wanted_new u nss then ns_clone u else 0) OR f) cloned_types 0 \<and>
    (t \<in> no_Type ` set nss \<longleftrightarrow> (flags AND ns_clone t \<noteq> 0) \<noteq> (wanted_path t nss \<noteq> [])) \<and>
    (t \<in> set joined_types \<longrightarrow>
      {j \<in> set (BuildJoinTargets s). jt_nstype j = ns_clone t} =
        (if wanted_path t nss = [] then {} else {\<lparr>jt_name = t, jt_path = wanted_path t nss, jt_nstype = ns_clone t\<rparr>}) \<and>
      (t \<in> no_Type ` set nss \<longleftrightarrow> (flags AND ns_clone t \<noteq> 0) \<noteq> (\<exists>j \<in> set (BuildJoinTargets s). jt_nstype j = ns_clone t))) \<and>
    length (BuildJoinTargets s) = length (filter (\<lambda>u. wanted_path u nss \<noteq> []) joined_types) \<and>
    PathNsenterArgs penv s = concat (map (\<lambda>u. nsenter_options penv u (wanted_path u nss)) nsenter_types) \<and>
    UserNamespacePath s = wanted_path ''user'' nss \<and>
    (fst (JoinExisting opn setns s) = Inr () \<longrightarrow> snd (JoinExisting opn setns s) = BuildJoinTargets s)"
proof -
  have t: "t \<in> set namespace_types" using assms(1) by (auto simp: cloned_types_def namespace_types_def)
  have flags: "flags = BuildCloneFlags (BuildConfig s)" by (simp add: flags_def clone_flags_of_container)
  have clone: "flags AND ns_clone t \<noteq> 0 \<longleftrightarrow> wanted_new t nss"
    using clone_flag_iff [OF assms(1)] namespace_view(2) [OF t] by (simp add: flags nss_def)
  have all: "flags = foldr (\<lambda>u f. (if wanted_new u nss then ns_clone u else 0) OR f) cloned_types 0"
    by (simp only: flags nss_def wanted_clone_flags)
  have targets: "{j \<in> set (BuildJoinTargets s). jt_nstype j = ns_clone t} =
      (if wanted_path t nss = [] then {} else {\<lparr>jt_name = t, jt_path = wanted_path t nss, jt_nstype = ns_clone t\<rparr>})" if "t \<in> set joined_types"
    using join_targets_of [OF that] namespace_view(1) [OF t] by (simp add: join_target_def nss_def)
  have number: "length (BuildJoinTargets s) = length (filter (\<lambda>u. wanted_path u nss \<noteq> []) joined_types)"
    by (simp add: join_targets_are joined_types_def join_target_def namespace_view(1) namespace_types_def nss_def)
  have "wanted_path t nss \<noteq> [] \<longrightarrow> t \<in> no_Type ` set nss" by (auto simp: wanted_path_def Let_def filter_empty_conv)
  then have listed: "t \<in> no_Type ` set nss \<longleftrightarrow> wanted_new t nss \<noteq> (wanted_path t nss \<noteq> [])" by (auto simp: wanted_new_def)
  have joined: "(\<exists>j \<in> set (BuildJoinTargets s). jt_nstype j = ns_clone t) \<longleftrightarrow> wanted_path t nss \<noteq> []" if "t \<in> set joined_types"
    using targets [OF that] by (auto split: if_splits)
  have user: "UserNamespacePath s = wanted_path ''user'' nss"
    using namespace_view(1) [of "''user''" s] by (simp add: UserNamespacePath_def ns_path_def nss_def namespace_types_def)
  have "fst (JoinExisting opn setns s) = Inr () \<longrightarrow> snd (JoinExisting opn setns s) = BuildJoinTargets s"
    using join_all_ok by (metis JoinExisting_def prod.collapse)
  then show ?thesis
    using clone all targets listed joined number user nsenter_args_are [of penv s, folded nss_def] by (intro conjI) simp_all
qed

text \<open>A container of a pod joins the network namespace of the pod and gets new mount and pid namespaces.\<close>

definition ex_pod_namespaces :: "NamespaceObject list" where
  "ex_pod_namespaces = [\<lparr>no_Type = ''mount'', no_Path = []\<rparr>, \<lparr>no_Type = ''pid'', no_Path = []\<rparr>, \<lparr>no_Type = ''network'', no_Path = ''/proc/7/ns/net''\<rparr>]"

theorem namespaces_applied_witness:
  "let d = projr (buildSpec ex_config_env ex_options); s = d\<lparr>sp_LinuxSpec := (sp_LinuxSpec d)\<lparr>ls_Namespaces := ex_pod_namespaces\<rparr>\<rparr>
   in pa_cloneFlags (BuildProcAttrForContainer ex_id_env s) AND CLONE_NEWNET = 0 \<and>
     {j \<in> set (BuildJoinTargets s). jt_nstype j = CLONE_NEWNET} = {\<lparr>jt_name = ''network'', jt_path = ''/proc/7/ns/net'', jt_nstype = CLONE_NEWNET\<rparr>}"
proof -
  have n: "''network'' \<in> set cloned_types" "''network'' \<in> set joined_types" "ns_clone ''network'' = CLONE_NEWNET"
    by (simp_all add: cloned_types_def joined_types_def ns_clone_def)
  have w: "wanted_path ''network'' ex_pod_namespaces = ''/proc/7/ns/net''" "\<not> wanted_new ''network'' ex_pod_namespaces"
    by (simp_all add: wanted_path_def wanted_new_def ex_pod_namespaces_def)
  define d where "d = projr (buildSpec ex_config_env ex_options)"
  define s where "s = d\<lparr>sp_LinuxSpec := (sp_LinuxSpec d)\<lparr>ls_Namespaces := ex_pod_namespaces\<rparr>\<rparr>"
  have "ls_Namespaces (sp_LinuxSpec s) = ex_pod_namespaces" by (simp add: s_def)
  then have "pa_cloneFlags (BuildProcAttrForContainer ex_id_env s) AND CLONE_NEWNET = 0 \<and>
     {j \<in> set (BuildJoinTargets s). jt_nstype j = CLONE_NEWNET} = {\<lparr>jt_name = ''network'', jt_path = ''/proc/7/ns/net'', jt_nstype = CLONE_NEWNET\<rparr>}"
    using conjunct1 [OF namespaces_applied [OF n(1), of ex_id_env s undefined opn setns]]
      conjunct1 [OF conjunct2 [OF conjunct2 [OF conjunct2 [OF namespaces_applied [OF n(1), of ex_id_env s undefined opn setns]]]]] n w by simp
  then show ?thesis by (simp add: s_def d_def Let_def)
qed

end
