(* ===== verification/Call_Trace.thy ===== *)
theory Call_Trace
  imports Raind_Prelude "HOL-Library.Sublist"
begin

text \<open>
  Programs that are judged by the calls they make: a run extends a trace of calls, each with whether it succeeded, and the answer to a call is an
  arbitrary function of the calls before it.  \<open>emits\<close> bounds the calls of every run, \<open>ensures\<close> says what the calls of a
  successful run include.
\<close>

section \<open>Programs that call\<close>

text \<open>A call and whether it succeeded.\<close>

type_synonym 'c call_trace = "('c \<times> bool) list"

definition query :: "('c call_trace \<Rightarrow> 'c \<Rightarrow> 'a res) \<Rightarrow> 'c \<Rightarrow> 'c call_trace \<Rightarrow> 'a res \<times> 'c call_trace" where
  "query get c tr = (get tr c, tr @ [(c, is_ok (get tr c))])"

text \<open>A call whose result is looked at, whatever it is.\<close>

definition then_do :: "('w \<Rightarrow> 'a \<times> 'w) \<Rightarrow> ('a \<Rightarrow> 'w \<Rightarrow> 'b \<times> 'w) \<Rightarrow> 'w \<Rightarrow> 'b \<times> 'w" where
  "then_do f g w = (case f w of (r, w') \<Rightarrow> g r w')"

text \<open>Steps one after another, up to the first error.\<close>

fun steps :: "('w \<Rightarrow> unit res \<times> 'w) list \<Rightarrow> 'w \<Rightarrow> unit res \<times> 'w" where
  "steps [] = Pair (Inr ())"
| "steps (f # fs) = and_then f (\<lambda>_. steps fs)"

definition done_if :: "bool \<Rightarrow> ('w \<Rightarrow> unit res \<times> 'w) \<Rightarrow> 'w \<Rightarrow> unit res \<times> 'w" where
  "done_if b f = (if b then Pair (Inr ()) else f)"

section \<open>Properties of runs\<close>

text \<open>Every call that is made satisfies a predicate, and the trace only grows.\<close>

definition emits :: "('c \<Rightarrow> bool) \<Rightarrow> ('c call_trace \<Rightarrow> 'a \<times> 'c call_trace) \<Rightarrow> bool" where
  "emits P f \<longleftrightarrow> (\<forall>tr. \<exists>evs. snd (f tr) = tr @ evs \<and> list_all (\<lambda>e. P (fst e)) evs)"

text \<open>What the calls of a successful run have done.\<close>

definition ensures :: "('c call_trace \<Rightarrow> bool) \<Rightarrow> ('c call_trace \<Rightarrow> 'a res \<times> 'c call_trace) \<Rightarrow> bool" where
  "ensures Q f \<longleftrightarrow> (\<forall>tr a tr'. f tr = (Inr a, tr') \<longrightarrow> (\<exists>evs. tr' = tr @ evs \<and> Q evs))"

definition ok_calls :: "'c call_trace \<Rightarrow> 'c list" where
  "ok_calls evs = map fst (filter snd evs)"

definition performs :: "'c list \<Rightarrow> 'c call_trace \<Rightarrow> bool" where
  "performs cs evs \<longleftrightarrow> subseq cs (ok_calls evs)"

lemma ok_calls_simps [simp]: "ok_calls [] = []" "ok_calls ((c, b) # evs) = (if b then c # ok_calls evs else ok_calls evs)"
  "ok_calls (xs @ ys) = ok_calls xs @ ok_calls ys"
  by (simp_all add: ok_calls_def)

lemma performs_append: "performs cs xs \<Longrightarrow> performs ds ys \<Longrightarrow> performs (cs @ ds) (xs @ ys)"
  by (simp add: performs_def list_emb_append_mono)

lemma performs_within: "performs cs b \<Longrightarrow> performs cs (a @ b @ c)"
  by (simp add: performs_def subseq_drop_many list_emb_append2 subseq_rev_drop_many)

named_theorems emits_intro

lemma emits_after:
  assumes "emits P f" "\<And>tr r tr1. f tr = (r, tr1) \<Longrightarrow> \<exists>g. emits P g \<and> h tr = g tr1"
  shows "emits P h"
  unfolding emits_def
proof
  fix tr
  obtain r tr1 where f: "f tr = (r, tr1)" by (cases "f tr")
  obtain e1 where "tr1 = tr @ e1" "list_all (\<lambda>e. P (fst e)) e1"
    using assms(1) f unfolding emits_def by (metis snd_conv)
  moreover obtain g where "emits P g" "h tr = g tr1" using assms(2) [OF f] by blast
  moreover from this obtain e2 where "snd (g tr1) = tr1 @ e2" "list_all (\<lambda>e. P (fst e)) e2"
    unfolding emits_def by blast
  ultimately show "\<exists>evs. snd (h tr) = tr @ evs \<and> list_all (\<lambda>e. P (fst e)) evs" by auto
qed

lemma emits_Pair [emits_intro]: "emits P (Pair x)"
  by (simp add: emits_def)

lemma emits_query [emits_intro]: "P c \<Longrightarrow> emits P (query get c)"
  by (simp add: emits_def query_def)

lemma emits_then_do [emits_intro]: "emits P f \<Longrightarrow> (\<And>a. emits P (g a)) \<Longrightarrow> emits P (then_do f g)"
  by (erule emits_after) (auto simp: then_do_def intro!: exI [of _ "g _"])

lemma emits_and_then [emits_intro]: "emits P f \<Longrightarrow> (\<And>a. emits P (g a)) \<Longrightarrow> emits P (and_then f g)"
  by (erule emits_after) (auto simp: and_then_def intro: emits_Pair split: sum.splits)

lemma emits_map:
  assumes "emits P f" "\<And>tr r tr1. f tr = (r, tr1) \<Longrightarrow> \<exists>x. h tr = (x, tr1)"
  shows "emits P h"
proof (rule emits_after [OF assms(1)])
  fix tr r tr1
  assume "f tr = (r, tr1)"
  then obtain x where "h tr = Pair x tr1" using assms(2) by blast
  then show "\<exists>g. emits P g \<and> h tr = g tr1" by (intro exI [of _ "Pair x"]) (simp add: emits_Pair)
qed

lemma emits_void [emits_intro]: "emits P f \<Longrightarrow> emits P (void f)"
  by (erule emits_map) (auto simp: void_def)

lemma emits_wrapped [emits_intro]: "emits P f \<Longrightarrow> emits P (wrapped pre f)"
  by (erule emits_map) (auto simp: wrapped_def split: sum.split)

lemma emits_tolerate [emits_intro]: "emits P f \<Longrightarrow> emits P (tolerate p f)"
  by (erule emits_map) (auto simp: tolerate_def split: sum.split)

lemma emits_ignore [emits_intro]: "emits P f \<Longrightarrow> emits P (\<lambda>tr. (x, ignore f tr))"
  by (erule emits_map) (auto simp: ignore_def)

lemma emits_and_then_Pair: "(\<And>a. r = Inr a \<Longrightarrow> emits P (g a)) \<Longrightarrow> emits P (and_then (Pair r) g)"
  by (cases r) (auto simp: emits_def and_then_def)

lemma emits_done_if [emits_intro]: "(\<not> b \<Longrightarrow> emits P f) \<Longrightarrow> emits P (done_if b f)"
  by (simp add: done_if_def emits_Pair)

lemma emits_steps [emits_intro]: "list_all (emits P) fs \<Longrightarrow> emits P (steps fs)"
  by (induction fs) (auto intro: emits_intro)

section \<open>What a successful run has done\<close>

named_theorems ensures_intro

lemma ensures_mono: "ensures Q f \<Longrightarrow> (\<And>evs. Q evs \<Longrightarrow> R evs) \<Longrightarrow> ensures R f"
  unfolding ensures_def by blast

lemma ensures_Pair: "Q [] \<Longrightarrow> ensures Q (Pair r)"
  by (simp add: ensures_def)

lemma ensures_wrapped: "ensures Q f \<Longrightarrow> ensures Q (wrapped pre f)"
  by (simp add: ensures_def wrapped_def split: prod.splits sum.splits)

lemma ensures_and_then:
  assumes "ensures Q f" "\<And>a. ensures R (g a)"
  shows "ensures (\<lambda>evs. \<exists>xs ys. evs = xs @ ys \<and> Q xs \<and> R ys) (and_then f g)"
  unfolding ensures_def
proof (intro allI impI)
  fix tr b tr'
  assume "and_then f g tr = (Inr b, tr')"
  then obtain a tr1 where "f tr = (Inr a, tr1)" "g a tr1 = (Inr b, tr')" by (auto simp: and_then_Inr)
  then obtain xs ys where "tr1 = tr @ xs" "Q xs" "tr' = tr1 @ ys" "R ys" using assms unfolding ensures_def by blast
  then show "\<exists>evs. tr' = tr @ evs \<and> (\<exists>xs ys. evs = xs @ ys \<and> Q xs \<and> R ys)" by auto
qed

lemma performs_nil: "emits P f \<Longrightarrow> ensures (performs []) f"
  unfolding ensures_def emits_def performs_def by (metis snd_conv list_emb_Nil)

lemma performs_wrapped [ensures_intro]: "ensures (performs cs) f \<Longrightarrow> ensures (performs cs) (wrapped pre f)"
  by (rule ensures_wrapped)

lemma performs_and_then:
  assumes "ensures (performs cs) f" "\<And>a. ensures (performs ds) (g a)"
  shows "ensures (performs (cs @ ds)) (and_then f g)"
  using ensures_and_then [OF assms] by (rule ensures_mono) (auto intro: performs_append)

lemma performs_done_if [ensures_intro]: "ensures (performs cs) f \<Longrightarrow> ensures (performs (if b then [] else cs)) (done_if b f)"
  by (simp add: done_if_def ensures_def performs_def)

lemma performs_steps: "list_all2 (\<lambda>cs f. ensures (performs cs) f) css fs \<Longrightarrow> ensures (performs (concat css)) (steps fs)"
proof (induction rule: list_all2_induct)
  case Nil
  show ?case by (simp add: ensures_def performs_def)
next
  case (Cons cs f css fs)
  then show ?case by (auto intro: performs_and_then)
qed

lemma performs_sub: "subseq cs ds \<Longrightarrow> performs ds evs \<Longrightarrow> performs cs evs"
  unfolding performs_def by (rule subseq_order.trans)

lemma performs_weaken: "subseq cs ds \<Longrightarrow> ensures (performs ds) f \<Longrightarrow> ensures (performs cs) f"
  by (erule ensures_mono) (auto simp: performs_def intro: subseq_order.trans)

lemma performs_prefix: "ensures (performs (cs @ ds)) f \<Longrightarrow> ensures (performs cs) f"
  by (erule ensures_mono) (auto simp: performs_def dest: list_emb_appendD elim: subseq_order.trans [rotated])

lemma ensuresD: "ensures Q f \<Longrightarrow> f tr = (Inr a, tr') \<Longrightarrow> \<exists>evs. tr' = tr @ evs \<and> Q evs"
  unfolding ensures_def by blast

lemma emits_grows: "emits P f \<Longrightarrow> f tr = (r, tr') \<Longrightarrow> \<exists>evs. tr' = tr @ evs \<and> list_all (\<lambda>e. P (fst e)) evs"
  unfolding emits_def by (metis snd_conv)

lemma ensures_member:
  assumes "f \<in> set fs" "ensures Q f" "list_all (emits P) fs" "\<And>a b c. Q b \<Longrightarrow> Q (a @ b @ c)"
  shows "ensures Q (steps fs)"
  using assms(1,3)
proof (induction fs)
  case (Cons g fs)
  show ?case
  proof (cases "f = g")
    case True
    have "emits P (steps fs)" using Cons.prems(2) by (auto intro: emits_steps)
    then have "ensures (\<lambda>_. True) (steps fs)" unfolding ensures_def by (metis emits_grows)
    from ensures_and_then [OF assms(2) this] have "ensures (\<lambda>evs. \<exists>xs ys. evs = xs @ ys \<and> Q xs) (steps (g # fs))" using True by simp
    then show ?thesis by (rule ensures_mono) (use assms(4) [of _ "[]"] in auto)
  next
    case False
    then have "ensures Q (steps fs)" using Cons by simp
    moreover have "ensures (\<lambda>_. True) g" using Cons.prems(2) unfolding ensures_def by (auto dest: emits_grows)
    ultimately have "ensures (\<lambda>evs. \<exists>xs ys. evs = xs @ ys \<and> Q ys) (steps (g # fs))" using ensures_and_then [of "\<lambda>_. True" g Q] by simp
    then show ?thesis by (rule ensures_mono) (use assms(4) [of _ _ "[]"] in auto)
  qed
qed simp

lemma ensures_and_then_Pair: "(\<And>a. r = Inr a \<Longrightarrow> ensures Q (g a)) \<Longrightarrow> ensures Q (and_then (Pair r) g)"
  by (cases r) (auto simp: ensures_def and_then_def)

lemma ensures_query_then:
  assumes "\<And>x. ensures Q (g (Inr x))" "\<And>e. ensures (\<lambda>evs. Q ((c, False) # evs)) (g (Inl e))" "\<And>a b. Q b \<Longrightarrow> Q (a @ b)"
  shows "ensures Q (then_do (query get c) g)"
  unfolding ensures_def
proof (intro allI impI)
  fix tr a tr'
  assume "then_do (query get c) g tr = (Inr a, tr')"
  then have g: "g (get tr c) (tr @ [(c, is_ok (get tr c))]) = (Inr a, tr')" by (simp add: then_do_def query_def)
  show "\<exists>evs. tr' = tr @ evs \<and> Q evs"
  proof (cases "get tr c")
    case (Inl e)
    with g assms(2) [of e] obtain evs where "tr' = (tr @ [(c, False)]) @ evs" "Q ((c, False) # evs)" unfolding ensures_def by force
    then show ?thesis by auto
  next
    case (Inr x)
    with g assms(1) [of x] obtain evs where "tr' = (tr @ [(c, True)]) @ evs" "Q evs" unfolding ensures_def by force
    then show ?thesis using assms(3) [of evs "[(c, True)]"] by auto
  qed
qed

lemma performs_skip: "performs cs b \<Longrightarrow> performs cs (a @ b)"
  using performs_within [of cs b a "[]"] by simp

lemma ensures_after: "emits P f \<Longrightarrow> (\<And>a. ensures Q (g a)) \<Longrightarrow> (\<And>a b. Q b \<Longrightarrow> Q (a @ b)) \<Longrightarrow> ensures Q (then_do f g)"
  unfolding ensures_def then_do_def by (auto split: prod.splits) (metis append.assoc emits_grows)

lemma emits_done_if_simp: "emits P (done_if b f) \<longleftrightarrow> b \<or> emits P f"
  by (simp add: done_if_def emits_Pair)

lemma ensures_query: "Q [(c, True)] \<Longrightarrow> ensures Q (query get c)"
  by (auto simp: ensures_def query_def)

lemma performs_query [ensures_intro]: "ensures (performs [c]) (query get c)"
  by (rule ensures_query) (simp add: performs_def)

lemma ensures_void: "ensures Q f \<Longrightarrow> ensures Q (void f)"
  by (fastforce simp: ensures_def void_def map_sum_def split: prod.splits sum.splits)

lemma performs_void [ensures_intro]: "ensures (performs cs) f \<Longrightarrow> ensures (performs cs) (void f)"
  by (rule ensures_void)

end
