(* ===== verification/Droplet_Paths.thy ===== *)
theory Droplet_Paths
  imports Droplet_Mounts
begin

text \<open>
  Where the low-level runtime keeps its files (\<open>droplet/utils/paths.go\<close>), as a function of the environment variables.
\<close>

definition DefaultRootDir :: "(string \<Rightarrow> string) \<Rightarrow> string" where
  "DefaultRootDir getenv = (if getenv ''RAIND_ROOT_DIR'' \<noteq> [] then getenv ''RAIND_ROOT_DIR'' else ''/etc/raind/container'')"

definition ContainerDir :: "(string \<Rightarrow> string) \<Rightarrow> string \<Rightarrow> string" where
  "ContainerDir getenv cid = filepath_Join [DefaultRootDir getenv, cid]"

definition container_file :: "(string \<Rightarrow> string) \<Rightarrow> string list \<Rightarrow> string \<Rightarrow> string" where
  "container_file getenv names cid = filepath_Join (ContainerDir getenv cid # names)"

definition ConfigFilePath :: "(string \<Rightarrow> string) \<Rightarrow> string \<Rightarrow> string" where "ConfigFilePath getenv = container_file getenv [''config.json'']"
definition FifoPath :: "(string \<Rightarrow> string) \<Rightarrow> string \<Rightarrow> string" where "FifoPath getenv = container_file getenv [''exec.fifo'']"
definition SockPath :: "(string \<Rightarrow> string) \<Rightarrow> string \<Rightarrow> string" where "SockPath getenv = container_file getenv [''tty.sock'']"
definition InitPidFilePath :: "(string \<Rightarrow> string) \<Rightarrow> string \<Rightarrow> string" where "InitPidFilePath getenv = container_file getenv [''init.pid'']"
definition ExternalPidFileMarkerPath :: "(string \<Rightarrow> string) \<Rightarrow> string \<Rightarrow> string" where
  "ExternalPidFileMarkerPath getenv = container_file getenv [''external_pid_file'']"
definition ExecSockPath :: "(string \<Rightarrow> string) \<Rightarrow> string \<Rightarrow> string" where "ExecSockPath getenv = container_file getenv [''exec_tty.sock'']"
definition ShimLogPath :: "(string \<Rightarrow> string) \<Rightarrow> string \<Rightarrow> string" where "ShimLogPath getenv = container_file getenv [''logs'', ''shim.log'']"
definition ExecShimLogPath :: "(string \<Rightarrow> string) \<Rightarrow> string \<Rightarrow> string" where "ExecShimLogPath getenv = container_file getenv [''logs'', ''exec_shim.log'']"
definition ContainerLogPath :: "(string \<Rightarrow> string) \<Rightarrow> string \<Rightarrow> string" where "ContainerLogPath getenv = container_file getenv [''logs'', ''container.log'']"
definition CgroupPath :: "string \<Rightarrow> string" where "CgroupPath cid = filepath_Join [''/sys/fs/cgroup/raind'', cid]"

end
