(* ===== verification/Droplet_Init.thy ===== *)
theory Droplet_Init
  imports Droplet_Namespace Droplet_Seccomp Call_Trace Droplet_Paths
begin

text \<open>
  The init process of a container (\<open>droplet/container/init.go\<close>, with \<open>initproc/helpers.go\<close>, \<open>spechash/spechash.go\<close>, \<open>pathenv/pathenv.go\<close>,
  \<open>security/apparmor.go\<close>, \<open>security/capability.go\<close> and \<open>SecureMount\<close> of the mount guard): from the loading of \<open>config.json\<close> over the
  preparation of the mounts, the root change, the filter, the capabilities and the user up to the replacement of the process by the entry point.
  A run records its system calls; the kernel's answers are arbitrary functions of the calls so far.
\<close>

section \<open>Calls and their answers\<close>

datatype file_kind = Directory | Symlink | OtherFile

datatype init_call =
    ReadHash string | HashConfig string | LoadConfig string | RemoveHash string | ReadState string
  | ReadFifo string | OpenNamespace string | SetNamespace string "64 word"
  | Setresgid int | Setresuid int | Setgroups "int list" | Umask int | Sethostname string | Setenv string string
  | Mount mount_call | MkdirAll string | Mkdir string | Stat string | Lstat string | OpenFile string | CloseFile string
  | CreateFile string | Mknod string "32 word" int | Chown string int int | Chmod string nat | MakeSymlink string string
  | PivotRoot string string | Chdir string | Unmount string | Rmdir string
  | NoNewPrivs | InstallFilter "SockFilter list" | LoadCaps | ApplyCaps CapabilityObject
  | WriteFile string string | Setrlimit nat nat nat | Access string | CloseFds | Exec string "string list" "string list"

type_synonym init_trace = "init_call call_trace"

text \<open>
  The kernel and the process environment: what a call is answered, what is read, the environment variables, the id environment, the architecture
  with its system call numbers, \<open>unix.Mkdev\<close>, the decoder of the image annotation, and the errors that mean a missing file, a permission
  problem, and a profile that is refused.
\<close>

record init_env =
  iv_answer :: "init_trace \<Rightarrow> init_call \<Rightarrow> file_kind res"
  iv_text :: "init_trace \<Rightarrow> init_call \<Rightarrow> string res"
  iv_spec :: "init_trace \<Rightarrow> init_call \<Rightarrow> Spec res"
  iv_getenv :: "string \<Rightarrow> string"
  iv_ids :: id_env
  iv_goarch :: string
  iv_sysnr :: "string \<Rightarrow> 32 word"
  iv_mkdev :: "int \<Rightarrow> int \<Rightarrow> int"
  iv_image :: "string \<Rightarrow> ImageConfig res"
  iv_notExist :: "go_error \<Rightarrow> bool"
  iv_permission :: "go_error \<Rightarrow> bool"
  iv_refused :: "go_error \<Rightarrow> bool"

definition sys :: "init_env \<Rightarrow> init_call \<Rightarrow> init_trace \<Rightarrow> unit res \<times> init_trace" where
  "sys env c = void (query (iv_answer env) c)"

definition mount :: "init_env \<Rightarrow> string \<Rightarrow> string \<Rightarrow> string \<Rightarrow> 64 word \<Rightarrow> string \<Rightarrow> init_trace \<Rightarrow> unit res \<times> init_trace" where
  "mount env source target fstype flags data =
     sys env (Mount \<lparr>mc_source = source, mc_target = target, mc_fstype = fstype, mc_flags = flags, mc_data = data\<rparr>)"

definition filepath_Dir :: "string \<Rightarrow> string" where
  "filepath_Dir p = filepath_Clean (rev (dropWhile (\<lambda>c. c \<noteq> CHR ''/'') (rev p)))"

section \<open>Helpers of the init process\<close>

definition prejoined :: "init_env \<Rightarrow> bool" where
  "prejoined env \<longleftrightarrow> iv_getenv env ''RAIND_NAMESPACES_PREJOINED'' = ''1''"

definition IsOCIBundleMode :: "init_env \<Rightarrow> string \<Rightarrow> init_trace \<Rightarrow> bool \<times> init_trace" where
  "IsOCIBundleMode env cid = then_do (query (iv_text env) (ReadState cid)) (\<lambda>r. Pair (case r of
     Inl _ \<Rightarrow> False
   | Inr bundle \<Rightarrow> bundle \<noteq> [] \<and> filepath_Clean bundle \<noteq> filepath_Clean (ContainerDir (iv_getenv env) cid)))"

definition ShouldSkipHostname :: "init_env \<Rightarrow> Spec \<Rightarrow> bool" where
  "ShouldSkipHostname env s \<longleftrightarrow> nx_utsPath (BuildConfig s) \<noteq> [] \<or> (prejoined env \<and> rp_Enabled (PlanFromSpec (iv_ids env) s))"

definition DeviceMode :: "DeviceObject \<Rightarrow> 32 word res" where
  "DeviceMode d = (let perm = (case de_FileMode d of None \<Rightarrow> 0x1b6 | Some m \<Rightarrow> of_nat m) in
     if de_Type d = ''c'' \<or> de_Type d = ''u'' then Inr (0x2000 OR perm)
     else if de_Type d = ''b'' then Inr (0x6000 OR perm)
     else if de_Type d = ''p'' then Inr (0x1000 OR perm)
     else Inl (Msg (''unsupported linux device type: '' @ de_Type d)))"

definition ShouldSkipMissingMaskedPath :: "string \<Rightarrow> bool" where
  "ShouldSkipMissingMaskedPath path \<longleftrightarrow> has_prefix path ''/proc/'' \<or> has_prefix path ''/sys/''"

definition rlimit_names :: "(string \<times> nat) list" where
  "rlimit_names = [(''RLIMIT_AS'', 9), (''RLIMIT_CORE'', 4), (''RLIMIT_CPU'', 0), (''RLIMIT_DATA'', 2), (''RLIMIT_FSIZE'', 1), (''RLIMIT_LOCKS'', 10),
     (''RLIMIT_MEMLOCK'', 8), (''RLIMIT_MSGQUEUE'', 12), (''RLIMIT_NICE'', 13), (''RLIMIT_NOFILE'', 7), (''RLIMIT_NPROC'', 6), (''RLIMIT_RSS'', 5),
     (''RLIMIT_RTPRIO'', 14), (''RLIMIT_RTTIME'', 15), (''RLIMIT_SIGPENDING'', 11), (''RLIMIT_STACK'', 3)]"

definition RlimitResource :: "string \<Rightarrow> nat option" where
  "RlimitResource name = map_of rlimit_names (to_upper (trim_space name))"

fun OrDefault :: "string list \<Rightarrow> string" where
  "OrDefault [] = ''/usr/local/sbin:/usr/local/bin:/usr/sbin:/usr/bin:/sbin:/bin''"
| "OrDefault (item # items) =
     (if has_prefix item ''PATH='' then (if drop 5 item \<noteq> [] then drop 5 item else OrDefault []) else OrDefault items)"

fun find_executable :: "init_env \<Rightarrow> string \<Rightarrow> string list \<Rightarrow> init_trace \<Rightarrow> string res \<times> init_trace" where
  "find_executable env arg0 [] = Pair (Inl (Msg (arg0 @ '': not found in PATH'')))"
| "find_executable env arg0 (d # ds) =
     (let cand = filepath_Join [if d = [] then dot else d, arg0] in
      then_do (sys env (Access cand)) (\<lambda>r. case r of Inr _ \<Rightarrow> Pair (Inr cand) | Inl _ \<Rightarrow> find_executable env arg0 ds))"

definition LookupEntrypointPath :: "init_env \<Rightarrow> string \<Rightarrow> string list \<Rightarrow> init_trace \<Rightarrow> string res \<times> init_trace" where
  "LookupEntrypointPath env arg0 envlist =
     (if CHR ''/'' \<in> set arg0 then Pair (Inr arg0) else find_executable env arg0 (split_on CHR '':'' (OrDefault envlist)))"

section \<open>Loading the specification\<close>

definition validationError :: "string \<Rightarrow> string \<Rightarrow> go_error" where
  "validationError expected got = Msg (''config.json hash validation failed: expect='' @ expected @ '', got='' @ got)"

definition Verify :: "init_env \<Rightarrow> string \<Rightarrow> init_trace \<Rightarrow> unit res \<times> init_trace" where
  "Verify env cid = and_then (query (iv_text env) (ReadHash cid)) (\<lambda>expected.
     and_then (query (iv_text env) (HashConfig cid)) (\<lambda>current.
     Pair (if expected \<noteq> current then Inl (validationError expected current) else Inr ())))"

definition VerifyAndLoad :: "init_env \<Rightarrow> string \<Rightarrow> init_trace \<Rightarrow> Spec res \<times> init_trace" where
  "VerifyAndLoad env cid = and_then (Verify env cid) (\<lambda>_. query (iv_spec env) (LoadConfig cid))"

definition VerifyLoadAndConsume ::
  "init_env \<Rightarrow> string \<Rightarrow> (Spec \<Rightarrow> go_error \<Rightarrow> bool) \<Rightarrow> init_trace \<Rightarrow> Spec res \<times> init_trace" where
  "VerifyLoadAndConsume env cid ignoreRemoveError = and_then (VerifyAndLoad env cid) (\<lambda>s.
     and_then (tolerate (ignoreRemoveError s) (sys env (RemoveHash cid))) (\<lambda>_. Pair (Inr s)))"

definition shouldIgnoreSpecHashRemoveError :: "init_env \<Rightarrow> Spec \<Rightarrow> go_error \<Rightarrow> bool" where
  "shouldIgnoreSpecHashRemoveError env s e \<longleftrightarrow> iv_permission env e \<and> ConfigFromSpec (iv_ids env) s \<noteq> None"

definition specSecureLoad :: "init_env \<Rightarrow> string \<Rightarrow> init_trace \<Rightarrow> Spec res \<times> init_trace" where
  "specSecureLoad env cid = VerifyLoadAndConsume env cid (shouldIgnoreSpecHashRemoveError env)"

section \<open>Preparing the container\<close>

definition join_existing :: "init_env \<Rightarrow> Spec \<Rightarrow> init_trace \<Rightarrow> unit res \<times> init_trace" where
  "join_existing env s = steps (map (\<lambda>t. steps
     [wrapped (''open '' @ jt_name t @ '' namespace'') (sys env (OpenNamespace (jt_path t))),
      wrapped (''setns '' @ jt_name t) (sys env (SetNamespace (jt_path t) (jt_nstype t)))]) (BuildJoinTargets s))"

definition switchToUserNamespaceRoot :: "init_env \<Rightarrow> init_trace \<Rightarrow> unit res \<times> init_trace" where
  "switchToUserNamespaceRoot env = steps [sys env (Setresgid 0), sys env (Setresuid 0)]"

definition setHostnameToContainerId :: "init_env \<Rightarrow> string \<Rightarrow> init_trace \<Rightarrow> unit res \<times> init_trace" where
  "setHostnameToContainerId env hostname = sys env (Sethostname hostname)"

text \<open>An entry without an equals sign has no second part, and indexing it panics.\<close>

definition setEnv :: "init_env \<Rightarrow> string list \<Rightarrow> init_trace \<Rightarrow> unit res \<times> init_trace" where
  "setEnv env envlist = steps (map (\<lambda>e. case cut CHR ''='' e of
       None \<Rightarrow> Pair (Inl (Panic ''index out of range [1] with length 1''))
     | Some (k, v) \<Rightarrow> sys env (Setenv k v)) envlist)"

definition makeMountsPrivate :: "init_env \<Rightarrow> init_trace \<Rightarrow> unit res \<times> init_trace" where
  "makeMountsPrivate env = mount env [] ''/'' [] (MS_PRIVATE OR MS_REC) []"

definition ensureRootfsMountpoint :: "init_env \<Rightarrow> string \<Rightarrow> init_trace \<Rightarrow> unit res \<times> init_trace" where
  "ensureRootfsMountpoint env rootfs = mount env rootfs rootfs [] (MS_BIND OR MS_REC) []"

definition makeCurrentRootReadonly :: "init_env \<Rightarrow> init_trace \<Rightarrow> unit res \<times> init_trace" where
  "makeCurrentRootReadonly env = mount env [] ''/'' [] (MS_BIND OR MS_REMOUNT OR MS_RDONLY OR MS_REC) []"

definition mountPropagationFlags :: "string \<Rightarrow> 64 word option" where
  "mountPropagationFlags p = map_of [(''shared'', MS_SHARED), (''rshared'', MS_SHARED OR MS_REC), (''slave'', MS_SLAVE), (''rslave'', MS_SLAVE OR MS_REC),
     (''private'', MS_PRIVATE), (''rprivate'', MS_PRIVATE OR MS_REC), (''unbindable'', MS_UNBINDABLE), (''runbindable'', MS_UNBINDABLE OR MS_REC)] p"

definition applyMountPropagation :: "init_env \<Rightarrow> string \<Rightarrow> string \<Rightarrow> init_trace \<Rightarrow> unit res \<times> init_trace" where
  "applyMountPropagation env target propagation = (case mountPropagationFlags propagation of
     None \<Rightarrow> Pair (Inl (Msg (''unsupported mount propagation: '' @ propagation)))
   | Some flags \<Rightarrow> mount env [] target [] flags [])"

text \<open>A file that is made when it is missing.\<close>

definition make_file :: "init_env \<Rightarrow> string \<Rightarrow> init_trace \<Rightarrow> unit res \<times> init_trace" where
  "make_file env p = steps [sys env (OpenFile p), sys env (CloseFile p)]"

definition managed_targets :: "string list" where
  "managed_targets = [''/etc/resolv.conf'', ''/etc/hostname'', ''/etc/hosts'']"

definition ensure_target :: "init_env \<Rightarrow> string \<Rightarrow> init_trace \<Rightarrow> unit res \<times> init_trace" where
  "ensure_target env target = steps
     [wrapped (''create managed target parent '' @ filepath_Dir target) (sys env (MkdirAll (filepath_Dir target))),
      then_do (sys env (Stat target)) (\<lambda>r. case r of
         Inr _ \<Rightarrow> Pair (Inr ())
       | Inl e \<Rightarrow>
           if \<not> iv_notExist env e then Pair (Inl (wrap (''stat managed target '' @ target) e))
           else steps [wrapped (''create managed target '' @ target) (sys env (OpenFile target)),
                       wrapped (''close managed target '' @ target) (sys env (CloseFile target))])]"

definition ensureOverlayManagedFileTargets :: "init_env \<Rightarrow> string \<Rightarrow> init_trace \<Rightarrow> unit res \<times> init_trace" where
  "ensureOverlayManagedFileTargets env upperDir =
     steps (map (\<lambda>d. and_then (Pair (SecurePath upperDir d)) (ensure_target env)) managed_targets)"

definition setupOverlay :: "init_env \<Rightarrow> string \<Rightarrow> string \<Rightarrow> init_trace \<Rightarrow> unit res \<times> init_trace" where
  "setupOverlay env rootfs imageAnnotation =
     (if trim_space imageAnnotation = [] then Pair (Inr ())
      else case iv_image env imageAnnotation of
        Inl e \<Rightarrow> Pair (Inl e)
      | Inr img \<Rightarrow> steps
          [wrapped ''make root private failed'' (mount env [] ''/'' [] (MS_PRIVATE OR MS_REC) []),
           wrapped ''prepare overlay managed file targets'' (ensureOverlayManagedFileTargets env (io_UpperDir img)),
           wrapped ''mount overlay failed'' (mount env ''overlay'' rootfs (io_RootfsType img) 0
             (''lowerdir='' @ str_join '':'' (io_ImageLayer img) @ '',upperdir='' @ io_UpperDir img @ '',workdir='' @ io_WorkDir img)),
           wrapped ''mount overlay propagation failed'' (mount env [] rootfs [] (MS_PRIVATE OR MS_REC) [])])"

section \<open>Mounts\<close>

definition SecureMount :: "init_env \<Rightarrow> string \<Rightarrow> string \<Rightarrow> string \<Rightarrow> 64 word \<Rightarrow> string \<Rightarrow> bool \<Rightarrow> init_trace \<Rightarrow> unit res \<times> init_trace" where
  "SecureMount env source target fstype0 flags data allowDevice =
     (let fstype = (if fstype0 = ''bind'' then [] else fstype0);
          remountFlags = MS_BIND OR MS_REMOUNT OR MS_NOEXEC OR MS_NOSUID OR (if \<not> allowDevice then MS_NODEV else 0) OR
            (if flags AND MS_RDONLY \<noteq> 0 then MS_RDONLY else 0)
      in steps
        [mount env source target fstype flags data,
         done_if (\<not> (fstype = ''bind'' \<or> flags AND MS_BIND \<noteq> 0)) (mount env [] target [] remountFlags []),
         mount env [] target [] (MS_PRIVATE OR MS_REC) []])"

record mount_opts =
  op_flags :: "64 word"
  op_data :: "string list"
  op_bind :: bool
  op_dev :: bool
  op_propagation :: string

definition no_opts :: mount_opts where
  "no_opts = \<lparr>op_flags = 0, op_data = [], op_bind = False, op_dev = False, op_propagation = []\<rparr>"

definition flag_options :: "(string \<times> 64 word) list" where
  "flag_options = [(''nosuid'', MS_NOSUID), (''noexec'', MS_NOEXEC), (''nodev'', MS_NODEV), (''ro'', MS_RDONLY), (''strictatime'', MS_STRICTATIME),
     (''noatime'', MS_NOATIME), (''relatime'', MS_RELATIME)]"

definition propagation_options :: "string list" where
  "propagation_options = [''shared'', ''rshared'', ''slave'', ''rslave'', ''private'', ''rprivate'', ''unbindable'', ''runbindable'']"

definition add_option :: "string \<Rightarrow> mount_opts \<Rightarrow> mount_opts" where
  "add_option opt p = (case map_of flag_options opt of
     Some f \<Rightarrow> p\<lparr>op_flags := op_flags p OR f\<rparr>
   | None \<Rightarrow>
       if opt = ''dev'' then p\<lparr>op_dev := True\<rparr>
       else if opt = ''rw'' \<or> opt = ''z'' \<or> opt = ''Z'' then p
       else if opt = ''bind'' then p\<lparr>op_bind := True, op_flags := op_flags p OR MS_BIND\<rparr>
       else if opt = ''rbind'' then p\<lparr>op_bind := True, op_flags := op_flags p OR (MS_BIND OR MS_REC)\<rparr>
       else if opt \<in> set propagation_options then p\<lparr>op_propagation := opt\<rparr>
       else p\<lparr>op_data := op_data p @ [opt]\<rparr>)"

definition mount_options :: "MountObject \<Rightarrow> mount_opts" where
  "mount_options m = (let p = fold add_option (mo_Options m) no_opts;
       p = (if mo_Type m = ''bind'' \<and> \<not> op_bind p then p\<lparr>op_bind := True, op_flags := op_flags p OR MS_BIND\<rparr> else p)
     in if mo_Type m = [] \<and> \<not> op_bind p \<and> has_prefix (mo_Source m) ''/'' then p\<lparr>op_bind := True, op_flags := op_flags p OR MS_BIND\<rparr> else p)"

text \<open>Stat, and an action for a missing file; other errors of stat are not looked at.\<close>

definition if_missing :: "init_env \<Rightarrow> string \<Rightarrow> (init_trace \<Rightarrow> unit res \<times> init_trace) \<Rightarrow> init_trace \<Rightarrow> unit res \<times> init_trace" where
  "if_missing env p f = then_do (sys env (Stat p)) (\<lambda>r. case r of Inl e \<Rightarrow> if iv_notExist env e then f else Pair (Inr ()) | Inr _ \<Rightarrow> Pair (Inr ()))"

definition prepare_bind_target :: "init_env \<Rightarrow> string \<Rightarrow> string \<Rightarrow> init_trace \<Rightarrow> unit res \<times> init_trace" where
  "prepare_bind_target env source mountPath =
     and_then (wrapped (''lstat failed: '' @ source) (query (iv_answer env) (Lstat source))) (\<lambda>k.
     if k = Symlink then Pair (Inl (Msg (''source:'' @ source @ '' is symlink'')))
     else and_then (query (iv_answer env) (Stat source)) (\<lambda>info.
       if info = Directory then if_missing env mountPath (sys env (MkdirAll mountPath))
       else steps [sys env (MkdirAll (filepath_Dir mountPath)),
         if_missing env mountPath (and_then (sys env (OpenFile mountPath)) (\<lambda>_. then_do (sys env (CloseFile mountPath)) (\<lambda>_. Pair (Inr ()))))]))"

definition hostUsesUnifiedCgroupV2 :: "init_env \<Rightarrow> init_trace \<Rightarrow> bool \<times> init_trace" where
  "hostUsesUnifiedCgroupV2 env = then_do (sys env (Stat ''/sys/fs/cgroup/cgroup.controllers'')) (\<lambda>r. Pair (is_ok r))"

definition mount_one :: "init_env \<Rightarrow> string \<Rightarrow> MountObject \<Rightarrow> init_trace \<Rightarrow> unit res \<times> init_trace" where
  "mount_one env rootfs m =
     (let p = mount_options m in
      and_then (Pair (SecurePath rootfs (mo_Destination m))) (\<lambda>mountPath.
      and_then (if op_bind p then prepare_bind_target env (mo_Source m) mountPath else if_missing env mountPath (sys env (MkdirAll mountPath))) (\<lambda>_.
      then_do (if mo_Type m = ''cgroup'' then hostUsesUnifiedCgroupV2 env else Pair False) (\<lambda>unified. steps
          [wrapped ''mount fs failed'' (SecureMount env
             (if unified \<and> mo_Source m = [] then ''cgroup'' else mo_Source m) mountPath (if unified then ''cgroup2'' else mo_Type m)
             (op_flags p) (if unified then [] else str_join '','' (op_data p)) (op_dev p)),
           done_if (op_propagation p = []) (wrapped ''mount propagation failed'' (applyMountPropagation env mountPath (op_propagation p)))]))))"

text \<open>The mounts every container gets.\<close>

definition managed_mount :: "string \<Rightarrow> string \<Rightarrow> MountObject" where
  "managed_mount cid file = \<lparr>mo_Destination = ''/etc/'' @ file, mo_Type = ''bind'', mo_Source = ''/etc/raind/container/'' @ cid @ ''/etc/'' @ file,
     mo_Options = [''rbind'', ''rprivate'']\<rparr>"

definition defaultContainerMounts :: "string \<Rightarrow> MountObject list" where
  "defaultContainerMounts cid =
    [\<lparr>mo_Destination = ''/proc'', mo_Type = ''proc'', mo_Source = ''proc'', mo_Options = [''nosuid'', ''noexec'', ''nodev'']\<rparr>,
     \<lparr>mo_Destination = ''/dev'', mo_Type = ''tmpfs'', mo_Source = ''tmpfs'', mo_Options = [''nosuid'', ''strictatime'', ''mode=755'', ''size=65536k'']\<rparr>,
     \<lparr>mo_Destination = ''/dev/pts'', mo_Type = ''devpts'', mo_Source = ''devpts'', mo_Options = [''nosuid'', ''noexec'', ''newinstance'', ''ptmxmode=0666'', ''mode=0620'', ''gid=5'']\<rparr>,
     \<lparr>mo_Destination = ''/sys'', mo_Type = ''sysfs'', mo_Source = ''sysfs'', mo_Options = [''nosuid'', ''noexec'', ''nodev'', ''ro'']\<rparr>,
     \<lparr>mo_Destination = ''/tmp'', mo_Type = ''tmpfs'', mo_Source = ''tmpfs'', mo_Options = [''nosuid'', ''nodev'', ''mode=1777'', ''size=512m'']\<rparr>,
     \<lparr>mo_Destination = ''/run'', mo_Type = ''tmpfs'', mo_Source = ''tmpfs'', mo_Options = [''nosuid'', ''nodev'', ''mode=755'', ''size=65536k'']\<rparr>,
     \<lparr>mo_Destination = ''/proc/sys'', mo_Type = ''tmpfs'', mo_Source = ''tmpfs'', mo_Options = [''nosuid'', ''noexec'', ''nodev'', ''mode=0555'', ''size=0'']\<rparr>,
     \<lparr>mo_Destination = ''/proc/sysrq-trigger'', mo_Type = ''bind'', mo_Source = ''/dev/null'', mo_Options = [''rbind'', ''ro'']\<rparr>,
     \<lparr>mo_Destination = ''/sys/firmware'', mo_Type = ''tmpfs'', mo_Source = ''tmpfs'', mo_Options = [''nosuid'', ''noexec'', ''nodev'', ''mode=0555'', ''size=0'']\<rparr>,
     \<lparr>mo_Destination = ''/sys/fs/bpf'', mo_Type = ''tmpfs'', mo_Source = ''tmpfs'', mo_Options = [''nosuid'', ''noexec'', ''nodev'', ''ro'', ''mode=0555'', ''size=0'']\<rparr>,
     \<lparr>mo_Destination = ''/sys/fs/cgroup'', mo_Type = ''cgroup2'', mo_Source = ''cgroup'', mo_Options = [''nosuid'', ''nodev'', ''noexec'', ''ro'']\<rparr>,
     \<lparr>mo_Destination = ''/dev/mqueue'', mo_Type = ''mqueue'', mo_Source = ''mqueue'', mo_Options = [''nosuid'', ''noexec'', ''nodev'']\<rparr>,
     \<lparr>mo_Destination = ''/dev/shm'', mo_Type = ''tmpfs'', mo_Source = ''shm'', mo_Options = [''nosuid'', ''noexec'', ''nodev'', ''mode=1777'', ''size=67108864'']\<rparr>,
     managed_mount cid ''resolv.conf'',
     managed_mount cid ''hostname'',
     managed_mount cid ''hosts'']"

definition baseMountsForMode :: "string \<Rightarrow> bool \<Rightarrow> MountObject list" where
  "baseMountsForMode cid ociBundleMode = (if ociBundleMode then [] else defaultContainerMounts cid)"

definition isManagedEtcMount :: "MountObject \<Rightarrow> bool" where
  "isManagedEtcMount m \<longleftrightarrow> filepath_Clean (mo_Destination m) \<in> set managed_targets \<and> str_contains (filepath_Clean (mo_Source m)) ''/etc/''"

fun filterMissingManagedFileMounts :: "init_env \<Rightarrow> MountObject list \<Rightarrow> init_trace \<Rightarrow> MountObject list \<times> init_trace" where
  "filterMissingManagedFileMounts env [] = Pair []"
| "filterMissingManagedFileMounts env (m # ms) =
     then_do (if isManagedEtcMount m then then_do (sys env (Stat (mo_Source m))) (\<lambda>r. Pair (is_ok r)) else Pair True) (\<lambda>present.
     then_do (filterMissingManagedFileMounts env ms) (\<lambda>ms'. Pair (if present then m # ms' else ms')))"

definition filterRootlessPrejoinedMounts :: "MountObject list \<Rightarrow> MountObject list" where
  "filterRootlessPrejoinedMounts = filter (\<lambda>m. let d = filepath_Clean (mo_Destination m) in
     \<not> (d = ''/sys'' \<or> has_prefix d ''/sys/'' \<or> d = ''/dev/mqueue''))"

definition required_mounts :: "init_env \<Rightarrow> string \<Rightarrow> bool \<Rightarrow> init_trace \<Rightarrow> MountObject list \<times> init_trace" where
  "required_mounts env cid ociBundleMode =
     (let base = baseMountsForMode cid ociBundleMode in
      if ociBundleMode then Pair base
      else filterMissingManagedFileMounts env (if prejoined env then filterRootlessPrejoinedMounts base else base))"

definition mountFilesystem :: "init_env \<Rightarrow> string \<Rightarrow> string \<Rightarrow> MountObject list \<Rightarrow> bool \<Rightarrow> init_trace \<Rightarrow> unit res \<times> init_trace" where
  "mountFilesystem env cid rootfs mountList ociBundleMode =
     then_do (required_mounts env cid ociBundleMode) (\<lambda>required.
     and_then (Pair (first_error ValidateUserMount mountList)) (\<lambda>_.
     steps (map (mount_one env rootfs) (required @ mountList))))"

definition std_devices :: "string list" where
  "std_devices = [''random'', ''urandom'', ''null'', ''zero'', ''full'', ''tty'']"

definition mount_device :: "init_env \<Rightarrow> string \<Rightarrow> string \<Rightarrow> init_trace \<Rightarrow> unit res \<times> init_trace" where
  "mount_device env rootfs device = (let destination = filepath_Join [rootfs, ''dev'', device] in steps
     [if_missing env destination (sys env (CreateFile destination)),
      wrapped ''mount device failed'' (mount env (''/dev/'' @ device) destination [] MS_BIND []),
      wrapped ''remount device failed'' (mount env [] destination [] (MS_BIND OR MS_REMOUNT OR MS_RDONLY OR MS_NOEXEC OR MS_NOSUID) [])])"

definition mountStdDevice :: "init_env \<Rightarrow> string \<Rightarrow> init_trace \<Rightarrow> unit res \<times> init_trace" where
  "mountStdDevice env rootfs = steps (map (mount_device env rootfs) std_devices)"

definition create_device :: "init_env \<Rightarrow> string \<Rightarrow> DeviceObject \<Rightarrow> init_trace \<Rightarrow> unit res \<times> init_trace" where
  "create_device env rootfs d =
     and_then (Pair (SecurePath rootfs (de_Path d))) (\<lambda>target.
     and_then (sys env (MkdirAll (filepath_Dir target))) (\<lambda>_.
     and_then (Pair (DeviceMode d)) (\<lambda>mode.
     steps
      [sys env (Mknod target mode (if de_Type d \<in> set [''c'', ''u'', ''b''] then iv_mkdev env (de_Major d) (de_Minor d) else 0)),
       done_if (de_UID d = None \<and> de_GID d = None) (sys env (Chown target (case de_UID d of None \<Rightarrow> -1 | Some u \<Rightarrow> int u) (case de_GID d of None \<Rightarrow> -1 | Some g \<Rightarrow> int g))),
       (case de_FileMode d of None \<Rightarrow> Pair (Inr ()) | Some m \<Rightarrow> sys env (Chmod target m))])))"

definition createLinuxDevices :: "init_env \<Rightarrow> string \<Rightarrow> DeviceObject list \<Rightarrow> init_trace \<Rightarrow> unit res \<times> init_trace" where
  "createLinuxDevices env rootfs devices = steps (map (create_device env rootfs) devices)"

definition device_links :: "(string \<times> string) list" where
  "device_links = [(''fd'', ''/proc/self/fd''), (''stdin'', ''/proc/self/fd/0''), (''stdout'', ''/proc/self/fd/1''), (''stderr'', ''/proc/self/fd/2''),
     (''ptmx'', ''pts/ptmx'')]"

definition createSymbolicLink :: "init_env \<Rightarrow> string \<Rightarrow> init_trace \<Rightarrow> unit res \<times> init_trace" where
  "createSymbolicLink env rootfs = steps (map (\<lambda>(name, target).
     let link = filepath_Join [filepath_Join [rootfs, ''dev''], name] in
     then_do (sys env (Lstat link)) (\<lambda>r. case r of Inr _ \<Rightarrow> Pair (Inr ()) | Inl _ \<Rightarrow> sys env (MakeSymlink target link))) device_links)"

text \<open>Masked paths are hidden behind an empty read-only file system or the null device, read-only paths are mounted over themselves.\<close>

definition hidden_flags :: "64 word" where
  "hidden_flags = MS_BIND OR MS_REMOUNT OR MS_RDONLY OR MS_NOSUID OR MS_NODEV OR MS_NOEXEC"

definition mask_file :: "init_env \<Rightarrow> string \<Rightarrow> bool \<Rightarrow> init_trace \<Rightarrow> unit res \<times> init_trace" where
  "mask_file env target missing = steps
     [sys env (MkdirAll (filepath_Dir target)), done_if (\<not> missing) (make_file env target),
      mount env ''/dev/null'' target [] MS_BIND [], mount env [] target [] hidden_flags []]"

definition mask_path :: "init_env \<Rightarrow> string \<Rightarrow> string \<Rightarrow> init_trace \<Rightarrow> unit res \<times> init_trace" where
  "mask_path env rootfs path = and_then (Pair (SecurePath rootfs path)) (\<lambda>target.
     then_do (query (iv_answer env) (Stat target)) (\<lambda>r. case r of
       Inr info \<Rightarrow>
         if info = Directory
         then steps [mount env ''tmpfs'' target ''tmpfs'' (MS_NOSUID OR MS_NODEV OR MS_NOEXEC) [], mount env [] target [] hidden_flags []]
         else mask_file env target False
     | Inl e \<Rightarrow>
         if \<not> iv_notExist env e then Pair (Inl e)
         else if ShouldSkipMissingMaskedPath path then Pair (Inr ())
         else mask_file env target True))"

definition applyMaskedPaths :: "init_env \<Rightarrow> string \<Rightarrow> string list \<Rightarrow> init_trace \<Rightarrow> unit res \<times> init_trace" where
  "applyMaskedPaths env rootfs paths = steps (map (mask_path env rootfs) paths)"

definition protect_path :: "init_env \<Rightarrow> string \<Rightarrow> string \<Rightarrow> init_trace \<Rightarrow> unit res \<times> init_trace" where
  "protect_path env rootfs path = and_then (Pair (SecurePath rootfs path)) (\<lambda>target.
     then_do (sys env (Stat target)) (\<lambda>r. case r of
       Inl e \<Rightarrow> Pair (if iv_notExist env e then Inr () else Inl e)
     | Inr _ \<Rightarrow> steps [mount env target target [] (MS_BIND OR MS_REC) [],
         mount env [] target [] (MS_BIND OR MS_REMOUNT OR MS_RDONLY OR MS_REC) []]))"

definition applyReadonlyPaths :: "init_env \<Rightarrow> string \<Rightarrow> string list \<Rightarrow> init_trace \<Rightarrow> unit res \<times> init_trace" where
  "applyReadonlyPaths env rootfs paths = steps (map (protect_path env rootfs) paths)"

definition pivotRoot :: "init_env \<Rightarrow> string \<Rightarrow> init_trace \<Rightarrow> unit res \<times> init_trace" where
  "pivotRoot env rootfs = (let putold = filepath_Join [rootfs, ''put_old''] in steps
     [sys env (Mkdir putold), sys env (PivotRoot rootfs putold), sys env (Chdir ''/''), sys env (Unmount ''/put_old''), sys env (Rmdir ''/put_old'')])"

section \<open>Restricting the process\<close>

definition setOOMScoreAdj :: "init_env \<Rightarrow> int option \<Rightarrow> init_trace \<Rightarrow> unit res \<times> init_trace" where
  "setOOMScoreAdj env value = (case value of
     None \<Rightarrow> Pair (Inr ())
   | Some v \<Rightarrow> if v < -1000 \<or> v > 1000 then Pair (Inl (Msg ''oomScoreAdj must be between -1000 and 1000''))
       else sys env (WriteFile ''/proc/self/oom_score_adj'' (itoa v)))"

definition setRlimits :: "init_env \<Rightarrow> RlimitObject list \<Rightarrow> init_trace \<Rightarrow> unit res \<times> init_trace" where
  "setRlimits env rlimits = steps (map (\<lambda>item. case RlimitResource (rl_Type item) of
     None \<Rightarrow> Pair (Inl (Msg (''unsupported rlimit type: '' @ rl_Type item)))
   | Some resource \<Rightarrow> sys env (Setrlimit resource (rl_Soft item) (rl_Hard item))) rlimits)"

definition setProcessUser :: "init_env \<Rightarrow> UserObject \<Rightarrow> init_trace \<Rightarrow> unit res \<times> init_trace" where
  "setProcessUser env u = steps
     [done_if (us_AdditionalGids u = []) (sys env (Setgroups (us_AdditionalGids u))), sys env (Setresgid (us_GID u)), sys env (Setresuid (us_UID u)),
      (case us_Umask u of None \<Rightarrow> Pair (Inr ()) | Some m \<Rightarrow> then_do (sys env (Umask m)) (\<lambda>_. Pair (Inr ())))]"

text \<open>\<open>ToCaps\<close>: names that are not known are left out.\<close>

definition ToCaps :: "string list \<Rightarrow> string list" where
  "ToCaps names = filter (\<lambda>n. n \<in> set allCapabilities) names"

definition setCapability :: "init_env \<Rightarrow> CapabilityObject \<Rightarrow> init_trace \<Rightarrow> unit res \<times> init_trace" where
  "setCapability env c = steps [sys env LoadCaps, wrapped ''apply capability failed'' (sys env (ApplyCaps
     \<lparr>ca_Bounding = ToCaps (ca_Bounding c), ca_Permitted = ToCaps (ca_Permitted c), ca_Inheritable = ToCaps (ca_Inheritable c),
      ca_Effective = ToCaps (ca_Effective c), ca_Ambient = ToCaps (ca_Ambient c)\<rparr>))]"

definition IsAAEnabled :: "init_env \<Rightarrow> init_trace \<Rightarrow> bool \<times> init_trace" where
  "IsAAEnabled env = then_do (sys env (Stat ''/sys/module/apparmor/parameters/enabled'')) (\<lambda>r. Pair (is_ok r))"

definition ApplyAAProfileOnExec :: "init_env \<Rightarrow> string \<Rightarrow> init_trace \<Rightarrow> unit res \<times> init_trace" where
  "ApplyAAProfileOnExec env profile0 = then_do (IsAAEnabled env) (\<lambda>enabled.
     let profile = trim_space profile0 in
     if \<not> enabled \<or> profile = [] then Pair (Inr ())
     else and_then (wrapped ''open /proc/self/attr/exec failed'' (sys env (OpenFile ''/proc/self/attr/exec''))) (\<lambda>_.
       then_do (wrapped (''AppArmor exec profile '' @ profile @ '' failed'') (tolerate (iv_refused env)
         (sys env (WriteFile ''/proc/self/attr/exec'' (''exec '' @ profile))))) (\<lambda>r.
       then_do (sys env (CloseFile ''/proc/self/attr/exec'')) (\<lambda>_. Pair r))))"

section \<open>The whole sequence\<close>

definition join_step :: "init_env \<Rightarrow> Spec \<Rightarrow> init_trace \<Rightarrow> unit res \<times> init_trace" where
  "join_step env s = done_if (prejoined env) (wrapped ''join namespaces'' (join_existing env s))"

definition install_seccomp :: "init_env \<Rightarrow> SeccompObject option \<Rightarrow> init_trace \<Rightarrow> unit res \<times> init_trace" where
  "install_seccomp env c = (case c of None \<Rightarrow> Pair (Inr ())
   | Some cfg \<Rightarrow> wrapped ''install seccomp'' (InstallDenyFilter (iv_goarch env) (iv_sysnr env) (\<lambda>prog. sys env (InstallFilter prog)) cfg))"

text \<open>The part of \<open>prepare\<close> up to the change of the root, and the part after it.\<close>

definition root_steps :: "init_env \<Rightarrow> string \<Rightarrow> Spec \<Rightarrow> (init_trace \<Rightarrow> unit res \<times> init_trace) list" where
  "root_steps env cid s = (let rootfs = ro_Path (sp_Root s); l = sp_LinuxSpec s in
     [join_step env s,
      wrapped ''switch to user namespace root'' (switchToUserNamespaceRoot env),
      done_if (ShouldSkipHostname env s) (wrapped ''set hostname'' (setHostnameToContainerId env (sp_Hostname s))),
      wrapped ''set env'' (setEnv env (po_Env (sp_Process s))),
      wrapped ''make mounts private'' (makeMountsPrivate env),
      wrapped ''setup overlay'' (setupOverlay env rootfs (an_Image (sp_Annotations s))),
      then_do (IsOCIBundleMode env cid) (\<lambda>bundleMode. wrapped ''mount filesystem'' (mountFilesystem env cid rootfs (sp_Mounts s) bundleMode)),
      wrapped ''mount std device'' (mountStdDevice env rootfs),
      wrapped ''create linux devices'' (createLinuxDevices env rootfs (ls_Devices l)),
      wrapped ''create symbolic link'' (createSymbolicLink env rootfs),
      wrapped ''apply masked paths'' (applyMaskedPaths env rootfs (ls_MaskedPaths l)),
      wrapped ''apply readonly paths'' (applyReadonlyPaths env rootfs (ls_ReadonlyPaths l)),
      wrapped ''ensure rootfs mountpoint'' (ensureRootfsMountpoint env rootfs),
      done_if (ls_RootfsPropagation l = []) (wrapped ''apply rootfs propagation'' (applyMountPropagation env rootfs (ls_RootfsPropagation l)))])"

definition process_steps :: "init_env \<Rightarrow> Spec \<Rightarrow> (init_trace \<Rightarrow> unit res \<times> init_trace) list" where
  "process_steps env s = (let p = sp_Process s in
     [wrapped ''pivot root'' (pivotRoot env (ro_Path (sp_Root s))),
      done_if (\<not> ro_Readonly (sp_Root s)) (wrapped ''make rootfs readonly'' (makeCurrentRootReadonly env)),
      done_if (\<not> po_NoNewPrivileges p) (wrapped ''set no_new_privileges'' (sys env NoNewPrivs)),
      install_seccomp env (ls_Seccomp (sp_LinuxSpec s)),
      wrapped ''set capability'' (setCapability env (po_Capabilities p)),
      wrapped ''set oom_score_adj'' (setOOMScoreAdj env (po_OOMScoreAdj p)),
      wrapped ''set rlimits'' (setRlimits env (po_Rlimits p)),
      wrapped ''chdir'' (sys env (Chdir (po_Cwd p))),
      wrapped ''set process user'' (setProcessUser env (po_User p))])"

definition prepare :: "init_env \<Rightarrow> string \<Rightarrow> Spec \<Rightarrow> init_trace \<Rightarrow> unit res \<times> init_trace" where
  "prepare env cid s = steps (root_steps env cid s @ process_steps env s)"

record InitOption =
  io_ContainerId :: string
  io_Fifo :: string
  io_Entrypoint :: "string list"

text \<open>\<open>Execute\<close>; the audit log is left out.  An empty entry point would panic when its first element is taken.\<close>

definition exec_entrypoint :: "init_env \<Rightarrow> string list \<Rightarrow> string list \<Rightarrow> init_trace \<Rightarrow> unit res \<times> init_trace" where
  "exec_entrypoint env entrypoint envlist = (case entrypoint of
     [] \<Rightarrow> Pair (Inl (Panic ''index out of range [0] with length 0''))
   | name # args \<Rightarrow> and_then (LookupEntrypointPath env name envlist) (\<lambda>arg0.
       then_do (sys env CloseFds) (\<lambda>_. sys env (Exec arg0 (arg0 # args) envlist))))"

definition ContainerInit_Execute :: "init_env \<Rightarrow> InitOption \<Rightarrow> init_trace \<Rightarrow> unit res \<times> init_trace" where
  "ContainerInit_Execute env opt =
     and_then (specSecureLoad env (io_ContainerId opt)) (\<lambda>s.
     and_then (steps [sys env (ReadFifo (io_Fifo opt)), prepare env (io_ContainerId opt) s, ApplyAAProfileOnExec env (ls_AppArmorProfile (sp_LinuxSpec s))])
       (\<lambda>_. exec_entrypoint env (io_Entrypoint opt) (po_Env (sp_Process s))))"

end
