(* ===== verification/Droplet_Init_Safety.thy ===== *)
theory Droplet_Init_Safety
  imports Droplet_Init
begin

text \<open>
  What a run of the init process guarantees: the entry point is reached only after every restriction of the specification was put in place,
  in the right order, and until the root is changed nothing is mounted or created outside the root file system of the container.
\<close>

section \<open>Paths\<close>

lemma resolve_append: "resolve_dots acc (xs @ ys) = resolve_dots (rev (resolve_dots acc xs)) ys"
  by (induction xs arbitrary: acc) auto

lemma path_elems_single: "clean_elem x \<Longrightarrow> path_elems x = [x]"
  by (simp add: path_elems_def clean_elem_def split_on_no_sep)

lemma Dir_elems:
  assumes "clean_path p = p"
  shows "absolute (filepath_Dir p) \<and> clean_elems (filepath_Dir p) = butlast (clean_elems p)"
proof (cases "clean_elems p" rule: rev_cases)
  case Nil
  then have "p = ''/''" using assms by (simp add: clean_path_def path_string_def)
  then have "filepath_Dir p = ''/''" by (simp add:) code_simp
  with Nil \<open>p = ''/''\<close> show ?thesis by (simp add: absolute_def has_prefix_def)
next
  case (snoc es x)
  have clean: "\<forall>y \<in> set (es @ [x]). clean_elem y" using clean_elems_clean [of p] snoc by simp
  define s where "s = (if es = [] then ''/'' else path_string es @ ''/'')"
  have "p = path_string (es @ [x])" using assms snoc by (simp add: clean_path_def)
  also have "\<dots> = s @ x" by (simp add: s_def path_string_def str_join_append)
  finally have p: "p = s @ x" .
  have x: "CHR ''/'' \<notin> set x" using clean by (simp add: clean_elem_def)
  have "dropWhile (\<lambda>c. c \<noteq> CHR ''/'') (rev x @ rev s) = rev s"
    using x by (subst dropWhile_append2) (auto simp: s_def)
  then have d: "filepath_Dir p = filepath_Clean s" by (simp add: filepath_Dir_def p)
  have abs: "absolute s" by (simp add: s_def absolute_def has_prefix_def path_string_def)
  have "path_elems s = es"
  proof (cases "es = []")
    case False
    then show ?thesis using clean by (simp add: s_def path_elems_slash path_elems_string)
  qed (simp add: s_def path_elems_def)
  then have "clean_elems s = es" using clean by (simp add: clean_elems_def resolve_id)
  moreover have "absolute (filepath_Clean s)" using abs by (simp add: filepath_Clean_absolute absolute_def has_prefix_def path_string_def)
  ultimately show ?thesis using abs clean snoc by (simp add: d filepath_Clean_absolute clean_elems_string)
qed

lemma Join_elems:
  assumes "absolute root" "list_all clean_elem xs"
  shows "clean_elems (filepath_Join (root # xs)) = clean_elems root @ xs \<and> absolute (filepath_Join (root # xs))"
proof -
  have root: "root \<noteq> []" using assms(1) by (auto simp: absolute_def has_prefix_def)
  have xs: "filter (\<lambda>p. p \<noteq> []) xs = xs" using assms(2) by (auto simp: list_all_iff clean_elem_def filter_id_conv)
  define j where "j = str_join ''/'' (root # xs)"
  have "filepath_Join (root # xs) = filepath_Clean j" using root xs by (simp add: filepath_Join_def j_def)
  moreover have "absolute j" using assms(1) by (cases xs) (auto simp: j_def absolute_def has_prefix_def)
  moreover have "path_elems j = path_elems root @ xs"
    using assms(2) unfolding j_def
  proof (induction xs arbitrary: root)
    case (Cons x xs)
    then have "path_elems (str_join ''/'' (x # xs)) = path_elems x @ xs" by simp
    moreover have "path_elems x = [x]" using Cons.prems by (simp add: path_elems_single)
    ultimately show ?case by (simp add: path_elems_append)
  qed simp
  ultimately have "clean_elems j = clean_elems root @ xs" and c: "filepath_Join (root # xs) = path_string (clean_elems j)"
    using assms(2) by (simp_all add: filepath_Clean_absolute clean_elems_def resolve_append resolve_id list_all_iff)
  moreover have "clean_elems (path_string (clean_elems j)) = clean_elems j" by (simp add: clean_elems_string clean_elems_clean)
  moreover have "absolute (path_string (clean_elems j))" by (simp add: absolute_def has_prefix_def path_string_def)
  ultimately show ?thesis by simp
qed

section \<open>Calls of the init process\<close>

lemma emits_sys [emits_intro]: "P c \<Longrightarrow> emits P (sys env c)"
  by (simp add: sys_def emits_void emits_query)

lemma emits_mount [emits_intro]:
  "P (Mount \<lparr>mc_source = source, mc_target = target, mc_fstype = fstype, mc_flags = flags, mc_data = data\<rparr>) \<Longrightarrow> emits P (mount env source target fstype flags data)"
  by (simp add: mount_def emits_sys)

lemma emits_if_missing [emits_intro]: "P (Stat p) \<Longrightarrow> emits P f \<Longrightarrow> emits P (if_missing env p f)"
  by (auto simp: if_missing_def intro!: emits_intro split: sum.split)

section \<open>Confinement\<close>

text \<open>
  What may be done to the file system before the root is changed: every mount is at or below the root file system, or only makes the propagation
  of the whole name space private, every file, device and link is made below the root file system or, for the three managed files, in the upper
  directory of the overlay, and a directory may also be an ancestor of one of the two.
\<close>

definition near :: "string option \<Rightarrow> string \<Rightarrow> bool" where
  "near d p \<longleftrightarrow> (case d of None \<Rightarrow> False | Some r \<Rightarrow> below r p \<or> below p r)"

definition inside :: "string option \<Rightarrow> string \<Rightarrow> bool" where
  "inside d p \<longleftrightarrow> (case d of None \<Rightarrow> False | Some r \<Rightarrow> below r p)"

definition confined :: "string \<Rightarrow> string option \<Rightarrow> init_call \<Rightarrow> bool" where
  "confined root upper c \<longleftrightarrow> (case c of
     Mount m \<Rightarrow> below root (mc_target m) \<or>
       m = \<lparr>mc_source = [], mc_target = ''/'', mc_fstype = [], mc_flags = MS_PRIVATE OR MS_REC, mc_data = []\<rparr>
   | MkdirAll p \<Rightarrow> near (Some root) p \<or> near upper p
   | OpenFile p \<Rightarrow> below root p \<or> inside upper p
   | CreateFile p \<Rightarrow> below root p | Mkdir p \<Rightarrow> below root p | Mknod p _ _ \<Rightarrow> below root p
   | Chown p _ _ \<Rightarrow> below root p | Chmod p _ \<Rightarrow> below root p | MakeSymlink _ p \<Rightarrow> below root p
   | Unmount _ \<Rightarrow> False | Rmdir _ \<Rightarrow> False | PivotRoot _ _ \<Rightarrow> False | WriteFile _ _ \<Rightarrow> False | Exec _ _ _ \<Rightarrow> False
   | _ \<Rightarrow> True)"

lemma confined_simps [simp]:
  "confined root upper (OpenNamespace a)" "confined root upper (SetNamespace a w)" "confined root upper (Setresgid i)" "confined root upper (Setresuid i)"
  "confined root upper (Sethostname a)" "confined root upper (Setenv a b)" "confined root upper (Stat a)" "confined root upper (Lstat a)"
  "confined root upper (CloseFile a)" "confined root upper (ReadState a)"
  "confined root upper (Mount m) \<longleftrightarrow> below root (mc_target m) \<or>
     m = \<lparr>mc_source = [], mc_target = ''/'', mc_fstype = [], mc_flags = MS_PRIVATE OR MS_REC, mc_data = []\<rparr>"
  "confined root upper (MkdirAll a) \<longleftrightarrow> near (Some root) a \<or> near upper a"
  "confined root upper (OpenFile a) \<longleftrightarrow> below root a \<or> inside upper a"
  "confined root upper (CreateFile a) \<longleftrightarrow> below root a" "confined root upper (Mknod a n d) \<longleftrightarrow> below root a"
  "confined root upper (Chown a i j) \<longleftrightarrow> below root a" "confined root upper (Chmod a k) \<longleftrightarrow> below root a" "confined root upper (MakeSymlink b a) \<longleftrightarrow> below root a"
  by (simp_all add: confined_def)

lemma near_dir: "below root p \<Longrightarrow> clean_path p = p \<Longrightarrow> near (Some root) (filepath_Dir p)"
  using Dir_elems [of p] by (cases "clean_elems p" rule: rev_cases) (auto simp: near_def below_def prefix_snoc)

lemma near_below: "below root p \<Longrightarrow> near (Some root) p"
  by (simp add: near_def)

lemma secured: "absolute root \<Longrightarrow> SecurePath root d = Inr p \<Longrightarrow> below root p \<and> clean_path p = p"
  by (rule SecurePath_below)

lemma join_step_confined: "emits (confined root upper) (join_step env s)"
  by (auto simp: join_step_def join_existing_def list_all_iff intro!: emits_intro)

lemma user_root_confined: "emits (confined root upper) (switchToUserNamespaceRoot env)"
  by (auto simp: switchToUserNamespaceRoot_def intro!: emits_intro)

lemma setEnv_confined: "emits (confined root upper) (setEnv env es)"
  by (auto simp: setEnv_def list_all_iff intro!: emits_intro split: option.split)

lemma private_confined: "emits (confined root upper) (makeMountsPrivate env)"
  by (auto simp: makeMountsPrivate_def intro!: emits_intro)

lemma propagation_confined: "below root t \<Longrightarrow> emits (confined root upper) (applyMountPropagation env t p)"
  by (auto simp: applyMountPropagation_def intro!: emits_intro split: option.split)

lemma managed_confined:
  assumes "upper = Some u" "absolute u"
  shows "emits (confined root upper) (ensureOverlayManagedFileTargets env u)"
proof -
  have "emits (confined root upper) (ensure_target env t)" if t: "SecurePath u d = Inr t" for t d
  proof -
    have "below u t" "near (Some u) (filepath_Dir t)" using secured [OF assms(2) t] near_dir by blast+
    then show ?thesis using assms(1) by (auto simp: ensure_target_def inside_def intro!: emits_intro split: sum.split)
  qed
  then show ?thesis by (auto simp: ensureOverlayManagedFileTargets_def list_all_iff intro!: emits_intro emits_and_then_Pair)
qed

lemma SecureMount_confined: "below root t \<Longrightarrow> emits (confined root upper) (SecureMount env src t ty fl d dev)"
  by (auto simp: SecureMount_def Let_def intro!: emits_intro)

lemma mount_one_confined:
  assumes "absolute root" shows "emits (confined root upper) (mount_one env root m)"
proof -
  have "emits (confined root upper) (prepare_bind_target env src p)" if "below root p" "clean_path p = p" for src p
    using that near_dir [OF that] by (auto simp: prepare_bind_target_def near_below intro!: emits_intro)
  then show ?thesis
    using secured [OF assms]
    by (auto simp: mount_one_def Let_def hostUsesUnifiedCgroupV2_def near_below
        intro!: emits_intro emits_and_then_Pair SecureMount_confined propagation_confined)
qed

lemma required_confined: "emits (confined root upper) (required_mounts env cid b)"
proof -
  have "emits (confined root upper) (filterMissingManagedFileMounts env ms)" for ms
    by (induction ms) (auto intro!: emits_intro)
  then show ?thesis by (auto simp: required_mounts_def Let_def intro!: emits_intro)
qed

lemma mountFilesystem_confined: "absolute root \<Longrightarrow> emits (confined root upper) (mountFilesystem env cid root ms b)"
  by (auto simp: mountFilesystem_def list_all_iff intro!: emits_intro required_confined mount_one_confined)

lemma device_names_clean: "list_all clean_elem (''dev'' # ''put_old'' # std_devices @ map fst device_links)"
  by code_simp

lemma mountStdDevice_confined:
  assumes "absolute root" shows "emits (confined root upper) (mountStdDevice env root)"
proof -
  have "below root (filepath_Join [root, ''dev'', d])" if "d \<in> set std_devices" for d
    using that device_names_clean Join_elems [OF assms, of "[''dev'', d]"] by (auto simp: below_def list_all_iff)
  then show ?thesis by (auto simp: mountStdDevice_def mount_device_def Let_def list_all_iff intro!: emits_intro)
qed

lemma createLinuxDevices_confined:
  assumes "absolute root" shows "emits (confined root upper) (createLinuxDevices env root ds)"
  using secured [OF assms] near_dir
  by (auto simp: createLinuxDevices_def create_device_def list_all_iff intro!: emits_intro emits_and_then_Pair split: option.split)

lemma createSymbolicLink_confined:
  assumes "absolute root" shows "emits (confined root upper) (createSymbolicLink env root)"
proof -
  have "below root (filepath_Join [filepath_Join [root, ''dev''], n])" if "n \<in> fst ` set device_links" for n
    using that device_names_clean Join_elems [OF assms, of "[''dev'']"] Join_elems [of "filepath_Join [root, ''dev'']" "[n]"]
    by (auto simp: below_def list_all_iff)
  then have "below root (filepath_Join [filepath_Join [root, ''dev''], n])" if "(n, t) \<in> set device_links" for n t
    using that by force
  then show ?thesis by (auto simp: createSymbolicLink_def Let_def list_all_iff intro!: emits_intro split: sum.split)
qed

lemma applyMaskedPaths_confined:
  assumes "absolute root" shows "emits (confined root upper) (applyMaskedPaths env root ps)"
proof -
  have "emits (confined root upper) (mask_file env p b)" if "below root p" "clean_path p = p" for p b
    using that near_dir [OF that] by (auto simp: mask_file_def make_file_def intro!: emits_intro)
  then show ?thesis
    using secured [OF assms]
    by (auto simp: applyMaskedPaths_def mask_path_def list_all_iff intro!: emits_intro emits_and_then_Pair split: sum.split)
qed

lemma applyReadonlyPaths_confined:
  assumes "absolute root" shows "emits (confined root upper) (applyReadonlyPaths env root ps)"
  using secured [OF assms]
  by (auto simp: applyReadonlyPaths_def protect_path_def list_all_iff intro!: emits_intro emits_and_then_Pair split: sum.split)

lemma below_refl: "below root root"
  by (simp add: below_def)

lemma setupOverlay_confined:
  assumes "\<And>img. trim_space a \<noteq> [] \<Longrightarrow> iv_image env a = Inr img \<Longrightarrow> upper = Some (io_UpperDir img) \<and> absolute (io_UpperDir img)"
  shows "emits (confined root upper) (setupOverlay env root a)"
proof (cases "trim_space a = [] \<or> (\<exists>e. iv_image env a = Inl e)")
  case True
  then show ?thesis by (auto simp: setupOverlay_def intro!: emits_intro)
next
  case False
  then obtain img where img: "iv_image env a = Inr img" by (cases "iv_image env a") auto
  with False assms show ?thesis
    by (auto simp: setupOverlay_def below_refl intro!: emits_intro managed_confined)
qed

text \<open>The upper directory of the overlay, when the container has one.\<close>

definition upper_dir :: "init_env \<Rightarrow> Spec \<Rightarrow> string option" where
  "upper_dir env s = (let a = an_Image (sp_Annotations s) in
     if trim_space a = [] then None else (case iv_image env a of Inl _ \<Rightarrow> None | Inr img \<Rightarrow> Some (io_UpperDir img)))"

lemma prepare_root_confined:
  assumes "absolute (ro_Path (sp_Root s))" "\<And>u. upper_dir env s = Some u \<Longrightarrow> absolute u"
  shows "emits (confined (ro_Path (sp_Root s)) (upper_dir env s)) (steps (root_steps env cid s))"
proof -
  have "emits (confined (ro_Path (sp_Root s)) (upper_dir env s)) (setupOverlay env (ro_Path (sp_Root s)) (an_Image (sp_Annotations s)))"
    using assms(2) by (intro setupOverlay_confined) (simp add: upper_dir_def Let_def)
  then show ?thesis using assms(1)
    by (auto simp: root_steps_def Let_def setHostnameToContainerId_def IsOCIBundleMode_def ensureRootfsMountpoint_def below_refl
        intro!: emits_intro join_step_confined user_root_confined setEnv_confined private_confined mountFilesystem_confined mountStdDevice_confined
          createLinuxDevices_confined createSymbolicLink_confined applyMaskedPaths_confined applyReadonlyPaths_confined propagation_confined)
qed

section \<open>What a successful run has done\<close>

lemma ensures_sys: "Q [(c, True)] \<Longrightarrow> ensures Q (sys env c)"
  by (auto simp: ensures_def sys_def query_def void_def map_sum_def split: sum.splits)

lemma performs_sys [ensures_intro]: "ensures (performs [c]) (sys env c)"
  by (rule ensures_sys) (simp add: performs_def)

lemma performs_mount [ensures_intro]:
  "ensures (performs [Mount \<lparr>mc_source = src, mc_target = t, mc_fstype = ty, mc_flags = fl, mc_data = d\<rparr>]) (mount env src t ty fl d)"
  unfolding mount_def by (rule performs_sys)

section \<open>The restrictions of a container\<close>

definition mount_of :: "string \<Rightarrow> string \<Rightarrow> string \<Rightarrow> 64 word \<Rightarrow> init_call" where
  "mount_of src t ty fl = Mount \<lparr>mc_source = src, mc_target = t, mc_fstype = ty, mc_flags = fl, mc_data = []\<rparr>"

text \<open>The program of the filter of a specification, if it needs one, and what the kernel decides with it for a call of the native architecture.\<close>

definition seccomp_program :: "init_env \<Rightarrow> SeccompObject option \<Rightarrow> SockFilter list option" where
  "seccomp_program env c = (case c of None \<Rightarrow> None | Some cfg \<Rightarrow>
     (case (AuditArchForGOARCH (iv_goarch env), block_rules (iv_goarch env) (iv_sysnr env) (se_Syscalls cfg) []) of
        (Inr arch, Inr blocked) \<Rightarrow> if blocked = [] then None else Some (filter_program arch blocked)
      | _ \<Rightarrow> None))"

definition kernel_verdict :: "string \<Rightarrow> SockFilter list option \<Rightarrow> 32 word \<Rightarrow> verdict" where
  "kernel_verdict goarch prog nr = (case (prog, AuditArchForGOARCH goarch) of
     (Some p, Inr arch) \<Rightarrow> (case bpf_run p nr arch 0 of Some k \<Rightarrow> verdict_of k | None \<Rightarrow> Kill)
   | _ \<Rightarrow> Allow)"

text \<open>
  What has to have been done, in this order, before the entry point of a container runs: mounts are private, the root is changed and the old one
  gone, the root is read-only if wanted, no new privileges, the filter, exactly the known capabilities of the specification, the resource limits,
  the working directory, and the user.
\<close>

definition root_milestones :: "Spec \<Rightarrow> init_call list" where
  "root_milestones s = [mount_of [] ''/'' [] (MS_PRIVATE OR MS_REC), mount_of (ro_Path (sp_Root s)) (ro_Path (sp_Root s)) [] (MS_BIND OR MS_REC)]"

definition known_caps :: "CapabilityObject \<Rightarrow> CapabilityObject" where
  "known_caps c = \<lparr>ca_Bounding = ToCaps (ca_Bounding c), ca_Permitted = ToCaps (ca_Permitted c), ca_Inheritable = ToCaps (ca_Inheritable c),
     ca_Effective = ToCaps (ca_Effective c), ca_Ambient = ToCaps (ca_Ambient c)\<rparr>"

definition process_milestones :: "init_env \<Rightarrow> Spec \<Rightarrow> init_call list list" where
  "process_milestones env s = (let rootfs = ro_Path (sp_Root s); p = sp_Process s; u = po_User p in
     [[PivotRoot rootfs (filepath_Join [rootfs, ''put_old'']), Chdir ''/'', Unmount ''/put_old''],
      (if \<not> ro_Readonly (sp_Root s) then [] else [mount_of [] ''/'' [] (MS_BIND OR MS_REMOUNT OR MS_RDONLY OR MS_REC)]),
      (if \<not> po_NoNewPrivileges p then [] else [NoNewPrivs]),
      (case seccomp_program env (ls_Seccomp (sp_LinuxSpec s)) of None \<Rightarrow> [] | Some prog \<Rightarrow> [InstallFilter prog]),
      [ApplyCaps (known_caps (po_Capabilities p))], [],
      map (\<lambda>r. Setrlimit (the (RlimitResource (rl_Type r))) (rl_Soft r) (rl_Hard r)) (po_Rlimits p), [Chdir (po_Cwd p)],
      (if us_AdditionalGids u = [] then [] else [Setgroups (us_AdditionalGids u)]) @ [Setresgid (us_GID u), Setresuid (us_UID u)]])"

definition milestones :: "init_env \<Rightarrow> Spec \<Rightarrow> init_call list" where
  "milestones env s = root_milestones s @ concat (process_milestones env s)"

lemma install_performs:
  "ensures (performs (case seccomp_program env c of None \<Rightarrow> [] | Some prog \<Rightarrow> [InstallFilter prog])) (install_seccomp env c)"
proof (cases c)
  case None
  then show ?thesis by (simp add: install_seccomp_def seccomp_program_def ensures_def performs_def)
next
  case (Some cfg)
  have "\<exists>evs. tr' = tr @ evs \<and> performs (case seccomp_program env c of None \<Rightarrow> [] | Some prog \<Rightarrow> [InstallFilter prog]) evs"
    if run: "InstallDenyFilter (iv_goarch env) (iv_sysnr env) (\<lambda>prog. sys env (InstallFilter prog)) cfg tr = (Inr (), tr')" for tr tr'
  proof -
    obtain arch blocked where "AuditArchForGOARCH (iv_goarch env) = Inr arch"
      "block_rules (iv_goarch env) (iv_sysnr env) (se_Syscalls cfg) [] = Inr blocked"
      and i: "blocked = [] \<and> tr' = tr \<or> blocked \<noteq> [] \<and> sys env (InstallFilter (filter_program arch blocked)) tr = (Inr (), tr')"
      using run by (auto simp: InstallDenyFilter_def split: sum.splits if_splits prod.splits)
    then have "seccomp_program env c = (if blocked = [] then None else Some (filter_program arch blocked))"
      by (simp add: seccomp_program_def Some)
    with i performs_sys [of "InstallFilter (filter_program arch blocked)" env] show ?thesis
      unfolding ensures_def by (auto simp: performs_def)
  qed
  then have "ensures (performs (case seccomp_program env c of None \<Rightarrow> [] | Some prog \<Rightarrow> [InstallFilter prog]))
      (InstallDenyFilter (iv_goarch env) (iv_sysnr env) (\<lambda>prog. sys env (InstallFilter prog)) cfg)"
    by (simp add: ensures_def)
  then show ?thesis by (simp add: install_seccomp_def Some ensures_wrapped)
qed

lemma pivot_performs:
  "ensures (performs [PivotRoot rootfs (filepath_Join [rootfs, ''put_old'']), Chdir ''/'', Unmount ''/put_old'']) (pivotRoot env rootfs)"
proof -
  have "ensures (performs (concat [[Mkdir (filepath_Join [rootfs, ''put_old''])], [PivotRoot rootfs (filepath_Join [rootfs, ''put_old''])],
      [Chdir ''/''], [Unmount ''/put_old''], [Rmdir ''/put_old'']])) (pivotRoot env rootfs)"
    unfolding pivotRoot_def Let_def by (rule performs_steps) (simp add: performs_sys)
  then show ?thesis by (rule performs_weaken [rotated]) simp
qed

lemma caps_performs: "ensures (performs [ApplyCaps (known_caps c)]) (setCapability env c)"
proof -
  have "ensures (performs (concat [[], [ApplyCaps (known_caps c)]])) (setCapability env c)"
    unfolding setCapability_def known_caps_def by (rule performs_steps) (auto intro!: ensures_intro performs_nil [of "\<lambda>_. True"] emits_intro)
  then show ?thesis by simp
qed

lemma rlimits_performs:
  "ensures (performs (map (\<lambda>r. Setrlimit (the (RlimitResource (rl_Type r))) (rl_Soft r) (rl_Hard r)) rs)) (setRlimits env rs)"
proof -
  have "ensures (performs (concat (map (\<lambda>r. [Setrlimit (the (RlimitResource (rl_Type r))) (rl_Soft r) (rl_Hard r)]) rs))) (setRlimits env rs)"
    unfolding setRlimits_def
    by (rule performs_steps) (auto simp: list_all2_conv_all_nth ensures_def split: option.splits intro!: performs_sys [unfolded ensures_def, rule_format])
  then show ?thesis by (simp add: concat_map_singleton)
qed

lemma user_performs:
  "ensures (performs ((if us_AdditionalGids u = [] then [] else [Setgroups (us_AdditionalGids u)]) @ [Setresgid (us_GID u), Setresuid (us_UID u)]))
     (setProcessUser env u)"
proof -
  have "ensures (performs (concat [if us_AdditionalGids u = [] then [] else [Setgroups (us_AdditionalGids u)], [Setresgid (us_GID u)], [Setresuid (us_UID u)], []]))
     (setProcessUser env u)"
    unfolding setProcessUser_def
    by (rule performs_steps) (auto simp: done_if_def intro!: ensures_intro performs_nil [of "\<lambda>_. True"] emits_intro split: option.split)
  then show ?thesis by simp
qed

section \<open>No entry point before its time\<close>

definition no_exec :: "init_call \<Rightarrow> bool" where
  "no_exec c \<longleftrightarrow> (\<forall>p as es. c \<noteq> Exec p as es)"

lemma overlay_no_exec: "emits no_exec (setupOverlay env root a)"
  by (auto simp: setupOverlay_def ensureOverlayManagedFileTargets_def ensure_target_def list_all_iff no_exec_def
      intro!: emits_intro split: sum.split)

lemma required_no_exec: "emits no_exec (required_mounts env cid b)"
proof -
  have "emits no_exec (filterMissingManagedFileMounts env ms)" for ms
    by (induction ms) (auto simp: no_exec_def intro!: emits_intro)
  then show ?thesis by (auto simp: required_mounts_def Let_def intro!: emits_intro)
qed

lemma mount_one_no_exec: "emits no_exec (mount_one env root m)"
  by (auto simp: mount_one_def Let_def hostUsesUnifiedCgroupV2_def prepare_bind_target_def SecureMount_def applyMountPropagation_def
      no_exec_def intro!: emits_intro split: option.split)

lemma mountFilesystem_no_exec: "emits no_exec (mountFilesystem env cid root ms b)"
  by (auto simp: mountFilesystem_def list_all_iff intro!: emits_intro required_no_exec mount_one_no_exec)

lemma devices_no_exec:
  "emits no_exec (mountStdDevice env root)" "emits no_exec (createLinuxDevices env root ds)" "emits no_exec (createSymbolicLink env root)"
  by (auto simp: mountStdDevice_def mount_device_def createLinuxDevices_def create_device_def createSymbolicLink_def Let_def list_all_iff no_exec_def
      intro!: emits_intro split: sum.split option.split)

lemma paths_no_exec: "emits no_exec (applyMaskedPaths env root ps)" "emits no_exec (applyReadonlyPaths env root ps)"
  by (auto simp: applyMaskedPaths_def mask_path_def mask_file_def make_file_def applyReadonlyPaths_def protect_path_def list_all_iff no_exec_def
      intro!: emits_intro split: sum.split)

lemma root_no_exec: "list_all (emits no_exec) (root_steps env cid s)"
  by (auto simp: root_steps_def Let_def setHostnameToContainerId_def IsOCIBundleMode_def ensureRootfsMountpoint_def applyMountPropagation_def
      join_step_def join_existing_def switchToUserNamespaceRoot_def setEnv_def makeMountsPrivate_def list_all_iff no_exec_def
      intro!: emits_intro overlay_no_exec mountFilesystem_no_exec devices_no_exec paths_no_exec split: option.split)

lemma process_no_exec: "list_all (emits no_exec) (process_steps env s)"
proof -
  have "emits no_exec (install_seccomp env c)" for c
  proof (cases c)
    case (Some cfg)
    have "emits no_exec (InstallDenyFilter (iv_goarch env) (iv_sysnr env) (\<lambda>prog. sys env (InstallFilter prog)) cfg)"
      unfolding emits_def
      by (auto simp: InstallDenyFilter_def sys_def void_def query_def no_exec_def split: sum.split prod.split)
    then show ?thesis by (simp add: install_seccomp_def Some emits_wrapped)
  qed (simp add: install_seccomp_def emits_Pair)
  then show ?thesis
    by (auto simp: process_steps_def Let_def pivotRoot_def makeCurrentRootReadonly_def setCapability_def setOOMScoreAdj_def setRlimits_def
        setProcessUser_def list_all_iff no_exec_def intro!: emits_intro split: option.split)
qed

lemma prepare_no_exec: "emits no_exec (prepare env cid s)"
  unfolding prepare_def by (rule emits_steps) (simp add: root_no_exec process_no_exec)

lemma root_performs: "ensures (performs (root_milestones s)) (steps (root_steps env cid s))"
proof -
  have "list_all2 (\<lambda>cs f. ensures (performs cs) f)
    [[], [], [], [], [mount_of [] ''/'' [] (MS_PRIVATE OR MS_REC)], [], [], [], [], [], [], [],
     [mount_of (ro_Path (sp_Root s)) (ro_Path (sp_Root s)) [] (MS_BIND OR MS_REC)], []] (root_steps env cid s)"
    using root_no_exec [of env cid s]
    by (simp add: root_steps_def Let_def performs_nil [of no_exec] makeMountsPrivate_def ensureRootfsMountpoint_def mount_of_def ensures_intro)
  from performs_steps [OF this] show ?thesis by (simp add: root_milestones_def)
qed

lemma process_performs: "ensures (performs (concat (process_milestones env s))) (steps (process_steps env s))"
proof (rule performs_steps)
  have "emits no_exec (wrapped ''set oom_score_adj'' (setOOMScoreAdj env (po_OOMScoreAdj (sp_Process s))))"
    using process_no_exec [of env s] by (simp add: process_steps_def Let_def)
  then show "list_all2 (\<lambda>cs f. ensures (performs cs) f) (process_milestones env s) (process_steps env s)"
    unfolding process_milestones_def process_steps_def Let_def
    by (simp only: list_all2_Cons list_all2_Nil simp_thms)
      (intro conjI ensures_intro performs_nil pivot_performs install_performs caps_performs rlimits_performs user_performs,
       simp_all add: mount_of_def makeCurrentRootReadonly_def ensures_intro)
qed

lemma steps_append: "steps (fs @ gs) = and_then (steps fs) (\<lambda>_. steps gs)"
  by (induction fs) (auto simp: and_then_def fun_eq_iff split: prod.split sum.split)

lemma prepare_performs: "ensures (performs (milestones env s)) (prepare env cid s)"
  unfolding prepare_def milestones_def steps_append by (intro performs_and_then root_performs process_performs)

lemma steps_succeed: "steps fs tr = (Inr r, tr') \<Longrightarrow> f \<in> set fs \<Longrightarrow> \<exists>tr1 tr2. f tr1 = (Inr (), tr2)"
  by (induction fs arbitrary: tr) (auto simp: and_then_Inr)

lemma prepare_seccomp:
  assumes "prepare env cid s tr = (Inr r, tr')" "ls_Seccomp (sp_LinuxSpec s) = Some cfg"
  obtains arch blocked where "AuditArchForGOARCH (iv_goarch env) = Inr arch"
    "block_rules (iv_goarch env) (iv_sysnr env) (se_Syscalls cfg) [] = Inr blocked"
proof -
  have "install_seccomp env (Some cfg) \<in> set (root_steps env cid s @ process_steps env s)"
    using assms(2) by (simp add: process_steps_def Let_def)
  then obtain tr1 tr2 where "install_seccomp env (Some cfg) tr1 = (Inr (), tr2)"
    using steps_succeed [OF assms(1) [unfolded prepare_def], of "install_seccomp env (Some cfg)"] by auto
  then show ?thesis using that
    by (auto simp: install_seccomp_def wrapped_def InstallDenyFilter_def split: sum.splits prod.splits if_splits)
qed

lemma program_verdict:
  assumes "AuditArchForGOARCH (iv_goarch env) = Inr arch" "block_rules (iv_goarch env) (iv_sysnr env) (se_Syscalls cfg) [] = Inr blocked"
    and "\<forall>rule \<in> set (se_Syscalls cfg). unat (ErrnoForRule rule) < 2 ^ 16"
  shows "kernel_verdict (iv_goarch env) (seccomp_program env (Some cfg)) nr = wanted_verdict (iv_sysnr env) cfg nr"
proof -
  have l: "map_of blocked nr = map_option ErrnoForRule (find (rule_denies (iv_sysnr env) nr) (se_Syscalls cfg))"
    using block_rules_lookup [OF assms(2), of nr] by simp
  show ?thesis
  proof (cases "find (rule_denies (iv_sysnr env) nr) (se_Syscalls cfg)")
    case None
    with l assms(1,2) show ?thesis
      by (auto simp: kernel_verdict_def seccomp_program_def wanted_verdict_def run_program verdict_simps)
  next
    case (Some rule)
    then have "unat (ErrnoForRule rule) < 2 ^ 16" using assms(3) by (auto simp: find_Some_iff)
    with Some l assms(1,2) show ?thesis
      by (auto simp: kernel_verdict_def seccomp_program_def wanted_verdict_def run_program verdict_errno)
  qed
qed

lemma exec_after:
  assumes "emits no_exec f" "e \<in> set (snd (and_then f g tr))" "\<not> no_exec (fst e)" "list_all (\<lambda>e. no_exec (fst e)) tr"
  obtains a tr1 where "f tr = (Inr a, tr1)" "list_all (\<lambda>e. no_exec (fst e)) tr1" "snd (and_then f g tr) = snd (g a tr1)"
    "e \<in> set (snd (g a tr1))"
proof -
  obtain r tr1 where f: "f tr = (r, tr1)" by (cases "f tr")
  then have tr1: "list_all (\<lambda>e. no_exec (fst e)) tr1" using assms(1,4) unfolding emits_def by (metis list_all_append snd_conv)
  show ?thesis
  proof (cases r)
    case (Inl x)
    then show ?thesis using assms(2,3) tr1 f by (auto simp: and_then_def list_all_iff)
  next
    case (Inr a)
    then show ?thesis using that [of a tr1] assms(2) tr1 f by (simp add: and_then_def)
  qed
qed

lemma load_no_exec: "emits no_exec (specSecureLoad env cid)"
  by (auto simp: specSecureLoad_def VerifyLoadAndConsume_def VerifyAndLoad_def Verify_def no_exec_def intro!: emits_intro)

lemma apparmor_no_exec: "emits no_exec (ApplyAAProfileOnExec env p)"
  by (auto simp: ApplyAAProfileOnExec_def IsAAEnabled_def Let_def no_exec_def intro!: emits_intro)

lemma lookup_no_exec: "emits no_exec (LookupEntrypointPath env a es)"
proof -
  have "emits no_exec (find_executable env a ds)" for ds
    by (induction ds) (auto simp: Let_def no_exec_def intro!: emits_intro split: sum.split)
  then show ?thesis by (simp add: LookupEntrypointPath_def emits_Pair)
qed

lemma load_performs: "ensures (performs [ReadHash cid, HashConfig cid, LoadConfig cid]) (specSecureLoad env cid)"
proof -
  have "ensures (performs [ReadHash cid, HashConfig cid]) (Verify env cid)"
    unfolding Verify_def
    using performs_and_then [OF performs_query performs_and_then [OF performs_query ensures_Pair], of "[]"] by (simp add: performs_def)
  then have "ensures (performs ([ReadHash cid, HashConfig cid] @ [LoadConfig cid])) (VerifyAndLoad env cid)"
    unfolding VerifyAndLoad_def by (rule performs_and_then) (rule performs_query)
  moreover have "ensures (performs []) (and_then (tolerate p (sys env (RemoveHash cid))) (\<lambda>_. Pair (Inr s)))" for p s
    by (rule performs_nil [of "\<lambda>_. True"]) (auto intro!: emits_intro)
  ultimately have "ensures (performs (([ReadHash cid, HashConfig cid] @ [LoadConfig cid]) @ [])) (specSecureLoad env cid)"
    unfolding specSecureLoad_def VerifyLoadAndConsume_def by (rule performs_and_then)
  then show ?thesis by simp
qed

text \<open>A specification that is loaded was read after the hash of its file was found equal to the one recorded.\<close>

definition verified :: "init_env \<Rightarrow> string \<Rightarrow> Spec \<Rightarrow> bool" where
  "verified env cid s \<longleftrightarrow> (\<exists>h. iv_text env [] (ReadHash cid) = Inr h \<and> iv_text env [(ReadHash cid, True)] (HashConfig cid) = Inr h \<and>
     iv_spec env [(ReadHash cid, True), (HashConfig cid, True)] (LoadConfig cid) = Inr s)"

lemma load_verified: "specSecureLoad env cid [] = (Inr s, tr) \<Longrightarrow> verified env cid s"
  by (auto simp: specSecureLoad_def VerifyLoadAndConsume_def VerifyAndLoad_def Verify_def and_then_Inr query_def verified_def split: if_splits)


text \<open>A container whose seccomp filter, masked path and read-only root are set up by calls that all succeed.\<close>

definition ex_init_env :: "Spec \<Rightarrow> init_env" where
  "ex_init_env s = \<lparr>iv_answer = (\<lambda>_ _. Inr OtherFile), iv_text = (\<lambda>_ _. Inr ''text''), iv_spec = (\<lambda>_ _. Inr s), iv_getenv = (\<lambda>_. []), iv_ids = ex_id_env,
     iv_goarch = ''amd64'', iv_sysnr = ex_sys, iv_mkdev = (\<lambda>_ _. 0), iv_image = (\<lambda>_. Inl (Msg ''no image'')), iv_notExist = (\<lambda>_. False),
     iv_permission = (\<lambda>_. False), iv_refused = (\<lambda>_. False)\<rparr>"

definition ex_init_spec :: Spec where
  "ex_init_spec = (let s = projr (buildSpec ex_config_env ex_options) in
     s\<lparr>sp_Annotations := (sp_Annotations s)\<lparr>an_Image := []\<rparr>, sp_Root := \<lparr>ro_Path = ''/r'', ro_Readonly = True\<rparr>,
       sp_Mounts := [\<lparr>mo_Destination = ''/data'', mo_Type = ''bind'', mo_Source = ''/srv/data'', mo_Options = [''ro'']\<rparr>],
       sp_LinuxSpec := (sp_LinuxSpec s)\<lparr>ls_Namespaces := [], ls_Seccomp := Some ex_filter, ls_MaskedPaths := [''/proc/kcore'']\<rparr>\<rparr>)"

definition ex_init_option :: InitOption where
  "ex_init_option = \<lparr>io_ContainerId = ''c1'', io_Fifo = ''f'', io_Entrypoint = [''/bin/sh'']\<rparr>"

lemma ex_init_load: "fst (specSecureLoad (ex_init_env s) cid []) = Inr s"
  by (simp add: specSecureLoad_def VerifyLoadAndConsume_def VerifyAndLoad_def Verify_def ex_init_env_def and_then_def query_def sys_def void_def
      tolerate_def)


section \<open>Nothing outside the root file system\<close>

definition before_pivot :: "init_trace \<Rightarrow> init_trace" where
  "before_pivot = takeWhile (\<lambda>e. case fst e of PivotRoot _ _ \<Rightarrow> False | _ \<Rightarrow> True)"

text \<open>A run whose first call is \<open>c\<close>, and whose second one, if the first succeeds, is \<open>d\<close>.\<close>

definition starts :: "init_call \<Rightarrow> init_call \<Rightarrow> (init_trace \<Rightarrow> 'a res \<times> init_trace) \<Rightarrow> bool" where
  "starts c d f \<longleftrightarrow> (\<forall>tr. (\<exists>e. f tr = (Inl e, tr @ [(c, False)])) \<or> (\<exists>b rest. snd (f tr) = tr @ (c, True) # (d, b) # rest))"

lemma sys_cases: "(\<exists>e. sys env c tr = (Inl e, tr @ [(c, False)])) \<or> sys env c tr = (Inr (), tr @ [(c, True)])"
  by (cases "iv_answer env tr c") (simp_all add: sys_def void_def query_def)

lemma starts_sys:
  assumes "emits P (steps fs)" shows "starts c d (steps (sys env c # sys env d # fs))"
  unfolding starts_def
proof
  fix tr
  let ?d = "and_then (sys env d) (\<lambda>_. steps fs)"
  have next_call: "\<exists>b rest. snd (?d tr1) = tr1 @ (d, b) # rest" for tr1
    using sys_cases [of env d tr1]
  proof
    assume "sys env d tr1 = (Inr (), tr1 @ [(d, True)])"
    moreover obtain evs where "snd (steps fs (tr1 @ [(d, True)])) = (tr1 @ [(d, True)]) @ evs" using assms unfolding emits_def by blast
    ultimately show ?thesis by (auto simp: and_then_def)
  qed (auto simp: and_then_def)
  have "steps (sys env c # sys env d # fs) = and_then (sys env c) (\<lambda>_. ?d)" by simp
  then show "(\<exists>e. steps (sys env c # sys env d # fs) tr = (Inl e, tr @ [(c, False)])) \<or>
      (\<exists>b rest. snd (steps (sys env c # sys env d # fs) tr) = tr @ (c, True) # (d, b) # rest)"
    using sys_cases [of env c tr] next_call [of "tr @ [(c, True)]"] by (elim disjE exE) (simp_all add: and_then_def [of "sys env c"])
qed

lemma starts_wrapped: "starts c d f \<Longrightarrow> starts c d (wrapped pre f)"
proof -
  assume f: "starts c d f"
  have "snd (wrapped pre f tr) = snd (f tr) \<and> (\<forall>e tr'. f tr = (Inl e, tr') \<longrightarrow> wrapped pre f tr = (Inl (wrap pre e), tr'))" for tr
    by (auto simp: wrapped_def split: prod.split sum.split)
  with f show ?thesis unfolding starts_def by metis
qed

lemma starts_steps:
  assumes "starts c d f" "emits P (steps fs)" shows "starts c d (steps (f # fs))"
  unfolding starts_def
proof
  fix tr
  from assms(1) consider e where "f tr = (Inl e, tr @ [(c, False)])" | b rest where "snd (f tr) = tr @ (c, True) # (d, b) # rest"
    unfolding starts_def by blast
  then show "(\<exists>e. steps (f # fs) tr = (Inl e, tr @ [(c, False)])) \<or> (\<exists>b rest. snd (steps (f # fs) tr) = tr @ (c, True) # (d, b) # rest)"
  proof cases
    case (2 b rest)
    obtain evs where "snd (steps fs (snd (f tr))) = snd (f tr) @ evs" using assms(2) unfolding emits_def by blast
    with 2 show ?thesis by (cases "f tr"; cases "fst (f tr)") (auto simp: and_then_def)
  qed (simp add: and_then_def)
qed

lemma process_starts:
  "starts (Mkdir (filepath_Join [ro_Path (sp_Root s), ''put_old''])) (PivotRoot (ro_Path (sp_Root s)) (filepath_Join [ro_Path (sp_Root s), ''put_old'']))
     (steps (process_steps env s))"
proof -
  have "emits no_exec (steps (tl (process_steps env s)))" 
    using process_no_exec [of env s] by (intro emits_steps) (cases "process_steps env s"; simp)
  moreover have "emits no_exec (steps [sys env (Chdir ''/''), sys env (Unmount ''/put_old''), sys env (Rmdir ''/put_old'')])"
    by (rule emits_steps) (simp add: emits_sys no_exec_def)
  ultimately show ?thesis
    unfolding process_steps_def Let_def list.sel pivotRoot_def by (intro starts_steps starts_wrapped starts_sys)
qed

text \<open>
  Property C28. Until the root is changed, the targets of mounts and of new files lie, as texts, inside the container.  For an absolute root path and an
  absolute upper directory, whatever else the specification says and the kernel answers, the target of each mount of a run is at or below the root
  path or the mount makes the propagation private, the path of each new file, device and link is below the root path or the upper directory of the
  overlay, and that of each new directory below or on the way to them.  This speaks of the paths as they are handed to the kernel, cleaned of
  dots: symbolic links inside the image, which the kernel follows, are not resolved by the program and not here.
\<close>

theorem init_confined:
  fixes env :: init_env and s :: Spec
  defines "root \<equiv> ro_Path (sp_Root s)"
  assumes "absolute root" and "\<forall>u. upper_dir env s = Some u \<longrightarrow> absolute u"
  shows "\<forall>e \<in> set (before_pivot (snd (prepare env cid s []))). confined root (upper_dir env s) (fst e)"
proof -
  let ?P = "confined root (upper_dir env s)"
  have pr: "emits ?P (steps (root_steps env cid s))" using prepare_root_confined assms(2,3) by (simp add: root_def)
  obtain r tr1 where r: "steps (root_steps env cid s) [] = (r, tr1)" by fastforce
  then have tr1: "list_all (\<lambda>e. ?P (fst e)) tr1" using emits_grows [OF pr] by fastforce
  have stop: "before_pivot (tr1 @ evs) = tr1 @ before_pivot evs" for evs
    unfolding before_pivot_def using tr1
    by (intro takeWhile_append2) (auto simp: list_all_iff confined_def split: init_call.splits)
  have "\<exists>evs. snd (prepare env cid s []) = tr1 @ evs \<and> list_all (\<lambda>e. ?P (fst e)) (before_pivot evs)"
  proof (cases r)
    case (Inl e)
    then show ?thesis by (intro exI [of _ "[]"]) (simp add: prepare_def steps_append and_then_def r before_pivot_def)
  next
    case (Inr u)
    let ?put = "filepath_Join [root, ''put_old'']"
    have "snd (prepare env cid s []) = snd (steps (process_steps env s) tr1)" using Inr by (simp add: prepare_def steps_append and_then_def r)
    with process_starts [of s env] consider "snd (prepare env cid s []) = tr1 @ [(Mkdir ?put, False)]"
      | b rest where "snd (prepare env cid s []) = tr1 @ (Mkdir ?put, True) # (PivotRoot root ?put, b) # rest"
      unfolding starts_def root_def by (metis snd_conv)
    moreover have "below root ?put" using Join_elems [OF assms(2), of "[''put_old'']"] device_names_clean by (simp add: below_def)
    ultimately show ?thesis by cases (auto simp: before_pivot_def confined_def)
  qed
  then obtain evs where "snd (prepare env cid s []) = tr1 @ evs" "list_all (\<lambda>e. ?P (fst e)) (before_pivot evs)" by blast
  then have "list_all (\<lambda>e. ?P (fst e)) (before_pivot (snd (prepare env cid s [])))" using tr1 by (simp add: stop)
  then show ?thesis by (simp add: list_all_iff)
qed

theorem init_confined_witness:
  "list_all (\<lambda>e. confined ''/r'' None (fst e)) (before_pivot (snd (prepare (ex_init_env ex_init_spec) ''c1'' ex_init_spec [])))"
proof -
  have "absolute (ro_Path (sp_Root ex_init_spec))" "upper_dir (ex_init_env ex_init_spec) ex_init_spec = None" "ro_Path (sp_Root ex_init_spec) = ''/r''"
    by code_simp+
  then show ?thesis using init_confined [of ex_init_spec "ex_init_env ex_init_spec" "''c1''"] by (simp add: list_all_iff)
qed

end
