(* ===== verification/Droplet_Init_Paths.thy ===== *)
theory Droplet_Init_Paths
  imports Droplet_Init_Safety
begin

text \<open>
  What the preparation of a container does to masked paths, read-only paths and user mounts: they are in force when it succeeds.
\<close>

section \<open>Hidden paths and user mounts\<close>

text \<open>What hides a path, what makes it read-only, and what became of a path that is missing.\<close>

definition hidden :: "string \<Rightarrow> init_trace \<Rightarrow> bool" where
  "hidden t evs \<longleftrightarrow> performs [mount_of ''tmpfs'' t ''tmpfs'' (MS_NOSUID OR MS_NODEV OR MS_NOEXEC), mount_of [] t [] hidden_flags] evs \<or>
     performs [mount_of ''/dev/null'' t [] MS_BIND, mount_of [] t [] hidden_flags] evs"

definition missing :: "string \<Rightarrow> init_trace \<Rightarrow> bool" where
  "missing t evs \<longleftrightarrow> (Stat t, False) \<in> set evs"

lemma mask_file_hides: "ensures (hidden t) (mask_file env t b)"
proof -
  have "ensures (performs (concat [[], [], [mount_of ''/dev/null'' t [] MS_BIND], [mount_of [] t [] hidden_flags]])) (mask_file env t b)"
    unfolding mask_file_def make_file_def
    by (rule performs_steps) (auto simp: mount_of_def done_if_def intro!: ensures_intro performs_nil [of "\<lambda>_. True"] emits_intro)
  then show ?thesis by (rule ensures_mono) (simp add: hidden_def)
qed

lemma mask_path_hides:
  "ensures (\<lambda>evs. \<exists>t. SecurePath root p = Inr t \<and> (hidden t evs \<or> ShouldSkipMissingMaskedPath p \<and> missing t evs)) (mask_path env root p)"
  unfolding mask_path_def
proof (rule ensures_and_then_Pair)
  fix t
  assume t: "SecurePath root p = Inr t"
  have dir: "ensures (hidden t) (steps [mount env ''tmpfs'' t ''tmpfs'' (MS_NOSUID OR MS_NODEV OR MS_NOEXEC) [], mount env [] t [] hidden_flags []])"
  proof -
    have "ensures (performs (concat [[mount_of ''tmpfs'' t ''tmpfs'' (MS_NOSUID OR MS_NODEV OR MS_NOEXEC)], [mount_of [] t [] hidden_flags]]))
        (steps [mount env ''tmpfs'' t ''tmpfs'' (MS_NOSUID OR MS_NODEV OR MS_NOEXEC) [], mount env [] t [] hidden_flags []])"
      by (rule performs_steps) (simp add: mount_of_def ensures_intro)
    then show ?thesis by (rule ensures_mono) (simp add: hidden_def)
  qed
  show "ensures (\<lambda>evs. \<exists>t. SecurePath root p = Inr t \<and> (hidden t evs \<or> ShouldSkipMissingMaskedPath p \<and> missing t evs))
     (then_do (query (iv_answer env) (Stat t)) (\<lambda>r. case r of
       Inr info \<Rightarrow> if info = Directory
         then steps [mount env ''tmpfs'' t ''tmpfs'' (MS_NOSUID OR MS_NODEV OR MS_NOEXEC) [], mount env [] t [] hidden_flags []] else mask_file env t False
     | Inl e \<Rightarrow> if \<not> iv_notExist env e then Pair (Inl e) else if ShouldSkipMissingMaskedPath p then Pair (Inr ()) else mask_file env t True))"
  proof (rule ensures_query_then)
    fix e
    have "ensures (hidden t) (mask_file env t True)" by (rule mask_file_hides)
    then show "ensures (\<lambda>evs. \<exists>u. SecurePath root p = Inr u \<and> (hidden u ((Stat t, False) # evs) \<or> ShouldSkipMissingMaskedPath p \<and> missing u ((Stat t, False) # evs)))
       (case Inl e of Inr info \<Rightarrow> if info = Directory
         then steps [mount env ''tmpfs'' t ''tmpfs'' (MS_NOSUID OR MS_NODEV OR MS_NOEXEC) [], mount env [] t [] hidden_flags []] else mask_file env t False
     | Inl e \<Rightarrow> if \<not> iv_notExist env e then Pair (Inl e) else if ShouldSkipMissingMaskedPath p then Pair (Inr ()) else mask_file env t True)"
      using t by (auto simp: missing_def hidden_def performs_def ensures_def)
  qed (use t dir mask_file_hides [of t env False] in \<open>auto simp: hidden_def missing_def intro: performs_skip elim!: ensures_mono\<close>)
qed

lemma protect_path_readonly:
  "ensures (\<lambda>evs. \<exists>t. SecurePath root p = Inr t \<and>
     (performs [mount_of t t [] (MS_BIND OR MS_REC), mount_of [] t [] (MS_BIND OR MS_REMOUNT OR MS_RDONLY OR MS_REC)] evs \<or> missing t evs)) (protect_path env root p)"
  unfolding protect_path_def
proof (rule ensures_and_then_Pair)
  fix t
  assume t: "SecurePath root p = Inr t"
  let ?ro = "[mount_of t t [] (MS_BIND OR MS_REC), mount_of [] t [] (MS_BIND OR MS_REMOUNT OR MS_RDONLY OR MS_REC)]"
  let ?Q = "\<lambda>evs. \<exists>t. SecurePath root p = Inr t \<and>
     (performs [mount_of t t [] (MS_BIND OR MS_REC), mount_of [] t [] (MS_BIND OR MS_REMOUNT OR MS_RDONLY OR MS_REC)] evs \<or> missing t evs)"
  let ?g = "\<lambda>r. case r of Inl e \<Rightarrow> Pair (if iv_notExist env e then Inr () else Inl e)
     | Inr _ \<Rightarrow> steps [mount env t t [] (MS_BIND OR MS_REC) [], mount env [] t [] (MS_BIND OR MS_REMOUNT OR MS_RDONLY OR MS_REC) []]"
  have "ensures (performs (concat [[mount_of t t [] (MS_BIND OR MS_REC)], [mount_of [] t [] (MS_BIND OR MS_REMOUNT OR MS_RDONLY OR MS_REC)]]))
      (steps [mount env t t [] (MS_BIND OR MS_REC) [], mount env [] t [] (MS_BIND OR MS_REMOUNT OR MS_RDONLY OR MS_REC) []])"
    by (rule performs_steps) (simp add: mount_of_def ensures_intro)
  then have ro: "ensures (performs ?ro) (?g (Inr x))" for x by simp
  have "then_do (sys env (Stat t)) ?g = then_do (query (iv_answer env) (Stat t)) (\<lambda>r. ?g (map_sum id (\<lambda>_. ()) r))"
    by (simp add: then_do_def sys_def void_def fun_eq_iff split: prod.split)
  moreover have "ensures ?Q (then_do (query (iv_answer env) (Stat t)) (\<lambda>r. ?g (map_sum id (\<lambda>_. ()) r)))"
  proof (rule ensures_query_then)
    show "ensures ?Q (?g (map_sum id (\<lambda>_. ()) (Inr x)))" for x :: file_kind
      using ensures_mono [OF ro [of "()"], of ?Q] t by simp
    show "ensures (\<lambda>evs. ?Q ((Stat t, False) # evs)) (?g (map_sum id (\<lambda>_. ()) (Inl e)))" for e
      using t by (simp add: ensures_def missing_def)
  qed (auto simp: missing_def intro: performs_skip)
  ultimately show "ensures ?Q (then_do (sys env (Stat t)) ?g)" by simp
qed

text \<open>The options of a mount.\<close>

lemma word_or_and: "(a OR b) AND f \<noteq> 0 \<longleftrightarrow> a AND f \<noteq> 0 \<or> b AND f \<noteq> (0 :: 64 word)"
  by (simp add: bit.conj_disj_distrib2 or_eq_0_iff)

lemma add_option_keeps: "op_flags p AND f \<noteq> 0 \<Longrightarrow> op_flags (add_option opt p) AND f \<noteq> 0"
  by (auto simp: add_option_def word_or_and split: option.split)

lemma flag_present: "MS_BIND \<noteq> 0" "MS_RDONLY \<noteq> 0" "MS_BIND AND MS_BIND \<noteq> 0" "(MS_BIND OR MS_REC) AND MS_BIND \<noteq> 0" "MS_RDONLY AND MS_RDONLY \<noteq> 0"
  by (simp_all add: MS_BIND_def MS_REC_def MS_RDONLY_def)

lemma add_option_bind: "op_bind (add_option opt p) \<Longrightarrow> op_bind p \<or> op_flags (add_option opt p) AND MS_BIND \<noteq> 0"
  by (cases "map_of flag_options opt") (simp_all add: add_option_def word_or_and flag_present split: if_splits)

lemma fold_options:
  fixes opts :: "string list"
  defines "p \<equiv> fold add_option opts no_opts"
  shows "(op_bind p \<longrightarrow> op_flags p AND MS_BIND \<noteq> 0) \<and> (''ro'' \<in> set opts \<longrightarrow> op_flags p AND MS_RDONLY \<noteq> 0) \<and> (op_dev p \<longrightarrow> ''dev'' \<in> set opts)"
  unfolding p_def
proof (induction opts rule: rev_induct)
  case (snoc opt opts)
  let ?p = "fold add_option opts no_opts"
  have "op_flags (add_option ''ro'' ?p) AND MS_RDONLY \<noteq> 0" by (simp add: add_option_def flag_options_def word_or_and flag_present)
  moreover have "op_bind (add_option opt ?p) \<longrightarrow> op_flags (add_option opt ?p) AND MS_BIND \<noteq> 0"
    using snoc.IH add_option_keeps [of ?p MS_BIND opt] add_option_bind [of opt ?p] by blast
  moreover have "op_dev (add_option opt ?p) \<longrightarrow> opt = ''dev'' \<or> op_dev ?p" 
    by (cases "map_of flag_options opt") (simp_all add: add_option_def)
  ultimately show ?case using snoc.IH add_option_keeps [of ?p MS_RDONLY opt] by auto
qed (simp add: no_opts_def)

lemma mount_options_flags:
  "(op_bind (mount_options m) \<longrightarrow> op_flags (mount_options m) AND MS_BIND \<noteq> 0) \<and>
   (''ro'' \<in> set (mo_Options m) \<longrightarrow> op_flags (mount_options m) AND MS_RDONLY \<noteq> 0) \<and> (op_dev (mount_options m) \<longrightarrow> ''dev'' \<in> set (mo_Options m))"
proof -
  show ?thesis using fold_options [of "mo_Options m"] by (auto simp: mount_options_def Let_def word_or_and flag_present)
qed

text \<open>A bind mount that is followed by its hardening.\<close>

definition hardened :: "MountObject \<Rightarrow> string \<Rightarrow> init_trace \<Rightarrow> bool" where
  "hardened m t evs \<longleftrightarrow> (\<exists>c fl. mc_source c = mo_Source m \<and> mc_target c = t \<and> mc_flags c AND MS_BIND \<noteq> 0 \<and>
     performs [Mount c, mount_of [] t [] fl] evs \<and> fl AND MS_REMOUNT \<noteq> 0 \<and> fl AND MS_NOSUID \<noteq> 0 \<and> fl AND MS_NOEXEC \<noteq> 0 \<and>
     (''dev'' \<notin> set (mo_Options m) \<longrightarrow> fl AND MS_NODEV \<noteq> 0) \<and> (''ro'' \<in> set (mo_Options m) \<longrightarrow> fl AND MS_RDONLY \<noteq> 0))"

lemma SecureMount_hardened:
  assumes "op_bind (mount_options m)" 
  shows "ensures (hardened m t) (SecureMount env (mo_Source m) t ty (op_flags (mount_options m)) d (op_dev (mount_options m)))"
proof -
  let ?p = "mount_options m"
  let ?ty = "if ty = ''bind'' then [] else ty"
  let ?fl = "MS_BIND OR MS_REMOUNT OR MS_NOEXEC OR MS_NOSUID OR (if \<not> op_dev ?p then MS_NODEV else 0) OR
    (if op_flags ?p AND MS_RDONLY \<noteq> 0 then MS_RDONLY else 0)"
  let ?c = "\<lparr>mc_source = mo_Source m, mc_target = t, mc_fstype = ?ty, mc_flags = op_flags ?p, mc_data = d\<rparr>"
  have bind: "op_flags ?p AND MS_BIND \<noteq> 0" using mount_options_flags [of m] assms by blast
  have "ensures (performs (concat [[Mount ?c], [mount_of [] t [] ?fl], [mount_of [] t [] (MS_PRIVATE OR MS_REC)]]))
      (SecureMount env (mo_Source m) t ty (op_flags ?p) d (op_dev ?p))"
    unfolding SecureMount_def Let_def
    by (rule performs_steps) (simp add: bind done_if_def mount_of_def ensures_intro)
  moreover have "?fl AND MS_REMOUNT \<noteq> 0" "?fl AND MS_NOSUID \<noteq> 0" "?fl AND MS_NOEXEC \<noteq> 0"
    "''dev'' \<notin> set (mo_Options m) \<longrightarrow> ?fl AND MS_NODEV \<noteq> 0" "''ro'' \<in> set (mo_Options m) \<longrightarrow> ?fl AND MS_RDONLY \<noteq> 0"
    using mount_options_flags [of m]
    by (auto simp: word_or_and MS_REMOUNT_def MS_NOSUID_def MS_NOEXEC_def MS_NODEV_def MS_RDONLY_def)
  ultimately show ?thesis
  proof (elim ensures_mono, goal_cases)
    case (1 evs)
    have "subseq [Mount ?c, mount_of [] t [] ?fl] (concat [[Mount ?c], [mount_of [] t [] ?fl], [mount_of [] t [] (MS_PRIVATE OR MS_REC)]])" by simp
    with 1 have "performs [Mount ?c, mount_of [] t [] ?fl] evs" by (blast intro: performs_sub)
    with 1 bind show ?case unfolding hardened_def by (intro exI [of _ ?c] exI [of _ ?fl]) simp
  qed
qed

lemma hardened_within: "hardened m t b \<Longrightarrow> hardened m t (a @ b @ c)"
  unfolding hardened_def by (blast intro: performs_within)

lemma mount_one_hardened:
  assumes "op_bind (mount_options m)" "mo_Type m \<noteq> ''cgroup''"
  shows "ensures (\<lambda>evs. \<exists>t. SecurePath root (mo_Destination m) = Inr t \<and> hardened m t evs) (mount_one env root m)"
proof -
  have any: "ensures (\<lambda>_. True) (prepare_bind_target env src t)" for src t
    by (rule ensures_mono [OF performs_nil [of "\<lambda>_. True"]]) (auto simp: prepare_bind_target_def intro!: emits_intro)
  let ?after = "\<lambda>t _. steps
          [wrapped ''mount fs failed'' (SecureMount env (mo_Source m) t (mo_Type m) (op_flags (mount_options m))
             (str_join '','' (op_data (mount_options m))) (op_dev (mount_options m))),
           done_if (op_propagation (mount_options m) = []) (wrapped ''mount propagation failed'' (applyMountPropagation env t (op_propagation (mount_options m))))]"
  have "ensures (hardened m t) (?after t u)" for t and u :: unit
  proof (rule ensures_member)
    show "ensures (hardened m t) (wrapped ''mount fs failed'' (SecureMount env (mo_Source m) t (mo_Type m) (op_flags (mount_options m))
             (str_join '','' (op_data (mount_options m))) (op_dev (mount_options m))))"
      by (intro ensures_wrapped SecureMount_hardened assms(1))
    show "list_all (emits (\<lambda>_. True)) [wrapped ''mount fs failed'' (SecureMount env (mo_Source m) t (mo_Type m) (op_flags (mount_options m))
             (str_join '','' (op_data (mount_options m))) (op_dev (mount_options m))),
           done_if (op_propagation (mount_options m) = []) (wrapped ''mount propagation failed'' (applyMountPropagation env t (op_propagation (mount_options m))))]"
      by (auto simp: SecureMount_def Let_def applyMountPropagation_def intro!: emits_intro split: option.split)
  qed (simp_all add: hardened_within)
  from ensures_and_then [OF any this]
  have "ensures (hardened m t) (and_then (prepare_bind_target env (mo_Source m) t) (?after t))" for t
    by (rule ensures_mono) (use hardened_within [of m t _ _ "[]"] in auto)
  moreover have "mount_one env root m = and_then (Pair (SecurePath root (mo_Destination m))) (\<lambda>t. and_then (prepare_bind_target env (mo_Source m) t) (?after t))"
    using assms by (simp add: mount_one_def Let_def then_do_def [abs_def])
  ultimately show ?thesis by (auto intro!: ensures_and_then_Pair elim!: ensures_mono)
qed

lemma hidden_within: "hidden t b \<Longrightarrow> hidden t (a @ b @ c)"
  unfolding hidden_def by (blast intro: performs_within)

lemma missing_within: "missing t b \<Longrightarrow> missing t (a @ b @ c)"
  by (simp add: missing_def)

lemma masks_emit: "list_all (emits no_exec) (map (mask_path env root) ps)"
  by (auto simp: mask_path_def mask_file_def make_file_def list_all_iff no_exec_def intro!: emits_intro split: sum.split)

lemma protects_emit: "list_all (emits no_exec) (map (protect_path env root) ps)"
  by (auto simp: protect_path_def list_all_iff no_exec_def intro!: emits_intro split: sum.split)

lemma scan_rejects_bind: "scan_options True h opts \<noteq> None \<Longrightarrow> ''bind'' \<notin> set opts \<and> ''rbind'' \<notin> set opts"
  by (induction opts arbitrary: h) (auto simp: bind_options_def split: if_splits)

lemma option_bind: "op_bind (fold add_option opts p) \<Longrightarrow> op_bind p \<or> ''bind'' \<in> set opts \<or> ''rbind'' \<in> set opts"
proof (induction opts arbitrary: p)
  case (Cons x xs)
  have "op_bind (add_option x p) \<Longrightarrow> op_bind p \<or> x = ''bind'' \<or> x = ''rbind''"
    by (cases "map_of flag_options x") (simp_all add: add_option_def split: if_splits)
  with Cons show ?case by fastforce
qed simp

lemma validated_bind:
  assumes "ValidateUserMount m = Inr ()" "op_bind (mount_options m)"
  shows "mo_Type m \<noteq> ''cgroup''"
proof
  assume t: "mo_Type m = ''cgroup''"
  have "op_bind (fold add_option (mo_Options m) no_opts)" using assms(2) t by (simp add: mount_options_def Let_def)
  then have "''bind'' \<in> set (mo_Options m) \<or> ''rbind'' \<in> set (mo_Options m)" using option_bind [of "mo_Options m" no_opts] by (simp add: no_opts_def)
  moreover have "IsAllowedType ''cgroup'' (mo_Options m)" using assms(1) t by (simp add: ValidateUserMount_def split: if_splits)
  then have "scan_options True (''cgroup'' = ''bind'') (mo_Options m) \<noteq> None"
    by (auto simp: IsAllowedType_def Let_def IsAllowedKernelMountType_def split: option.splits)
  ultimately show False using scan_rejects_bind by blast
qed

lemma mounts_no_exec: "list_all (emits no_exec) (map (mount_one env root) ms)"
  by (simp add: list_all_iff mount_one_no_exec)

lemma mountFilesystem_hardened:
  assumes "m \<in> set (sp_Mounts s)"
  shows "ensures (\<lambda>evs. ValidateUserMount m = Inr () \<and> (op_bind (mount_options m) \<longrightarrow> (\<exists>t. SecurePath root (mo_Destination m) = Inr t \<and> hardened m t evs)))
    (then_do (IsOCIBundleMode env cid) (\<lambda>b. wrapped ''mount filesystem'' (mountFilesystem env cid root (sp_Mounts s) b)))"
proof -
  let ?Q = "\<lambda>evs. ValidateUserMount m = Inr () \<and> (op_bind (mount_options m) \<longrightarrow> (\<exists>t. SecurePath root (mo_Destination m) = Inr t \<and> hardened m t evs))"
  have up: "?Q b \<Longrightarrow> ?Q (a @ b)" for a b using hardened_within [of m _ b a "[]"] by auto
  have "ensures ?Q (steps (map (mount_one env root) (required @ sp_Mounts s)))" if v: "ValidateUserMount m = Inr ()" for required
  proof (cases "op_bind (mount_options m)")
    case True
    have "ensures ?Q (mount_one env root m)"
      using mount_one_hardened [OF True validated_bind [OF v True]] by (rule ensures_mono) (use v in auto)
    then show ?thesis
      by (intro ensures_member [OF _ _ mounts_no_exec]) (use assms in \<open>auto intro: hardened_within\<close>)
  next
    case False
    then show ?thesis using v by (intro ensures_mono [OF performs_nil [OF emits_steps [OF mounts_no_exec]]]) simp
  qed
  then have "ensures ?Q (and_then (Pair (first_error ValidateUserMount (sp_Mounts s))) (\<lambda>_. steps (map (mount_one env root) (required @ sp_Mounts s))))" for required
    using assms by (intro ensures_and_then_Pair) (auto simp: first_error_ok)
  moreover have "emits no_exec (required_mounts env cid b)" for b by (rule required_no_exec)
  ultimately show ?thesis
    unfolding mountFilesystem_def IsOCIBundleMode_def
    by (intro ensures_after [of no_exec] ensures_wrapped up emits_then_do emits_query emits_Pair) (auto simp: no_exec_def)
qed

section \<open>The order\<close>

text \<open>
  A mount that puts nothing in place of what is there but an empty file system, the null device or what is there already: the covers of masked
  paths, a place mounted over itself with all that is mounted below it, and changes of flags or propagation.
\<close>

definition covers_only :: "mount_call \<Rightarrow> bool" where
  "covers_only mc \<longleftrightarrow> mc_data mc = [] \<and>
     (mc_source mc = ''tmpfs'' \<and> mc_fstype mc = ''tmpfs'' \<or> mc_source mc = ''/dev/null'' \<and> mc_fstype mc = [] \<or>
      mc_source mc = mc_target mc \<and> mc_fstype mc = [] \<and> mc_flags mc = MS_BIND OR MS_REC \<or>
      mc_source mc = [] \<and> mc_fstype mc = [] \<and> (mc_flags mc AND MS_REMOUNT \<noteq> 0 \<or> (\<exists>p. mountPropagationFlags p = Some (mc_flags mc))))"

definition nothing_uncovered :: "init_call \<Rightarrow> bool" where
  "nothing_uncovered c \<longleftrightarrow> (\<forall>mc. c = Mount mc \<longrightarrow> covers_only mc)"

lemma remounts: "hidden_flags AND MS_REMOUNT \<noteq> 0" "(MS_BIND OR MS_REMOUNT OR MS_RDONLY OR MS_REC) AND MS_REMOUNT \<noteq> 0"
  by (simp_all add: hidden_flags_def MS_REMOUNT_def word_or_and)

lemma covers_emit:
  "emits nothing_uncovered (applyMaskedPaths env root ps)" "emits nothing_uncovered (applyReadonlyPaths env root qs)"
  "emits nothing_uncovered (ensureRootfsMountpoint env root)" "emits nothing_uncovered (applyMountPropagation env root p)"
  using remounts
  by (auto simp: applyMaskedPaths_def mask_path_def mask_file_def make_file_def applyReadonlyPaths_def protect_path_def ensureRootfsMountpoint_def
      applyMountPropagation_def mount_def sys_def list_all_iff nothing_uncovered_def covers_only_def
      intro!: emits_intro emits_and_then_Pair split: sum.split option.split)

lemma install_covers: "emits nothing_uncovered (install_seccomp env c)"
proof (cases c)
  case (Some cfg)
  have "emits nothing_uncovered (InstallDenyFilter (iv_goarch env) (iv_sysnr env) (\<lambda>prog. sys env (InstallFilter prog)) cfg)"
    unfolding emits_def
    by (auto simp: InstallDenyFilter_def sys_def void_def query_def nothing_uncovered_def split: sum.split prod.split)
  then show ?thesis by (simp add: install_seccomp_def Some emits_wrapped)
qed (simp add: install_seccomp_def emits_Pair)

lemma process_covers: "list_all (emits nothing_uncovered) (process_steps env s)"
  using remounts
  by (auto simp: process_steps_def Let_def pivotRoot_def makeCurrentRootReadonly_def setCapability_def setOOMScoreAdj_def setRlimits_def setProcessUser_def
      mount_def sys_def list_all_iff nothing_uncovered_def covers_only_def
      intro!: emits_intro install_covers split: option.split)

text \<open>The steps of the preparation before the paths of the specification are looked at, and those from there on.\<close>

definition first_steps :: "init_env \<Rightarrow> string \<Rightarrow> Spec \<Rightarrow> (init_trace \<Rightarrow> unit res \<times> init_trace) list" where
  "first_steps env cid s = take 10 (root_steps env cid s)"

definition path_steps :: "init_env \<Rightarrow> string \<Rightarrow> Spec \<Rightarrow> (init_trace \<Rightarrow> unit res \<times> init_trace) list" where
  "path_steps env cid s = drop 10 (root_steps env cid s) @ process_steps env s"

lemma path_steps_cover: "list_all (emits nothing_uncovered) (path_steps env cid s)"
  using process_covers [of env s]
  by (auto simp: path_steps_def root_steps_def Let_def intro!: emits_intro covers_emit)

lemma prepare_split: "prepare env cid s = and_then (steps (first_steps env cid s)) (\<lambda>_. steps (path_steps env cid s))"
  unfolding prepare_def first_steps_def path_steps_def by (metis append.assoc append_take_drop_id steps_append)

lemma split_no_exec: "list_all (emits no_exec) (first_steps env cid s)" "list_all (emits no_exec) (path_steps env cid s)"
  using root_no_exec [of env cid s] process_no_exec [of env s]
  by (auto simp: first_steps_def path_steps_def list_all_iff dest: in_set_takeD in_set_dropD)

text \<open>
  Property C30. What the specification asks to be hidden is hidden when the entry point runs.  A preparation that succeeds falls into two parts.  In the first
  each user mount was accepted by the guard and, if it is a bind mount, made again without set-user-id programs, without execution, without devices unless
  they were asked for, and read-only if asked for; user mounts of other types are made with the flags they ask for.  In the second each masked path
  is covered by an empty read-only file system or the null device, unless it is one of \<open>/proc\<close> or \<open>/sys\<close> and did not exist; each read-only path is
  mounted over itself read-only, unless it did not exist; and nothing that is mounted there brings other content in place, so that no mount
  of the specification covers a mask.
\<close>

theorem paths_protected:
  assumes "prepare env cid s tr = (Inr (), tr')"
  defines "root \<equiv> ro_Path (sp_Root s)"
  shows "\<exists>mounting masking. tr' = tr @ mounting @ masking \<and>
    (\<forall>m \<in> set (sp_Mounts s). ValidateUserMount m = Inr () \<and>
       (op_bind (mount_options m) \<longrightarrow> (\<exists>t. SecurePath root (mo_Destination m) = Inr t \<and> hardened m t mounting))) \<and>
    (\<forall>p \<in> set (ls_MaskedPaths (sp_LinuxSpec s)). \<exists>t. SecurePath root p = Inr t \<and>
       (hidden t masking \<or> ShouldSkipMissingMaskedPath p \<and> missing t masking)) \<and>
    (\<forall>p \<in> set (ls_ReadonlyPaths (sp_LinuxSpec s)). \<exists>t. SecurePath root p = Inr t \<and>
       (performs [mount_of t t [] (MS_BIND OR MS_REC), mount_of [] t [] (MS_BIND OR MS_REMOUNT OR MS_RDONLY OR MS_REC)] masking \<or> missing t masking)) \<and>
    (\<forall>e \<in> set masking. nothing_uncovered (fst e))"
proof -
  let ?mounts = "then_do (IsOCIBundleMode env cid) (\<lambda>b. wrapped ''mount filesystem'' (mountFilesystem env cid root (sp_Mounts s) b))"
  have steps: "?mounts \<in> set (first_steps env cid s)"
    "wrapped ''apply masked paths'' (applyMaskedPaths env root (ls_MaskedPaths (sp_LinuxSpec s))) \<in> set (path_steps env cid s)"
    "wrapped ''apply readonly paths'' (applyReadonlyPaths env root (ls_ReadonlyPaths (sp_LinuxSpec s))) \<in> set (path_steps env cid s)"
    by (simp_all add: first_steps_def path_steps_def root_steps_def Let_def root_def)
  obtain tr1 where first: "steps (first_steps env cid s) tr = (Inr (), tr1)" and second: "steps (path_steps env cid s) tr1 = (Inr (), tr')"
    using assms(1) by (auto simp: prepare_split and_then_Inr)
  obtain e1 where e1: "tr1 = tr @ e1" using emits_grows [OF emits_steps [OF split_no_exec(1)] first] by blast
  obtain e2 where e2: "tr' = tr1 @ e2" "list_all (\<lambda>e. nothing_uncovered (fst e)) e2"
    using emits_grows [OF emits_steps [OF path_steps_cover] second] by blast
  have run1: "Q e1" if "f \<in> set (first_steps env cid s)" "ensures Q f" "\<And>a b c. Q b \<Longrightarrow> Q (a @ b @ c)" for f Q
    using ensuresD [OF ensures_member [OF that(1,2) split_no_exec(1) that(3)] first] e1 by auto
  have run2: "Q e2" if "f \<in> set (path_steps env cid s)" "ensures Q f" "\<And>a b c. Q b \<Longrightarrow> Q (a @ b @ c)" for f Q
    using ensuresD [OF ensures_member [OF that(1,2) split_no_exec(2) that(3)] second] e2 by auto
  have mounts: "ValidateUserMount m = Inr () \<and> (op_bind (mount_options m) \<longrightarrow> (\<exists>t. SecurePath root (mo_Destination m) = Inr t \<and> hardened m t e1))"
    if m: "m \<in> set (sp_Mounts s)" for m
    by (rule run1 [OF steps(1)]) (auto intro: mountFilesystem_hardened m hardened_within)
  have masked: "\<exists>t. SecurePath root p = Inr t \<and> (hidden t e2 \<or> ShouldSkipMissingMaskedPath p \<and> missing t e2)"
    if p: "p \<in> set (ls_MaskedPaths (sp_LinuxSpec s))" for p
  proof (rule run2 [OF steps(2)])
    show "ensures (\<lambda>evs. \<exists>t. SecurePath root p = Inr t \<and> (hidden t evs \<or> ShouldSkipMissingMaskedPath p \<and> missing t evs))
        (wrapped ''apply masked paths'' (applyMaskedPaths env root (ls_MaskedPaths (sp_LinuxSpec s))))"
      unfolding applyMaskedPaths_def
      by (intro ensures_wrapped ensures_member [OF _ mask_path_hides masks_emit]) (use p in \<open>auto intro: hidden_within missing_within\<close>)
  qed (auto intro: hidden_within missing_within)
  have readonly: "\<exists>t. SecurePath root p = Inr t \<and>
       (performs [mount_of t t [] (MS_BIND OR MS_REC), mount_of [] t [] (MS_BIND OR MS_REMOUNT OR MS_RDONLY OR MS_REC)] e2 \<or> missing t e2)"
    if p: "p \<in> set (ls_ReadonlyPaths (sp_LinuxSpec s))" for p
  proof (rule run2 [OF steps(3)])
    show "ensures (\<lambda>evs. \<exists>t. SecurePath root p = Inr t \<and>
       (performs [mount_of t t [] (MS_BIND OR MS_REC), mount_of [] t [] (MS_BIND OR MS_REMOUNT OR MS_RDONLY OR MS_REC)] evs \<or> missing t evs))
        (wrapped ''apply readonly paths'' (applyReadonlyPaths env root (ls_ReadonlyPaths (sp_LinuxSpec s))))"
      unfolding applyReadonlyPaths_def
      by (intro ensures_wrapped ensures_member [OF _ protect_path_readonly protects_emit]) (use p in \<open>auto intro: performs_within missing_within\<close>)
  qed (auto intro: performs_within missing_within)
  show ?thesis
    using e1 e2 mounts masked readonly by (intro exI [of _ e1] exI [of _ e2]) (simp add: list_all_iff)
qed

theorem paths_protected_witness:
  "\<exists>mounting masking. snd (prepare (ex_init_env ex_init_spec) ''c1'' ex_init_spec []) = mounting @ masking \<and> hidden ''/r/proc/kcore'' masking \<and>
     (\<exists>t. hardened \<lparr>mo_Destination = ''/data'', mo_Type = ''bind'', mo_Source = ''/srv/data'', mo_Options = [''ro'']\<rparr> t mounting)"
proof -
  let ?m = "\<lparr>mo_Destination = ''/data'', mo_Type = ''bind'', mo_Source = ''/srv/data'', mo_Options = [''ro'']\<rparr>"
  have "fst (prepare (ex_init_env ex_init_spec) ''c1'' ex_init_spec []) = Inr ()" by code_simp
  then have ok: "prepare (ex_init_env ex_init_spec) ''c1'' ex_init_spec [] = (Inr (), snd (prepare (ex_init_env ex_init_spec) ''c1'' ex_init_spec []))"
    by (metis prod.collapse)
  obtain mounting masking where run: "snd (prepare (ex_init_env ex_init_spec) ''c1'' ex_init_spec []) = [] @ mounting @ masking"
    and m: "\<forall>m \<in> set (sp_Mounts ex_init_spec). ValidateUserMount m = Inr () \<and> (op_bind (mount_options m) \<longrightarrow>
       (\<exists>t. SecurePath (ro_Path (sp_Root ex_init_spec)) (mo_Destination m) = Inr t \<and> hardened m t mounting))"
    and h: "\<forall>p \<in> set (ls_MaskedPaths (sp_LinuxSpec ex_init_spec)). \<exists>t. SecurePath (ro_Path (sp_Root ex_init_spec)) p = Inr t \<and>
       (hidden t masking \<or> ShouldSkipMissingMaskedPath p \<and> missing t masking)"
    using paths_protected [OF ok] by (elim exE conjE) (rule that, assumption+)
  have f: "''/proc/kcore'' \<in> set (ls_MaskedPaths (sp_LinuxSpec ex_init_spec))" "?m \<in> set (sp_Mounts ex_init_spec)"
    by (simp_all add: ex_init_spec_def Let_def)
  have g: "op_bind (mount_options ?m)" "\<not> (Stat ''/r/proc/kcore'', False) \<in> set (snd (prepare (ex_init_env ex_init_spec) ''c1'' ex_init_spec []))"
    "SecurePath (ro_Path (sp_Root ex_init_spec)) ''/proc/kcore'' = Inr ''/r/proc/kcore''" by code_simp+
  have "\<exists>t. hardened ?m t mounting" using m f(2) g(1) by blast
  moreover have "\<not> missing ''/r/proc/kcore'' masking" using g(2) run by (simp add: missing_def)
  then have "hidden ''/r/proc/kcore'' masking" using bspec [OF h f(1)] g(3) by auto
  ultimately show ?thesis using run by (metis append_Nil)
qed

end
