(* ===== verification/Droplet_Status.thy ===== *)
theory Droplet_Status
  imports Droplet_Init
begin

text \<open>
  The record of a container's state: \<open>droplet/status/status.go\<close> and \<open>status_io.go\<close> (the file \<open>state.json\<close>), \<open>container/statusflow\<close>
  (the rules of its changes), \<open>container/signals\<close> and \<open>hook/hook_executor.go\<close> (the hooks of the life cycle).
  A run of the runtime records its calls; what is read and answered is an arbitrary function of the calls so far, so other processes may change
  every file between two calls.
\<close>

section \<open>States\<close>

definition CREATING :: int where "CREATING = 0"
definition CREATED :: int where "CREATED = 1"
definition RUNNING :: int where "RUNNING = 2"
definition STOPPED :: int where "STOPPED = 3"

lemmas status_values = CREATING_def CREATED_def RUNNING_def STOPPED_def

definition status_String :: "int \<Rightarrow> string" where
  "status_String s = (if s = CREATING then ''creating'' else if s = CREATED then ''created'' else if s = RUNNING then ''running''
     else if s = STOPPED then ''stopped'' else ''unknown'')"

definition ParseContainerStatus :: "string \<Rightarrow> int res" where
  "ParseContainerStatus s = (let t = to_lower s in
     if t = ''creating'' then Inr CREATING else if t = ''created'' then Inr CREATED else if t = ''running'' then Inr RUNNING
     else if t = ''stopped'' then Inr STOPPED else Inl (Msg (''invalid status: \"'' @ s @ ''\"'')))"

record StatusObject =
  so_OciVersion :: string
  so_Id :: string
  so_Status :: string
  so_ExitCode :: int
  so_Reason :: string
  so_Message :: string
  so_Pid :: int
  so_ShimPid :: int
  so_Rootfs :: string
  so_Bundle :: string
  so_Annotation :: AnnotationObject

section \<open>Calls\<close>

text \<open>A command: its arguments with the program first, its environment, the text on its standard input, and a time limit in seconds.\<close>

record command =
  cd_argv :: "string list"
  cd_env :: "string list"
  cd_stdin :: string
  cd_timeout :: "int option"

datatype life_call =
    ReadStateFile string | ReadStateText string | WriteStateFile string StatusObject | RemoveStateFile string | ListContainerDirs
  | LoadConfigFile string | WriteConfigFile string Spec | HashConfigFile string | ReadHashFile string | WriteHashFile string string
  | SendSignal int int | ReadText string | WriteText string string | StatPath string | AbsPath string | MakeDirs string
  | MakeDir string | RemovePath string | RemoveTree string | RenamePath string string | AccessPath string
  | MakeFifo string | SignalFifo string | ChownPath string int int | ChownTree string int int | CopyShifted string string
  | CreateTemp string | SyncFile string | OpenLog string | OpenPty | SetWinsize nat nat | SendConsole string | ListenSocket string
  | JoinNamespaces | AllowLowPorts
  | RunHook string command | RunCommand command | StartProcess command "ProcAttr option" | WaitProcess int

type_synonym life_trace = "life_call call_trace"

text \<open>
  The surroundings: the success of calls, the texts, numbers, directory entries, states and specifications that are read,
  whether a path is a directory, the exit code of the last process waited for with the signal that ended it, the time that passes at
  each poll beyond the waiting itself (in milliseconds), environment variables, the id environment, the decoders of annotations, and the texts
  of system errors that mean a missing file, a file that exists, or a missing permission.
\<close>

record life_env =
  le_answer :: "life_trace \<Rightarrow> life_call \<Rightarrow> unit res"
  le_state :: "life_trace \<Rightarrow> life_call \<Rightarrow> StatusObject res"
  le_text :: "life_trace \<Rightarrow> life_call \<Rightarrow> string res"
  le_number :: "life_trace \<Rightarrow> life_call \<Rightarrow> int res"
  le_entries :: "life_trace \<Rightarrow> life_call \<Rightarrow> (string \<times> bool) list res"
  le_spec :: "life_trace \<Rightarrow> life_call \<Rightarrow> Spec res"
  le_isDir :: "life_trace \<Rightarrow> life_call \<Rightarrow> bool res"
  le_exit :: "life_trace \<Rightarrow> int \<times> int option"
  le_delay :: "life_trace \<Rightarrow> nat"
  le_getenv :: "string \<Rightarrow> string"
  le_ids :: id_env
  le_proc :: "life_trace \<Rightarrow> proc_env"
  le_net :: "string \<Rightarrow> NetConfigObject res"
  le_image :: "string \<Rightarrow> ImageConfig res"
  le_image_json :: "ImageConfig \<Rightarrow> string res"
  le_readlink :: "string \<Rightarrow> string res"
  le_getpid :: int
  le_self :: string
  le_notExist :: "string \<Rightarrow> bool"
  le_exist :: "string \<Rightarrow> bool"
  le_permission :: "string \<Rightarrow> bool"

definition call :: "life_env \<Rightarrow> life_call \<Rightarrow> life_trace \<Rightarrow> unit res \<times> life_trace" where
  "call env c = query (le_answer env) c"

definition system_error :: "(string \<Rightarrow> bool) \<Rightarrow> go_error \<Rightarrow> bool" where
  "system_error p e = (case e of SysErr m \<Rightarrow> p m | _ \<Rightarrow> False)"

section \<open>The status file\<close>

definition CreateStatusFile :: "life_env \<Rightarrow> string \<Rightarrow> int \<Rightarrow> int \<Rightarrow> string \<Rightarrow> string \<Rightarrow> AnnotationObject \<Rightarrow> life_trace \<Rightarrow> unit res \<times> life_trace" where
  "CreateStatusFile env cid pid status rootfs bundle annotation = call env (WriteStateFile cid
     \<lparr>so_OciVersion = OCIVersion, so_Id = cid, so_Status = status_String status, so_ExitCode = 0, so_Reason = [], so_Message = [], so_Pid = pid,
      so_ShimPid = 0, so_Rootfs = rootfs, so_Bundle = bundle, so_Annotation = annotation\<rparr>)"

definition RemoveStatusFile :: "life_env \<Rightarrow> string \<Rightarrow> life_trace \<Rightarrow> unit res \<times> life_trace" where
  "RemoveStatusFile env cid = call env (RemoveStateFile cid)"

definition read_state :: "life_env \<Rightarrow> string \<Rightarrow> life_trace \<Rightarrow> StatusObject res \<times> life_trace" where
  "read_state env cid = query (le_state env) (ReadStateFile cid)"

text \<open>Reading the file, changing the object and writing it back.\<close>

definition update_state :: "life_env \<Rightarrow> string \<Rightarrow> (StatusObject \<Rightarrow> StatusObject) \<Rightarrow> life_trace \<Rightarrow> unit res \<times> life_trace" where
  "update_state env cid f = and_then (read_state env cid) (\<lambda>s. call env (WriteStateFile cid (f s)))"

definition with_status :: "int \<Rightarrow> int \<Rightarrow> int \<Rightarrow> StatusObject \<Rightarrow> StatusObject" where
  "with_status status pid shimPid s =
     (let s = (if 0 \<le> status \<and> status \<le> 3 then s\<lparr>so_Status := status_String status\<rparr> else s);
          s = (if 0 \<le> pid then s\<lparr>so_Pid := pid\<rparr> else s)
      in if 0 \<le> shimPid then s\<lparr>so_ShimPid := shimPid\<rparr> else s)"

definition UpdateStatus :: "life_env \<Rightarrow> string \<Rightarrow> int \<Rightarrow> int \<Rightarrow> int \<Rightarrow> life_trace \<Rightarrow> unit res \<times> life_trace" where
  "UpdateStatus env cid status pid shimPid = update_state env cid (with_status status pid shimPid)"

definition UpdateExitCode :: "life_env \<Rightarrow> string \<Rightarrow> int \<Rightarrow> life_trace \<Rightarrow> unit res \<times> life_trace" where
  "UpdateExitCode env cid code = update_state env cid (\<lambda>s. s\<lparr>so_ExitCode := code\<rparr>)"

definition UpdateReasonAndMessage :: "life_env \<Rightarrow> string \<Rightarrow> string \<Rightarrow> string \<Rightarrow> life_trace \<Rightarrow> unit res \<times> life_trace" where
  "UpdateReasonAndMessage env cid reason message = update_state env cid (\<lambda>s. s\<lparr>so_Reason := reason, so_Message := message\<rparr>)"

definition GetPidFromId :: "life_env \<Rightarrow> string \<Rightarrow> life_trace \<Rightarrow> int res \<times> life_trace" where
  "GetPidFromId env cid = and_then (read_state env cid) (\<lambda>s. Pair (Inr (so_Pid s)))"

definition GetShimPidFromId :: "life_env \<Rightarrow> string \<Rightarrow> life_trace \<Rightarrow> int res \<times> life_trace" where
  "GetShimPidFromId env cid = and_then (read_state env cid) (\<lambda>s. Pair (Inr (so_ShimPid s)))"

text \<open>Signal 0 asks whether a process exists.\<close>

definition pidAlive :: "life_env \<Rightarrow> int \<Rightarrow> life_trace \<Rightarrow> bool \<times> life_trace" where
  "pidAlive env pid = (if pid \<le> 0 then Pair False
     else then_do (call env (SendSignal pid 0)) (\<lambda>r. Pair (case r of Inr _ \<Rightarrow> True | Inl e \<Rightarrow> system_error (le_permission env) e)))"

definition recomputeStatus :: "life_env \<Rightarrow> string \<Rightarrow> int \<Rightarrow> int \<Rightarrow> life_trace \<Rightarrow> unit res \<times> life_trace" where
  "recomputeStatus env cid pid currentStatus = (if currentStatus = RUNNING
     then then_do (pidAlive env pid) (\<lambda>alive. if \<not> alive then UpdateStatus env cid STOPPED 0 0 else Pair (Inr ())) else Pair (Inr ()))"

definition GetStatusFromId :: "life_env \<Rightarrow> string \<Rightarrow> life_trace \<Rightarrow> int res \<times> life_trace" where
  "GetStatusFromId env cid =
     and_then (read_state env cid) (\<lambda>s.
     and_then (Pair (ParseContainerStatus (so_Status s))) (\<lambda>currentStatus.
     and_then (recomputeStatus env cid (so_Pid s) currentStatus) (\<lambda>_.
     and_then (read_state env cid) (\<lambda>s2. Pair (ParseContainerStatus (so_Status s2))))))"

definition ReadStatusFile :: "life_env \<Rightarrow> string \<Rightarrow> life_trace \<Rightarrow> string res \<times> life_trace" where
  "ReadStatusFile env cid =
     and_then (read_state env cid) (\<lambda>s.
     and_then (Pair (ParseContainerStatus (so_Status s))) (\<lambda>currentStatus.
     and_then (recomputeStatus env cid (so_Pid s) currentStatus) (\<lambda>_. query (le_text env) (ReadStateText cid))))"

text \<open>Containers without a readable state are skipped; a state of no known name ends the listing.\<close>

fun list_states :: "life_env \<Rightarrow> (string \<times> bool) list \<Rightarrow> life_trace \<Rightarrow> StatusObject list res \<times> life_trace" where
  "list_states env [] = Pair (Inr [])"
| "list_states env ((name, isDir) # es) =
     (if \<not> isDir then list_states env es
      else then_do (read_state env name) (\<lambda>r. case r of
        Inl _ \<Rightarrow> list_states env es
      | Inr s \<Rightarrow>
          and_then (Pair (ParseContainerStatus (so_Status s))) (\<lambda>currentStatus.
          and_then (recomputeStatus env (so_Id s) (so_Pid s) currentStatus) (\<lambda>_.
          then_do (read_state env name) (\<lambda>r2. case r2 of
            Inl _ \<Rightarrow> list_states env es
          | Inr s2 \<Rightarrow> and_then (list_states env es) (\<lambda>l. Pair (Inr (s2 # l))))))))"

definition ListContainers :: "life_env \<Rightarrow> life_trace \<Rightarrow> StatusObject list res \<times> life_trace" where
  "ListContainers env = and_then (query (le_entries env) ListContainerDirs) (list_states env)"

section \<open>The rules of the life cycle\<close>

definition EnsureCreated :: "string \<Rightarrow> int \<Rightarrow> unit res" where
  "EnsureCreated cid current = (if current \<noteq> CREATED
     then Inl (Msg (''container: '' @ cid @ '' is not created. currnet status: '' @ status_String current)) else Inr ())"

definition EnsureRunning :: "string \<Rightarrow> int \<Rightarrow> unit res" where
  "EnsureRunning cid current = (if current \<noteq> RUNNING then Inl (Msg (''container: '' @ cid @ '' not running.'')) else Inr ())"

definition RequireCreated :: "life_env \<Rightarrow> string \<Rightarrow> life_trace \<Rightarrow> int res \<times> life_trace" where
  "RequireCreated env cid = and_then (GetStatusFromId env cid) (\<lambda>st. and_then (Pair (EnsureCreated cid st)) (\<lambda>_. Pair (Inr st)))"

definition RequireRunning :: "life_env \<Rightarrow> string \<Rightarrow> life_trace \<Rightarrow> int res \<times> life_trace" where
  "RequireRunning env cid = and_then (GetStatusFromId env cid) (\<lambda>st. and_then (Pair (EnsureRunning cid st)) (\<lambda>_. Pair (Inr st)))"

definition IsAllowed :: "int \<Rightarrow> int list \<Rightarrow> bool" where
  "IsAllowed current allowed \<longleftrightarrow> current \<in> set allowed"

definition CanDelete :: "int \<Rightarrow> bool \<Rightarrow> bool" where
  "CanDelete current force \<longleftrightarrow> current = STOPPED \<or> force"

definition ShouldKillBeforeDelete :: "int \<Rightarrow> bool \<Rightarrow> bool" where
  "ShouldKillBeforeDelete current force \<longleftrightarrow> current = CREATED \<or> (current = RUNNING \<and> force)"

text \<open>The next state, its process ids, and whether the container is taken to have stopped.\<close>

definition KillTransition :: "int \<Rightarrow> string \<Rightarrow> int \<times> int \<times> int \<times> bool" where
  "KillTransition current signalName = (if current = CREATED \<or> signalName = ''TERM'' \<or> signalName = ''KILL''
     then (STOPPED, 0, 0, True) else (RUNNING, -1, -1, False))"

section \<open>Signals\<close>

definition signal_map :: "(string \<times> int) list" where
  "signal_map = [(''TERM'', 15), (''KILL'', 9), (''INT'', 2), (''HUP'', 1), (''QUIT'', 3), (''USR1'', 10), (''USR2'', 12), (''STOP'', 19),
     (''CONT'', 18)]"

definition trim_prefix :: "string \<Rightarrow> string \<Rightarrow> string" where
  "trim_prefix s p = (if has_prefix s p then drop (length p) s else s)"

definition ParseSignal :: "string \<Rightarrow> (string \<times> int) res" where
  "ParseSignal input = (let name = (if trim_space input = [] then ''TERM'' else trim_space input) in
     case Atoi name of
       Some n \<Rightarrow> if n < 0 then Inl (Msg (''invalid signal: '' @ input)) else Inr (itoa n, n)
     | None \<Rightarrow> (let name = trim_prefix (to_upper name) ''SIG'' in
         case map_of signal_map name of None \<Rightarrow> Inl (Msg (''unsupported signal: '' @ input)) | Some sig \<Rightarrow> Inr (name, sig)))"

section \<open>Hooks\<close>

definition commandArgsFromOCIArgs :: "string list \<Rightarrow> string list" where
  "commandArgsFromOCIArgs args = (case args of [] \<Rightarrow> [] | a # as \<Rightarrow> if has_prefix a ''-'' then args else as)"

definition buildCommandWithTimeout :: "HookObject \<Rightarrow> string list \<Rightarrow> string \<Rightarrow> command" where
  "buildCommandWithTimeout h argv stdin = \<lparr>cd_argv = argv, cd_env = ho_Env h, cd_stdin = stdin,
     cd_timeout = (case ho_Timeout h of None \<Rightarrow> None | Some t \<Rightarrow> if t \<le> 0 then None else Some t)\<rparr>"

text \<open>The hooks of a phase, one after another, up to the first that fails.\<close>

fun run_hooks :: "life_env \<Rightarrow> string \<Rightarrow> (HookObject \<Rightarrow> command) \<Rightarrow> nat \<Rightarrow> HookObject list \<Rightarrow> life_trace \<Rightarrow> unit res \<times> life_trace" where
  "run_hooks env phase cmd i [] = Pair (Inr ())"
| "run_hooks env phase cmd i (h # hs) =
     (if ho_Path h = [] then Pair (Inl (Msg (''hook '' @ phase @ ''['' @ show_nat i @ '']: empty path'')))
      else and_then (wrapped (''hook '' @ phase @ ''['' @ show_nat i @ ''] failed'') (call env (RunHook phase (cmd h))))
        (\<lambda>_. run_hooks env phase cmd (Suc i) hs))"

definition runHookList :: "life_env \<Rightarrow> string \<Rightarrow> string \<Rightarrow> HookObject list \<Rightarrow> life_trace \<Rightarrow> unit res \<times> life_trace" where
  "runHookList env cid phase hooks = and_then (ReadStatusFile env cid) (\<lambda>stateJson.
     run_hooks env phase (\<lambda>h. buildCommandWithTimeout h (ho_Path h # commandArgsFromOCIArgs (ho_Args h)) stateJson) 0 hooks)"

definition nsenter_hook :: "int \<Rightarrow> HookObject \<Rightarrow> string list" where
  "nsenter_hook pid h = [''/usr/bin/nsenter'', ''-t'', itoa pid, ''-m'', ''-u'', ''-i'', ''-n'', ''-p'', ''--'', ho_Path h] @ commandArgsFromOCIArgs (ho_Args h)"

definition runHookListWithNsenter :: "life_env \<Rightarrow> string \<Rightarrow> string \<Rightarrow> HookObject list \<Rightarrow> life_trace \<Rightarrow> unit res \<times> life_trace" where
  "runHookListWithNsenter env cid phase hooks = and_then (ReadStatusFile env cid) (\<lambda>stateJson. and_then (GetPidFromId env cid) (\<lambda>initPid.
     run_hooks env phase (\<lambda>h. buildCommandWithTimeout h (nsenter_hook initPid h) stateJson) 0 hooks))"

definition RunCreateRuntimeHooks :: "life_env \<Rightarrow> string \<Rightarrow> HookObject list \<Rightarrow> life_trace \<Rightarrow> unit res \<times> life_trace" where
  "RunCreateRuntimeHooks env cid hs = done_if (hs = []) (runHookList env cid ''createRuntime'' hs)"

definition RunCreateContainerHooks :: "life_env \<Rightarrow> string \<Rightarrow> HookObject list \<Rightarrow> life_trace \<Rightarrow> unit res \<times> life_trace" where
  "RunCreateContainerHooks env cid hs = done_if (hs = []) (runHookList env cid ''createContainer'' hs)"

definition RunStartContainerHooks :: "life_env \<Rightarrow> string \<Rightarrow> HookObject list \<Rightarrow> life_trace \<Rightarrow> unit res \<times> life_trace" where
  "RunStartContainerHooks env cid hs = done_if (hs = []) (runHookListWithNsenter env cid ''startContainer'' hs)"

definition RunPoststartHooks :: "life_env \<Rightarrow> string \<Rightarrow> HookObject list \<Rightarrow> life_trace \<Rightarrow> unit res \<times> life_trace" where
  "RunPoststartHooks env cid hs = done_if (hs = []) (runHookList env cid ''poststart'' hs)"

definition RunStopContainerHooks :: "life_env \<Rightarrow> string \<Rightarrow> HookObject list \<Rightarrow> life_trace \<Rightarrow> unit res \<times> life_trace" where
  "RunStopContainerHooks env cid hs = done_if (hs = []) (runHookList env cid ''stopContainer'' hs)"

definition RunPoststopHooks :: "life_env \<Rightarrow> string \<Rightarrow> HookObject list \<Rightarrow> life_trace \<Rightarrow> unit res \<times> life_trace" where
  "RunPoststopHooks env cid hs = done_if (hs = []) (runHookList env cid ''poststop'' hs)"

section \<open>Waiting\<close>

text \<open>
  A loop that probes, gives up when the time is over, and waits before it probes again.  Time is in milliseconds: each probe takes some time, and
  a wait takes at least the interval, and a millisecond.
\<close>

function poll_until ::
    "(life_trace \<Rightarrow> ('e + 'a) \<times> life_trace) \<Rightarrow> (life_trace \<Rightarrow> nat) \<Rightarrow> nat \<Rightarrow> nat \<Rightarrow> nat \<Rightarrow> life_trace \<Rightarrow> ('e + 'a) \<times> life_trace" where
  "poll_until probe delay interval timeout elapsed tr =
     (case probe tr of
        (Inr a, tr') \<Rightarrow> (Inr a, tr')
      | (Inl e, tr') \<Rightarrow> if elapsed + delay tr' > timeout then (Inl e, tr')
          else poll_until probe delay interval timeout (elapsed + delay tr' + max 1 interval) tr')"
  by pat_completeness auto

termination
  by (relation "measure (\<lambda>(probe, delay, interval, timeout, elapsed, tr). Suc timeout - elapsed)") auto

declare poll_until.simps [simp del]

end
