(* ===== verification/Droplet_Resources.thy ===== *)
theory Droplet_Resources
  imports Droplet_Status
begin

text \<open>
  What the low-level runtime prepares for a container on the host: its bundle (\<open>container/bundle/bundle.go\<close>), the seal of its
  specification (\<open>spechash/spechash.go\<close>), the layers of a rootless container (\<open>rootless/filesystem.go\<close>), its control group
  (\<open>cgroup/cgroup.go\<close>) and its network (\<open>network/network.go\<close>).  The copy of a layer's tree is one call.
\<close>

definition quoted :: "string \<Rightarrow> string" where
  "quoted s = ''\"'' @ s @ ''\"''"

text \<open>A deferred call: it runs however the rest ended, and its result is dropped.\<close>

definition deferred :: "('w \<Rightarrow> 'b \<times> 'w) \<Rightarrow> ('w \<Rightarrow> 'a \<times> 'w) \<Rightarrow> 'w \<Rightarrow> 'a \<times> 'w" where
  "deferred g f = then_do f (\<lambda>r. then_do g (\<lambda>_. Pair r))"

section \<open>Bundles\<close>

definition PathForContainer :: "life_env \<Rightarrow> string \<Rightarrow> string \<Rightarrow> life_trace \<Rightarrow> string res \<times> life_trace" where
  "PathForContainer env cid bundle =
     (if bundle = [] then Pair (Inr (ContainerDir (le_getenv env) cid))
      else and_then (query (le_text env) (AbsPath bundle)) (\<lambda>abs.
        and_then (wrapped ''stat bundle'' (query (le_isDir env) (StatPath abs))) (\<lambda>isDir.
        Pair (if \<not> isDir then Inl (Msg (''bundle is not a directory: '' @ abs)) else Inr abs))))"

definition ResolveRootPath :: "string \<Rightarrow> string \<Rightarrow> string" where
  "ResolveRootPath bundlePath rootPath = (if rootPath = [] \<or> absolute rootPath then rootPath else filepath_Join [bundlePath, rootPath])"

definition PrepareConfig :: "life_env \<Rightarrow> string \<Rightarrow> string \<Rightarrow> life_trace \<Rightarrow> unit res \<times> life_trace" where
  "PrepareConfig env cid bundle = done_if (bundle = []) (
     and_then (PathForContainer env cid bundle) (\<lambda>bundlePath.
     and_then (wrapped ''load bundle config'' (query (le_spec env) (LoadConfigFile (filepath_Join [bundlePath, ''config.json''])))) (\<lambda>s.
     and_then (wrapped ''validate bundle config'' (Pair (ValidateBasic (le_readlink env) s))) (\<lambda>_. steps
       [wrapped ''create runtime bundle dir'' (call env (MakeDirs (container_file (le_getenv env) [''logs''] cid))),
        wrapped ''write runtime config'' (call env (WriteConfigFile (ConfigFilePath (le_getenv env) cid)
          (s\<lparr>sp_Root := (sp_Root s)\<lparr>ro_Path := ResolveRootPath bundlePath (ro_Path (sp_Root s))\<rparr>\<rparr>)))]))))"

definition WriteContainerPidFile :: "life_env \<Rightarrow> string \<Rightarrow> int \<Rightarrow> life_trace \<Rightarrow> unit res \<times> life_trace" where
  "WriteContainerPidFile env pidFile pid = done_if (pidFile = [])
     (steps [call env (MakeDirs (filepath_Dir pidFile)), call env (WriteText pidFile (itoa pid))])"

definition WriteExternalPidFileMarker :: "life_env \<Rightarrow> string \<Rightarrow> string \<Rightarrow> life_trace \<Rightarrow> unit res \<times> life_trace" where
  "WriteExternalPidFileMarker env cid pidFile = done_if (pidFile = [])
     (call env (WriteText (ExternalPidFileMarkerPath (le_getenv env) cid) pidFile))"

section \<open>The seal of a specification\<close>

definition loadFile :: "life_env \<Rightarrow> string \<Rightarrow> life_trace \<Rightarrow> Spec res \<times> life_trace" where
  "loadFile env cid = query (le_spec env) (LoadConfigFile (ConfigFilePath (le_getenv env) cid))"

definition CurrentHash :: "life_env \<Rightarrow> string \<Rightarrow> life_trace \<Rightarrow> string res \<times> life_trace" where
  "CurrentHash env cid = query (le_text env) (HashConfigFile cid)"

definition WriteCurrent :: "life_env \<Rightarrow> string \<Rightarrow> life_trace \<Rightarrow> unit res \<times> life_trace" where
  "WriteCurrent env cid = and_then (CurrentHash env cid) (\<lambda>h. call env (WriteHashFile cid h))"

definition VerifySeal :: "life_env \<Rightarrow> string \<Rightarrow> life_trace \<Rightarrow> unit res \<times> life_trace" where
  "VerifySeal env cid = and_then (query (le_text env) (ReadHashFile cid)) (\<lambda>expected. and_then (CurrentHash env cid) (\<lambda>current.
     Pair (if expected \<noteq> current then Inl (validationError expected current) else Inr ())))"

definition verifyAndLoadSpec :: "life_env \<Rightarrow> string \<Rightarrow> life_trace \<Rightarrow> Spec res \<times> life_trace" where
  "verifyAndLoadSpec env cid = and_then (VerifySeal env cid) (\<lambda>_. loadFile env cid)"

definition SealAndLoad :: "life_env \<Rightarrow> string \<Rightarrow> life_trace \<Rightarrow> Spec res \<times> life_trace" where
  "SealAndLoad env cid =
     and_then (CurrentHash env cid) (\<lambda>before.
     and_then (call env (WriteHashFile cid before)) (\<lambda>_.
     and_then (loadFile env cid) (\<lambda>s.
     and_then (CurrentHash env cid) (\<lambda>after.
     and_then (query (le_text env) (ReadHashFile cid)) (\<lambda>sealed.
     Pair (if before \<noteq> sealed then Inl (validationError before sealed)
       else if sealed \<noteq> after then Inl (validationError sealed after) else Inr s))))))"

section \<open>Layers of rootless containers\<close>

definition ShiftedLayerCompleteMarker :: "string \<Rightarrow> string" where
  "ShiftedLayerCompleteMarker cacheRoot = filepath_Join [cacheRoot, ''.raind-rootless-shift-complete'']"

definition ShiftedLayerCacheReady :: "life_env \<Rightarrow> string \<Rightarrow> string \<Rightarrow> life_trace \<Rightarrow> bool \<times> life_trace" where
  "ShiftedLayerCacheReady env rootfs marker = then_do (query (le_isDir env) (StatPath rootfs)) (\<lambda>r. case r of
       Inr True \<Rightarrow> then_do (query (le_isDir env) (StatPath marker)) (\<lambda>r. Pair (is_ok r))
     | _ \<Rightarrow> Pair False)"

definition isRootlessShiftedLayerPath :: "string \<Rightarrow> bool" where
  "isRootlessShiftedLayerPath src = (let c = filepath_Clean src in
     filepath_Base c = ''rootfs'' \<and> filepath_Base (filepath_Dir (filepath_Dir c)) = ''rootless-shifted'')"

definition rootlessShiftedLayerCacheRootForPolicy :: "string \<Rightarrow> IDMapPolicy \<Rightarrow> string res" where
  "rootlessShiftedLayerCacheRootForPolicy src policy =
     (if src = [] then Inl (Msg ''empty rootfs layer path'')
      else let c = filepath_Clean src in
        if filepath_Base c \<noteq> ''rootfs'' then Inl (Msg (''rootless shifted cache requires layer rootfs path, got '' @ quoted src))
        else Inr (filepath_Join [filepath_Dir c, ''rootless-shifted'', ShiftedLayerCacheKey policy]))"

definition tryCreateRootlessCacheLock :: "life_env \<Rightarrow> string \<Rightarrow> life_trace \<Rightarrow> bool res \<times> life_trace" where
  "tryCreateRootlessCacheLock env lockDir = then_do (call env (MakeDir lockDir)) (\<lambda>r. Pair (case r of
     Inr _ \<Rightarrow> Inr True | Inl e \<Rightarrow> if system_error (le_exist env) e then Inr False else Inl e))"

text \<open>The loop looks at the time before each probe; what is left out is that look before the first one, a minute early.\<close>

definition waitRootlessShiftedLayerCache :: "life_env \<Rightarrow> string \<Rightarrow> string \<Rightarrow> nat \<Rightarrow> life_trace \<Rightarrow> unit res \<times> life_trace" where
  "waitRootlessShiftedLayerCache env rootfs marker timeout = poll_until
     (then_do (ShiftedLayerCacheReady env rootfs marker) (\<lambda>ready. Pair (if ready then Inr ()
        else Inl (Msg (''timed out waiting for rootless shifted layer cache: '' @ filepath_Dir rootfs)))))
     (le_delay env) 100 (timeout - 101) 0"

text \<open>The cache is built beside its place and moved there when it is complete.\<close>

definition PrepareShiftedLayerCache :: "life_env \<Rightarrow> string \<Rightarrow> IDMapPolicy \<Rightarrow> life_trace \<Rightarrow> string res \<times> life_trace" where
  "PrepareShiftedLayerCache env src policy =
     then_do (ShiftedLayerCacheReady env src (ShiftedLayerCompleteMarker (filepath_Dir src))) (\<lambda>ready0.
     if ready0 \<and> isRootlessShiftedLayerPath src then Pair (Inr src)
     else and_then (Pair (rootlessShiftedLayerCacheRootForPolicy src policy)) (\<lambda>cacheRoot.
       let cacheRootfs = filepath_Join [cacheRoot, ''rootfs'']; marker = ShiftedLayerCompleteMarker cacheRoot;
           lockDir = cacheRoot @ ''.lock''; tmpRoot = cacheRoot @ ''.tmp.'' @ itoa (le_getpid env) in
       then_do (ShiftedLayerCacheReady env cacheRootfs marker) (\<lambda>ready1.
       if ready1 then Pair (Inr cacheRootfs)
       else and_then (wrapped (''create rootless shifted layer cache parent '' @ quoted (filepath_Dir lockDir)) (call env (MakeDirs (filepath_Dir lockDir)))) (\<lambda>_.
       and_then (tryCreateRootlessCacheLock env lockDir) (\<lambda>taken.
       if \<not> taken then and_then (waitRootlessShiftedLayerCache env cacheRootfs marker 60000) (\<lambda>_. Pair (Inr cacheRootfs))
       else deferred (call env (RemoveTree lockDir)) (
         then_do (ShiftedLayerCacheReady env cacheRootfs marker) (\<lambda>ready2.
         if ready2 then Pair (Inr cacheRootfs)
         else and_then (call env (RemoveTree tmpRoot)) (\<lambda>_.
           deferred (call env (RemoveTree tmpRoot)) (
             and_then (steps [call env (CopyShifted src (filepath_Join [tmpRoot, ''rootfs''])),
               call env (WriteText (ShiftedLayerCompleteMarker tmpRoot) ''complete\<newline>''),
               call env (RemoveTree cacheRoot), call env (MakeDirs (filepath_Dir cacheRoot)), call env (RenamePath tmpRoot cacheRoot)])
             (\<lambda>_. Pair (Inr cacheRootfs)))))))))))"

fun shift_layers :: "life_env \<Rightarrow> IDMapPolicy \<Rightarrow> string list \<Rightarrow> life_trace \<Rightarrow> string list res \<times> life_trace" where
  "shift_layers env policy [] = Pair (Inr [])"
| "shift_layers env policy (l # ls) =
     (if l = [] then shift_layers env policy ls
      else and_then (wrapped (''prepare rootless shifted layer cache for '' @ quoted l) (PrepareShiftedLayerCache env l policy)) (\<lambda>l'.
        and_then (shift_layers env policy ls) (\<lambda>ls'. Pair (Inr (l' # ls')))))"

definition PrepareShiftedImageLayers :: "life_env \<Rightarrow> Spec \<Rightarrow> RootlessConfigObject \<Rightarrow> life_trace \<Rightarrow> Spec res \<times> life_trace" where
  "PrepareShiftedImageLayers env s cfg =
     (if \<not> rc_Enabled cfg then Pair (Inr s)
      else and_then (Pair (le_image env (an_Image (sp_Annotations s)))) (\<lambda>ic.
        if io_RootfsType ic \<noteq> ''overlay'' \<or> io_ImageLayer ic = [] then Pair (Inr s)
        else and_then (shift_layers env (IDMapPolicyFromConfig (le_ids env) cfg) (io_ImageLayer ic)) (\<lambda>ls.
          and_then (Pair (le_image_json env (ic\<lparr>io_ImageLayer := ls\<rparr>))) (\<lambda>ann.
          Pair (Inr (s\<lparr>sp_Annotations := (sp_Annotations s)\<lparr>an_Image := ann\<rparr>\<rparr>))))))"

definition RewriteContainerSpecAndHash :: "life_env \<Rightarrow> string \<Rightarrow> Spec \<Rightarrow> life_trace \<Rightarrow> unit res \<times> life_trace" where
  "RewriteContainerSpecAndHash env cid s = steps [call env (WriteConfigFile (ConfigFilePath (le_getenv env) cid) s), WriteCurrent env cid]"

definition chownPathTree :: "life_env \<Rightarrow> string \<Rightarrow> int \<Rightarrow> int \<Rightarrow> life_trace \<Rightarrow> unit res \<times> life_trace" where
  "chownPathTree env root uid gid = steps [call env (MakeDirs root), call env (ChownTree root uid gid)]"

definition PrepareWritableFilesystem :: "life_env \<Rightarrow> Spec \<Rightarrow> life_trace \<Rightarrow> unit res \<times> life_trace" where
  "PrepareWritableFilesystem env s = (case ConfigFromSpec (le_ids env) s of
       None \<Rightarrow> Pair (Inr ())
     | Some cfg \<Rightarrow> if CurrentUserNamespaceDiffersFromInit (le_ids env) then Pair (Inr ())
         else and_then (Pair (le_image env (an_Image (sp_Annotations s)))) (\<lambda>ic.
           let (uid, gid) = HostRootID (IDMapPolicyFromConfig (le_ids env) cfg) in
           steps (map (\<lambda>p. wrapped (''chown rootless writable path '' @ quoted p @ '' to '' @ itoa uid @ '':'' @ itoa gid) (chownPathTree env p uid gid))
             (filter (\<lambda>p. p \<noteq> []) [io_UpperDir ic, io_WorkDir ic, ro_Path (sp_Root s)]))))"

definition ChownToHostRoot :: "life_env \<Rightarrow> string \<Rightarrow> RootlessPlan \<Rightarrow> life_trace \<Rightarrow> unit res \<times> life_trace" where
  "ChownToHostRoot env path plan = done_if (\<not> ShouldPrepareHostOwnedFiles plan) (call env (ChownPath path (rp_HostRootUID plan) (rp_HostRootGID plan)))"

section \<open>Control groups\<close>

definition HasResourceConfig :: "ResourceObject \<Rightarrow> bool" where
  "HasResourceConfig r \<longleftrightarrow> re_Memory_Limit r > 0 \<or> (cp_Quota (re_Cpu r) > 0 \<and> cp_Period (re_Cpu r) > 0) \<or> re_Pids_Limit r > 0"

definition cgroup_file :: "string \<Rightarrow> string \<Rightarrow> string" where
  "cgroup_file cid name = filepath_Join [CgroupPath cid, name]"

definition SetMemoryLimit :: "life_env \<Rightarrow> string \<Rightarrow> int \<Rightarrow> life_trace \<Rightarrow> unit res \<times> life_trace" where
  "SetMemoryLimit env cid limit = done_if (limit \<le> 0) (call env (WriteText (cgroup_file cid ''memory.max'') (itoa limit @ ''\<newline>'')))"

definition SetCpuLimit :: "life_env \<Rightarrow> string \<Rightarrow> CpuObject \<Rightarrow> life_trace \<Rightarrow> unit res \<times> life_trace" where
  "SetCpuLimit env cid c = done_if (cp_Quota c \<le> 0 \<or> cp_Period c \<le> 0)
     (call env (WriteText (cgroup_file cid ''cpu.max'') (itoa (cp_Quota c) @ '' '' @ itoa (cp_Period c) @ ''\<newline>'')))"

definition SetPidsLimit :: "life_env \<Rightarrow> string \<Rightarrow> int \<Rightarrow> life_trace \<Rightarrow> unit res \<times> life_trace" where
  "SetPidsLimit env cid pids = done_if (pids \<le> 0) (call env (WriteText (cgroup_file cid ''pids.max'') (itoa pids @ ''\<newline>'')))"

definition SetProcess :: "life_env \<Rightarrow> string \<Rightarrow> int \<Rightarrow> life_trace \<Rightarrow> unit res \<times> life_trace" where
  "SetProcess env cid pid = call env (WriteText (cgroup_file cid ''cgroup.procs'') (itoa pid @ ''\<newline>''))"

definition PrepareCgroup :: "life_env \<Rightarrow> string \<Rightarrow> Spec \<Rightarrow> int \<Rightarrow> life_trace \<Rightarrow> unit res \<times> life_trace" where
  "PrepareCgroup env cid s pid = (let r = ls_Resources (sp_LinuxSpec s) in done_if (\<not> HasResourceConfig r) (steps
     [call env (MakeDirs (CgroupPath cid)), SetMemoryLimit env cid (re_Memory_Limit r), SetCpuLimit env cid (re_Cpu r),
      SetPidsLimit env cid (re_Pids_Limit r), SetProcess env cid pid]))"

section \<open>Networks\<close>

text \<open>A command of the network set-up; the output that error texts quote is left out.\<close>

definition runNetworkCommand :: "life_env \<Rightarrow> string \<Rightarrow> string list \<Rightarrow> life_trace \<Rightarrow> unit res \<times> life_trace" where
  "runNetworkCommand env step argv = wrapped (''network command '' @ step @ '' failed'')
     (call env (RunCommand \<lparr>cd_argv = argv, cd_env = [], cd_stdin = [], cd_timeout = None\<rparr>))"

definition BuildContainerVethPeerName :: "string \<Rightarrow> string" where
  "BuildContainerVethPeerName cid = ''rp_'' @ take 12 cid"

definition BuildRootlessNetnsName :: "string \<Rightarrow> string" where
  "BuildRootlessNetnsName cid = ''rn_'' @ BuildContainerVethPeerName cid"

definition BuildProcessNetnsPath :: "int \<Rightarrow> string" where
  "BuildProcessNetnsPath pid = ''/proc/'' @ itoa pid @ ''/ns/net''"

definition cleanup_netns :: "string \<Rightarrow> string list" where
  "cleanup_netns path = [''sh'', ''-c'', ''umount '' @ quoted path @ '' 2>/dev/null || true; rm -f '' @ quoted path]"

definition createVethPair :: "life_env \<Rightarrow> string \<Rightarrow> int \<Rightarrow> NetConfigObject \<Rightarrow> bool \<Rightarrow> life_trace \<Rightarrow> unit res \<times> life_trace" where
  "createVethPair env cid pid nc rootless =
     (let host = if_Name (nf_Interface nc); peer = BuildContainerVethPeerName cid; netns = BuildRootlessNetnsName cid; path = ''/run/netns/'' @ netns in
      steps (
        [runNetworkCommand env ''create_veth_pair'' [''ip'', ''link'', ''add'', ''name'', host, ''type'', ''veth'', ''peer'', ''name'', peer]] @
        (if rootless then
           [runNetworkCommand env ''cleanup_container_netns'' (cleanup_netns path),
            runNetworkCommand env ''ensure_netns_dir'' [''mkdir'', ''-p'', ''/run/netns''],
            runNetworkCommand env ''ensure_netns_file'' [''touch'', path],
            runNetworkCommand env ''bind_container_netns'' [''mount'', ''--bind'', BuildProcessNetnsPath pid, path]] else []) @
        [runNetworkCommand env ''move_veth_peer_to_netns'' [''ip'', ''link'', ''set'', peer, ''netns'', if rootless then netns else itoa pid]] @
        (if rootless then [runNetworkCommand env ''cleanup_container_netns'' (cleanup_netns path)] else []) @
        [runNetworkCommand env ''attach_veth_to_bridge'' [''ip'', ''link'', ''set'', host, ''master'', nf_BridgeInterface nc],
         runNetworkCommand env ''up_host_veth'' [''ip'', ''link'', ''set'', host, ''up'']]))"

definition in_netns :: "int \<Rightarrow> bool \<Rightarrow> string list \<Rightarrow> string list" where
  "in_netns pid rootless args =
     [''nsenter'', ''-t'', itoa pid] @ (if rootless then [''-U'', ''--setuid'', ''0'', ''--setgid'', ''0''] else []) @ [''-n''] @ args"

definition setupContainerNetns :: "life_env \<Rightarrow> string \<Rightarrow> int \<Rightarrow> NetConfigObject \<Rightarrow> bool \<Rightarrow> life_trace \<Rightarrow> unit res \<times> life_trace" where
  "setupContainerNetns env cid pid nc rootless = (let peer = BuildContainerVethPeerName cid; v4 = if_IPv4 (nf_Interface nc) in steps
     [runNetworkCommand env ''up_loopback_in_netns'' (in_netns pid rootless [''ip'', ''link'', ''set'', ''lo'', ''up'']),
      runNetworkCommand env ''rename_veth_in_netns'' (in_netns pid rootless [''ip'', ''link'', ''set'', peer, ''name'', ''eth0'']),
      runNetworkCommand env ''assign_addr_in_netns'' (in_netns pid rootless [''ip'', ''addr'', ''add'', i4_Address v4, ''dev'', ''eth0'']),
      runNetworkCommand env ''up_veth_in_netns'' (in_netns pid rootless [''ip'', ''link'', ''set'', ''eth0'', ''up'']),
      runNetworkCommand env ''set_gateway_in_netns'' (in_netns pid rootless [''ip'', ''route'', ''add'', ''default'', ''via'', i4_Gateway v4])])"

definition ReadInitLogTail :: "life_env \<Rightarrow> string \<Rightarrow> life_trace \<Rightarrow> string \<times> life_trace" where
  "ReadInitLogTail env cid = then_do (query (le_text env) (ReadText (ContainerLogPath (le_getenv env) cid))) (\<lambda>r. Pair (case r of
     Inl e \<Rightarrow> ''read init log failed: '' @ error_text e
   | Inr data \<Rightarrow> trim_space (if length data > 4096 then drop (length data - 4096) data else data)))"

definition WaitProcessNetnsReady :: "life_env \<Rightarrow> string \<Rightarrow> int \<Rightarrow> nat \<Rightarrow> nat \<Rightarrow> life_trace \<Rightarrow> unit res \<times> life_trace" where
  "WaitProcessNetnsReady env cid pid timeout pollInterval =
     then_do (poll_until (query (le_isDir env) (StatPath (BuildProcessNetnsPath pid))) (le_delay env) pollInterval timeout 0) (\<lambda>r. case r of
       Inr _ \<Rightarrow> Pair (Inr ())
     | Inl lastErr \<Rightarrow> then_do (ReadInitLogTail env cid) (\<lambda>tail. Pair (Inl (Msg (
         ''container init network namespace is not available: pid='' @ itoa pid @ '' proc='' @ quoted (''/proc/'' @ itoa pid) @
         '' netns='' @ quoted (BuildProcessNetnsPath pid) @ '' last_error='' @ error_text lastErr @ '' init_log_tail='' @ quoted tail)))))"

definition PrepareNetwork :: "life_env \<Rightarrow> string \<Rightarrow> int \<Rightarrow> AnnotationObject \<Rightarrow> life_trace \<Rightarrow> unit res \<times> life_trace" where
  "PrepareNetwork env cid pid annotation = done_if (trim_space (an_Net annotation) = []) (
     and_then (Pair (le_net env (an_Net annotation))) (\<lambda>nc.
     let rootless = (ConfigFromAnnotation (le_ids env) annotation \<noteq> None) in
     done_if (if_Name (nf_Interface nc) = [] \<or> i4_Address (if_IPv4 (nf_Interface nc)) = []) (steps
       [done_if (\<not> rootless) (WaitProcessNetnsReady env cid pid 3000 20),
        createVethPair env cid pid nc rootless, setupContainerNetns env cid pid nc rootless])))"

end
