(* ===== verification/Droplet_Lifecycle.thy ===== *)
theory Droplet_Lifecycle
  imports Droplet_Resources
begin

text \<open>
  The operations of the low-level runtime on containers: create (\<open>container/create/create.go\<close> with the helpers of \<open>container/create.go\<close>),
  start, run, kill and delete (\<open>container/start\<close>, \<open>run\<close>, \<open>kill\<close>, \<open>delete\<close>). Left out are the audit records, log lines, printed messages and
  the closing of files.
\<close>

definition ignoring :: "('w \<Rightarrow> 'a \<times> 'w) \<Rightarrow> 'w \<Rightarrow> unit res \<times> 'w" where
  "ignoring f = then_do f (\<lambda>_. Pair (Inr ()))"

definition program :: "string list \<Rightarrow> command" where
  "program argv = \<lparr>cd_argv = argv, cd_env = [], cd_stdin = [], cd_timeout = None\<rparr>"

section \<open>Create\<close>

definition PrepareSpec :: "life_env \<Rightarrow> string \<Rightarrow> Spec \<Rightarrow> life_trace \<Rightarrow> (Spec \<times> RootlessPlan) res \<times> life_trace" where
  "PrepareSpec env cid s = (let plan = PlanFromSpec (le_ids env) s in
     if \<not> rp_Enabled plan then Pair (Inr (s, plan))
     else and_then (PrepareShiftedImageLayers env s (rp_Config plan)) (\<lambda>s'.
       and_then (RewriteContainerSpecAndHash env cid s') (\<lambda>_. Pair (Inr (s', plan)))))"

definition PrepareRuntime :: "life_env \<Rightarrow> string \<Rightarrow> Spec \<Rightarrow> RootlessPlan \<Rightarrow> life_trace \<Rightarrow> unit res \<times> life_trace" where
  "PrepareRuntime env fifo s plan = done_if (\<not> rp_Enabled plan)
     (steps [ChownToHostRoot env fifo (PlanFromConfig (le_ids env) (rp_Config plan)), PrepareWritableFilesystem env s])"

definition cleanupShimFile :: "life_env \<Rightarrow> string \<Rightarrow> life_trace \<Rightarrow> unit res \<times> life_trace" where
  "cleanupShimFile env cid = steps [ignoring (call env (RemovePath (SockPath (le_getenv env) cid))),
     ignoring (call env (RemovePath (InitPidFilePath (le_getenv env) cid)))]"

definition executeShim :: "life_env \<Rightarrow> string \<Rightarrow> Spec \<Rightarrow> string \<Rightarrow> bool \<Rightarrow> string \<Rightarrow> life_trace \<Rightarrow> int res \<times> life_trace" where
  "executeShim env cid s fifo tty consoleSocket = query (le_number env) (StartProcess (program ([le_self env, ''shim''] @
     (if tty then [''--tty''] else []) @ (if consoleSocket \<noteq> [] then [''--console-socket'', consoleSocket] else []) @
     [cid, fifo] @ po_Args (sp_Process s))) None)"

definition tryReadPidFile :: "life_env \<Rightarrow> string \<Rightarrow> life_trace \<Rightarrow> (unit + int) \<times> life_trace" where
  "tryReadPidFile env path = then_do (query (le_text env) (ReadText path)) (\<lambda>r. Pair (case r of
     Inl _ \<Rightarrow> Inl ()
   | Inr b \<Rightarrow> (case Atoi (trim_space b) of None \<Rightarrow> Inl () | Some pid \<Rightarrow> if pid \<le> 0 then Inl () else Inr pid)))"

definition waitInitPid :: "life_env \<Rightarrow> string \<Rightarrow> nat \<Rightarrow> nat \<Rightarrow> life_trace \<Rightarrow> int res \<times> life_trace" where
  "waitInitPid env cid timeout pollInterval =
     then_do (poll_until (tryReadPidFile env (InitPidFilePath (le_getenv env) cid)) (le_delay env) pollInterval timeout 0) (\<lambda>r. Pair (case r of
       Inr pid \<Rightarrow> Inr pid | Inl _ \<Rightarrow> Inl (Msg ''wait init pid timeout: context deadline exceeded'')))"

definition tailFileForError :: "life_env \<Rightarrow> string \<Rightarrow> nat \<Rightarrow> life_trace \<Rightarrow> string \<times> life_trace" where
  "tailFileForError env path maxLines = then_do (query (le_text env) (ReadText path)) (\<lambda>r. Pair (case r of
     Inl _ \<Rightarrow> []
   | Inr data \<Rightarrow> (let lines = split_on CHR ''\<newline>'' (rev (dropWhile (\<lambda>c. c = CHR ''\<newline>'') (rev data))) in
       if lines = [[]] then [] else str_join ''\<newline>'' (drop (length lines - maxLines) lines))))"

definition wrapInitPidWaitError :: "life_env \<Rightarrow> string \<Rightarrow> go_error \<Rightarrow> life_trace \<Rightarrow> go_error \<times> life_trace" where
  "wrapInitPidWaitError env cid e =
     then_do (tailFileForError env (ShimLogPath (le_getenv env) cid) 12) (\<lambda>shim.
     then_do (tailFileForError env (ContainerLogPath (le_getenv env) cid) 12) (\<lambda>log.
     let details = (if shim \<noteq> [] then [''shim log:\<newline>'' @ shim] else []) @ (if log \<noteq> [] then [''container log:\<newline>'' @ log] else []) in
     Pair (if details = [] then e else Msg (error_text e @ ''\<newline>'' @ str_join ''\<newline>'' details))))"

text \<open>An error that is explained by the ends of the logs.\<close>

definition explained :: "life_env \<Rightarrow> string \<Rightarrow> (life_trace \<Rightarrow> 'a res \<times> life_trace) \<Rightarrow> life_trace \<Rightarrow> 'a res \<times> life_trace" where
  "explained env cid f = then_do f (\<lambda>r. case r of Inr a \<Rightarrow> Pair (Inr a)
     | Inl e \<Rightarrow> then_do (wrapInitPidWaitError env cid e) (\<lambda>e'. Pair (Inl e')))"

text \<open>The ids of the init process and of its supervisor.\<close>

definition StartAndWait ::
    "life_env \<Rightarrow> string \<Rightarrow> Spec \<Rightarrow> string \<Rightarrow> bool \<Rightarrow> string \<Rightarrow> string \<Rightarrow> life_trace \<Rightarrow> (int \<times> int) res \<times> life_trace" where
  "StartAndWait env cid s fifo tty consoleSocket pidFile =
     and_then (cleanupShimFile env cid) (\<lambda>_.
     and_then (executeShim env cid s fifo tty consoleSocket) (\<lambda>shimPid.
     and_then (explained env cid (waitInitPid env cid 10000 20)) (\<lambda>initPid.
     and_then (steps [WriteContainerPidFile env pidFile initPid, WriteExternalPidFileMarker env cid pidFile]) (\<lambda>_.
     Pair (Inr (initPid, shimPid))))))"

definition PrepareHostResources :: "life_env \<Rightarrow> string \<Rightarrow> Spec \<Rightarrow> int \<Rightarrow> RootlessPlan \<Rightarrow> life_trace \<Rightarrow> unit res \<times> life_trace" where
  "PrepareHostResources env cid s initPid plan = done_if (\<not> ShouldPrepareHostResources plan)
     (steps [explained env cid (PrepareCgroup env cid s initPid), PrepareNetwork env cid initPid (sp_Annotations s)])"

record CreateOption =
  cr_ContainerId :: string
  cr_Bundle :: string
  cr_ConsoleSocket :: string
  cr_PidFile :: string
  cr_TtyFlag :: bool

definition droplet_Create :: "life_env \<Rightarrow> CreateOption \<Rightarrow> life_trace \<Rightarrow> unit res \<times> life_trace" where
  "droplet_Create env opt = (let cid = cr_ContainerId opt; fifo = FifoPath (le_getenv env) cid in
     and_then (PrepareConfig env cid (cr_Bundle opt)) (\<lambda>_.
     and_then (SealAndLoad env cid) (\<lambda>s0.
     and_then (PathForContainer env cid (cr_Bundle opt)) (\<lambda>bundlePath.
     let tty = cr_TtyFlag opt \<or> po_Terminal (sp_Process s0) in
     if cr_ConsoleSocket opt \<noteq> [] \<and> \<not> tty then Pair (Inl (Msg ''--console-socket requires --tty or process.terminal=true''))
     else and_then (PrepareSpec env cid s0) (\<lambda>(s, plan). and_then (steps
       [CreateStatusFile env cid 0 CREATING (ro_Path (sp_Root s)) bundlePath (sp_Annotations s),
        RunCreateRuntimeHooks env cid (hl_CreateRuntime (sp_Hooks s)),
        call env (MakeFifo fifo),
        PrepareRuntime env fifo s plan]) (\<lambda>_.
       and_then (StartAndWait env cid s fifo tty (cr_ConsoleSocket opt) (cr_PidFile opt)) (\<lambda>(initPid, shimPid). steps
         [PrepareHostResources env cid s initPid plan,
          UpdateStatus env cid CREATED initPid shimPid,
          RunCreateRuntimeHooks env cid (hl_Prestart (sp_Hooks s)),
          RunCreateContainerHooks env cid (hl_CreateContainer (sp_Hooks s))])))))))"

section \<open>Start\<close>

definition droplet_Start :: "life_env \<Rightarrow> string \<Rightarrow> life_trace \<Rightarrow> unit res \<times> life_trace" where
  "droplet_Start env cid = (let fifo = FifoPath (le_getenv env) cid in
     and_then (GetStatusFromId env cid) (\<lambda>st.
     and_then (Pair (EnsureCreated cid st)) (\<lambda>_.
     and_then (loadFile env cid) (\<lambda>s. steps
       [RunStartContainerHooks env cid (hl_StartContainer (sp_Hooks s)),
        call env (SignalFifo fifo),
        call env (RemovePath fifo),
        UpdateStatus env cid RUNNING (-1) (-1),
        RunPoststartHooks env cid (hl_Poststart (sp_Hooks s))]))))"

section \<open>Run\<close>

record RunOption =
  rn_ContainerId :: string
  rn_Bundle :: string
  rn_PidFile :: string
  rn_Tty :: bool

definition droplet_Run :: "life_env \<Rightarrow> RunOption \<Rightarrow> life_trace \<Rightarrow> unit res \<times> life_trace" where
  "droplet_Run env opt = (let cid = rn_ContainerId opt; fifo = FifoPath (le_getenv env) cid in
     and_then (PrepareConfig env cid (rn_Bundle opt)) (\<lambda>_.
     and_then (loadFile env cid) (\<lambda>s.
     and_then (WriteCurrent env cid) (\<lambda>_.
     and_then (PathForContainer env cid (rn_Bundle opt)) (\<lambda>bundlePath. and_then (steps
       [CreateStatusFile env cid 0 CREATING (ro_Path (sp_Root s)) bundlePath (sp_Annotations s),
        RunCreateRuntimeHooks env cid (hl_CreateRuntime (sp_Hooks s)),
        call env (MakeFifo fifo)]) (\<lambda>_.
     and_then (query (le_number env) (StartProcess (program ([le_self env, ''init'', cid, fifo] @ po_Args (sp_Process s)))
         (Some (BuildProcAttrForContainer (le_ids env) s)))) (\<lambda>initPid. steps
       [WriteContainerPidFile env (rn_PidFile opt) initPid,
        PrepareCgroup env cid s initPid,
        PrepareNetwork env cid initPid (sp_Annotations s),
        UpdateStatus env cid CREATED initPid 0,
        RunCreateRuntimeHooks env cid (hl_Prestart (sp_Hooks s)),
        RunCreateContainerHooks env cid (hl_CreateContainer (sp_Hooks s)),
        RunStartContainerHooks env cid (hl_StartContainer (sp_Hooks s)),
        droplet_Start env cid,
        UpdateStatus env cid RUNNING (-1) (-1),
        RunPoststartHooks env cid (hl_Poststart (sp_Hooks s)),
        done_if (\<not> (rn_Tty opt \<or> po_Terminal (sp_Process s)))
          (steps [call env (WaitProcess initPid), UpdateStatus env cid STOPPED 0 0])])))))))"

section \<open>Kill\<close>

definition ParseProcStatFields :: "string \<Rightarrow> string list res" where
  "ParseProcStatFields s = (case last_index CHR '')'' s of
       None \<Rightarrow> Inl (Msg ''invalid stat format'')
     | Some i \<Rightarrow> (let fs = Fields (drop (i + 1) s) in if length fs < 20 then Inl (Msg ''invalid stat format'') else Inr fs))"

definition read_proc_stat :: "life_env \<Rightarrow> int \<Rightarrow> life_trace \<Rightarrow> string list res \<times> life_trace" where
  "read_proc_stat env pid = and_then (query (le_text env) (ReadText (''/proc/'' @ itoa pid @ ''/stat''))) (\<lambda>b. Pair (ParseProcStatFields b))"

definition ReadProcStartTime :: "life_env \<Rightarrow> int \<Rightarrow> life_trace \<Rightarrow> nat res \<times> life_trace" where
  "ReadProcStartTime env pid = and_then (read_proc_stat env pid) (\<lambda>fs. Pair (case ParseUint64 (fs ! 19) of
     None \<Rightarrow> Inl (Msg (''strconv.ParseUint: parsing '' @ quoted (fs ! 19))) | Some n \<Rightarrow> Inr n))"

definition ReadProcState :: "life_env \<Rightarrow> int \<Rightarrow> life_trace \<Rightarrow> string res \<times> life_trace" where
  "ReadProcState env pid = and_then (read_proc_stat env pid) (\<lambda>fs. Pair (if fs = [] then Inl (Msg ''invalid stat format'') else Inr (fs ! 0)))"

text \<open>One look at a process: it is gone, a zombie, or another process with its id; otherwise the wait goes on.\<close>

definition probe_exit :: "life_env \<Rightarrow> int \<Rightarrow> nat \<Rightarrow> life_trace \<Rightarrow> unit res \<times> life_trace" where
  "probe_exit env pid startTime = (let gone = system_error (le_notExist env); late = Msg ''context deadline exceeded'' in
     then_do (ReadProcStartTime env pid) (\<lambda>current.
     if (case current of Inl e \<Rightarrow> gone e | Inr _ \<Rightarrow> False) then Pair (Inr ())
     else then_do (ReadProcState env pid) (\<lambda>state.
     if (case state of Inl e \<Rightarrow> gone e | Inr st \<Rightarrow> st = ''Z'') then Pair (Inr ())
     else if or_default 0 current \<noteq> startTime then Pair (Inr ())
     else then_do (query (le_isDir env) (StatPath (''/proc/'' @ itoa pid))) (\<lambda>r.
       Pair (if (case r of Inl e \<Rightarrow> gone e | Inr _ \<Rightarrow> False) then Inr () else Inl late)))))"

definition WaitProcessExit :: "life_env \<Rightarrow> int \<Rightarrow> nat \<Rightarrow> nat \<Rightarrow> life_trace \<Rightarrow> unit res \<times> life_trace" where
  "WaitProcessExit env pid startTime timeout = poll_until (probe_exit env pid startTime) (le_delay env) 50 timeout 0"

definition CleanupShim :: "life_env \<Rightarrow> string \<Rightarrow> life_trace \<Rightarrow> unit res \<times> life_trace" where
  "CleanupShim env cid = steps
     [tolerate (system_error (le_notExist env)) (call env (RemovePath (SockPath (le_getenv env) cid))),
      tolerate (system_error (le_notExist env)) (call env (RemovePath (InitPidFilePath (le_getenv env) cid)))]"

definition HasExternalPidFileMarker :: "life_env \<Rightarrow> string \<Rightarrow> life_trace \<Rightarrow> bool \<times> life_trace" where
  "HasExternalPidFileMarker env cid =
     then_do (query (le_isDir env) (StatPath (ExternalPidFileMarkerPath (le_getenv env) cid))) (\<lambda>r. Pair (is_ok r))"

text \<open>The wait after a signal: a process that ignores TERM is killed, and one that survives that is an error.\<close>

definition await_exit :: "life_env \<Rightarrow> string \<Rightarrow> int \<Rightarrow> nat \<Rightarrow> life_trace \<Rightarrow> unit res \<times> life_trace" where
  "await_exit env signalName pid startTime =
     (if signalName = ''TERM'' then then_do (WaitProcessExit env pid startTime 3000) (\<lambda>r. case r of
          Inr _ \<Rightarrow> Pair (Inr ())
        | Inl _ \<Rightarrow> then_do (call env (SendSignal pid 9)) (\<lambda>_.
            wrapped (''failed to stop container pid='' @ itoa pid) (WaitProcessExit env pid startTime 5000)))
      else if signalName = ''KILL'' then ignoring (WaitProcessExit env pid startTime 5000)
      else Pair (Inr ()))"

definition droplet_Kill :: "life_env \<Rightarrow> string \<Rightarrow> string \<Rightarrow> life_trace \<Rightarrow> unit res \<times> life_trace" where
  "droplet_Kill env cid signal =
     and_then (loadFile env cid) (\<lambda>s.
     and_then (GetStatusFromId env cid) (\<lambda>st.
     and_then (Pair (ParseSignal signal)) (\<lambda>(signalName, sig).
     if \<not> IsAllowed st [RUNNING, CREATED]
     then (let refuse = Pair (Inl (Msg (''container: '' @ cid @ '' neither created nor running.''))) in
       if st = STOPPED \<and> signalName = ''KILL'' then then_do (HasExternalPidFileMarker env cid) (\<lambda>b. if b then Pair (Inr ()) else refuse) else refuse)
     else
       and_then (GetPidFromId env cid) (\<lambda>pid.
       and_then (GetShimPidFromId env cid) (\<lambda>shimPid.
       and_then (ReadProcStartTime env pid) (\<lambda>startTime.
       let (nextStatus, nextPid, nextShimPid, stopped) = KillTransition st signalName in steps
         [call env (SendSignal pid sig),
          await_exit env signalName pid startTime,
          done_if (\<not> (stopped \<and> shimPid > 0)) (ignoring (CleanupShim env cid)),
          UpdateStatus env cid nextStatus nextPid nextShimPid,
          done_if (\<not> stopped) (RunStopContainerHooks env cid (hl_StopContainer (sp_Hooks s)))]))))))"

section \<open>Delete\<close>

definition KillInitProcess :: "life_env \<Rightarrow> string \<Rightarrow> life_trace \<Rightarrow> unit res \<times> life_trace" where
  "KillInitProcess env cid = and_then (GetPidFromId env cid) (\<lambda>pid. steps [call env (SendSignal pid 9), UpdateStatus env cid STOPPED 0 0])"

definition droplet_Delete :: "life_env \<Rightarrow> string \<Rightarrow> bool \<Rightarrow> life_trace \<Rightarrow> unit res \<times> life_trace" where
  "droplet_Delete env cid force =
     and_then (GetStatusFromId env cid) (\<lambda>st.
     if \<not> CanDelete st force then Pair (Inl (Msg (''container: '' @ cid @ '' is not stopped. current status: '' @ status_String st)))
     else and_then (done_if (\<not> ShouldKillBeforeDelete st force) (wrapped ''kill init process failed'' (KillInitProcess env cid))) (\<lambda>_.
       and_then (loadFile env cid) (\<lambda>s. steps
         [RunPoststopHooks env cid (hl_Poststop (sp_Hooks s)),
          RemoveStatusFile env cid,
          done_if (st \<noteq> CREATED) (call env (RemovePath (FifoPath (le_getenv env) cid))),
          call env (RemoveTree (CgroupPath cid)),
          call env (RemoveTree (ContainerDir (le_getenv env) cid))])))"

end
