(* ===== verification/Droplet_Supervisor.thy ===== *)
theory Droplet_Supervisor
  imports Droplet_Lifecycle
begin

text \<open>
  The process that supervises the init process of a container (\<open>container/shim.go\<close>), and the execution of further commands in a container
  (\<open>container/exec/exec.go\<close>, \<open>exec_nsenter.go\<close>, \<open>shim/exec_shim.go\<close>). Terminals are opened and sized by calls; the copying between
  them and the sockets is left out.
\<close>

section \<open>The supervisor\<close>

definition consoleWinsize :: "ConsoleSizeObject option \<Rightarrow> (nat \<times> nat) option res" where
  "consoleWinsize csize = (case csize of None \<Rightarrow> Inr None
     | Some c \<Rightarrow> if cz_Height c = 0 \<or> cz_Width c = 0 then Inl (Msg ''process.consoleSize height and width must be positive'')
         else if cz_Height c > MaxConsoleSize \<or> cz_Width c > MaxConsoleSize
         then Inl (Msg ''process.consoleSize height and width must be <= 65535'')
         else Inr (Some (cz_Height c, cz_Width c)))"

definition applyConsoleSize :: "life_env \<Rightarrow> ConsoleSizeObject option \<Rightarrow> life_trace \<Rightarrow> unit res \<times> life_trace" where
  "applyConsoleSize env csize = and_then (Pair (consoleWinsize csize)) (\<lambda>w. case w of None \<Rightarrow> Pair (Inr ())
     | Some (rows, cols) \<Rightarrow> wrapped ''set console size'' (call env (SetWinsize rows cols)))"

definition shouldPrejoinRootlessPathNamespaces :: "life_env \<Rightarrow> Spec \<Rightarrow> bool" where
  "shouldPrejoinRootlessPathNamespaces env s = ShouldPrejoinNamespaces (PlanFromSpec (le_ids env) s) (BuildJoinTargets s \<noteq> [])"

definition prejoinRootlessPathNamespaces :: "life_env \<Rightarrow> Spec \<Rightarrow> life_trace \<Rightarrow> unit res \<times> life_trace" where
  "prejoinRootlessPathNamespaces env s = done_if (\<not> shouldPrejoinRootlessPathNamespaces env s) (steps
     [wrapped ''prejoin namespaces'' (call env JoinNamespaces),
      wrapped ''allow rootless low ports in shared network namespace'' (call env AllowLowPorts)])"

definition waitFirstChildPID :: "life_env \<Rightarrow> int \<Rightarrow> nat \<Rightarrow> nat \<Rightarrow> life_trace \<Rightarrow> int res \<times> life_trace" where
  "waitFirstChildPID env parent timeout pollInterval = poll_until
     (\<lambda>tr. (case FirstChildPID (le_proc env tr) parent of
         Some pid \<Rightarrow> Inr pid
       | None \<Rightarrow> (case ScanFirstChildPID (le_proc env tr) parent of Some pid \<Rightarrow> Inr pid
         | None \<Rightarrow> Inl (Msg (''timed out waiting for child of pid '' @ itoa parent))), tr))
     (le_delay env) pollInterval timeout 0"

text \<open>The pid file is written beside its place, flushed, and renamed.\<close>

definition writeInitPid :: "life_env \<Rightarrow> string \<Rightarrow> int \<Rightarrow> life_trace \<Rightarrow> unit res \<times> life_trace" where
  "writeInitPid env cid initPid = (let pidPath = InitPidFilePath (le_getenv env) cid; dir = filepath_Dir pidPath in
     if initPid \<le> 0 then Pair (Inl (Msg (''invalid init pid: '' @ itoa initPid)))
     else and_then (wrapped ''mkdir container dir'' (call env (MakeDirs dir))) (\<lambda>_.
       and_then (wrapped ''create temp pidfile'' (query (le_text env) (CreateTemp dir))) (\<lambda>tmp.
       deferred (call env (RemovePath tmp)) (steps
         [wrapped ''write temp pidfile'' (call env (WriteText tmp (itoa initPid @ ''\<newline>''))),
          wrapped ''sync temp pidfile'' (call env (SyncFile tmp)),
          wrapped ''rename pidfile'' (call env (RenamePath tmp pidPath)),
          ignoring (call env (SyncFile dir))]))))"

definition InitExitCode :: "int \<times> int option \<Rightarrow> int" where
  "InitExitCode e = (if fst e \<ge> 0 then fst e else case snd e of Some sig \<Rightarrow> 128 + sig | None \<Rightarrow> -1)"

definition SetReasonAndMessage :: "life_env \<Rightarrow> string \<Rightarrow> int \<Rightarrow> string \<Rightarrow> life_trace \<Rightarrow> unit res \<times> life_trace" where
  "SetReasonAndMessage env cid exitCode message =
     (if exitCode = 0 then UpdateReasonAndMessage env cid ''Completed'' (''exit code: '' @ itoa exitCode)
      else UpdateReasonAndMessage env cid ''Error'' message)"

record ShimExecuteOption =
  sx_ContainerId :: string
  sx_Fifo :: string
  sx_Entrypoint :: "string list"
  sx_Tty :: bool
  sx_ConsoleSocket :: string

definition shim_stdio :: "life_env \<Rightarrow> ShimExecuteOption \<Rightarrow> Spec \<Rightarrow> life_trace \<Rightarrow> unit res \<times> life_trace" where
  "shim_stdio env opt s = (let cid = sx_ContainerId opt; log = ContainerLogPath (le_getenv env) cid; plan = PlanFromSpec (le_ids env) s in
     if sx_Tty opt then steps
       [call env OpenPty, applyConsoleSize env (po_ConsoleSize (sp_Process s)),
        done_if (sx_ConsoleSocket opt = []) (call env (SendConsole (sx_ConsoleSocket opt))),
        call env (ListenSocket (SockPath (le_getenv env) cid)), call env (OpenLog log)]
     else steps
       [call env (OpenLog log), done_if (\<not> rp_Enabled plan) (ChownToHostRoot env log plan), call env (OpenLog ''/dev/null'')])"

text \<open>
  The command of the init process; a variable that is added to the inherited environment tells it that its namespaces were joined already.
\<close>

definition shim_command :: "life_env \<Rightarrow> ShimExecuteOption \<Rightarrow> Spec \<Rightarrow> life_trace \<Rightarrow> command" where
  "shim_command env opt s tr = (let init = [le_self env, ''init'', sx_ContainerId opt, sx_Fifo opt] @ sx_Entrypoint opt;
       nsargs = PathNsenterArgs (le_proc env tr) s; prejoin = shouldPrejoinRootlessPathNamespaces env s in
     (program (if nsargs \<noteq> [] \<and> \<not> prejoin then ''nsenter'' # nsargs @ [''--''] @ init else init))
       \<lparr>cd_env := if prejoin \<or> nsargs \<noteq> [] then [''RAIND_NAMESPACES_PREJOINED=1''] else []\<rparr>)"

definition shim_finish :: "life_env \<Rightarrow> ShimExecuteOption \<Rightarrow> unit res \<Rightarrow> life_trace \<Rightarrow> unit res \<times> life_trace" where
  "shim_finish env opt waited = (let cid = sx_ContainerId opt in
     and_then (UpdateStatus env cid STOPPED 0 0) (\<lambda>_.
     then_do (\<lambda>tr. (InitExitCode (le_exit env tr), tr)) (\<lambda>exitCode. steps
       [UpdateExitCode env cid exitCode,
        SetReasonAndMessage env cid exitCode (case waited of Inl e \<Rightarrow> error_text e | Inr _ \<Rightarrow> []),
        done_if (\<not> sx_Tty opt) (ignoring (call env (RemovePath (SockPath (le_getenv env) cid)))),
        Pair waited])))"

definition droplet_Shim :: "life_env \<Rightarrow> ShimExecuteOption \<Rightarrow> life_trace \<Rightarrow> unit res \<times> life_trace" where
  "droplet_Shim env opt = (let cid = sx_ContainerId opt in
     and_then (verifyAndLoadSpec env cid) (\<lambda>s.
     and_then (call env (OpenLog (ShimLogPath (le_getenv env) cid))) (\<lambda>_.
     then_do (\<lambda>tr. (shim_command env opt s tr, tr)) (\<lambda>cmd.
     and_then (prejoinRootlessPathNamespaces env s) (\<lambda>_.
     and_then (shim_stdio env opt s) (\<lambda>_.
     and_then (query (le_number env) (StartProcess cmd (Some (BuildProcAttrForContainer (le_ids env) s)))) (\<lambda>startedPid.
     and_then (if nx_pidPath (BuildConfig s) = [] then Pair (Inr startedPid) else waitFirstChildPID env startedPid 3000 20) (\<lambda>initPid.
     and_then (writeInitPid env cid initPid) (\<lambda>_.
     then_do (call env (WaitProcess startedPid)) (shim_finish env opt))))))))))"

section \<open>Commands in a container\<close>

definition execWorkingDir :: "Spec \<Rightarrow> string" where
  "execWorkingDir s = (if po_Cwd (sp_Process s) = [] then ''/'' else po_Cwd (sp_Process s))"

definition buildExecNsenterCommand :: "life_env \<Rightarrow> string \<Rightarrow> Spec \<Rightarrow> string list" where
  "buildExecNsenterCommand env pid s = [''nsenter'', ''-t'', pid] @
     (if ConfigFromSpec (le_ids env) s \<noteq> None then [''-U'', ''--setuid'', ''0'', ''--setgid'', ''0''] else []) @
     [''-m'', ''-u'', ''-i'', ''-n'', ''-p'', ''-C'', ''--root'', ''--wd='' @ execWorkingDir s, ''--'']"

text \<open>The program is looked for under the root directory of the container's process.\<close>

fun find_in_container :: "life_env \<Rightarrow> string \<Rightarrow> string \<Rightarrow> string list \<Rightarrow> life_trace \<Rightarrow> string option \<times> life_trace" where
  "find_in_container env root arg0 [] = Pair None"
| "find_in_container env root arg0 (d # ds) =
     (let containerPath = filepath_Join [if d = [] then ''.'' else d, arg0] in
      then_do (call env (AccessPath (filepath_Join [root, trim_prefix containerPath ''/'']))) (\<lambda>r. case r of
        Inr _ \<Rightarrow> Pair (Some containerPath) | Inl _ \<Rightarrow> find_in_container env root arg0 ds))"

definition resolveExecEntrypoint :: "life_env \<Rightarrow> string \<Rightarrow> Spec \<Rightarrow> string list \<Rightarrow> life_trace \<Rightarrow> string list res \<times> life_trace" where
  "resolveExecEntrypoint env pid s entrypoint = (case entrypoint of
       [] \<Rightarrow> Pair (Inl (Msg ''exec command required''))
     | arg0 # args \<Rightarrow> if CHR ''/'' \<in> set arg0 then Pair (Inr entrypoint)
         else (let pathVal = OrDefault (po_Env (sp_Process s)) in
           then_do (find_in_container env (''/proc/'' @ pid @ ''/root'') arg0 (split_on CHR '':'' pathVal)) (\<lambda>r. Pair (case r of
             Some p \<Rightarrow> Inr (p # args)
           | None \<Rightarrow> Inl (Msg (arg0 @ '': not found in container PATH '' @ quoted pathVal))))))"

definition readSmallLog :: "life_env \<Rightarrow> string \<Rightarrow> life_trace \<Rightarrow> string \<times> life_trace" where
  "readSmallLog env path = then_do (query (le_text env) (ReadText path)) (\<lambda>r. Pair (case r of
     Inl _ \<Rightarrow> [] | Inr b \<Rightarrow> if length b > 4096 then drop (length b - 4096) b else b))"

definition exec_command :: "life_env \<Rightarrow> string \<Rightarrow> Spec \<Rightarrow> string list \<Rightarrow> command" where
  "exec_command env pid s entrypoint = (program (buildExecNsenterCommand env pid s @ entrypoint))\<lparr>cd_env := po_Env (sp_Process s)\<rparr>"

definition executeNsenter :: "life_env \<Rightarrow> int \<Rightarrow> Spec \<Rightarrow> string \<Rightarrow> string list \<Rightarrow> life_trace \<Rightarrow> unit res \<times> life_trace" where
  "executeNsenter env pid s cid entrypoint = (let log = ContainerLogPath (le_getenv env) cid in
     and_then (resolveExecEntrypoint env (itoa pid) s entrypoint) (\<lambda>resolved.
     and_then (call env (OpenLog log)) (\<lambda>_.
     then_do (call env (RunCommand (exec_command env (itoa pid) s resolved))) (\<lambda>r. case r of
       Inr _ \<Rightarrow> Pair (Inr ())
     | Inl e \<Rightarrow> then_do (readSmallLog env log) (\<lambda>out.
         Pair (Inl (Msg (''exec command failed: '' @ error_text e @ '': output='' @ quoted out))))))))"

record ExecOption =
  xo_ContainerId :: string
  xo_Tty :: bool
  xo_Entrypoint :: "string list"

definition droplet_Exec :: "life_env \<Rightarrow> ExecOption \<Rightarrow> life_trace \<Rightarrow> unit res \<times> life_trace" where
  "droplet_Exec env opt = (let cid = xo_ContainerId opt in
     and_then (GetStatusFromId env cid) (\<lambda>st.
     and_then (Pair (EnsureRunning cid st)) (\<lambda>_.
     and_then (GetPidFromId env cid) (\<lambda>pid.
     and_then (loadFile env cid) (\<lambda>s.
     if xo_Tty opt then void (query (le_number env) (StartProcess (program ([le_self env, ''exec-shim'', cid, itoa pid] @ xo_Entrypoint opt)) None))
     else executeNsenter env pid s cid (xo_Entrypoint opt))))))"

definition droplet_ExecShim :: "life_env \<Rightarrow> string \<Rightarrow> string \<Rightarrow> string list \<Rightarrow> life_trace \<Rightarrow> unit res \<times> life_trace" where
  "droplet_ExecShim env cid pid entrypoint = (let sock = ExecSockPath (le_getenv env) cid in
     and_then (call env (OpenLog (ExecShimLogPath (le_getenv env) cid))) (\<lambda>_.
     and_then (tolerate (system_error (le_notExist env)) (call env (RemovePath sock))) (\<lambda>_.
     and_then (call env OpenPty) (\<lambda>_. deferred (call env (RemovePath sock)) (
     and_then (call env (ListenSocket sock)) (\<lambda>_.
     and_then (loadFile env cid) (\<lambda>s.
     and_then (resolveExecEntrypoint env pid s entrypoint) (\<lambda>resolved.
     and_then (query (le_number env) (StartProcess (exec_command env pid s resolved) None)) (\<lambda>nsenterPid. steps
       [call env (OpenLog (ContainerLogPath (le_getenv env) cid)),
        deferred (call env (RemovePath sock)) (call env (WaitProcess nsenterPid))])))))))))"

end
