(* ===== verification/Droplet_Lifecycle_Machine.thy ===== *)
theory Droplet_Lifecycle_Machine
  imports Droplet_Supervisor
begin

text \<open>
  The record of a container's state follows a life cycle: an abstract machine, and the proof that every sequence of operations on any
  number of containers stays within it when the operations run one after another.
\<close>

section \<open>The abstract machine\<close>

text \<open>
  The recorded state is overwritten by a creation, becomes created and running in this order, stopped at any time, and disappears from the
  stopped state or, when forced, from the creating one. The last step, a stopped state overwritten by running, is one of the machine with flag \<open>True\<close> only.
\<close>

inductive life_step :: "bool \<Rightarrow> string option \<Rightarrow> string option \<Rightarrow> bool" where
  create: "life_step v s (Some ''creating'')"
| created: "life_step v (Some ''creating'') (Some ''created'')"
| start: "life_step v (Some ''created'') (Some ''running'')"
| signalled: "life_step v (Some ''running'') (Some ''running'')"
| stop: "life_step v (Some s) (Some ''stopped'')"
| delete: "life_step v (Some ''stopped'') None"
| discard: "life_step v (Some ''creating'') None"
| rerecord: "life_step True (Some ''stopped'') (Some ''running'')"

text \<open>The state files after the calls of a trace, and the recorded states of one container, in order.\<close>

definition apply_call :: "life_call \<times> bool \<Rightarrow> (string \<Rightarrow> StatusObject option) \<Rightarrow> string \<Rightarrow> StatusObject option" where
  "apply_call e F = (case e of
     (WriteStateFile cid s, True) \<Rightarrow> F(cid := Some s)
   | (RemoveStateFile cid, True) \<Rightarrow> F(cid := None)
   | _ \<Rightarrow> F)"

definition files :: "life_trace \<Rightarrow> string \<Rightarrow> StatusObject option" where
  "files tr = fold apply_call tr (\<lambda>_. None)"

definition recorded :: "(string \<Rightarrow> StatusObject option) \<Rightarrow> string \<Rightarrow> string option" where
  "recorded F cid = map_option so_Status (F cid)"

definition touches :: "string \<Rightarrow> life_call \<times> bool \<Rightarrow> bool" where
  "touches cid e \<longleftrightarrow> (case e of (WriteStateFile c _, True) \<Rightarrow> c = cid | (RemoveStateFile c, True) \<Rightarrow> c = cid | _ \<Rightarrow> False)"

definition history :: "string \<Rightarrow> life_trace \<Rightarrow> string option list" where
  "history cid tr = None # map (\<lambda>k. recorded (files (take (Suc k) tr)) cid) (filter (\<lambda>k. touches cid (tr ! k)) [0..<length tr])"

text \<open>Nobody else writes the files: what is read is what was last written.\<close>

definition quiet :: "life_env \<Rightarrow> bool" where
  "quiet env \<longleftrightarrow> (\<forall>tr cid s. le_state env tr (ReadStateFile cid) = Inr s \<longleftrightarrow> files tr cid = Some s)"

lemma files_snoc [simp]: "files (tr @ [e]) = apply_call e (files tr)"
  by (simp add: files_def)

lemma files_Nil [simp]: "files [] = (\<lambda>_. None)"
  by (simp add: files_def)

lemma history_Nil [simp]: "history cid [] = [None]"
  by (simp add: history_def)

lemma history_nonempty [simp]: "history cid tr \<noteq> []"
  by (simp add: history_def)

lemma history_snoc [simp]:
  "history cid (tr @ [e]) = (if touches cid e then history cid tr @ [recorded (apply_call e (files tr)) cid] else history cid tr)"
proof -
  have "map (\<lambda>k. recorded (files (take (Suc k) (tr @ [e]))) cid) (filter (\<lambda>k. touches cid ((tr @ [e]) ! k)) [0..<length tr]) =
      map (\<lambda>k. recorded (files (take (Suc k) tr)) cid) (filter (\<lambda>k. touches cid (tr ! k)) [0..<length tr])"
    by (intro map_cong filter_cong) (auto simp: nth_append)
  then show ?thesis by (simp add: history_def nth_append)
qed

lemma untouched: "\<not> touches cid e \<Longrightarrow> apply_call e F cid = F cid"
  by (auto simp: touches_def apply_call_def split: prod.splits life_call.splits bool.splits)

section \<open>Runs that respect the machine\<close>

definition states :: "string list" where
  "states = [''creating'', ''created'', ''running'', ''stopped'']"

definition filed :: "(string \<Rightarrow> StatusObject option) \<Rightarrow> bool" where
  "filed F \<longleftrightarrow> (\<forall>cid s. F cid = Some s \<longrightarrow> so_Id s = cid \<and> so_Status s \<in> set states)"

definition legal :: "bool \<Rightarrow> life_trace \<Rightarrow> bool" where
  "legal v tr \<longleftrightarrow> (\<forall>cid. successively (life_step v) (history cid tr) \<and> last (history cid tr) = recorded (files tr) cid) \<and> filed (files tr)"

definition allowed :: "bool \<Rightarrow> life_call \<Rightarrow> (string \<Rightarrow> StatusObject option) \<Rightarrow> bool" where
  "allowed v c F \<longleftrightarrow> (case c of
     WriteStateFile cid s \<Rightarrow> life_step v (recorded F cid) (Some (so_Status s)) \<and> so_Id s = cid \<and> so_Status s \<in> set states
   | RemoveStateFile cid \<Rightarrow> life_step v (recorded F cid) None
   | _ \<Rightarrow> True)"

definition abides :: "bool \<Rightarrow> ((string \<Rightarrow> StatusObject option) \<Rightarrow> bool) \<Rightarrow> (life_trace \<Rightarrow> 'a \<times> life_trace) \<Rightarrow> ('a \<Rightarrow> (string \<Rightarrow> StatusObject option) \<Rightarrow> bool) \<Rightarrow> bool" where
  "abides v P f Q \<longleftrightarrow> (\<forall>tr r tr'. legal v tr \<and> P (files tr) \<and> f tr = (r, tr') \<longrightarrow> legal v tr' \<and> Q r (files tr'))"

lemma touched:
  assumes "touches cid (c, b)" "allowed v c F"
  shows "life_step v (recorded F cid) (recorded (apply_call (c, b) F) cid)"
    "apply_call (c, b) F cid = Some s \<Longrightarrow> so_Id s = cid \<and> so_Status s \<in> set states"
  using assms by (auto simp: touches_def apply_call_def allowed_def recorded_def split: life_call.splits bool.splits)

lemma legal_snoc:
  assumes "legal v tr" "allowed v c (files tr)"
  shows "legal v (tr @ [(c, b)])"
proof -
  have l: "successively (life_step v) (history cid tr)" "last (history cid tr) = recorded (files tr) cid" for cid
    using assms(1) by (simp_all add: legal_def)
  have "successively (life_step v) (history cid (tr @ [(c, b)])) \<and> last (history cid (tr @ [(c, b)])) = recorded (files (tr @ [(c, b)])) cid" for cid
  proof (cases "touches cid (c, b)")
    case True
    then show ?thesis using l [of cid] touched(1) [OF True assms(2)] by (simp add: successively_append_iff)
  next
    case False
    then show ?thesis using l [of cid] untouched [OF False, of "files tr"] by (simp add: recorded_def)
  qed
  moreover have "filed (files (tr @ [(c, b)]))"
    unfolding filed_def
  proof (intro allI impI)
    fix cid s
    assume s: "files (tr @ [(c, b)]) cid = Some s"
    show "so_Id s = cid \<and> so_Status s \<in> set states"
    proof (cases "touches cid (c, b)")
      case True
      then show ?thesis using s touched(2) [OF True assms(2)] by simp
    next
      case False
      then show ?thesis using s untouched [OF False, of "files tr"] assms(1) by (simp add: legal_def filed_def)
    qed
  qed
  ultimately show ?thesis by (simp add: legal_def)
qed

lemma abides_and_then:
  assumes "abides v P f Q" "\<And>a. abides v (Q (Inr a)) (g a) R" "\<And>e F. Q (Inl e) F \<Longrightarrow> R (Inl e) F"
  shows "abides v P (and_then f g) R"
  unfolding abides_def
proof (intro allI impI, elim conjE)
  fix tr r tr'
  assume l: "legal v tr" "P (files tr)" and run: "and_then f g tr = (r, tr')"
  obtain r1 tr1 where f: "f tr = (r1, tr1)" by (cases "f tr")
  then have q: "legal v tr1" "Q r1 (files tr1)" using assms(1) l unfolding abides_def by blast+
  show "legal v tr' \<and> R r (files tr')"
  proof (cases r1)
    case (Inl e)
    then show ?thesis using run f q assms(3) by (auto simp: and_then_def)
  next
    case (Inr a)
    then have "g a tr1 = (r, tr')" using run f by (simp add: and_then_def)
    then show ?thesis using assms(2) [of a] q Inr unfolding abides_def by blast
  qed
qed

lemma abides_then_do:
  assumes "abides v P f Q" "\<And>a. abides v (Q a) (g a) R"
  shows "abides v P (then_do f g) R"
  unfolding abides_def
proof (intro allI impI, elim conjE)
  fix tr r tr'
  assume l: "legal v tr" "P (files tr)" and run: "then_do f g tr = (r, tr')"
  obtain r1 tr1 where f: "f tr = (r1, tr1)" by (cases "f tr")
  then have "legal v tr1" "Q r1 (files tr1)" using assms(1) l unfolding abides_def by blast+
  moreover have "g r1 tr1 = (r, tr')" using run f by (simp add: then_do_def)
  ultimately show "legal v tr' \<and> R r (files tr')" using assms(2) [of r1] unfolding abides_def by blast
qed

lemma abides_weaken: "abides v P f Q \<Longrightarrow> (\<And>F. P' F \<Longrightarrow> P F) \<Longrightarrow> (\<And>r F. Q r F \<Longrightarrow> Q' r F) \<Longrightarrow> abides v P' f Q'"
  unfolding abides_def by blast

lemma abides_Pair: "(\<And>F. P F \<Longrightarrow> Q r F) \<Longrightarrow> abides v P (Pair r) Q"
  by (simp add: abides_def)

lemma abides_query:
  assumes "\<And>F. P F \<Longrightarrow> filed F \<Longrightarrow> allowed v c F" "\<And>r F. P F \<Longrightarrow> Q r (apply_call (c, is_ok r) F)"
  shows "abides v P (query get c) Q"
  unfolding abides_def
proof (intro allI impI, elim conjE)
  fix tr r tr'
  assume l: "legal v tr" "P (files tr)" and "query get c tr = (r, tr')"
  then have "tr' = tr @ [(c, is_ok r)]" by (auto simp: query_def)
  moreover have "filed (files tr)" using l(1) by (simp add: legal_def)
  ultimately show "legal v tr' \<and> Q r (files tr')" using legal_snoc [OF l(1) assms(1)] l(2) assms(2) by (simp del: is_ok_iff)
qed

text \<open>Calls that do not change a state file.\<close>

definition neutral :: "life_call \<Rightarrow> bool" where
  "neutral c \<longleftrightarrow> (case c of WriteStateFile _ _ \<Rightarrow> False | RemoveStateFile _ \<Rightarrow> False | _ \<Rightarrow> True)"

lemma neutral_legal: "legal v tr \<Longrightarrow> list_all (\<lambda>e. neutral (fst e)) evs \<Longrightarrow> legal v (tr @ evs) \<and> files (tr @ evs) = files tr"
proof (induction evs rule: rev_induct)
  case (snoc e evs)
  obtain c b where e: "e = (c, b)" by (cases e)
  with snoc.prems have "neutral c" by simp
  then have "allowed v c F" "apply_call (c, b) F = F" for F by (auto simp: neutral_def allowed_def apply_call_def split: life_call.splits)
  then show ?case using snoc legal_snoc [of v "tr @ evs" c b] e files_snoc [of "tr @ evs" "(c, b)"] by simp
qed simp

lemma abides_neutral: "emits neutral f \<Longrightarrow> (\<And>r F. P F \<Longrightarrow> Q r F) \<Longrightarrow> abides v P f Q"
  unfolding abides_def by (metis emits_grows neutral_legal)

section \<open>What success leads to\<close>

definition leads :: "bool \<Rightarrow> ((string \<Rightarrow> StatusObject option) \<Rightarrow> bool) \<Rightarrow> (life_trace \<Rightarrow> 'a res \<times> life_trace) \<Rightarrow> ('a \<Rightarrow> (string \<Rightarrow> StatusObject option) \<Rightarrow> bool) \<Rightarrow> bool" where
  "leads v P f Q \<longleftrightarrow> abides v P f (\<lambda>r F. \<forall>a. r = Inr a \<longrightarrow> Q a F)"

lemma leads_and_then: "leads v P f Q \<Longrightarrow> (\<And>a. leads v (Q a) (g a) R) \<Longrightarrow> leads v P (and_then f g) R"
  unfolding leads_def by (rule abides_and_then, assumption) (auto intro: abides_weaken)

lemma leads_weaken: "leads v P f Q \<Longrightarrow> (\<And>F. P' F \<Longrightarrow> P F) \<Longrightarrow> (\<And>a F. Q a F \<Longrightarrow> Q' a F) \<Longrightarrow> leads v P' f Q'"
  unfolding leads_def by (erule abides_weaken) auto

lemma leads_Cons: "leads v P f (\<lambda>_. Q) \<Longrightarrow> leads v Q (steps fs) R \<Longrightarrow> leads v P (steps (f # fs)) R"
  by (auto intro: leads_and_then)

lemma leads_Pair: "(\<And>a F. r = Inr a \<Longrightarrow> P F \<Longrightarrow> Q a F) \<Longrightarrow> leads v P (Pair r) Q"
  unfolding leads_def by (rule abides_Pair) auto

lemma leads_Nil: "(\<And>F. P F \<Longrightarrow> Q () F) \<Longrightarrow> leads v P (steps []) Q"
  by (auto intro: leads_Pair)

lemma leads_neutral: "emits neutral f \<Longrightarrow> (\<And>a F. P F \<Longrightarrow> Q a F) \<Longrightarrow> leads v P f Q"
  unfolding leads_def by (rule abides_neutral) auto

lemma leads_done_if: "(b \<Longrightarrow> \<forall>F. P F \<longrightarrow> Q () F) \<Longrightarrow> (\<not> b \<Longrightarrow> leads v P f Q) \<Longrightarrow> leads v P (done_if b f) Q"
  by (auto simp: done_if_def intro: leads_Pair)

lemma leads_wrapped: "leads v P f Q \<Longrightarrow> leads v P (wrapped pre f) Q"
  unfolding leads_def abides_def wrapped_def by (auto split: prod.splits sum.splits)

section \<open>The status file\<close>

lemma emits_call [emits_intro]: "P c \<Longrightarrow> emits P (call env c)"
  by (simp add: call_def emits_query)

lemma read_leads: "quiet env \<Longrightarrow> leads v P (read_state env cid) (\<lambda>s F. P F \<and> F cid = Some s)"
  unfolding leads_def abides_def read_state_def query_def quiet_def
  using neutral_legal [of v _ "[(ReadStateFile cid, _)]"] by (auto simp: neutral_def apply_call_def)

lemma update_leads:
  assumes "quiet env" "\<And>F s. P F \<Longrightarrow> F cid = Some s \<Longrightarrow> life_step v (Some (so_Status s)) (Some (so_Status (g s)))"
    "\<And>s. so_Id (g s) = so_Id s" "\<And>s. so_Status s \<in> set states \<Longrightarrow> so_Status (g s) \<in> set states"
  shows "leads v P (update_state env cid g) (\<lambda>_ F. \<exists>s F'. P F' \<and> F' cid = Some s \<and> F = F'(cid \<mapsto> g s))"
  unfolding update_state_def
proof (rule leads_and_then [OF read_leads [OF assms(1)]])
  fix s
  show "leads v (\<lambda>F. P F \<and> F cid = Some s) (call env (WriteStateFile cid (g s))) (\<lambda>_ F. \<exists>s F'. P F' \<and> F' cid = Some s \<and> F = F'(cid \<mapsto> g s))"
    unfolding leads_def call_def
    by (rule abides_query) (use assms in \<open>auto simp: allowed_def recorded_def filed_def apply_call_def\<close>)
qed

lemma status_String_simps [simp]:
  "status_String CREATING = ''creating''" "status_String CREATED = ''created''" "status_String RUNNING = ''running''" "status_String STOPPED = ''stopped''"
  by (simp_all add: status_String_def status_values)

lemma parse_status:
  assumes "ParseContainerStatus x = Inr st" "x \<in> set states"
  shows "x = status_String st"
  using assms by (auto simp: ParseContainerStatus_def states_def to_lower_def to_lower_char_def status_values status_String_def split: if_splits)

lemma UpdateStatus_leads:
  assumes "quiet env" "0 \<le> st" "st \<le> 3" "\<And>F x. P F \<Longrightarrow> recorded F cid = Some x \<Longrightarrow> life_step v (Some x) (Some (status_String st))"
  shows "leads v P (UpdateStatus env cid st pid shim) (\<lambda>_ F. recorded F cid = Some (status_String st))"
proof -
  have w: "so_Status (with_status st pid shim s) = status_String st" "so_Id (with_status st pid shim s) = so_Id s" for s
    using assms(2,3) by (simp_all add: with_status_def Let_def)
  have "status_String st \<in> set states" using assms(2,3) by (auto simp: status_String_def states_def status_values)
  then have "leads v P (UpdateStatus env cid st pid shim)
      (\<lambda>_ F. \<exists>s F'. P F' \<and> F' cid = Some s \<and> F = F'(cid \<mapsto> with_status st pid shim s))"
    unfolding UpdateStatus_def by (intro update_leads assms(1)) (use assms(4) in \<open>auto simp: w recorded_def\<close>)
  then show ?thesis by (rule leads_weaken) (auto simp: recorded_def w)
qed

lemma stop_leads: "quiet env \<Longrightarrow> leads v P (UpdateStatus env cid STOPPED pid shim) (\<lambda>_ F. recorded F cid = Some ''stopped'')"
  using UpdateStatus_leads [of env STOPPED P cid v pid shim] by (simp add: life_step.stop status_values status_String_def)

text \<open>A recorded state that is not running survives its reading.\<close>

lemma recompute_leads:
  assumes "quiet env"
  shows "leads v P (recomputeStatus env cid pid cur) (\<lambda>_ F. cur \<noteq> RUNNING \<longrightarrow> P F)"
proof (cases "cur = RUNNING")
  case True
  have alive: "abides v P (pidAlive env pid) (\<lambda>_ _. True)"
    by (rule abides_neutral) (auto simp: pidAlive_def neutral_def intro!: emits_intro)
  have "abides v P (recomputeStatus env cid pid cur) (\<lambda>_ _. True)"
    unfolding recomputeStatus_def using True
    by (auto intro!: abides_then_do [OF alive] abides_Pair abides_weaken [OF stop_leads [OF assms, unfolded leads_def]])
  then show ?thesis using True unfolding leads_def by (auto elim: abides_weaken)
qed (simp add: recomputeStatus_def leads_Pair)

lemma reading_leads:
  assumes "quiet env" "\<And>cur. leads v (\<lambda>F. b \<longrightarrow> P F) (g cur) Q"
  shows "leads v (\<lambda>F. b \<longrightarrow> P F \<and> recorded F cid \<noteq> Some ''running'')
     (and_then (read_state env cid) (\<lambda>s. and_then (Pair (ParseContainerStatus (so_Status s))) (\<lambda>cur.
        and_then (recomputeStatus env cid (so_Pid s) cur) (\<lambda>_. g cur)))) Q"
proof (rule leads_and_then [OF read_leads [OF assms(1)]])
  fix s
  let ?P = "\<lambda>F. (b \<longrightarrow> P F \<and> recorded F cid \<noteq> Some ''running'') \<and> F cid = Some s"
  show "leads v ?P (and_then (Pair (ParseContainerStatus (so_Status s))) (\<lambda>cur. and_then (recomputeStatus env cid (so_Pid s) cur) (\<lambda>_. g cur))) Q"
  proof (rule leads_and_then [where Q = "\<lambda>cur F. (b \<longrightarrow> P F \<and> cur \<noteq> RUNNING)"])
    show "leads v ?P (Pair (ParseContainerStatus (so_Status s))) (\<lambda>cur F. b \<longrightarrow> P F \<and> cur \<noteq> RUNNING)"
      unfolding leads_def abides_def
      by (auto simp: recorded_def legal_def filed_def dest: parse_status)
    fix cur
    show "leads v (\<lambda>F. b \<longrightarrow> P F \<and> cur \<noteq> RUNNING) (and_then (recomputeStatus env cid (so_Pid s) cur) (\<lambda>_. g cur)) Q"
    proof (cases "b \<and> cur = RUNNING")
      case False
      then show ?thesis by (intro leads_and_then [OF recompute_leads [OF assms(1)]]) (rule leads_weaken [OF assms(2)], auto)
    qed (simp add: leads_def abides_def)
  qed
qed

end
