(* ===== verification/Droplet_Lifecycle_Safety.thy ===== *)
theory Droplet_Lifecycle_Safety
  imports Droplet_Lifecycle_Machine
begin

text \<open>
  Each operation of the low-level runtime, the supervisor and the executions included, changes the recorded states only by steps of the life
  cycle, and so does every sequence of them that no other writer disturbs.
\<close>

section \<open>Operations that leave the status file alone\<close>

lemma emits_poll_until [emits_intro]:
  assumes "emits P probe"
  shows "emits P (poll_until probe delay interval timeout elapsed)"
  unfolding emits_def
proof
  fix tr
  show "\<exists>evs. snd (poll_until probe delay interval timeout elapsed tr) = tr @ evs \<and> list_all (\<lambda>e. P (fst e)) evs"
  proof (induction "Suc timeout - elapsed" arbitrary: elapsed tr rule: less_induct)
    case less
    obtain r tr1 where p: "probe tr = (r, tr1)" by (cases "probe tr")
    then obtain xs where xs: "tr1 = tr @ xs" "list_all (\<lambda>e. P (fst e)) xs" using emits_grows [OF assms p] by blast
    show ?case
    proof (cases "(\<exists>a. r = Inr a) \<or> elapsed + delay tr1 > timeout")
      case True
      then have "snd (poll_until probe delay interval timeout elapsed tr) = tr1" by (cases r) (auto simp: poll_until.simps p)
      then show ?thesis using xs by simp
    next
      case False
      then obtain e where "r = Inl e" by (cases r) auto
      then have "poll_until probe delay interval timeout elapsed tr = poll_until probe delay interval timeout (elapsed + delay tr1 + max 1 interval) tr1"
        using False by (simp add: poll_until.simps [of probe delay interval timeout elapsed] p)
      moreover obtain ys where "snd (poll_until probe delay interval timeout (elapsed + delay tr1 + max 1 interval) tr1) = tr1 @ ys"
          "list_all (\<lambda>e. P (fst e)) ys"
        using less [of "elapsed + delay tr1 + max 1 interval" tr1] False by fastforce
      ultimately show ?thesis using xs by simp
    qed
  qed
qed

lemma emits_deferred [emits_intro]: "emits P f \<Longrightarrow> emits P g \<Longrightarrow> emits P (deferred g f)"
  by (simp add: deferred_def emits_then_do emits_Pair)

lemma emits_ignoring [emits_intro]: "emits P f \<Longrightarrow> emits P (ignoring f)"
  by (simp add: ignoring_def emits_then_do emits_Pair)

lemma emits_pure [emits_intro]: "emits P (\<lambda>tr. (h tr, tr))"
  by (simp add: emits_def)

lemma emits_case_sum [emits_intro]: "(\<And>e. emits P (f e)) \<Longrightarrow> (\<And>a. emits P (g a)) \<Longrightarrow> emits P (case r of Inl e \<Rightarrow> f e | Inr a \<Rightarrow> g a)"
  by (cases r) auto

lemma neutral_simps [simp]:
  "neutral (ReadStateFile a)" "neutral (ReadStateText a)" "neutral ListContainerDirs" "neutral (LoadConfigFile a)" "neutral (WriteConfigFile a s)"
  "neutral (HashConfigFile a)" "neutral (ReadHashFile a)" "neutral (WriteHashFile a b)" "neutral (SendSignal i j)" "neutral (ReadText a)"
  "neutral (WriteText a b)" "neutral (StatPath a)" "neutral (AbsPath a)" "neutral (MakeDirs a)" "neutral (MakeDir a)" "neutral (RemovePath a)"
  "neutral (RemoveTree a)" "neutral (RenamePath a b)" "neutral (AccessPath a)" "neutral (MakeFifo a)" "neutral (SignalFifo a)"
  "neutral (ChownPath a i j)" "neutral (ChownTree a i j)" "neutral (CopyShifted a b)" "neutral (CreateTemp a)" "neutral (SyncFile a)"
  "neutral (OpenLog a)" "neutral OpenPty" "neutral (SetWinsize m n)" "neutral (SendConsole a)" "neutral (ListenSocket a)" "neutral JoinNamespaces"
  "neutral AllowLowPorts" "neutral (RunHook a c)" "neutral (RunCommand c)" "neutral (StartProcess c p)" "neutral (WaitProcess i)"
  by (simp_all add: neutral_def)

lemma resources_neutral:
  "emits neutral (PrepareConfig env cid b)" "emits neutral (PathForContainer env cid b)" "emits neutral (SealAndLoad env cid)"
  "emits neutral (loadFile env cid)" "emits neutral (WriteCurrent env cid)" "emits neutral (verifyAndLoadSpec env cid)"
  "emits neutral (WriteContainerPidFile env f pid)" "emits neutral (WriteExternalPidFileMarker env cid f)" "emits neutral (ChownToHostRoot env f plan)"
  by (auto simp: PrepareConfig_def PathForContainer_def SealAndLoad_def loadFile_def WriteCurrent_def CurrentHash_def verifyAndLoadSpec_def
      VerifySeal_def WriteContainerPidFile_def WriteExternalPidFileMarker_def ChownToHostRoot_def intro!: emits_intro)

lemma cache_ready_neutral: "emits neutral (ShiftedLayerCacheReady env p m)"
  by (auto simp: ShiftedLayerCacheReady_def intro!: emits_intro split: sum.split bool.split)

lemma shifted_layer_neutral: "emits neutral (PrepareShiftedLayerCache env src policy)"
  by (auto simp: PrepareShiftedLayerCache_def Let_def tryCreateRootlessCacheLock_def waitRootlessShiftedLayerCache_def
      intro!: emits_intro cache_ready_neutral)

lemma PrepareSpec_neutral: "emits neutral (PrepareSpec env cid s)"
proof -
  have "emits neutral (shift_layers env policy ls)" for policy ls
    by (induction ls) (auto intro!: emits_intro shifted_layer_neutral)
  then show ?thesis
    by (auto simp: PrepareSpec_def PrepareShiftedImageLayers_def RewriteContainerSpecAndHash_def Let_def intro!: emits_intro resources_neutral)
qed

lemma PrepareRuntime_neutral: "emits neutral (PrepareRuntime env fifo s plan)"
  by (auto simp: PrepareRuntime_def PrepareWritableFilesystem_def chownPathTree_def list_all_iff intro!: emits_intro resources_neutral split: option.split prod.split)

lemma explained_neutral: "emits neutral f \<Longrightarrow> emits neutral (explained env cid f)"
  by (auto simp: explained_def wrapInitPidWaitError_def tailFileForError_def Let_def intro!: emits_intro split: sum.split)

lemma StartAndWait_neutral: "emits neutral (StartAndWait env cid s fifo tty sock pidFile)"
  by (auto simp: StartAndWait_def cleanupShimFile_def executeShim_def waitInitPid_def tryReadPidFile_def
      intro!: emits_intro explained_neutral resources_neutral)

lemma PrepareCgroup_neutral: "emits neutral (PrepareCgroup env cid s pid)"
  by (auto simp: PrepareCgroup_def SetMemoryLimit_def SetCpuLimit_def SetPidsLimit_def SetProcess_def Let_def intro!: emits_intro)

lemma PrepareNetwork_neutral: "emits neutral (PrepareNetwork env cid pid a)"
proof -
  have "emits neutral (WaitProcessNetnsReady env cid pid t p)" for t p
    by (auto simp: WaitProcessNetnsReady_def ReadInitLogTail_def intro!: emits_intro split: sum.split)
  then show ?thesis
    by (auto simp: PrepareNetwork_def createVethPair_def setupContainerNetns_def runNetworkCommand_def Let_def intro!: emits_intro)
qed

lemma PrepareHostResources_neutral: "emits neutral (PrepareHostResources env cid s pid plan)"
  by (auto simp: PrepareHostResources_def intro!: emits_intro explained_neutral PrepareCgroup_neutral PrepareNetwork_neutral)

lemma WaitProcessExit_neutral: "emits neutral (WaitProcessExit env pid st t)"
  by (auto simp: WaitProcessExit_def probe_exit_def ReadProcStartTime_def ReadProcState_def read_proc_stat_def Let_def intro!: emits_intro)

lemma await_exit_neutral: "emits neutral (await_exit env sg pid st)"
  by (auto simp: await_exit_def intro!: emits_intro WaitProcessExit_neutral)

lemma run_hooks_neutral: "emits neutral (run_hooks env phase cmd i hs)"
  by (induction hs arbitrary: i) (auto intro!: emits_intro)

section \<open>The operations respect the life cycle\<close>

lemma hooks_lead:
  assumes "quiet env"
  shows "leads v (\<lambda>F. b \<longrightarrow> P F \<and> recorded F cid \<noteq> Some ''running'') (runHookList env cid phase hs) (\<lambda>_ F. b \<longrightarrow> P F)"
    "leads v (\<lambda>F. b \<longrightarrow> P F \<and> recorded F cid \<noteq> Some ''running'') (runHookListWithNsenter env cid phase hs) (\<lambda>_ F. b \<longrightarrow> P F)"
proof -
  have r: "leads v (\<lambda>F. b \<longrightarrow> P F \<and> recorded F cid \<noteq> Some ''running'') (ReadStatusFile env cid) (\<lambda>_ F. b \<longrightarrow> P F)"
    unfolding ReadStatusFile_def by (rule reading_leads [OF assms]) (auto intro!: leads_neutral emits_intro)
  have p: "leads v (\<lambda>F. b \<longrightarrow> P F) (GetPidFromId env cid) (\<lambda>_ F. b \<longrightarrow> P F)"
    by (rule leads_neutral) (auto simp: GetPidFromId_def read_state_def intro!: emits_intro)
  show "leads v (\<lambda>F. b \<longrightarrow> P F \<and> recorded F cid \<noteq> Some ''running'') (runHookList env cid phase hs) (\<lambda>_ F. b \<longrightarrow> P F)"
    unfolding runHookList_def by (rule leads_and_then [OF r]) (rule leads_neutral [OF run_hooks_neutral])
  show "leads v (\<lambda>F. b \<longrightarrow> P F \<and> recorded F cid \<noteq> Some ''running'') (runHookListWithNsenter env cid phase hs) (\<lambda>_ F. b \<longrightarrow> P F)"
    unfolding runHookListWithNsenter_def by (rule leads_and_then [OF r], rule leads_and_then [OF p]) (rule leads_neutral [OF run_hooks_neutral])
qed

lemmas hook_runs = RunCreateRuntimeHooks_def RunCreateContainerHooks_def RunStartContainerHooks_def RunPoststartHooks_def RunStopContainerHooks_def
  RunPoststopHooks_def

text \<open>Hooks keep a recorded state that is not running, and in any case nothing illegal happens.\<close>

lemma hooks_keep:
  assumes "quiet env" "x \<noteq> ''running''"
  shows "leads v (\<lambda>F. recorded F cid = Some x) (RunCreateRuntimeHooks env cid hs) (\<lambda>_ F. recorded F cid = Some x)"
    "leads v (\<lambda>F. recorded F cid = Some x) (RunStartContainerHooks env cid hs) (\<lambda>_ F. recorded F cid = Some x)"
    "leads v (\<lambda>F. recorded F cid = Some x) (RunPoststopHooks env cid hs) (\<lambda>_ F. recorded F cid = Some x)"
proof -
  let ?P = "\<lambda>F. recorded F cid = Some x"
  have "leads v ?P (runHookList env cid phase hs) (\<lambda>_. ?P)" "leads v ?P (runHookListWithNsenter env cid phase hs) (\<lambda>_. ?P)" for phase
    by (rule leads_weaken [OF hooks_lead(1) [OF assms(1), of v True ?P]] leads_weaken [OF hooks_lead(2) [OF assms(1), of v True ?P]];
        use assms(2) in simp)+
  then show "leads v ?P (RunCreateRuntimeHooks env cid hs) (\<lambda>_. ?P)" "leads v ?P (RunStartContainerHooks env cid hs) (\<lambda>_. ?P)"
    "leads v ?P (RunPoststopHooks env cid hs) (\<lambda>_. ?P)"
    by (auto simp: hook_runs intro!: leads_done_if)
qed

lemma hooks_legal:
  assumes "quiet env"
  shows "leads v P (RunCreateRuntimeHooks env cid hs) (\<lambda>_ _. True)" "leads v P (RunCreateContainerHooks env cid hs) (\<lambda>_ _. True)"
    "leads v P (RunPoststartHooks env cid hs) (\<lambda>_ _. True)" "leads v P (RunStopContainerHooks env cid hs) (\<lambda>_ _. True)"
proof -
  have "leads v P (runHookList env cid phase hs) (\<lambda>_ _. True)" for phase
    by (rule leads_weaken [OF hooks_lead(1) [OF assms, of v False "\<lambda>_. True"]]) simp_all
  then show "leads v P (RunCreateRuntimeHooks env cid hs) (\<lambda>_ _. True)" "leads v P (RunCreateContainerHooks env cid hs) (\<lambda>_ _. True)"
    "leads v P (RunPoststartHooks env cid hs) (\<lambda>_ _. True)" "leads v P (RunStopContainerHooks env cid hs) (\<lambda>_ _. True)"
    by (auto simp: hook_runs intro!: leads_done_if)
qed

definition stands :: "string \<Rightarrow> int \<Rightarrow> (string \<Rightarrow> StatusObject option) \<Rightarrow> bool" where
  "stands cid st F \<longleftrightarrow> recorded F cid = Some (status_String st) \<and> st \<in> {CREATING, CREATED, RUNNING, STOPPED}"

lemma GetStatus_leads:
  assumes "quiet env"
  shows "leads v P (GetStatusFromId env cid) (stands cid)"
proof -
  have range: "ParseContainerStatus x = Inr st \<Longrightarrow> st = CREATING \<or> st = CREATED \<or> st = RUNNING \<or> st = STOPPED" for x st
    by (auto simp: ParseContainerStatus_def Let_def split: if_splits)
  have "leads v (\<lambda>_. True) (and_then (read_state env cid) (\<lambda>s. Pair (ParseContainerStatus (so_Status s))))
      (\<lambda>st F. recorded F cid = Some (status_String st) \<and> st \<in> {CREATING, CREATED, RUNNING, STOPPED})"
    by (rule leads_and_then [OF read_leads [OF assms]])
      (auto simp: leads_def abides_def recorded_def legal_def filed_def dest: parse_status range)
  then have "leads v (\<lambda>F. False \<longrightarrow> True \<and> recorded F cid \<noteq> Some ''running'') (GetStatusFromId env cid)
      (\<lambda>st F. recorded F cid = Some (status_String st) \<and> st \<in> {CREATING, CREATED, RUNNING, STOPPED})"
    unfolding GetStatusFromId_def by (intro reading_leads [OF assms, of v False "\<lambda>_. True"]) simp
  then show ?thesis by (rule leads_weaken) (auto simp: stands_def)
qed

lemma life_step_next [simp]:
  "life_step v (Some ''creating'') (Some ''created'')" "life_step v (Some ''created'') (Some ''running'')" "life_step v (Some ''running'') (Some ''running'')"
  "life_step v s (Some ''creating'')" "life_step v (Some x) (Some ''stopped'')" "life_step v (Some ''stopped'') None" "life_step v (Some ''creating'') None"
  by (auto intro: life_step.intros)

lemma update_from:
  assumes "quiet env" "st \<in> {CREATED, RUNNING}" "life_step v (Some x) (Some (status_String st))"
  shows "leads v (\<lambda>F. recorded F cid = Some x) (UpdateStatus env cid st pid shim) (\<lambda>_ F. recorded F cid = Some (status_String st))"
  by (rule UpdateStatus_leads) (use assms in \<open>auto simp: status_values\<close>)

lemma CreateStatusFile_leads: "leads v P (CreateStatusFile env cid 0 CREATING rootfs bundle a) (\<lambda>_ F. recorded F cid = Some ''creating'')"
  unfolding CreateStatusFile_def call_def leads_def
  by (rule abides_query) (auto simp: allowed_def states_def apply_call_def recorded_def)

lemma leads_keep_Cons: "emits neutral f \<Longrightarrow> leads v P (steps fs) R \<Longrightarrow> leads v P (steps (f # fs)) R"
  by (rule leads_Cons [OF leads_neutral])

lemma Create_leads:
  assumes "quiet env"
  shows "leads v (\<lambda>_. True) (droplet_Create env opt) (\<lambda>_ _. True)"
proof -
  let ?cid = "cr_ContainerId opt"
  let ?c = "\<lambda>_ F. recorded F ?cid = Some ''creating''"
  have first: "leads v (\<lambda>_. True) (steps [CreateStatusFile env ?cid 0 CREATING rootfs bundlePath a, RunCreateRuntimeHooks env ?cid hs,
        call env (MakeFifo fifo), PrepareRuntime env fifo s plan]) ?c" for rootfs bundlePath a hs fifo s plan
    by (intro leads_Cons [where Q = "?c ()"] leads_Nil CreateStatusFile_leads hooks_keep(1) [OF assms] leads_neutral emits_call PrepareRuntime_neutral) simp_all
  have last: "leads v (?c ()) (steps [PrepareHostResources env ?cid s initPid plan, UpdateStatus env ?cid CREATED initPid shimPid,
        RunCreateRuntimeHooks env ?cid hs, RunCreateContainerHooks env ?cid hs']) (\<lambda>_ _. True)" for s initPid plan shimPid hs hs'
  proof (rule leads_Cons)
    show "leads v (?c ()) (PrepareHostResources env ?cid s initPid plan) (\<lambda>_. ?c ())" by (rule leads_neutral [OF PrepareHostResources_neutral])
    show "leads v (?c ()) (steps [UpdateStatus env ?cid CREATED initPid shimPid, RunCreateRuntimeHooks env ?cid hs, RunCreateContainerHooks env ?cid hs']) (\<lambda>_ _. True)"
      by (rule leads_Cons [OF update_from [OF assms]])
        (auto intro!: leads_Cons [OF hooks_legal(1) [OF assms]] leads_Cons [OF hooks_legal(2) [OF assms]] leads_Nil simp del: steps.simps)
  qed
  show ?thesis
    unfolding droplet_Create_def Let_def
    by (rule leads_and_then [OF leads_neutral [OF resources_neutral(1)]], assumption,
        rule leads_and_then [OF leads_neutral [OF resources_neutral(3)]], assumption,
        rule leads_and_then [OF leads_neutral [OF resources_neutral(2)]], assumption)
      (auto intro!: leads_Pair leads_and_then [OF leads_neutral [OF PrepareSpec_neutral]] leads_and_then [OF first]
        leads_and_then [OF leads_neutral [OF StartAndWait_neutral]] last simp del: steps.simps split: prod.split)
qed

lemma Start_leads:
  assumes "quiet env"
  shows "leads v (\<lambda>_. True) (droplet_Start env cid) (\<lambda>_ _. True)"
proof -
  let ?c = "\<lambda>_ F. recorded F cid = Some ''created''"
  have "leads v (?c ()) (steps [RunStartContainerHooks env cid hs, call env (SignalFifo f), call env (RemovePath f), UpdateStatus env cid RUNNING (-1) (-1),
      RunPoststartHooks env cid hs']) (\<lambda>_ _. True)" for hs hs' f
  proof -
    have "leads v (?c ()) (steps [UpdateStatus env cid RUNNING (-1) (-1), RunPoststartHooks env cid hs']) (\<lambda>_ _. True)"
      by (rule leads_Cons [OF update_from [OF assms]]) (auto intro!: leads_Cons [OF hooks_legal(3) [OF assms]] leads_Nil simp del: steps.simps)
    from leads_keep_Cons [OF _ leads_keep_Cons [OF _ this]]
    have "leads v (?c ()) (steps [call env (SignalFifo f), call env (RemovePath f), UpdateStatus env cid RUNNING (-1) (-1), RunPoststartHooks env cid hs']) (\<lambda>_ _. True)"
      by (simp add: emits_call)
    from leads_Cons [OF hooks_keep(2) [OF assms] this] show ?thesis by simp
  qed
  moreover have "leads v (stands cid st) (Pair (EnsureCreated cid st)) ?c" for st
    by (rule leads_Pair) (auto simp: EnsureCreated_def stands_def split: if_splits)
  ultimately show ?thesis
    unfolding droplet_Start_def Let_def
    by (intro leads_and_then [OF GetStatus_leads [OF assms]] leads_and_then [where Q = ?c] leads_neutral [OF resources_neutral(4)]) auto
qed

lemma status_distinct [simp]: "RUNNING \<noteq> STOPPED" "CREATING \<noteq> STOPPED" "CREATING \<noteq> CREATED" "CREATING \<noteq> RUNNING" "CREATED \<noteq> RUNNING"
  "CREATED \<noteq> STOPPED" "STOPPED \<noteq> RUNNING" "STOPPED \<noteq> CREATING" "CREATED \<noteq> CREATING" "RUNNING \<noteq> CREATING" "RUNNING \<noteq> CREATED" "STOPPED \<noteq> CREATED"
  by (simp_all add: status_values)

lemma leads_ex: "(\<And>x. leads v (P x) f Q) \<Longrightarrow> leads v (\<lambda>F. \<exists>x. P x F) f Q"
  unfolding leads_def abides_def by blast

lemma leads_after: "emits neutral f \<Longrightarrow> (\<And>r. leads v P (g r) Q) \<Longrightarrow> leads v P (then_do f g) Q"
  unfolding leads_def by (rule abides_then_do [OF abides_neutral [where Q = "\<lambda>_. P"]])

lemma pids_neutral: "emits neutral (GetPidFromId env cid)" "emits neutral (GetShimPidFromId env cid)" "emits neutral (ReadProcStartTime env pid)"
  by (auto simp: GetPidFromId_def GetShimPidFromId_def read_state_def ReadProcStartTime_def read_proc_stat_def intro!: emits_intro)

lemma CleanupShim_neutral: "emits neutral (CleanupShim env cid)"
  by (auto simp: CleanupShim_def intro!: emits_intro)

lemma leads_keep_then: "emits neutral f \<Longrightarrow> (\<And>a. leads v P (g a) Q) \<Longrightarrow> leads v P (and_then f g) Q"
  by (rule leads_and_then [OF leads_neutral])

lemma Kill_leads:
  assumes "quiet env"
  shows "leads v (\<lambda>_. True) (droplet_Kill env cid sg) (\<lambda>_ _. True)"
proof -
  let ?at = "stands cid"
  have next_state: "leads v (?at st) (UpdateStatus env cid nx p q) (\<lambda>_ _. True)"
    if "IsAllowed st [RUNNING, CREATED]" "KillTransition st name = (nx, p, q, b)" for st name nx p q b
  proof (cases "nx = STOPPED")
    case True
    show ?thesis unfolding True by (rule leads_weaken [OF stop_leads [OF assms]]) simp_all
  next
    case False
    have s: "st = RUNNING" "nx = RUNNING" using False that by (auto simp: KillTransition_def IsAllowed_def split: if_splits)
    show ?thesis unfolding s by (rule leads_weaken [OF update_from [OF assms, of RUNNING v "''running''" cid p q]]) (simp_all add: stands_def)
  qed
  have signalled: "leads v (?at st) (steps [call env (SendSignal pid sn), await_exit env name pid start, done_if c (ignoring (CleanupShim env cid)),
       UpdateStatus env cid nx p q, done_if d (RunStopContainerHooks env cid hs)]) (\<lambda>_ _. True)"
    if "IsAllowed st [RUNNING, CREATED]" "KillTransition st name = (nx, p, q, b)" for st name nx p q b pid sn start c d hs
    by (rule leads_Cons [OF leads_neutral [where Q = "\<lambda>_. ?at st"]], simp add: emits_call, assumption,
        rule leads_Cons [OF leads_neutral [OF await_exit_neutral, where Q = "\<lambda>_. ?at st"]], assumption,
        rule leads_Cons [OF leads_neutral [where Q = "\<lambda>_. ?at st"]], simp add: emits_done_if emits_ignoring CleanupShim_neutral, assumption,
        rule leads_Cons [OF next_state [OF that]])
      (intro leads_Cons [where Q = "\<lambda>_. True"] leads_Nil leads_done_if hooks_legal(4) [OF assms], simp_all)
  have parsed: "leads v (?at st) (Pair (ParseSignal sg)) (\<lambda>_. ?at st)" for st by (rule leads_Pair)
  have refused: "leads v P (then_do (HasExternalPidFileMarker env cid) (\<lambda>b. if b then Pair (Inr ()) else Pair (Inl e))) (\<lambda>_ _. True)" for P e
    by (rule leads_after) (auto simp: HasExternalPidFileMarker_def intro!: emits_intro leads_Pair)
  show ?thesis
    unfolding droplet_Kill_def Let_def
    by (rule leads_and_then [OF leads_neutral [OF resources_neutral(4)]], assumption, rule leads_and_then [OF GetStatus_leads [OF assms]],
        rule leads_and_then [OF parsed])
      (auto intro!: leads_Pair refused signalled leads_keep_then pids_neutral simp del: steps.simps split: prod.split)
qed

lemma Delete_leads:
  assumes "quiet env"
  shows "leads v (\<lambda>_. True) (droplet_Delete env cid force) (\<lambda>_ _. True)"
proof -
  let ?at = "stands cid"
  let ?dead = "\<lambda>F. \<exists>x. recorded F cid = Some x \<and> x \<in> {''creating'', ''stopped''}"
  have kill: "leads v (?at st) (done_if (\<not> ShouldKillBeforeDelete st force) (wrapped e (KillInitProcess env cid))) (\<lambda>_. ?dead)"
    if "CanDelete st force" for st e
  proof (rule leads_done_if)
    show "\<not> ShouldKillBeforeDelete st force \<Longrightarrow> \<forall>F. ?at st F \<longrightarrow> ?dead F"
      using that by (auto simp: ShouldKillBeforeDelete_def CanDelete_def stands_def)
    show "leads v (?at st) (wrapped e (KillInitProcess env cid)) (\<lambda>_. ?dead)"
      unfolding KillInitProcess_def
      by (rule leads_wrapped, rule leads_and_then [OF leads_neutral [OF pids_neutral(1)]], assumption,
          rule leads_Cons [OF leads_neutral [where Q = "\<lambda>_. ?at st"]], simp add: emits_call, assumption,
          rule leads_Cons [OF stop_leads [OF assms]]) (rule leads_Nil, auto)
  qed
  have rest: "leads v (\<lambda>F. recorded F cid = Some x \<and> x \<in> {''creating'', ''stopped''}) (steps [RunPoststopHooks env cid hs, RemoveStatusFile env cid, done_if b (call env c1),
      call env (RemoveTree p), call env (RemoveTree q)]) (\<lambda>_ _. True)" if "neutral c1" for x hs b c1 p q
  proof (cases "x \<in> {''creating'', ''stopped''}")
    case True
    have "leads v (\<lambda>F. recorded F cid = Some x) (RemoveStatusFile env cid) (\<lambda>_ _. True)"
      unfolding RemoveStatusFile_def call_def leads_def by (rule abides_query) (use True in \<open>auto simp: allowed_def\<close>)
    then have "leads v (\<lambda>F. recorded F cid = Some x) (steps [RunPoststopHooks env cid hs, RemoveStatusFile env cid, done_if b (call env c1),
      call env (RemoveTree p), call env (RemoveTree q)]) (\<lambda>_ _. True)"
      using True that
      by (intro leads_Cons [OF hooks_keep(3) [OF assms]] leads_Cons [where Q = "\<lambda>_. True"] leads_Nil leads_neutral [where P = "\<lambda>_. True"]
          emits_call emits_done_if) auto
    then show ?thesis by (rule leads_weaken) auto
  qed (simp add: leads_def abides_def)
  show ?thesis
    unfolding droplet_Delete_def
  proof (rule leads_and_then [OF GetStatus_leads [OF assms]])
    fix st
    let ?msg = "Msg (''container: '' @ cid @ '' is not stopped. current status: '' @ status_String st)"
    let ?run = "and_then (done_if (\<not> ShouldKillBeforeDelete st force) (wrapped ''kill init process failed'' (KillInitProcess env cid)))
      (\<lambda>_. and_then (loadFile env cid) (\<lambda>s. steps [RunPoststopHooks env cid (hl_Poststop (sp_Hooks s)), RemoveStatusFile env cid,
         done_if (st \<noteq> CREATED) (call env (RemovePath (FifoPath (le_getenv env) cid))), call env (RemoveTree (CgroupPath cid)),
         call env (RemoveTree (ContainerDir (le_getenv env) cid))]))"
    have "leads v (stands cid st) ?run (\<lambda>_ _. True)" if "CanDelete st force"
      by (rule leads_and_then [OF kill [OF that]], rule leads_keep_then [OF resources_neutral(4)], rule leads_ex, rule rest) simp
    then show "leads v (stands cid st) (if \<not> CanDelete st force then Pair (Inl ?msg) else ?run) (\<lambda>_ _. True)"
      by (cases "CanDelete st force") (simp_all del: steps.simps add: leads_Pair)
  qed
qed

lemma Shim_leads:
  assumes "quiet env"
  shows "leads v (\<lambda>_. True) (droplet_Shim env opt) (\<lambda>_ _. True)"
proof -
  let ?cid = "sx_ContainerId opt"
  let ?s = "\<lambda>F. recorded F ?cid = Some ''stopped''"
  have keep: "leads v ?s (update_state env ?cid g) (\<lambda>_. ?s)" if "\<And>s. so_Status (g s) = so_Status s" "\<And>s. so_Id (g s) = so_Id s" for g
  proof -
    have "leads v ?s (update_state env ?cid g) (\<lambda>_ F. \<exists>s F'. ?s F' \<and> F' ?cid = Some s \<and> F = F'(?cid \<mapsto> g s))"
      by (rule update_leads [OF assms]) (auto simp: that recorded_def)
    then show ?thesis by (rule leads_weaken) (auto simp: recorded_def that)
  qed
  have reason: "leads v ?s (SetReasonAndMessage env ?cid c m) (\<lambda>_. ?s)" for c m
    unfolding SetReasonAndMessage_def UpdateReasonAndMessage_def by (cases "c = 0") (simp_all add: keep)
  have code: "leads v ?s (UpdateExitCode env ?cid c) (\<lambda>_. ?s)" for c
    unfolding UpdateExitCode_def by (rule keep) simp_all
  have finish: "leads v (\<lambda>_. True) (shim_finish env opt w) (\<lambda>_ _. True)" for w
    unfolding shim_finish_def Let_def
    by (rule leads_and_then [OF stop_leads [OF assms]], rule leads_after [OF emits_pure],
        intro leads_Cons [where Q = ?s] leads_Nil leads_done_if leads_neutral [of "ignoring _"] reason code leads_Pair)
      (auto intro!: emits_intro)
  have io: "emits neutral (prejoinRootlessPathNamespaces env s)" "emits neutral (shim_stdio env opt s)" "emits neutral (waitFirstChildPID env p t i)"
    "emits neutral (writeInitPid env cid p)" for s p t i cid
    by (auto simp: prejoinRootlessPathNamespaces_def shim_stdio_def applyConsoleSize_def waitFirstChildPID_def writeInitPid_def Let_def
        intro!: emits_intro resources_neutral split: option.split prod.split)
  show ?thesis
    unfolding droplet_Shim_def Let_def
    by (rule leads_and_then [OF leads_neutral [OF resources_neutral(6)]], assumption,
        rule leads_and_then [OF leads_neutral [OF emits_call]], simp, assumption, rule leads_after [OF emits_pure],
        rule leads_and_then [OF leads_neutral [OF io(1)]], assumption, rule leads_and_then [OF leads_neutral [OF io(2)]], assumption,
        rule leads_and_then [OF leads_neutral [OF emits_query]], simp, assumption,
        rule leads_and_then [where Q = "\<lambda>_ _. True"])
      (auto intro!: leads_Pair leads_neutral [OF io(3)] leads_and_then [OF leads_neutral [OF io(4)]] leads_after [OF emits_call] finish)
qed

lemma List_leads:
  assumes "quiet env"
  shows "leads v (\<lambda>_. True) (ListContainers env) (\<lambda>_ _. True)"
proof -
  have "leads v (\<lambda>_. True) (list_states env es) (\<lambda>_ _. True)" for es
  proof (induction es)
    case (Cons e es)
    obtain name isDir where e: "e = (name, isDir)" by (cases e)
    have r: "emits neutral (read_state env name)" by (auto simp: read_state_def intro!: emits_intro)
    show ?case
      unfolding e list_states.simps
      by (auto intro!: leads_after [OF r] leads_and_then [OF leads_Pair] leads_and_then [OF leads_weaken [OF recompute_leads [OF assms]]]
          leads_and_then [OF Cons.IH] leads_Pair Cons.IH split: sum.split)
  qed (simp add: leads_Pair)
  then show ?thesis unfolding ListContainers_def by (intro leads_and_then [OF leads_neutral]) (auto intro: emits_intro)
qed

lemma Exec_leads:
  assumes "quiet env"
  shows "leads v (\<lambda>_. True) (droplet_Exec env opt) (\<lambda>_ _. True)"
proof -
  have "emits neutral (find_in_container env root a ds)" for root a ds
    by (induction ds) (auto simp: Let_def intro!: emits_intro split: sum.split)
  then have "emits neutral (executeNsenter env pid s cid e)" for pid s cid e
    by (auto simp: executeNsenter_def resolveExecEntrypoint_def readSmallLog_def Let_def intro!: emits_intro split: list.split sum.split)
  then show ?thesis
    unfolding droplet_Exec_def Let_def
    by (intro leads_and_then [OF GetStatus_leads [OF assms]] leads_neutral emits_and_then)
      (auto intro!: emits_intro pids_neutral resources_neutral)
qed

lemma State_leads:
  assumes "quiet env"
  shows "leads v (\<lambda>_. True) (ReadStatusFile env cid) (\<lambda>_ _. True)"
proof -
  have "leads v (\<lambda>F. False \<longrightarrow> True \<and> recorded F cid \<noteq> Some ''running'') (ReadStatusFile env cid) (\<lambda>_ _. True)"
    unfolding ReadStatusFile_def by (rule reading_leads [OF assms, of v False "\<lambda>_. True"]) (auto intro!: leads_neutral emits_intro)
  then show ?thesis by (rule leads_weaken) auto
qed

text \<open>A foreground run.  A hook that looks at the record may find the process gone, so that the record says stopped when the run writes it again.\<close>

definition begun :: "string \<Rightarrow> (string \<Rightarrow> StatusObject option) \<Rightarrow> bool" where
  "begun cid F \<longleftrightarrow> recorded F cid \<in> {Some ''running'', Some ''stopped''}"

lemma recompute_begun:
  assumes "quiet env"
  shows "leads v (begun cid) (recomputeStatus env cid pid cur) (\<lambda>_. begun cid)"
proof -
  have "leads v (begun cid) (then_do (pidAlive env pid) (\<lambda>alive. if \<not> alive then UpdateStatus env cid STOPPED 0 0 else Pair (Inr ()))) (\<lambda>_. begun cid)"
  proof (rule leads_after)
    show "emits neutral (pidAlive env pid)" by (auto simp: pidAlive_def intro!: emits_intro)
    show "leads v (begun cid) (if \<not> alive then UpdateStatus env cid STOPPED 0 0 else Pair (Inr ())) (\<lambda>_. begun cid)" for alive
    proof (cases alive)
      case False
      have "leads v (begun cid) (UpdateStatus env cid STOPPED 0 0) (\<lambda>_. begun cid)"
        by (rule leads_weaken [OF stop_leads [OF assms, where P = "begun cid"]]) (simp_all add: begun_def)
      with False show ?thesis by simp
    qed (simp add: leads_Pair)
  qed
  then show ?thesis by (simp add: recomputeStatus_def leads_Pair)
qed

lemma poststart_begun:
  assumes "quiet env"
  shows "leads v (begun cid) (RunPoststartHooks env cid hs) (\<lambda>_. begun cid)"
proof -
  have r: "emits neutral (read_state env cid)" by (auto simp: read_state_def intro!: emits_intro)
  have "leads v (begun cid) (ReadStatusFile env cid) (\<lambda>_. begun cid)"
    unfolding ReadStatusFile_def
    by (rule leads_keep_then [OF r], rule leads_and_then [OF leads_Pair [where Q = "\<lambda>_. begun cid"]], assumption,
        rule leads_and_then [OF recompute_begun [OF assms]]) (auto intro!: leads_neutral emits_intro split: sum.split)
  then have "leads v (begun cid) (runHookList env cid phase hs) (\<lambda>_. begun cid)" for phase
    unfolding runHookList_def by (rule leads_and_then) (rule leads_neutral [OF run_hooks_neutral])
  then show ?thesis by (auto simp: hook_runs intro!: leads_done_if)
qed

lemma Start_begins:
  assumes "quiet env"
  shows "leads v (\<lambda>_. True) (droplet_Start env cid) (\<lambda>_. begun cid)"
proof -
  let ?c = "\<lambda>_ F. recorded F cid = Some ''created''"
  have "leads v (?c ()) (steps [RunStartContainerHooks env cid hs, call env (SignalFifo f), call env (RemovePath f), UpdateStatus env cid RUNNING (-1) (-1),
      RunPoststartHooks env cid hs']) (\<lambda>_. begun cid)" for hs hs' f
  proof -
    have "leads v (?c ()) (UpdateStatus env cid RUNNING (-1) (-1)) (\<lambda>_. begun cid)"
      by (rule leads_weaken [OF update_from [OF assms, of RUNNING v "''created''"]]) (auto simp: begun_def)
    then have "leads v (?c ()) (steps [UpdateStatus env cid RUNNING (-1) (-1), RunPoststartHooks env cid hs']) (\<lambda>_. begun cid)"
      by (rule leads_Cons) (auto intro!: leads_Cons [OF poststart_begun [OF assms]] leads_Nil simp del: steps.simps)
    from leads_keep_Cons [OF _ leads_keep_Cons [OF _ this]]
    have "leads v (?c ()) (steps [call env (SignalFifo f), call env (RemovePath f), UpdateStatus env cid RUNNING (-1) (-1), RunPoststartHooks env cid hs']) (\<lambda>_. begun cid)"
      by (simp add: emits_call)
    from leads_Cons [OF hooks_keep(2) [OF assms] this] show ?thesis by simp
  qed
  moreover have "leads v (stands cid st) (Pair (EnsureCreated cid st)) ?c" for st
    by (rule leads_Pair) (auto simp: EnsureCreated_def stands_def split: if_splits)
  ultimately show ?thesis
    unfolding droplet_Start_def Let_def
    by (intro leads_and_then [OF GetStatus_leads [OF assms]] leads_and_then [where Q = ?c] leads_neutral [OF resources_neutral(4)]) auto
qed

lemma Run_leads:
  assumes "quiet env"
  shows "leads True (\<lambda>_. True) (droplet_Run env opt) (\<lambda>_ _. True)"
proof -
  let ?cid = "rn_ContainerId opt"
  let ?c = "\<lambda>_ F. recorded F ?cid = Some ''creating''"
  have first: "leads True (\<lambda>_. True) (steps [CreateStatusFile env ?cid 0 CREATING rootfs bundlePath a, RunCreateRuntimeHooks env ?cid hs,
        call env (MakeFifo fifo)]) ?c" for rootfs bundlePath a hs fifo
    by (intro leads_Cons [where Q = "?c ()"] leads_Nil CreateStatusFile_leads hooks_keep(1) [OF assms] leads_neutral emits_call) simp_all
  have again: "leads True (begun ?cid) (UpdateStatus env ?cid RUNNING (-1) (-1)) (\<lambda>_ _. True)"
    by (rule leads_weaken [OF UpdateStatus_leads [OF assms, where P = "begun ?cid"]]) (auto simp: begun_def status_values status_String_def intro: life_step.intros)
  have start_hooks: "leads True (\<lambda>_. True) (RunStartContainerHooks env ?cid hs) (\<lambda>_ _. True)" for hs
    unfolding hook_runs
    by (intro leads_done_if leads_weaken [OF hooks_lead(2) [OF assms, of True False "\<lambda>_. True"]]) simp_all
  have wait: "leads True (\<lambda>_. True) (steps [call env (WaitProcess p), UpdateStatus env ?cid STOPPED 0 0]) (\<lambda>_ _. True)" for p
    by (rule leads_keep_Cons, simp add: emits_call, rule leads_Cons [OF stop_leads [OF assms]]) (rule leads_Nil, simp)
  have ending: "leads True (\<lambda>_. True) (steps [RunCreateRuntimeHooks env ?cid h1, RunCreateContainerHooks env ?cid h2, RunStartContainerHooks env ?cid h3,
        droplet_Start env ?cid, UpdateStatus env ?cid RUNNING (-1) (-1), RunPoststartHooks env ?cid h4,
        done_if b (steps [call env (WaitProcess p), UpdateStatus env ?cid STOPPED 0 0])]) (\<lambda>_ _. True)" for h1 h2 h3 h4 b p
    by (rule leads_Cons [OF hooks_legal(1) [OF assms]], rule leads_Cons [OF hooks_legal(2) [OF assms]], rule leads_Cons [OF start_hooks],
        rule leads_Cons [OF Start_begins [OF assms]], rule leads_Cons [OF again], rule leads_Cons [OF hooks_legal(3) [OF assms]],
        rule leads_Cons [where Q = "\<lambda>_. True"]) (auto intro!: leads_done_if wait leads_Pair simp del: steps.simps(2))
  have last: "leads True (?c ()) (steps [WriteContainerPidFile env f p, PrepareCgroup env ?cid s p, PrepareNetwork env ?cid p a, UpdateStatus env ?cid CREATED p 0,
        RunCreateRuntimeHooks env ?cid h1, RunCreateContainerHooks env ?cid h2, RunStartContainerHooks env ?cid h3,
        droplet_Start env ?cid, UpdateStatus env ?cid RUNNING (-1) (-1), RunPoststartHooks env ?cid h4,
        done_if b (steps [call env (WaitProcess p), UpdateStatus env ?cid STOPPED 0 0])]) (\<lambda>_ _. True)" for f p s a h1 h2 h3 h4 b
    by (rule leads_keep_Cons [OF resources_neutral(7)], rule leads_keep_Cons [OF PrepareCgroup_neutral], rule leads_keep_Cons [OF PrepareNetwork_neutral],
        rule leads_Cons [OF update_from [OF assms]], simp, simp, rule leads_weaken [OF ending]) simp_all
  show ?thesis
    unfolding droplet_Run_def Let_def
    by (rule leads_and_then [OF leads_neutral [OF resources_neutral(1)]], assumption,
        rule leads_and_then [OF leads_neutral [OF resources_neutral(4)]], assumption,
        rule leads_and_then [OF leads_neutral [OF resources_neutral(5)]], assumption,
        rule leads_and_then [OF leads_neutral [OF resources_neutral(2)]], assumption,
        rule leads_and_then [OF first], rule leads_and_then [OF leads_neutral [OF emits_query]], simp, assumption, rule last)
qed

section \<open>Every sequence of operations\<close>

datatype life_op = Create_op CreateOption | Start_op string | Kill_op string string | Delete_op string bool | Shim_op ShimExecuteOption
  | State_op string | List_op | Exec_op ExecOption | Run_op RunOption

fun run_op :: "life_env \<Rightarrow> life_op \<Rightarrow> life_trace \<Rightarrow> life_trace" where
  "run_op env (Create_op opt) tr = snd (droplet_Create env opt tr)"
| "run_op env (Start_op cid) tr = snd (droplet_Start env cid tr)"
| "run_op env (Kill_op cid sg) tr = snd (droplet_Kill env cid sg tr)"
| "run_op env (Delete_op cid force) tr = snd (droplet_Delete env cid force tr)"
| "run_op env (Shim_op opt) tr = snd (droplet_Shim env opt tr)"
| "run_op env (State_op cid) tr = snd (ReadStatusFile env cid tr)"
| "run_op env List_op tr = snd (ListContainers env tr)"
| "run_op env (Exec_op opt) tr = snd (droplet_Exec env opt tr)"
| "run_op env (Run_op opt) tr = snd (droplet_Run env opt tr)"

definition foreground :: "life_op \<Rightarrow> bool" where
  "foreground op \<longleftrightarrow> (case op of Run_op _ \<Rightarrow> True | _ \<Rightarrow> False)"

lemma leads_legal: "leads v (\<lambda>_. True) f (\<lambda>_ _. True) \<Longrightarrow> legal v tr \<Longrightarrow> legal v (snd (f tr))"
  unfolding leads_def abides_def by (metis prod.collapse)

lemma run_op_legal: "quiet env \<Longrightarrow> foreground op \<longrightarrow> v \<Longrightarrow> legal v tr \<Longrightarrow> legal v (run_op env op tr)"
  by (cases op) (auto simp: foreground_def intro: leads_legal Create_leads Start_leads Kill_leads Delete_leads Shim_leads State_leads List_leads Exec_leads
    Run_leads)

lemma run_ops_legal: "quiet env \<Longrightarrow> list_ex foreground ops \<longrightarrow> v \<Longrightarrow> legal v tr \<Longrightarrow> legal v (fold (run_op env) ops tr)"
  by (induction ops arbitrary: tr) (auto intro: run_op_legal)

text \<open>
  Property C27. The record of a container follows its life cycle, when operations are run one after another and nobody else writes the state files.
  Whatever operations on any containers these are (creations, supervisors, starts, signals, deletions, foreground runs, listings, executions), with any
  answers of the system, each change of a recorded state is a step of the abstract machine: a stopped container never runs again unless
  it is created anew, only a created one starts, and a record disappears only when it is stopped or was never completed.  Only when a
  foreground run is among the operations a stopped state can be overwritten by running, because that run records running without looking.
\<close>

theorem lifecycle_respected:
  assumes "quiet env"
  shows "successively (life_step (list_ex foreground ops)) (history cid (fold (run_op env) ops []))"
proof -
  have "legal v []" for v by (simp add: legal_def filed_def recorded_def)
  then have "legal (list_ex foreground ops) (fold (run_op env) ops [])" using run_ops_legal [OF assms, of ops "list_ex foreground ops"] by simp
  then show ?thesis by (simp add: legal_def)
qed

definition ex_hook :: HookObject where
  "ex_hook = \<lparr>ho_Path = ''/bin/hook'', ho_Args = [], ho_Env = [], ho_Timeout = None\<rparr>"

definition ex_life_spec :: Spec where
  "ex_life_spec = \<lparr>sp_OciVersion = OCIVersion, sp_Root = \<lparr>ro_Path = ''/r'', ro_Readonly = False\<rparr>, sp_Mounts = [],
     sp_Process = \<lparr>po_Cwd = ''/'', po_Env = [], po_Args = [''/bin/sh''], po_Terminal = False, po_ConsoleSize = None, po_OOMScoreAdj = None,
       po_Capabilities = \<lparr>ca_Bounding = [], ca_Permitted = [], ca_Inheritable = [], ca_Effective = [], ca_Ambient = []\<rparr>,
       po_User = \<lparr>us_UID = 0, us_GID = 0, us_Umask = None, us_AdditionalGids = []\<rparr>, po_Rlimits = [], po_NoNewPrivileges = True\<rparr>,
     sp_Hostname = [],
     sp_LinuxSpec = \<lparr>ls_Resources = \<lparr>re_Memory_Limit = 0, re_Cpu = \<lparr>cp_Period = 0, cp_Quota = 0\<rparr>, re_Pids_Limit = 0, re_Devices = []\<rparr>,
       ls_CgroupsPath = [], ls_Namespaces = [], ls_Devices = [], ls_UIDMappings = [], ls_GIDMappings = [], ls_MaskedPaths = [], ls_ReadonlyPaths = [],
       ls_RootfsPropagation = [], ls_Seccomp = None, ls_AppArmorProfile = []\<rparr>,
     sp_Hooks = \<lparr>hl_Prestart = [], hl_CreateRuntime = [], hl_CreateContainer = [], hl_StartContainer = [ex_hook], hl_Poststart = [ex_hook],
       hl_StopContainer = [], hl_Poststop = [ex_hook]\<rparr>,
     sp_Annotations = \<lparr>an_Version = [], an_Net = [], an_Image = [], an_Rootless = [], an_Extra = []\<rparr>\<rparr>"

definition ex_stat :: string where
  "ex_stat = ''42 (sh) S 1 42 42 0 -1 0 0 0 0 0 0 0 0 0 20 0 1 0 777 0 0''"

text \<open>A host where everything succeeds, process 42 runs until it is killed, and nobody else writes the state files.\<close>

definition ex_life_env :: life_env where
  "ex_life_env = \<lparr>le_answer = (\<lambda>_ _. Inr ()),
     le_state = (\<lambda>tr c. case c of ReadStateFile cid \<Rightarrow> (case files tr cid of Some s \<Rightarrow> Inr s | None \<Rightarrow> Inl (SysErr ''gone'')) | _ \<Rightarrow> Inl (SysErr ''gone'')),
     le_text = (\<lambda>tr c. case c of
         ReadText p \<Rightarrow> if p = ''/proc/42/stat'' then (if (SendSignal 42 9, True) \<in> set tr then Inl (SysErr ''gone'') else Inr ex_stat) else Inr ''42''
       | _ \<Rightarrow> Inr ''text''),
     le_number = (\<lambda>_ _. Inr 41), le_entries = (\<lambda>_ _. Inr []), le_spec = (\<lambda>_ _. Inr ex_life_spec), le_isDir = (\<lambda>_ _. Inr True),
     le_exit = (\<lambda>_. (0, None)), le_delay = (\<lambda>_. 0), le_getenv = (\<lambda>_. []), le_ids = ex_id_env,
     le_proc = (\<lambda>_. \<lparr>pv_read = (\<lambda>_. Inl (SysErr ''gone'')), pv_list = Inr []\<rparr>), le_net = (\<lambda>_. Inl (Msg ''no net'')), le_image = (\<lambda>_. Inl (Msg ''no image'')),
     le_image_json = (\<lambda>_. Inr []), le_readlink = (\<lambda>_. Inl (SysErr ''gone'')), le_getpid = 1, le_self = ''droplet'', le_notExist = (\<lambda>m. m = ''gone''),
     le_exist = (\<lambda>_. False), le_permission = (\<lambda>_. False)\<rparr>"

definition ex_ops :: "life_op list" where
  "ex_ops = [Create_op \<lparr>cr_ContainerId = ''c1'', cr_Bundle = [], cr_ConsoleSocket = [], cr_PidFile = [], cr_TtyFlag = False\<rparr>, Start_op ''c1'',
     Delete_op ''c1'' False, Start_op ''c1'']"

lemma ex_quiet: "quiet ex_life_env"
  by (auto simp: quiet_def ex_life_env_def split: option.splits)

theorem lifecycle_respected_witness:
  "history ''c1'' (fold (run_op ex_life_env) ex_ops []) = [None, Some ''creating'', Some ''created'', Some ''running''] \<and>
   successively (life_step False) [None, Some ''creating'', Some ''created'', Some ''running'']"
proof -
  have "history ''c1'' (fold (run_op ex_life_env) ex_ops []) = [None, Some ''creating'', Some ''created'', Some ''running'']" by code_simp
  moreover have "\<not> list_ex foreground ex_ops" by (simp add: ex_ops_def foreground_def)
  ultimately show ?thesis using lifecycle_respected [OF ex_quiet, of ex_ops "''c1''"] by simp
qed

end
