(* ===== verification/Droplet_Lifecycle_Order.thy ===== *)
theory Droplet_Lifecycle_Order
  imports Droplet_Lifecycle_Safety
begin

text \<open>
  The order of the calls of the operations on containers: what has happened before a record is removed, before the entry point is released and
  a container is recorded as running, and before a signal is reported to have stopped it; and what running a container does twice.
  Nothing is assumed of the system: other processes may write the state files at any time.
\<close>

section \<open>What happens before a call\<close>

definition before :: "('c \<Rightarrow> bool) \<Rightarrow> ('c call_trace \<Rightarrow> 'c \<Rightarrow> bool) \<Rightarrow> ('c call_trace \<Rightarrow> 'a \<times> 'c call_trace) \<Rightarrow> bool" where
  "before C Q f \<longleftrightarrow> (\<forall>tr pre c b post. snd (f tr) = tr @ pre @ (c, b) # post \<longrightarrow> C c \<longrightarrow> Q pre c)"

text \<open>What a success with a result has done.\<close>

definition yields :: "('a \<Rightarrow> 'c call_trace \<Rightarrow> bool) \<Rightarrow> ('c call_trace \<Rightarrow> 'a res \<times> 'c call_trace) \<Rightarrow> bool" where
  "yields R f \<longleftrightarrow> (\<forall>tr a tr'. f tr = (Inr a, tr') \<longrightarrow> (\<exists>evs. tr' = tr @ evs \<and> R a evs))"

abbreviation grows :: "('c call_trace \<Rightarrow> 'a \<times> 'c call_trace) \<Rightarrow> bool" where
  "grows \<equiv> emits (\<lambda>_. True)"

lemma before_emits:
  assumes "emits P f" "\<And>pre c. C c \<Longrightarrow> P c \<Longrightarrow> Q pre c"
  shows "before C Q f"
  unfolding before_def
proof (intro allI impI)
  fix tr pre c b post
  assume s: "snd (f tr) = tr @ pre @ (c, b) # post" and "C c"
  obtain evs where "snd (f tr) = tr @ evs" "list_all (\<lambda>e. P (fst e)) evs" using assms(1) unfolding emits_def by blast
  with s assms(2) [OF \<open>C c\<close>] show "Q pre c" by simp
qed

lemma before_none: "emits (\<lambda>c. \<not> C c) f \<Longrightarrow> before C Q f"
  by (erule before_emits) simp

lemma before_query: "(C c \<Longrightarrow> Q [] c) \<Longrightarrow> before C Q (query get c)"
  by (auto simp: before_def query_def append_eq_Cons_conv Cons_eq_append_conv)

lemma before_and_then:
  assumes "before C Q f" "grows f" "\<And>a. grows (g a)" "yields R f" "\<And>a xs. R a xs \<Longrightarrow> before C (\<lambda>pre c. Q (xs @ pre) c) (g a)"
  shows "before C Q (and_then f g)"
  unfolding before_def
proof (intro allI impI)
  fix tr pre c b post
  assume s: "snd (and_then f g tr) = tr @ pre @ (c, b) # post" and c: "C c"
  obtain r tr1 where f: "f tr = (r, tr1)" by (cases "f tr")
  show "Q pre c"
  proof (cases r)
    case (Inl e)
    then have "snd (f tr) = tr @ pre @ (c, b) # post" using s f by (simp add: and_then_def)
    then show ?thesis using assms(1) c unfolding before_def by blast
  next
    case (Inr a)
    obtain xs where xs: "tr1 = tr @ xs" "R a xs" using assms(4) f Inr unfolding yields_def by blast
    obtain ys where ys: "snd (g a tr1) = tr1 @ ys" using assms(3) [of a] unfolding emits_def by blast
    have "xs @ ys = pre @ (c, b) # post" using s f Inr xs ys by (simp add: and_then_def)
    then consider us where "xs = pre @ (c, b) # us" | us where "pre = xs @ us" "ys = us @ (c, b) # post"
      by (auto simp: append_eq_append_conv2 append_eq_Cons_conv)
    then show ?thesis
    proof cases
      case 1
      then have "snd (f tr) = tr @ pre @ (c, b) # us" using f xs by simp
      then show ?thesis using assms(1) c unfolding before_def by blast
    next
      case 2
      then show ?thesis using assms(5) [OF xs(2)] ys xs(1) c unfolding before_def by fastforce
    qed
  qed
qed

lemma before_Cons:
  assumes "before C Q f" "grows f" "list_all grows fs" "ensures R f" "\<And>xs. R xs \<Longrightarrow> before C (\<lambda>pre c. Q (xs @ pre) c) (steps fs)"
  shows "before C Q (steps (f # fs))"
  using assms by (auto intro!: before_and_then [where R = "\<lambda>_. R"] emits_steps simp: yields_def ensures_def)

lemma before_weaken: "before C Q f \<Longrightarrow> (\<And>pre c. Q pre c \<Longrightarrow> Q' pre c) \<Longrightarrow> before C Q' f"
  unfolding before_def by blast

lemma yields_query: "(\<And>tr a. get tr c = Inr a \<Longrightarrow> R a [(c, True)]) \<Longrightarrow> yields R (query get c)"
  by (auto simp: yields_def query_def)

lemma yields_ensures: "ensures R f \<Longrightarrow> yields (\<lambda>_. R) f"
  by (simp add: yields_def ensures_def)

lemma ensures_bind: "yields R f \<Longrightarrow> (\<And>a xs. R a xs \<Longrightarrow> ensures (\<lambda>ys. Q (xs @ ys)) (g a)) \<Longrightarrow> ensures Q (and_then f g)"
  unfolding yields_def ensures_def by (simp add: and_then_Inr) (metis append.assoc)

lemma ensures_single: "ensures Q f \<Longrightarrow> ensures Q (steps [f])"
  by (auto simp: ensures_def and_then_Inr)

section \<open>Hooks\<close>

text \<open>The hooks of a phase ran in order, each a command with the path of the hook among its words.\<close>

definition phase_ran :: "string \<Rightarrow> HookObject list \<Rightarrow> life_trace \<Rightarrow> bool" where
  "phase_ran phase hs evs \<longleftrightarrow> (\<exists>cmd. performs (map (\<lambda>h. RunHook phase (cmd h)) hs) evs \<and> (\<forall>h. ho_Path h \<in> set (cd_argv (cmd h))))"

lemma performs_call [ensures_intro]: "ensures (performs [c]) (call env c)"
  by (simp add: call_def performs_query)

lemma run_hooks_performs: "ensures (performs (map (\<lambda>h. RunHook phase (cmd h)) hs)) (run_hooks env phase cmd i hs)"
proof (induction hs arbitrary: i)
  case (Cons h hs)
  have "ensures (performs ([RunHook phase (cmd h)] @ map (\<lambda>h. RunHook phase (cmd h)) hs)) (and_then
      (wrapped (''hook '' @ phase @ ''['' @ show_nat i @ ''] failed'') (call env (RunHook phase (cmd h)))) (\<lambda>_. run_hooks env phase cmd (Suc i) hs))"
    by (rule performs_and_then [OF performs_wrapped [OF performs_call] Cons.IH])
  then show ?case by (simp add: ensures_Pair) (simp add: ensures_def)
qed (simp add: ensures_def performs_def)

lemma GetPid_grows: "grows (GetPidFromId env cid)" "grows (ReadStatusFile env cid)"
  by (auto simp: GetPidFromId_def ReadStatusFile_def recomputeStatus_def pidAlive_def UpdateStatus_def update_state_def read_state_def intro!: emits_intro)

lemma hooks_ran:
  "ensures (phase_ran phase hs) (runHookList env cid phase hs)" "ensures (phase_ran phase hs) (runHookListWithNsenter env cid phase hs)"
proof -
  have run: "ensures (\<lambda>ys. phase_ran phase hs (xs @ ys)) (run_hooks env phase cmd 0 hs)" if "\<And>h. ho_Path h \<in> set (cd_argv (cmd h))" for cmd xs
    by (rule ensures_mono [OF run_hooks_performs]) (use that in \<open>auto simp: phase_ran_def intro: performs_skip\<close>)
  have any: "grows f \<Longrightarrow> yields (\<lambda>_ _. True) f" for f :: "life_trace \<Rightarrow> 'a res \<times> life_trace"
    unfolding yields_def by (auto dest: emits_grows)
  show "ensures (phase_ran phase hs) (runHookList env cid phase hs)" unfolding runHookList_def
    by (rule ensures_bind [OF any [OF GetPid_grows(2)]]) (rule run, simp add: buildCommandWithTimeout_def)
  have "ensures (\<lambda>ys. phase_ran phase hs (xs @ ys)) (and_then (GetPidFromId env cid) (\<lambda>initPid.
     run_hooks env phase (\<lambda>h. buildCommandWithTimeout h (nsenter_hook initPid h) json) 0 hs))" for xs json
    by (rule ensures_bind [OF any [OF GetPid_grows(1)]], unfold append_assoc [symmetric])
      (rule run, simp add: buildCommandWithTimeout_def nsenter_hook_def)
  then show "ensures (phase_ran phase hs) (runHookListWithNsenter env cid phase hs)" unfolding runHookListWithNsenter_def
    by (intro ensures_bind [OF any [OF GetPid_grows(2)]]) simp
qed

lemma ran_Nil [simp]: "phase_ran phase [] evs"
  by (auto simp: phase_ran_def performs_def intro!: exI [of _ "\<lambda>h. program [ho_Path h]"] simp: program_def)

lemma ran_within: "phase_ran phase hs b \<Longrightarrow> phase_ran phase hs (a @ b @ c)"
  unfolding phase_ran_def by (blast intro: performs_within)

lemma phases_ran:
  "ensures (phase_ran ''createRuntime'' hs) (RunCreateRuntimeHooks env cid hs)" "ensures (phase_ran ''startContainer'' hs) (RunStartContainerHooks env cid hs)"
  "ensures (phase_ran ''poststart'' hs) (RunPoststartHooks env cid hs)" "ensures (phase_ran ''poststop'' hs) (RunPoststopHooks env cid hs)"
  using hooks_ran(1) [of "''createRuntime''" hs env cid] hooks_ran(2) [of "''startContainer''" hs env cid]
    hooks_ran(1) [of "''poststart''" hs env cid] hooks_ran(1) [of "''poststop''" hs env cid]
  by (cases "hs = []"; simp add: hook_runs done_if_def ensures_Pair)+

section \<open>Deletion\<close>

lemma before_status:
  assumes "\<And>pre c b post. snd (f tr) = tr @ pre @ (c, b) # post \<Longrightarrow> C c \<Longrightarrow> False" "grows f" "\<And>a. grows (g a)"
    "\<And>a tr1. f tr = (Inr a, tr1) \<Longrightarrow> before C (Q a) (g a)" "\<And>a xs pre c. Q a pre c \<Longrightarrow> Q a (xs @ pre) c"
    "snd (and_then f g tr) = tr @ pre @ (c, b) # post" "C c"
  shows "\<exists>a tr1. f tr = (Inr a, tr1) \<and> Q a pre c"
proof -
  obtain r tr1 where f: "f tr = (r, tr1)" by (cases "f tr")
  obtain xs where xs: "tr1 = tr @ xs" using emits_grows [OF assms(2) f] by blast
  show ?thesis
  proof (cases r)
    case (Inl e)
    then have "snd (f tr) = tr @ pre @ (c, b) # post" using assms(6) f by (simp add: and_then_def)
    then have False using assms(1,7) by blast
    then show ?thesis ..
  next
    case (Inr a)
    obtain ys where ys: "snd (g a tr1) = tr1 @ ys" using assms(3) [of a] unfolding emits_def by blast
    have "xs @ ys = pre @ (c, b) # post" using assms(6) f Inr xs ys by (simp add: and_then_def)
    then consider us where "xs = pre @ (c, b) # us" | us where "pre = xs @ us" "ys = us @ (c, b) # post"
      by (auto simp: append_eq_append_conv2 append_eq_Cons_conv)
    then show ?thesis
    proof cases
      case 1
      then have "snd (f tr) = tr @ pre @ (c, b) # us" using f xs by simp
      then have False using assms(1,7) by blast
      then show ?thesis ..
    next
      case 2
      have "before C (Q a) (g a)" using assms(4) f Inr by blast
      moreover have "snd (g a tr1) = tr1 @ us @ (c, b) # post" using 2 ys by simp
      ultimately have "Q a us c" using assms(7) unfolding before_def by blast
      then show ?thesis using assms(5) 2 f Inr by auto
    qed
  qed
qed

lemma emits_status: "(\<And>so. so_Status so = ''stopped'' \<Longrightarrow> P (WriteStateFile cid so)) \<Longrightarrow> P (ReadStateFile cid) \<Longrightarrow> P (ReadStateText cid) \<Longrightarrow> (\<And>pid. P (SendSignal pid 0)) \<Longrightarrow>
    emits P (GetStatusFromId env cid) \<and> emits P (ReadStatusFile env cid)"
  by (auto simp: GetStatusFromId_def ReadStatusFile_def recomputeStatus_def pidAlive_def UpdateStatus_def update_state_def read_state_def
      with_status_def Let_def status_values status_String_def intro!: emits_intro)

text \<open>A command in the list of a phase, and no other phase.\<close>

lemma emits_hooks:
  assumes "\<And>so. so_Status so = ''stopped'' \<Longrightarrow> P (WriteStateFile cid so)" "P (ReadStateFile cid)" "P (ReadStateText cid)" "\<And>pid. P (SendSignal pid 0)"
    "\<And>cmd. P (RunHook phase cmd)"
  shows "emits P (runHookList env cid phase hs)" "emits P (runHookListWithNsenter env cid phase hs)"
proof -
  have run: "emits P (run_hooks env phase cmd i hs)" for cmd i
    by (induction hs arbitrary: i) (auto intro!: emits_intro assms(5))
  have read: "emits P (ReadStatusFile env cid)" using emits_status [of P cid] assms by blast
  then show "emits P (runHookList env cid phase hs)" unfolding runHookList_def by (intro emits_and_then run)
  have "emits P (GetPidFromId env cid)" by (auto simp: GetPidFromId_def read_state_def assms(2) intro!: emits_intro)
  then show "emits P (runHookListWithNsenter env cid phase hs)" unfolding runHookListWithNsenter_def by (intro emits_and_then run read)
qed

definition killed :: "life_env \<Rightarrow> string \<Rightarrow> life_trace \<Rightarrow> bool" where
  "killed env cid evs \<longleftrightarrow> (\<exists>tr so so'. le_state env tr (ReadStateFile cid) = Inr so \<and> so_Status so' = ''stopped'' \<and> so_Pid so' = 0 \<and>
     performs [SendSignal (so_Pid so) 9, WriteStateFile cid so'] evs)"

lemma killed_within: "killed env cid b \<Longrightarrow> killed env cid (a @ b @ c)"
  unfolding killed_def by (blast intro: performs_within)

lemma KillInitProcess_killed: "ensures (killed env cid) (KillInitProcess env cid)"
proof -
  have pid: "yields (\<lambda>pid _. \<exists>tr so. le_state env tr (ReadStateFile cid) = Inr so \<and> pid = so_Pid so) (GetPidFromId env cid)"
    unfolding GetPidFromId_def read_state_def yields_def by (auto simp: and_then_Inr query_def)
  have kill: "ensures (\<lambda>ys. \<exists>so'. so_Status so' = ''stopped'' \<and> so_Pid so' = 0 \<and> performs [SendSignal pid 9, WriteStateFile cid so'] ys)
      (steps [call env (SendSignal pid 9), UpdateStatus env cid STOPPED 0 0])" for pid
  proof -
    have w: "so_Status (with_status STOPPED 0 0 so) = ''stopped'' \<and> so_Pid (with_status STOPPED 0 0 so) = 0" for so
      by (simp add: with_status_def status_values status_String_def)
    have "ensures (\<lambda>evs. \<exists>so'. so_Status so' = ''stopped'' \<and> so_Pid so' = 0 \<and> performs [WriteStateFile cid so'] evs) (UpdateStatus env cid STOPPED 0 0)"
      unfolding UpdateStatus_def update_state_def read_state_def call_def ensures_def
      by (auto simp: and_then_Inr query_def performs_def intro!: exI [of _ "with_status STOPPED 0 0 _"] w)
    then have "ensures (\<lambda>evs. \<exists>xs ys. evs = xs @ ys \<and> performs [SendSignal pid 9] xs \<and>
        (\<exists>so'. so_Status so' = ''stopped'' \<and> so_Pid so' = 0 \<and> performs [WriteStateFile cid so'] ys))
        (steps [call env (SendSignal pid 9), UpdateStatus env cid STOPPED 0 0])"
      unfolding steps.simps(2) [of "call env (SendSignal pid 9)"] by (rule ensures_and_then [OF performs_call ensures_single])
    then show ?thesis by (rule ensures_mono) (use performs_append [of "[SendSignal pid 9]" _ "[WriteStateFile cid _]"] in fastforce)
  qed
  have "ensures (\<lambda>ys. killed env cid (xs @ ys)) (steps [call env (SendSignal pid 9), UpdateStatus env cid STOPPED 0 0])"
    if "\<exists>tr so. le_state env tr (ReadStateFile cid) = Inr so \<and> pid = so_Pid so" for pid xs
    by (rule ensures_mono [OF kill]) (use that performs_skip in \<open>unfold killed_def, blast\<close>)
  then show ?thesis unfolding KillInitProcess_def by (intro ensures_bind [OF pid])
qed

lemma emits_kill_init:
  assumes "\<And>so. so_Status so = ''stopped'' \<Longrightarrow> P (WriteStateFile cid so)" "P (ReadStateFile cid)" "\<And>pid sg. P (SendSignal pid sg)"
  shows "emits P (KillInitProcess env cid)"
  using assms by (auto simp: KillInitProcess_def GetPidFromId_def UpdateStatus_def update_state_def read_state_def with_status_def Let_def status_values
      status_String_def intro!: emits_intro)

lemma grows_ops: "grows (GetStatusFromId env cid)" "grows (KillInitProcess env cid)" "grows (runHookList env cid phase hs)"
  "grows (runHookListWithNsenter env cid phase hs)" "grows (loadFile env cid)" "grows (UpdateStatus env cid st p q)"
  by (auto simp: loadFile_def UpdateStatus_def update_state_def read_state_def intro!: emits_intro emits_kill_init emits_hooks conjunct1 [OF emits_status])

lemma grows_removal: "grows (RunPoststopHooks env cid hs)" "grows (RemoveStatusFile env cid)"
  by (auto simp: RunPoststopHooks_def RemoveStatusFile_def intro!: emits_intro grows_ops)

lemma loadFile_yields: "yields (\<lambda>s _. \<exists>tr. le_spec env tr (LoadConfigFile (ConfigFilePath (le_getenv env) cid)) = Inr s) (loadFile env cid)"
  by (auto simp: loadFile_def yields_def query_def)

lemma ensures_done_if: "(b \<Longrightarrow> Q []) \<Longrightarrow> (\<not> b \<Longrightarrow> ensures Q f) \<Longrightarrow> ensures Q (done_if b f)"
  by (simp add: done_if_def ensures_Pair)

lemma ensures_any: "grows f \<Longrightarrow> ensures (\<lambda>_. True) f"
  unfolding ensures_def by (auto dest: emits_grows)

definition removal :: "string \<Rightarrow> life_call \<Rightarrow> bool" where
  "removal cid c \<longleftrightarrow> c = RemoveStateFile cid \<or> (\<exists>p. c = RemoveTree p)"

definition ready_to_remove :: "life_env \<Rightarrow> string \<Rightarrow> bool \<Rightarrow> int \<Rightarrow> life_trace \<Rightarrow> life_call \<Rightarrow> bool" where
  "ready_to_remove env cid force st pre c \<longleftrightarrow> CanDelete st force \<and> (st = CREATED \<or> st = RUNNING \<longrightarrow> killed env cid pre) \<and>
     (\<exists>tr s. le_spec env tr (LoadConfigFile (ConfigFilePath (le_getenv env) cid)) = Inr s \<and> phase_ran ''poststop'' (hl_Poststop (sp_Hooks s)) pre) \<and>
     (c \<noteq> RemoveStateFile cid \<longrightarrow> (RemoveStateFile cid, True) \<in> set pre)"

lemma removal_simps [simp]: "removal cid (RemoveStateFile cid)" "removal cid (RemoveTree p)" "\<not> removal cid (WriteStateFile a so)"
  "\<not> removal cid (ReadStateFile a)" "\<not> removal cid (ReadStateText a)" "\<not> removal cid (SendSignal i j)" "\<not> removal cid (RunHook a cm)"
  "\<not> removal cid (LoadConfigFile a)" "\<not> removal cid (RemovePath a)"
  by (simp_all add: removal_def)

lemma removal_steps:
  assumes "CanDelete st force" "st = CREATED \<or> st = RUNNING \<longrightarrow> killed env cid xs"
    "le_spec env trs (LoadConfigFile (ConfigFilePath (le_getenv env) cid)) = Inr s"
  shows "before (removal cid) (\<lambda>pre c. ready_to_remove env cid force st (xs @ pre) c)
     (steps [RunPoststopHooks env cid (hl_Poststop (sp_Hooks s)), RemoveStatusFile env cid, done_if d (call env (RemovePath f)),
       call env (RemoveTree p), call env (RemoveTree q)])"
proof -
  let ?Q = "\<lambda>zs pre c. ready_to_remove env cid force st (zs @ pre) c"
  have hooks: "emits (\<lambda>c. \<not> removal cid c) (RunPoststopHooks env cid hs)" "grows (RunPoststopHooks env cid hs)" for hs
    by (auto simp: RunPoststopHooks_def intro!: emits_intro emits_hooks)
  have ok: "ready_to_remove env cid force st (xs @ ys @ zs) c" if "phase_ran ''poststop'' (hl_Poststop (sp_Hooks s)) ys" "c \<noteq> RemoveStateFile cid \<longrightarrow> (RemoveStateFile cid, True) \<in> set zs" for ys zs c
    using that assms killed_within [of env cid xs "[]" "ys @ zs"] ran_within [of _ _ ys xs zs] unfolding ready_to_remove_def by auto
  have trees: "before (removal cid) (?Q (xs @ ys @ zs)) (steps [done_if d (call env (RemovePath f)), call env (RemoveTree p), call env (RemoveTree q)])"
    if "phase_ran ''poststop'' (hl_Poststop (sp_Hooks s)) ys" "(RemoveStateFile cid, True) \<in> set zs" for ys zs
    using ok [OF that(1)] that(2) by (simp add: before_def)
  have "before (removal cid) (?Q (xs @ ys)) (steps [RemoveStatusFile env cid, done_if d (call env (RemovePath f)), call env (RemoveTree p), call env (RemoveTree q)])"
    if "phase_ran ''poststop'' (hl_Poststop (sp_Hooks s)) ys" for ys
  proof (rule before_Cons)
    show "before (removal cid) (?Q (xs @ ys)) (RemoveStatusFile env cid)"
      unfolding RemoveStatusFile_def call_def using ok [OF that, of "RemoveStateFile cid" "[]"] by (intro before_query) simp
    show "ensures (\<lambda>zs. (RemoveStateFile cid, True) \<in> set zs) (RemoveStatusFile env cid)"
      unfolding RemoveStatusFile_def call_def by (rule ensures_query) simp
    show "before (removal cid) (\<lambda>pre c. ?Q (xs @ ys) (zs @ pre) c) (steps [done_if d (call env (RemovePath f)), call env (RemoveTree p), call env (RemoveTree q)])"
      if "(RemoveStateFile cid, True) \<in> set zs" for zs
      using trees [OF \<open>phase_ran _ _ ys\<close> that] by simp
  qed (auto simp: RemoveStatusFile_def intro!: emits_intro)
  note rest = this
  show ?thesis
  proof (rule before_Cons [OF before_none [OF hooks(1)] hooks(2) _ phases_ran(4)])
    show "list_all grows [RemoveStatusFile env cid, done_if d (call env (RemovePath f)), call env (RemoveTree p), call env (RemoveTree q)]"
      by (auto simp: RemoveStatusFile_def intro!: emits_intro)
  qed (use rest in \<open>simp del: steps.simps\<close>)
qed

text \<open>
  Property C29. A record is removed only when that is safe.  Before a deletion removes the record of a container, or any directory, it saw the container
  stopped or was forced; a container that was created or running was sent the kill signal and recorded as stopped; the hooks for the time after
  the stop ran in order; and the directories go only after the record.
\<close>

theorem droplet_Delete_safe:
  assumes "snd (droplet_Delete env cid force tr) = tr @ pre @ (c, b) # post" "removal cid c"
  shows "\<exists>st tr1. GetStatusFromId env cid tr = (Inr st, tr1) \<and> CanDelete st force \<and> (st = CREATED \<or> st = RUNNING \<longrightarrow> killed env cid pre) \<and>
     (\<exists>tr2 s. le_spec env tr2 (LoadConfigFile (ConfigFilePath (le_getenv env) cid)) = Inr s \<and> phase_ran ''poststop'' (hl_Poststop (sp_Hooks s)) pre) \<and>
     (c \<noteq> RemoveStateFile cid \<longrightarrow> (RemoveStateFile cid, True) \<in> set pre)"
proof -
  have "\<exists>st tr1. GetStatusFromId env cid tr = (Inr st, tr1) \<and> ready_to_remove env cid force st pre c"
  proof (rule before_status [where C = "removal cid", OF _ _ _ _ _ assms(1) [unfolded droplet_Delete_def] assms(2)])
    have "before (removal cid) (\<lambda>_ _. False) (GetStatusFromId env cid)"
      by (rule before_none) (use emits_status [of "\<lambda>c. \<not> removal cid c" cid env] in auto)
    then show "snd (GetStatusFromId env cid tr) = tr @ pre @ (c, b) # post \<Longrightarrow> removal cid c \<Longrightarrow> False" for pre c b post
      unfolding before_def by blast
    show "ready_to_remove env cid force st (xs @ pre) c" if "ready_to_remove env cid force st pre c" for st xs pre c
      using that killed_within [of env cid pre xs "[]"] ran_within [of _ _ pre xs "[]"] unfolding ready_to_remove_def by auto
    fix st
    let ?run = "and_then (done_if (\<not> ShouldKillBeforeDelete st force) (wrapped ''kill init process failed'' (KillInitProcess env cid)))
      (\<lambda>_. and_then (loadFile env cid) (\<lambda>s. steps [RunPoststopHooks env cid (hl_Poststop (sp_Hooks s)), RemoveStatusFile env cid,
         done_if (st \<noteq> CREATED) (call env (RemovePath (FifoPath (le_getenv env) cid))), call env (RemoveTree (CgroupPath cid)),
         call env (RemoveTree (ContainerDir (le_getenv env) cid))]))"
    show "grows (if \<not> CanDelete st force then Pair (Inl e) else ?run)" for e
      by (auto intro!: emits_intro grows_ops grows_removal simp del: steps.simps)
    have "before (removal cid) (ready_to_remove env cid force st) ?run" if "CanDelete st force"
    proof (rule before_and_then [where R = "\<lambda>_ xs. st = CREATED \<or> st = RUNNING \<longrightarrow> killed env cid xs"])
      show "before (removal cid) (ready_to_remove env cid force st) (done_if (\<not> ShouldKillBeforeDelete st force) (wrapped ''kill init process failed'' (KillInitProcess env cid)))"
        by (auto intro!: before_none emits_intro emits_kill_init)
      show "yields (\<lambda>_ xs. st = CREATED \<or> st = RUNNING \<longrightarrow> killed env cid xs)
          (done_if (\<not> ShouldKillBeforeDelete st force) (wrapped ''kill init process failed'' (KillInitProcess env cid)))"
        using that by (intro yields_ensures ensures_done_if ensures_wrapped ensures_mono [OF KillInitProcess_killed])
          (auto simp: ShouldKillBeforeDelete_def CanDelete_def)
      show "before (removal cid) (\<lambda>pre c. ready_to_remove env cid force st (xs @ pre) c) (and_then (loadFile env cid) (\<lambda>s. steps
          [RunPoststopHooks env cid (hl_Poststop (sp_Hooks s)), RemoveStatusFile env cid,
           done_if (st \<noteq> CREATED) (call env (RemovePath (FifoPath (le_getenv env) cid))), call env (RemoveTree (CgroupPath cid)),
           call env (RemoveTree (ContainerDir (le_getenv env) cid))]))"
        if k: "st = CREATED \<or> st = RUNNING \<longrightarrow> killed env cid xs" for xs
      proof (rule before_and_then [OF _ _ _ loadFile_yields])
        fix s ys
        assume "\<exists>trs. le_spec env trs (LoadConfigFile (ConfigFilePath (le_getenv env) cid)) = Inr s"
        moreover have "st = CREATED \<or> st = RUNNING \<longrightarrow> killed env cid (xs @ ys)" using k killed_within [of env cid xs "[]" ys] by simp
        ultimately show "before (removal cid) (\<lambda>pre c. ready_to_remove env cid force st (xs @ ys @ pre) c) (steps
          [RunPoststopHooks env cid (hl_Poststop (sp_Hooks s)), RemoveStatusFile env cid,
           done_if (st \<noteq> CREATED) (call env (RemovePath (FifoPath (le_getenv env) cid))), call env (RemoveTree (CgroupPath cid)),
           call env (RemoveTree (ContainerDir (le_getenv env) cid))])"
          using removal_steps [OF \<open>CanDelete st force\<close>, of env cid "xs @ ys"] by auto
      qed (auto simp: loadFile_def intro!: before_none emits_intro grows_removal simp del: steps.simps)
    qed (auto intro!: emits_intro grows_ops grows_removal simp del: steps.simps)
    then show "before (removal cid) (ready_to_remove env cid force st) (if \<not> CanDelete st force then Pair (Inl e) else ?run)" for e
      by (auto intro!: before_none emits_intro simp del: steps.simps)
  qed (rule grows_ops)
  then show ?thesis unfolding ready_to_remove_def .
qed

text \<open>A host where the state of every container is always read as the same.\<close>

definition ex_state :: "int \<Rightarrow> StatusObject" where
  "ex_state st = \<lparr>so_OciVersion = OCIVersion, so_Id = ''c1'', so_Status = status_String st, so_ExitCode = 0, so_Reason = [], so_Message = [], so_Pid = 42,
     so_ShimPid = 41, so_Rootfs = ''/r'', so_Bundle = ''/b'', so_Annotation = \<lparr>an_Version = [], an_Net = [], an_Image = [], an_Rootless = [], an_Extra = []\<rparr>\<rparr>"

definition ex_fixed_env :: "int \<Rightarrow> life_env" where
  "ex_fixed_env st = ex_life_env\<lparr>le_state := \<lambda>_ _. Inr (ex_state st)\<rparr>"

theorem droplet_Delete_safe_witness:
  "\<exists>pre post. snd (droplet_Delete (ex_fixed_env RUNNING) ''c1'' True []) = [] @ pre @ (RemoveStateFile ''c1'', True) # post \<and>
     killed (ex_fixed_env RUNNING) ''c1'' pre"
proof -
  have "(RemoveStateFile ''c1'', True) \<in> set (snd (droplet_Delete (ex_fixed_env RUNNING) ''c1'' True []))" by code_simp
  then obtain pre post where run: "snd (droplet_Delete (ex_fixed_env RUNNING) ''c1'' True []) = [] @ pre @ (RemoveStateFile ''c1'', True) # post"
    by (metis append_Nil split_list)
  moreover have "fst (GetStatusFromId (ex_fixed_env RUNNING) ''c1'' []) = Inr RUNNING" by code_simp
  ultimately show ?thesis using droplet_Delete_safe [OF run] by auto
qed

section \<open>Start\<close>

definition start_effect :: "string \<Rightarrow> life_call \<Rightarrow> bool" where
  "start_effect cid c \<longleftrightarrow> (\<exists>f. c = SignalFifo f) \<or> (\<exists>so. c = WriteStateFile cid so \<and> so_Status so = ''running'') \<or> (\<exists>cmd. c = RunHook ''poststart'' cmd)"

definition may_start :: "life_env \<Rightarrow> string \<Rightarrow> int \<Rightarrow> life_trace \<Rightarrow> life_call \<Rightarrow> bool" where
  "may_start env cid st pre c \<longleftrightarrow> st = CREATED \<and>
     (\<exists>tr s. le_spec env tr (LoadConfigFile (ConfigFilePath (le_getenv env) cid)) = Inr s \<and> phase_ran ''startContainer'' (hl_StartContainer (sp_Hooks s)) pre) \<and>
     ((\<forall>f. c \<noteq> SignalFifo f) \<longrightarrow> performs [SignalFifo (FifoPath (le_getenv env) cid)] pre) \<and>
     ((\<exists>cmd. c = RunHook ''poststart'' cmd) \<longrightarrow> (\<exists>so. performs [WriteStateFile cid so] pre \<and> so_Status so = ''running''))"

lemma may_start_skip: "may_start env cid st pre c \<Longrightarrow> may_start env cid st (xs @ pre) c"
  using ran_within [of _ _ pre xs "[]"] performs_skip [of _ pre xs] unfolding may_start_def by auto

lemma UpdateStatus_writes:
  assumes "0 \<le> st" "st \<le> 3"
  shows "ensures (\<lambda>evs. \<exists>so. performs [WriteStateFile cid so] evs \<and> so_Status so = status_String st) (UpdateStatus env cid st p q)"
proof -
  have "so_Status (with_status st p q so) = status_String st" for so using assms by (simp add: with_status_def Let_def)
  then show ?thesis unfolding UpdateStatus_def update_state_def read_state_def call_def ensures_def
    by (auto simp: and_then_Inr query_def performs_def)
qed

lemma start_simps [simp]: "\<not> start_effect cid (ReadStateFile a)" "\<not> start_effect cid (ReadStateText a)" "\<not> start_effect cid (SendSignal i j)"
  "\<not> start_effect cid (LoadConfigFile a)" "\<not> start_effect cid (RemovePath a)" "start_effect cid (SignalFifo a)"
  "so_Status so = ''stopped'' \<Longrightarrow> \<not> start_effect cid (WriteStateFile a so)" "start_effect cid (RunHook ph cm) \<longleftrightarrow> ph = ''poststart''"
  by (auto simp: start_effect_def)

lemma start_steps:
  assumes "le_spec env trs (LoadConfigFile (ConfigFilePath (le_getenv env) cid)) = Inr s"
  shows "before (start_effect cid) (may_start env cid CREATED) (steps
       [RunStartContainerHooks env cid (hl_StartContainer (sp_Hooks s)), call env (SignalFifo (FifoPath (le_getenv env) cid)),
        call env (RemovePath (FifoPath (le_getenv env) cid)), UpdateStatus env cid RUNNING (-1) (-1), RunPoststartHooks env cid hs])"
proof -
  let ?fifo = "SignalFifo (FifoPath (le_getenv env) cid)"
  let ?ran = "phase_ran ''startContainer'' (hl_StartContainer (sp_Hooks s))"
  have g: "grows (RunStartContainerHooks env cid hs)" "grows (RunPoststartHooks env cid hs)" for hs
    by (auto simp: RunStartContainerHooks_def RunPoststartHooks_def intro!: emits_intro grows_ops)
  have any: "may_start env cid CREATED pre c"
    if "?ran pre" "performs [?fifo] pre" "(\<exists>cmd. c = RunHook ''poststart'' cmd) \<longrightarrow> (\<exists>so. performs [WriteStateFile cid so] pre \<and> so_Status so = ''running'')" for pre c
    using that assms unfolding may_start_def by blast
  have update: "before (start_effect cid) (\<lambda>pre c. may_start env cid CREATED (xs @ pre) c) (steps [UpdateStatus env cid RUNNING (-1) (-1), RunPoststartHooks env cid hs])"
    if xs: "?ran xs" "performs [?fifo] xs" for xs
  proof -
    have ext: "?ran (xs @ ys)" "performs [?fifo] (xs @ ys)" for ys
      using ran_within [of _ _ xs "[]" ys] performs_within [of _ xs "[]" ys] xs by auto
    show ?thesis
    proof (rule before_Cons [OF _ grows_ops(6) _ UpdateStatus_writes])
      show "before (start_effect cid) (\<lambda>pre c. may_start env cid CREATED (xs @ pre) c) (UpdateStatus env cid RUNNING (- 1) (- 1))"
        by (rule before_emits [where P = "\<lambda>c. \<nexists>cmd. c = RunHook ''poststart'' cmd"])
          (auto simp: UpdateStatus_def update_state_def read_state_def intro!: emits_intro any ext)
      show "before (start_effect cid) (\<lambda>pre c. may_start env cid CREATED (xs @ ys @ pre) c) (steps [RunPoststartHooks env cid hs])"
        if w: "\<exists>so. performs [WriteStateFile cid so] ys \<and> so_Status so = status_String RUNNING" for ys
        unfolding before_def
      proof (intro allI impI any ext)
        obtain so where "performs [WriteStateFile cid so] ys" "so_Status so = ''running''" using w by auto
        then show "\<exists>so. performs [WriteStateFile cid so] (xs @ ys @ pre) \<and> so_Status so = ''running''" for pre using performs_within by blast
      qed
    qed (auto simp: g status_values)
  qed
  have signal: "before (start_effect cid) (\<lambda>pre c. may_start env cid CREATED (xs @ pre) c) (steps [call env ?fifo,
        call env (RemovePath (FifoPath (le_getenv env) cid)), UpdateStatus env cid RUNNING (-1) (-1), RunPoststartHooks env cid hs])"
    if xs: "?ran xs" for xs
  proof (rule before_Cons [OF _ _ _ performs_call])
    show "before (start_effect cid) (\<lambda>pre c. may_start env cid CREATED (xs @ pre) c) (call env ?fifo)"
      unfolding call_def by (rule before_query) (use xs assms in \<open>auto simp: may_start_def\<close>)
    fix ys
    assume ys: "performs [?fifo] ys"
    show "before (start_effect cid) (\<lambda>pre c. may_start env cid CREATED (xs @ ys @ pre) c) (steps [call env (RemovePath (FifoPath (le_getenv env) cid)),
        UpdateStatus env cid RUNNING (-1) (-1), RunPoststartHooks env cid hs])"
    proof (rule before_Cons [OF _ _ _ ensures_any])
      fix zs
      have "?ran (xs @ ys @ zs)" "performs [?fifo] (xs @ ys @ zs)"
        using ran_within [of _ _ xs "[]" "ys @ zs"] performs_within [of _ ys xs zs] xs ys by auto
      from update [OF this] show "before (start_effect cid) (\<lambda>pre c. may_start env cid CREATED (xs @ ys @ zs @ pre) c)
          (steps [UpdateStatus env cid RUNNING (-1) (-1), RunPoststartHooks env cid hs])" by simp
    qed (auto intro!: before_none emits_intro g grows_ops)
  qed (auto intro!: emits_intro g grows_ops)
  show ?thesis
  proof (rule before_Cons [OF before_none g(1) _ phases_ran(2)])
    show "emits (\<lambda>c. \<not> start_effect cid c) (RunStartContainerHooks env cid (hl_StartContainer (sp_Hooks s)))"
      by (auto simp: RunStartContainerHooks_def intro!: emits_intro emits_hooks)
  qed (use signal in \<open>auto intro!: emits_intro g grows_ops simp del: steps.simps\<close>)
qed

text \<open>
  Property C31. A container starts only in order.  Before a start releases the entry point, the container was recorded as created and its hooks
  for that moment ran; it is recorded as running only after the release; and the hooks for the time after the start come after that record.
\<close>

theorem droplet_Start_order:
  assumes "snd (droplet_Start env cid tr) = tr @ pre @ (c, b) # post" "start_effect cid c"
  shows "\<exists>tr1. GetStatusFromId env cid tr = (Inr CREATED, tr1) \<and>
     (\<exists>tr2 s. le_spec env tr2 (LoadConfigFile (ConfigFilePath (le_getenv env) cid)) = Inr s \<and> phase_ran ''startContainer'' (hl_StartContainer (sp_Hooks s)) pre) \<and>
     ((\<forall>f. c \<noteq> SignalFifo f) \<longrightarrow> performs [SignalFifo (FifoPath (le_getenv env) cid)] pre) \<and>
     ((\<exists>cmd. c = RunHook ''poststart'' cmd) \<longrightarrow> (\<exists>so. performs [WriteStateFile cid so] pre \<and> so_Status so = ''running''))"
proof -
  have "\<exists>st tr1. GetStatusFromId env cid tr = (Inr st, tr1) \<and> may_start env cid st pre c"
  proof (rule before_status [where C = "start_effect cid", OF _ _ _ _ _ assms(1) [unfolded droplet_Start_def Let_def] assms(2)])
    have "before (start_effect cid) (\<lambda>_ _. False) (GetStatusFromId env cid)"
      by (rule before_none) (use emits_status [of "\<lambda>c. \<not> start_effect cid c" cid env] in auto)
    then show "snd (GetStatusFromId env cid tr) = tr @ pre @ (c, b) # post \<Longrightarrow> start_effect cid c \<Longrightarrow> False" for pre c b post
      unfolding before_def by blast
    fix st
    let ?steps = "\<lambda>s. steps [RunStartContainerHooks env cid (hl_StartContainer (sp_Hooks s)), call env (SignalFifo (FifoPath (le_getenv env) cid)),
        call env (RemovePath (FifoPath (le_getenv env) cid)), UpdateStatus env cid RUNNING (-1) (-1), RunPoststartHooks env cid (hl_Poststart (sp_Hooks s))]"
    have g: "grows (?steps s)" for s
      by (auto simp: RunStartContainerHooks_def RunPoststartHooks_def intro!: emits_intro grows_ops)
    show grow: "grows (and_then (Pair (EnsureCreated cid st)) (\<lambda>_. and_then (loadFile env cid) ?steps))"
      by (intro emits_and_then emits_Pair grows_ops g)
    show "before (start_effect cid) (may_start env cid st) (and_then (Pair (EnsureCreated cid st)) (\<lambda>_. and_then (loadFile env cid) ?steps))"
    proof (rule before_and_then [where R = "\<lambda>_ xs. st = CREATED \<and> xs = []"])
      show "before (start_effect cid) (\<lambda>pre c. may_start env cid st (xs @ pre) c) (and_then (loadFile env cid) ?steps)" if "st = CREATED \<and> xs = []" for xs
      proof (rule before_and_then [OF _ _ g loadFile_yields])
        show "before (start_effect cid) (\<lambda>pre c. may_start env cid st (xs @ ys @ pre) c) (?steps s)"
          if ld: "\<exists>tr. le_spec env tr (LoadConfigFile (ConfigFilePath (le_getenv env) cid)) = Inr s" for s ys
        proof -
          obtain trs where "le_spec env trs (LoadConfigFile (ConfigFilePath (le_getenv env) cid)) = Inr s" using ld by blast
          from start_steps [OF this] have "before (start_effect cid) (may_start env cid st) (?steps s)" using \<open>st = CREATED \<and> xs = []\<close> by blast
          then show ?thesis by (rule before_weaken) (use may_start_skip [of env cid st _ _ "xs @ ys"] in simp)
        qed
      qed (auto simp: loadFile_def intro!: before_none emits_intro)
    qed (auto simp: yields_def EnsureCreated_def intro!: before_none emits_intro grows_ops g simp del: steps.simps split: if_splits)
  qed (auto intro: grows_ops may_start_skip)
  then obtain st tr1 where "GetStatusFromId env cid tr = (Inr st, tr1)" and m: "may_start env cid st pre c" by blast
  moreover have "st = CREATED" using m by (simp add: may_start_def)
  ultimately show ?thesis using m by (simp add: may_start_def)
qed

theorem droplet_Start_order_witness:
  "\<exists>pre cmd post. snd (droplet_Start (ex_fixed_env CREATED) ''c1'' []) = [] @ pre @ (RunHook ''poststart'' cmd, True) # post \<and>
     performs [SignalFifo ''/etc/raind/container/c1/exec.fifo''] pre"
proof -
  let ?cmd = "buildCommandWithTimeout ex_hook [''/bin/hook''] ''text''"
  have "(RunHook ''poststart'' ?cmd, True) \<in> set (snd (droplet_Start (ex_fixed_env CREATED) ''c1'' []))" by code_simp
  then obtain pre post where run: "snd (droplet_Start (ex_fixed_env CREATED) ''c1'' []) = [] @ pre @ (RunHook ''poststart'' ?cmd, True) # post"
    by (metis append_Nil split_list)
  moreover have "FifoPath (le_getenv (ex_fixed_env CREATED)) ''c1'' = ''/etc/raind/container/c1/exec.fifo''" by code_simp
  ultimately show ?thesis using droplet_Start_order [OF run] by (auto simp: start_effect_def)
qed

end
