(* ===== verification/Droplet_Lifecycle_Stop.thy ===== *)
theory Droplet_Lifecycle_Stop
  imports Droplet_Lifecycle_Order
begin

text \<open>
  Stopping and running: a termination signal that succeeds has seen the process end, the waits are bounded, and what a run does twice.
\<close>

section \<open>Waits\<close>

lemma poll_until_found:
  assumes "grows probe" "poll_until probe delay interval timeout elapsed tr = (Inr a, tr')"
  shows "\<exists>xs. probe (tr @ xs) = (Inr a, tr')"
  using assms(2)
proof (induction "Suc timeout - elapsed" arbitrary: elapsed tr rule: less_induct)
  case less
  obtain r tr1 where p: "probe tr = (r, tr1)" by (cases "probe tr")
  then obtain xs where xs: "tr1 = tr @ xs" using emits_grows [OF assms(1) p] by blast
  show ?case
  proof (cases r)
    case (Inr b)
    then show ?thesis using less.prems p by (auto simp: poll_until.simps [of probe delay interval timeout elapsed] intro!: exI [of _ "[]"])
  next
    case (Inl e)
    then have go: "\<not> elapsed + delay tr1 > timeout"
        "poll_until probe delay interval timeout (elapsed + delay tr1 + max 1 interval) tr1 = (Inr a, tr')"
      using less.prems p by (auto simp: poll_until.simps [of probe delay interval timeout elapsed] split: if_splits)
    have "Suc timeout - (elapsed + delay tr1 + max 1 interval) < Suc timeout - elapsed" using go(1) by auto
    from less.hyps [OF this go(2)] show ?thesis using xs by auto
  qed
qed

definition polls :: "nat \<Rightarrow> nat \<Rightarrow> nat \<Rightarrow> nat" where
  "polls timeout elapsed interval = (if elapsed \<le> timeout then (timeout - elapsed) div interval + 2 else 1)"

lemma polls_next:
  assumes "elapsed \<le> timeout" "elapsed + interval \<le> later" "0 < interval"
  shows "Suc (polls timeout later interval) \<le> polls timeout elapsed interval"
proof (cases "later \<le> timeout")
  case True
  have "timeout - later + interval \<le> timeout - elapsed" using assms True by simp
  then have le: "(timeout - later + interval) div interval \<le> (timeout - elapsed) div interval" by (rule div_le_mono)
  have "interval \<noteq> 0" using assms(3) by simp
  then have "(timeout - later + interval) div interval = (timeout - later) div interval + 1" by (rule div_add_self2)
  with le have "Suc ((timeout - later) div interval) \<le> (timeout - elapsed) div interval" by linarith
  then show ?thesis using True assms by (simp add: polls_def)
qed (use assms in \<open>simp add: polls_def\<close>)

lemma poll_until_bounded:
  assumes "\<And>tr. \<exists>evs. snd (probe tr) = tr @ evs \<and> length evs \<le> k" "0 < interval"
  shows "\<exists>evs. snd (poll_until probe delay interval timeout elapsed tr) = tr @ evs \<and> length evs \<le> k * polls timeout elapsed interval"
proof (induction "Suc timeout - elapsed" arbitrary: elapsed tr rule: less_induct)
  case less
  obtain r tr1 where p: "probe tr = (r, tr1)" by (cases "probe tr")
  then obtain xs where xs: "tr1 = tr @ xs" "length xs \<le> k" using assms(1) [of tr] by auto
  have one: "k \<le> k * polls timeout elapsed interval" by (simp add: polls_def)
  show ?case
  proof (cases "(\<exists>a. r = Inr a) \<or> elapsed + delay tr1 > timeout")
    case True
    then have "snd (poll_until probe delay interval timeout elapsed tr) = tr1" by (cases r) (auto simp: poll_until.simps p)
    moreover have "length xs \<le> k * polls timeout elapsed interval" using xs(2) one by (rule le_trans)
    ultimately show ?thesis using xs(1) by auto
  next
    case False
    let ?later = "elapsed + delay tr1 + max 1 interval"
    obtain e where "r = Inl e" using False by (cases r) auto
    then have go: "poll_until probe delay interval timeout elapsed tr = poll_until probe delay interval timeout ?later tr1"
      using False assms(2) by (simp add: poll_until.simps [of probe delay interval timeout elapsed] p)
    have "Suc timeout - ?later < Suc timeout - elapsed" using False assms(2) by auto
    from less [OF this, of tr1] obtain ys where
      ys: "snd (poll_until probe delay interval timeout ?later tr1) = tr1 @ ys" "length ys \<le> k * polls timeout ?later interval" by blast
    have "Suc (polls timeout ?later interval) \<le> polls timeout elapsed interval" using False assms(2) by (intro polls_next) auto
    then have "k * Suc (polls timeout ?later interval) \<le> k * polls timeout elapsed interval" by (rule mult_le_mono2)
    then show ?thesis using ys xs by (auto simp: go)
  qed
qed

lemma probe_exit_events: "\<exists>evs. snd (probe_exit env pid st tr) = tr @ evs \<and> length evs \<le> 3"
  by (auto simp: probe_exit_def ReadProcStartTime_def ReadProcState_def read_proc_stat_def Let_def then_do_def and_then_def query_def
      split: sum.splits)

lemma WaitProcessExit_events: "\<exists>evs. snd (WaitProcessExit env pid st timeout tr) = tr @ evs \<and> length evs \<le> 3 * (timeout div 50 + 2)"
  using poll_until_bounded [of "probe_exit env pid st" 3 50 "le_delay env" timeout 0 tr, OF probe_exit_events]
  by (simp add: WaitProcessExit_def polls_def)

text \<open>
  Property C33. A stop does not wait forever.  Whatever the signal and whatever the system reports, the wait for the end of the process looks at most
  493 times: 62 looks of three calls within the three seconds of grace, one further signal, and 102 looks within the last five seconds.
\<close>

theorem await_exit_bounded:
  "\<exists>evs. snd (await_exit env signalName pid startTime tr) = tr @ evs \<and> length evs \<le> 493"
proof (cases "signalName = ''TERM''")
  case True
  obtain r tr1 where w: "WaitProcessExit env pid startTime 3000 tr = (r, tr1)" by (cases "WaitProcessExit env pid startTime 3000 tr")
  then obtain xs where xs: "tr1 = tr @ xs" "length xs \<le> 186" using WaitProcessExit_events [of env pid startTime 3000 tr] by auto
  obtain ys where ys: "snd (WaitProcessExit env pid startTime 5000 (snd (call env (SendSignal pid 9) tr1))) = snd (call env (SendSignal pid 9) tr1) @ ys"
      "length ys \<le> 306" using WaitProcessExit_events [of env pid startTime 5000 "snd (call env (SendSignal pid 9) tr1)"] by auto
  have "snd (wrapped m f tr) = snd (f tr)" for m tr and f :: "life_trace \<Rightarrow> unit res \<times> life_trace" by (simp add: wrapped_def split: prod.split sum.split)
  then show ?thesis using True w xs ys
    by (cases r) (auto simp: await_exit_def then_do_def call_def query_def split: prod.splits)
next
  case False
  obtain xs where "snd (WaitProcessExit env pid startTime 5000 tr) = tr @ xs" "length xs \<le> 306"
    using WaitProcessExit_events [of env pid startTime 5000 tr] by auto
  then show ?thesis using False by (auto simp: await_exit_def ignoring_def then_do_def split: prod.splits)
qed

section \<open>Signals\<close>

lemma probe_exit_grows: "grows (probe_exit env pid st)"
  by (auto simp: probe_exit_def ReadProcStartTime_def ReadProcState_def read_proc_stat_def Let_def intro!: emits_intro)

lemma WaitProcessExit_seen: "WaitProcessExit env pid st timeout tr = (Inr (), tr') \<Longrightarrow> \<exists>xs. probe_exit env pid st (tr @ xs) = (Inr (), tr')"
  unfolding WaitProcessExit_def by (rule poll_until_found [OF probe_exit_grows])

lemma await_TERM_seen:
  assumes "await_exit env ''TERM'' pid st tr = (Inr (), tr')"
  shows "\<exists>xs. probe_exit env pid st (tr @ xs) = (Inr (), tr')"
proof -
  obtain r tr1 where w: "WaitProcessExit env pid st 3000 tr = (r, tr1)" by (cases "WaitProcessExit env pid st 3000 tr")
  then obtain ys where ys: "tr1 = tr @ ys" using WaitProcessExit_events [of env pid st 3000 tr] by auto
  show ?thesis
  proof (cases r)
    case (Inr u)
    then show ?thesis using assms w WaitProcessExit_seen [of env pid st 3000 tr tr'] by (simp add: await_exit_def then_do_def)
  next
    case (Inl e)
    obtain q tr2 where s: "call env (SendSignal pid 9) tr1 = (q, tr2)" by (cases "call env (SendSignal pid 9) tr1")
    then obtain zs where "tr2 = tr @ ys @ zs" using ys by (auto simp: call_def query_def)
    moreover have "WaitProcessExit env pid st 5000 tr2 = (Inr (), tr')"
      using assms w s Inl by (auto simp: await_exit_def then_do_def wrapped_def split: prod.splits sum.splits)
    ultimately show ?thesis using WaitProcessExit_seen [of env pid st 5000 tr2 tr'] by auto
  qed
qed

lemma grows_more: "grows (GetShimPidFromId env cid)" "grows (ReadProcStartTime env pid)" "grows (CleanupShim env cid)" "grows (RunStopContainerHooks env cid hs)"
  by (auto simp: GetShimPidFromId_def read_state_def ReadProcStartTime_def read_proc_stat_def CleanupShim_def RunStopContainerHooks_def
      intro!: emits_intro grows_ops)

text \<open>
  Property C32. A stop is believed only when it is seen.  When a termination signal succeeds, the signal was sent to the process, afterwards a look at
  the process ended the wait (it was gone, a zombie, replaced by another one with its id, or its start time could no longer be read), and only then
  the container was recorded as stopped.
\<close>

theorem droplet_Kill_confirmed:
  assumes "ParseSignal sg = Inr (''TERM'', sig)" "droplet_Kill env cid sg tr = (Inr (), tr')"
  shows "\<exists>pid startTime pre mid tr2 post so. probe_exit env pid startTime (tr @ pre @ (SendSignal pid sig, True) # mid) = (Inr (), tr2) \<and>
     tr' = tr2 @ post \<and> performs [WriteStateFile cid so] post \<and> so_Status so = ''stopped'' \<and> so_Pid so = 0"
proof -
  obtain s st pid shimPid start a b c e f where
    run: "loadFile env cid tr = (Inr s, a)" "GetStatusFromId env cid a = (Inr st, b)" "IsAllowed st [RUNNING, CREATED]"
      "GetPidFromId env cid b = (Inr pid, c)" "GetShimPidFromId env cid c = (Inr shimPid, e)" "ReadProcStartTime env pid e = (Inr start, f)"
    and st: "steps [call env (SendSignal pid sig), await_exit env ''TERM'' pid start, done_if (\<not> shimPid > 0) (ignoring (CleanupShim env cid)),
        UpdateStatus env cid STOPPED 0 0, RunStopContainerHooks env cid (hl_StopContainer (sp_Hooks s))] f = (Inr (), tr')"
    using assms by (auto simp: droplet_Kill_def and_then_Inr KillTransition_def Let_def done_if_def split: if_splits)
  obtain pre where pre: "f = tr @ pre"
    using run emits_grows [OF grows_ops(5) run(1)] emits_grows [OF grows_ops(1) run(2)] emits_grows [OF GetPid_grows(1) run(4)]
      emits_grows [OF grows_more(1) run(5)] emits_grows [OF grows_more(2) run(6)] by auto
  obtain g h i j where parts: "call env (SendSignal pid sig) f = (Inr (), g)" "await_exit env ''TERM'' pid start g = (Inr (), h)"
      "done_if (\<not> shimPid > 0) (ignoring (CleanupShim env cid)) h = (Inr (), i)" "UpdateStatus env cid STOPPED 0 0 i = (Inr (), j)"
      "RunStopContainerHooks env cid (hl_StopContainer (sp_Hooks s)) j = (Inr (), tr')"
    using st by (auto simp: and_then_Inr)
  have g: "g = tr @ pre @ [(SendSignal pid sig, True)]" using parts(1) pre by (auto simp: call_def query_def)
  obtain mid where seen: "probe_exit env pid start (g @ mid) = (Inr (), h)" using await_TERM_seen [OF parts(2)] by blast
  have "grows (done_if (\<not> shimPid > 0) (ignoring (CleanupShim env cid)))" by (auto simp: ignoring_def intro!: emits_intro grows_more)
  then obtain us where us: "i = h @ us" using emits_grows [where P = "\<lambda>_. True" and f = "done_if (\<not> shimPid > 0) (ignoring (CleanupShim env cid))"] parts(3) by metis
  obtain so vs where so: "j = i @ vs" "performs [WriteStateFile cid so] vs" "so_Status so = ''stopped''" "so_Pid so = 0"
    using parts(4) unfolding UpdateStatus_def update_state_def read_state_def call_def
    by (fastforce simp: and_then_Inr query_def performs_def with_status_def status_values status_String_def)
  obtain ws where ws: "tr' = j @ ws" using emits_grows [OF grows_more(4) parts(5)] by blast
  have "tr' = h @ (us @ vs @ ws)" "performs [WriteStateFile cid so] (us @ vs @ ws)" using us so ws by (auto intro: performs_within)
  moreover have "probe_exit env pid start (tr @ pre @ (SendSignal pid sig, True) # mid) = (Inr (), h)" using seen g by simp
  ultimately show ?thesis using so(3,4) by (intro exI conjI)
qed

text \<open>A host where the process ends after TERM.\<close>

definition ex_stop_env :: life_env where
  "ex_stop_env = (ex_fixed_env RUNNING)\<lparr>le_text := \<lambda>tr c. case c of
     ReadText p \<Rightarrow> if (SendSignal 42 15, True) \<in> set tr then Inl (SysErr ''gone'') else Inr ex_stat
   | _ \<Rightarrow> Inr ''text''\<rparr>"

lemma parse_default_signal: "ParseSignal [] = Inr (''TERM'', 15)"
proof -
  have trim: "trim_space [] = []" by code_simp
  have "\<not> is_digit CHR ''T''" by code_simp
  then have atoi: "Atoi ''TERM'' = None" by (simp add: Atoi_def Let_def)
  have "trim_prefix (to_upper ''TERM'') ''SIG'' = ''TERM''" "map_of signal_map ''TERM'' = Some 15" by code_simp+
  then show ?thesis by (simp add: ParseSignal_def Let_def trim atoi)
qed

lemma ex_stop_start: "(SendSignal 42 15, True) \<notin> set tr \<Longrightarrow> ReadProcStartTime ex_stop_env 42 tr = (Inr 777, tr @ [(ReadText ''/proc/42/stat'', True)])"
proof -
  assume alive: "(SendSignal 42 15, True) \<notin> set tr"
  have "list_all is_digit ''777''" by code_simp
  then have n: "ParseUint64 ''777'' = Some 777" by (simp add: ParseUint64_def decimal_def)
  have "(case ParseProcStatFields ex_stat of Inr fs \<Rightarrow> fs ! 19 = ''777'' | _ \<Rightarrow> False)" by code_simp
  then obtain fs where fs: "ParseProcStatFields ex_stat = Inr fs" "ParseUint64 (fs ! 19) = Some 777" using n by (auto split: sum.splits)
  have "itoa 42 = ''42''" by code_simp
  then show ?thesis using alive
    by (simp add: ReadProcStartTime_def read_proc_stat_def and_then_def query_def ex_stop_env_def fs)
qed

lemma ex_stop_wait:
  assumes "(SendSignal 42 15, True) \<in> set tr"
  shows "WaitProcessExit ex_stop_env 42 777 t tr = (Inr (), tr @ [(ReadText ''/proc/42/stat'', False)])"
proof -
  have "itoa 42 = ''42''" by code_simp
  then show ?thesis using assms
    by (simp add: WaitProcessExit_def poll_until.simps probe_exit_def ReadProcStartTime_def read_proc_stat_def and_then_def then_do_def query_def
        ex_stop_env_def ex_fixed_env_def ex_life_env_def system_error_def Let_def)
qed

lemma ex_stop_runs: "\<exists>tr'. droplet_Kill ex_stop_env ''c1'' [] [] = (Inr (), tr')"
proof -
  have st: "ParseContainerStatus ''running'' = Inr RUNNING" by code_simp
  have ok: "le_answer ex_stop_env = (\<lambda>_ _. Inr ())" "le_state ex_stop_env = (\<lambda>_ _. Inr (ex_state RUNNING))" "le_spec ex_stop_env = (\<lambda>_ _. Inr ex_life_spec)"
    by (simp_all add: ex_stop_env_def ex_fixed_env_def ex_life_env_def)
  have object: "so_Status (ex_state RUNNING) = ''running''" "so_Pid (ex_state RUNNING) = 42" "so_ShimPid (ex_state RUNNING) = 41"
    by (simp_all add: ex_state_def status_values status_String_def)
  have status: "GetStatusFromId ex_stop_env ''c1'' tr = (Inr RUNNING, tr @ [(ReadStateFile ''c1'', True), (SendSignal 42 0, True), (ReadStateFile ''c1'', True)])" for tr
    by (simp add: GetStatusFromId_def recomputeStatus_def pidAlive_def read_state_def call_def query_def and_then_def then_do_def ok object st)
  have hooks: "hl_StopContainer (sp_Hooks ex_life_spec) = []" by code_simp
  have "\<exists>xs. CleanupShim ex_stop_env ''c1'' tr = (Inr (), tr @ xs)" for tr
    by (simp add: CleanupShim_def tolerate_def call_def query_def and_then_def ok)
  then obtain xs where shim: "\<And>tr. CleanupShim ex_stop_env ''c1'' tr = (Inr (), tr @ xs tr)" by metis
  have wait: "await_exit ex_stop_env ''TERM'' 42 777 tr = (Inr (), tr @ [(ReadText ''/proc/42/stat'', False)])" if "(SendSignal 42 15, True) \<in> set tr" for tr
    using ex_stop_wait [OF that] by (simp add: await_exit_def then_do_def)
  show ?thesis
    by (simp add: droplet_Kill_def loadFile_def GetPidFromId_def GetShimPidFromId_def read_state_def call_def query_def and_then_def ok object parse_default_signal status
        IsAllowed_def KillTransition_def Let_def ex_stop_start wait done_if_def ignoring_def then_do_def shim UpdateStatus_def update_state_def
        RunStopContainerHooks_def hooks)
qed

theorem droplet_Kill_confirmed_witness:
  "\<exists>tr' pid startTime pre mid tr2. droplet_Kill ex_stop_env ''c1'' [] [] = (Inr (), tr') \<and>
     probe_exit ex_stop_env pid startTime (pre @ (SendSignal pid 15, True) # mid) = (Inr (), tr2)"
proof -
  obtain tr' where run: "droplet_Kill ex_stop_env ''c1'' [] [] = (Inr (), tr')" using ex_stop_runs by blast
  from droplet_Kill_confirmed [OF parse_default_signal run] obtain pid startTime pre mid tr2 where
    "probe_exit ex_stop_env pid startTime ([] @ pre @ (SendSignal pid 15, True) # mid) = (Inr (), tr2)" by (elim exE conjE)
  with run show ?thesis unfolding append_Nil by (intro exI conjI)
qed

section \<open>Run\<close>

text \<open>The hooks of several phases, one phase after another.\<close>

fun ran_in_order :: "(string \<times> HookObject list) list \<Rightarrow> life_trace \<Rightarrow> bool" where
  "ran_in_order [] evs = True"
| "ran_in_order ((phase, hs) # ps) evs = (\<exists>a b. evs = a @ b \<and> phase_ran phase hs a \<and> ran_in_order ps b)"

lemma ran_in_order_skip: "ran_in_order ps b \<Longrightarrow> ran_in_order ps (a @ b)"
proof (cases ps)
  case (Cons p qs)
  obtain phase hs where p: "p = (phase, hs)" by (cases p)
  assume "ran_in_order ps b"
  then obtain c d where b: "b = c @ d" "phase_ran phase hs c" "ran_in_order qs d" by (auto simp: Cons p)
  then have "phase_ran phase hs (a @ c)" using ran_within [of phase hs c a "[]"] by simp
  then show ?thesis using b(3) by (auto simp: Cons p b(1)) (metis append.assoc)
qed simp

lemma ran_in_order_append: "ran_in_order ps a \<Longrightarrow> ran_in_order qs b \<Longrightarrow> ran_in_order (ps @ qs) (a @ b)"
proof (induction ps a rule: ran_in_order.induct)
  case (2 phase hs ps evs)
  then show ?case by fastforce
qed (simp add: ran_in_order_skip)

lemma in_order_then:
  assumes "ensures (ran_in_order ps) f" "\<And>a. ensures (ran_in_order qs) (g a)"
  shows "ensures (ran_in_order (ps @ qs)) (and_then f g)"
  using ensures_and_then [OF assms] by (rule ensures_mono) (auto intro: ran_in_order_append)

lemma in_order_grows: "emits P f \<Longrightarrow> ensures (ran_in_order []) f"
  unfolding ensures_def by (auto dest: emits_grows)

lemma in_order_past: "emits P f \<Longrightarrow> (\<And>a. ensures (ran_in_order ps) (g a)) \<Longrightarrow> ensures (ran_in_order ps) (and_then f g)"
  using in_order_then [OF in_order_grows, of P f ps g] by simp

lemma in_order_hooks: "ensures (phase_ran phase hs) f \<Longrightarrow> ensures (ran_in_order [(phase, hs)]) f"
  by (erule ensures_mono) (auto intro: exI [of _ "[]"])

lemma in_order_step: "ensures (ran_in_order ps) f \<Longrightarrow> ensures (ran_in_order qs) (steps fs) \<Longrightarrow> ensures (ran_in_order (ps @ qs)) (steps (f # fs))"
  by (simp add: in_order_then)

lemma in_order_skip: "emits P f \<Longrightarrow> ensures (ran_in_order ps) (steps fs) \<Longrightarrow> ensures (ran_in_order ps) (steps (f # fs))"
  by (simp add: in_order_past)

lemma in_order_load:
  assumes "\<And>tr. le_spec env tr (LoadConfigFile (ConfigFilePath (le_getenv env) cid)) = Inr s" "ensures (ran_in_order ps) (g s)"
  shows "ensures (ran_in_order ps) (and_then (loadFile env cid) g)"
  by (rule ensures_bind [OF loadFile_yields]) (use assms in \<open>auto elim!: ensures_mono intro: ran_in_order_skip\<close>)

lemma hooks_grow: "grows (RunCreateRuntimeHooks env cid hs)" "grows (RunCreateContainerHooks env cid hs)"
  by (auto simp: RunCreateRuntimeHooks_def RunCreateContainerHooks_def intro!: emits_intro grows_ops)

lemma call_grows: "grows (call env c)" "grows (query get c)"
  by (simp_all add: emits_call emits_query)

lemma steps_end: "ensures (ran_in_order []) (steps [])"
  by (simp add: ensures_def)

lemma Start_ran:
  assumes "\<And>tr. le_spec env tr (LoadConfigFile (ConfigFilePath (le_getenv env) cid)) = Inr s"
  shows "ensures (ran_in_order ([(''startContainer'', hl_StartContainer (sp_Hooks s))] @ [(''poststart'', hl_Poststart (sp_Hooks s))] @ [])) (droplet_Start env cid)"
  unfolding droplet_Start_def Let_def
  by (rule in_order_past [OF grows_ops(1)] in_order_past [OF emits_Pair] in_order_load [OF assms] in_order_step [OF in_order_hooks [OF phases_ran(2)]]
      in_order_skip [OF call_grows(1)] in_order_skip [OF grows_ops(6)] in_order_step [OF in_order_hooks [OF phases_ran(3)]] steps_end)+

lemma Run_end_ran:
  assumes "\<And>tr. le_spec env tr (LoadConfigFile (ConfigFilePath (le_getenv env) cid)) = Inr s" "grows finish"
  shows "ensures (ran_in_order ([(''startContainer'', hl_StartContainer (sp_Hooks s))] @
      ([(''startContainer'', hl_StartContainer (sp_Hooks s))] @ [(''poststart'', hl_Poststart (sp_Hooks s))] @ []) @ [(''poststart'', hl_Poststart (sp_Hooks s))] @ []))
     (steps [WriteContainerPidFile env pidFile p, PrepareCgroup env cid s p, PrepareNetwork env cid p (sp_Annotations s),
        UpdateStatus env cid CREATED p 0, RunCreateRuntimeHooks env cid hs, RunCreateContainerHooks env cid hs2,
        RunStartContainerHooks env cid (hl_StartContainer (sp_Hooks s)), droplet_Start env cid, UpdateStatus env cid RUNNING (-1) (-1),
        RunPoststartHooks env cid (hl_Poststart (sp_Hooks s)), finish])"
  by (rule in_order_skip [OF resources_neutral(7)] in_order_skip [OF PrepareCgroup_neutral] in_order_skip [OF PrepareNetwork_neutral]
      in_order_skip [OF grows_ops(6)] in_order_skip [OF hooks_grow(1)] in_order_skip [OF hooks_grow(2)]
      in_order_step [OF in_order_hooks [OF phases_ran(2)]] in_order_step [OF Start_ran [OF assms(1)]]
      in_order_step [OF in_order_hooks [OF phases_ran(3)]] in_order_skip [OF assms(2)] steps_end)+

text \<open>
  Property C34. A run does some hooks twice.  When a run succeeds and the configuration does not change, the hooks for the start of the container ran
  twice in full and then the hooks for the time after the start ran twice: the run makes both lists itself and lets the start make them too.
\<close>

theorem droplet_Run_hooks_twice:
  assumes "\<And>tr. le_spec env tr (LoadConfigFile (ConfigFilePath (le_getenv env) (rn_ContainerId opt))) = Inr s" "droplet_Run env opt tr = (Inr (), tr')"
  shows "\<exists>evs. tr' = tr @ evs \<and> ran_in_order
    [(''startContainer'', hl_StartContainer (sp_Hooks s)), (''startContainer'', hl_StartContainer (sp_Hooks s)),
     (''poststart'', hl_Poststart (sp_Hooks s)), (''poststart'', hl_Poststart (sp_Hooks s))] evs"
proof -
  let ?start = "(''startContainer'', hl_StartContainer (sp_Hooks s))" and ?post = "(''poststart'', hl_Poststart (sp_Hooks s))"
  have wait: "grows (done_if b (steps [call env (WaitProcess p), UpdateStatus env cid STOPPED 0 0]))" for b p cid
    by (auto intro!: emits_intro grows_ops)
  have create: "grows (steps [CreateStatusFile env cid 0 CREATING r b a, RunCreateRuntimeHooks env cid hs, call env (MakeFifo f)])" for cid r b a hs f
    by (auto simp: CreateStatusFile_def intro!: emits_intro grows_ops hooks_grow)
  have "ensures (ran_in_order ([?start] @ ([?start] @ [?post] @ []) @ [?post] @ [])) (droplet_Run env opt)"
    unfolding droplet_Run_def Let_def
    by (rule in_order_past [OF resources_neutral(1)] in_order_load [OF assms(1)] in_order_past [OF resources_neutral(5)]
        in_order_past [OF resources_neutral(2)] in_order_past [OF create] in_order_past [OF call_grows(2)] Run_end_ran [OF assms(1) wait])+
  from ensuresD [OF this assms(2)] show ?thesis by simp
qed

theorem droplet_Run_hooks_twice_witness:
  "\<exists>tr'. droplet_Run (ex_fixed_env CREATED) \<lparr>rn_ContainerId = ''c1'', rn_Bundle = [], rn_PidFile = [], rn_Tty = True\<rparr> [] = (Inr (), tr') \<and>
     ran_in_order [(''startContainer'', [ex_hook]), (''startContainer'', [ex_hook]), (''poststart'', [ex_hook]), (''poststart'', [ex_hook])] tr'"
proof -
  let ?opt = "\<lparr>rn_ContainerId = ''c1'', rn_Bundle = [], rn_PidFile = [], rn_Tty = True\<rparr>"
  have "fst (droplet_Run (ex_fixed_env CREATED) ?opt []) = Inr ()" by code_simp
  then obtain tr' where run: "droplet_Run (ex_fixed_env CREATED) ?opt [] = (Inr (), tr')" by (metis prod.collapse)
  have "le_spec (ex_fixed_env CREATED) tr c = Inr ex_life_spec" for tr c by (simp add: ex_fixed_env_def ex_life_env_def)
  from droplet_Run_hooks_twice [OF this run] have "ran_in_order [(''startContainer'', hl_StartContainer (sp_Hooks ex_life_spec)),
      (''startContainer'', hl_StartContainer (sp_Hooks ex_life_spec)), (''poststart'', hl_Poststart (sp_Hooks ex_life_spec)),
      (''poststart'', hl_Poststart (sp_Hooks ex_life_spec))] tr'" by (simp del: ran_in_order.simps)
  moreover have "hl_StartContainer (sp_Hooks ex_life_spec) = [ex_hook]" "hl_Poststart (sp_Hooks ex_life_spec) = [ex_hook]" by code_simp+
  ultimately show ?thesis using run by (simp del: ran_in_order.simps)
qed

end
