(* ===== verification/Spec2Isabelle.thy ===== *)
theory Spec2Isabelle
  imports Raind_Prelude Store_Core Ipv4_Net Ipam_Store Container_Store Namespace_Store Service_Store
    Pod_Store Policy_Store Object_Stores Bottle_Store Bottle_Service Bottle_Lifecycle
    Iptables Policy_Service Policy_Commit
    Secret_Store Image_Store Path_Safety Node_World Container_Service Container_Create Container_Books
    Sha256 Namespace_Service Pod_Service Pod_Controller Pod_Convergence
    Droplet_Spec Droplet_Config Droplet_Mounts Droplet_Seccomp Droplet_Namespace
    Call_Trace Droplet_Paths Droplet_Init Droplet_Init_Safety Droplet_Init_Paths
    Droplet_Status Droplet_Resources Droplet_Lifecycle Droplet_Supervisor
    Droplet_Lifecycle_Machine Droplet_Lifecycle_Safety Droplet_Lifecycle_Order Droplet_Lifecycle_Stop
begin

text \<open>
  \<^bold>\<open>Raind: a verified model of the state layer and the services of condenser, and of the low-level runtime droplet.\<close>

  Raind is a container runtime in Go. Its daemon \<open>condenser\<close> (\<open>src/internal/condenser\<close>) receives HTTP requests
  from the client \<open>raind\<close>, keeps the state of the system in one JSON document per subject
  (\<open>src/internal/condenser/store\<close>), and drives the low-level runtime \<open>droplet\<close>, iptables and the network. A request is
  handled by a service (\<open>core/*\<close>) that reads and changes the documents through a \<^emph>\<open>manager\<close> (\<open>store/X/X.go\<close>), which
  runs every operation as a closure under the lock of its \<^emph>\<open>store\<close> (\<open>store/X/store.go\<close>).

  \<^bold>\<open>How the code is translated.\<close> A struct is a record, a Go map an association list with distinct keys whose
  list order is the (unspecified) iteration order, an error a value of \<open>go_error\<close>, a fallible call returns \<open>'a res\<close>
  (\<open>Inl\<close> the error), a document on disk is a \<open>'r disk\<close>. Every system call of a store
  may fail: an \<open>io_env\<close> says which call fails with which text, so that a statement about all \<open>io\<close> covers every I/O
  failure. A \<open>time.Now()\<close> is an argument, and so is the host's interface lookup (\<open>host_env\<close>). IPv4 addresses
  are 32-bit words; Go's \<open>int\<close> fields are \<open>int\<close>, and sums of them wrap at 64 bits where the mapping of ids makes them. Strings are byte strings, with trimming, case conversion and quoting
  on ASCII.

  \<^bold>\<open>Theories.\<close>
  \<^item> \<open>Raind_Prelude\<close>: errors, maps, strings and the lemmas on them that every component uses.
  \<^item> \<open>Store_Core\<close>: \<open>withLock\<close>, \<open>withRLock\<close>, \<open>loadOrInit\<close>, \<open>atomicSave\<close>, which the thirteen \<open>store.go\<close> files repeat. A save is
    atomic at every crash point and a failing operation leaves the document alone. The locale \<open>locked_store\<close> is
    the contract between a store and its manager (an invariant kept by each closure is kept by each operation,
    a saved state is what the next operation loads); \<open>plain_store\<close> gives it for the usual \<open>loadOrInit\<close>.
  \<^item> \<open>Ipv4_Net\<close>: the byte-wise address arithmetic of \<open>ipam.go\<close> and \<open>ssm.go\<close>, and the parts of the package \<open>net\<close>
    they call (\<open>ParseIP\<close>, \<open>ParseCIDR\<close>, \<open>Contains\<close>, \<open>String\<close>) on IPv4 texts, with round trips.
  \<^item> \<open>Ipam_Store\<close> (\<open>store/ipam\<close>): pools of addresses. The step relation \<open>ipam_reachable\<close> covers all histories of calls,
    failures and crashes; the invariant over it, freshness of allocated addresses, the round trips of allocate,
    look up and release, and termination and results of the two searches are proved.
  \<^item> \<open>Container_Store\<close> (\<open>store/csm\<close>), \<open>Namespace_Store\<close> (\<open>store/nsm\<close>), \<open>Service_Store\<close> (\<open>store/ssm\<close>), \<open>Pod_Store\<close> (\<open>store/psm\<close>),
    \<open>Policy_Store\<close> (\<open>store/npm\<close>), \<open>Bottle_Store\<close> (\<open>store/bsm\<close>): every method of each manager, the invariant of its document over all
    histories, and what the operations do to the entries that are looked up afterwards.
  \<^item> \<open>Object_Stores\<close> (\<open>store/cfm\<close>, \<open>store/vsm\<close>, \<open>store/ism\<close>, \<open>store/netpol\<close>): four stores that interpret one contract, the locale
    \<open>object_store\<close> (also interpreted by \<open>Bottle_Store\<close>).
  \<^item> \<open>Bottle_Service\<close> and \<open>Bottle_Lifecycle\<close> (\<open>core/bottle/service.go\<close>): normalisation of a specification, the start order by
    Kahn's algorithm, and creating, starting, stopping and deleting a bottle; a failing creation
    is rolled back in the calls and in the document. The container, network and
    policy services are interfaces there; a run records the calls made to them, with answers that are
    arbitrary functions of the calls so far.
  \<^item> \<open>Iptables\<close>, \<open>Policy_Service\<close>, \<open>Policy_Commit\<close> (\<open>core/policy\<close>): the rules the firewall policy service writes with the program
    \<open>iptables\<close>, which is a parameter; the locale \<open>iptables_tool\<close> states what its documentation says of the commands used, and a
    first-match semantics of chains decides packets. After a commit east-west traffic is denied by default and
    north-south traffic follows the mode.
  \<^item> \<open>Secret_Store\<close> (\<open>store/sec\<close>), which restricts the permissions of its files, and \<open>Image_Store\<close> (\<open>store/ilm\<close>).
  \<^item> \<open>Path_Safety\<close> (\<open>utils/path_safety.go\<close>): path cleaning and joining, and the check that a path stays under its root,
    which tests the relative path of \<open>filepath.Rel\<close> and is shown to accept exactly the paths below the root.
  \<^item> \<open>Node_World\<close>: the state the services share, that is the documents and the rest of the node; each access takes a tick
    with its own I/O outcome, and calls of the runtime, the network and the file system have arbitrary effects.
  \<^item> \<open>Container_Service\<close>, \<open>Container_Create\<close>, \<open>Container_Books\<close> (\<open>core/container\<close>): create, start, stop, delete, exec and the
    lists; a failing creation leaves no trace in the container and address documents.
  \<^item> \<open>Namespace_Service\<close> (\<open>core/namespace\<close>): creating, removing and listing namespaces; only an empty one is removed. \<open>Sha256\<close> is
    the digest of the standard library, for the names of their bridges.
  \<^item> \<open>Pod_Service\<close>, \<open>Pod_Controller\<close>, \<open>Pod_Convergence\<close> (\<open>core/pod\<close>): pods and the controller that links deployments to replica sets,
    creates and deletes pods, repairs them and backs off after errors. Deployments settle in two passes, no pod has two managers;
    an example shows where scaling does not reach its goal.
  \<^item> \<open>Droplet_Spec\<close>, \<open>Droplet_Config\<close> (\<open>droplet/spec\<close>): the data of a container's \<open>config.json\<close>, how it is built from options and a security
    profile, and the check of it; what is built has exactly the wanted capabilities, and passes the check exactly under the conditions on
    the options that \<open>buildSpec_valid\<close> lists.
  \<^item> \<open>Droplet_Mounts\<close> (\<open>container/mountguard\<close>): the validation of user mounts, which is decided exactly for absolute paths, and of
    destinations under the root file system.
  \<^item> \<open>Droplet_Seccomp\<close> (\<open>container/security/seccomp.go\<close>): the generated filter program, run by a machine for its instructions, refines
    the deny rules; what the rules do not cover is stated too.
  \<^item> \<open>Droplet_Namespace\<close> (\<open>container/rootless\<close>, \<open>container/namespace\<close>): id mappings of rootless containers and the namespaces that are
    created, joined as targets or joined by \<open>nsenter\<close>; the type \<open>time\<close> is neither.
  \<^item> \<open>Call_Trace\<close>: programs judged by the calls they make. The answer to a call is an arbitrary function of the calls before it, so a
    statement about all environments covers every behaviour of the system, other processes included.
  \<^item> \<open>Droplet_Paths\<close> (\<open>utils/paths.go\<close>); \<open>Droplet_Init\<close> (\<open>container/init.go\<close> and the packages it calls): every step of the
    init process up to the execution of the entry point. \<open>Droplet_Init_Safety\<close>: the entry point runs only from a specification with the recorded
    hash and when all restrictions are in place, and the path texts handed to the kernel before the root is changed stay in the container (links in the
    image are not resolved). \<open>Droplet_Init_Paths\<close>: masked and read-only paths, applied after all mounts, and user mounts.
  \<^item> \<open>Droplet_Status\<close> (\<open>status\<close>, \<open>container/statusflow\<close>, \<open>container/signals\<close>, \<open>hook\<close>): the state file, its transitions, and hooks.
    \<open>Droplet_Resources\<close>: bundles, the sealed specification, control groups, network, and shifted layers.
    \<open>Droplet_Lifecycle\<close>: create, start, run, kill and delete. \<open>Droplet_Supervisor\<close>: the shim and commands in a container.
  \<^item> \<open>Droplet_Lifecycle_Machine\<close> and \<open>Droplet_Lifecycle_Safety\<close>: an abstract life cycle of the recorded state, and the refinement: every
    sequence of operations that run one after another (\<open>quiet\<close>: nobody else writes the state files) changes the records by its steps only;
    a foreground run has a step of its own, because it records running without looking at the state.
    \<open>Droplet_Lifecycle_Order\<close> and \<open>Droplet_Lifecycle_Stop\<close> assume no such thing: the order of the calls of start, delete, kill and run under
    any interference.

  \<^bold>\<open>Bounds and fuel.\<close> The address search \<open>findFree_loop\<close> and the subnet search \<open>bridge_loop\<close> carry a round counter with
  the bound \<open>2^24\<close>: every subnet from /8 on has fewer addresses, and the scan of /24 subnets of a /16 ends after
  at most 256 rounds (\<open>findFreeIpv4_lowest\<close>, \<open>ipam_StoreBridge_first_free\<close>). The cluster address scan \<open>cluster_loop\<close> needs
  at most 256 rounds (\<open>allocateClusterIP_lowest\<close>). The main loop \<open>kahn_loop\<close> has the number of services as
  fuel, one round per service (\<open>BuildStartOrder_correct\<close>). In each case the theorem shows that the bound is not reached. The waits of
  droplet (\<open>poll_until\<close>) end by their deadline: the time a look takes is arbitrary, the pause between two looks is positive
  (\<open>await_exit_bounded\<close>).

  \<^bold>\<open>Interleavings.\<close> Operations of one store exclude each other (mutex and \<open>flock\<close>), so a history of a document is a sequence
  of operations; the reachability relations quantify over all of them. A service operation reads a document, calls other
  services and writes again without holding the lock in between; for bottles the model covers one
  such operation at a time on the bottle document.

  \<^bold>\<open>Not modelled.\<close> HTTP routing and JSON encoding, the image
  registry and build, certificates, log shipping, the DNS proxy and the command line clients: they are I/O around external
  programs and libraries. The decoding of pod manifests, the expansion of namespaced network policies and the rules the service controller
  writes for the endpoints of services are left out as well; the stores and services they call are modelled.
\<close>

end
